(* ===== verification/GoPrelude.thy ===== *)
theory GoPrelude
  imports
    Main
    "HOL-Library.AList"
    "HOL-Library.Char_ord"
    "HOL-Library.List_Lexorder"
    "HOL-Library.Monad_Syntax"
    "HOL-Library.Multiset"
begin

text \<open>
  Shared vocabulary of the development: how the Go constructs that the modelled packages use are
  written in HOL, and the generic lemmas the component theories rest on.

  \<^item> A Go \<open>string\<close> is a byte string, here \<open>string\<close> with the lexicographic order of bytes.
  \<^item> An \<open>int64\<close> or \<open>int\<close> (64-bit targets) is an \<open>int\<close>; arithmetic that may overflow goes
    through \<open>wrap64\<close>. Go's integer division truncates towards zero (\<open>go_div\<close>).
  \<^item> A Go map is an association list with distinct keys. Its order stands for the (unspecified)
    order of a \<open>range\<close> loop over the map, and \<open>AList.update\<close> is the assignment \<open>m[k] = v\<close>.
  \<^item> A \<open>*T\<close> that may be nil and an \<open>optional.Value[T]\<close> are \<open>'a option\<close>.
  \<^item> A function that may panic returns \<open>'a option\<close>, and \<open>None\<close> is the panic. \<open>for_each\<close> is
    the \<open>for ... range\<close> loop over a slice in that monad.
\<close>

named_theorems go_simps \<open>unfolding rules of the Go vocabulary\<close>

section \<open>Integers\<close>

definition wrap64 :: "int \<Rightarrow> int" where
  "wrap64 x = (x + 2 ^ 63) mod 2 ^ 64 - 2 ^ 63"

definition in_int64 :: "int \<Rightarrow> bool" where
  "in_int64 x \<longleftrightarrow> - (2 ^ 63) \<le> x \<and> x < 2 ^ 63"

lemma wrap64_id [simp]: "in_int64 x \<Longrightarrow> wrap64 x = x"
  by (simp add: wrap64_def in_int64_def)

lemma wrap64_range [simp]: "in_int64 (wrap64 x)"
proof -
  have "0 \<le> (x + 2 ^ 63) mod 2 ^ 64" and "(x + 2 ^ 63) mod 2 ^ 64 < 2 ^ 64"
    by (rule pos_mod_sign, simp) (rule pos_mod_bound, simp)
  then show ?thesis by (simp add: wrap64_def in_int64_def)
qed

definition go_div :: "int \<Rightarrow> int \<Rightarrow> int" where
  "go_div a b = sgn a * sgn b * (\<bar>a\<bar> div \<bar>b\<bar>)"

lemma go_div_nonneg: "0 \<le> a \<Longrightarrow> 0 < b \<Longrightarrow> go_div a b = a div b"
  by (cases "a = 0") (simp_all add: go_div_def)

text \<open>\<open>Time.Sub\<close> on times in nanoseconds, which saturates.\<close>

definition time_Sub :: "int \<Rightarrow> int \<Rightarrow> int" where
  "time_Sub t u = max (- (2 ^ 63)) (min (2 ^ 63 - 1) (t - u))"

section \<open>Panics and loops\<close>

fun for_each :: "('a \<Rightarrow> 's \<Rightarrow> 's option) \<Rightarrow> 'a list \<Rightarrow> 's \<Rightarrow> 's option" where
  "for_each f [] s = Some s"
| "for_each f (x # xs) s = Option.bind (f x s) (for_each f xs)"

lemma for_each_append:
  "for_each f (xs @ ys) s = Option.bind (for_each f xs s) (for_each f ys)"
  by (induction xs arbitrary: s) (auto split: Option.bind_splits)

text \<open>A loop whose body cannot panic on the given elements is a plain fold.\<close>

lemma for_each_total:
  assumes "\<And>x s. x \<in> set xs \<Longrightarrow> f x s = Some (g x s)"
  shows "for_each f xs s = Some (fold g xs s)"
  using assms by (induction xs arbitrary: s) auto

lemma for_each_invariant:
  assumes "I s" and "\<And>x s. x \<in> set xs \<Longrightarrow> I s \<Longrightarrow> \<exists>s'. f x s = Some s' \<and> I s'"
  shows "\<exists>s'. for_each f xs s = Some s' \<and> I s'"
  using assms
proof (induction xs arbitrary: s)
  case Nil
  then show ?case by simp
next
  case (Cons x xs)
  from Cons.prems obtain s1 where s1: "f x s = Some s1" "I s1" by auto
  have "\<exists>s'. for_each f xs s1 = Some s' \<and> I s'"
    by (rule Cons.IH) (use s1 Cons.prems in auto)
  with s1 show ?case by simp
qed

lemma fold_invariant_set:
  assumes "I s" and "\<And>x s. x \<in> set xs \<Longrightarrow> I s \<Longrightarrow> I (f x s)"
  shows "I (fold f xs s)"
  using assms by (induction xs arbitrary: s) auto

text \<open>A loop that updates each element of a slice through its pointer.\<close>

fun map_each :: "('a \<Rightarrow> 'b option) \<Rightarrow> 'a list \<Rightarrow> 'b list option" where
  "map_each f [] = Some []"
| "map_each f (x # xs) = do { y \<leftarrow> f x; ys \<leftarrow> map_each f xs; Some (y # ys) }"

lemma map_each_total:
  assumes "\<And>x. x \<in> set xs \<Longrightarrow> f x = Some (g x)"
  shows "map_each f xs = Some (map g xs)"
  using assms by (induction xs) auto

lemma map_each_related:
  assumes "\<And>x. x \<in> set xs \<Longrightarrow> \<exists>y. f x = Some y \<and> P x y"
  shows "\<exists>ys. map_each f xs = Some ys \<and> list_all2 P xs ys"
  using assms
proof (induction xs)
  case (Cons x xs)
  obtain y ys where "f x = Some y" "P x y" "map_each f xs = Some ys" "list_all2 P xs ys"
    using Cons.IH Cons.prems by force
  then show ?case by simp
qed simp

text \<open>The index of the first element that equals a value.\<close>

fun first_index :: "'a list \<Rightarrow> 'a \<Rightarrow> nat option" where
  "first_index [] v = None"
| "first_index (x # xs) v = (if x = v then Some 0 else map_option Suc (first_index xs v))"

lemma first_index_snoc:
  "first_index (xs @ [x]) v =
     (case first_index xs v of Some i \<Rightarrow> Some i | None \<Rightarrow> if x = v then Some (length xs) else None)"
  by (induction xs) (auto split: option.splits)

lemma first_index_Some: "first_index xs v = Some i \<Longrightarrow> i < length xs \<and> xs ! i = v"
  by (induction xs arbitrary: i) (auto split: if_splits)

section \<open>Maps\<close>

type_synonym ('k, 'v) gomap = "('k \<times> 'v) list"

abbreviation gmap_wf :: "('k, 'v) gomap \<Rightarrow> bool" where
  "gmap_wf m \<equiv> distinct (map fst m)"

abbreviation gmap_get :: "('k, 'v) gomap \<Rightarrow> 'k \<Rightarrow> 'v option" where
  "gmap_get m k \<equiv> map_of m k"

abbreviation gmap_keys :: "('k, 'v) gomap \<Rightarrow> 'k list" where
  "gmap_keys m \<equiv> map fst m"

abbreviation gmap_vals :: "('k, 'v) gomap \<Rightarrow> 'v list" where
  "gmap_vals m \<equiv> map snd m"

lemma gmap_wf_update [simp]: "gmap_wf m \<Longrightarrow> gmap_wf (AList.update k v m)"
  by (rule distinct_update)

lemma gmap_get_update [simp]:
  "gmap_get (AList.update k v m) k' = (if k = k' then Some v else gmap_get m k')"
  by (simp add: update_conv')

lemma gmap_vals_update_subset:
  "set (gmap_vals (AList.update k v m)) \<subseteq> insert v (set (gmap_vals m))"
  by (induction m) auto

lemma gmap_keys_update [simp]: "fst ` set (AList.update k v m) = insert k (fst ` set m)"
  by (induction m) auto

lemma gmap_update_new: "k \<notin> fst ` set m \<Longrightarrow> AList.update k v m = m @ [(k, v)]"
  by (induction m) auto

lemma update_update_same: "AList.update k v (AList.update k w m) = AList.update k v m"
  by (induction m) auto

text \<open>The loop that updates each value of a map through its pointer, keeping the keys.\<close>

definition map_vals_each :: "('v \<Rightarrow> 'w option) \<Rightarrow> ('k, 'v) gomap \<Rightarrow> ('k, 'w) gomap option" where
  "map_vals_each f m = map_each (\<lambda>(k, v). map_option (Pair k) (f v)) m"

definition gmap_map :: "('v \<Rightarrow> 'w) \<Rightarrow> ('k, 'v) gomap \<Rightarrow> ('k, 'w) gomap" where
  "gmap_map g m = map (\<lambda>(k, v). (k, g v)) m"

lemma map_vals_each_total:
  assumes "\<And>v. v \<in> snd ` set m \<Longrightarrow> f v = Some (g v)"
  shows "map_vals_each f m = Some (gmap_map g m)"
  unfolding map_vals_each_def gmap_map_def
  by (rule map_each_total) (use assms in force)

lemma map_vals_each_related:
  assumes "\<And>k v. (k, v) \<in> set m \<Longrightarrow> \<exists>w. f v = Some w \<and> P k v w"
  shows "\<exists>m'. map_vals_each f m = Some m' \<and> list_all2 (\<lambda>(k, v) (k', w). k' = k \<and> P k v w) m m'"
  unfolding map_vals_each_def by (rule map_each_related) (use assms in force)

lemma gmap_map_keys [simp]: "gmap_keys (gmap_map g m) = gmap_keys m"
  by (induction m) (auto simp: gmap_map_def)

lemma gmap_map_get [simp]: "gmap_get (gmap_map g m) k = map_option g (gmap_get m k)"
  by (simp add: gmap_map_def map_of_map)

lemma set_gmap_map: "set (gmap_map g m) = (\<lambda>(k, v). (k, g v)) ` set m"
  by (simp add: gmap_map_def)

lemma gmap_map_comp [simp]: "gmap_map f (gmap_map g m) = gmap_map (f \<circ> g) m"
  by (induction m) (auto simp: gmap_map_def)

text \<open>A loop that keeps some entries of a map.\<close>

lemma set_map_filter_eq: "set (List.map_filter f xs) = {y. \<exists>x \<in> set xs. f x = Some y}"
  by (induction xs) (auto simp: map_filter_simps split: option.splits)

lemma map_filter_keys_distinct:
  "gmap_wf m \<Longrightarrow> gmap_wf (List.map_filter (\<lambda>(k, v). map_option (Pair k) (f k v)) m)"
  by (induction m) (auto simp: map_filter_simps set_map_filter_eq image_iff split: option.splits)

lemma gmap_get_wf_iff: "gmap_wf m \<Longrightarrow> gmap_get m k = Some v \<longleftrightarrow> (k, v) \<in> set m"
  by simp

text \<open>Two iteration orders of one map.\<close>

lemma gmap_perm_get:
  assumes "gmap_wf m" and "mset m = mset m'"
  shows "gmap_get m = gmap_get m'"
  using assms by (metis map_of_inject_set mset_eq_setD distinct_map mset_map mset_eq_imp_distinct_iff)

section \<open>Strings\<close>

definition has_prefix :: "string \<Rightarrow> string \<Rightarrow> bool" where
  "has_prefix s p \<longleftrightarrow> take (length p) s = p"

definition trim_prefix :: "string \<Rightarrow> string \<Rightarrow> string" where
  "trim_prefix s p = (if has_prefix s p then drop (length p) s else s)"

lemma has_prefix_append [simp]: "has_prefix (p @ s) p"
  by (simp add: has_prefix_def)

lemma trim_prefix_append [simp]: "trim_prefix (p @ s) p = s"
  by (simp add: trim_prefix_def)

text \<open>\<open>strings.Split(s, sep)\<close> for a separator of one byte: the pieces between the separators.\<close>

fun split_byte :: "char \<Rightarrow> string \<Rightarrow> string list" where
  "split_byte c [] = [[]]"
| "split_byte c (x # xs) =
     (if x = c then [] # split_byte c xs
      else case split_byte c xs of [] \<Rightarrow> [[x]] | w # ws \<Rightarrow> (x # w) # ws)"

lemma split_byte_nonempty [simp]: "split_byte c s \<noteq> []"
  by (cases s) (auto split: list.splits)

definition is_digit :: "char \<Rightarrow> bool" where
  "is_digit c \<longleftrightarrow> 48 \<le> (of_char c :: nat) \<and> (of_char c :: nat) \<le> 57"

definition digit_val :: "char \<Rightarrow> nat" where
  "digit_val c = of_char c - 48"

definition digit_char :: "nat \<Rightarrow> char" where
  "digit_char n = char_of (48 + n)"

definition nat_of_digits :: "string \<Rightarrow> nat" where
  "nat_of_digits s = foldl (\<lambda>acc c. acc * 10 + digit_val c) 0 s"

text \<open>
  \<open>strconv.ParseInt(s, 10, 64)\<close>: an optional sign and one or more decimal digits, with an error
  (here \<open>None\<close>) for any other syntax and for a value that is not an \<open>int64\<close>.
\<close>

definition parse_int64 :: "string \<Rightarrow> int option" where
  "parse_int64 s =
     (let (neg, ds) = (case s of [] \<Rightarrow> (False, [])
                       | c # cs \<Rightarrow> if c = CHR ''-'' then (True, cs)
                                    else if c = CHR ''+'' then (False, cs) else (False, s))
      in if ds = [] \<or> \<not> list_all is_digit ds then None
         else let v = (if neg then - int (nat_of_digits ds) else int (nat_of_digits ds))
              in if in_int64 v then Some v else None)"

text \<open>\<open>strconv.Itoa\<close>: the decimal digits, with a minus sign for a negative number.\<close>

fun nat_digits :: "nat \<Rightarrow> string" where
  "nat_digits n = (if n < 10 then [digit_char n] else nat_digits (n div 10) @ [digit_char (n mod 10)])"

declare nat_digits.simps [simp del]

definition itoa :: "int \<Rightarrow> string" where
  "itoa i = (if i < 0 then CHR ''-'' # nat_digits (nat (- i)) else nat_digits (nat i))"

lemma is_digit_digit_char [simp]: "n < 10 \<Longrightarrow> is_digit (digit_char n)"
  by (simp add: is_digit_def digit_char_def)

lemma digit_val_digit_char [simp]: "n < 10 \<Longrightarrow> digit_val (digit_char n) = n"
  by (simp add: digit_val_def digit_char_def)

lemma nat_digits_digits: "list_all is_digit (nat_digits n)"
proof (induction n rule: nat_digits.induct)
  case (1 n)
  then show ?case by (subst nat_digits.simps) auto
qed

lemma nat_digits_nonempty [simp]: "nat_digits n \<noteq> []"
  by (subst nat_digits.simps) simp

lemma nat_of_digits_snoc: "nat_of_digits (ds @ [c]) = nat_of_digits ds * 10 + digit_val c"
  by (simp add: nat_of_digits_def)

lemma nat_of_digits_nat_digits [simp]: "nat_of_digits (nat_digits n) = n"
proof (induction n rule: nat_digits.induct)
  case (1 n)
  show ?case
  proof (cases "n < 10")
    case True
    then show ?thesis by (subst nat_digits.simps) (simp add: nat_of_digits_def)
  next
    case False
    with 1 have "nat_of_digits (nat_digits (n div 10)) = n div 10" by simp
    with False show ?thesis by (subst nat_digits.simps) (simp add: nat_of_digits_snoc)
  qed
qed

lemma not_is_digit_sign [simp]: "\<not> is_digit (CHR ''-'')" "\<not> is_digit (CHR ''+'')"
  by (simp_all add: is_digit_def)

lemma parse_int64_itoa:
  assumes "in_int64 i"
  shows "parse_int64 (itoa i) = Some i"
proof (cases "i < 0")
  case True
  with assms show ?thesis
    by (simp add: itoa_def parse_int64_def nat_digits_digits)
next
  case False
  obtain c cs where c: "nat_digits (nat i) = c # cs"
    by (cases "nat_digits (nat i)") auto
  have "is_digit c" using nat_digits_digits [of "nat i"] c by simp
  then have nc: "c \<noteq> CHR ''-''" "c \<noteq> CHR ''+''" by auto
  have "list_all is_digit (c # cs)" "nat_of_digits (c # cs) = nat i"
    using nat_digits_digits [of "nat i"] nat_of_digits_nat_digits [of "nat i"] c by auto
  with False nc assms show ?thesis
    by (simp add: itoa_def parse_int64_def c)
qed

text \<open>
  \<open>strings.ToLower\<close>. A string of ASCII bytes is lowered byte by byte. A string with other bytes
  goes through the Unicode tables of the standard library, which are the argument \<open>uni\<close>.
\<close>

definition is_ascii :: "char \<Rightarrow> bool" where
  "is_ascii c \<longleftrightarrow> (of_char c :: nat) < 128"

definition lower_byte :: "char \<Rightarrow> char" where
  "lower_byte c = (if 65 \<le> (of_char c :: nat) \<and> (of_char c :: nat) \<le> 90
                   then char_of ((of_char c :: nat) + 32) else c)"

definition to_lower :: "(string \<Rightarrow> string) \<Rightarrow> string \<Rightarrow> string" where
  "to_lower uni s = (if list_all is_ascii s then map lower_byte s else uni s)"

lemma lower_byte_idem [simp]: "lower_byte (lower_byte c) = lower_byte c"
  by (simp add: lower_byte_def)

lemma is_ascii_lower_byte [simp]: "is_ascii c \<Longrightarrow> is_ascii (lower_byte c)"
  by (simp add: lower_byte_def is_ascii_def)

lemma to_lower_ascii_idem: "list_all is_ascii s \<Longrightarrow> to_lower uni (to_lower uni s) = to_lower uni s"
  by (simp add: to_lower_def list_all_iff)

text \<open>\<open>net.JoinHostPort\<close> puts a host that holds a colon between square brackets.\<close>

definition join_host_port :: "string \<Rightarrow> string \<Rightarrow> string" where
  "join_host_port host port =
     (if CHR '':'' \<in> set host then ''['' @ host @ '']:'' @ port else host @ '':'' @ port)"

end
