(* ===== verification/GoSort.thy ===== *)
theory GoSort
  imports GoPrelude "HOL-Library.Product_Lexorder"
begin

text \<open>
  The \<open>sort.SliceStable\<close> of the Go standard library, which every ordering of the modelled
  packages goes through, as the algorithm it runs: insertion sort on blocks of 20 elements, then
  passes of in-place symmetric merges (\<open>symMerge\<close>) of doubling block size. A slice is a list, the
  two adjacent runs that a merge receives are two lists, and the rotation of a merge is the
  exchange of the two inner pieces.

  Only the comparator decides what the result means. For any comparator the result is a
  permutation of the input (\<open>mset_slice_stable\<close>). The locale \<open>keyed_less\<close> is the contract of a
  well-behaved comparator, one that compares a key of a linear order; under it the algorithm is the
  stable sort by that key (\<open>slice_stable_sort_key\<close>), and with distinct keys the result does not
  depend on the order of the input (\<open>slice_stable_perm\<close>).
\<close>

section \<open>The algorithm\<close>

fun insert_back :: "('a \<Rightarrow> 'a \<Rightarrow> bool) \<Rightarrow> 'a \<Rightarrow> 'a list \<Rightarrow> 'a list" where
  "insert_back lt x [] = [x]"
| "insert_back lt x (y # ys) = (if lt x y then y # insert_back lt x ys else x # y # ys)"

text \<open>
  \<open>insertionSort_func\<close>: element \<open>i\<close> moves left while it is less than its neighbour. The sorted
  prefix is kept reversed, so that its last element comes first.
\<close>

definition insertion_sort :: "('a \<Rightarrow> 'a \<Rightarrow> bool) \<Rightarrow> 'a list \<Rightarrow> 'a list" where
  "insertion_sort lt xs = rev (fold (insert_back lt) xs [])"

text \<open>The binary searches of \<open>symMerge_func\<close>: \<open>for i < j { h := (i+j)/2; if p(h) i = h+1 else j = h }\<close>.\<close>

function bin_search :: "(nat \<Rightarrow> bool) \<Rightarrow> nat \<Rightarrow> nat \<Rightarrow> nat" where
  "bin_search p i j =
     (if i < j then let h = (i + j) div 2 in
        if p h then bin_search p (Suc h) j else bin_search p i h
      else i)"
  by pat_completeness auto
termination
  by (relation "measure (\<lambda>(p, i, j). j - i)") auto

declare bin_search.simps [simp del]

lemma bin_search_stop: "\<not> i < j \<Longrightarrow> bin_search p i j = i"
  by (subst bin_search.simps) simp

lemma bin_search_hit:
  "i < j \<Longrightarrow> p ((i + j) div 2) \<Longrightarrow> bin_search p i j = bin_search p (Suc ((i + j) div 2)) j"
  by (subst bin_search.simps) (simp add: Let_def)

lemma bin_search_miss:
  "i < j \<Longrightarrow> \<not> p ((i + j) div 2) \<Longrightarrow> bin_search p i j = bin_search p i ((i + j) div 2)"
  by (subst bin_search.simps) (simp add: Let_def)

text \<open>Whatever the predicate, the search stops between a hit on the left and a miss on the right.\<close>

lemma bin_search_cut:
  "i \<le> j \<Longrightarrow> i \<le> bin_search p i j \<and> bin_search p i j \<le> j \<and>
     (bin_search p i j = i \<or> p (bin_search p i j - 1)) \<and>
     (bin_search p i j = j \<or> \<not> p (bin_search p i j))"
proof (induction p i j rule: bin_search.induct)
  case (1 p i j)
  let ?h = "(i + j) div 2"
  consider "\<not> i < j" | "i < j" "p ?h" | "i < j" "\<not> p ?h" by blast
  then show ?case
  proof cases
    case a: 1
    with 1(3) show ?thesis by (simp add: bin_search_stop)
  next
    case a: 2
    have "i \<le> Suc ?h" "Suc ?h \<le> j" using a by auto
    with 1(1) [OF a(1) refl a(2)] a show ?thesis
      by (auto simp: bin_search_hit [of i j p])
  next
    case a: 3
    have "i \<le> ?h" "?h \<le> j" using a by auto
    with 1(2) [OF a(1) refl a(2)] a show ?thesis
      by (auto simp: bin_search_miss [of i j p])
  qed
qed

lemmas bin_search_bounds = bin_search_cut [THEN conjunct1] bin_search_cut [THEN conjunct2, THEN conjunct1]

text \<open>Where \<open>symMerge_func\<close> cuts the two runs: how many elements of each go to the left half.\<close>

definition sym_cut :: "('a \<Rightarrow> 'a \<Rightarrow> bool) \<Rightarrow> 'a list \<Rightarrow> 'a list \<Rightarrow> nat" where
  "sym_cut lt xs ys =
     (let m = length xs; b = m + length ys; mid = b div 2; n = mid + m; p = n - 1;
          start = (if m > mid then n - b else 0); r = (if m > mid then mid else m);
          zs = xs @ ys
      in bin_search (\<lambda>c. \<not> lt (zs ! (p - c)) (zs ! c)) start r)"

lemma sym_cut_bounds:
  assumes "xs \<noteq> []" "ys \<noteq> []"
  defines "mid \<equiv> (length xs + length ys) div 2"
  shows "sym_cut lt xs ys \<le> length xs" and "sym_cut lt xs ys \<le> mid"
    and "mid - sym_cut lt xs ys \<le> length ys"
proof -
  let ?m = "length xs"
  let ?b = "?m + length ys"
  let ?start = "if ?m > mid then mid + ?m - ?b else 0"
  let ?r = "if ?m > mid then mid else ?m"
  have "?start \<le> ?r" by (auto simp: mid_def)
  from bin_search_bounds(1) [OF this] bin_search_bounds(2) [OF this]
  have "?start \<le> sym_cut lt xs ys" "sym_cut lt xs ys \<le> ?r"
    by (auto simp: sym_cut_def Let_def mid_def)
  then show "sym_cut lt xs ys \<le> length xs" and "sym_cut lt xs ys \<le> mid"
    and "mid - sym_cut lt xs ys \<le> length ys"
    by (auto simp: mid_def split: if_splits)
qed

function sym_merge :: "('a \<Rightarrow> 'a \<Rightarrow> bool) \<Rightarrow> 'a list \<Rightarrow> 'a list \<Rightarrow> 'a list" where
  "sym_merge lt xs ys =
     (if xs = [] \<or> ys = [] then xs @ ys
      else if length xs = 1 then
        let i = bin_search (\<lambda>h. lt (ys ! h) (hd xs)) 0 (length ys)
        in take i ys @ xs @ drop i ys
      else if length ys = 1 then
        let i = bin_search (\<lambda>h. \<not> lt (hd ys) (xs ! h)) 0 (length xs)
        in take i xs @ ys @ drop i xs
      else
        let mid = (length xs + length ys) div 2; s = sym_cut lt xs ys; t = mid - s
        in sym_merge lt (take s xs) (take t ys) @ sym_merge lt (drop s xs) (drop t ys))"
  by pat_completeness auto
termination
proof (relation "measure (\<lambda>(lt, xs, ys). length xs + length ys)", goal_cases)
  case 1
  show ?case by simp
next
  case (2 lt xs ys mid s t)
  from 2 have "length xs \<ge> 2" "length ys \<ge> 2"
    by (cases xs; cases ys; auto simp: Suc_le_eq)+
  with sym_cut_bounds [of xs ys lt] 2 show ?case by auto
next
  case (3 lt xs ys mid s t)
  from 3 have "length xs \<ge> 2" "length ys \<ge> 2"
    by (cases xs; cases ys; auto simp: Suc_le_eq)+
  with sym_cut_bounds [of xs ys lt] 3 show ?case by auto
qed

declare sym_merge.simps [simp del]

fun merge_pass :: "('a \<Rightarrow> 'a \<Rightarrow> bool) \<Rightarrow> 'a list list \<Rightarrow> 'a list list" where
  "merge_pass lt (xs # ys # zss) = sym_merge lt xs ys # merge_pass lt zss"
| "merge_pass lt zss = zss"

lemma length_merge_pass [simp]: "length (merge_pass lt zss) = (length zss + 1) div 2"
  by (induction lt zss rule: merge_pass.induct) auto

fun merge_passes :: "('a \<Rightarrow> 'a \<Rightarrow> bool) \<Rightarrow> 'a list list \<Rightarrow> 'a list" where
  "merge_passes lt [] = []"
| "merge_passes lt [xs] = xs"
| "merge_passes lt (xs # ys # zss) = merge_passes lt (merge_pass lt (xs # ys # zss))"

function blocks :: "nat \<Rightarrow> 'a list \<Rightarrow> 'a list list" where
  "blocks n xs = (if n = 0 \<or> length xs \<le> n then [xs] else take n xs # blocks n (drop n xs))"
  by pat_completeness auto
termination
  by (relation "measure (\<lambda>(n, xs). length xs)") auto

declare blocks.simps [simp del]

definition slice_stable :: "('a \<Rightarrow> 'a \<Rightarrow> bool) \<Rightarrow> 'a list \<Rightarrow> 'a list" where
  "slice_stable lt xs = merge_passes lt (map (insertion_sort lt) (blocks 20 xs))"

text \<open>Up to 20 elements the algorithm is insertion sort.\<close>

lemma slice_stable_short: "length xs \<le> 20 \<Longrightarrow> slice_stable lt xs = insertion_sort lt xs"
  by (simp add: slice_stable_def blocks.simps)

section \<open>Any comparator: a permutation\<close>

lemma mset_insert_back [simp]: "mset (insert_back lt x xs) = add_mset x (mset xs)"
  by (induction xs) auto

lemma mset_insertion_sort [simp]: "mset (insertion_sort lt xs) = mset xs"
proof -
  have "mset (fold (insert_back lt) xs acc) = mset xs + mset acc" for acc
    by (induction xs arbitrary: acc) auto
  from this [of "[]"] show ?thesis by (simp add: insertion_sort_def)
qed

lemma mset_take_drop:
  "mset (take n xs) + mset (drop n xs) = mset xs" "mset (drop n xs) + mset (take n xs) = mset xs"
  by (metis append_take_drop_id mset_append union_commute)+

lemma mset_sym_merge [simp]: "mset (sym_merge lt xs ys) = mset xs + mset ys"
proof (induction lt xs ys rule: sym_merge.induct)
  case (1 lt xs ys)
  let ?mid = "(length xs + length ys) div 2"
  let ?s = "sym_cut lt xs ys"
  consider "xs = [] \<or> ys = []" | "\<not> (xs = [] \<or> ys = [])" "length xs = 1"
    | "\<not> (xs = [] \<or> ys = [])" "length xs \<noteq> 1" "length ys = 1"
    | "\<not> (xs = [] \<or> ys = [])" "length xs \<noteq> 1" "length ys \<noteq> 1" by blast
  then show ?case
  proof cases
    case 1
    then show ?thesis by (subst sym_merge.simps) auto
  next
    case 2
    then show ?thesis
      by (subst sym_merge.simps) (simp add: Let_def ac_simps mset_take_drop)
  next
    case 3
    then show ?thesis
      by (subst sym_merge.simps)
        (simp add: Let_def ac_simps mset_take_drop add.left_commute [of "mset ys"])
  next
    case 4
    note IH = 1(1) [OF 4 refl refl refl] 1(2) [OF 4 refl refl refl]
    have "mset (sym_merge lt xs ys) = (mset (take ?s xs) + mset (take (?mid - ?s) ys)) +
        (mset (drop ?s xs) + mset (drop (?mid - ?s) ys))"
      using 4 IH by (subst sym_merge.simps) (simp add: Let_def)
    also have "\<dots> = mset xs + mset ys"
      by (metis (no_types, lifting) add.assoc add.left_commute mset_take_drop)
    finally show ?thesis .
  qed
qed

lemma mset_merge_pass: "mset (concat (merge_pass lt zss)) = mset (concat zss)"
  by (induction lt zss rule: merge_pass.induct) auto

lemma mset_merge_passes [simp]: "mset (merge_passes lt zss) = mset (concat zss)"
proof (induction lt zss rule: merge_passes.induct)
  case (3 lt xs ys zss)
  then show ?case using mset_merge_pass [of lt "xs # ys # zss"] by simp
qed auto

lemma concat_blocks: "concat (blocks n xs) = xs"
proof (induction n xs rule: blocks.induct)
  case (1 n xs)
  then show ?case by (subst blocks.simps) auto
qed

lemma mset_concat_map_insertion_sort:
  "mset (concat (map (insertion_sort lt) zss)) = mset (concat zss)"
  by (induction zss) auto

theorem mset_slice_stable [simp]: "mset (slice_stable lt xs) = mset xs"
  by (simp add: slice_stable_def mset_concat_map_insertion_sort concat_blocks)

lemma set_slice_stable [simp]: "set (slice_stable lt xs) = set xs"
  by (rule mset_eq_setD) simp

lemma length_slice_stable [simp]: "length (slice_stable lt xs) = length xs"
  by (metis mset_slice_stable size_mset)

lemma distinct_slice_stable [simp]: "distinct (slice_stable lt xs) = distinct xs"
  by (metis mset_slice_stable mset_eq_imp_distinct_iff)

section \<open>A comparator on keys: the stable sort\<close>

text \<open>Bounds that one element of a sorted list gives for the elements before or after it.\<close>

lemma sorted_take_le:
  assumes "sorted (map f xs)" "i \<le> length xs" "i = 0 \<or> f (xs ! (i - 1)) \<le> b" "x \<in> set (take i xs)"
  shows "f x \<le> b"
proof -
  from assms(4) obtain j where j: "j < i" "j < length xs" "x = xs ! j"
    by (auto simp: in_set_conv_nth)
  then have "f (xs ! j) \<le> f (xs ! (i - 1))"
    using assms(1,2) by (auto simp: sorted_iff_nth_mono)
  with j assms(3) show ?thesis by auto
qed

lemma sorted_take_less:
  assumes "sorted (map f xs)" "i \<le> length xs" "i = 0 \<or> f (xs ! (i - 1)) < b" "x \<in> set (take i xs)"
  shows "f x < b"
proof -
  from assms(4) have "i \<noteq> 0" by (cases i) auto
  with assms(3) have "f (xs ! (i - 1)) < b" by simp
  moreover have "f x \<le> f (xs ! (i - 1))"
    by (rule sorted_take_le [OF assms(1,2) _ assms(4)]) simp
  ultimately show ?thesis by simp
qed

lemma sorted_drop_ge:
  assumes "sorted (map f xs)" "i = length xs \<or> b \<le> f (xs ! i)" "x \<in> set (drop i xs)"
  shows "b \<le> f x"
proof -
  from assms(3) obtain j where "j < length xs - i" "x = xs ! (i + j)"
    by (auto simp: in_set_conv_nth)
  then have j: "i + j < length xs" "x = xs ! (i + j)" by auto
  then have "f (xs ! i) \<le> f x"
    using assms(1) by (auto simp: sorted_iff_nth_mono)
  with j assms(2) show ?thesis by auto
qed

lemma sorted_drop_greater:
  assumes "sorted (map f xs)" "i = length xs \<or> b < f (xs ! i)" "x \<in> set (drop i xs)"
  shows "b < f x"
proof -
  from assms(3) have "i < length xs" by (auto simp: in_set_conv_nth)
  with assms(2) have "b < f (xs ! i)" by simp
  also have "\<dots> \<le> f x" by (rule sorted_drop_ge [OF assms(1) _ assms(3)]) simp
  finally show ?thesis .
qed

lemma filter_take_drop: "filter P (take i xs) @ filter P (drop i xs) = filter P xs"
  by (metis append_take_drop_id filter_append)

lemma sorted_map_take: "sorted (map f xs) \<Longrightarrow> sorted (map f (take i xs))"
  by (simp add: take_map flip: take_map)

lemma sorted_map_drop: "sorted (map f xs) \<Longrightarrow> sorted (map f (drop i xs))"
  by (simp add: flip: drop_map)

locale keyed_less =
  fixes lt :: "'a \<Rightarrow> 'a \<Rightarrow> bool" and key :: "'a \<Rightarrow> 'k::linorder"
  assumes lt_key: "lt x y \<longleftrightarrow> key x < key y"
begin

abbreviation same_key :: "'k \<Rightarrow> 'a \<Rightarrow> bool" where
  "same_key k \<equiv> (\<lambda>x. k = key x)"

lemma set_insert_back_keyed: "set (insert_back lt x xs) = insert x (set xs)"
  by (induction xs) auto

lemma sorted_insert_back:
  "sorted_wrt (\<lambda>a b. key b \<le> key a) xs \<Longrightarrow> sorted_wrt (\<lambda>a b. key b \<le> key a) (insert_back lt x xs)"
  by (induction xs) (auto simp: lt_key set_insert_back_keyed)

lemma filter_insert_back:
  "filter (same_key k) (insert_back lt x xs) = filter (same_key k) (x # xs)"
  by (induction xs) (auto simp: lt_key)

lemma sorted_insertion_sort: "sorted (map key (insertion_sort lt xs))"
proof -
  have "sorted_wrt (\<lambda>a b. key b \<le> key a) (fold (insert_back lt) xs [])"
    by (rule fold_invariant_set) (auto intro: sorted_insert_back)
  then show ?thesis by (simp add: insertion_sort_def sorted_map sorted_wrt_rev)
qed

lemma filter_insertion_sort: "filter (same_key k) (insertion_sort lt xs) = filter (same_key k) xs"
proof -
  have "filter (same_key k) (fold (insert_back lt) xs acc) =
      rev (filter (same_key k) xs) @ filter (same_key k) acc" for acc
    by (induction xs arbitrary: acc) (auto simp: filter_insert_back)
  from this [of "[]"] show ?thesis by (simp add: insertion_sort_def flip: rev_filter)
qed

lemma sym_cut_separates:
  assumes sorted: "sorted (map key xs)" "sorted (map key ys)" and ne: "xs \<noteq> []" "ys \<noteq> []"
  defines "s \<equiv> sym_cut lt xs ys" and "t \<equiv> (length xs + length ys) div 2 - sym_cut lt xs ys"
  shows "x \<in> set (take s xs) \<Longrightarrow> y \<in> set (drop t ys) \<Longrightarrow> key x \<le> key y"
    and "y \<in> set (take t ys) \<Longrightarrow> x \<in> set (drop s xs) \<Longrightarrow> key y < key x"
proof -
  define m b where "m = length xs" and "b = length xs + length ys"
  define mid where "mid = b div 2"
  define start r where "start = (if m > mid then mid + m - b else 0)" and "r = (if m > mid then mid else m)"
  define q where "q = (\<lambda>c. \<not> lt ((xs @ ys) ! (mid + m - 1 - c)) ((xs @ ys) ! c))"
  have s: "s = bin_search q start r"
    by (simp add: s_def sym_cut_def Let_def q_def start_def r_def mid_def m_def b_def)
  have "start \<le> r" by (auto simp: start_def r_def mid_def m_def b_def)
  note cut = bin_search_cut [OF this, of q, folded s]
  have t: "t = mid - s" by (simp add: t_def s_def mid_def b_def)
  note bounds = sym_cut_bounds [OF ne, of lt, folded s_def b_def mid_def m_def]
  have r_le: "r \<le> mid" "r \<le> m" by (auto simp: r_def)
  have s_r: "s \<le> r" using cut by simp
  show "key x \<le> key y" if x: "x \<in> set (take s xs)" and y: "y \<in> set (drop t ys)"
  proof -
    from x have s0: "0 < s" by (cases s) auto
    from y have t1: "t < length ys" by (auto simp: in_set_conv_nth)
    have "s \<noteq> start"
      using s0 t1 bounds unfolding start_def t m_def b_def by (auto split: if_splits)
    with cut have "q (s - 1)" by simp
    moreover have "mid + m - 1 - (s - 1) = m + t" "s - 1 < m"
      using s0 bounds t unfolding m_def by auto
    ultimately have "key (xs ! (s - 1)) \<le> key (ys ! t)"
      by (simp add: q_def lt_key nth_append m_def)
    moreover have "key x \<le> key (xs ! (s - 1))"
      by (rule sorted_take_le [OF sorted(1) _ _ x]) (use bounds m_def in auto)
    moreover have "key (ys ! t) \<le> key y"
      by (rule sorted_drop_ge [OF sorted(2) _ y]) simp
    ultimately show ?thesis by simp
  qed
  show "key y < key x" if y: "y \<in> set (take t ys)" and x: "x \<in> set (drop s xs)"
  proof -
    from y have t0: "0 < t" by (cases t) auto
    from x have s1: "s < m" by (auto simp: in_set_conv_nth m_def)
    have "s \<noteq> r" using t0 s1 unfolding t r_def by (auto split: if_splits)
    with cut have "\<not> q s" by simp
    moreover have "mid + m - 1 - s = m + (t - 1)" using t0 t by auto
    ultimately have "key (ys ! (t - 1)) < key (xs ! s)"
      using s1 by (simp add: q_def lt_key nth_append m_def)
    moreover have "key y \<le> key (ys ! (t - 1))"
      by (rule sorted_take_le [OF sorted(2) _ _ y]) (use bounds t in auto)
    moreover have "key (xs ! s) \<le> key x"
      by (rule sorted_drop_ge [OF sorted(1) _ x]) simp
    ultimately show ?thesis by simp
  qed
qed

text \<open>One element inserted at the place the binary search found, before or after its equals.\<close>

lemma insert_before_equals:
  assumes "sorted (map key ys)" and "i \<le> length ys"
    and "i = 0 \<or> key (ys ! (i - 1)) < key x" and "i = length ys \<or> key x \<le> key (ys ! i)"
  shows "sorted (map key (take i ys @ x # drop i ys)) \<and>
    filter (same_key k) (take i ys @ x # drop i ys) = filter (same_key k) [x] @ filter (same_key k) ys"
proof -
  note lo = sorted_take_less [OF assms(1-3)]
  note hi = sorted_drop_ge [OF assms(1,4)]
  have "k = key x \<Longrightarrow> filter (same_key k) (take i ys) = []"
    using lo by (fastforce simp: filter_empty_conv)
  then show ?thesis
    using lo hi assms(1) filter_take_drop [of "same_key k" i ys]
    by (cases "k = key x") (force simp: sorted_append sorted_map_take sorted_map_drop)+
qed

lemma insert_after_equals:
  assumes "sorted (map key xs)" and "i \<le> length xs"
    and "i = 0 \<or> key (xs ! (i - 1)) \<le> key y" and "i = length xs \<or> key y < key (xs ! i)"
  shows "sorted (map key (take i xs @ y # drop i xs)) \<and>
    filter (same_key k) (take i xs @ y # drop i xs) = filter (same_key k) xs @ filter (same_key k) [y]"
proof -
  note lo = sorted_take_le [OF assms(1-3)]
  note hi = sorted_drop_greater [OF assms(1,4)]
  have "k = key y \<Longrightarrow> filter (same_key k) (drop i xs) = []"
    using hi by (fastforce simp: filter_empty_conv)
  then show ?thesis
    using lo hi assms(1) filter_take_drop [of "same_key k" i xs]
    by (cases "k = key y") (force simp: sorted_append sorted_map_take sorted_map_drop)+
qed

text \<open>Two merged halves around a cut, joined.\<close>

lemma join_halves:
  assumes sorted: "sorted (map key xs)" "sorted (map key ys)" and ne: "xs \<noteq> []" "ys \<noteq> []"
  defines "s \<equiv> sym_cut lt xs ys" and "t \<equiv> (length xs + length ys) div 2 - sym_cut lt xs ys"
  assumes L: "sorted (map key L)" "set L = set (take s xs) \<union> set (take t ys)"
      "filter (same_key k) L = filter (same_key k) (take s xs) @ filter (same_key k) (take t ys)"
    and R: "sorted (map key R)" "set R = set (drop s xs) \<union> set (drop t ys)"
      "filter (same_key k) R = filter (same_key k) (drop s xs) @ filter (same_key k) (drop t ys)"
  shows "sorted (map key (L @ R)) \<and>
    filter (same_key k) (L @ R) = filter (same_key k) xs @ filter (same_key k) ys"
proof
  note sep = sym_cut_separates [OF sorted ne, folded s_def t_def]
  have le_same: "key u \<le> key v" if "sorted (map key zs)" "u \<in> set (take i zs)" "v \<in> set (drop i zs)"
    for u v i zs
    using that sorted_append [of "map key (take i zs)" "map key (drop i zs)"]
    by (metis append_take_drop_id image_eqI list.set_map map_append)
  show "sorted (map key (L @ R))"
    using L R sep le_same [OF sorted(1)] le_same [OF sorted(2)] by (fastforce simp: sorted_append)
  have "filter (same_key k) (take t ys) = [] \<or> filter (same_key k) (drop s xs) = []"
    using sep(2) by (fastforce simp: filter_empty_conv)
  then show "filter (same_key k) (L @ R) = filter (same_key k) xs @ filter (same_key k) ys"
    using L(3) R(3) filter_take_drop [of "same_key k" s xs] filter_take_drop [of "same_key k" t ys]
    by auto
qed

lemma sym_merge_correct:
  assumes "sorted (map key xs)" "sorted (map key ys)"
  shows "sorted (map key (sym_merge lt xs ys)) \<and>
     filter (same_key k) (sym_merge lt xs ys) = filter (same_key k) xs @ filter (same_key k) ys"
  using assms
proof (induction "length xs + length ys" arbitrary: xs ys rule: less_induct)
  case less
  note sorted = less.prems
  let ?s = "sym_cut lt xs ys"
  let ?t = "(length xs + length ys) div 2 - ?s"
  consider "xs = [] \<or> ys = []" | x where "xs = [x]" "ys \<noteq> []"
    | y where "length xs > 1" "ys = [y]" | "length xs > 1" "length ys > 1"
    by (metis One_nat_def length_0_conv length_Suc_conv less_one linorder_neqE_nat)
  then show ?case
  proof cases
    case 1
    with sorted show ?thesis by (subst (1 2) sym_merge.simps) auto
  next
    case 2
    define i where "i = bin_search (\<lambda>h. lt (ys ! h) x) 0 (length ys)"
    have eq: "sym_merge lt [x] ys = take i ys @ x # drop i ys"
      using 2 by (subst sym_merge.simps) (simp add: i_def Let_def)
    show ?thesis
      unfolding 2(1) eq by (rule insert_before_equals [OF sorted(2)])
        (use bin_search_cut [of 0 "length ys" "\<lambda>h. lt (ys ! h) x", folded i_def] in
          \<open>auto simp: lt_key\<close>)
  next
    case 3
    define i where "i = bin_search (\<lambda>h. \<not> lt y (xs ! h)) 0 (length xs)"
    have eq: "sym_merge lt xs [y] = take i xs @ y # drop i xs"
      using 3 by (subst sym_merge.simps) (auto simp: i_def Let_def)
    show ?thesis
      unfolding 3(2) eq by (rule insert_after_equals [OF sorted(1)])
        (use bin_search_cut [of 0 "length xs" "\<lambda>h. \<not> lt y (xs ! h)", folded i_def] in
          \<open>auto simp: lt_key\<close>)
  next
    case 4
    then have ne: "xs \<noteq> []" "ys \<noteq> []" by auto
    note b = sym_cut_bounds [OF ne, of lt]
    have eq: "sym_merge lt xs ys =
        sym_merge lt (take ?s xs) (take ?t ys) @ sym_merge lt (drop ?s xs) (drop ?t ys)"
      using 4 ne by (subst sym_merge.simps) (simp add: Let_def)
    have L: "length (take ?s xs) + length (take ?t ys) < length xs + length ys"
      and R: "length (drop ?s xs) + length (drop ?t ys) < length xs + length ys"
      using 4 b by auto
    have sets: "set (sym_merge lt us vs) = set us \<union> set vs" for us vs
      by (metis mset_sym_merge set_mset_mset set_mset_union)
    show ?thesis
      unfolding eq
      by (rule join_halves [OF sorted ne])
        (use less.hyps [OF L] less.hyps [OF R] sorted in
          \<open>simp_all add: sets sorted_map_take sorted_map_drop\<close>)
  qed
qed

lemma merge_pass_correct:
  "\<forall>zs \<in> set zss. sorted (map key zs) \<Longrightarrow>
     (\<forall>zs \<in> set (merge_pass lt zss). sorted (map key zs)) \<and>
     filter (same_key k) (concat (merge_pass lt zss)) = filter (same_key k) (concat zss)"
  by (induction zss rule: induct_list012) (auto simp: sym_merge_correct)

lemma merge_passes_correct:
  assumes "\<forall>zs \<in> set zss. sorted (map key zs)"
  shows "sorted (map key (merge_passes lt zss)) \<and>
     filter (same_key k) (merge_passes lt zss) = filter (same_key k) (concat zss)"
  using assms
proof (induction "length zss" arbitrary: zss rule: less_induct)
  case less
  consider "zss = []" | zs where "zss = [zs]" | xs ys rest where "zss = xs # ys # rest"
    by (metis list.exhaust)
  then show ?case
  proof cases
    case 3
    have "length (merge_pass lt zss) < length zss" by (simp add: 3)
    from less.hyps [OF this] merge_pass_correct [OF less.prems]
    have "sorted (map key (merge_passes lt (merge_pass lt zss))) \<and>
        filter (same_key k) (merge_passes lt (merge_pass lt zss)) = filter (same_key k) (concat zss)"
      by simp
    with 3 show ?thesis by simp
  qed (use less.prems in auto)
qed

theorem slice_stable_sort_key: "slice_stable lt xs = sort_key key xs"
proof -
  let ?zss = "map (insertion_sort lt) (blocks 20 xs)"
  have "filter (same_key k) (concat (map (insertion_sort lt) zss)) = filter (same_key k) (concat zss)"
    for k zss by (induction zss) (auto simp: filter_insertion_sort)
  then have "filter (same_key k) (slice_stable lt xs) = filter (same_key k) xs" for k
    using merge_passes_correct [of ?zss k] sorted_insertion_sort
    by (simp add: slice_stable_def concat_blocks)
  moreover have "sorted (map key (slice_stable lt xs))"
    using merge_passes_correct [of ?zss] sorted_insertion_sort by (simp add: slice_stable_def)
  ultimately show ?thesis
    by (intro properties_for_sort_key [symmetric]) auto
qed

lemma sorted_slice_stable: "sorted (map key (slice_stable lt xs))"
  by (simp add: slice_stable_sort_key)

lemma slice_stable_stable:
  "filter (same_key k) (slice_stable lt xs) = filter (same_key k) xs"
  using sort_key_stable [of key k xs] by (simp add: slice_stable_sort_key eq_commute [of k])

text \<open>With distinct keys, every order of the input gives the same output.\<close>

lemma slice_stable_perm:
  assumes "mset xs = mset ys" and "inj_on key (set xs)"
  shows "slice_stable lt xs = slice_stable lt ys"
proof -
  have "sort_key key ys = sort_key key xs"
    by (rule sort_key_inj_key_eq [symmetric]) (use assms in simp_all)
  then show ?thesis by (simp add: slice_stable_sort_key)
qed

text \<open>The same when elements in a fixed order come first, whatever their keys are.\<close>

lemma slice_stable_perm_suffix:
  assumes "mset es = mset es'" and "inj_on key (set es)"
  shows "slice_stable lt (ds @ es) = slice_stable lt (ds @ es')"
proof -
  have "filter (same_key k) es = filter (same_key k) es'" for k
    using slice_stable_perm [OF assms] slice_stable_stable [of k es] slice_stable_stable [of k es'] by simp
  then have same: "filter (same_key k) (slice_stable lt (ds @ es')) = filter (same_key k) (ds @ es)" for k
    by (simp add: slice_stable_stable)
  have "sort_key key (ds @ es) = slice_stable lt (ds @ es')"
    by (rule properties_for_sort_key) (use assms(1) same in \<open>simp_all add: sorted_slice_stable\<close>)
  then show ?thesis by (simp add: slice_stable_sort_key)
qed

end

section \<open>Shuffling\<close>

text \<open>
  \<open>Shuffle\<close> of \<open>math/rand\<close>: for each index from the last to the second, a swap with a random index
  that is not larger.
\<close>

fun rand_Shuffle :: "(nat \<Rightarrow> nat) \<Rightarrow> nat \<Rightarrow> 'a list \<Rightarrow> 'a list" where
  "rand_Shuffle rnd 0 out = out"
| "rand_Shuffle rnd (Suc i) out =
     (let j = rnd (Suc i) mod (Suc i + 1) in rand_Shuffle rnd i (out[Suc i := out ! j, j := out ! Suc i]))"

lemma mset_rand_Shuffle: "i < length xs \<or> i = 0 \<Longrightarrow> mset (rand_Shuffle rnd i xs) = mset xs"
proof (induction i arbitrary: xs)
  case (Suc i)
  let ?j = "rnd (Suc i) mod (Suc i + 1)"
  let ?ys = "xs[Suc i := xs ! ?j, ?j := xs ! Suc i]"
  have "?j < Suc i + 1" by (rule mod_less_divisor) simp
  moreover have "Suc i < length xs" using Suc.prems by simp
  ultimately have "?j < length xs" by linarith
  then have "mset ?ys = mset xs" using Suc.prems mset_swap [of ?j xs "Suc i"] by simp
  moreover have "mset (rand_Shuffle rnd i ?ys) = mset ?ys" using Suc.prems by (intro Suc.IH) auto
  ultimately show ?case by (simp add: Let_def)
qed simp

end
