(* ===== verification/GoFloat.thy ===== *)
theory GoFloat
  imports Complex_Main GoPrelude
begin

text \<open>
  The \<open>float64\<close> quotients of the modelled packages (success rates, body proportion factors). A
  \<open>float64\<close> value is the rational number it denotes; \<open>f64\<close> is the IEEE 754 rounding to 53
  significant bits, to nearest with ties to even. The operands are \<open>int64\<close> counters, so every
  quotient lies far inside the normal range of the format: exponents need no bound, and there are
  neither infinities nor subnormal numbers.

  The rounding is monotone (\<open>f64_mono\<close>) and exact on its own values (\<open>f64_exact\<close>), which is
  what the comparisons of the code rest on.
\<close>

section \<open>Rounding to 53 bits\<close>

fun bits :: "nat \<Rightarrow> nat" where
  "bits n = (if n = 0 then 0 else Suc (bits (n div 2)))"

declare bits.simps [simp del]

lemma bits_bounds: "0 < n \<Longrightarrow> 0 < bits n \<and> 2 ^ (bits n - 1) \<le> n \<and> n < 2 ^ bits n"
proof (induction n rule: bits.induct)
  case (1 n)
  show ?case
  proof (cases "n div 2 = 0")
    case True
    with 1(2) have "n = 1" by auto
    then show ?thesis by (simp add: bits.simps)
  next
    case False
    with 1 have IH: "0 < bits (n div 2)" "2 ^ (bits (n div 2) - 1) \<le> n div 2" "n div 2 < 2 ^ bits (n div 2)"
      by auto
    then obtain k where k: "bits (n div 2) = Suc k" by (cases "bits (n div 2)") auto
    have "bits n = Suc (Suc k)" using 1(2) k by (subst bits.simps) simp
    with IH k show ?thesis by auto
  qed
qed

definition exponent :: "rat \<Rightarrow> int" where
  "exponent q = (let (n, d) = quotient_of q; k = int (bits (nat n)) - int (bits (nat d))
                 in if 2 powi k \<le> q then k else k - 1)"

definition round_half_even :: "rat \<Rightarrow> int" where
  "round_half_even r = (let f = \<lfloor>r\<rfloor>; d = r - of_int f
     in if d < 1 / 2 then f else if 1 / 2 < d then f + 1 else if even f then f else f + 1)"

definition f64_pos :: "rat \<Rightarrow> rat" where
  "f64_pos q = (let ulp = 2 powi (exponent q - 52) in of_int (round_half_even (q / ulp)) * ulp)"

definition f64 :: "rat \<Rightarrow> rat" where
  "f64 q = (if q = 0 then 0 else if 0 < q then f64_pos q else - f64_pos (- q))"

text \<open>\<open>float64(a) / float64(b)\<close> for two \<open>int64\<close> operands, \<open>b\<close> not zero.\<close>

definition f64_quot :: "int \<Rightarrow> int \<Rightarrow> rat" where
  "f64_quot a b = f64 (f64 (of_int a) / f64 (of_int b))"

lemma two_powi_nat_diff: "(2::rat) powi (int a - int b) = 2 ^ a / 2 ^ b"
  by (simp add: power_int_diff)

lemma bits_rat_bounds:
  assumes "0 < i"
  shows "0 < bits (nat i)" and "(2::rat) ^ (bits (nat i) - 1) \<le> of_int i"
    and "of_int i < (2::rat) ^ bits (nat i)"
proof -
  from assms obtain n where n: "i = int n" "0 < n" by (metis zero_less_imp_eq_int)
  note b = bits_bounds [OF n(2)]
  show "0 < bits (nat i)" using b n by simp
  have "of_nat (2 ^ (bits n - 1)) \<le> (of_nat n :: rat)" using b by (simp only: of_nat_le_iff)
  then show "(2::rat) ^ (bits (nat i) - 1) \<le> of_int i" using n by simp
  have "(of_nat n :: rat) < of_nat (2 ^ bits n)" using b by (simp only: of_nat_less_iff)
  then show "of_int i < (2::rat) ^ bits (nat i)" using n by simp
qed

lemma exponent_bounds:
  assumes "0 < q"
  shows "2 powi exponent q \<le> q \<and> q < 2 powi (exponent q + 1)"
proof -
  obtain n d where nd: "quotient_of q = (n, d)" by fastforce
  then have q: "q = of_int n / of_int d" and d: "0 < d"
    by (auto dest: quotient_of_div quotient_of_denom_pos)
  with assms have n: "0 < n" by (simp add: zero_less_divide_iff)
  define a b where "a = bits (nat n)" and "b = bits (nat d)"
  note a = bits_rat_bounds [OF n, folded a_def] and b = bits_rat_bounds [OF d, folded b_def]
  note nr = a(2,3) and dr = b(2,3)
  have dp: "(0::rat) < of_int d" using d by simp
  have lower: "2 powi (int a - int b - 1) \<le> q"
  proof -
    have "(2::rat) powi (int a - int b - 1) = 2 ^ (a - 1) / 2 ^ b"
      using a(1) two_powi_nat_diff [of "a - 1" b] by (simp add: of_nat_diff algebra_simps)
    also have "\<dots> \<le> of_int n / of_int d"
      using nr(1) dr(2) dp n by (intro frac_le) auto
    finally show ?thesis using q by simp
  qed
  have upper: "q < 2 powi (int a - int b + 1)"
  proof -
    have "of_int n / of_int d < (2::rat) ^ a / 2 ^ (b - 1)"
      using nr(2) dr(1) n by (intro frac_less) auto
    also have "\<dots> = 2 powi (int a - int b + 1)"
      using b(1) two_powi_nat_diff [of a "b - 1"] by (simp add: of_nat_diff algebra_simps)
    finally show ?thesis using q by simp
  qed
  show ?thesis
    using lower upper by (auto simp: exponent_def nd Let_def a_def b_def not_le)
qed

lemma powi_le_cancel: "(2::rat) powi i < 2 powi j \<Longrightarrow> i < j"
  by (metis linorder_not_le one_le_numeral power_int_increasing zero_less_numeral not_less)

lemma exponent_mono:
  assumes "0 < p" "p \<le> q"
  shows "exponent p \<le> exponent q"
proof -
  have "(2::rat) powi exponent p < 2 powi (exponent q + 1)"
    using exponent_bounds [OF assms(1)] exponent_bounds [of q] assms by linarith
  then show ?thesis using powi_le_cancel by force
qed

section \<open>Monotonicity and exactness\<close>

lemma round_half_even_of_int [simp]: "round_half_even (of_int i) = i"
  by (simp add: round_half_even_def)

lemma round_half_even_mono:
  assumes "r \<le> s"
  shows "round_half_even r \<le> round_half_even s"
proof (cases "\<lfloor>r\<rfloor> = \<lfloor>s\<rfloor>")
  case True
  with assms show ?thesis by (auto simp: round_half_even_def Let_def)
next
  case False
  with floor_mono [OF assms] have "\<lfloor>r\<rfloor> + 1 \<le> \<lfloor>s\<rfloor>" by linarith
  moreover have "round_half_even r \<le> \<lfloor>r\<rfloor> + 1" "\<lfloor>s\<rfloor> \<le> round_half_even s"
    by (auto simp: round_half_even_def Let_def)
  ultimately show ?thesis by linarith
qed

lemma scaled_bounds:
  assumes "0 < q"
  shows "2 ^ 52 \<le> q / 2 powi (exponent q - 52)" and "q / 2 powi (exponent q - 52) < 2 ^ 53"
proof -
  have u: "(0::rat) < 2 powi (exponent q - 52)" by simp
  have "(2::rat) powi exponent q = 2 ^ 52 * 2 powi (exponent q - 52)"
    by (simp add: power_int_diff)
  moreover have "(2::rat) powi (exponent q + 1) = 2 ^ 53 * 2 powi (exponent q - 52)"
    by (simp add: power_int_diff power_int_add)
  ultimately show "2 ^ 52 \<le> q / 2 powi (exponent q - 52)" and "q / 2 powi (exponent q - 52) < 2 ^ 53"
    using exponent_bounds [OF assms] u by (simp_all add: pos_le_divide_eq pos_divide_less_eq)
qed

lemma f64_pos_bounds:
  assumes "0 < q"
  shows "2 powi exponent q \<le> f64_pos q" and "f64_pos q \<le> 2 powi (exponent q + 1)"
proof -
  let ?ulp = "(2::rat) powi (exponent q - 52)"
  have "round_half_even (of_int (2 ^ 52)) \<le> round_half_even (q / ?ulp)"
    by (rule round_half_even_mono) (use scaled_bounds(1) [OF assms] in simp)
  moreover have "round_half_even (q / ?ulp) \<le> round_half_even (of_int (2 ^ 53))"
    by (rule round_half_even_mono) (use scaled_bounds(2) [OF assms] in simp)
  ultimately have r: "2 ^ 52 \<le> round_half_even (q / ?ulp)" "round_half_even (q / ?ulp) \<le> 2 ^ 53"
    by (simp_all only: round_half_even_of_int)
  then have "of_int (2 ^ 52) \<le> (of_int (round_half_even (q / ?ulp)) :: rat)"
    "of_int (round_half_even (q / ?ulp)) \<le> (of_int (2 ^ 53) :: rat)"
    by (simp_all only: of_int_le_iff)
  then have "of_int (2 ^ 52) * ?ulp \<le> of_int (round_half_even (q / ?ulp)) * ?ulp"
    "of_int (round_half_even (q / ?ulp)) * ?ulp \<le> of_int (2 ^ 53) * ?ulp"
    by (auto intro!: mult_right_mono simp del: of_int_power)
  moreover have "of_int (2 ^ 52) * ?ulp = 2 powi exponent q" "of_int (2 ^ 53) * ?ulp = 2 powi (exponent q + 1)"
    by (simp_all add: power_int_diff power_int_add)
  ultimately show "2 powi exponent q \<le> f64_pos q" and "f64_pos q \<le> 2 powi (exponent q + 1)"
    by (simp_all only: f64_pos_def Let_def)
qed

lemma f64_pos_mono:
  assumes "0 < p" "p \<le> q"
  shows "f64_pos p \<le> f64_pos q"
proof (cases "exponent p = exponent q")
  case True
  have "round_half_even (p / 2 powi (exponent q - 52)) \<le> round_half_even (q / 2 powi (exponent q - 52))"
    using assms by (intro round_half_even_mono divide_right_mono) auto
  then show ?thesis by (simp add: f64_pos_def Let_def True mult_right_mono)
next
  case False
  with exponent_mono [OF assms] have "exponent p + 1 \<le> exponent q" by linarith
  then have "(2::rat) powi (exponent p + 1) \<le> 2 powi exponent q"
    by (intro power_int_increasing) auto
  moreover have "0 < q" using assms by linarith
  ultimately show ?thesis
    using f64_pos_bounds [OF assms(1)] f64_pos_bounds [of q] by linarith
qed

lemma f64_0 [simp]: "f64 0 = 0"
  by (simp add: f64_def)

lemma f64_pos_pos: "0 < q \<Longrightarrow> 0 < f64_pos q"
  by (rule order.strict_trans2 [OF _ f64_pos_bounds(1)]) simp_all

lemma f64_mono:
  assumes "0 \<le> p" "p \<le> q"
  shows "f64 p \<le> f64 q"
  using assms f64_pos_mono [of p q] f64_pos_pos [of q] by (auto simp: f64_def)

lemma f64_nonneg: "0 \<le> q \<Longrightarrow> 0 \<le> f64 q"
  using f64_mono [of 0 q] by simp

lemma f64_positive: "0 < q \<Longrightarrow> 0 < f64 q"
  using f64_pos_pos [of q] by (simp add: f64_def)

text \<open>A value that is an integer multiple of its last place is its own rounding.\<close>

lemma f64_exact:
  assumes "0 < q" "q / 2 powi (exponent q - 52) = of_int m"
  shows "f64 q = q"
proof -
  have "f64 q = of_int m * 2 powi (exponent q - 52)"
    using assms(1) by (simp add: f64_def f64_pos_def Let_def assms(2))
  also have "\<dots> = q" using assms(2) by (simp add: field_simps)
  finally show ?thesis .
qed

lemma f64_1 [simp]: "f64 1 = 1"
  by (rule f64_exact [where m = "2 ^ 52"]) (simp_all add: exponent_def bits.simps power_int_def field_simps)

section \<open>Quotients\<close>

lemma f64_quot_self: "0 < a \<Longrightarrow> f64_quot a a = 1"
  using f64_positive [of "of_int a"] by (simp add: f64_quot_def)

lemma f64_quot_positive: "0 < a \<Longrightarrow> 0 < b \<Longrightarrow> 0 < f64_quot a b"
  unfolding f64_quot_def by (intro f64_positive divide_pos_pos) simp_all

lemma f64_quot_le_1:
  assumes "0 \<le> a" "a \<le> b" "0 < b"
  shows "0 \<le> f64_quot a b \<and> f64_quot a b \<le> 1"
proof -
  have "f64 (of_int a) \<le> f64 (of_int b)" using assms by (intro f64_mono) auto
  moreover have "0 < f64 (of_int b)" using assms by (intro f64_positive) simp
  moreover have "0 \<le> f64 (of_int a)" using assms by (intro f64_nonneg) simp
  ultimately have "0 \<le> f64 (of_int a) / f64 (of_int b)" "f64 (of_int a) / f64 (of_int b) \<le> 1"
    by auto
  then show ?thesis
    using f64_nonneg f64_mono [of "f64 (of_int a) / f64 (of_int b)" 1] by (simp add: f64_quot_def)
qed

text \<open>A larger numerator or a smaller denominator never lowers a computed quotient.\<close>

lemma f64_quot_mono:
  assumes "0 \<le> a" "a \<le> c" "0 < d" "d \<le> b"
  shows "f64_quot a b \<le> f64_quot c d"
proof -
  have "f64 (of_int a) \<le> f64 (of_int c)" "f64 (of_int d) \<le> f64 (of_int b)"
    using assms by (auto intro!: f64_mono)
  moreover have "0 < f64 (of_int d)" "0 \<le> f64 (of_int a)"
    using assms by (auto intro!: f64_positive f64_nonneg)
  ultimately have "f64 (of_int a) / f64 (of_int b) \<le> f64 (of_int c) / f64 (of_int d)"
    "0 \<le> f64 (of_int a) / f64 (of_int b)"
    by (auto intro!: frac_le)
  then show ?thesis unfolding f64_quot_def by (intro f64_mono)
qed

text \<open>How a constant is rounded: its exponent and its significand.\<close>

lemma f64_round:
  assumes "0 < q" "2 powi k \<le> q" "q < 2 powi (k + 1)" "round_half_even (q / 2 powi (k - 52)) = m"
  shows "f64 q = of_int m * 2 powi (k - 52)"
proof -
  note b = exponent_bounds [OF assms(1)]
  have "(2::rat) powi k < 2 powi (exponent q + 1)" "(2::rat) powi exponent q < 2 powi (k + 1)"
    using b assms(2,3) by linarith+
  then have "\<not> exponent q + 1 \<le> k" "\<not> k + 1 \<le> exponent q"
    using powi_le_cancel by (metis not_less)+
  then have "exponent q = k" by linarith
  with assms(1,4) show ?thesis by (simp add: f64_def f64_pos_def Let_def)
qed

end
