(* ===== verification/GoNet.thy ===== *)
theory GoNet
  imports GoPrelude
begin

text \<open>
  The IP address functions of the Go standard library (package \<open>net\<close>, on top of
  \<open>net/netip\<close>) that \<open>internal/netxlite/bogon.go\<close> and \<open>internal/minipipeline\<close> call:
  \<open>net.ParseIP\<close>, \<open>net.ParseCIDR\<close>, \<open>IPNet.Contains\<close> and the classification methods of
  \<open>net.IP\<close>. Bytes are numbers below 256, an address is a list of 16 bytes (or of 4 after
  \<open>To4\<close>). The parsers follow the loops of the library, one recursive call per iteration.
\<close>

unbundle bit_operations_syntax

type_synonym ip = "nat list"

section \<open>Parsing\<close>

text \<open>\<open>parseIPv4Fields\<close>: decimal fields without leading zeros, exactly four of them.\<close>

fun v4_loop :: "string \<Rightarrow> char option \<Rightarrow> nat \<Rightarrow> nat \<Rightarrow> nat list \<Rightarrow> nat list option" where
  "v4_loop [] prev val digLen fields = (if length fields < 3 then None else Some (fields @ [val]))"
| "v4_loop (c # cs) prev val digLen fields =
     (if is_digit c then
        if digLen = 1 \<and> val = 0 then None
        else if val * 10 + digit_val c > 255 then None
        else v4_loop cs (Some c) (val * 10 + digit_val c) (digLen + 1) fields
      else if c = CHR ''.'' then
        if prev = None \<or> cs = [] \<or> prev = Some (CHR ''.'') then None
        else if length fields = 3 then None
        else v4_loop cs (Some c) 0 0 (fields @ [val])
      else None)"

definition parse_v4 :: "string \<Rightarrow> nat list option" where
  "parse_v4 s = v4_loop s None 0 0 []"

definition hex_val :: "char \<Rightarrow> nat option" where
  "hex_val c = (let n = of_char c in
     if 48 \<le> n \<and> n \<le> 57 then Some (n - 48)
     else if 97 \<le> n \<and> n \<le> 102 then Some (n - 97 + 10)
     else if 65 \<le> n \<and> n \<le> 70 then Some (n - 65 + 10) else None)"

text \<open>The inner loop of \<open>parseIPv6\<close>: value and number of the leading hexadecimal digits, and the rest.\<close>

fun v6_group :: "string \<Rightarrow> nat \<Rightarrow> nat \<Rightarrow> (nat \<times> nat \<times> string) option" where
  "v6_group [] off acc = Some (acc, off, [])"
| "v6_group (c # cs) off acc =
     (case hex_val c of
        None \<Rightarrow> Some (acc, off, c # cs)
      | Some h \<Rightarrow> if off > 3 then None else if acc * 16 + h > 65535 then None
                  else v6_group cs (off + 1) (acc * 16 + h))"

lemma v6_group_rest: "v6_group s off acc = Some (a, n, rest) \<Longrightarrow> length rest + n = length s + off"
  by (induction s off acc rule: v6_group.induct) (auto split: option.splits if_splits)

function v6_loop :: "string \<Rightarrow> nat list \<Rightarrow> nat option \<Rightarrow> (nat list \<times> nat option \<times> string) option" where
  "v6_loop s bs ellipsis =
     (if length bs \<ge> 16 then Some (bs, ellipsis, s)
      else case v6_group s 0 0 of
        None \<Rightarrow> None
      | Some (acc, off, rest) \<Rightarrow>
          if off = 0 then None
          else if rest \<noteq> [] \<and> hd rest = CHR ''.'' then
            if ellipsis = None \<and> length bs \<noteq> 12 then None
            else if length bs + 4 > 16 then None
            else (case parse_v4 s of None \<Rightarrow> None | Some fs \<Rightarrow> Some (bs @ fs, ellipsis, []))
          else let bs' = bs @ [acc div 256, acc mod 256] in
            (case rest of
               [] \<Rightarrow> Some (bs', ellipsis, [])
             | [c] \<Rightarrow> None
             | c # d # r \<Rightarrow>
                 if c \<noteq> CHR '':'' then None
                 else if d = CHR '':'' then
                   if ellipsis \<noteq> None then None
                   else if r = [] then Some (bs', Some (length bs'), [])
                   else v6_loop r bs' (Some (length bs'))
                 else v6_loop (d # r) bs' ellipsis))"
  by pat_completeness auto
termination
  by (relation "measure (\<lambda>(s, bs, e). length s)") (auto dest: v6_group_rest)

declare v6_loop.simps [simp del]

definition v6_finish :: "nat list \<times> nat option \<times> string \<Rightarrow> ip option" where
  "v6_finish = (\<lambda>(bs, ellipsis, rest).
     if rest \<noteq> [] then None
     else if length bs < 16 then
       (case ellipsis of None \<Rightarrow> None
        | Some e \<Rightarrow> Some (take e bs @ replicate (16 - length bs) 0 @ drop e bs))
     else if ellipsis \<noteq> None then None else Some bs)"

text \<open>
  \<open>parseIPv6\<close> as \<open>net.ParseIP\<close> uses it: an address with a zone is refused by the caller, and
  an empty zone by the parser, so a \<open>%\<close> always ends in \<open>None\<close>.
\<close>

definition parse_v6 :: "string \<Rightarrow> ip option" where
  "parse_v6 s =
     (if CHR ''%'' \<in> set s then None
      else if has_prefix s ''::'' then
        if length s = 2 then Some (replicate 16 0)
        else Option.bind (v6_loop (drop 2 s) [] (Some 0)) v6_finish
      else Option.bind (v6_loop s [] None) v6_finish)"

definition v4_in_v6 :: "nat list \<Rightarrow> ip" where
  "v4_in_v6 fs = replicate 10 0 @ [255, 255] @ fs"

text \<open>\<open>netip.ParseAddr\<close> looks for the first of dot, colon and percent.\<close>

definition parse_addr :: "string \<Rightarrow> (bool \<times> ip) option" where
  "parse_addr s =
     (case dropWhile (\<lambda>c. c \<notin> {CHR ''.'', CHR '':'', CHR ''%''}) s of
        [] \<Rightarrow> None
      | c # _ \<Rightarrow> if c = CHR ''.'' then map_option (\<lambda>fs. (True, v4_in_v6 fs)) (parse_v4 s)
                 else if c = CHR '':'' then map_option (\<lambda>b. (False, b)) (parse_v6 s)
                 else None)"

definition ParseIP :: "string \<Rightarrow> ip option" where
  "ParseIP s = map_option snd (parse_addr s)"

section \<open>Addresses and networks\<close>

definition To4 :: "ip \<Rightarrow> nat list option" where
  "To4 b = (if length b = 4 then Some b
            else if length b = 16 \<and> take 12 b = replicate 10 0 @ [255, 255] then Some (drop 12 b)
            else None)"

definition IP_IsLoopback :: "ip \<Rightarrow> bool" where
  "IP_IsLoopback b = (case To4 b of Some b4 \<Rightarrow> b4 ! 0 = 127 | None \<Rightarrow> b = replicate 15 0 @ [1])"

definition IP_IsLinkLocalUnicast :: "ip \<Rightarrow> bool" where
  "IP_IsLinkLocalUnicast b =
     (case To4 b of Some b4 \<Rightarrow> b4 ! 0 = 169 \<and> b4 ! 1 = 254
      | None \<Rightarrow> length b = 16 \<and> b ! 0 = 254 \<and> b ! 1 AND 192 = 128)"

definition IP_IsLinkLocalMulticast :: "ip \<Rightarrow> bool" where
  "IP_IsLinkLocalMulticast b =
     (case To4 b of Some b4 \<Rightarrow> b4 ! 0 = 224 \<and> b4 ! 1 = 0 \<and> b4 ! 2 = 0
      | None \<Rightarrow> length b = 16 \<and> b ! 0 = 255 \<and> b ! 1 AND 15 = 2)"

record ipnet =
  net_ip :: ip
  net_mask :: "nat list"

text \<open>\<open>CIDRMask(ones, 8 * len)\<close>.\<close>

definition cidr_mask :: "nat \<Rightarrow> nat \<Rightarrow> nat list" where
  "cidr_mask ones n = map (\<lambda>i. 255 - 255 div 2 ^ min 8 (ones - 8 * i)) [0..<n]"

definition mask_bytes :: "nat list \<Rightarrow> nat list \<Rightarrow> nat list" where
  "mask_bytes b m = map2 (\<lambda>x y. x AND y) b m"

text \<open>
  \<open>net.ParseCIDR\<close>: the address, a slash and a prefix length of decimal digits that is at most the
  number of bits of the address. An IPv4 network keeps four bytes.
\<close>

definition ParseCIDR :: "string \<Rightarrow> ipnet option" where
  "ParseCIDR s =
     (case dropWhile (\<lambda>c. c \<noteq> CHR ''/'') s of
        [] \<Rightarrow> None
      | _ # ds \<Rightarrow>
          (case parse_addr (takeWhile (\<lambda>c. c \<noteq> CHR ''/'') s) of
             None \<Rightarrow> None
           | Some (is4, b) \<Rightarrow>
               let iplen = (if is4 then 4 else 16) in
               if ds = [] \<or> \<not> list_all is_digit ds \<or> nat_of_digits ds > 8 * iplen then None
               else let m = cidr_mask (nat_of_digits ds) iplen
                    in Some \<lparr>net_ip = mask_bytes (if is4 then drop 12 b else b) m, net_mask = m\<rparr>))"

definition IPNet_Contains :: "ipnet \<Rightarrow> ip \<Rightarrow> bool" where
  "IPNet_Contains n b =
     (let nn = (case To4 (net_ip n) of Some x \<Rightarrow> x | None \<Rightarrow> net_ip n);
          m = (if length (net_mask n) = 16 \<and> length nn = 4 then drop 12 (net_mask n) else net_mask n);
          x = (case To4 b of Some b4 \<Rightarrow> b4 | None \<Rightarrow> b)
      in length x = length nn \<and> mask_bytes nn m = mask_bytes x m)"

section \<open>Facts\<close>

text \<open>Evaluation of the parsers on literals.\<close>

lemmas parse_eval =
  ParseCIDR_def ParseIP_def parse_addr_def parse_v6_def v6_loop.simps v6_finish_def hex_val_def
  has_prefix_def parse_v4_def is_digit_def digit_val_def nat_of_digits_def Let_def v4_in_v6_def
  cidr_mask_def mask_bytes_def upt_conv_Cons

lemma v4_loop_length:
  "v4_loop s prev val dl fs = Some out \<Longrightarrow> length fs \<le> 3 \<Longrightarrow> length out = 4"
  by (induction s prev val dl fs rule: v4_loop.induct) (auto split: if_splits)

lemma v4_loop_bytes:
  "v4_loop s prev val dl fs = Some out \<Longrightarrow> val < 256 \<Longrightarrow> \<forall>b \<in> set fs. b < 256 \<Longrightarrow> \<forall>b \<in> set out. b < 256"
  by (induction s prev val dl fs rule: v4_loop.induct) (auto split: if_splits)

lemma parse_v4_wf:
  "parse_v4 s = Some fs \<Longrightarrow> length fs = 4 \<and> (\<forall>b \<in> set fs. b < 256)"
  using v4_loop_length [of s None 0 0 "[]"] v4_loop_bytes [of s None 0 0 "[]"]
  by (simp add: parse_v4_def)

section \<open>Endpoints\<close>

datatype addr_error = MissingPort | TooManyColons | MissingBracket | UnexpectedBracket char

text \<open>\<open>net.SplitHostPort\<close>. The port starts after the last colon.\<close>

definition SplitHostPort :: "string \<Rightarrow> addr_error + string \<times> string" where
  "SplitHostPort hostport =
     (if CHR '':'' \<notin> set hostport then Inl MissingPort
      else let port = rev (takeWhile (\<lambda>c. c \<noteq> CHR '':'') (rev hostport));
               front = take (length hostport - length port - 1) hostport in
           if hd hostport = CHR ''['' then
             (if CHR '']'' \<notin> set hostport then Inl MissingBracket
              else let host = takeWhile (\<lambda>c. c \<noteq> CHR '']'') (tl hostport);
                       rest = drop (length host + 2) hostport in
                   if rest = '''' then Inl MissingPort
                   else if length host + 2 \<noteq> length front
                     then Inl (if hd rest = CHR '':'' then TooManyColons else MissingPort)
                   else if CHR ''['' \<in> set (tl hostport) then Inl (UnexpectedBracket (CHR ''[''))
                   else if CHR '']'' \<in> set rest then Inl (UnexpectedBracket (CHR '']''))
                   else Inr (host, port))
           else if CHR '':'' \<in> set front then Inl TooManyColons
           else if CHR ''['' \<in> set hostport then Inl (UnexpectedBracket (CHR ''[''))
           else if CHR '']'' \<in> set hostport then Inl (UnexpectedBracket (CHR '']''))
           else Inr (front, port))"

text \<open>Splitting what was joined.\<close>

definition plain_chars :: "string \<Rightarrow> bool" where
  "plain_chars s \<longleftrightarrow> CHR ''['' \<notin> set s \<and> CHR '']'' \<notin> set s"

lemma last_colon: "CHR '':'' \<notin> set p \<Longrightarrow> rev (takeWhile (\<lambda>c. c \<noteq> CHR '':'') (rev (h @ CHR '':'' # p))) = p"
proof -
  assume "CHR '':'' \<notin> set p"
  then have "takeWhile (\<lambda>c. c \<noteq> CHR '':'') (rev p @ CHR '':'' # rev h) = rev p @ takeWhile (\<lambda>c. c \<noteq> CHR '':'') (CHR '':'' # rev h)"
    by (intro takeWhile_append2) auto
  then show ?thesis by simp
qed

lemma SplitHostPort_join:
  assumes "plain_chars host" and "plain_chars port" and "CHR '':'' \<notin> set port"
  shows "SplitHostPort (join_host_port host port) = Inr (host, port)"
proof (cases "CHR '':'' \<in> set host")
  case True
  let ?hp = "CHR ''['' # host @ '']:'' @ port"
  have hp: "join_host_port host port = ?hp" using True by (simp add: join_host_port_def)
  have "rev (takeWhile (\<lambda>c. c \<noteq> CHR '':'') (rev ?hp)) = port"
    using last_colon [OF assms(3), of "CHR ''['' # host @ '']''"] by simp
  moreover have "takeWhile (\<lambda>c. c \<noteq> CHR '']'') (host @ '']:'' @ port) = host"
    using assms(1) by (subst takeWhile_append2) (auto simp: plain_chars_def)
  ultimately show ?thesis
    using assms True by (simp add: hp SplitHostPort_def Let_def plain_chars_def)
next
  case False
  have hp: "join_host_port host port = host @ CHR '':'' # port" using False by (simp add: join_host_port_def)
  have "hd (host @ CHR '':'' # port) \<noteq> CHR ''[''" using assms(1) by (cases host) (auto simp: plain_chars_def)
  then show ?thesis
    using assms False last_colon [OF assms(3), of host]
    by (simp add: hp SplitHostPort_def Let_def plain_chars_def del: rev_append)
qed

end
