(* ===== verification/Archival.thy ===== *)
theory Archival
  imports GoPrelude Complex_Main
begin

text \<open>
  The data that the measurement code produces and the analysis code reads: the archival events of
  \<open>internal/model/archival.go\<close>, the test helper messages of \<open>internal/model/th.go\<close>, the ASN lookup
  interface of \<open>internal/model/geoip.go\<close>, and the web measurement of
  \<open>internal/minipipeline/measurement.go\<close>.

  Each struct is a record with all the fields of the source, in the order of the source; since
  records of one theory share a name space, the field names carry a short prefix. A \<open>*string\<close> is
  a \<open>string option\<close>, a \<open>[]byte\<close> is a byte string and a \<open>float64\<close> time is a rational number
  (times come from a monotonic clock or from JSON, neither of which yields a NaN). The slices of
  pointers hold no nil pointer: the producers never append one, and the code under \<open>src\<close>
  dereferences the elements without a check.
\<close>

section \<open>Archival events\<close>

record ArchivalDNSAnswer =
  ans_ASN :: int
  ans_ASOrgName :: string
  ans_AnswerType :: string
  ans_Hostname :: string
  ans_IPv4 :: string
  ans_IPv6 :: string
  ans_TTL :: "int option"

record ArchivalDNSLookupResult =
  dns_Answers :: "ArchivalDNSAnswer list"
  dns_Engine :: string
  dns_Failure :: "string option"
  dns_GetaddrinfoError :: int
  dns_Hostname :: string
  dns_QueryType :: string
  dns_RawResponse :: string
  dns_Rcode :: int
  dns_ResolverHostname :: "string option"
  dns_ResolverPort :: "string option"
  dns_ResolverAddress :: string
  dns_T0 :: rat
  dns_T :: rat
  dns_Tags :: "string list"
  dns_TransactionID :: int

record ArchivalTCPConnectStatus =
  st_Blocked :: "bool option"
  st_Failure :: "string option"
  st_Success :: bool

record ArchivalTCPConnectResult =
  tcp_IP :: string
  tcp_Port :: int
  tcp_Status :: ArchivalTCPConnectStatus
  tcp_T0 :: rat
  tcp_T :: rat
  tcp_Tags :: "string list"
  tcp_TransactionID :: int

record ArchivalTLSOrQUICHandshakeResult =
  tls_Network :: string
  tls_Address :: string
  tls_CipherSuite :: string
  tls_Failure :: "string option"
  tls_SoError :: "string option"
  tls_NegotiatedProtocol :: string
  tls_NoTLSVerify :: bool
  tls_PeerCertificates :: "string list"
  tls_ServerName :: string
  tls_OuterServerName :: string
  tls_ECHConfig :: string
  tls_T0 :: rat
  tls_T :: rat
  tls_Tags :: "string list"
  tls_TLSVersion :: string
  tls_TransactionID :: int

type_synonym ArchivalHTTPHeader = "string \<times> string"

record ArchivalHTTPTor =
  tor_ExitIP :: "string option"
  tor_ExitName :: "string option"
  tor_IsTor :: bool

record ArchivalHTTPRequest =
  req_Body :: string
  req_BodyIsTruncated :: bool
  req_HeadersList :: "ArchivalHTTPHeader list"
  req_Headers :: "(string, string) gomap"
  req_Method :: string
  req_Tor :: ArchivalHTTPTor
  req_Transport :: string
  req_URL :: string

record ArchivalHTTPResponse =
  resp_Body :: string
  resp_BodyIsTruncated :: bool
  resp_Code :: int
  resp_HeadersList :: "ArchivalHTTPHeader list"
  resp_Headers :: "(string, string) gomap"
  resp_Locations :: "string list"

record ArchivalHTTPRequestResult =
  http_Network :: string
  http_Address :: string
  http_ALPN :: string
  http_Failure :: "string option"
  http_Request :: ArchivalHTTPRequest
  http_Response :: ArchivalHTTPResponse
  http_T0 :: rat
  http_T :: rat
  http_Tags :: "string list"
  http_TransactionID :: int

record ArchivalNetworkEvent =
  net_Address :: string
  net_Failure :: "string option"
  net_NumBytes :: int
  net_Operation :: string
  net_Proto :: string
  net_T0 :: rat
  net_T :: rat
  net_TransactionID :: int
  net_Tags :: "string list"

section \<open>HTTP headers\<close>

text \<open>
  An \<open>http.Header\<close> maps a key to its values. \<open>sort.Strings\<close> on the keys, which are distinct, is
  the sorted list of keys whatever the order of iteration was.
\<close>

type_synonym http_header = "(string, string list) gomap"

definition ArchivalNewHTTPHeadersList :: "http_header \<Rightarrow> ArchivalHTTPHeader list" where
  "ArchivalNewHTTPHeadersList source =
     concat (map (\<lambda>key. case gmap_get source key of None \<Rightarrow> []
                        | Some vs \<Rightarrow> map (\<lambda>v. (key, v)) vs) (sort (gmap_keys source)))"

definition ArchivalNewHTTPHeadersMap :: "http_header \<Rightarrow> (string, string) gomap" where
  "ArchivalNewHTTPHeadersMap header =
     fold (\<lambda>(key, values) out. case values of [] \<Rightarrow> out | v # _ \<Rightarrow> AList.update key v out) header []"

lemma ArchivalNewHTTPHeadersList_order:
  assumes "gmap_wf h" and "mset h = mset h'"
  shows "ArchivalNewHTTPHeadersList h = ArchivalNewHTTPHeadersList h'"
proof -
  have "sort (gmap_keys h) = sort (gmap_keys h')"
    using assms(2) by (metis mset_map properties_for_sort sorted_sort mset_sort)
  with gmap_perm_get [OF assms] show ?thesis
    by (simp add: ArchivalNewHTTPHeadersList_def)
qed

lemma set_ArchivalNewHTTPHeadersList:
  assumes "gmap_wf h"
  shows "set (ArchivalNewHTTPHeadersList h) = {(k, v). \<exists>vs. (k, vs) \<in> set h \<and> v \<in> set vs}"
proof (intro set_eqI iffI)
  fix kv
  assume "kv \<in> set (ArchivalNewHTTPHeadersList h)"
  then show "kv \<in> {(k, v). \<exists>vs. (k, vs) \<in> set h \<and> v \<in> set vs}"
    by (auto simp: ArchivalNewHTTPHeadersList_def split: option.splits dest!: map_of_SomeD [OF sym])
next
  fix kv
  assume "kv \<in> {(k, v). \<exists>vs. (k, vs) \<in> set h \<and> v \<in> set vs}"
  then obtain k v vs where kv: "kv = (k, v)" "(k, vs) \<in> set h" "v \<in> set vs" by auto
  then have "gmap_get h k = Some vs" using assms by simp
  with kv show "kv \<in> set (ArchivalNewHTTPHeadersList h)"
    by (force simp: ArchivalNewHTTPHeadersList_def intro!: bexI [of _ "(k, vs)"])
qed

lemma headers_map_fold:
  assumes "gmap_wf h"
  shows "gmap_get (fold (\<lambda>(key, values) out. case values of [] \<Rightarrow> out
                         | v # _ \<Rightarrow> AList.update key v out) h m) k =
    (case gmap_get h k of Some (v # _) \<Rightarrow> Some v | _ \<Rightarrow> gmap_get m k)"
  using assms
proof (induction h arbitrary: m)
  case Nil
  then show ?case by simp
next
  case (Cons kv h)
  obtain key vs where kv: "kv = (key, vs)" by (cases kv)
  have "gmap_get h key = None" using Cons.prems kv by (simp add: map_of_eq_None_iff)
  with Cons kv show ?case by (auto split: list.splits option.splits)
qed

lemma ArchivalNewHTTPHeadersMap_get:
  assumes "gmap_wf h"
  shows "gmap_get (ArchivalNewHTTPHeadersMap h) k =
    (case gmap_get h k of Some (v # _) \<Rightarrow> Some v | _ \<Rightarrow> None)"
  unfolding ArchivalNewHTTPHeadersMap_def headers_map_fold [OF assms]
  by (simp split: option.splits list.splits)

section \<open>Test helper messages\<close>

record THRequest =
  thr_HTTPRequest :: string
  thr_HTTPRequestHeaders :: http_header
  thr_TCPConnect :: "string list"
  thr_XQUICEnabled :: bool

record THTCPConnectResult =
  thtcp_Status :: bool
  thtcp_Failure :: "string option"

record THTLSHandshakeResult =
  thtls_ServerName :: string
  thtls_Status :: bool
  thtls_Failure :: "string option"

record THHTTPRequestResult =
  thhttp_BodyLength :: int
  thhttp_DiscoveredH3Endpoint :: string
  thhttp_Failure :: "string option"
  thhttp_Title :: string
  thhttp_Headers :: "(string, string) gomap"
  thhttp_StatusCode :: int

record THDNSResult =
  thdns_Failure :: "string option"
  thdns_Addrs :: "string list"
  thdns_ASNs :: "int list"

record THIPInfo =
  thip_ASN :: int
  thip_Flags :: int

record THResponse =
  th_TCPConnect :: "(string, THTCPConnectResult) gomap"
  th_TLSHandshake :: "(string, THTLSHandshakeResult) gomap"
  th_QUICHandshake :: "(string, THTLSHandshakeResult) gomap"
  th_HTTPRequest :: THHTTPRequestResult
  th_HTTP3Request :: "THHTTPRequestResult option"
  th_DNS :: THDNSResult
  th_IPInfo :: "(string, THIPInfo) gomap"

section \<open>ASN lookup\<close>

text \<open>
  \<open>GeoIPASNLookupper\<close> is an interface over the GeoIP database: \<open>None\<close> is an error, otherwise the
  result is the AS number, a \<open>uint\<close>, and the name of the organisation. It is an argument of the
  functions that take it in the source.
\<close>

type_synonym GeoIPASNLookupper = "string \<Rightarrow> (nat \<times> string) option"

section \<open>Web measurements\<close>

text \<open>The events are slices of pointers that a JSON \<open>null\<close> leaves nil, which is \<open>None\<close> here.\<close>

record WebMeasurementTestKeys =
  tk_Control :: "THResponse option"
  tk_NetworkEvents :: "ArchivalNetworkEvent option list"
  tk_Queries :: "ArchivalDNSLookupResult option list"
  tk_Requests :: "ArchivalHTTPRequestResult option list"
  tk_TCPConnect :: "ArchivalTCPConnectResult option list"
  tk_TLSHandshakes :: "ArchivalTLSOrQUICHandshakeResult option list"
  tk_QUICHandshakes :: "ArchivalTLSOrQUICHandshakeResult option list"
  tk_XControlRequest :: "THRequest option"

record WebMeasurement =
  meas_Input :: string
  meas_TestKeys :: "WebMeasurementTestKeys option"

end
