(* ===== verification/Optional.thy ===== *)
theory Optional
  imports GoPrelude
begin

text \<open>
  \<open>internal/optional/optional.go\<close>. A \<open>Value[T]\<close> wraps a pointer that is nil when the value is
  empty, so it is an \<open>'a option\<close>. Whether \<open>T\<close> is a pointer type is not visible in HOL: the
  constructor \<open>Some\<close> of the source takes the test \<open>isnil\<close> that \<open>reflect\<close> answers, which is
  constantly false when \<open>T\<close> is not a pointer type. The JSON coding of \<open>T\<close> belongs to the standard
  library's reflection and is an argument; an error is \<open>Inl\<close>.
\<close>

definition opt_None :: "'a option" where
  "opt_None = None"

definition maybeSetFromValue :: "('a \<Rightarrow> bool) \<Rightarrow> 'a \<Rightarrow> 'a option" where
  "maybeSetFromValue isnil v = (if isnil v then None else Some v)"

definition opt_Some :: "('a \<Rightarrow> bool) \<Rightarrow> 'a \<Rightarrow> 'a option" where
  "opt_Some isnil v = maybeSetFromValue isnil v"

definition IsNone :: "'a option \<Rightarrow> bool" where
  "IsNone v \<longleftrightarrow> v = None"

text \<open>\<open>Unwrap\<close> asserts that the value is not empty: the result \<open>None\<close> is the panic.\<close>

definition Unwrap :: "'a option \<Rightarrow> 'a option" where
  "Unwrap v = (if IsNone v then None else Some (the v))"

definition UnwrapOr :: "'a option \<Rightarrow> 'a \<Rightarrow> 'a" where
  "UnwrapOr v fallback = (if IsNone v then fallback else the v)"

definition opt_UnmarshalJSON ::
  "('a \<Rightarrow> bool) \<Rightarrow> (string \<Rightarrow> string + 'a) \<Rightarrow> string \<Rightarrow> string + 'a option" where
  "opt_UnmarshalJSON isnil dec data =
     (if data = ''null'' then Inr None
      else case dec data of Inl err \<Rightarrow> Inl err | Inr v \<Rightarrow> Inr (maybeSetFromValue isnil v))"

definition opt_MarshalJSON :: "('a \<Rightarrow> string + string) \<Rightarrow> 'a option \<Rightarrow> string + string" where
  "opt_MarshalJSON enc v = (case v of None \<Rightarrow> Inr ''null'' | Some x \<Rightarrow> enc x)"

lemma Unwrap_simps [simp]: "Unwrap (Some x) = Some x" "Unwrap None = None"
  by (simp_all add: Unwrap_def IsNone_def)

lemma UnwrapOr_simps [simp]: "UnwrapOr (Some x) d = x" "UnwrapOr None d = d"
  by (simp_all add: UnwrapOr_def IsNone_def)

lemma IsNone_simps [simp]: "IsNone None" "\<not> IsNone (Some x)"
  by (simp_all add: IsNone_def)

lemma UnwrapOr_split:
  "P (UnwrapOr v d) \<longleftrightarrow> (v = None \<longrightarrow> P d) \<and> (\<forall>x. v = Some x \<longrightarrow> P x)"
  by (cases v) auto

text \<open>
  A value survives a round trip through JSON when the coding of the underlying type does, writes
  \<open>null\<close> for no value that is not a nil pointer, and the wrapped value is not a nil pointer, which
  the constructor \<open>Some\<close> guarantees.
\<close>

lemma opt_JSON_roundtrip:
  assumes "\<And>x. v = Some x \<Longrightarrow> enc x = Inr (e x) \<and> dec (e x) = Inr x \<and> e x \<noteq> ''null''"
    and "\<And>x. v = Some x \<Longrightarrow> \<not> isnil x"
  shows "\<exists>data. opt_MarshalJSON enc v = Inr data \<and> opt_UnmarshalJSON isnil dec data = Inr v"
  using assms by (cases v) (auto simp: opt_MarshalJSON_def opt_UnmarshalJSON_def maybeSetFromValue_def)

end
