(* ===== verification/GoSet.thy ===== *)
theory GoSet
  imports GoPrelude
begin

text \<open>
  \<open>Set[T]\<close> of \<open>internal/minipipeline/set.go\<close>. The source keeps the keys in a \<open>map[T]bool\<close> that is
  nil in the zero value; \<open>Set\<close> below is that map as an association list (\<open>None\<close> when nil). The
  interface \<open>set_adt\<close> says what its clients rely on, and the interpretation \<open>sx\<close> discharges it for
  the source's operations. The rest of the development stores the abstract value, a HOL set, on
  which \<open>NewSet\<close>, \<open>set_Add\<close>, \<open>set_Keys\<close>, \<open>set_Len\<close> and \<open>set_Contains\<close> are the operations; the facts
  \<open>sx.*\<close> say that the map computes them.
\<close>

section \<open>The interface\<close>

locale set_adt =
  fixes zero :: "'s"
    and add :: "'s \<Rightarrow> 'a::linorder list \<Rightarrow> 's"
    and remove :: "'s \<Rightarrow> 'a list \<Rightarrow> 's"
    and len :: "'s \<Rightarrow> nat"
    and keys :: "'s \<Rightarrow> 'a list"
    and contains :: "'s \<Rightarrow> 'a \<Rightarrow> bool"
    and abs :: "'s \<Rightarrow> 'a set"
    and wf :: "'s \<Rightarrow> bool"
  assumes wf_zero: "wf zero"
    and abs_zero: "abs zero = {}"
    and wf_add: "wf s \<Longrightarrow> wf (add s ks)"
    and abs_add: "wf s \<Longrightarrow> abs (add s ks) = abs s \<union> set ks"
    and wf_remove: "wf s \<Longrightarrow> wf (remove s ks)"
    and abs_remove: "wf s \<Longrightarrow> abs (remove s ks) = abs s - set ks"
    and finite_abs: "finite (abs s)"
    and len_abs: "wf s \<Longrightarrow> len s = card (abs s)"
    and keys_abs: "wf s \<Longrightarrow> keys s = sorted_list_of_set (abs s)"
    and contains_abs: "contains s k \<longleftrightarrow> k \<in> abs s"
begin

lemma keys_add_zero: "keys (add zero ks) = sorted_list_of_set (set ks)"
  by (simp add: keys_abs wf_add wf_zero abs_add abs_zero)

lemma set_keys: "wf s \<Longrightarrow> set (keys s) = abs s"
  by (simp add: keys_abs finite_abs)

lemma length_keys: "wf s \<Longrightarrow> length (keys s) = len s"
  by (simp add: keys_abs len_abs)

lemma keys_roundtrip: "wf s \<Longrightarrow> abs (add zero (keys s)) = abs s"
  by (simp add: abs_add wf_zero abs_zero set_keys)

lemma keys_unique: "wf s \<Longrightarrow> wf t \<Longrightarrow> keys s = keys t \<longleftrightarrow> abs s = abs t"
  by (metis set_keys keys_abs)

lemma contains_add: "wf s \<Longrightarrow> contains (add s ks) k \<longleftrightarrow> contains s k \<or> k \<in> set ks"
  by (simp add: contains_abs abs_add)

lemma contains_remove: "wf s \<Longrightarrow> contains (remove s ks) k \<longleftrightarrow> contains s k \<and> k \<notin> set ks"
  by (simp add: contains_abs abs_remove)

end

section \<open>The source's representation\<close>

type_synonym 'a Set = "('a, bool) gomap option"

definition Set_state :: "'a Set \<Rightarrow> ('a, bool) gomap" where
  "Set_state sx = (case sx of None \<Rightarrow> [] | Some m \<Rightarrow> m)"

definition Set_zero :: "'a Set" where
  "Set_zero = None"

definition Set_Add :: "'a Set \<Rightarrow> 'a list \<Rightarrow> 'a Set" where
  "Set_Add sx ks =
     (let state = (case sx of None \<Rightarrow> [] | Some m \<Rightarrow> m)
      in Some (fold (\<lambda>key m. AList.update key True m) ks state))"

definition Set_NewSet :: "'a list \<Rightarrow> 'a Set" where
  "Set_NewSet ks = Set_Add Set_zero ks"

definition Set_Len :: "'a Set \<Rightarrow> nat" where
  "Set_Len sx = length (Set_state sx)"

text \<open>\<open>delete\<close> on a nil map is a no-op.\<close>

definition Set_Remove :: "'a Set \<Rightarrow> 'a list \<Rightarrow> 'a Set" where
  "Set_Remove sx ks = map_option (\<lambda>state. fold AList.delete ks state) sx"

text \<open>The keys are distinct, so \<open>sort.Slice\<close> has one possible result.\<close>

definition Set_Keys :: "('a::linorder) Set \<Rightarrow> 'a list" where
  "Set_Keys sx = sort (gmap_keys (Set_state sx))"

definition Set_Contains :: "'a Set \<Rightarrow> 'a \<Rightarrow> bool" where
  "Set_Contains sx key \<longleftrightarrow> gmap_get (Set_state sx) key \<noteq> None"

text \<open>The JSON form is the list of keys; the coding of a list is an argument.\<close>

definition Set_MarshalJSON :: "('a::linorder list \<Rightarrow> string + string) \<Rightarrow> 'a Set \<Rightarrow> string + string" where
  "Set_MarshalJSON enc sx = enc (Set_Keys sx)"

definition Set_UnmarshalJSON :: "(string \<Rightarrow> string + 'a list) \<Rightarrow> 'a Set \<Rightarrow> string \<Rightarrow> string + 'a Set" where
  "Set_UnmarshalJSON dec sx data = (case dec data of Inl err \<Rightarrow> Inl err | Inr ks \<Rightarrow> Inr (Set_Add sx ks))"

section \<open>The representation implements the interface\<close>

definition Set_abs :: "'a Set \<Rightarrow> 'a set" where
  "Set_abs sx = set (gmap_keys (Set_state sx))"

definition Set_wf :: "'a Set \<Rightarrow> bool" where
  "Set_wf sx \<longleftrightarrow> gmap_wf (Set_state sx)"

lemma fold_update_keys:
  "set (gmap_keys (fold (\<lambda>key m. AList.update key True m) ks m)) = set (gmap_keys m) \<union> set ks"
  by (induction ks arbitrary: m) (auto simp: dom_update)

lemma fold_update_wf: "gmap_wf m \<Longrightarrow> gmap_wf (fold (\<lambda>key m. AList.update key True m) ks m)"
  by (induction ks arbitrary: m) simp_all

lemma fold_delete_keys:
  "set (gmap_keys (fold AList.delete ks m)) = set (gmap_keys m) - set ks"
  by (induction ks arbitrary: m) (auto simp: delete_keys simp del: set_map)

lemma fold_delete_wf: "gmap_wf m \<Longrightarrow> gmap_wf (fold AList.delete ks m)"
  by (induction ks arbitrary: m) (simp_all add: distinct_delete)

interpretation sx: set_adt "Set_zero :: 'a::linorder Set" Set_Add Set_Remove Set_Len Set_Keys
    Set_Contains Set_abs Set_wf
proof
  fix s :: "'a Set" and ks k
  show "Set_wf (Set_zero :: 'a Set)" "Set_abs (Set_zero :: 'a Set) = {}"
    by (simp_all add: Set_wf_def Set_abs_def Set_zero_def Set_state_def)
  show "Set_wf (Set_Add s ks)" if "Set_wf s"
    using that by (cases s) (simp_all add: Set_wf_def Set_state_def Set_Add_def fold_update_wf)
  show "Set_abs (Set_Add s ks) = Set_abs s \<union> set ks"
    by (cases s) (simp_all add: Set_abs_def Set_state_def Set_Add_def fold_update_keys del: set_map)
  show "Set_wf (Set_Remove s ks)" if "Set_wf s"
    using that by (cases s) (simp_all add: Set_wf_def Set_state_def Set_Remove_def fold_delete_wf)
  show "Set_abs (Set_Remove s ks) = Set_abs s - set ks"
    by (cases s) (simp_all add: Set_abs_def Set_state_def Set_Remove_def fold_delete_keys del: set_map)
  show "finite (Set_abs s)" by (simp add: Set_abs_def)
  show "Set_Len s = card (Set_abs s)" if "Set_wf s"
    using that distinct_card [of "gmap_keys (Set_state s)"]
    by (simp add: Set_wf_def Set_abs_def Set_Len_def)
  show "Set_Keys s = sorted_list_of_set (Set_abs s)" if "Set_wf s"
    using that sorted_list_of_set_sort_remdups [of "gmap_keys (Set_state s)"]
    by (simp add: Set_wf_def Set_abs_def Set_Keys_def distinct_remdups_id)
  show "Set_Contains s k \<longleftrightarrow> k \<in> Set_abs s"
    by (simp add: Set_abs_def Set_Contains_def map_of_eq_None_iff)
qed

lemma Set_JSON_roundtrip:
  assumes "Set_wf sx" and "enc (Set_Keys sx) = Inr data" and "dec data = Inr (Set_Keys sx)"
  shows "\<exists>data' sx'. Set_MarshalJSON enc sx = Inr data' \<and>
    Set_UnmarshalJSON dec Set_zero data' = Inr sx' \<and> Set_abs sx' = Set_abs sx"
  using assms sx.keys_roundtrip [OF assms(1)]
  by (simp add: Set_MarshalJSON_def Set_UnmarshalJSON_def)

section \<open>The abstract value\<close>

definition set_Add :: "'a set \<Rightarrow> 'a list \<Rightarrow> 'a set" where
  "set_Add S ks = S \<union> set ks"

definition set_Remove :: "'a set \<Rightarrow> 'a list \<Rightarrow> 'a set" where
  "set_Remove S ks = S - set ks"

definition NewSet :: "'a list \<Rightarrow> 'a set" where
  "NewSet ks = set_Add {} ks"

definition set_Keys :: "('a::linorder) set \<Rightarrow> 'a list" where
  "set_Keys S = sorted_list_of_set S"

definition set_Len :: "'a set \<Rightarrow> nat" where
  "set_Len S = card S"

definition set_Contains :: "'a set \<Rightarrow> 'a \<Rightarrow> bool" where
  "set_Contains S k \<longleftrightarrow> k \<in> S"

lemma NewSet_set [simp]: "NewSet ks = set ks"
  by (simp add: NewSet_def set_Add_def)

lemma set_Add_insert [simp]: "set_Add S [k] = insert k S"
  by (auto simp: set_Add_def)

lemma set_Remove_minus [simp]: "set_Remove S [k] = S - {k}"
  by (simp add: set_Remove_def)

lemma NewSet_refines: "Set_abs (Set_NewSet (ks :: 'a::linorder list)) = NewSet ks"
  by (simp add: Set_NewSet_def sx.abs_add sx.wf_zero sx.abs_zero)

lemma Set_ops_refine:
  fixes sx :: "'a::linorder Set"
  assumes "Set_wf sx"
  shows "Set_abs (Set_Add sx ks) = set_Add (Set_abs sx) ks"
    "Set_abs (Set_Remove sx ks) = set_Remove (Set_abs sx) ks" "Set_Keys sx = set_Keys (Set_abs sx)"
    "Set_Len sx = set_Len (Set_abs sx)" "Set_Contains sx k = set_Contains (Set_abs sx) k"
  using assms by (simp_all add: set_Add_def set_Remove_def set_Keys_def set_Len_def set_Contains_def
      sx.abs_add sx.abs_remove sx.keys_abs sx.len_abs sx.contains_abs)

end
