(* ===== verification/WebTitle.thy ===== *)
theory WebTitle
  imports GoPrelude
begin

text \<open>
  \<open>WebGetTitle\<close> of \<open>internal/measurexlite/web.go\<close>: the leftmost match of the regular expression
  \<open>(?i)<title>([^<]{1,512})</title>\<close> in a body. The repetition counts runes, so the text between
  the tags is decoded as UTF-8 the way the Go runtime does it, where an invalid byte is a rune of
  its own. Since the group holds no \<open><\<close>, its text reaches exactly to the next \<open><\<close>.
\<close>

definition cont_byte :: "nat \<Rightarrow> nat \<Rightarrow> char \<Rightarrow> bool" where
  "cont_byte lo hi c \<longleftrightarrow> lo \<le> (of_char c :: nat) \<and> (of_char c :: nat) \<le> hi"

text \<open>Number of bytes of the first rune, as \<open>utf8.DecodeRuneInString\<close> reports it.\<close>

definition rune_width :: "string \<Rightarrow> nat" where
  "rune_width s =
     (case s of [] \<Rightarrow> 0 | c # cs \<Rightarrow>
        let b = (of_char c :: nat); cont = (\<lambda>i lo hi. i < length cs \<and> cont_byte lo hi (cs ! i)) in
        if 194 \<le> b \<and> b \<le> 223 \<and> cont 0 128 191 then 2
        else if 224 \<le> b \<and> b \<le> 239 \<and>
                cont 0 (if b = 224 then 160 else 128) (if b = 237 then 159 else 191) \<and> cont 1 128 191 then 3
        else if 240 \<le> b \<and> b \<le> 244 \<and>
                cont 0 (if b = 240 then 144 else 128) (if b = 244 then 143 else 191) \<and>
                cont 1 128 191 \<and> cont 2 128 191 then 4
        else 1)"

lemma rune_width_pos: "s \<noteq> [] \<Longrightarrow> 0 < rune_width s"
  by (cases s) (auto simp: rune_width_def Let_def)

function rune_count :: "string \<Rightarrow> nat" where
  "rune_count s = (if s = [] then 0 else Suc (rune_count (drop (rune_width s) s)))"
  by pat_completeness auto
termination
  by (relation "measure length") (auto simp: rune_width_pos)

declare rune_count.simps [simp del]

definition match_fold :: "string \<Rightarrow> string \<Rightarrow> bool" where
  "match_fold p s \<longleftrightarrow> map lower_byte (take (length p) s) = p"

definition title_at :: "string \<Rightarrow> string option" where
  "title_at s =
     (if match_fold ''<title>'' s then
        let r = drop 7 s; t = takeWhile (\<lambda>c. c \<noteq> CHR ''<'') r
        in if 1 \<le> rune_count t \<and> rune_count t \<le> 512 \<and>
              match_fold ''</title>'' (dropWhile (\<lambda>c. c \<noteq> CHR ''<'') r) then Some t else None
      else None)"

fun WebGetTitle :: "string \<Rightarrow> string" where
  "WebGetTitle [] = []"
| "WebGetTitle (c # cs) = (case title_at (c # cs) of Some t \<Rightarrow> t | None \<Rightarrow> WebGetTitle cs)"

section \<open>Facts\<close>

lemma rune_count_ascii: "list_all is_ascii s \<Longrightarrow> rune_count s = length s"
proof (induction s)
  case Nil
  then show ?case by (simp add: rune_count.simps)
next
  case (Cons c cs)
  then have "rune_width (c # cs) = 1" by (simp add: rune_width_def Let_def is_ascii_def)
  with Cons show ?case by (subst rune_count.simps) simp
qed

lemma title_at_start: "s = [] \<or> hd s \<noteq> CHR ''<'' \<Longrightarrow> title_at s = None"
proof -
  assume s: "s = [] \<or> hd s \<noteq> CHR ''<''"
  have "\<not> match_fold ''<title>'' s"
  proof
    assume m: "match_fold ''<title>'' s"
    then obtain c cs where c: "s = c # cs" "lower_byte c = CHR ''<''"
      by (cases s) (auto simp: match_fold_def)
    have "(of_char (lower_byte c) :: nat) = 60" using c(2) by simp
    then have "(of_char c :: nat) = 60"
      by (auto simp: lower_byte_def split: if_splits)
    then have "(of_char c :: nat) = of_char (CHR ''<'')" by simp
    then have "c = CHR ''<''" by (simp only: of_char_eq_iff)
    with s c show False by simp
  qed
  then show ?thesis by (simp add: title_at_def)
qed

lemma WebGetTitle_skip: "list_all (\<lambda>c. c \<noteq> CHR ''<'') pre \<Longrightarrow> WebGetTitle (pre @ s) = WebGetTitle s"
  by (induction pre) (auto simp: title_at_start)

lemma WebGetTitle_finds:
  assumes "list_all (\<lambda>c. c \<noteq> CHR ''<'') pre" and t: "list_all (\<lambda>c. c \<noteq> CHR ''<'') t"
    and "1 \<le> rune_count t" "rune_count t \<le> 512"
    and tags: "length open_tag = 7" "map lower_byte open_tag = ''<title>''"
      "length close_tag = 8" "map lower_byte close_tag = ''</title>''" "hd close_tag = CHR ''<''"
  shows "WebGetTitle (pre @ open_tag @ t @ close_tag @ post) = t"
proof -
  let ?s = "open_tag @ t @ close_tag @ post"
  obtain c cs where c: "?s = c # cs" using tags(1) by (cases open_tag) auto
  obtain d ds where d: "close_tag = d # ds" using tags(3) by (cases close_tag) auto
  have "takeWhile (\<lambda>c. c \<noteq> CHR ''<'') (t @ close_tag @ post) = t"
    "dropWhile (\<lambda>c. c \<noteq> CHR ''<'') (t @ close_tag @ post) = close_tag @ post"
    using t d tags(5) by (auto simp: takeWhile_append dropWhile_append list_all_iff)
  then have "title_at ?s = Some t"
    using assms by (simp add: title_at_def match_fold_def Let_def)
  then have "WebGetTitle ?s = t" using c by simp
  then show ?thesis using WebGetTitle_skip [OF assms(1)] by simp
qed

end
