(* ===== verification/Bogon.thy ===== *)
theory Bogon
  imports GoNet
begin

text \<open>
  \<open>internal/netxlite/bogon.go\<close> and the two IPv6 predicates of
  \<open>internal/netxlite/resolvercore.go\<close>. The tables of bogon networks are the CIDR strings of the
  source, expanded by \<open>expandBogons\<close> when the package is initialised; \<open>None\<close> there is the panic
  of \<open>runtimex.PanicOnError\<close>. The bogon-aware resolver is a wrapper around any resolver, here the
  result that resolver's \<open>LookupHost\<close> returned.
\<close>

section \<open>Definitions\<close>

definition isIPv6 :: "string \<Rightarrow> bool" where
  "isIPv6 candidate \<longleftrightarrow> CHR '':'' \<in> set candidate"

datatype ip_error = ErrInvalidIP

definition IsIPv6 :: "string \<Rightarrow> ip_error + bool" where
  "IsIPv6 candidate = (if ParseIP candidate = None then Inl ErrInvalidIP else Inr (isIPv6 candidate))"

fun expandBogons :: "string list \<Rightarrow> ipnet list option" where
  "expandBogons [] = Some []"
| "expandBogons (cidr # cidrs) =
     do { block \<leftarrow> ParseCIDR cidr; out \<leftarrow> expandBogons cidrs; Some (block # out) }"

definition bogon_cidrs4 :: "string list" where
  "bogon_cidrs4 = [
     ''0.0.0.0/8'', ''10.0.0.0/8'', ''100.64.0.0/10'', ''127.0.0.0/8'', ''127.0.53.53/32'',
     ''169.254.0.0/16'', ''172.16.0.0/12'', ''192.0.0.0/24'', ''192.0.2.0/24'', ''192.168.0.0/16'',
     ''198.18.0.0/15'', ''198.51.100.0/24'', ''203.0.113.0/24'', ''224.0.0.0/4'', ''240.0.0.0/4'',
     ''255.255.255.255/32'']"

definition bogon_cidrs6 :: "string list" where
  "bogon_cidrs6 = [
     ''::/128'', ''::1/128'', ''::ffff:0:0/96'', ''::/96'', ''100::/64'', ''2001:10::/28'',
     ''2001:db8::/32'', ''fc00::/7'', ''fe80::/10'', ''fec0::/10'', ''ff00::/8'', ''2002::/24'',
     ''2002:a00::/24'', ''2002:7f00::/24'', ''2002:a9fe::/32'', ''2002:ac10::/28'',
     ''2002:c000::/40'', ''2002:c000:200::/40'', ''2002:c0a8::/32'', ''2002:c612::/31'',
     ''2002:c633:6400::/40'', ''2002:cb00:7100::/40'', ''2002:e000::/20'', ''2002:f000::/20'',
     ''2002:ffff:ffff::/48'', ''2001::/40'', ''2001:0:a00::/40'', ''2001:0:7f00::/40'',
     ''2001:0:a9fe::/48'', ''2001:0:ac10::/44'', ''2001:0:c000::/56'', ''2001:0:c000:200::/56'',
     ''2001:0:c0a8::/48'', ''2001:0:c612::/47'', ''2001:0:c633:6400::/56'',
     ''2001:0:cb00:7100::/56'', ''2001:0:e000::/36'', ''2001:0:f000::/36'',
     ''2001:0:ffff:ffff::/64'']"

text \<open>The package variables after \<open>init\<close>.\<close>

definition bogons4 :: "ipnet list" where
  "bogons4 = (case expandBogons bogon_cidrs4 of Some out \<Rightarrow> out | None \<Rightarrow> [])"

definition bogons6 :: "ipnet list" where
  "bogons6 = (case expandBogons bogon_cidrs6 of Some out \<Rightarrow> out | None \<Rightarrow> [])"

definition isBogon :: "string \<Rightarrow> ip \<Rightarrow> bool" where
  "isBogon address b =
     (if IP_IsLoopback b \<or> IP_IsLinkLocalUnicast b \<or> IP_IsLinkLocalMulticast b then True
      else list_ex (\<lambda>block. IPNet_Contains block b) (if isIPv6 address then bogons6 else bogons4))"

definition IsBogon :: "string \<Rightarrow> bool" where
  "IsBogon address = (case ParseIP address of None \<Rightarrow> True | Some b \<Rightarrow> isBogon address b)"

definition IsLoopback :: "string \<Rightarrow> bool" where
  "IsLoopback address = (case ParseIP address of None \<Rightarrow> True | Some b \<Rightarrow> IP_IsLoopback b)"

datatype 'e lookup_error = ResolverError 'e | ErrDNSBogon

text \<open>\<open>bogonResolver.LookupHost\<close> on the result of the wrapped resolver.\<close>

definition bogon_LookupHost :: "'e + string list \<Rightarrow> 'e lookup_error + string list" where
  "bogon_LookupHost res =
     (case res of Inl e \<Rightarrow> Inl (ResolverError e)
      | Inr addrs \<Rightarrow> if list_ex IsBogon addrs then Inl ErrDNSBogon else Inr addrs)"

text \<open>The short circuit of addresses, which wraps a resolver.\<close>

definition ShortCircuitIPAddr_LookupHost :: "(string \<Rightarrow> 'e + string list) \<Rightarrow> string \<Rightarrow> 'e + string list" where
  "ShortCircuitIPAddr_LookupHost resolver hostname =
     (if ParseIP hostname \<noteq> None then Inr [hostname] else resolver hostname)"

section \<open>The tables\<close>

lemma expand_bogons4:
  "expandBogons bogon_cidrs4 = Some [
     \<lparr>net_ip = [0,0,0,0], net_mask = [255,0,0,0]\<rparr>,
     \<lparr>net_ip = [10,0,0,0], net_mask = [255,0,0,0]\<rparr>,
     \<lparr>net_ip = [100,64,0,0], net_mask = [255,192,0,0]\<rparr>,
     \<lparr>net_ip = [127,0,0,0], net_mask = [255,0,0,0]\<rparr>,
     \<lparr>net_ip = [127,0,53,53], net_mask = [255,255,255,255]\<rparr>,
     \<lparr>net_ip = [169,254,0,0], net_mask = [255,255,0,0]\<rparr>,
     \<lparr>net_ip = [172,16,0,0], net_mask = [255,240,0,0]\<rparr>,
     \<lparr>net_ip = [192,0,0,0], net_mask = [255,255,255,0]\<rparr>,
     \<lparr>net_ip = [192,0,2,0], net_mask = [255,255,255,0]\<rparr>,
     \<lparr>net_ip = [192,168,0,0], net_mask = [255,255,0,0]\<rparr>,
     \<lparr>net_ip = [198,18,0,0], net_mask = [255,254,0,0]\<rparr>,
     \<lparr>net_ip = [198,51,100,0], net_mask = [255,255,255,0]\<rparr>,
     \<lparr>net_ip = [203,0,113,0], net_mask = [255,255,255,0]\<rparr>,
     \<lparr>net_ip = [224,0,0,0], net_mask = [240,0,0,0]\<rparr>,
     \<lparr>net_ip = [240,0,0,0], net_mask = [240,0,0,0]\<rparr>,
     \<lparr>net_ip = [255,255,255,255], net_mask = [255,255,255,255]\<rparr>]"
  by (simp add: bogon_cidrs4_def parse_eval numeral_2_eq_2 [symmetric])

lemma expand_bogons6: "expandBogons bogon_cidrs6 \<noteq> None"
  by (simp add: bogon_cidrs6_def parse_eval)

lemmas bogons4_eval = bogons4_def [unfolded expand_bogons4 option.case]

section \<open>IPv4 addresses\<close>

text \<open>The dotted form of four bytes, and that \<open>net.ParseIP\<close> reads it back.\<close>

definition dotted :: "nat \<Rightarrow> nat \<Rightarrow> nat \<Rightarrow> nat \<Rightarrow> string" where
  "dotted a b c d = nat_digits a @ ''.'' @ nat_digits b @ ''.'' @ nat_digits c @ ''.'' @ nat_digits d"

lemma nat_digits_byte:
  assumes "n < 256"
  shows "nat_digits n =
    (if n < 10 then [digit_char n]
     else if n < 100 then [digit_char (n div 10), digit_char (n mod 10)]
     else [digit_char (n div 100), digit_char (n div 10 mod 10), digit_char (n mod 10)])"
proof -
  have "n div 10 div 10 = n div 100" by (simp flip: div_mult2_eq)
  with assms show ?thesis
    by (auto simp: nat_digits.simps [of n] nat_digits.simps [of "n div 10"] nat_digits.simps [of "n div 100"])
qed

lemma v4_loop_byte:
  assumes "n < 256"
  shows "\<exists>p dl. p \<noteq> None \<and> p \<noteq> Some (CHR ''.'') \<and>
    (\<forall>rest. v4_loop (nat_digits n @ rest) prev 0 0 fs = v4_loop rest p n dl fs)"
proof -
  have dot: "digit_char k \<noteq> CHR ''.''" if "k < 10" for k
    using is_digit_digit_char [OF that] by (auto simp: is_digit_def)
  have "n div 10 div 10 = n div 100" by (simp flip: div_mult2_eq)
  then have "n div 100 * 10 + n div 10 mod 10 = n div 10" "n div 10 * 10 + n mod 10 = n"
    using div_mult_mod_eq [of "n div 10" 10] by auto
  moreover have "n div 100 < 10" using assms by auto
  ultimately show ?thesis
    using assms by (intro exI [of _ "Some (digit_char (n mod 10))"] exI
        [of _ "if n < 10 then Suc 0 else if n < 100 then Suc (Suc 0) else Suc (Suc (Suc 0))"])
      (auto simp: nat_digits_byte dot)
qed

lemma parse_v4_dotted:
  assumes "a < 256" "b < 256" "c < 256" "d < 256"
  shows "parse_v4 (dotted a b c d) = Some [a, b, c, d]"
proof -
  obtain p1 l1 where 1: "p1 \<noteq> None" "p1 \<noteq> Some (CHR ''.'')"
    "\<And>rest. v4_loop (nat_digits a @ rest) None 0 0 [] = v4_loop rest p1 a l1 []"
    using v4_loop_byte [OF assms(1), of "None" "[]"] by auto
  obtain p2 l2 where 2: "p2 \<noteq> None" "p2 \<noteq> Some (CHR ''.'')"
    "\<And>rest. v4_loop (nat_digits b @ rest) (Some (CHR ''.'')) 0 0 [a] = v4_loop rest p2 b l2 [a]"
    using v4_loop_byte [OF assms(2), of "Some (CHR ''.'')" "[a]"] by auto
  obtain p3 l3 where 3: "p3 \<noteq> None" "p3 \<noteq> Some (CHR ''.'')"
    "\<And>rest. v4_loop (nat_digits c @ rest) (Some (CHR ''.'')) 0 0 [a, b] = v4_loop rest p3 c l3 [a, b]"
    using v4_loop_byte [OF assms(3), of "Some (CHR ''.'')" "[a, b]"] by auto
  obtain p4 l4 where 4: 
    "\<And>rest. v4_loop (nat_digits d @ rest) (Some (CHR ''.'')) 0 0 [a, b, c] = v4_loop rest p4 d l4 [a, b, c]"
    using v4_loop_byte [OF assms(4), of "Some (CHR ''.'')" "[a, b, c]"] by auto
  have "\<not> is_digit (CHR ''.'')" by (simp add: is_digit_def)
  with 1 2 3 4 [of "[]"] show ?thesis
    by (simp add: parse_v4_def dotted_def)
qed

lemma dropWhile_nat_digits:
  "dropWhile (\<lambda>c. c \<notin> {CHR ''.'', CHR '':'', CHR ''%''}) (nat_digits n @ rest) =
     dropWhile (\<lambda>c. c \<notin> {CHR ''.'', CHR '':'', CHR ''%''}) rest"
proof -
  have "c \<notin> {CHR ''.'', CHR '':'', CHR ''%''}" if "is_digit c" for c
    using that by (auto simp: is_digit_def)
  then show ?thesis
    using nat_digits_digits [of n] by (auto simp: dropWhile_append list_all_iff)
qed

lemma ParseIP_dotted:
  assumes "a < 256" "b < 256" "c < 256" "d < 256"
  shows "ParseIP (dotted a b c d) = Some (v4_in_v6 [a, b, c, d])"
proof -
  have "dropWhile (\<lambda>c. c \<notin> {CHR ''.'', CHR '':'', CHR ''%''}) (dotted a b c d) =
      CHR ''.'' # nat_digits b @ ''.'' @ nat_digits c @ ''.'' @ nat_digits d"
    unfolding dotted_def by (subst dropWhile_nat_digits) simp
  then show ?thesis by (simp add: ParseIP_def parse_addr_def parse_v4_dotted [OF assms])
qed

lemma isIPv6_dotted: "\<not> isIPv6 (dotted a b c d)"
proof -
  have "CHR '':'' \<notin> set (nat_digits n)" for n
    using nat_digits_digits [of n] by (auto simp: list_all_iff is_digit_def)
  then show ?thesis by (simp add: isIPv6_def dotted_def)
qed

text \<open>The bogon ranges, read off the comments of the table.\<close>

definition bogon_v4 :: "nat \<Rightarrow> nat \<Rightarrow> nat \<Rightarrow> nat \<Rightarrow> bool" where
  "bogon_v4 a b c d \<longleftrightarrow>
     a = 0 \<or> a = 10 \<or> (a = 100 \<and> 64 \<le> b \<and> b \<le> 127) \<or> a = 127 \<or> (a = 169 \<and> b = 254) \<or>
     (a = 172 \<and> 16 \<le> b \<and> b \<le> 31) \<or> (a = 192 \<and> b = 0 \<and> c = 0) \<or> (a = 192 \<and> b = 0 \<and> c = 2) \<or>
     (a = 192 \<and> b = 168) \<or> (a = 198 \<and> (b = 18 \<or> b = 19)) \<or> (a = 198 \<and> b = 51 \<and> c = 100) \<or>
     (a = 203 \<and> b = 0 \<and> c = 113) \<or> 224 \<le> a"

lemma byte_masks:
  assumes "(x::nat) < 256"
  shows "x AND 255 = x" and "(x AND 192 = 64) = (64 \<le> x \<and> x \<le> 127)"
    and "(x AND 240 = 16) = (16 \<le> x \<and> x \<le> 31)" and "(x AND 254 = 18) = (x = 18 \<or> x = 19)"
    and "(x AND 240 = 224) = (224 \<le> x \<and> x \<le> 239)" and "(x AND 240 = 240) = (240 \<le> x)"
proof -
  have all: "list_all (\<lambda>x. x AND 255 = x \<and> (x AND 192 = 64) = (64 \<le> x \<and> x \<le> 127) \<and>
      (x AND 240 = 16) = (16 \<le> x \<and> x \<le> 31) \<and> (x AND 254 = 18) = (x = 18 \<or> x = 19) \<and>
      (x AND 240 = 224) = (224 \<le> x \<and> x \<le> 239) \<and> (x AND 240 = 240) = (240 \<le> x)) [0..<256]"
    by (simp add: upt_conv_Cons numeral_2_eq_2 [symmetric])
  have "x \<in> set [0..<256]" using assms by simp
  with all [unfolded list_all_iff] show "x AND 255 = x" "(x AND 192 = 64) = (64 \<le> x \<and> x \<le> 127)"
    "(x AND 240 = 16) = (16 \<le> x \<and> x \<le> 31)" "(x AND 254 = 18) = (x = 18 \<or> x = 19)"
    "(x AND 240 = 224) = (224 \<le> x \<and> x \<le> 239)" "(x AND 240 = 240) = (240 \<le> x)"
    by blast+
qed

lemma contains_v4:
  "IPNet_Contains \<lparr>net_ip = [p, q, r, s], net_mask = [m1, m2, m3, m4]\<rparr> (v4_in_v6 [a, b, c, d]) \<longleftrightarrow>
     a AND m1 = p AND m1 \<and> b AND m2 = q AND m2 \<and> c AND m3 = r AND m3 \<and> d AND m4 = s AND m4"
  by (auto simp: IPNet_Contains_def To4_def v4_in_v6_def mask_bytes_def)

lemma list_ex_bogons4:
  assumes "a < 256" "b < 256" "c < 256" "d < 256"
  shows "list_ex (\<lambda>block. IPNet_Contains block (v4_in_v6 [a, b, c, d])) bogons4 \<longleftrightarrow> bogon_v4 a b c d"
proof -
  have "list_ex (\<lambda>block. IPNet_Contains block (v4_in_v6 [a, b, c, d])) bogons4 \<longleftrightarrow>
     a = 0 \<or> a = 10 \<or> (a = 100 \<and> 64 \<le> b \<and> b \<le> 127) \<or> a = 127 \<or>
     (a = 127 \<and> b = 0 \<and> c = 53 \<and> d = 53) \<or> (a = 169 \<and> b = 254) \<or>
     (a = 172 \<and> 16 \<le> b \<and> b \<le> 31) \<or> (a = 192 \<and> b = 0 \<and> c = 0) \<or> (a = 192 \<and> b = 0 \<and> c = 2) \<or>
     (a = 192 \<and> b = 168) \<or> (a = 198 \<and> (b = 18 \<or> b = 19)) \<or> (a = 198 \<and> b = 51 \<and> c = 100) \<or>
     (a = 203 \<and> b = 0 \<and> c = 113) \<or> (224 \<le> a \<and> a \<le> 239) \<or> 240 \<le> a \<or>
     (a = 255 \<and> b = 255 \<and> c = 255 \<and> d = 255)"
    unfolding bogons4_eval
    by (simp add: contains_v4 byte_masks [OF assms(1)] byte_masks [OF assms(2)] byte_masks [OF assms(3)]
        byte_masks [OF assms(4)])
  moreover have "(224 \<le> a \<and> a \<le> 239) \<or> 240 \<le> a \<or>
      (a = 255 \<and> b = 255 \<and> c = 255 \<and> d = 255) \<longleftrightarrow> 224 \<le> a"
    by auto
  moreover have "a = 127 \<or> (a = 127 \<and> b = 0 \<and> c = 53 \<and> d = 53) \<or> R \<longleftrightarrow> a = 127 \<or> R" for R
    by blast
  ultimately show ?thesis unfolding bogon_v4_def by (simp only:)
qed

lemma IsBogon_dotted:
  assumes "a < 256" "b < 256" "c < 256" "d < 256"
  shows "IsBogon (dotted a b c d) \<longleftrightarrow> bogon_v4 a b c d"
proof -
  have t4: "To4 (v4_in_v6 [a, b, c, d]) = Some [a, b, c, d]"
    by (simp add: To4_def v4_in_v6_def)
  have "IP_IsLoopback (v4_in_v6 [a, b, c, d]) \<or> IP_IsLinkLocalUnicast (v4_in_v6 [a, b, c, d]) \<or>
      IP_IsLinkLocalMulticast (v4_in_v6 [a, b, c, d]) \<Longrightarrow> bogon_v4 a b c d"
    by (auto simp: t4 IP_IsLoopback_def IP_IsLinkLocalUnicast_def IP_IsLinkLocalMulticast_def bogon_v4_def)
  then show ?thesis
    by (auto simp: IsBogon_def ParseIP_dotted [OF assms] isBogon_def isIPv6_dotted list_ex_bogons4 [OF assms])
qed

end
