(* ===== verification/WebObservation.thy ===== *)
theory WebObservation
  imports Archival Optional GoSet Bogon WebTitle
begin

text \<open>
  The observation of \<open>internal/minipipeline/observation.go\<close> (the struct \<open>WebObservation\<close> and its
  container) and the helpers of \<open>internal/minipipeline/utils.go\<close> that extract the fields of an
  observation from an archival event or read them back.
\<close>

section \<open>Observation types\<close>

text \<open>
  \<open>WebObservationType\<close> is an integer enumeration; the constructors stand in the order of the
  source's \<open>iota\<close>, and \<open>obs_rank\<close> is the integer. The order of the type is the order of the ranks.
\<close>

datatype WebObservationType =
  WebObservationTypeDNSLookup | WebObservationTypeTCPConnect |
  WebObservationTypeTLSHandshake | WebObservationTypeHTTPRoundTrip

primrec obs_rank :: "WebObservationType \<Rightarrow> int" where
  "obs_rank WebObservationTypeDNSLookup = 0"
| "obs_rank WebObservationTypeTCPConnect = 1"
| "obs_rank WebObservationTypeTLSHandshake = 2"
| "obs_rank WebObservationTypeHTTPRoundTrip = 3"

lemma obs_rank_inject [simp]: "obs_rank x = obs_rank y \<longleftrightarrow> x = y"
  by (cases x; cases y) simp_all

instantiation WebObservationType :: linorder
begin

definition less_eq_WebObservationType :: "WebObservationType \<Rightarrow> WebObservationType \<Rightarrow> bool" where
  "x \<le> y \<longleftrightarrow> obs_rank x \<le> obs_rank y"

definition less_WebObservationType :: "WebObservationType \<Rightarrow> WebObservationType \<Rightarrow> bool" where
  "x < y \<longleftrightarrow> obs_rank x < obs_rank y"

instance
proof
  fix x y z :: WebObservationType
  show "x < y \<longleftrightarrow> x \<le> y \<and> \<not> y \<le> x" "x \<le> x" "x \<le> y \<or> y \<le> x"
    by (auto simp: less_eq_WebObservationType_def less_WebObservationType_def)
  show "x \<le> y \<Longrightarrow> y \<le> z \<Longrightarrow> x \<le> z" "x \<le> y \<Longrightarrow> y \<le> x \<Longrightarrow> x = y"
    by (auto simp: less_eq_WebObservationType_def)
qed

end

definition IPAddressOriginDNS :: string where
  "IPAddressOriginDNS = ''dns''"

definition IPAddressOriginTH :: string where
  "IPAddressOriginTH = ''th''"

definition FailureDNSNoAnswer :: string where
  "FailureDNSNoAnswer = ''dns_no_answer''"

definition FailureNetworkUnreachable :: string where
  "FailureNetworkUnreachable = ''network_unreachable''"

definition FailureHostUnreachable :: string where
  "FailureHostUnreachable = ''host_unreachable''"

section \<open>Observations and their container\<close>

record WebObservation =
  TagDepth :: "int option"
  Type :: WebObservationType
  Failure :: "string option"
  TransactionID :: int
  TagFetchBody :: "bool option"
  DNSTransactionID :: "int option"
  DNSDomain :: "string option"
  DNSLookupFailure :: "string option"
  DNSQueryType :: "string option"
  DNSEngine :: "string option"
  DNSResolvedAddrs :: "string set option"
  IPAddressOrigin :: "string option"
  IPAddress :: "string option"
  IPAddressASN :: "int option"
  IPAddressBogon :: "bool option"
  EndpointTransactionID :: "int option"
  EndpointProto :: "string option"
  EndpointPort :: "string option"
  EndpointAddress :: "string option"
  TCPConnectFailure :: "string option"
  TLSHandshakeFailure :: "string option"
  TLSServerName :: "string option"
  HTTPRequestURL :: "string option"
  HTTPFailure :: "string option"
  HTTPResponseStatusCode :: "int option"
  HTTPResponseBodyLength :: "int option"
  HTTPResponseBodyIsTruncated :: "bool option"
  HTTPResponseHeadersKeys :: "(string, bool) gomap option"
  HTTPResponseLocation :: "string option"
  HTTPResponseTitle :: "string option"
  HTTPResponseIsFinal :: "bool option"
  ControlDNSDomain :: "string option"
  ControlDNSLookupFailure :: "string option"
  ControlDNSResolvedAddrs :: "string set option"
  ControlTCPConnectFailure :: "string option"
  ControlTLSHandshakeFailure :: "string option"
  ControlHTTPFailure :: "string option"
  ControlHTTPResponseStatusCode :: "int option"
  ControlHTTPResponseBodyLength :: "int option"
  ControlHTTPResponseHeadersKeys :: "(string, bool) gomap option"
  ControlHTTPResponseTitle :: "string option"

text \<open>The zero value, from which the composite literals of the source start.\<close>

definition WebObservation_zero :: WebObservation where
  "WebObservation_zero = \<lparr>
     TagDepth = None, Type = WebObservationTypeDNSLookup, Failure = None, TransactionID = 0,
     TagFetchBody = None, DNSTransactionID = None, DNSDomain = None, DNSLookupFailure = None,
     DNSQueryType = None, DNSEngine = None, DNSResolvedAddrs = None, IPAddressOrigin = None,
     IPAddress = None, IPAddressASN = None, IPAddressBogon = None, EndpointTransactionID = None,
     EndpointProto = None, EndpointPort = None, EndpointAddress = None, TCPConnectFailure = None,
     TLSHandshakeFailure = None, TLSServerName = None, HTTPRequestURL = None, HTTPFailure = None,
     HTTPResponseStatusCode = None, HTTPResponseBodyLength = None,
     HTTPResponseBodyIsTruncated = None, HTTPResponseHeadersKeys = None,
     HTTPResponseLocation = None, HTTPResponseTitle = None, HTTPResponseIsFinal = None,
     ControlDNSDomain = None, ControlDNSLookupFailure = None, ControlDNSResolvedAddrs = None,
     ControlTCPConnectFailure = None, ControlTLSHandshakeFailure = None, ControlHTTPFailure = None,
     ControlHTTPResponseStatusCode = None, ControlHTTPResponseBodyLength = None,
     ControlHTTPResponseHeadersKeys = None, ControlHTTPResponseTitle = None\<rparr>"

record WebObservationsControlExpectations =
  DNSAddresses :: "string set"
  FinalResponseFailure :: "string option"

text \<open>
  \<open>knownIPAddresses\<close> maps an address to a pointer to the observation that discovered it. All such
  pointers are elements of \<open>DNSLookupSuccesses\<close>, so the model keeps the index: the observations
  are updated in place later, and a pointer sees the update.
\<close>

record WebObservationsContainer =
  DNSLookupFailures :: "WebObservation list"
  DNSLookupSuccesses :: "WebObservation list"
  KnownTCPEndpoints :: "(int, WebObservation) gomap"
  ControlExpectations :: "WebObservationsControlExpectations option"
  knownIPAddresses :: "(string, nat) gomap"

definition NewWebObservationsContainer :: WebObservationsContainer where
  "NewWebObservationsContainer = \<lparr>
     DNSLookupFailures = [], DNSLookupSuccesses = [], KnownTCPEndpoints = [],
     ControlExpectations = None, knownIPAddresses = []\<rparr>"

section \<open>Helpers\<close>

definition utilsStringPointerToString :: "string option \<Rightarrow> string" where
  "utilsStringPointerToString failure = (case failure of None \<Rightarrow> '''' | Some s \<Rightarrow> s)"

definition utilsGeoipxLookupASN :: "GeoIPASNLookupper \<Rightarrow> string \<Rightarrow> int option" where
  "utilsGeoipxLookupASN lookupper ipAddress =
     (case lookupper ipAddress of None \<Rightarrow> None
      | Some (asn, _) \<Rightarrow> if asn > 0 then Some (wrap64 (int asn)) else None)"

definition utilsExtractHTTPHeaderKeys :: "(string, 'v) gomap \<Rightarrow> (string, bool) gomap option" where
  "utilsExtractHTTPHeaderKeys input =
     Some (fold (\<lambda>(key, _) output. AList.update key True output) input [])"

definition utilsExtractHTTPLocation :: "(string \<Rightarrow> string) \<Rightarrow> (string, string) gomap \<Rightarrow> string option" where
  "utilsExtractHTTPLocation uni input =
     map_option snd (find (\<lambda>(key, _). to_lower uni key = ''location'') input)"

definition utilsDetermineWhetherHTTPResponseIsFinal :: "int \<Rightarrow> bool option" where
  "utilsDetermineWhetherHTTPResponseIsFinal status =
     (if go_div status 100 \<in> {2, 4, 5} then Some True else Some False)"

fun utilsResolvedAddresses :: "ArchivalDNSAnswer list \<Rightarrow> string list" where
  "utilsResolvedAddresses [] = []"
| "utilsResolvedAddresses (ans # answers) =
     (if ans_AnswerType ans = ''A'' then ans_IPv4 ans # utilsResolvedAddresses answers
      else if ans_AnswerType ans = ''AAAA'' then ans_IPv6 ans # utilsResolvedAddresses answers
      else utilsResolvedAddresses answers)"

definition utilsEngineIsGetaddrinfo :: "string option \<Rightarrow> bool" where
  "utilsEngineIsGetaddrinfo engine \<longleftrightarrow> UnwrapOr engine '''' \<in> {''getaddrinfo'', ''golang_net_resolver''}"

definition utilsExtractTagDepth :: "string list \<Rightarrow> int option" where
  "utilsExtractTagDepth tags =
     foldl (\<lambda>result tag. if \<not> has_prefix tag ''depth='' then result
              else case parse_int64 (trim_prefix tag ''depth='') of
                     None \<Rightarrow> result | Some v \<Rightarrow> Some v) None tags"

definition utilsExtractTagFetchBody :: "string list \<Rightarrow> bool option" where
  "utilsExtractTagFetchBody tags =
     foldl (\<lambda>result tag. if \<not> has_prefix tag ''fetch_body='' then result
              else Some (trim_prefix tag ''fetch_body='' = ''true'')) None tags"

definition utilsDNSLookupFailureIsDNSNoAnswerForAAAA :: "WebObservation \<Rightarrow> bool" where
  "utilsDNSLookupFailureIsDNSNoAnswerForAAAA obs \<longleftrightarrow>
     UnwrapOr (DNSQueryType obs) '''' = ''AAAA'' \<and>
     UnwrapOr (DNSLookupFailure obs) '''' = FailureDNSNoAnswer"

definition utilsDNSEngineIsDNSOverHTTPS :: "WebObservation \<Rightarrow> bool" where
  "utilsDNSEngineIsDNSOverHTTPS obs \<longleftrightarrow> UnwrapOr (DNSEngine obs) '''' = ''doh''"

definition utilsTCPConnectFailureSeemsMisconfiguredIPv6 :: "WebObservation \<Rightarrow> bool" where
  "utilsTCPConnectFailureSeemsMisconfiguredIPv6 obs =
     (if UnwrapOr (TCPConnectFailure obs) '''' \<in> {FailureNetworkUnreachable, FailureHostUnreachable}
      then case IsIPv6 (UnwrapOr (IPAddress obs) '''') of Inl _ \<Rightarrow> False | Inr isv6 \<Rightarrow> isv6
      else False)"

section \<open>Facts about the helpers\<close>

lemma utilsDetermineWhetherHTTPResponseIsFinal_range:
  assumes "0 \<le> status"
  shows "utilsDetermineWhetherHTTPResponseIsFinal status = Some True \<longleftrightarrow>
    200 \<le> status \<and> status < 300 \<or> 400 \<le> status \<and> status < 600"
  using assms by (auto simp: utilsDetermineWhetherHTTPResponseIsFinal_def go_div_nonneg)

lemma set_utilsResolvedAddresses:
  "set (utilsResolvedAddresses answers) =
     {ans_IPv4 a |a. a \<in> set answers \<and> ans_AnswerType a = ''A''} \<union>
     {ans_IPv6 a |a. a \<in> set answers \<and> ans_AnswerType a = ''AAAA''}"
  by (induction answers) auto

lemma headers_keys_wf:
  "gmap_wf (fold (\<lambda>(key, _) output. AList.update key True output) input m) \<longleftrightarrow> gmap_wf m"
  if "gmap_wf m"
  using that by (induction input arbitrary: m) auto

lemma headers_keys_set:
  "fst ` set (fold (\<lambda>(key, _) output. AList.update key True output) input m) =
     fst ` set m \<union> fst ` set input"
  by (induction input arbitrary: m) (simp_all add: case_prod_beta)

lemma utilsExtractHTTPHeaderKeys_keys:
  "\<exists>m. utilsExtractHTTPHeaderKeys input = Some m \<and> gmap_wf m \<and> set (gmap_keys m) = set (gmap_keys input)"
  using headers_keys_wf [of "[]" input] headers_keys_set [of input "[]"]
  by (simp add: utilsExtractHTTPHeaderKeys_def)

text \<open>
  The location does not depend on the order of iteration when at most one header key is a
  spelling of \<open>Location\<close>.
\<close>

lemma utilsExtractHTTPLocation_unique:
  assumes "(k, v) \<in> set input" and "to_lower uni k = ''location''"
    and "\<forall>(k', v') \<in> set input. to_lower uni k' = ''location'' \<longrightarrow> v' = v"
  shows "utilsExtractHTTPLocation uni input = Some v"
  using assms by (induction input) (auto simp: utilsExtractHTTPLocation_def)

lemma utilsExtractTagDepth_snoc:
  "in_int64 n \<Longrightarrow> utilsExtractTagDepth (tags @ [''depth='' @ itoa n]) = Some n"
  by (simp add: utilsExtractTagDepth_def parse_int64_itoa
      has_prefix_append [of "''depth=''", simplified] trim_prefix_append [of "''depth=''", simplified])

lemma utilsExtractTagDepth_skip:
  "\<not> has_prefix tag ''depth='' \<Longrightarrow> utilsExtractTagDepth (tags @ [tag]) = utilsExtractTagDepth tags"
  by (simp add: utilsExtractTagDepth_def)

lemma utilsExtractTagFetchBody_snoc:
  "utilsExtractTagFetchBody (tags @ [''fetch_body='' @ v]) = Some (v = ''true'')"
  by (simp add: utilsExtractTagFetchBody_def
      has_prefix_append [of "''fetch_body=''", simplified] trim_prefix_append [of "''fetch_body=''", simplified])

end
