(* ===== verification/Observation.thy ===== *)
theory Observation
  imports WebObservation
begin

text \<open>
  The ingestion of a measurement in \<open>internal/minipipeline/observation.go\<close>: the methods of
  \<open>WebObservationsContainer\<close> that turn archival events and the test helper's answer into
  observations, and \<open>IngestWebMeasurement\<close>, which calls them in order.

  The methods that call \<open>Unwrap\<close> return an option, and \<open>None\<close> is the panic. The Unicode table of
  \<open>strings.ToLower\<close> and \<open>url.Parse\<close> (the hostname of the URL it parses, or an error) are the
  arguments \<open>uni\<close> and \<open>urlHostname\<close>.
\<close>

section \<open>DNS events\<close>

definition dns_failure_obs :: "ArchivalDNSLookupResult \<Rightarrow> WebObservation" where
  "dns_failure_obs ev =
     (let failure = Some (utilsStringPointerToString (dns_Failure ev)) in
      WebObservation_zero\<lparr>
        Type := WebObservationTypeDNSLookup,
        Failure := failure,
        TransactionID := dns_TransactionID ev,
        DNSTransactionID := Some (dns_TransactionID ev),
        DNSDomain := Some (dns_Hostname ev),
        DNSLookupFailure := failure,
        DNSQueryType := Some (dns_QueryType ev),
        DNSEngine := Some (dns_Engine ev),
        TagDepth := utilsExtractTagDepth (dns_Tags ev)\<rparr>)"

definition ingestDNSLookupFailures ::
  "ArchivalDNSLookupResult list \<Rightarrow> WebObservationsContainer \<Rightarrow> WebObservationsContainer" where
  "ingestDNSLookupFailures evs c =
     fold (\<lambda>ev c. if dns_Failure ev = None then c
                  else c\<lparr>DNSLookupFailures := DNSLookupFailures c @ [dns_failure_obs ev]\<rparr>) evs c"

definition dns_success_obs ::
  "GeoIPASNLookupper \<Rightarrow> ArchivalDNSLookupResult \<Rightarrow> string set \<Rightarrow> string \<Rightarrow> WebObservation" where
  "dns_success_obs lookupper ev addrs ipAddr =
      WebObservation_zero\<lparr>
        Failure := Some '''',
        Type := WebObservationTypeDNSLookup,
        TransactionID := dns_TransactionID ev,
        DNSTransactionID := Some (dns_TransactionID ev),
        DNSDomain := Some (dns_Hostname ev),
        DNSLookupFailure := Some '''',
        DNSQueryType := Some (dns_QueryType ev),
        DNSEngine := Some (dns_Engine ev),
        DNSResolvedAddrs := Some addrs,
        IPAddressOrigin := Some IPAddressOriginDNS,
        IPAddress := Some ipAddr,
        IPAddressASN := utilsGeoipxLookupASN lookupper ipAddr,
        IPAddressBogon := Some (IsBogon ipAddr),
        TagDepth := utilsExtractTagDepth (dns_Tags ev)\<rparr>"

text \<open>The body of the inner loop: add the record, and store the first lookup that resolved the address.\<close>

definition add_dns_success ::
  "WebObservation \<Rightarrow> string \<Rightarrow> WebObservationsContainer \<Rightarrow> WebObservationsContainer" where
  "add_dns_success obs ipAddr c =
     (let idx = length (DNSLookupSuccesses c);
          c = c\<lparr>DNSLookupSuccesses := DNSLookupSuccesses c @ [obs]\<rparr> in
      if gmap_get (knownIPAddresses c) ipAddr = None
      then c\<lparr>knownIPAddresses := AList.update ipAddr idx (knownIPAddresses c)\<rparr>
      else c)"

definition ingest_dns_success ::
  "GeoIPASNLookupper \<Rightarrow> ArchivalDNSLookupResult \<Rightarrow> WebObservationsContainer \<Rightarrow> WebObservationsContainer" where
  "ingest_dns_success lookupper ev c =
     (if dns_Failure ev \<noteq> None then c
      else let addrs = NewSet (utilsResolvedAddresses (dns_Answers ev)) in
           fold (\<lambda>ipAddr c. add_dns_success (dns_success_obs lookupper ev addrs ipAddr) ipAddr c)
             (set_Keys addrs) c)"

definition ingestDNSLookupSuccesses ::
  "GeoIPASNLookupper \<Rightarrow> ArchivalDNSLookupResult list \<Rightarrow> WebObservationsContainer \<Rightarrow> WebObservationsContainer" where
  "ingestDNSLookupSuccesses lookupper evs c = fold (ingest_dns_success lookupper) evs c"

definition IngestDNSLookupEvents ::
  "GeoIPASNLookupper \<Rightarrow> ArchivalDNSLookupResult list \<Rightarrow> WebObservationsContainer \<Rightarrow> WebObservationsContainer" where
  "IngestDNSLookupEvents lookupper evs c =
     ingestDNSLookupSuccesses lookupper evs (ingestDNSLookupFailures evs c)"

section \<open>Endpoint events\<close>

definition known_or_new_obs ::
  "GeoIPASNLookupper \<Rightarrow> WebObservationsContainer \<Rightarrow> string \<Rightarrow> WebObservation" where
  "known_or_new_obs lookupper c ip =
     (case gmap_get (knownIPAddresses c) ip of
        Some idx \<Rightarrow> DNSLookupSuccesses c ! idx
      | None \<Rightarrow> WebObservation_zero\<lparr>
          IPAddressOrigin := None,
          IPAddress := Some ip,
          IPAddressASN := utilsGeoipxLookupASN lookupper ip,
          IPAddressBogon := Some (IsBogon ip)\<rparr>)"

definition tcp_obs :: "ArchivalTCPConnectResult \<Rightarrow> WebObservation \<Rightarrow> WebObservation" where
  "tcp_obs ev obs =
     (let portString = itoa (tcp_Port ev);
          failure = Some (utilsStringPointerToString (st_Failure (tcp_Status ev))) in
      WebObservation_zero\<lparr>
        Type := WebObservationTypeTCPConnect,
        Failure := failure,
        TransactionID := tcp_TransactionID ev,
        DNSTransactionID := DNSTransactionID obs,
        DNSDomain := DNSDomain obs,
        DNSLookupFailure := DNSLookupFailure obs,
        DNSResolvedAddrs := DNSResolvedAddrs obs,
        IPAddressOrigin := IPAddressOrigin obs,
        IPAddress := IPAddress obs,
        IPAddressASN := IPAddressASN obs,
        IPAddressBogon := IPAddressBogon obs,
        EndpointTransactionID := Some (tcp_TransactionID ev),
        EndpointProto := Some ''tcp'',
        EndpointPort := Some portString,
        EndpointAddress := Some (join_host_port (tcp_IP ev) portString),
        TCPConnectFailure := failure,
        TagDepth := utilsExtractTagDepth (tcp_Tags ev),
        TagFetchBody := utilsExtractTagFetchBody (tcp_Tags ev)\<rparr>)"

definition IngestTCPConnectEvents ::
  "GeoIPASNLookupper \<Rightarrow> ArchivalTCPConnectResult list \<Rightarrow> WebObservationsContainer \<Rightarrow> WebObservationsContainer" where
  "IngestTCPConnectEvents lookupper evs c =
     fold (\<lambda>ev c. c\<lparr>KnownTCPEndpoints :=
        AList.update (tcp_TransactionID ev) (tcp_obs ev (known_or_new_obs lookupper c (tcp_IP ev)))
          (KnownTCPEndpoints c)\<rparr>) evs c"

text \<open>\<open>obs, found := c.KnownTCPEndpoints[txid]\<close> and an update through the pointer when found.\<close>

definition update_endpoint ::
  "int \<Rightarrow> (WebObservation \<Rightarrow> WebObservation) \<Rightarrow> WebObservationsContainer \<Rightarrow> WebObservationsContainer" where
  "update_endpoint txid upd c =
     (case gmap_get (KnownTCPEndpoints c) txid of
        None \<Rightarrow> c
      | Some obs \<Rightarrow> c\<lparr>KnownTCPEndpoints := AList.update txid (upd obs) (KnownTCPEndpoints c)\<rparr>)"

definition tls_update :: "ArchivalTLSOrQUICHandshakeResult \<Rightarrow> WebObservation \<Rightarrow> WebObservation" where
  "tls_update ev obs =
     (let failure = Some (utilsStringPointerToString (tls_Failure ev)) in
      obs\<lparr>Type := WebObservationTypeTLSHandshake,
          Failure := failure,
          TLSHandshakeFailure := failure,
          TLSServerName := Some (tls_ServerName ev)\<rparr>)"

definition IngestTLSHandshakeEvents ::
  "ArchivalTLSOrQUICHandshakeResult list \<Rightarrow> WebObservationsContainer \<Rightarrow> WebObservationsContainer" where
  "IngestTLSHandshakeEvents evs c =
     fold (\<lambda>ev. update_endpoint (tls_TransactionID ev) (tls_update ev)) evs c"

definition http_update :: "(string \<Rightarrow> string) \<Rightarrow> ArchivalHTTPRequestResult \<Rightarrow> WebObservation \<Rightarrow> WebObservation" where
  "http_update uni ev obs =
     (let failure = Some (utilsStringPointerToString (http_Failure ev));
          obs = obs\<lparr>Type := WebObservationTypeHTTPRoundTrip,
                    Failure := failure,
                    HTTPRequestURL := Some (req_URL (http_Request ev)),
                    HTTPFailure := failure\<rparr>;
          resp = http_Response ev in
      if http_Failure ev = None then
        obs\<lparr>HTTPResponseStatusCode := Some (resp_Code resp),
            HTTPResponseBodyLength := Some (int (length (resp_Body resp))),
            HTTPResponseBodyIsTruncated := Some (resp_BodyIsTruncated resp),
            HTTPResponseHeadersKeys := utilsExtractHTTPHeaderKeys (resp_Headers resp),
            HTTPResponseTitle := Some (WebGetTitle (resp_Body resp)),
            HTTPResponseLocation := utilsExtractHTTPLocation uni (resp_Headers resp),
            HTTPResponseIsFinal := utilsDetermineWhetherHTTPResponseIsFinal (resp_Code resp)\<rparr>
      else obs)"

definition IngestHTTPRoundTripEvents ::
  "(string \<Rightarrow> string) \<Rightarrow> ArchivalHTTPRequestResult list \<Rightarrow> WebObservationsContainer \<Rightarrow> WebObservationsContainer" where
  "IngestHTTPRoundTripEvents uni evs c =
     fold (\<lambda>ev. update_endpoint (http_TransactionID ev) (http_update uni ev)) evs c"

section \<open>Control messages\<close>

definition xref_dns_obs :: "string \<Rightarrow> THResponse \<Rightarrow> WebObservation \<Rightarrow> WebObservation option" where
  "xref_dns_obs inputDomain resp obs =
     do { domain \<leftarrow> Unwrap (DNSDomain obs);
          Some (if domain \<noteq> inputDomain then obs
                else let obs = obs\<lparr>ControlDNSDomain := Some inputDomain,
                                   ControlDNSLookupFailure :=
                                     Some (utilsStringPointerToString (thdns_Failure (th_DNS resp)))\<rparr> in
                     if thdns_Failure (th_DNS resp) \<noteq> None then obs
                     else obs\<lparr>ControlDNSResolvedAddrs := Some (NewSet (thdns_Addrs (th_DNS resp)))\<rparr>) }"

definition controlXrefDNSQueries ::
  "string \<Rightarrow> THResponse \<Rightarrow> WebObservationsContainer \<Rightarrow> WebObservationsContainer option" where
  "controlXrefDNSQueries inputDomain resp c =
     do { failures \<leftarrow> map_each (xref_dns_obs inputDomain resp) (DNSLookupFailures c);
          successes \<leftarrow> map_each (xref_dns_obs inputDomain resp) (DNSLookupSuccesses c);
          Some (c\<lparr>DNSLookupFailures := failures, DNSLookupSuccesses := successes\<rparr>) }"

definition match_dns_obs ::
  "string \<Rightarrow> THResponse \<Rightarrow> (string, bool) gomap \<Rightarrow> WebObservation \<Rightarrow> WebObservation option" where
  "match_dns_obs inputDomain resp thAddrMap obs =
     do { let domain = UnwrapOr (DNSDomain obs) '''';
          addr \<leftarrow> Unwrap (IPAddress obs);
          let failure = Some (utilsStringPointerToString (thdns_Failure (th_DNS resp)));
          let addrs = Some (NewSet (thdns_Addrs (th_DNS resp)));
          Some (if domain = '''' \<and> gmap_get thAddrMap addr = Some True
                then obs\<lparr>IPAddressOrigin := Some IPAddressOriginTH,
                         ControlDNSDomain := Some inputDomain,
                         ControlDNSLookupFailure := failure,
                         ControlDNSResolvedAddrs := addrs\<rparr>
                else if domain = '''' \<or> domain \<noteq> inputDomain then obs
                else let obs = obs\<lparr>ControlDNSDomain := Some inputDomain,
                                   ControlDNSLookupFailure := failure\<rparr> in
                     if thdns_Failure (th_DNS resp) \<noteq> None then obs
                     else obs\<lparr>ControlDNSResolvedAddrs := addrs\<rparr>) }"

definition controlMatchDNSLookupResults ::
  "string \<Rightarrow> THResponse \<Rightarrow> WebObservationsContainer \<Rightarrow> WebObservationsContainer option" where
  "controlMatchDNSLookupResults inputDomain resp c =
     do { let thAddrMap = fold (\<lambda>addr m. AList.update addr True m) (thdns_Addrs (th_DNS resp)) [];
          endpoints \<leftarrow> map_vals_each (match_dns_obs inputDomain resp thAddrMap) (KnownTCPEndpoints c);
          Some (c\<lparr>KnownTCPEndpoints := endpoints\<rparr>) }"

definition xref_tcp_obs :: "THResponse \<Rightarrow> WebObservation \<Rightarrow> WebObservation option" where
  "xref_tcp_obs resp obs =
     do { endpointAddress \<leftarrow> Unwrap (EndpointAddress obs);
          Some (case gmap_get (th_TCPConnect resp) endpointAddress of
                  None \<Rightarrow> obs
                | Some tcp \<Rightarrow>
                    obs\<lparr>ControlTCPConnectFailure := Some (utilsStringPointerToString (thtcp_Failure tcp))\<rparr>) }"

definition controlXrefTCPIPFailures :: "THResponse \<Rightarrow> WebObservationsContainer \<Rightarrow> WebObservationsContainer option" where
  "controlXrefTCPIPFailures resp c =
     do { endpoints \<leftarrow> map_vals_each (xref_tcp_obs resp) (KnownTCPEndpoints c);
          Some (c\<lparr>KnownTCPEndpoints := endpoints\<rparr>) }"

definition xref_tls_obs :: "THResponse \<Rightarrow> WebObservation \<Rightarrow> WebObservation option" where
  "xref_tls_obs resp obs =
     do { endpointAddress \<leftarrow> Unwrap (EndpointAddress obs);
          if IsNone (TLSServerName obs) then Some obs
          else do { serverName \<leftarrow> Unwrap (TLSServerName obs);
                    Some (case gmap_get (th_TLSHandshake resp) endpointAddress of
                            None \<Rightarrow> obs
                          | Some tls \<Rightarrow>
                              if thtls_ServerName tls \<noteq> serverName then obs
                              else obs\<lparr>ControlTLSHandshakeFailure :=
                                         Some (utilsStringPointerToString (thtls_Failure tls))\<rparr>) } }"

definition controlXrefTLSFailures :: "THResponse \<Rightarrow> WebObservationsContainer \<Rightarrow> WebObservationsContainer option" where
  "controlXrefTLSFailures resp c =
     do { endpoints \<leftarrow> map_vals_each (xref_tls_obs resp) (KnownTCPEndpoints c);
          Some (c\<lparr>KnownTCPEndpoints := endpoints\<rparr>) }"

definition expect_http_obs :: "THResponse \<Rightarrow> WebObservation \<Rightarrow> WebObservation" where
  "expect_http_obs resp obs =
     (let h = th_HTTPRequest resp;
          obs = obs\<lparr>ControlHTTPFailure := Some (utilsStringPointerToString (thhttp_Failure h))\<rparr> in
      if thhttp_Failure h \<noteq> None then obs
      else obs\<lparr>ControlHTTPResponseStatusCode := Some (thhttp_StatusCode h),
               ControlHTTPResponseBodyLength := Some (thhttp_BodyLength h),
               ControlHTTPResponseHeadersKeys := utilsExtractHTTPHeaderKeys (thhttp_Headers h),
               ControlHTTPResponseTitle := Some (thhttp_Title h)\<rparr>)"

definition controlSetHTTPFinalResponseExpectation ::
  "THResponse \<Rightarrow> WebObservationsContainer \<Rightarrow> WebObservationsContainer" where
  "controlSetHTTPFinalResponseExpectation resp c =
     c\<lparr>ControlExpectations := Some \<lparr>
         DNSAddresses = NewSet (thdns_Addrs (th_DNS resp)),
         FinalResponseFailure = Some (utilsStringPointerToString (thhttp_Failure (th_HTTPRequest resp)))\<rparr>,
       DNSLookupFailures := map (expect_http_obs resp) (DNSLookupFailures c),
       DNSLookupSuccesses := map (expect_http_obs resp) (DNSLookupSuccesses c),
       KnownTCPEndpoints := gmap_map (expect_http_obs resp) (KnownTCPEndpoints c)\<rparr>"

datatype ingest_error = ErrNoTestKeys | ErrURLParse string

text \<open>
  The result is \<open>None\<close> for a panic, \<open>Some (Inl err)\<close> when the URL does not parse and the updated
  container otherwise.
\<close>

definition IngestControlMessages ::
  "(string \<Rightarrow> string + string) \<Rightarrow> THRequest \<Rightarrow> THResponse \<Rightarrow> WebObservationsContainer \<Rightarrow>
   (ingest_error + WebObservationsContainer) option" where
  "IngestControlMessages urlHostname req resp c =
     (case urlHostname (thr_HTTPRequest req) of
        Inl err \<Rightarrow> Some (Inl (ErrURLParse err))
      | Inr inputDomain \<Rightarrow>
          do { c \<leftarrow> controlXrefDNSQueries inputDomain resp c;
               c \<leftarrow> controlMatchDNSLookupResults inputDomain resp c;
               c \<leftarrow> controlXrefTCPIPFailures resp c;
               c \<leftarrow> controlXrefTLSFailures resp c;
               Some (Inr (controlSetHTTPFinalResponseExpectation resp c)) })"

text \<open>
  Each of the four loops reads a field of every event, so that a nil event is a panic: \<open>those\<close> is
  \<open>None\<close> when there is one. The container is lost then, and the steps before have no other failure.
\<close>

definition IngestWebMeasurement ::
  "GeoIPASNLookupper \<Rightarrow> (string \<Rightarrow> string) \<Rightarrow> (string \<Rightarrow> string + string) \<Rightarrow> WebMeasurement \<Rightarrow>
   (ingest_error + WebObservationsContainer) option" where
  "IngestWebMeasurement lookupper uni urlHostname meas =
     (case meas_TestKeys meas of
        None \<Rightarrow> Some (Inl ErrNoTestKeys)
      | Some tk \<Rightarrow>
          do { c \<leftarrow> Some NewWebObservationsContainer;
               c \<leftarrow> map_option (\<lambda>evs. IngestDNSLookupEvents lookupper evs c) (those (tk_Queries tk));
               c \<leftarrow> map_option (\<lambda>evs. IngestTCPConnectEvents lookupper evs c) (those (tk_TCPConnect tk));
               c \<leftarrow> map_option (\<lambda>evs. IngestTLSHandshakeEvents evs c) (those (tk_TLSHandshakes tk));
               c \<leftarrow> map_option (\<lambda>evs. IngestHTTPRoundTripEvents uni evs c) (those (tk_Requests tk));
               if \<not> IsNone (tk_XControlRequest tk) \<and> \<not> IsNone (tk_Control tk)
               then do { req \<leftarrow> Unwrap (tk_XControlRequest tk); resp \<leftarrow> Unwrap (tk_Control tk);
                         IngestControlMessages urlHostname req resp c }
               else Some (Inr c) })"

section \<open>Well-formed containers\<close>

definition dns_failure_wf :: "WebObservation \<Rightarrow> bool" where
  "dns_failure_wf obs \<longleftrightarrow>
     Type obs = WebObservationTypeDNSLookup \<and> Failure obs = DNSLookupFailure obs \<and>
     DNSLookupFailure obs \<noteq> None \<and> DNSTransactionID obs = Some (TransactionID obs) \<and>
     DNSDomain obs \<noteq> None \<and> DNSQueryType obs \<noteq> None \<and> DNSEngine obs \<noteq> None \<and>
     IPAddress obs = None \<and> EndpointTransactionID obs = None \<and> HTTPResponseIsFinal obs = None"

definition dns_success_wf :: "WebObservation \<Rightarrow> bool" where
  "dns_success_wf obs \<longleftrightarrow>
     Type obs = WebObservationTypeDNSLookup \<and> Failure obs = Some '''' \<and>
     DNSLookupFailure obs = Some '''' \<and> DNSTransactionID obs = Some (TransactionID obs) \<and>
     DNSDomain obs \<noteq> None \<and> DNSQueryType obs \<noteq> None \<and> DNSEngine obs \<noteq> None \<and>
     (case (DNSResolvedAddrs obs, IPAddress obs) of
        (Some addrs, Some ip) \<Rightarrow> finite addrs \<and> ip \<in> addrs \<and> IPAddressBogon obs = Some (IsBogon ip)
      | _ \<Rightarrow> False) \<and>
     EndpointTransactionID obs = None \<and> HTTPResponseIsFinal obs = None"

text \<open>
  The failure of the last stage that an observation reached: the single failure mode that the
  source documents is that \<open>Failure\<close> is this failure.
\<close>

definition stage_failure :: "WebObservation \<Rightarrow> string option" where
  "stage_failure obs =
     (case Type obs of
        WebObservationTypeDNSLookup \<Rightarrow> DNSLookupFailure obs
      | WebObservationTypeTCPConnect \<Rightarrow> TCPConnectFailure obs
      | WebObservationTypeTLSHandshake \<Rightarrow> TLSHandshakeFailure obs
      | WebObservationTypeHTTPRoundTrip \<Rightarrow> HTTPFailure obs)"

definition endpoint_wf :: "int \<Rightarrow> WebObservation \<Rightarrow> bool" where
  "endpoint_wf txid obs \<longleftrightarrow>
     TransactionID obs = txid \<and> EndpointTransactionID obs = Some txid \<and>
     Type obs \<noteq> WebObservationTypeDNSLookup \<and>
     Failure obs = stage_failure obs \<and> Failure obs \<noteq> None \<and> TCPConnectFailure obs \<noteq> None \<and>
     (case (IPAddress obs, EndpointPort obs) of
        (Some ip, Some port) \<Rightarrow>
          EndpointAddress obs = Some (join_host_port ip port) \<and> IPAddressBogon obs = Some (IsBogon ip)
      | _ \<Rightarrow> False) \<and>
     (TLSServerName obs = None \<longleftrightarrow> TLSHandshakeFailure obs = None) \<and>
     (Type obs = WebObservationTypeTCPConnect \<longrightarrow> TLSHandshakeFailure obs = None) \<and>
     (Type obs \<noteq> WebObservationTypeHTTPRoundTrip \<longrightarrow> HTTPFailure obs = None) \<and>
     (HTTPResponseStatusCode obs \<noteq> None \<longrightarrow> HTTPFailure obs \<noteq> None) \<and>
     HTTPResponseIsFinal obs =
       Option.bind (HTTPResponseStatusCode obs) utilsDetermineWhetherHTTPResponseIsFinal"

text \<open>The lookup an address comes from: the first success that resolved it.\<close>

definition first_lookup :: "WebObservation list \<Rightarrow> string option \<Rightarrow> WebObservation option" where
  "first_lookup successes ip = find (\<lambda>obs. IPAddress obs = ip) successes"

definition endpoint_dns :: "WebObservation list \<Rightarrow> WebObservation \<Rightarrow> bool" where
  "endpoint_dns successes obs =
     (case first_lookup successes (IPAddress obs) of
        Some l \<Rightarrow> DNSTransactionID obs = DNSTransactionID l \<and> DNSDomain obs = DNSDomain l \<and>
                  DNSLookupFailure obs = DNSLookupFailure l \<and> DNSResolvedAddrs obs = DNSResolvedAddrs l
      | None \<Rightarrow> DNSTransactionID obs = None \<and> DNSDomain obs = None \<and>
                DNSLookupFailure obs = None \<and> DNSResolvedAddrs obs = None)"

definition known_wf :: "WebObservationsContainer \<Rightarrow> bool" where
  "known_wf c \<longleftrightarrow> gmap_wf (knownIPAddresses c) \<and>
     (\<forall>ip. gmap_get (knownIPAddresses c) ip = first_index (map IPAddress (DNSLookupSuccesses c)) (Some ip))"

definition container_wf :: "WebObservationsContainer \<Rightarrow> bool" where
  "container_wf c \<longleftrightarrow>
     list_all dns_failure_wf (DNSLookupFailures c) \<and>
     list_all dns_success_wf (DNSLookupSuccesses c) \<and>
     known_wf c \<and>
     gmap_wf (KnownTCPEndpoints c) \<and>
     (\<forall>(txid, obs) \<in> set (KnownTCPEndpoints c).
        endpoint_wf txid obs \<and> endpoint_dns (DNSLookupSuccesses c) obs)"

text \<open>
  The part of the invariant that the analysis needs, which a filtered container has as well.
\<close>

definition observations_wf :: "WebObservationsContainer \<Rightarrow> bool" where
  "observations_wf c \<longleftrightarrow>
     list_all dns_failure_wf (DNSLookupFailures c) \<and>
     list_all dns_success_wf (DNSLookupSuccesses c) \<and>
     gmap_wf (KnownTCPEndpoints c) \<and>
     (\<forall>(txid, obs) \<in> set (KnownTCPEndpoints c). endpoint_wf txid obs)"

lemma container_wf_observations: "container_wf c \<Longrightarrow> observations_wf c"
  by (auto simp: container_wf_def observations_wf_def)

lemma container_wf_new: "container_wf NewWebObservationsContainer"
  by (simp add: container_wf_def NewWebObservationsContainer_def known_wf_def first_lookup_def)

section \<open>DNS events keep the invariant\<close>

lemma dns_failure_obs_wf: "dns_failure_wf (dns_failure_obs ev)"
  by (simp add: dns_failure_wf_def dns_failure_obs_def WebObservation_zero_def Let_def)

lemma ingestDNSLookupFailures_eq:
  "ingestDNSLookupFailures evs c =
     c\<lparr>DNSLookupFailures := DNSLookupFailures c @ map dns_failure_obs (filter (\<lambda>ev. dns_Failure ev \<noteq> None) evs)\<rparr>"
  unfolding ingestDNSLookupFailures_def
  by (induction evs arbitrary: c) auto

lemma dns_success_obs_wf:
  "finite addrs \<Longrightarrow> ip \<in> addrs \<Longrightarrow> dns_success_wf (dns_success_obs lookupper ev addrs ip)"
  by (simp add: dns_success_wf_def dns_success_obs_def WebObservation_zero_def)

lemma first_lookup_index:
  "first_lookup xs ip = map_option (\<lambda>i. xs ! i) (first_index (map IPAddress xs) ip)"
  by (induction xs) (auto simp: first_lookup_def option.map_comp comp_def)

lemma known_wf_first:
  "known_wf c \<Longrightarrow> map_option (\<lambda>idx. DNSLookupSuccesses c ! idx) (gmap_get (knownIPAddresses c) k) =
     first_lookup (DNSLookupSuccesses c) (Some k)"
  by (simp add: known_wf_def first_lookup_index)

lemma known_wf_snoc:
  assumes "known_wf c" and "IPAddress obs = Some ip"
  shows "known_wf (add_dns_success obs ip c)"
  using assms by (auto simp: known_wf_def add_dns_success_def Let_def first_index_snoc split: option.splits)

text \<open>The DNS events do not touch the endpoints, which are still empty when they are ingested.\<close>

definition dns_part_wf :: "WebObservationsContainer \<Rightarrow> bool" where
  "dns_part_wf c \<longleftrightarrow> container_wf c \<and> KnownTCPEndpoints c = []"

lemma add_dns_success_wf:
  assumes "dns_part_wf c" and "dns_success_wf obs" and "IPAddress obs = Some ip"
  shows "dns_part_wf (add_dns_success obs ip c)"
  using assms known_wf_snoc [of c obs ip]
  by (simp add: dns_part_wf_def container_wf_def add_dns_success_def Let_def)

lemma ingest_dns_success_wf: "dns_part_wf c \<Longrightarrow> dns_part_wf (ingest_dns_success lookupper ev c)"
proof (cases "dns_Failure ev")
  case None
  assume "dns_part_wf c"
  then have "dns_part_wf (fold (\<lambda>ip c. add_dns_success
      (dns_success_obs lookupper ev (set (utilsResolvedAddresses (dns_Answers ev))) ip) ip c)
      (set_Keys (set (utilsResolvedAddresses (dns_Answers ev)))) c)"
  proof (rule fold_invariant_set)
    fix ip c
    assume "ip \<in> set (set_Keys (set (utilsResolvedAddresses (dns_Answers ev))))" and c: "dns_part_wf c"
    then have "ip \<in> set (utilsResolvedAddresses (dns_Answers ev))" by (simp add: set_Keys_def)
    then show "dns_part_wf (add_dns_success
        (dns_success_obs lookupper ev (set (utilsResolvedAddresses (dns_Answers ev))) ip) ip c)"
      by (intro add_dns_success_wf c dns_success_obs_wf) (simp_all add: dns_success_obs_def)
  qed
  with None show ?thesis by (simp add: ingest_dns_success_def Let_def)
qed (simp add: ingest_dns_success_def)

lemma IngestDNSLookupEvents_wf:
  assumes "dns_part_wf c"
  shows "dns_part_wf (IngestDNSLookupEvents lookupper evs c)"
proof -
  have "dns_part_wf (ingestDNSLookupFailures evs c)"
    using assms dns_failure_obs_wf
    by (auto simp: dns_part_wf_def container_wf_def ingestDNSLookupFailures_eq list_all_iff known_wf_def)
  then show ?thesis
    unfolding IngestDNSLookupEvents_def ingestDNSLookupSuccesses_def
    by (rule fold_invariant_set) (rule ingest_dns_success_wf)
qed

section \<open>Endpoint events keep the invariant\<close>

lemma known_or_new_obs_first:
  assumes "known_wf c"
  shows "known_or_new_obs lookupper c ip =
    (case first_lookup (DNSLookupSuccesses c) (Some ip) of
       Some l \<Rightarrow> l
     | None \<Rightarrow> WebObservation_zero\<lparr>IPAddressOrigin := None, IPAddress := Some ip,
         IPAddressASN := utilsGeoipxLookupASN lookupper ip, IPAddressBogon := Some (IsBogon ip)\<rparr>)"
  using known_wf_first [OF assms, of ip]
  by (auto simp: known_or_new_obs_def split: option.splits)

lemma first_lookup_SomeD: "first_lookup xs ip = Some l \<Longrightarrow> l \<in> set xs \<and> IPAddress l = ip"
  by (auto simp: first_lookup_def find_Some_iff)

lemma tcp_obs_wf:
  assumes "container_wf c"
  shows "endpoint_wf (tcp_TransactionID ev) (tcp_obs ev (known_or_new_obs lookupper c (tcp_IP ev))) \<and>
    endpoint_dns (DNSLookupSuccesses c) (tcp_obs ev (known_or_new_obs lookupper c (tcp_IP ev)))"
proof -
  let ?l = "first_lookup (DNSLookupSuccesses c) (Some (tcp_IP ev))"
  let ?obs = "known_or_new_obs lookupper c (tcp_IP ev)"
  have "known_wf c" using assms by (simp add: container_wf_def)
  note obs = known_or_new_obs_first [OF this, of lookupper "tcp_IP ev"]
  have "dns_success_wf l \<and> IPAddress l = Some (tcp_IP ev)" if "?l = Some l" for l
    using first_lookup_SomeD [OF that] assms by (auto simp: container_wf_def list_all_iff)
  then have ip: "IPAddress ?obs = Some (tcp_IP ev)" "IPAddressBogon ?obs = Some (IsBogon (tcp_IP ev))"
    unfolding obs by (auto simp: dns_success_wf_def split: option.splits)
  have "endpoint_wf (tcp_TransactionID ev) (tcp_obs ev ?obs)"
    using ip by (simp add: endpoint_wf_def stage_failure_def tcp_obs_def WebObservation_zero_def Let_def)
  moreover have "endpoint_dns (DNSLookupSuccesses c) (tcp_obs ev ?obs)"
    using ip obs by (auto simp: endpoint_dns_def tcp_obs_def Let_def WebObservation_zero_def split: option.splits)
  ultimately show ?thesis ..
qed

lemma gmap_update_all:
  assumes "\<forall>(k, v) \<in> set m. P k v" and "P k v"
  shows "\<forall>(k, v) \<in> set (AList.update k v m). P k v"
  using assms by (induction m) auto

lemma container_wf_update:
  assumes "container_wf c" and "endpoint_wf txid obs \<and> endpoint_dns (DNSLookupSuccesses c) obs"
  shows "container_wf (c\<lparr>KnownTCPEndpoints := AList.update txid obs (KnownTCPEndpoints c)\<rparr>)"
  using assms gmap_update_all [where k = txid and v = obs and m = "KnownTCPEndpoints c" and
      P = "\<lambda>txid obs. endpoint_wf txid obs \<and> endpoint_dns (DNSLookupSuccesses c) obs"]
  by (simp add: container_wf_def known_wf_def)

lemma IngestTCPConnectEvents_wf: "container_wf c \<Longrightarrow> container_wf (IngestTCPConnectEvents lookupper evs c)"
  unfolding IngestTCPConnectEvents_def
  by (rule fold_invariant_set) (simp_all add: container_wf_update tcp_obs_wf)

lemma update_endpoint_wf:
  assumes "container_wf c"
    and "\<And>obs. (txid, obs) \<in> set (KnownTCPEndpoints c) \<Longrightarrow> endpoint_wf txid obs \<Longrightarrow> endpoint_wf txid (upd obs)"
    and "\<And>obs ss. endpoint_dns ss obs \<Longrightarrow> endpoint_dns ss (upd obs)"
  shows "container_wf (update_endpoint txid upd c)"
proof (cases "gmap_get (KnownTCPEndpoints c) txid")
  case (Some obs)
  then have "endpoint_wf txid obs" "endpoint_dns (DNSLookupSuccesses c) obs"
    using assms(1) map_of_SomeD [OF Some] by (auto simp: container_wf_def)
  with Some assms map_of_SomeD [OF Some] show ?thesis by (simp add: update_endpoint_def container_wf_update)
qed (simp add: update_endpoint_def assms)

lemma tls_update_wf: "HTTPFailure obs = None \<Longrightarrow> endpoint_wf txid obs \<Longrightarrow> endpoint_wf txid (tls_update ev obs)"
  by (simp add: endpoint_wf_def tls_update_def stage_failure_def Let_def split: option.splits)

lemma http_update_wf: "endpoint_wf txid obs \<Longrightarrow> endpoint_wf txid (http_update uni ev obs)"
  by (auto simp: endpoint_wf_def http_update_def stage_failure_def Let_def split: option.splits)

lemma tls_update_dns: "endpoint_dns ss (tls_update ev obs) = endpoint_dns ss obs"
  by (simp add: endpoint_dns_def tls_update_def Let_def cong: option.case_cong)

lemma http_update_dns: "endpoint_dns ss (http_update uni ev obs) = endpoint_dns ss obs"
  by (simp add: endpoint_dns_def http_update_def Let_def cong: option.case_cong)

lemma IngestHTTPRoundTripEvents_wf:
  "container_wf c \<Longrightarrow> container_wf (IngestHTTPRoundTripEvents uni evs c)"
  unfolding IngestHTTPRoundTripEvents_def
  by (rule fold_invariant_set) (simp_all add: update_endpoint_wf http_update_wf http_update_dns)

text \<open>A property that each update of an endpoint keeps.\<close>

definition endpoints_all :: "(WebObservation \<Rightarrow> bool) \<Rightarrow> WebObservationsContainer \<Rightarrow> bool" where
  "endpoints_all P c \<longleftrightarrow> (\<forall>(txid, obs) \<in> set (KnownTCPEndpoints c). P obs)"

lemma endpoints_all_update:
  "endpoints_all P c \<Longrightarrow> P obs \<Longrightarrow>
     endpoints_all P (c\<lparr>KnownTCPEndpoints := AList.update txid obs (KnownTCPEndpoints c)\<rparr>)"
  using gmap_update_all [where P = "\<lambda>_. P"] by (simp add: endpoints_all_def)

lemma endpoints_all_tcp:
  "endpoints_all P c \<Longrightarrow> (\<And>ev obs. P (tcp_obs ev obs)) \<Longrightarrow> endpoints_all P (IngestTCPConnectEvents lookupper evs c)"
  unfolding IngestTCPConnectEvents_def
  by (rule fold_invariant_set) (simp_all add: endpoints_all_update)

lemma endpoints_all_update_endpoint:
  assumes "endpoints_all P c" and "\<And>obs. P obs \<Longrightarrow> P (upd obs)"
  shows "endpoints_all P (update_endpoint txid upd c)"
proof (cases "gmap_get (KnownTCPEndpoints c) txid")
  case (Some obs)
  then have "P obs" using assms(1) map_of_SomeD [OF Some] by (auto simp: endpoints_all_def)
  with Some assms show ?thesis by (simp add: update_endpoint_def endpoints_all_update)
qed (simp add: update_endpoint_def assms)

lemma endpoints_all_tls:
  "endpoints_all P c \<Longrightarrow> (\<And>ev obs. P obs \<Longrightarrow> P (tls_update ev obs)) \<Longrightarrow> endpoints_all P (IngestTLSHandshakeEvents evs c)"
  unfolding IngestTLSHandshakeEvents_def
  by (rule fold_invariant_set) (simp_all add: endpoints_all_update_endpoint)

lemma endpoints_all_http:
  "endpoints_all P c \<Longrightarrow> (\<And>ev obs. P obs \<Longrightarrow> P (http_update uni ev obs)) \<Longrightarrow>
     endpoints_all P (IngestHTTPRoundTripEvents uni evs c)"
  unfolding IngestHTTPRoundTripEvents_def
  by (rule fold_invariant_set) (simp_all add: endpoints_all_update_endpoint)

text \<open>The TLS events come before the HTTP events: no endpoint has an HTTP result yet.\<close>

abbreviation before_http :: "WebObservationsContainer \<Rightarrow> bool" where
  "before_http \<equiv> endpoints_all (\<lambda>obs. HTTPFailure obs = None)"

lemma IngestTLSHandshakeEvents_wf:
  assumes "container_wf c" and "before_http c"
  shows "container_wf (IngestTLSHandshakeEvents evs c)"
proof -
  have "container_wf (IngestTLSHandshakeEvents evs c) \<and> before_http (IngestTLSHandshakeEvents evs c)"
    unfolding IngestTLSHandshakeEvents_def
  proof (rule fold_invariant_set)
    fix ev c
    assume c: "container_wf c \<and> before_http c"
    have "container_wf (update_endpoint (tls_TransactionID ev) (tls_update ev) c)"
      by (rule update_endpoint_wf) (use c in \<open>auto simp: tls_update_dns endpoints_all_def intro: tls_update_wf\<close>)
    moreover have "before_http (update_endpoint (tls_TransactionID ev) (tls_update ev) c)"
      by (rule endpoints_all_update_endpoint) (use c in \<open>auto simp: tls_update_def Let_def\<close>)
    ultimately show "container_wf (update_endpoint (tls_TransactionID ev) (tls_update ev) c) \<and>
        before_http (update_endpoint (tls_TransactionID ev) (tls_update ev) c)" ..
  qed (use assms in simp)
  then show ?thesis ..
qed

section \<open>Control messages\<close>

text \<open>
  The control messages write the control fields and the origin of the address only: \<open>core\<close>
  erases them.
\<close>

definition core :: "WebObservation \<Rightarrow> WebObservation" where
  "core obs = obs\<lparr>
     IPAddressOrigin := None, ControlDNSDomain := None, ControlDNSLookupFailure := None,
     ControlDNSResolvedAddrs := None, ControlTCPConnectFailure := None,
     ControlTLSHandshakeFailure := None, ControlHTTPFailure := None,
     ControlHTTPResponseStatusCode := None, ControlHTTPResponseBodyLength := None,
     ControlHTTPResponseHeadersKeys := None, ControlHTTPResponseTitle := None\<rparr>"

lemma core_fields:
  "dns_failure_wf (core obs) = dns_failure_wf obs" "dns_success_wf (core obs) = dns_success_wf obs"
  "endpoint_wf txid (core obs) = endpoint_wf txid obs" "endpoint_dns ss (core obs) = endpoint_dns ss obs"
  "IPAddress (core obs) = IPAddress obs" "DNSDomain (core obs) = DNSDomain obs"
  "EndpointAddress (core obs) = EndpointAddress obs" "TLSServerName (core obs) = TLSServerName obs"
  by (simp_all add: core_def dns_failure_wf_def dns_success_wf_def endpoint_wf_def endpoint_dns_def stage_failure_def
      cong: option.case_cong WebObservationType.case_cong)

lemma core_cong:
  assumes "core obs = core obs'"
  shows "dns_failure_wf obs = dns_failure_wf obs'" "dns_success_wf obs = dns_success_wf obs'"
    "endpoint_wf txid obs = endpoint_wf txid obs'" "endpoint_dns ss obs = endpoint_dns ss obs'"
    "IPAddress obs = IPAddress obs'" "DNSDomain obs = DNSDomain obs'"
    "EndpointAddress obs = EndpointAddress obs'" "TLSServerName obs = TLSServerName obs'"
  using assms by (metis core_fields)+

lemma xref_dns_obs_total:
  "DNSDomain obs \<noteq> None \<Longrightarrow> \<exists>obs'. xref_dns_obs d resp obs = Some obs' \<and> core obs' = core obs"
  by (auto simp: xref_dns_obs_def Let_def core_def)

lemma match_dns_obs_total:
  "IPAddress obs \<noteq> None \<Longrightarrow> \<exists>obs'. match_dns_obs d resp m obs = Some obs' \<and> core obs' = core obs"
  by (auto simp: match_dns_obs_def Let_def core_def)

lemma xref_tcp_obs_total:
  "EndpointAddress obs \<noteq> None \<Longrightarrow> \<exists>obs'. xref_tcp_obs resp obs = Some obs' \<and> core obs' = core obs"
  by (auto simp: xref_tcp_obs_def core_def split: option.splits)

lemma xref_tls_obs_total:
  "EndpointAddress obs \<noteq> None \<Longrightarrow> \<exists>obs'. xref_tls_obs resp obs = Some obs' \<and> core obs' = core obs"
  by (cases "TLSServerName obs") (auto simp: xref_tls_obs_def core_def split: option.splits)

lemma expect_http_obs_core [simp]: "core (expect_http_obs resp obs) = core obs"
  by (simp add: expect_http_obs_def Let_def core_def)

text \<open>Two containers with the same events and possibly different control information.\<close>

definition same_core :: "WebObservationsContainer \<Rightarrow> WebObservationsContainer \<Rightarrow> bool" where
  "same_core c c' \<longleftrightarrow>
     map core (DNSLookupFailures c) = map core (DNSLookupFailures c') \<and>
     map core (DNSLookupSuccesses c) = map core (DNSLookupSuccesses c') \<and>
     gmap_map core (KnownTCPEndpoints c) = gmap_map core (KnownTCPEndpoints c') \<and>
     knownIPAddresses c = knownIPAddresses c'"

lemma map_core_related: "list_all2 (\<lambda>x y. core y = core x) xs ys \<Longrightarrow> map core ys = map core xs"
  by (induction rule: list_all2_induct) simp_all

lemma gmap_core_related:
  "list_all2 (\<lambda>(k, v) (k', w). k' = k \<and> core w = core v) m m' \<Longrightarrow> gmap_map core m' = gmap_map core m"
  by (induction rule: list_all2_induct) (auto simp: gmap_map_def)

lemma first_lookup_core: "first_lookup (map core xs) ip = map_option core (first_lookup xs ip)"
  by (induction xs) (simp_all add: first_lookup_def core_fields)

lemma endpoint_dns_core: "endpoint_dns (map core ss) obs = endpoint_dns ss obs"
  by (simp add: endpoint_dns_def first_lookup_core core_def split: option.splits)

lemma container_wf_core:
  "container_wf c \<longleftrightarrow>
     list_all dns_failure_wf (map core (DNSLookupFailures c)) \<and>
     list_all dns_success_wf (map core (DNSLookupSuccesses c)) \<and>
     gmap_wf (knownIPAddresses c) \<and>
     (\<forall>ip. gmap_get (knownIPAddresses c) ip =
           first_index (map IPAddress (map core (DNSLookupSuccesses c))) (Some ip)) \<and>
     gmap_wf (gmap_map core (KnownTCPEndpoints c)) \<and>
     (\<forall>(txid, obs) \<in> set (gmap_map core (KnownTCPEndpoints c)).
        endpoint_wf txid obs \<and> endpoint_dns (map core (DNSLookupSuccesses c)) obs)"
  by (auto simp: container_wf_def known_wf_def list_all_iff core_fields comp_def endpoint_dns_core set_gmap_map)

lemma same_core_wf: "same_core c c' \<Longrightarrow> container_wf c \<Longrightarrow> container_wf c'"
  unfolding same_core_def container_wf_core by simp

lemma same_core_refl [simp]: "same_core c c"
  by (simp add: same_core_def)

lemma same_core_trans: "same_core a b \<Longrightarrow> same_core b c \<Longrightarrow> same_core a c"
  by (simp add: same_core_def)

lemma controlXrefDNSQueries_total:
  assumes "container_wf c"
  shows "\<exists>c'. controlXrefDNSQueries d resp c = Some c' \<and> same_core c c' \<and>
    KnownTCPEndpoints c' = KnownTCPEndpoints c"
proof -
  let ?f = "xref_dns_obs d resp" and ?P = "\<lambda>x y. core y = core x"
  have "\<exists>ys. map_each ?f (DNSLookupFailures c) = Some ys \<and> list_all2 ?P (DNSLookupFailures c) ys"
    using assms by (intro map_each_related xref_dns_obs_total) (auto simp: container_wf_def list_all_iff dns_failure_wf_def)
  moreover have "\<exists>ys. map_each ?f (DNSLookupSuccesses c) = Some ys \<and> list_all2 ?P (DNSLookupSuccesses c) ys"
    using assms by (intro map_each_related xref_dns_obs_total) (auto simp: container_wf_def list_all_iff dns_success_wf_def)
  ultimately show ?thesis
    by (auto simp: controlXrefDNSQueries_def same_core_def dest!: map_core_related)
qed

text \<open>The three loops over the endpoints have the same shape.\<close>

lemma endpoint_loop_total:
  assumes wf: "container_wf c"
    and total: "\<And>txid obs. endpoint_wf txid obs \<Longrightarrow> \<exists>obs'. f obs = Some obs' \<and> core obs' = core obs"
  shows "\<exists>m. map_vals_each f (KnownTCPEndpoints c) = Some m \<and> same_core c (c\<lparr>KnownTCPEndpoints := m\<rparr>) \<and>
    list_all2 (\<lambda>(k, v) (k', w). k' = k \<and> f v = Some w) (KnownTCPEndpoints c) m"
proof -
  have "\<exists>m. map_vals_each f (KnownTCPEndpoints c) = Some m \<and>
      list_all2 (\<lambda>(k, v) (k', w). k' = k \<and> f v = Some w \<and> core w = core v) (KnownTCPEndpoints c) m"
    by (rule map_vals_each_related) (use wf total in \<open>fastforce simp: container_wf_def\<close>)
  then obtain m where m: "map_vals_each f (KnownTCPEndpoints c) = Some m"
    and rel: "list_all2 (\<lambda>(k, v) (k', w). k' = k \<and> f v = Some w \<and> core w = core v) (KnownTCPEndpoints c) m"
    by auto
  have "list_all2 (\<lambda>(k, v) (k', w). k' = k \<and> core w = core v) (KnownTCPEndpoints c) m"
    "list_all2 (\<lambda>(k, v) (k', w). k' = k \<and> f v = Some w) (KnownTCPEndpoints c) m"
    using rel by (auto elim!: list_all2_mono)
  with m show ?thesis by (auto simp: same_core_def dest: gmap_core_related)
qed

lemma endpoint_wf_present:
  "endpoint_wf txid obs \<Longrightarrow> IPAddress obs \<noteq> None" "endpoint_wf txid obs \<Longrightarrow> EndpointAddress obs \<noteq> None"
  by (auto simp: endpoint_wf_def split: option.splits)

lemma controlMatchDNSLookupResults_total:
  "container_wf c \<Longrightarrow> \<exists>c'. controlMatchDNSLookupResults d resp c = Some c' \<and> same_core c c'"
  using endpoint_loop_total [of c "match_dns_obs d resp
      (fold (\<lambda>addr m. AList.update addr True m) (thdns_Addrs (th_DNS resp)) [])"]
  by (force simp: controlMatchDNSLookupResults_def Let_def endpoint_wf_present intro: match_dns_obs_total)

lemma controlXrefTCPIPFailures_total:
  "container_wf c \<Longrightarrow> \<exists>c'. controlXrefTCPIPFailures resp c = Some c' \<and> same_core c c'"
  using endpoint_loop_total [of c "xref_tcp_obs resp"]
  by (force simp: controlXrefTCPIPFailures_def endpoint_wf_present intro: xref_tcp_obs_total)

lemma controlXrefTLSFailures_total:
  "container_wf c \<Longrightarrow> \<exists>c'. controlXrefTLSFailures resp c = Some c' \<and> same_core c c'"
  using endpoint_loop_total [of c "xref_tls_obs resp"]
  by (force simp: controlXrefTLSFailures_def endpoint_wf_present intro: xref_tls_obs_total)

lemma controlSetHTTP_core: "same_core c (controlSetHTTPFinalResponseExpectation resp c)"
  by (simp add: same_core_def controlSetHTTPFinalResponseExpectation_def comp_def)

lemma IngestControlMessages_error:
  "urlHostname (thr_HTTPRequest req) = Inl e \<Longrightarrow>
     IngestControlMessages urlHostname req resp c = Some (Inl (ErrURLParse e))"
  by (simp add: IngestControlMessages_def)

lemma IngestControlMessages_ok:
  assumes "container_wf c" and d: "urlHostname (thr_HTTPRequest req) = Inr d"
  shows "\<exists>c'. IngestControlMessages urlHostname req resp c = Some (Inr c') \<and> same_core c c' \<and> container_wf c'"
proof -
  obtain c1 where c1: "controlXrefDNSQueries d resp c = Some c1" "same_core c c1"
    using controlXrefDNSQueries_total [OF assms(1)] by auto
  note wf1 = same_core_wf [OF c1(2) assms(1)]
  obtain c2 where c2: "controlMatchDNSLookupResults d resp c1 = Some c2" "same_core c1 c2"
    using controlMatchDNSLookupResults_total [OF wf1] by auto
  note wf2 = same_core_wf [OF c2(2) wf1]
  obtain c3 where c3: "controlXrefTCPIPFailures resp c2 = Some c3" "same_core c2 c3"
    using controlXrefTCPIPFailures_total [OF wf2] by auto
  note wf3 = same_core_wf [OF c3(2) wf2]
  obtain c4 where c4: "controlXrefTLSFailures resp c3 = Some c4" "same_core c3 c4"
    using controlXrefTLSFailures_total [OF wf3] by auto
  let ?c5 = "controlSetHTTPFinalResponseExpectation resp c4"
  have "same_core c ?c5"
    using c1 c2 c3 c4 controlSetHTTP_core same_core_trans by metis
  moreover have "IngestControlMessages urlHostname req resp c = Some (Inr ?c5)"
    using d c1 c2 c3 c4 by (simp add: IngestControlMessages_def)
  ultimately show ?thesis
    using same_core_wf [OF _ assms(1)] by auto
qed

section \<open>The whole ingestion\<close>

text \<open>The container after the events, before the control messages; whether an ingested event is nil.\<close>

definition nil_event :: "WebMeasurementTestKeys \<Rightarrow> bool" where
  "nil_event tk \<longleftrightarrow>
     None \<in> set (tk_Queries tk) \<or> None \<in> set (tk_TCPConnect tk) \<or> None \<in> set (tk_TLSHandshakes tk) \<or> None \<in> set (tk_Requests tk)"

lemma those_eq: "those xs = (if None \<in> set xs then None else Some (map the xs))"
  by (induction xs) (auto split: option.splits)

definition ingest_events ::
  "GeoIPASNLookupper \<Rightarrow> (string \<Rightarrow> string) \<Rightarrow> WebMeasurementTestKeys \<Rightarrow> WebObservationsContainer" where
  "ingest_events lookupper uni tk =
     IngestHTTPRoundTripEvents uni (map the (tk_Requests tk))
       (IngestTLSHandshakeEvents (map the (tk_TLSHandshakes tk))
         (IngestTCPConnectEvents lookupper (map the (tk_TCPConnect tk))
           (IngestDNSLookupEvents lookupper (map the (tk_Queries tk)) NewWebObservationsContainer)))"

lemma IngestWebMeasurement_events:
  "IngestWebMeasurement lookupper uni urlHostname meas =
     (case meas_TestKeys meas of None \<Rightarrow> Some (Inl ErrNoTestKeys)
      | Some tk \<Rightarrow>
          if nil_event tk then None
          else
            (case (tk_XControlRequest tk, tk_Control tk) of
               (Some req, Some resp) \<Rightarrow> IngestControlMessages urlHostname req resp (ingest_events lookupper uni tk)
             | _ \<Rightarrow> Some (Inr (ingest_events lookupper uni tk))))"
  by (auto simp: IngestWebMeasurement_def ingest_events_def nil_event_def those_eq IsNone_def split: option.splits)

lemma IngestDNSLookupEvents_new_wf:
  "dns_part_wf (IngestDNSLookupEvents lookupper evs NewWebObservationsContainer)"
proof (rule IngestDNSLookupEvents_wf)
  show "dns_part_wf NewWebObservationsContainer"
    using container_wf_new by (simp add: dns_part_wf_def NewWebObservationsContainer_def)
qed

lemma ingest_events_wf: "container_wf (ingest_events lookupper uni tk)"
proof -
  let ?d = "IngestDNSLookupEvents lookupper (map the (tk_Queries tk)) NewWebObservationsContainer"
  have d: "container_wf ?d" "before_http ?d"
    using IngestDNSLookupEvents_new_wf [of lookupper "map the (tk_Queries tk)"]
    by (simp_all add: dns_part_wf_def endpoints_all_def)
  moreover have "before_http (IngestTCPConnectEvents lookupper (map the (tk_TCPConnect tk)) ?d)"
    using d(2) by (rule endpoints_all_tcp) (simp add: tcp_obs_def WebObservation_zero_def Let_def)
  ultimately show ?thesis
    unfolding ingest_events_def
    by (intro IngestHTTPRoundTripEvents_wf IngestTLSHandshakeEvents_wf IngestTCPConnectEvents_wf)
qed

lemma ingest_events_uncontrolled:
  assumes "\<And>ev obs. P (tcp_obs ev obs)" and "\<And>ev obs. P obs \<Longrightarrow> P (tls_update ev obs)"
    and "\<And>ev obs. P obs \<Longrightarrow> P (http_update uni ev obs)"
  shows "endpoints_all P (ingest_events lookupper uni tk)"
  unfolding ingest_events_def
  using IngestDNSLookupEvents_new_wf [of lookupper "map the (tk_Queries tk)"]
  by (intro endpoints_all_http endpoints_all_tls endpoints_all_tcp assms)
    (simp_all add: dns_part_wf_def endpoints_all_def)

lemma IngestDNSLookupEvents_failures:
  "DNSLookupFailures (IngestDNSLookupEvents lookupper evs NewWebObservationsContainer) =
     map dns_failure_obs (filter (\<lambda>ev. dns_Failure ev \<noteq> None) evs)"
proof -
  have "DNSLookupFailures (fold (\<lambda>ip. add_dns_success (g ip) ip) ips c) = DNSLookupFailures c" for g ips c
    by (induction ips arbitrary: c) (simp_all add: add_dns_success_def Let_def)
  then have "DNSLookupFailures (ingestDNSLookupSuccesses lookupper evs c) = DNSLookupFailures c" for c
    unfolding ingestDNSLookupSuccesses_def
    by (induction evs arbitrary: c) (simp_all add: ingest_dns_success_def Let_def)
  then show ?thesis
    by (simp add: IngestDNSLookupEvents_def ingestDNSLookupFailures_eq NewWebObservationsContainer_def)
qed

text \<open>The records of a successful lookup: one per address it resolved, in the order of the addresses.\<close>

definition lookup_records :: "GeoIPASNLookupper \<Rightarrow> ArchivalDNSLookupResult \<Rightarrow> WebObservation list" where
  "lookup_records lookupper ev =
     (let addrs = set (utilsResolvedAddresses (dns_Answers ev))
      in map (dns_success_obs lookupper ev addrs) (sorted_list_of_set addrs))"

lemma IngestDNSLookupEvents_successes:
  "DNSLookupSuccesses (IngestDNSLookupEvents lookupper evs NewWebObservationsContainer) =
     concat (map (lookup_records lookupper) (filter (\<lambda>ev. dns_Failure ev = None) evs))"
proof -
  have "DNSLookupSuccesses (fold (\<lambda>ip. add_dns_success (g ip) ip) ips c) = DNSLookupSuccesses c @ map g ips" for g ips c
    by (induction ips arbitrary: c) (simp_all add: add_dns_success_def Let_def)
  then have "DNSLookupSuccesses (ingestDNSLookupSuccesses lookupper evs c) = DNSLookupSuccesses c @
      concat (map (lookup_records lookupper) (filter (\<lambda>ev. dns_Failure ev = None) evs))" for c
    unfolding ingestDNSLookupSuccesses_def
    by (induction evs arbitrary: c) (auto simp: ingest_dns_success_def Let_def lookup_records_def set_Keys_def)
  then show ?thesis
    by (simp add: IngestDNSLookupEvents_def ingestDNSLookupFailures_eq NewWebObservationsContainer_def)
qed

lemma IngestTCPConnectEvents_keys:
  "fst ` set (KnownTCPEndpoints (IngestTCPConnectEvents lookupper evs c)) =
     fst ` set (KnownTCPEndpoints c) \<union> tcp_TransactionID ` set evs"
  unfolding IngestTCPConnectEvents_def by (induction evs arbitrary: c) simp_all

lemma IngestTCPConnectEvents_dns:
  "DNSLookupSuccesses (IngestTCPConnectEvents lookupper evs c) = DNSLookupSuccesses c"
  "DNSLookupFailures (IngestTCPConnectEvents lookupper evs c) = DNSLookupFailures c"
  unfolding IngestTCPConnectEvents_def by (induction evs arbitrary: c) simp_all

lemma update_endpoint_frame:
  "fst ` set (KnownTCPEndpoints (update_endpoint txid upd c)) = fst ` set (KnownTCPEndpoints c)"
  "DNSLookupSuccesses (update_endpoint txid upd c) = DNSLookupSuccesses c"
  "DNSLookupFailures (update_endpoint txid upd c) = DNSLookupFailures c"
  by (auto simp: update_endpoint_def insert_absorb split: option.splits dest!: map_of_SomeD
      intro!: insert_absorb rev_image_eqI)

lemma fold_update_endpoint_frame:
  "fst ` set (KnownTCPEndpoints (fold (\<lambda>ev. update_endpoint (t ev) (u ev)) evs c)) = fst ` set (KnownTCPEndpoints c)"
  "DNSLookupSuccesses (fold (\<lambda>ev. update_endpoint (t ev) (u ev)) evs c) = DNSLookupSuccesses c"
  "DNSLookupFailures (fold (\<lambda>ev. update_endpoint (t ev) (u ev)) evs c) = DNSLookupFailures c"
  by (induction evs arbitrary: c) (simp_all add: update_endpoint_frame)

lemma ingest_events_contents:
  "DNSLookupFailures (ingest_events lookupper uni tk) =
     map dns_failure_obs (filter (\<lambda>ev. dns_Failure ev \<noteq> None) (map the (tk_Queries tk)))"
  "DNSLookupSuccesses (ingest_events lookupper uni tk) =
     concat (map (lookup_records lookupper) (filter (\<lambda>ev. dns_Failure ev = None) (map the (tk_Queries tk))))"
  "fst ` set (KnownTCPEndpoints (ingest_events lookupper uni tk)) = tcp_TransactionID ` set (map the (tk_TCPConnect tk))"
  using IngestDNSLookupEvents_new_wf [of lookupper "map the (tk_Queries tk)"]
  by (simp_all add: ingest_events_def IngestHTTPRoundTripEvents_def IngestTLSHandshakeEvents_def
      fold_update_endpoint_frame IngestTCPConnectEvents_keys IngestTCPConnectEvents_dns
      IngestDNSLookupEvents_failures IngestDNSLookupEvents_successes dns_part_wf_def)

section \<open>What the control messages record\<close>

definition control_tcp :: "THResponse \<Rightarrow> WebObservation \<Rightarrow> string option" where
  "control_tcp resp obs =
     map_option (\<lambda>tcp. utilsStringPointerToString (thtcp_Failure tcp))
       (Option.bind (EndpointAddress obs) (gmap_get (th_TCPConnect resp)))"

definition control_tls :: "THResponse \<Rightarrow> WebObservation \<Rightarrow> string option" where
  "control_tls resp obs =
     do { addr \<leftarrow> EndpointAddress obs; sni \<leftarrow> TLSServerName obs;
          tls \<leftarrow> gmap_get (th_TLSHandshake resp) addr;
          if thtls_ServerName tls = sni then Some (utilsStringPointerToString (thtls_Failure tls)) else None }"

lemma endpoints_all_loop:
  assumes "map_vals_each f (KnownTCPEndpoints c) = Some m" and "endpoints_all P c"
    and "\<And>obs obs'. P obs \<Longrightarrow> f obs = Some obs' \<Longrightarrow> Q obs'"
  shows "endpoints_all Q (c\<lparr>KnownTCPEndpoints := m\<rparr>)"
proof -
  have "map_each (\<lambda>(k, v). map_option (Pair k) (f v)) xs = Some ys \<Longrightarrow>
      \<forall>(k, v) \<in> set xs. P v \<Longrightarrow> \<forall>(k, v) \<in> set ys. Q v" for xs ys :: "(int, WebObservation) gomap"
    using assms(3) by (induction xs arbitrary: ys) (force split: Option.bind_splits)+
  then show ?thesis using assms(1,2) by (simp add: endpoints_all_def map_vals_each_def)
qed

lemma IngestControlMessages_records:
  assumes "endpoints_all (\<lambda>obs. ControlTCPConnectFailure obs = None \<and> ControlTLSHandshakeFailure obs = None) c"
    and "IngestControlMessages urlHostname req resp c = Some (Inr c')"
  shows "endpoints_all (\<lambda>obs. ControlTCPConnectFailure obs = control_tcp resp obs \<and>
      ControlTLSHandshakeFailure obs = control_tls resp obs \<and>
      ControlHTTPFailure obs = Some (utilsStringPointerToString (thhttp_Failure (th_HTTPRequest resp)))) c'"
proof -
  obtain d c1 c2 c3 c4 where steps: "controlXrefDNSQueries d resp c = Some c1"
      "controlMatchDNSLookupResults d resp c1 = Some c2" "controlXrefTCPIPFailures resp c2 = Some c3"
      "controlXrefTLSFailures resp c3 = Some c4" "c' = controlSetHTTPFinalResponseExpectation resp c4"
    using assms(2) by (auto simp: IngestControlMessages_def split: sum.splits Option.bind_splits)
  have 1: "endpoints_all (\<lambda>obs. ControlTCPConnectFailure obs = None \<and> ControlTLSHandshakeFailure obs = None) c1"
    using assms(1) steps(1) by (auto simp: controlXrefDNSQueries_def endpoints_all_def split: Option.bind_splits)
  have 2: "endpoints_all (\<lambda>obs. ControlTCPConnectFailure obs = None \<and> ControlTLSHandshakeFailure obs = None) c2"
    using steps(2) by (auto simp: controlMatchDNSLookupResults_def Let_def match_dns_obs_def
        intro!: endpoints_all_loop [OF _ 1] split: Option.bind_splits)
  have 3: "endpoints_all (\<lambda>obs. ControlTCPConnectFailure obs = control_tcp resp obs \<and> ControlTLSHandshakeFailure obs = None) c3"
    using steps(3) by (auto simp: controlXrefTCPIPFailures_def xref_tcp_obs_def control_tcp_def Unwrap_def
        intro!: endpoints_all_loop [OF _ 2] split: Option.bind_splits option.splits if_splits)
  have 4: "endpoints_all (\<lambda>obs. ControlTCPConnectFailure obs = control_tcp resp obs \<and>
      ControlTLSHandshakeFailure obs = control_tls resp obs) c4"
    using steps(4) by (auto simp: controlXrefTLSFailures_def xref_tls_obs_def control_tcp_def control_tls_def
        Unwrap_def IsNone_def intro!: endpoints_all_loop [OF _ 3] split: Option.bind_splits option.splits if_splits)
  then show ?thesis
    by (auto simp: steps(5) controlSetHTTPFinalResponseExpectation_def endpoints_all_def set_gmap_map
        expect_http_obs_def Let_def control_tcp_def control_tls_def)
qed

lemma ingested_wf:
  assumes "IngestWebMeasurement lookupper uni urlHostname meas = Some (Inr c)"
  shows "container_wf c"
proof -
  obtain tk where tk: "meas_TestKeys meas = Some tk"
    using assms by (auto simp: IngestWebMeasurement_events split: option.splits)
  show ?thesis
  proof (cases "\<exists>req resp. tk_XControlRequest tk = Some req \<and> tk_Control tk = Some resp")
    case True
    then obtain req resp where "tk_XControlRequest tk = Some req" "tk_Control tk = Some resp" by auto
    with assms tk have ok: "IngestControlMessages urlHostname req resp (ingest_events lookupper uni tk) = Some (Inr c)"
      by (simp add: IngestWebMeasurement_events split: if_splits)
    then obtain d where "urlHostname (thr_HTTPRequest req) = Inr d"
      by (auto simp: IngestControlMessages_def split: sum.splits)
    from IngestControlMessages_ok [where urlHostname = urlHostname and resp = resp, OF ingest_events_wf this, of lookupper uni tk] ok
    show ?thesis by auto
  next
    case False
    with assms tk show ?thesis by (auto simp: IngestWebMeasurement_events ingest_events_wf split: option.splits if_splits)
  qed
qed

section \<open>A sample measurement\<close>

definition sample_query :: ArchivalDNSLookupResult where
  "sample_query = \<lparr>
     dns_Answers = [\<lparr>ans_ASN = 15133, ans_ASOrgName = ''EDGECAST'', ans_AnswerType = ''A'', ans_Hostname = '''',
       ans_IPv4 = ''93.184.216.34'', ans_IPv6 = '''', ans_TTL = None\<rparr>],
     dns_Engine = ''getaddrinfo'', dns_Failure = None, dns_GetaddrinfoError = 0,
     dns_Hostname = ''example.com'', dns_QueryType = ''ANY'', dns_RawResponse = '''', dns_Rcode = 0,
     dns_ResolverHostname = None, dns_ResolverPort = None, dns_ResolverAddress = '''',
     dns_T0 = 0, dns_T = 1 / 8, dns_Tags = [''depth=0''], dns_TransactionID = 1\<rparr>"

definition sample_connect :: ArchivalTCPConnectResult where
  "sample_connect = \<lparr>
     tcp_IP = ''93.184.216.34'', tcp_Port = 80,
     tcp_Status = \<lparr>st_Blocked = None, st_Failure = Some ''connection_refused'', st_Success = False\<rparr>,
     tcp_T0 = 1 / 8, tcp_T = 1 / 4, tcp_Tags = [''depth=0'', ''fetch_body=true''], tcp_TransactionID = 2\<rparr>"

definition sample_response :: THResponse where
  "sample_response = \<lparr>
     th_TCPConnect = [(''93.184.216.34:80'', \<lparr>thtcp_Status = True, thtcp_Failure = None\<rparr>)],
     th_TLSHandshake = [], th_QUICHandshake = [],
     th_HTTPRequest = \<lparr>thhttp_BodyLength = 1256, thhttp_DiscoveredH3Endpoint = '''', thhttp_Failure = None,
       thhttp_Title = ''Example Domain'', thhttp_Headers = [], thhttp_StatusCode = 200\<rparr>,
     th_HTTP3Request = None,
     th_DNS = \<lparr>thdns_Failure = None, thdns_Addrs = [''93.184.216.34''], thdns_ASNs = []\<rparr>,
     th_IPInfo = []\<rparr>"

definition sample_request :: THRequest where
  "sample_request = \<lparr>thr_HTTPRequest = ''http://example.com/'', thr_HTTPRequestHeaders = [],
     thr_TCPConnect = [''93.184.216.34:80''], thr_XQUICEnabled = False\<rparr>"

definition sample_testkeys :: WebMeasurementTestKeys where
  "sample_testkeys = \<lparr>
     tk_Control = Some sample_response, tk_NetworkEvents = [], tk_Queries = [Some sample_query],
     tk_Requests = [], tk_TCPConnect = [Some sample_connect], tk_TLSHandshakes = [], tk_QUICHandshakes = [],
     tk_XControlRequest = Some sample_request\<rparr>"

definition sample_measurement :: WebMeasurement where
  "sample_measurement = \<lparr>meas_Input = ''http://example.com/'', meas_TestKeys = Some sample_testkeys\<rparr>"

lemma sample_keys:
  "meas_TestKeys sample_measurement = Some sample_testkeys"
  "tk_XControlRequest sample_testkeys = Some sample_request" "tk_Control sample_testkeys = Some sample_response"
  by (simp_all add: sample_measurement_def sample_testkeys_def)

lemma sample_ingested:
  "\<exists>c. IngestWebMeasurement (\<lambda>_. None) id (\<lambda>_. Inr ''example.com'') sample_measurement = Some (Inr c) \<and>
     set (gmap_keys (KnownTCPEndpoints c)) = {2}"
proof -
  let ?e = "ingest_events (\<lambda>_. None) id sample_testkeys"
  obtain c where c: "IngestControlMessages (\<lambda>_. Inr ''example.com'') sample_request sample_response ?e = Some (Inr c)"
    and core: "same_core ?e c"
    using IngestControlMessages_ok [OF ingest_events_wf, of "\<lambda>_. Inr ''example.com''"] by blast
  have "set (gmap_keys (KnownTCPEndpoints c)) = set (gmap_keys (KnownTCPEndpoints ?e))"
    using core unfolding same_core_def by (metis gmap_map_keys)
  then have "set (gmap_keys (KnownTCPEndpoints c)) = {2}"
    using ingest_events_contents(3) [of "\<lambda>_. None" id sample_testkeys]
    by (simp add: sample_testkeys_def sample_connect_def)
  with c sample_keys show ?thesis by (simp add: IngestWebMeasurement_events nil_event_def) (simp add: sample_testkeys_def)
qed

section \<open>Properties\<close>

text \<open>
  C28: The outcome of ingesting a measurement, in every case. It panics exactly when one of the DNS
  lookups, TCP connects, TLS handshakes or HTTP requests is nil. It returns the error of missing test
  keys exactly when there are none, and the error of the URL exactly when both control messages are
  there and the URL of the control request does not parse. Otherwise it returns a container, and the
  container is well-formed: every DNS observation names its transaction and domain, the failure of an
  observation is the failure of the last stage it reached, every endpoint is stored under its own
  transaction and inherits the DNS information of the first lookup that resolved its address.
\<close>

theorem ingest_outcome:
  "(IngestWebMeasurement lookupper uni urlHostname meas = None \<longleftrightarrow> (\<exists>tk. meas_TestKeys meas = Some tk \<and> nil_event tk)) \<and>
   (IngestWebMeasurement lookupper uni urlHostname meas = Some (Inl ErrNoTestKeys) \<longleftrightarrow> meas_TestKeys meas = None) \<and>
   (\<forall>e. IngestWebMeasurement lookupper uni urlHostname meas = Some (Inl (ErrURLParse e)) \<longleftrightarrow>
      (\<exists>tk req resp. meas_TestKeys meas = Some tk \<and> \<not> nil_event tk \<and> tk_XControlRequest tk = Some req \<and> tk_Control tk = Some resp \<and>
         urlHostname (thr_HTTPRequest req) = Inl e)) \<and>
   (case IngestWebMeasurement lookupper uni urlHostname meas of Some (Inr c) \<Rightarrow> container_wf c | _ \<Rightarrow> True)"
proof -
  have wf: "case IngestWebMeasurement lookupper uni urlHostname meas of Some (Inr c) \<Rightarrow> container_wf c | _ \<Rightarrow> True"
    using ingested_wf by (auto split: option.split sum.split)
  have ctl: "case urlHostname (thr_HTTPRequest req) of
        Inl e \<Rightarrow> IngestControlMessages urlHostname req resp (ingest_events lookupper uni tk) = Some (Inl (ErrURLParse e))
      | Inr d \<Rightarrow> \<exists>c. IngestControlMessages urlHostname req resp (ingest_events lookupper uni tk) = Some (Inr c)" for req resp tk
    using IngestControlMessages_ok [where urlHostname = urlHostname and req = req and resp = resp, OF ingest_events_wf]
    by (cases "urlHostname (thr_HTTPRequest req)") (simp add: IngestControlMessages_error, fastforce)
  have "?thesis" if "meas_TestKeys meas = Some tk" for tk
    using that wf ctl [of "the (tk_XControlRequest tk)" "the (tk_Control tk)" tk]
    by (auto simp: IngestWebMeasurement_events split: option.splits sum.splits)
  moreover have "?thesis" if "meas_TestKeys meas = None"
    using that by (simp add: IngestWebMeasurement_events)
  ultimately show ?thesis by (cases "meas_TestKeys meas") blast+
qed

text \<open>
  Every event of the measurement is accounted for and nothing else is. Up to the control
  information, the DNS failures are the failed queries in their order, the DNS successes are one
  record per address of each successful query, and there is one endpoint for each transaction of a
  TCP connect event.
\<close>

theorem ingest_accounts_for_events:
  assumes "meas_TestKeys meas = Some tk"
    and "IngestWebMeasurement lookupper uni urlHostname meas = Some (Inr c)"
  shows "map core (DNSLookupFailures c) =
      map (core \<circ> dns_failure_obs) (filter (\<lambda>ev. dns_Failure ev \<noteq> None) (map the (tk_Queries tk))) \<and>
    map core (DNSLookupSuccesses c) =
      map core (concat (map (lookup_records lookupper) (filter (\<lambda>ev. dns_Failure ev = None) (map the (tk_Queries tk))))) \<and>
    set (gmap_keys (KnownTCPEndpoints c)) = tcp_TransactionID ` set (map the (tk_TCPConnect tk))"
proof -
  let ?e = "ingest_events lookupper uni tk"
  have "same_core ?e c"
  proof (cases "\<exists>req resp. tk_XControlRequest tk = Some req \<and> tk_Control tk = Some resp")
    case True
    then obtain req resp where "tk_XControlRequest tk = Some req" "tk_Control tk = Some resp" by auto
    with assms have ok: "IngestControlMessages urlHostname req resp ?e = Some (Inr c)"
      by (simp add: IngestWebMeasurement_events split: if_splits)
    then obtain d where "urlHostname (thr_HTTPRequest req) = Inr d"
      by (auto simp: IngestControlMessages_def split: sum.splits)
    from IngestControlMessages_ok [where urlHostname = urlHostname and resp = resp, OF ingest_events_wf this, of lookupper uni tk] ok
    show ?thesis by auto
  next
    case False
    with assms show ?thesis by (auto simp: IngestWebMeasurement_events split: option.splits if_splits)
  qed
  moreover have "set (gmap_keys (KnownTCPEndpoints c)) = set (gmap_keys (KnownTCPEndpoints ?e))"
    using calculation unfolding same_core_def by (metis gmap_map_keys)
  ultimately show ?thesis
    using ingest_events_contents [of lookupper uni tk] by (simp add: same_core_def map_concat comp_def)
qed

theorem ingest_accounts_for_events_witness:
  "\<exists>c. IngestWebMeasurement (\<lambda>_. None) id (\<lambda>_. Inr ''example.com'') sample_measurement = Some (Inr c) \<and>
     DNSLookupFailures c = [] \<and> set (gmap_keys (KnownTCPEndpoints c)) = {2}"
proof -
  obtain c where c: "IngestWebMeasurement (\<lambda>_. None) id (\<lambda>_. Inr ''example.com'') sample_measurement = Some (Inr c)"
    using sample_ingested by auto
  from ingest_accounts_for_events [OF sample_keys(1) c] c show ?thesis
    by (auto simp: sample_testkeys_def sample_query_def sample_connect_def)
qed

text \<open>
  The control information of an endpoint is what the test helper reported for that endpoint:
  the TCP result for its address, the TLS result for its address when the server name agrees,
  nothing when the helper has no result, and always the helper's HTTP failure.
\<close>

theorem ingest_control_results:
  assumes "meas_TestKeys meas = Some tk" and "tk_XControlRequest tk = Some req" and "tk_Control tk = Some resp"
    and "IngestWebMeasurement lookupper uni urlHostname meas = Some (Inr c)"
    and "(txid, obs) \<in> set (KnownTCPEndpoints c)"
  shows "ControlTCPConnectFailure obs = control_tcp resp obs \<and>
    ControlTLSHandshakeFailure obs = control_tls resp obs \<and>
    ControlHTTPFailure obs = Some (utilsStringPointerToString (thhttp_Failure (th_HTTPRequest resp)))"
proof -
  let ?e = "ingest_events lookupper uni tk"
  have "endpoints_all (\<lambda>obs. ControlTCPConnectFailure obs = None \<and> ControlTLSHandshakeFailure obs = None) ?e"
    by (rule ingest_events_uncontrolled)
      (simp_all add: tcp_obs_def tls_update_def http_update_def WebObservation_zero_def Let_def)
  moreover have "IngestControlMessages urlHostname req resp ?e = Some (Inr c)"
    using assms(1-4) by (simp add: IngestWebMeasurement_events split: if_splits)
  ultimately show ?thesis
    using IngestControlMessages_records assms(5) by (fastforce simp: endpoints_all_def)
qed

theorem ingest_control_results_witness:
  "\<exists>c obs. IngestWebMeasurement (\<lambda>_. None) id (\<lambda>_. Inr ''example.com'') sample_measurement = Some (Inr c) \<and>
     (2, obs) \<in> set (KnownTCPEndpoints c) \<and> ControlTCPConnectFailure obs = control_tcp sample_response obs \<and>
     ControlHTTPFailure obs = Some ''''"
proof -
  obtain c where c: "IngestWebMeasurement (\<lambda>_. None) id (\<lambda>_. Inr ''example.com'') sample_measurement = Some (Inr c)"
    and keys: "set (gmap_keys (KnownTCPEndpoints c)) = {2}"
    using sample_ingested by auto
  have "2 \<in> fst ` set (KnownTCPEndpoints c)" using keys by simp
  then obtain obs where obs: "(2, obs) \<in> set (KnownTCPEndpoints c)" by fastforce
  have "utilsStringPointerToString (thhttp_Failure (th_HTTPRequest sample_response)) = ''''"
    by (simp add: sample_response_def utilsStringPointerToString_def)
  with ingest_control_results [OF sample_keys c obs] c obs show ?thesis by metis
qed

end
