(* ===== verification/Linear.thy ===== *)
theory Linear
  imports Observation GoSort
begin

text \<open>
  \<open>NewLinearWebAnalysis\<close> of \<open>internal/minipipeline/analysis.go\<close>: all the observations of a
  container in one list, sorted by a comparator of four levels. The comparator is an instance of
  \<open>keyed_less\<close>, so the sort is the stable sort by its key.
\<close>

definition linear_less :: "WebObservation \<Rightarrow> WebObservation \<Rightarrow> bool" where
  "linear_less left right =
     (if UnwrapOr (TagDepth left) (-1) > UnwrapOr (TagDepth right) (-1) then True
      else if UnwrapOr (TagDepth left) (-1) < UnwrapOr (TagDepth right) (-1) then False
      else if Type left > Type right then True
      else if Type left < Type right then False
      else let defaultFailureValue = ''unknown_failure'' in
        if UnwrapOr (Failure left) defaultFailureValue < UnwrapOr (Failure right) defaultFailureValue then True
        else if UnwrapOr (Failure left) defaultFailureValue > UnwrapOr (Failure right) defaultFailureValue then False
        else TransactionID left > TransactionID right)"

definition NewLinearWebAnalysis :: "WebObservationsContainer \<Rightarrow> WebObservation list" where
  "NewLinearWebAnalysis input =
     slice_stable linear_less
       (DNSLookupFailures input @ DNSLookupSuccesses input @ gmap_vals (KnownTCPEndpoints input))"

section \<open>The key of the comparator\<close>

definition linear_key :: "WebObservation \<Rightarrow> int \<times> int \<times> string \<times> int" where
  "linear_key obs =
     (- UnwrapOr (TagDepth obs) (-1), - obs_rank (Type obs),
      UnwrapOr (Failure obs) ''unknown_failure'', - TransactionID obs)"

interpretation linear: keyed_less linear_less linear_key
proof
  fix x y
  show "linear_less x y \<longleftrightarrow> linear_key x < linear_key y"
    by (auto simp: linear_less_def linear_key_def less_prod_def less_WebObservationType_def Let_def)
qed

lemma linear_key_endpoints:
  assumes "observations_wf c"
  shows "inj_on linear_key (set (gmap_vals (KnownTCPEndpoints c)))"
proof (rule inj_onI)
  fix x y
  assume "x \<in> set (gmap_vals (KnownTCPEndpoints c))" "y \<in> set (gmap_vals (KnownTCPEndpoints c))"
    and key: "linear_key x = linear_key y"
  then obtain i j where in_c: "(i, x) \<in> set (KnownTCPEndpoints c)" "(j, y) \<in> set (KnownTCPEndpoints c)"
    by auto
  then have "TransactionID x = i" "TransactionID y = j"
    using assms by (auto simp: observations_wf_def endpoint_wf_def)
  with key have "i = j" by (simp add: linear_key_def)
  with in_c assms show "x = y" by (auto simp: observations_wf_def eq_key_imp_eq_value)
qed

section \<open>Properties\<close>

text \<open>
  The linear analysis is a rearrangement of the observations of the container in which, walking
  from the left, the redirect depth never grows, with equal depth the type never grows, with equal
  type the failure strings ascend (so that successes, whose failure string is empty, come first),
  and with equal failures the transaction identifiers never grow.
\<close>

theorem linear_analysis_order:
  "mset (NewLinearWebAnalysis c) =
     mset (DNSLookupFailures c) + mset (DNSLookupSuccesses c) + mset (gmap_vals (KnownTCPEndpoints c)) \<and>
   sorted_wrt (\<lambda>l r.
     let dl = UnwrapOr (TagDepth l) (-1); dr = UnwrapOr (TagDepth r) (-1);
         fl = UnwrapOr (Failure l) ''unknown_failure''; fr = UnwrapOr (Failure r) ''unknown_failure'' in
     dl > dr \<or> dl = dr \<and> (Type l > Type r \<or> Type l = Type r \<and>
       (fl < fr \<or> fl = fr \<and> TransactionID l \<ge> TransactionID r))) (NewLinearWebAnalysis c)"
proof
  show "mset (NewLinearWebAnalysis c) =
     mset (DNSLookupFailures c) + mset (DNSLookupSuccesses c) + mset (gmap_vals (KnownTCPEndpoints c))"
    by (simp add: NewLinearWebAnalysis_def mset_slice_stable)
  have "sorted_wrt (\<lambda>l r. linear_key l \<le> linear_key r) (NewLinearWebAnalysis c)"
    using linear.sorted_slice_stable by (simp add: NewLinearWebAnalysis_def sorted_map)
  then show "sorted_wrt (\<lambda>l r.
     let dl = UnwrapOr (TagDepth l) (-1); dr = UnwrapOr (TagDepth r) (-1);
         fl = UnwrapOr (Failure l) ''unknown_failure''; fr = UnwrapOr (Failure r) ''unknown_failure'' in
     dl > dr \<or> dl = dr \<and> (Type l > Type r \<or> Type l = Type r \<and>
       (fl < fr \<or> fl = fr \<and> TransactionID l \<ge> TransactionID r))) (NewLinearWebAnalysis c)"
    by (rule sorted_wrt_mono_rel [rotated])
      (auto simp: linear_key_def less_eq_prod_def less_prod_def less_WebObservationType_def Let_def)
qed

text \<open>
  The linear analysis of an ingested measurement, filtered or not, does not depend on the order in which Go
  iterates over the map of the endpoints: two containers that differ only in that order give the
  same list.
\<close>

lemma linear_analysis_deterministic:
  assumes "observations_wf c" and "mset (KnownTCPEndpoints c') = mset (KnownTCPEndpoints c)"
    and "DNSLookupFailures c' = DNSLookupFailures c" and "DNSLookupSuccesses c' = DNSLookupSuccesses c"
  shows "NewLinearWebAnalysis c' = NewLinearWebAnalysis c"
proof -
  have "mset (gmap_vals (KnownTCPEndpoints c)) = mset (gmap_vals (KnownTCPEndpoints c'))"
    using assms(2) by simp
  from linear.slice_stable_perm_suffix [OF this linear_key_endpoints [OF assms(1)],
      of "DNSLookupFailures c @ DNSLookupSuccesses c"]
  show ?thesis using assms(3,4) by (simp add: NewLinearWebAnalysis_def)
qed

end
