(* ===== verification/Classic.thy ===== *)
theory Classic
  imports Linear
begin

text \<open>
  \<open>ClassicFilter\<close> of \<open>internal/minipipeline/classic.go\<close>, which keeps what Web Connectivity v0.4
  would have measured. The two loops that call \<open>Unwrap\<close> run in the option monad. In the output,
  \<open>knownIPAddresses\<close> points to the last lookup of an address, as the source assigns it on every
  iteration.
\<close>

definition classic_successes ::
  "WebObservation list \<Rightarrow> (WebObservation list \<times> (string, nat) gomap) option" where
  "classic_successes entries =
     for_each (\<lambda>entry (successes, known).
        if \<not> utilsEngineIsGetaddrinfo (DNSEngine entry) then Some (successes, known)
        else do { ipAddr \<leftarrow> Unwrap (IPAddress entry);
                  Some (successes @ [entry], AList.update ipAddr (length successes) known) })
       entries ([], [])"

definition classic_keep :: "(string, nat) gomap \<Rightarrow> string \<Rightarrow> WebObservation \<Rightarrow> bool" where
  "classic_keep known ipAddr entry =
     (let origin = UnwrapOr (IPAddressOrigin entry) '''' in
      if origin = IPAddressOriginTH then False
      else if origin = IPAddressOriginDNS \<and> gmap_get known ipAddr = None then False
      else UnwrapOr (TagFetchBody entry) False)"

definition classic_endpoints ::
  "(string, nat) gomap \<Rightarrow> (int, WebObservation) gomap \<Rightarrow> (int, WebObservation) gomap option" where
  "classic_endpoints known entries =
     for_each (\<lambda>(_, entry) out.
        do { ipAddr \<leftarrow> Unwrap (IPAddress entry);
             txid \<leftarrow> Unwrap (EndpointTransactionID entry);
             Some (if classic_keep known ipAddr entry then AList.update txid entry out else out) })
       entries []"

definition ClassicFilter :: "WebObservationsContainer \<Rightarrow> WebObservationsContainer option" where
  "ClassicFilter input =
     do { (successes, known) \<leftarrow> classic_successes (DNSLookupSuccesses input);
          endpoints \<leftarrow> classic_endpoints known (KnownTCPEndpoints input);
          Some \<lparr>
            DNSLookupFailures =
              filter (\<lambda>entry. utilsEngineIsGetaddrinfo (DNSEngine entry)) (DNSLookupFailures input),
            DNSLookupSuccesses = successes,
            KnownTCPEndpoints = endpoints,
            ControlExpectations = ControlExpectations input,
            knownIPAddresses = known\<rparr> }"

section \<open>The loops\<close>

abbreviation by_getaddrinfo :: "WebObservation \<Rightarrow> bool" where
  "by_getaddrinfo obs \<equiv> utilsEngineIsGetaddrinfo (DNSEngine obs)"

lemma classic_successes_run:
  assumes "list_all dns_success_wf entries"
  shows "\<exists>known. classic_successes entries = Some (filter by_getaddrinfo entries, known) \<and>
    (\<forall>ip. gmap_get known ip \<noteq> None \<longleftrightarrow> (\<exists>obs \<in> set entries. by_getaddrinfo obs \<and> IPAddress obs = Some ip))"
  using assms
proof (induction entries rule: rev_induct)
  case Nil
  then show ?case by (simp add: classic_successes_def)
next
  case (snoc obs entries)
  then obtain known where known: "classic_successes entries = Some (filter by_getaddrinfo entries, known)"
    "\<And>ip. gmap_get known ip \<noteq> None \<longleftrightarrow> (\<exists>obs \<in> set entries. by_getaddrinfo obs \<and> IPAddress obs = Some ip)"
    by auto
  obtain ip where "IPAddress obs = Some ip"
    using snoc.prems by (auto simp: dns_success_wf_def split: option.splits)
  with known show ?case
    by (auto simp: classic_successes_def for_each_append)
qed

lemma classic_endpoints_run:
  assumes "gmap_wf entries" and "\<forall>(txid, obs) \<in> set entries. endpoint_wf txid obs"
  shows "classic_endpoints known entries =
    Some (filter (\<lambda>(txid, obs). classic_keep known (the (IPAddress obs)) obs) entries)"
  using assms
proof (induction entries rule: rev_induct)
  case Nil
  then show ?case by (simp add: classic_endpoints_def)
next
  case (snoc e entries)
  obtain txid obs where e: "e = (txid, obs)" by (cases e)
  with snoc.prems have "EndpointTransactionID obs = Some txid" and "IPAddress obs \<noteq> None"
    using endpoint_wf_present(1) by (auto simp: endpoint_wf_def)
  moreover have "txid \<notin> fst ` set (filter (\<lambda>(txid, obs). classic_keep known (the (IPAddress obs)) obs) entries)"
    using snoc.prems e by auto
  then have "AList.update txid obs (filter (\<lambda>(txid, obs). classic_keep known (the (IPAddress obs)) obs) entries) =
      filter (\<lambda>(txid, obs). classic_keep known (the (IPAddress obs)) obs) entries @ [(txid, obs)]"
    by (rule gmap_update_new)
  ultimately show ?case
    using snoc e by (auto simp: classic_endpoints_def for_each_append)
qed

text \<open>The endpoints that the filter keeps.\<close>

definition classic_kept :: "WebObservationsContainer \<Rightarrow> WebObservation \<Rightarrow> bool" where
  "classic_kept c obs \<longleftrightarrow> TagFetchBody obs = Some True \<and> IPAddressOrigin obs \<noteq> Some IPAddressOriginTH \<and>
      (IPAddressOrigin obs = Some IPAddressOriginDNS \<longrightarrow>
        (\<exists>l \<in> set (DNSLookupSuccesses c). by_getaddrinfo l \<and> IPAddress l = IPAddress obs))"

lemma classic_filter_run:
  assumes "observations_wf c"
  shows "\<exists>c'. ClassicFilter c = Some c' \<and> observations_wf c' \<and>
    DNSLookupFailures c' = filter by_getaddrinfo (DNSLookupFailures c) \<and>
    DNSLookupSuccesses c' = filter by_getaddrinfo (DNSLookupSuccesses c) \<and>
    ControlExpectations c' = ControlExpectations c \<and>
    KnownTCPEndpoints c' = filter (\<lambda>(txid, obs). classic_kept c obs) (KnownTCPEndpoints c)"
proof -
  let ?keep = "\<lambda>(txid, obs). classic_kept c obs"
  obtain known where known: "classic_successes (DNSLookupSuccesses c) =
      Some (filter by_getaddrinfo (DNSLookupSuccesses c), known)"
    "\<And>ip. gmap_get known ip \<noteq> None \<longleftrightarrow>
       (\<exists>obs \<in> set (DNSLookupSuccesses c). by_getaddrinfo obs \<and> IPAddress obs = Some ip)"
    using classic_successes_run [of "DNSLookupSuccesses c"] assms by (auto simp: observations_wf_def)
  have eq: "classic_keep known (the (IPAddress obs)) obs = ?keep (txid, obs)"
    if obs: "(txid, obs) \<in> set (KnownTCPEndpoints c)" for txid obs
  proof -
    obtain ip where "IPAddress obs = Some ip"
      using obs assms endpoint_wf_present(1) by (fastforce simp: observations_wf_def)
    then show ?thesis
      using known(2) [of ip]
      by (cases "IPAddressOrigin obs"; cases "TagFetchBody obs")
        (auto simp: classic_keep_def classic_kept_def Let_def IPAddressOriginTH_def IPAddressOriginDNS_def)
  qed
  have "classic_endpoints known (KnownTCPEndpoints c) =
      Some (filter (\<lambda>(txid, obs). classic_keep known (the (IPAddress obs)) obs) (KnownTCPEndpoints c))"
    using assms by (intro classic_endpoints_run) (auto simp: observations_wf_def)
  also have "filter (\<lambda>(txid, obs). classic_keep known (the (IPAddress obs)) obs) (KnownTCPEndpoints c) =
      filter ?keep (KnownTCPEndpoints c)"
    by (rule filter_cong) (use eq in auto)
  finally have "classic_endpoints known (KnownTCPEndpoints c) = Some (filter ?keep (KnownTCPEndpoints c))" .
  moreover have "gmap_wf (filter ?keep (KnownTCPEndpoints c))"
    using assms by (simp add: observations_wf_def distinct_map_filter)
  ultimately show ?thesis
    using known(1) assms by (auto simp: ClassicFilter_def observations_wf_def list_all_iff)
qed

section \<open>Properties\<close>

text \<open>
  The classic filter of well-formed observations does not panic. It keeps the DNS lookups made
  with getaddrinfo, in their order, and an endpoint exactly when it was fetching the body and its
  address neither comes from the test helper nor only from other resolvers; the result is again
  well formed.
\<close>

theorem classic_filter_keeps:
  assumes "observations_wf c"
  shows "\<exists>c'. ClassicFilter c = Some c' \<and> observations_wf c' \<and>
    DNSLookupFailures c' = filter by_getaddrinfo (DNSLookupFailures c) \<and>
    DNSLookupSuccesses c' = filter by_getaddrinfo (DNSLookupSuccesses c) \<and>
    ControlExpectations c' = ControlExpectations c \<and>
    KnownTCPEndpoints c' = filter (\<lambda>(txid, obs).
      TagFetchBody obs = Some True \<and> IPAddressOrigin obs \<noteq> Some IPAddressOriginTH \<and>
      (IPAddressOrigin obs = Some IPAddressOriginDNS \<longrightarrow>
        (\<exists>l \<in> set (DNSLookupSuccesses c). by_getaddrinfo l \<and> IPAddress l = IPAddress obs)))
      (KnownTCPEndpoints c)"
  using classic_filter_run [OF assms] unfolding classic_kept_def .

theorem classic_filter_keeps_witness:
  "\<exists>c c'. IngestWebMeasurement (\<lambda>_. None) id (\<lambda>_. Inr ''example.com'') sample_measurement = Some (Inr c) \<and>
     ClassicFilter c = Some c' \<and> DNSLookupSuccesses c' = filter by_getaddrinfo (DNSLookupSuccesses c)"
proof -
  obtain c where c: "IngestWebMeasurement (\<lambda>_. None) id (\<lambda>_. Inr ''example.com'') sample_measurement = Some (Inr c)"
    using sample_ingested by auto
  then have "observations_wf c" by (intro container_wf_observations ingested_wf)
  from classic_filter_keeps [OF this] c show ?thesis by blast
qed

end
