(* ===== verification/Diff.thy ===== *)
theory Diff
  imports WebObservation GoFloat
begin

text \<open>
  The comparisons between the measurement and the control: \<open>internal/minipipeline/dnsdiff.go\<close> and
  \<open>internal/minipipeline/httpdiff.go\<close>. Four of them fill a map from keys to bit flags (bit 0: seen
  by the probe, bit 1: seen by the test helper) and then walk the map; \<open>mark\<close> is the marking loop
  and the lemmas characterise the walks as set intersections and differences.
\<close>

unbundle bit_operations_syntax

section \<open>Marking\<close>

text \<open>\<open>m[key] |= flag\<close>; the value of a missing key is zero.\<close>

definition or_assign :: "'k \<Rightarrow> int \<Rightarrow> ('k, int) gomap \<Rightarrow> ('k, int) gomap" where
  "or_assign key flag m =
     AList.update key ((case gmap_get m key of None \<Rightarrow> 0 | Some v \<Rightarrow> v) OR flag) m"

definition mark :: "int \<Rightarrow> 'k list \<Rightarrow> ('k, int) gomap \<Rightarrow> ('k, int) gomap" where
  "mark flag ks m = fold (\<lambda>key. or_assign key flag) ks m"

definition seen_in_both :: "int \<Rightarrow> bool" where
  "seen_in_both v \<longleftrightarrow> v AND 3 = 3"

lemma mark_wf: "gmap_wf m \<Longrightarrow> gmap_wf (mark flag ks m)"
  unfolding mark_def by (induction ks arbitrary: m) (simp_all add: or_assign_def)

lemma mark_get:
  "gmap_get (mark flag ks m) k =
     (if k \<in> set ks then Some ((case gmap_get m k of None \<Rightarrow> 0 | Some v \<Rightarrow> v) OR flag) else gmap_get m k)"
  unfolding mark_def
  by (induction ks arbitrary: m) (auto simp: or_assign_def or.assoc)

definition marks :: "'k list \<Rightarrow> 'k list \<Rightarrow> ('k, int) gomap" where
  "marks xs ys = mark 2 ys (mark 1 xs [])"

lemma marks_wf: "gmap_wf (marks xs ys)"
  by (simp add: marks_def mark_wf)

lemma marks_get:
  "gmap_get (marks xs ys) k =
     (if k \<in> set xs \<and> k \<in> set ys then Some 3 else if k \<in> set xs then Some 1
      else if k \<in> set ys then Some 2 else None)"
  by (simp add: marks_def mark_get)

lemma marks_elem:
  "(k, v) \<in> set (marks xs ys) \<longleftrightarrow>
     (if k \<in> set xs \<and> k \<in> set ys then v = 3 else if k \<in> set xs then v = 1
      else if k \<in> set ys then v = 2 else False)"
  using marks_get [of xs ys k] marks_wf [of xs ys]
  by (metis map_of_eq_Some_iff not_None_eq option.inject)

lemma seen_in_both_values [simp]: "seen_in_both 3" "\<not> seen_in_both 1" "\<not> seen_in_both 2"
  by (simp_all add: seen_in_both_def)

section \<open>DNS\<close>

definition DNSDiffFindCommonIPAddressIntersection :: "string set \<Rightarrow> string set \<Rightarrow> string set" where
  "DNSDiffFindCommonIPAddressIntersection measurement control =
     (let ipmap = mark 1 (set_Keys measurement) [];
          ipmap = mark 2 (set_Keys control) ipmap in
      fold (\<lambda>(key, v) state. if key \<noteq> '''' \<and> seen_in_both v then set_Add state [key] else state)
        ipmap (NewSet []))"

text \<open>The loop that marks the AS numbers of a set of addresses.\<close>

definition mark_asns :: "GeoIPASNLookupper \<Rightarrow> int \<Rightarrow> string list \<Rightarrow> (int, int) gomap \<Rightarrow> (int, int) gomap" where
  "mark_asns lookupper flag ips m =
     fold (\<lambda>ipAddr m. case lookupper ipAddr of
             None \<Rightarrow> m
           | Some (asn, _) \<Rightarrow> if asn > 0 then or_assign (wrap64 (int asn)) flag m else m) ips m"

definition DNSDiffFindCommonASNsIntersection :: "GeoIPASNLookupper \<Rightarrow> string set \<Rightarrow> string set \<Rightarrow> int set" where
  "DNSDiffFindCommonASNsIntersection lookupper measurement control =
     (let asnmap = mark_asns lookupper 1 (set_Keys measurement) [];
          asnmap = mark_asns lookupper 2 (set_Keys control) asnmap in
      fold (\<lambda>(key, v) state. if key \<noteq> 0 \<and> seen_in_both v then set_Add state [key] else state)
        asnmap (NewSet []))"

section \<open>HTTP\<close>

definition ComputeHTTPDiffBodyProportionFactor :: "int \<Rightarrow> int \<Rightarrow> rat" where
  "ComputeHTTPDiffBodyProportionFactor measurement control =
     (if measurement \<ge> control then f64_quot control measurement else f64_quot measurement control)"

definition ComputeHTTPDiffStatusCodeMatch :: "int \<Rightarrow> int \<Rightarrow> bool option" where
  "ComputeHTTPDiffStatusCodeMatch measurement control =
     (let good = (control = measurement) in
      if \<not> good \<and> go_div control 100 \<noteq> 2 then None else Some good)"

definition httpDiffCommonHeaders :: "string list" where
  "httpDiffCommonHeaders = [
     ''date'', ''content-type'', ''server'', ''cache-control'', ''vary'', ''set-cookie'', ''location'',
     ''expires'', ''x-powered-by'', ''content-encoding'', ''last-modified'', ''accept-ranges'',
     ''pragma'', ''x-frame-options'', ''etag'', ''x-content-type-options'', ''age'', ''via'', ''p3p'',
     ''x-xss-protection'', ''content-language'', ''cf-ray'', ''strict-transport-security'', ''link'',
     ''x-varnish'']"

text \<open>The keys that a loop over a header map marks.\<close>

definition uncommon_keys :: "(string \<Rightarrow> string) \<Rightarrow> (string, bool) gomap \<Rightarrow> string list" where
  "uncommon_keys uni headers =
     filter (\<lambda>key. key \<notin> set httpDiffCommonHeaders) (map (\<lambda>(key, _). to_lower uni key) headers)"

definition ComputeHTTPDiffUncommonHeadersIntersection ::
  "(string \<Rightarrow> string) \<Rightarrow> (string, bool) gomap \<Rightarrow> (string, bool) gomap \<Rightarrow> (string, bool) gomap" where
  "ComputeHTTPDiffUncommonHeadersIntersection uni measurement control =
     (let matching = mark 1 (uncommon_keys uni measurement) [];
          matching = mark 2 (uncommon_keys uni control) matching in
      fold (\<lambda>(key, v) state. if seen_in_both v then AList.update key True state else state) matching [])"

text \<open>The words of at least five bytes, in lower case.\<close>

definition long_words :: "(string \<Rightarrow> string) \<Rightarrow> string \<Rightarrow> string list" where
  "long_words uni title =
     map (to_lower uni) (filter (\<lambda>word. length word \<ge> 5) (split_byte (CHR '' '') title))"

definition ComputeHTTPDiffTitleDifferentLongWords ::
  "(string \<Rightarrow> string) \<Rightarrow> string \<Rightarrow> string \<Rightarrow> (string, bool) gomap" where
  "ComputeHTTPDiffTitleDifferentLongWords uni measurement control =
     (let words = mark 1 (long_words uni measurement) [];
          words = mark 2 (long_words uni control) words in
      fold (\<lambda>(word, score) state. if \<not> seen_in_both score then AList.update word True state else state)
        words [])"

section \<open>The walks\<close>

lemma fold_add_if:
  "fold (\<lambda>(k, v) S. if P k v then set_Add S [k] else S) m S = S \<union> {k. \<exists>v. (k, v) \<in> set m \<and> P k v}"
  by (induction m arbitrary: S) (auto split: if_splits)

lemma fold_update_if:
  "fst ` set (fold (\<lambda>(k, v) S. if P v then AList.update k True S else S) m S) =
     fst ` set S \<union> {k. \<exists>v. (k, v) \<in> set m \<and> P v}"
proof (induction m arbitrary: S)
  case (Cons kv m)
  obtain k v where "kv = (k, v)" by (cases kv)
  then show ?case
    using Cons.IH [of "AList.update k True S"] Cons.IH [of S] by (cases "P v") auto
qed simp

lemma fold_update_if_wf:
  "gmap_wf S \<Longrightarrow> gmap_wf (fold (\<lambda>(k, v) S. if P v then AList.update k True S else S) m S)"
  by (induction m arbitrary: S) auto

definition asns :: "GeoIPASNLookupper \<Rightarrow> string list \<Rightarrow> int list" where
  "asns lookupper ips = List.map_filter (utilsGeoipxLookupASN lookupper) ips"

lemma mark_asns_eq: "mark_asns lookupper flag ips m = mark flag (asns lookupper ips) m"
  unfolding mark_asns_def mark_def asns_def
  by (induction ips arbitrary: m) (auto simp: utilsGeoipxLookupASN_def map_filter_simps split: option.splits)

lemma set_asns: "set (asns lookupper ips) = {a. \<exists>ip \<in> set ips. utilsGeoipxLookupASN lookupper ip = Some a}"
  by (induction ips) (auto simp: asns_def map_filter_simps split: option.splits)

lemma uncommon_intersection_keys:
  "set (gmap_keys (ComputeHTTPDiffUncommonHeadersIntersection uni measurement control)) =
     set (uncommon_keys uni measurement) \<inter> set (uncommon_keys uni control)"
proof -
  let ?m = "marks (uncommon_keys uni measurement) (uncommon_keys uni control)"
  have "{k. \<exists>v. (k, v) \<in> set ?m \<and> seen_in_both v} =
      set (uncommon_keys uni measurement) \<inter> set (uncommon_keys uni control)"
    by (auto simp: marks_elem split: if_splits)
  then show ?thesis
    using fold_update_if [of seen_in_both ?m "[]"]
    by (simp add: ComputeHTTPDiffUncommonHeadersIntersection_def Let_def marks_def)
qed

lemma different_long_words_keys:
  "set (gmap_keys (ComputeHTTPDiffTitleDifferentLongWords uni measurement control)) =
     (set (long_words uni measurement) - set (long_words uni control)) \<union>
     (set (long_words uni control) - set (long_words uni measurement))"
proof -
  let ?m = "marks (long_words uni measurement) (long_words uni control)"
  have "{k. \<exists>v. (k, v) \<in> set ?m \<and> \<not> seen_in_both v} =
      (set (long_words uni measurement) - set (long_words uni control)) \<union>
      (set (long_words uni control) - set (long_words uni measurement))"
    by (auto simp: marks_elem split: if_splits)
  then show ?thesis
    using fold_update_if [of "\<lambda>v. \<not> seen_in_both v" ?m "[]"]
    by (simp add: ComputeHTTPDiffTitleDifferentLongWords_def Let_def marks_def)
qed

lemma common_addresses:
  "DNSDiffFindCommonIPAddressIntersection measurement control = measurement \<inter> control - {''''}"
  if "finite measurement" "finite control"
proof -
  let ?m = "marks (set_Keys measurement) (set_Keys control)"
  have "DNSDiffFindCommonIPAddressIntersection measurement control =
      {k. \<exists>v. (k, v) \<in> set ?m \<and> k \<noteq> '''' \<and> seen_in_both v}"
    using fold_add_if [of "\<lambda>k v. k \<noteq> '''' \<and> seen_in_both v" ?m "{}"]
    by (simp add: DNSDiffFindCommonIPAddressIntersection_def Let_def marks_def)
  also have "\<dots> = measurement \<inter> control - {''''}"
    using that by (auto simp: marks_elem set_Keys_def split: if_splits)
  finally show ?thesis .
qed

text \<open>The AS numbers of a set of addresses.\<close>

definition asn_set :: "GeoIPASNLookupper \<Rightarrow> string set \<Rightarrow> int set" where
  "asn_set lookupper ips = {a. \<exists>ip \<in> ips. utilsGeoipxLookupASN lookupper ip = Some a}"

lemma common_asns:
  assumes "finite measurement" "finite control"
  shows "DNSDiffFindCommonASNsIntersection lookupper measurement control =
    asn_set lookupper measurement \<inter> asn_set lookupper control - {0}"
proof -
  let ?m = "marks (asns lookupper (set_Keys measurement)) (asns lookupper (set_Keys control))"
  have "DNSDiffFindCommonASNsIntersection lookupper measurement control =
      {k. \<exists>v. (k, v) \<in> set ?m \<and> k \<noteq> 0 \<and> seen_in_both v}"
    using fold_add_if [of "\<lambda>k v. k \<noteq> 0 \<and> seen_in_both v" ?m "{}"]
    by (simp add: DNSDiffFindCommonASNsIntersection_def Let_def marks_def mark_asns_eq)
  also have "\<dots> = asn_set lookupper measurement \<inter> asn_set lookupper control - {0}"
    using assms by (auto simp: marks_elem set_Keys_def set_asns asn_set_def split: if_splits)
  finally show ?thesis .
qed

section \<open>Properties\<close>

text \<open>
  The DNS comparison computes the addresses that both sides resolved and the AS numbers that
  both sides reached, whatever the order in which Go iterates over its maps: an address is common
  exactly when it is in both sets and is not the empty string, an AS number exactly when the lookup
  gives it for an address of each side.
\<close>

lemma dns_diff_intersections:
  assumes "finite measurement" and "finite control"
  shows "(ip \<in> DNSDiffFindCommonIPAddressIntersection measurement control \<longleftrightarrow>
      ip \<in> measurement \<and> ip \<in> control \<and> ip \<noteq> '''') \<and>
    (asn \<in> DNSDiffFindCommonASNsIntersection lookupper measurement control \<longleftrightarrow> asn \<noteq> 0 \<and>
      (\<exists>ip1 \<in> measurement. utilsGeoipxLookupASN lookupper ip1 = Some asn) \<and>
      (\<exists>ip2 \<in> control. utilsGeoipxLookupASN lookupper ip2 = Some asn))"
  using assms by (auto simp: common_addresses common_asns asn_set_def)

text \<open>
  The body proportion factor of two positive lengths is a number in the half-open interval
  from 0 to 1, does not depend on which side is the control, is 1 for equal lengths, and never
  grows when the longer body gets longer. The floating point roundings are accounted for.
\<close>

theorem body_proportion_factor:
  assumes "0 < m" and "0 < c"
  shows "0 < ComputeHTTPDiffBodyProportionFactor m c \<and> ComputeHTTPDiffBodyProportionFactor m c \<le> 1 \<and>
    ComputeHTTPDiffBodyProportionFactor m c = ComputeHTTPDiffBodyProportionFactor c m \<and>
    ComputeHTTPDiffBodyProportionFactor m m = 1 \<and>
    (c \<le> m \<and> m \<le> m' \<longrightarrow>
      ComputeHTTPDiffBodyProportionFactor m' c \<le> ComputeHTTPDiffBodyProportionFactor m c)"
  using assms f64_quot_le_1 [of m c] f64_quot_le_1 [of c m] f64_quot_le_1 [of c m']
  by (auto simp: ComputeHTTPDiffBodyProportionFactor_def f64_quot_positive f64_quot_self intro: f64_quot_mono)

theorem body_proportion_factor_witness:
  "0 < ComputeHTTPDiffBodyProportionFactor 1000 700 \<and> ComputeHTTPDiffBodyProportionFactor 1000 700 \<le> 1"
  using body_proportion_factor [of 1000 700 1000] by linarith

text \<open>
  The status codes match exactly when they are equal; a mismatch is reported only against a
  control that got a 2xx response, and any other mismatch is left undecided.
\<close>

lemma status_code_match:
  "(ComputeHTTPDiffStatusCodeMatch m c = Some True \<longleftrightarrow> m = c) \<and>
   (ComputeHTTPDiffStatusCodeMatch m c = Some False \<longleftrightarrow> m \<noteq> c \<and> 200 \<le> c \<and> c < 300) \<and>
   (ComputeHTTPDiffStatusCodeMatch m c = None \<longleftrightarrow> m \<noteq> c \<and> \<not> (200 \<le> c \<and> c < 300))"
proof -
  have "go_div c 100 = 2 \<longleftrightarrow> 200 \<le> c \<and> c < 300"
  proof (cases "c < 0")
    case True
    then have "go_div c 100 \<le> 0"
      by (simp add: go_div_def sgn_if pos_imp_zdiv_nonneg_iff)
    with True show ?thesis by auto
  next
    case False
    then show ?thesis by (auto simp: go_div_nonneg)
  qed
  then show ?thesis by (auto simp: ComputeHTTPDiffStatusCodeMatch_def Let_def)
qed

text \<open>
  The uncommon headers intersection holds exactly the lower-cased header names that both sides
  sent and that are not in the table of common headers; the title difference holds exactly the
  lower-cased words of five bytes or more that one title has and the other has not.
\<close>

theorem http_diff_sets:
  "(k \<in> set (gmap_keys (ComputeHTTPDiffUncommonHeadersIntersection uni hm hc)) \<longleftrightarrow>
     k \<notin> set httpDiffCommonHeaders \<and>
     k \<in> to_lower uni ` set (gmap_keys hm) \<and> k \<in> to_lower uni ` set (gmap_keys hc)) \<and>
   (w \<in> set (gmap_keys (ComputeHTTPDiffTitleDifferentLongWords uni tm tc)) \<longleftrightarrow>
     (w \<in> set (long_words uni tm)) \<noteq> (w \<in> set (long_words uni tc)))"
  unfolding uncommon_intersection_keys different_long_words_keys
  by (auto simp: uncommon_keys_def case_prod_beta image_image)

end
