(* ===== verification/Analysis.thy ===== *)
theory Analysis
  imports Classic Diff
begin

text \<open>
  The analysis of \<open>internal/minipipeline/analysis.go\<close>: the metrics that \<open>WebAnalysis\<close> collects from
  a container. Each method of the source is a function on the record; the loops that may panic run
  in the option monad (\<open>Unwrap\<close> of an empty value, or the assertion in \<open>httpHandleFinalResponse\<close>).
  The lemmas give each set of transactions as a set comprehension over the observations, which
  shows that the order of iteration over the endpoints does not matter.
\<close>

record WebAnalysis =
  wa_ControlExpectations :: "WebObservationsControlExpectations option"
  DNSLookupSuccess :: "int set"
  DNSLookupSuccessWithInvalidAddresses :: "int set"
  DNSLookupSuccessWithValidAddress :: "int set"
  DNSLookupSuccessWithBogonAddresses :: "int set"
  DNSLookupSuccessWithInvalidAddressesClassic :: "int set"
  DNSLookupSuccessWithValidAddressClassic :: "int set"
  DNSLookupUnexpectedFailure :: "int set"
  DNSLookupUnexplainedFailure :: "int set"
  DNSExperimentFailure :: "string option"
  DNSLookupExpectedFailure :: "int set"
  DNSLookupExpectedSuccess :: "int set"
  TCPConnectExpectedFailure :: "int set"
  TCPConnectUnexpectedFailure :: "int set"
  TCPConnectUnexpectedFailureDuringWebFetch :: "int set"
  TCPConnectUnexpectedFailureDuringConnectivityCheck :: "int set"
  TCPConnectUnexplainedFailure :: "int set"
  TCPConnectUnexplainedFailureDuringWebFetch :: "int set"
  TCPConnectUnexplainedFailureDuringConnectivityCheck :: "int set"
  TLSHandshakeExpectedFailure :: "int set"
  TLSHandshakeUnexpectedFailure :: "int set"
  TLSHandshakeUnexpectedFailureDuringWebFetch :: "int set"
  TLSHandshakeUnexpectedFailureDuringConnectivityCheck :: "int set"
  TLSHandshakeUnexplainedFailure :: "int set"
  TLSHandshakeUnexplainedFailureDuringWebFetch :: "int set"
  TLSHandshakeUnexplainedFailureDuringConnectivityCheck :: "int set"
  HTTPRoundTripUnexpectedFailure :: "int set"
  HTTPRoundTripUnexplainedFailure :: "int set"
  HTTPFinalResponseSuccessTLSWithoutControl :: "int option"
  HTTPFinalResponseSuccessTLSWithControl :: "int option"
  HTTPFinalResponseSuccessTCPWithoutControl :: "int option"
  HTTPFinalResponseSuccessTCPWithControl :: "int option"
  HTTPFinalResponseDiffBodyProportionFactor :: "rat option"
  HTTPFinalResponseDiffStatusCodeMatch :: "bool option"
  HTTPFinalResponseDiffTitleDifferentLongWords :: "(string, bool) gomap option"
  HTTPFinalResponseDiffUncommonHeadersIntersection :: "(string, bool) gomap option"
  wa_Linear :: "WebObservation list"

definition WebAnalysis_zero :: WebAnalysis where
  "WebAnalysis_zero = \<lparr>
     wa_ControlExpectations = None, DNSLookupSuccess = {}, DNSLookupSuccessWithInvalidAddresses = {},
     DNSLookupSuccessWithValidAddress = {}, DNSLookupSuccessWithBogonAddresses = {},
     DNSLookupSuccessWithInvalidAddressesClassic = {}, DNSLookupSuccessWithValidAddressClassic = {},
     DNSLookupUnexpectedFailure = {}, DNSLookupUnexplainedFailure = {}, DNSExperimentFailure = None,
     DNSLookupExpectedFailure = {}, DNSLookupExpectedSuccess = {}, TCPConnectExpectedFailure = {},
     TCPConnectUnexpectedFailure = {}, TCPConnectUnexpectedFailureDuringWebFetch = {},
     TCPConnectUnexpectedFailureDuringConnectivityCheck = {}, TCPConnectUnexplainedFailure = {},
     TCPConnectUnexplainedFailureDuringWebFetch = {},
     TCPConnectUnexplainedFailureDuringConnectivityCheck = {}, TLSHandshakeExpectedFailure = {},
     TLSHandshakeUnexpectedFailure = {}, TLSHandshakeUnexpectedFailureDuringWebFetch = {},
     TLSHandshakeUnexpectedFailureDuringConnectivityCheck = {}, TLSHandshakeUnexplainedFailure = {},
     TLSHandshakeUnexplainedFailureDuringWebFetch = {},
     TLSHandshakeUnexplainedFailureDuringConnectivityCheck = {},
     HTTPRoundTripUnexpectedFailure = {}, HTTPRoundTripUnexplainedFailure = {},
     HTTPFinalResponseSuccessTLSWithoutControl = None, HTTPFinalResponseSuccessTLSWithControl = None,
     HTTPFinalResponseSuccessTCPWithoutControl = None, HTTPFinalResponseSuccessTCPWithControl = None,
     HTTPFinalResponseDiffBodyProportionFactor = None, HTTPFinalResponseDiffStatusCodeMatch = None,
     HTTPFinalResponseDiffTitleDifferentLongWords = None,
     HTTPFinalResponseDiffUncommonHeadersIntersection = None, wa_Linear = []\<rparr>"

section \<open>DNS metrics\<close>

text \<open>\<open>obs.TagDepth.IsNone() || obs.TagDepth.Unwrap() != 0\<close>\<close>

definition past_depth_zero :: "WebObservation \<Rightarrow> bool" where
  "past_depth_zero obs = (case TagDepth obs of None \<Rightarrow> True | Some d \<Rightarrow> d \<noteq> 0)"

text \<open>\<open>!v.IsNone() && v.Unwrap()\<close>\<close>

definition some_true :: "bool option \<Rightarrow> bool" where
  "some_true v = (case v of None \<Rightarrow> False | Some b \<Rightarrow> b)"

definition dns_success_step ::
  "GeoIPASNLookupper \<Rightarrow> WebObservation \<Rightarrow> int set \<times> WebAnalysis \<Rightarrow> (int set \<times> WebAnalysis) option" where
  "dns_success_step lookupper obs = (\<lambda>(already, wa).
     do { txid \<leftarrow> Unwrap (DNSTransactionID obs);
          if set_Contains already txid then Some (already, wa)
          else do {
            let already = set_Add already [txid];
            if past_depth_zero obs then Some (already, wa)
            else do {
              let wa = wa\<lparr>DNSLookupSuccess := set_Add (DNSLookupSuccess wa) [txid]\<rparr>;
              let wa = (if some_true (IPAddressBogon obs)
                        then wa\<lparr>DNSLookupSuccessWithBogonAddresses :=
                                set_Add (DNSLookupSuccessWithBogonAddresses wa) [txid]\<rparr> else wa);
              if IsNone (ControlDNSResolvedAddrs obs) then Some (already, wa)
              else do {
                measurement \<leftarrow> Unwrap (DNSResolvedAddrs obs);
                control \<leftarrow> Unwrap (ControlDNSResolvedAddrs obs);
                Some (already,
                  if set_Len (DNSDiffFindCommonIPAddressIntersection measurement control) > 0
                  then wa\<lparr>DNSLookupSuccessWithValidAddress := set_Add (DNSLookupSuccessWithValidAddress wa) [txid]\<rparr>
                  else if set_Len (DNSDiffFindCommonASNsIntersection lookupper measurement control) > 0
                  then wa\<lparr>DNSLookupSuccessWithValidAddress := set_Add (DNSLookupSuccessWithValidAddress wa) [txid]\<rparr>
                  else wa\<lparr>DNSLookupSuccessWithInvalidAddresses :=
                            set_Add (DNSLookupSuccessWithInvalidAddresses wa) [txid]\<rparr>) } } } })"

definition dns_undo_step :: "WebObservation \<Rightarrow> WebAnalysis \<Rightarrow> WebAnalysis" where
  "dns_undo_step obs wa =
     (if (case TLSHandshakeFailure obs of None \<Rightarrow> True | Some f \<Rightarrow> f \<noteq> '''') then wa
      else let txid = UnwrapOr (DNSTransactionID obs) 0 in
           if txid \<le> 0 then wa
           else wa\<lparr>DNSLookupSuccessWithInvalidAddresses :=
                     set_Remove (DNSLookupSuccessWithInvalidAddresses wa) [txid],
                   DNSLookupSuccessWithValidAddress :=
                     set_Add (DNSLookupSuccessWithValidAddress wa) [txid]\<rparr>)"

definition dnsComputeSuccessMetrics ::
  "GeoIPASNLookupper \<Rightarrow> WebObservationsContainer \<Rightarrow> WebAnalysis \<Rightarrow> WebAnalysis option" where
  "dnsComputeSuccessMetrics lookupper c wa =
     do { (_, wa) \<leftarrow> for_each (dns_success_step lookupper) (DNSLookupSuccesses c) (NewSet [], wa);
          Some (fold (\<lambda>(_, obs). dns_undo_step obs) (KnownTCPEndpoints c) wa) }"

definition dns_classic_step ::
  "GeoIPASNLookupper \<Rightarrow> WebObservation \<Rightarrow> int set \<times> WebAnalysis \<Rightarrow> (int set \<times> WebAnalysis) option" where
  "dns_classic_step lookupper obs = (\<lambda>(already, wa).
     do { txid \<leftarrow> Unwrap (DNSTransactionID obs);
          if set_Contains already txid then Some (already, wa)
          else do {
            let already = set_Add already [txid];
            if past_depth_zero obs then Some (already, wa)
            else if IsNone (ControlDNSResolvedAddrs obs) then Some (already, wa)
            else do {
              measurement \<leftarrow> Unwrap (DNSResolvedAddrs obs);
              control \<leftarrow> Unwrap (ControlDNSResolvedAddrs obs);
              Some (already,
                if set_Len (DNSDiffFindCommonIPAddressIntersection measurement control) > 0
                then wa\<lparr>DNSLookupSuccessWithValidAddressClassic :=
                          set_Add (DNSLookupSuccessWithValidAddressClassic wa) [txid]\<rparr>
                else if set_Len (DNSDiffFindCommonASNsIntersection lookupper measurement control) > 0
                then wa\<lparr>DNSLookupSuccessWithValidAddressClassic :=
                          set_Add (DNSLookupSuccessWithValidAddressClassic wa) [txid]\<rparr>
                else wa\<lparr>DNSLookupSuccessWithInvalidAddressesClassic :=
                          set_Add (DNSLookupSuccessWithInvalidAddressesClassic wa) [txid]\<rparr>) } } })"

definition dnsComputeSuccessMetricsClassic ::
  "GeoIPASNLookupper \<Rightarrow> WebObservationsContainer \<Rightarrow> WebAnalysis \<Rightarrow> WebAnalysis option" where
  "dnsComputeSuccessMetricsClassic lookupper c wa =
     map_option snd (for_each (dns_classic_step lookupper) (DNSLookupSuccesses c) (NewSet [], wa))"

definition dns_failure_step ::
  "WebObservation \<Rightarrow> int set \<times> WebAnalysis \<Rightarrow> (int set \<times> WebAnalysis) option" where
  "dns_failure_step obs = (\<lambda>(already, wa).
     do { txid \<leftarrow> Unwrap (DNSTransactionID obs);
          if set_Contains already txid then Some (already, wa)
          else do {
            let already = set_Add already [txid];
            if utilsDNSEngineIsDNSOverHTTPS obs then Some (already, wa)
            else if utilsDNSLookupFailureIsDNSNoAnswerForAAAA obs then Some (already, wa)
            else do {
              failure \<leftarrow> Unwrap (DNSLookupFailure obs);
              if past_depth_zero obs then
                Some (already, if failure \<noteq> ''''
                  then wa\<lparr>DNSLookupUnexplainedFailure := set_Add (DNSLookupUnexplainedFailure wa) [txid]\<rparr> else wa)
              else do {
                let wa = (if failure \<noteq> '''' \<and> IsNone (DNSExperimentFailure wa)
                          then wa\<lparr>DNSExperimentFailure := DNSLookupFailure obs\<rparr> else wa);
                if IsNone (ControlDNSLookupFailure obs) then Some (already, wa)
                else do {
                  control \<leftarrow> Unwrap (ControlDNSLookupFailure obs);
                  Some (already,
                    if failure \<noteq> '''' \<and> control \<noteq> ''''
                    then wa\<lparr>DNSLookupExpectedFailure := set_Add (DNSLookupExpectedFailure wa) [txid]\<rparr>
                    else if control \<noteq> '''' then wa
                    else if failure \<noteq> '''' then
                      (if failure = FailureDNSNoAnswer \<and>
                          (case ControlDNSResolvedAddrs obs of None \<Rightarrow> False | Some addrs \<Rightarrow> set_Len addrs \<le> 0)
                       then wa\<lparr>DNSLookupExpectedFailure := set_Add (DNSLookupExpectedFailure wa) [txid]\<rparr>
                       else wa\<lparr>DNSLookupUnexpectedFailure := set_Add (DNSLookupUnexpectedFailure wa) [txid]\<rparr>)
                    else wa\<lparr>DNSLookupExpectedSuccess := set_Add (DNSLookupExpectedSuccess wa) [txid]\<rparr>) } } } } })"

definition dnsComputeFailureMetrics :: "WebObservationsContainer \<Rightarrow> WebAnalysis \<Rightarrow> WebAnalysis option" where
  "dnsComputeFailureMetrics c wa =
     map_option snd (for_each dns_failure_step (DNSLookupFailures c) (NewSet [], wa))"

section \<open>Endpoint metrics\<close>

definition tcp_step :: "WebObservation \<Rightarrow> WebAnalysis \<Rightarrow> WebAnalysis option" where
  "tcp_step obs wa =
     (if IsNone (TCPConnectFailure obs) then Some wa
      else do {
        failure \<leftarrow> Unwrap (TCPConnectFailure obs);
        if past_depth_zero obs then
          if utilsTCPConnectFailureSeemsMisconfiguredIPv6 obs then Some wa
          else if failure \<noteq> '''' then do {
            txid \<leftarrow> Unwrap (EndpointTransactionID obs);
            let wa = (case TagFetchBody obs of
                None \<Rightarrow> wa
              | Some True \<Rightarrow> wa\<lparr>TCPConnectUnexplainedFailureDuringWebFetch :=
                  set_Add (TCPConnectUnexplainedFailureDuringWebFetch wa) [txid]\<rparr>
              | Some False \<Rightarrow> wa\<lparr>TCPConnectUnexplainedFailureDuringConnectivityCheck :=
                  set_Add (TCPConnectUnexplainedFailureDuringConnectivityCheck wa) [txid]\<rparr>);
            Some (wa\<lparr>TCPConnectUnexplainedFailure := set_Add (TCPConnectUnexplainedFailure wa) [txid]\<rparr>) }
          else Some wa
        else if IsNone (ControlTCPConnectFailure obs) then Some wa
        else do {
          control \<leftarrow> Unwrap (ControlTCPConnectFailure obs);
          if failure \<noteq> '''' \<and> control \<noteq> '''' then do {
            txid \<leftarrow> Unwrap (EndpointTransactionID obs);
            Some (wa\<lparr>TCPConnectExpectedFailure := set_Add (TCPConnectExpectedFailure wa) [txid]\<rparr>) }
          else if control \<noteq> '''' then Some wa
          else if failure \<noteq> '''' then
            if utilsTCPConnectFailureSeemsMisconfiguredIPv6 obs then Some wa
            else do {
              txid \<leftarrow> Unwrap (EndpointTransactionID obs);
              let wa = (case TagFetchBody obs of
                  None \<Rightarrow> wa
                | Some True \<Rightarrow> wa\<lparr>TCPConnectUnexpectedFailureDuringWebFetch :=
                    set_Add (TCPConnectUnexpectedFailureDuringWebFetch wa) [txid]\<rparr>
                | Some False \<Rightarrow> wa\<lparr>TCPConnectUnexpectedFailureDuringConnectivityCheck :=
                    set_Add (TCPConnectUnexpectedFailureDuringConnectivityCheck wa) [txid]\<rparr>);
              Some (wa\<lparr>TCPConnectUnexpectedFailure := set_Add (TCPConnectUnexpectedFailure wa) [txid]\<rparr>) }
          else Some wa } })"

definition tcpComputeMetrics :: "WebObservationsContainer \<Rightarrow> WebAnalysis \<Rightarrow> WebAnalysis option" where
  "tcpComputeMetrics c wa = for_each (\<lambda>(_, obs). tcp_step obs) (KnownTCPEndpoints c) wa"

definition tls_step :: "WebObservation \<Rightarrow> WebAnalysis \<Rightarrow> WebAnalysis option" where
  "tls_step obs wa =
     (if IsNone (TLSHandshakeFailure obs) then Some wa
      else do {
        failure \<leftarrow> Unwrap (TLSHandshakeFailure obs);
        if past_depth_zero obs then
          if failure \<noteq> '''' then do {
            txid \<leftarrow> Unwrap (EndpointTransactionID obs);
            let wa = (case TagFetchBody obs of
                None \<Rightarrow> wa
              | Some True \<Rightarrow> wa\<lparr>TLSHandshakeUnexplainedFailureDuringWebFetch :=
                  set_Add (TLSHandshakeUnexplainedFailureDuringWebFetch wa) [txid]\<rparr>
              | Some False \<Rightarrow> wa\<lparr>TLSHandshakeUnexplainedFailureDuringConnectivityCheck :=
                  set_Add (TLSHandshakeUnexplainedFailureDuringConnectivityCheck wa) [txid]\<rparr>);
            Some (wa\<lparr>TLSHandshakeUnexplainedFailure := set_Add (TLSHandshakeUnexplainedFailure wa) [txid]\<rparr>) }
          else Some wa
        else if IsNone (ControlTLSHandshakeFailure obs) then Some wa
        else do {
          control \<leftarrow> Unwrap (ControlTLSHandshakeFailure obs);
          if failure \<noteq> '''' \<and> control \<noteq> '''' then do {
            txid \<leftarrow> Unwrap (EndpointTransactionID obs);
            Some (wa\<lparr>TLSHandshakeExpectedFailure := set_Add (TLSHandshakeExpectedFailure wa) [txid]\<rparr>) }
          else if control \<noteq> '''' then Some wa
          else if failure \<noteq> '''' then do {
            txid \<leftarrow> Unwrap (EndpointTransactionID obs);
            let wa = (case TagFetchBody obs of
                None \<Rightarrow> wa
              | Some True \<Rightarrow> wa\<lparr>TLSHandshakeUnexpectedFailureDuringWebFetch :=
                  set_Add (TLSHandshakeUnexpectedFailureDuringWebFetch wa) [txid]\<rparr>
              | Some False \<Rightarrow> wa\<lparr>TLSHandshakeUnexpectedFailureDuringConnectivityCheck :=
                  set_Add (TLSHandshakeUnexpectedFailureDuringConnectivityCheck wa) [txid]\<rparr>);
            Some (wa\<lparr>TLSHandshakeUnexpectedFailure := set_Add (TLSHandshakeUnexpectedFailure wa) [txid]\<rparr>) }
          else Some wa } })"

definition tlsComputeMetrics :: "WebObservationsContainer \<Rightarrow> WebAnalysis \<Rightarrow> WebAnalysis option" where
  "tlsComputeMetrics c wa = for_each (\<lambda>(_, obs). tls_step obs) (KnownTCPEndpoints c) wa"

definition http_failure_step :: "WebObservation \<Rightarrow> WebAnalysis \<Rightarrow> WebAnalysis option" where
  "http_failure_step obs wa =
     (if IsNone (HTTPFailure obs) then Some wa
      else do {
        failure \<leftarrow> Unwrap (HTTPFailure obs);
        if IsNone (ControlHTTPFailure obs) then
          if failure \<noteq> '''' then do {
            txid \<leftarrow> Unwrap (EndpointTransactionID obs);
            Some (wa\<lparr>HTTPRoundTripUnexplainedFailure := set_Add (HTTPRoundTripUnexplainedFailure wa) [txid]\<rparr>) }
          else Some wa
        else do {
          control \<leftarrow> Unwrap (ControlHTTPFailure obs);
          if failure \<noteq> '''' \<and> control \<noteq> '''' then Some wa
          else if control \<noteq> '''' then Some wa
          else if failure \<noteq> '''' then do {
            txid \<leftarrow> Unwrap (EndpointTransactionID obs);
            Some (wa\<lparr>HTTPRoundTripUnexpectedFailure := set_Add (HTTPRoundTripUnexpectedFailure wa) [txid]\<rparr>) }
          else Some wa } })"

definition httpComputeFailureMetrics :: "WebObservationsContainer \<Rightarrow> WebAnalysis \<Rightarrow> WebAnalysis option" where
  "httpComputeFailureMetrics c wa = for_each (\<lambda>(_, obs). http_failure_step obs) (KnownTCPEndpoints c) wa"

section \<open>The final response\<close>

text \<open>The four comparisons return a status that the source uses for testing, and the new state.\<close>

definition httpDiffBodyProportionFactor :: "WebObservation \<Rightarrow> WebAnalysis \<Rightarrow> int \<times> WebAnalysis" where
  "httpDiffBodyProportionFactor obs wa =
     (if \<not> UnwrapOr (HTTPResponseIsFinal obs) False then (-1, wa)
      else let measurement = UnwrapOr (HTTPResponseBodyLength obs) 0 in
      if measurement \<le> 0 then (-2, wa)
      else if UnwrapOr (HTTPResponseBodyIsTruncated obs) True then (-3, wa)
      else let control = UnwrapOr (ControlHTTPResponseBodyLength obs) 0 in
      if control \<le> 0 then (-4, wa)
      else (0, wa\<lparr>HTTPFinalResponseDiffBodyProportionFactor :=
                   Some (ComputeHTTPDiffBodyProportionFactor measurement control)\<rparr>))"

definition httpDiffStatusCodeMatch :: "WebObservation \<Rightarrow> WebAnalysis \<Rightarrow> int \<times> WebAnalysis" where
  "httpDiffStatusCodeMatch obs wa =
     (if \<not> UnwrapOr (HTTPResponseIsFinal obs) False then (-1, wa)
      else let measurement = UnwrapOr (HTTPResponseStatusCode obs) 0 in
      if measurement \<le> 0 then (-2, wa)
      else let control = UnwrapOr (ControlHTTPResponseStatusCode obs) 0 in
      if control \<le> 0 then (-3, wa)
      else (0, wa\<lparr>HTTPFinalResponseDiffStatusCodeMatch := ComputeHTTPDiffStatusCodeMatch measurement control\<rparr>))"

definition httpDiffUncommonHeadersIntersection ::
  "(string \<Rightarrow> string) \<Rightarrow> WebObservation \<Rightarrow> WebAnalysis \<Rightarrow> int \<times> WebAnalysis" where
  "httpDiffUncommonHeadersIntersection uni obs wa =
     (if \<not> UnwrapOr (HTTPResponseIsFinal obs) False then (-1, wa)
      else if UnwrapOr (ControlHTTPResponseStatusCode obs) 0 \<le> 0 then (-2, wa)
      else let measurement = UnwrapOr (HTTPResponseHeadersKeys obs) [];
               control = UnwrapOr (ControlHTTPResponseHeadersKeys obs) [];
               state = ComputeHTTPDiffUncommonHeadersIntersection uni measurement control in
      (int (length state), wa\<lparr>HTTPFinalResponseDiffUncommonHeadersIntersection := Some state\<rparr>))"

definition httpDiffTitleDifferentLongWords ::
  "(string \<Rightarrow> string) \<Rightarrow> WebObservation \<Rightarrow> WebAnalysis \<Rightarrow> int \<times> WebAnalysis" where
  "httpDiffTitleDifferentLongWords uni obs wa =
     (if \<not> UnwrapOr (HTTPResponseIsFinal obs) False then (-1, wa)
      else if UnwrapOr (ControlHTTPResponseStatusCode obs) 0 \<le> 0 then (-2, wa)
      else let measurement = UnwrapOr (HTTPResponseTitle obs) '''';
               control = UnwrapOr (ControlHTTPResponseTitle obs) '''';
               state = ComputeHTTPDiffTitleDifferentLongWords uni measurement control in
      (int (length state), wa\<lparr>HTTPFinalResponseDiffTitleDifferentLongWords := Some state\<rparr>))"

definition httpHandleFinalResponse ::
  "(string \<Rightarrow> string) \<Rightarrow> WebObservation \<Rightarrow> WebAnalysis \<Rightarrow> WebAnalysis option" where
  "httpHandleFinalResponse uni obs wa =
     (if IsNone (ControlHTTPFailure obs) then
        if TLSHandshakeFailure obs = Some ''''
        then Some (wa\<lparr>HTTPFinalResponseSuccessTLSWithoutControl := EndpointTransactionID obs\<rparr>)
        else Some (wa\<lparr>HTTPFinalResponseSuccessTCPWithoutControl := EndpointTransactionID obs\<rparr>)
      else do {
        wa \<leftarrow> (case TLSHandshakeFailure obs of
            Some failure \<Rightarrow>
              if failure = '''' then Some (wa\<lparr>HTTPFinalResponseSuccessTLSWithControl := EndpointTransactionID obs\<rparr>)
              else None
          | None \<Rightarrow> Some (wa\<lparr>HTTPFinalResponseSuccessTCPWithControl := EndpointTransactionID obs\<rparr>));
        let wa = snd (httpDiffBodyProportionFactor obs wa);
        let wa = snd (httpDiffStatusCodeMatch obs wa);
        let wa = snd (httpDiffUncommonHeadersIntersection uni obs wa);
        Some (snd (httpDiffTitleDifferentLongWords uni obs wa)) })"

definition httpComputeFinalResponseMetrics ::
  "(string \<Rightarrow> string) \<Rightarrow> WebObservationsContainer \<Rightarrow> WebAnalysis \<Rightarrow> WebAnalysis option" where
  "httpComputeFinalResponseMetrics uni c wa =
     (case find (\<lambda>(_, obs). some_true (HTTPResponseIsFinal obs)) (KnownTCPEndpoints c) of
        None \<Rightarrow> Some wa
      | Some (_, obs) \<Rightarrow> httpHandleFinalResponse uni obs wa)"

section \<open>The analysis\<close>

definition AnalyzeWebObservationsWithoutLinearAnalysis ::
  "GeoIPASNLookupper \<Rightarrow> (string \<Rightarrow> string) \<Rightarrow> WebObservationsContainer \<Rightarrow> WebAnalysis option" where
  "AnalyzeWebObservationsWithoutLinearAnalysis lookupper uni container =
     do { let analysis = WebAnalysis_zero\<lparr>wa_ControlExpectations := ControlExpectations container\<rparr>;
          analysis \<leftarrow> dnsComputeSuccessMetrics lookupper container analysis;
          analysis \<leftarrow> dnsComputeSuccessMetricsClassic lookupper container analysis;
          analysis \<leftarrow> dnsComputeFailureMetrics container analysis;
          analysis \<leftarrow> tcpComputeMetrics container analysis;
          analysis \<leftarrow> tlsComputeMetrics container analysis;
          analysis \<leftarrow> httpComputeFailureMetrics container analysis;
          httpComputeFinalResponseMetrics uni container analysis }"

definition AnalyzeWebObservationsWithLinearAnalysis ::
  "GeoIPASNLookupper \<Rightarrow> (string \<Rightarrow> string) \<Rightarrow> WebObservationsContainer \<Rightarrow> WebAnalysis option" where
  "AnalyzeWebObservationsWithLinearAnalysis lookupper uni container =
     do { analysis \<leftarrow> AnalyzeWebObservationsWithoutLinearAnalysis lookupper uni container;
          Some (analysis\<lparr>wa_Linear := NewLinearWebAnalysis container\<rparr>) }"

section \<open>Specification: verdicts\<close>

text \<open>
  What the comparison of the probe with the control says about one observation. A failure is
  expected when the control fails as well, unexpected when the control succeeds, and unexplained
  when there is no control to compare with.
\<close>

datatype verdict = NoVerdict | ExpectedFailure | UnexpectedFailure | UnexplainedFailure

definition verdict_of :: "bool \<Rightarrow> bool \<Rightarrow> string option \<Rightarrow> string option \<Rightarrow> verdict" where
  "verdict_of redirect ignore probe control =
     (case probe of None \<Rightarrow> NoVerdict
      | Some failure \<Rightarrow>
          if failure = '''' then NoVerdict
          else if redirect then (if ignore then NoVerdict else UnexplainedFailure)
          else case control of None \<Rightarrow> NoVerdict
               | Some cfailure \<Rightarrow>
                   if cfailure \<noteq> '''' then ExpectedFailure
                   else if ignore then NoVerdict else UnexpectedFailure)"

definition tcp_verdict :: "WebObservation \<Rightarrow> verdict" where
  "tcp_verdict obs = verdict_of (past_depth_zero obs) (utilsTCPConnectFailureSeemsMisconfiguredIPv6 obs)
     (TCPConnectFailure obs) (ControlTCPConnectFailure obs)"

definition tls_verdict :: "WebObservation \<Rightarrow> verdict" where
  "tls_verdict obs = verdict_of (past_depth_zero obs) False
     (TLSHandshakeFailure obs) (ControlTLSHandshakeFailure obs)"

text \<open>The transactions of the endpoints that satisfy a predicate.\<close>

definition ids :: "(int, WebObservation) gomap \<Rightarrow> (WebObservation \<Rightarrow> bool) \<Rightarrow> int set" where
  "ids m P = {txid. \<exists>obs. (txid, obs) \<in> set m \<and> P obs}"

definition keyed :: "(int, WebObservation) gomap \<Rightarrow> bool" where
  "keyed m \<longleftrightarrow> (\<forall>(txid, obs) \<in> set m. EndpointTransactionID obs = Some txid)"

definition sel :: "bool \<Rightarrow> int \<Rightarrow> int set" where
  "sel b txid = (if b then {txid} else {})"

lemma ids_simps [simp]: "ids [] P = {}" "ids ((txid, obs) # m) P = sel (P obs) txid \<union> ids m P"
  by (auto simp: ids_def sel_def)

lemma sel_simps [simp]: "sel True txid = {txid}" "sel False txid = {}"
  by (simp_all add: sel_def)

lemma ids_perm: "set m = set m' \<Longrightarrow> ids m P = ids m' P"
  by (simp add: ids_def)

lemma observations_wf_keyed: "observations_wf c \<Longrightarrow> keyed (KnownTCPEndpoints c)"
  by (auto simp: observations_wf_def keyed_def endpoint_wf_def)

abbreviation web_fetch :: "WebObservation \<Rightarrow> bool" where
  "web_fetch obs \<equiv> TagFetchBody obs = Some True"

abbreviation connectivity_check :: "WebObservation \<Rightarrow> bool" where
  "connectivity_check obs \<equiv> TagFetchBody obs = Some False"

lemma tcp_step_eq:
  assumes "EndpointTransactionID obs = Some txid"
  shows "tcp_step obs wa = Some (wa\<lparr>
     TCPConnectExpectedFailure := TCPConnectExpectedFailure wa \<union> sel (tcp_verdict obs = ExpectedFailure) txid,
     TCPConnectUnexpectedFailure := TCPConnectUnexpectedFailure wa \<union> sel (tcp_verdict obs = UnexpectedFailure) txid,
     TCPConnectUnexpectedFailureDuringWebFetch := TCPConnectUnexpectedFailureDuringWebFetch wa \<union>
       sel (tcp_verdict obs = UnexpectedFailure \<and> web_fetch obs) txid,
     TCPConnectUnexpectedFailureDuringConnectivityCheck := TCPConnectUnexpectedFailureDuringConnectivityCheck wa \<union>
       sel (tcp_verdict obs = UnexpectedFailure \<and> connectivity_check obs) txid,
     TCPConnectUnexplainedFailure := TCPConnectUnexplainedFailure wa \<union> sel (tcp_verdict obs = UnexplainedFailure) txid,
     TCPConnectUnexplainedFailureDuringWebFetch := TCPConnectUnexplainedFailureDuringWebFetch wa \<union>
       sel (tcp_verdict obs = UnexplainedFailure \<and> web_fetch obs) txid,
     TCPConnectUnexplainedFailureDuringConnectivityCheck := TCPConnectUnexplainedFailureDuringConnectivityCheck wa \<union>
       sel (tcp_verdict obs = UnexplainedFailure \<and> connectivity_check obs) txid\<rparr>)"
  using assms
  by (cases "TCPConnectFailure obs"; cases "ControlTCPConnectFailure obs"; cases "TagFetchBody obs")
    (simp_all add: tcp_step_def tcp_verdict_def verdict_of_def Let_def split: bool.splits)

lemma tcp_loop:
  assumes "keyed m"
  shows "for_each (\<lambda>(_, obs). tcp_step obs) m wa = Some (wa\<lparr>
     TCPConnectExpectedFailure := TCPConnectExpectedFailure wa \<union> ids m (\<lambda>obs. tcp_verdict obs = ExpectedFailure),
     TCPConnectUnexpectedFailure := TCPConnectUnexpectedFailure wa \<union> ids m (\<lambda>obs. tcp_verdict obs = UnexpectedFailure),
     TCPConnectUnexpectedFailureDuringWebFetch := TCPConnectUnexpectedFailureDuringWebFetch wa \<union>
       ids m (\<lambda>obs. tcp_verdict obs = UnexpectedFailure \<and> web_fetch obs),
     TCPConnectUnexpectedFailureDuringConnectivityCheck := TCPConnectUnexpectedFailureDuringConnectivityCheck wa \<union>
       ids m (\<lambda>obs. tcp_verdict obs = UnexpectedFailure \<and> connectivity_check obs),
     TCPConnectUnexplainedFailure := TCPConnectUnexplainedFailure wa \<union> ids m (\<lambda>obs. tcp_verdict obs = UnexplainedFailure),
     TCPConnectUnexplainedFailureDuringWebFetch := TCPConnectUnexplainedFailureDuringWebFetch wa \<union>
       ids m (\<lambda>obs. tcp_verdict obs = UnexplainedFailure \<and> web_fetch obs),
     TCPConnectUnexplainedFailureDuringConnectivityCheck := TCPConnectUnexplainedFailureDuringConnectivityCheck wa \<union>
       ids m (\<lambda>obs. tcp_verdict obs = UnexplainedFailure \<and> connectivity_check obs)\<rparr>)"
  using assms
proof (induction m arbitrary: wa)
  case Nil
  then show ?case by simp
next
  case (Cons e m)
  obtain txid obs where e: "e = (txid, obs)" by (cases e)
  with Cons.prems have "EndpointTransactionID obs = Some txid" "keyed m" by (auto simp: keyed_def)
  with Cons.IH e show ?case by (simp add: tcp_step_eq Un_assoc)
qed

lemma tls_step_eq:
  assumes "EndpointTransactionID obs = Some txid"
  shows "tls_step obs wa = Some (wa\<lparr>
     TLSHandshakeExpectedFailure := TLSHandshakeExpectedFailure wa \<union> sel (tls_verdict obs = ExpectedFailure) txid,
     TLSHandshakeUnexpectedFailure := TLSHandshakeUnexpectedFailure wa \<union> sel (tls_verdict obs = UnexpectedFailure) txid,
     TLSHandshakeUnexpectedFailureDuringWebFetch := TLSHandshakeUnexpectedFailureDuringWebFetch wa \<union>
       sel (tls_verdict obs = UnexpectedFailure \<and> web_fetch obs) txid,
     TLSHandshakeUnexpectedFailureDuringConnectivityCheck := TLSHandshakeUnexpectedFailureDuringConnectivityCheck wa \<union>
       sel (tls_verdict obs = UnexpectedFailure \<and> connectivity_check obs) txid,
     TLSHandshakeUnexplainedFailure := TLSHandshakeUnexplainedFailure wa \<union> sel (tls_verdict obs = UnexplainedFailure) txid,
     TLSHandshakeUnexplainedFailureDuringWebFetch := TLSHandshakeUnexplainedFailureDuringWebFetch wa \<union>
       sel (tls_verdict obs = UnexplainedFailure \<and> web_fetch obs) txid,
     TLSHandshakeUnexplainedFailureDuringConnectivityCheck := TLSHandshakeUnexplainedFailureDuringConnectivityCheck wa \<union>
       sel (tls_verdict obs = UnexplainedFailure \<and> connectivity_check obs) txid\<rparr>)"
  using assms
  by (cases "TLSHandshakeFailure obs"; cases "ControlTLSHandshakeFailure obs"; cases "TagFetchBody obs")
    (simp_all add: tls_step_def tls_verdict_def verdict_of_def Let_def split: bool.splits)

lemma tls_loop:
  assumes "keyed m"
  shows "for_each (\<lambda>(_, obs). tls_step obs) m wa = Some (wa\<lparr>
     TLSHandshakeExpectedFailure := TLSHandshakeExpectedFailure wa \<union> ids m (\<lambda>obs. tls_verdict obs = ExpectedFailure),
     TLSHandshakeUnexpectedFailure := TLSHandshakeUnexpectedFailure wa \<union> ids m (\<lambda>obs. tls_verdict obs = UnexpectedFailure),
     TLSHandshakeUnexpectedFailureDuringWebFetch := TLSHandshakeUnexpectedFailureDuringWebFetch wa \<union>
       ids m (\<lambda>obs. tls_verdict obs = UnexpectedFailure \<and> web_fetch obs),
     TLSHandshakeUnexpectedFailureDuringConnectivityCheck := TLSHandshakeUnexpectedFailureDuringConnectivityCheck wa \<union>
       ids m (\<lambda>obs. tls_verdict obs = UnexpectedFailure \<and> connectivity_check obs),
     TLSHandshakeUnexplainedFailure := TLSHandshakeUnexplainedFailure wa \<union> ids m (\<lambda>obs. tls_verdict obs = UnexplainedFailure),
     TLSHandshakeUnexplainedFailureDuringWebFetch := TLSHandshakeUnexplainedFailureDuringWebFetch wa \<union>
       ids m (\<lambda>obs. tls_verdict obs = UnexplainedFailure \<and> web_fetch obs),
     TLSHandshakeUnexplainedFailureDuringConnectivityCheck := TLSHandshakeUnexplainedFailureDuringConnectivityCheck wa \<union>
       ids m (\<lambda>obs. tls_verdict obs = UnexplainedFailure \<and> connectivity_check obs)\<rparr>)"
  using assms
proof (induction m arbitrary: wa)
  case Nil
  then show ?case by simp
next
  case (Cons e m)
  obtain txid obs where e: "e = (txid, obs)" by (cases e)
  with Cons.prems have "EndpointTransactionID obs = Some txid" "keyed m" by (auto simp: keyed_def)
  with Cons.IH e show ?case by (simp add: tls_step_eq Un_assoc)
qed

definition http_verdict :: "WebObservation \<Rightarrow> verdict" where
  "http_verdict obs =
     (case HTTPFailure obs of None \<Rightarrow> NoVerdict
      | Some failure \<Rightarrow>
          if failure = '''' then NoVerdict
          else case ControlHTTPFailure obs of None \<Rightarrow> UnexplainedFailure
               | Some cfailure \<Rightarrow> if cfailure \<noteq> '''' then ExpectedFailure else UnexpectedFailure)"

lemma http_failure_step_eq:
  assumes "EndpointTransactionID obs = Some txid"
  shows "http_failure_step obs wa = Some (wa\<lparr>
     HTTPRoundTripUnexpectedFailure := HTTPRoundTripUnexpectedFailure wa \<union> sel (http_verdict obs = UnexpectedFailure) txid,
     HTTPRoundTripUnexplainedFailure := HTTPRoundTripUnexplainedFailure wa \<union> sel (http_verdict obs = UnexplainedFailure) txid\<rparr>)"
  using assms
  by (cases "HTTPFailure obs"; cases "ControlHTTPFailure obs")
    (simp_all add: http_failure_step_def http_verdict_def)

lemma http_failure_loop:
  assumes "keyed m"
  shows "for_each (\<lambda>(_, obs). http_failure_step obs) m wa = Some (wa\<lparr>
     HTTPRoundTripUnexpectedFailure := HTTPRoundTripUnexpectedFailure wa \<union> ids m (\<lambda>obs. http_verdict obs = UnexpectedFailure),
     HTTPRoundTripUnexplainedFailure := HTTPRoundTripUnexplainedFailure wa \<union> ids m (\<lambda>obs. http_verdict obs = UnexplainedFailure)\<rparr>)"
  using assms
proof (induction m arbitrary: wa)
  case Nil
  then show ?case by simp
next
  case (Cons e m)
  obtain txid obs where e: "e = (txid, obs)" by (cases e)
  with Cons.prems have "EndpointTransactionID obs = Some txid" "keyed m" by (auto simp: keyed_def)
  with Cons.IH e show ?case by (simp add: http_failure_step_eq Un_assoc)
qed

text \<open>
  The DNS loops consider the first observation of each transaction only. A lookup has one
  observation per address, and an A and an AAAA query may share the transaction.
\<close>

fun firsts :: "int set \<Rightarrow> WebObservation list \<Rightarrow> WebObservation list" where
  "firsts seen [] = []"
| "firsts seen (obs # rest) =
     (if the (DNSTransactionID obs) \<in> seen then firsts seen rest
      else obs # firsts (insert (the (DNSTransactionID obs)) seen) rest)"

definition dns_ids :: "WebObservation list \<Rightarrow> (WebObservation \<Rightarrow> bool) \<Rightarrow> int set" where
  "dns_ids xs P = {txid. \<exists>obs \<in> set xs. DNSTransactionID obs = Some txid \<and> P obs}"

lemma dns_ids_simps [simp]:
  "dns_ids [] P = {}"
  "DNSTransactionID obs = Some txid \<Longrightarrow> dns_ids (obs # xs) P = sel (P obs) txid \<union> dns_ids xs P"
  by (auto simp: dns_ids_def sel_def)

definition dns_considered :: "WebObservation \<Rightarrow> bool" where
  "dns_considered obs \<longleftrightarrow>
     \<not> utilsDNSEngineIsDNSOverHTTPS obs \<and> \<not> utilsDNSLookupFailureIsDNSNoAnswerForAAAA obs"

definition control_has_no_addrs :: "WebObservation \<Rightarrow> bool" where
  "control_has_no_addrs obs =
     (case ControlDNSResolvedAddrs obs of None \<Rightarrow> False | Some addrs \<Rightarrow> set_Len addrs \<le> 0)"

definition dns_verdict :: "WebObservation \<Rightarrow> verdict" where
  "dns_verdict obs =
     (case DNSLookupFailure obs of None \<Rightarrow> NoVerdict
      | Some failure \<Rightarrow>
          if failure = '''' \<or> \<not> dns_considered obs then NoVerdict
          else if past_depth_zero obs then UnexplainedFailure
          else case ControlDNSLookupFailure obs of None \<Rightarrow> NoVerdict
               | Some cfailure \<Rightarrow>
                   if cfailure \<noteq> '''' \<or> failure = FailureDNSNoAnswer \<and> control_has_no_addrs obs
                   then ExpectedFailure else UnexpectedFailure)"

definition dns_expected_success :: "WebObservation \<Rightarrow> bool" where
  "dns_expected_success obs \<longleftrightarrow> dns_considered obs \<and> \<not> past_depth_zero obs \<and>
     DNSLookupFailure obs = Some '''' \<and> ControlDNSLookupFailure obs = Some ''''"

definition dns_experiment_failure :: "WebObservation \<Rightarrow> bool" where
  "dns_experiment_failure obs \<longleftrightarrow> dns_considered obs \<and> \<not> past_depth_zero obs \<and> DNSLookupFailure obs \<noteq> Some ''''"

definition or_else :: "'a option \<Rightarrow> 'a option \<Rightarrow> 'a option" where
  "or_else x y = (case x of None \<Rightarrow> y | Some _ \<Rightarrow> x)"

lemma or_else_simps [simp]:
  "or_else None y = y" "or_else (Some a) y = Some a" "or_else x None = x" "or_else (or_else x y) z = or_else x (or_else y z)"
  by (auto simp: or_else_def split: option.splits)

lemma dns_failure_step_eq:
  assumes "DNSTransactionID obs = Some txid" and "DNSLookupFailure obs = Some failure" and "txid \<notin> seen"
  shows "dns_failure_step obs (seen, wa) = Some (insert txid seen, wa\<lparr>
     DNSLookupUnexpectedFailure := DNSLookupUnexpectedFailure wa \<union> sel (dns_verdict obs = UnexpectedFailure) txid,
     DNSLookupUnexplainedFailure := DNSLookupUnexplainedFailure wa \<union> sel (dns_verdict obs = UnexplainedFailure) txid,
     DNSExperimentFailure := or_else (DNSExperimentFailure wa)
       (if dns_experiment_failure obs then DNSLookupFailure obs else None),
     DNSLookupExpectedFailure := DNSLookupExpectedFailure wa \<union> sel (dns_verdict obs = ExpectedFailure) txid,
     DNSLookupExpectedSuccess := DNSLookupExpectedSuccess wa \<union> sel (dns_expected_success obs) txid\<rparr>)"
  using assms
  by (cases "ControlDNSLookupFailure obs"; cases "DNSExperimentFailure wa";
      cases "utilsDNSEngineIsDNSOverHTTPS obs"; cases "utilsDNSLookupFailureIsDNSNoAnswerForAAAA obs")
    (simp_all add: dns_failure_step_def dns_verdict_def dns_expected_success_def dns_experiment_failure_def
      dns_considered_def control_has_no_addrs_def set_Contains_def Let_def)

lemma dns_failure_loop:
  assumes "list_all dns_failure_wf xs"
  shows "map_option snd (for_each dns_failure_step xs (seen, wa)) = Some (wa\<lparr>
     DNSLookupUnexpectedFailure := DNSLookupUnexpectedFailure wa \<union>
       dns_ids (firsts seen xs) (\<lambda>obs. dns_verdict obs = UnexpectedFailure),
     DNSLookupUnexplainedFailure := DNSLookupUnexplainedFailure wa \<union>
       dns_ids (firsts seen xs) (\<lambda>obs. dns_verdict obs = UnexplainedFailure),
     DNSExperimentFailure := or_else (DNSExperimentFailure wa)
       (Option.bind (find dns_experiment_failure (firsts seen xs)) DNSLookupFailure),
     DNSLookupExpectedFailure := DNSLookupExpectedFailure wa \<union>
       dns_ids (firsts seen xs) (\<lambda>obs. dns_verdict obs = ExpectedFailure),
     DNSLookupExpectedSuccess := DNSLookupExpectedSuccess wa \<union> dns_ids (firsts seen xs) dns_expected_success\<rparr>)"
  using assms
proof (induction xs arbitrary: seen wa)
  case Nil
  then show ?case by simp
next
  case (Cons obs xs)
  then obtain txid failure where obs: "DNSTransactionID obs = Some txid" "DNSLookupFailure obs = Some failure"
    by (auto simp: dns_failure_wf_def)
  show ?case
  proof (cases "txid \<in> seen")
    case True
    with obs have "dns_failure_step obs (seen, wa) = Some (seen, wa)"
      by (simp add: dns_failure_step_def set_Contains_def)
    with Cons True obs show ?thesis by (simp del: map_option_eq_Some)
  next
    case False
    with Cons obs show ?thesis by (simp add: dns_failure_step_eq Un_assoc del: map_option_eq_Some)
  qed
qed

text \<open>Whether the addresses of a lookup agree with those of the control, by address or by AS number.\<close>

definition addrs_agree :: "GeoIPASNLookupper \<Rightarrow> string set \<Rightarrow> string set \<Rightarrow> bool" where
  "addrs_agree lookupper measurement control \<longleftrightarrow>
     set_Len (DNSDiffFindCommonIPAddressIntersection measurement control) > 0 \<or>
     set_Len (DNSDiffFindCommonASNsIntersection lookupper measurement control) > 0"

definition lookup_agrees :: "GeoIPASNLookupper \<Rightarrow> bool \<Rightarrow> WebObservation \<Rightarrow> bool" where
  "lookup_agrees lookupper expected obs \<longleftrightarrow> \<not> past_depth_zero obs \<and>
     (case (DNSResolvedAddrs obs, ControlDNSResolvedAddrs obs) of
        (Some measurement, Some control) \<Rightarrow> addrs_agree lookupper measurement control = expected
      | _ \<Rightarrow> False)"

lemma dns_success_step_eq:
  assumes "DNSTransactionID obs = Some txid" and "DNSResolvedAddrs obs = Some addrs" and "txid \<notin> seen"
  shows "dns_success_step lookupper obs (seen, wa) = Some (insert txid seen, wa\<lparr>
     DNSLookupSuccess := DNSLookupSuccess wa \<union> sel (\<not> past_depth_zero obs) txid,
     DNSLookupSuccessWithInvalidAddresses := DNSLookupSuccessWithInvalidAddresses wa \<union>
       sel (lookup_agrees lookupper False obs) txid,
     DNSLookupSuccessWithValidAddress := DNSLookupSuccessWithValidAddress wa \<union>
       sel (lookup_agrees lookupper True obs) txid,
     DNSLookupSuccessWithBogonAddresses := DNSLookupSuccessWithBogonAddresses wa \<union>
       sel (\<not> past_depth_zero obs \<and> IPAddressBogon obs = Some True) txid\<rparr>)"
  using assms
  by (cases "ControlDNSResolvedAddrs obs"; cases "IPAddressBogon obs"; cases "past_depth_zero obs")
    (simp_all add: dns_success_step_def lookup_agrees_def addrs_agree_def some_true_def set_Contains_def Let_def)

lemma dns_success_loop:
  assumes "list_all dns_success_wf xs"
  shows "map_option snd (for_each (dns_success_step lookupper) xs (seen, wa)) = Some (wa\<lparr>
     DNSLookupSuccess := DNSLookupSuccess wa \<union> dns_ids (firsts seen xs) (\<lambda>obs. \<not> past_depth_zero obs),
     DNSLookupSuccessWithInvalidAddresses := DNSLookupSuccessWithInvalidAddresses wa \<union>
       dns_ids (firsts seen xs) (lookup_agrees lookupper False),
     DNSLookupSuccessWithValidAddress := DNSLookupSuccessWithValidAddress wa \<union>
       dns_ids (firsts seen xs) (lookup_agrees lookupper True),
     DNSLookupSuccessWithBogonAddresses := DNSLookupSuccessWithBogonAddresses wa \<union>
       dns_ids (firsts seen xs) (\<lambda>obs. \<not> past_depth_zero obs \<and> IPAddressBogon obs = Some True)\<rparr>)"
  using assms
proof (induction xs arbitrary: seen wa)
  case Nil
  then show ?case by simp
next
  case (Cons obs xs)
  then obtain txid addrs where obs: "DNSTransactionID obs = Some txid" "DNSResolvedAddrs obs = Some addrs"
    by (auto simp: dns_success_wf_def split: option.splits)
  show ?case
  proof (cases "txid \<in> seen")
    case True
    with obs have "dns_success_step lookupper obs (seen, wa) = Some (seen, wa)"
      by (simp add: dns_success_step_def set_Contains_def)
    with Cons True obs show ?thesis by (simp del: map_option_eq_Some)
  next
    case False
    with Cons obs show ?thesis by (simp add: dns_success_step_eq Un_assoc del: map_option_eq_Some)
  qed
qed

text \<open>The lookups that a successful TLS handshake with one of their addresses confirms.\<close>

definition tls_confirmed :: "(int, WebObservation) gomap \<Rightarrow> int set" where
  "tls_confirmed m = {txid. txid > 0 \<and>
     (\<exists>obs \<in> snd ` set m. TLSHandshakeFailure obs = Some '''' \<and> DNSTransactionID obs = Some txid)}"

lemma positive_singleton: "{txid. 0 < txid \<and> b \<and> a = txid} = (if 0 < a \<and> b then {a} else {})" for a :: int
  by auto

lemma dns_undo_loop:
  "fold (\<lambda>(_, obs). dns_undo_step obs) m wa = wa\<lparr>
     DNSLookupSuccessWithInvalidAddresses := DNSLookupSuccessWithInvalidAddresses wa - tls_confirmed m,
     DNSLookupSuccessWithValidAddress := DNSLookupSuccessWithValidAddress wa \<union> tls_confirmed m\<rparr>"
proof (induction m arbitrary: wa)
  case Nil
  then show ?case by (simp add: tls_confirmed_def)
next
  case (Cons e m)
  obtain key obs where e: "e = (key, obs)" by (cases e)
  let ?T = "{txid. txid > 0 \<and> TLSHandshakeFailure obs = Some '''' \<and> DNSTransactionID obs = Some txid}"
  have split: "tls_confirmed ((key, obs) # m) = ?T \<union> tls_confirmed m"
    by (auto simp: tls_confirmed_def)
  have "dns_undo_step obs wa = wa\<lparr>
     DNSLookupSuccessWithInvalidAddresses := DNSLookupSuccessWithInvalidAddresses wa - ?T,
     DNSLookupSuccessWithValidAddress := DNSLookupSuccessWithValidAddress wa \<union> ?T\<rparr>"
    by (cases "DNSTransactionID obs"; cases "TLSHandshakeFailure obs")
      (simp_all add: dns_undo_step_def Let_def positive_singleton)
  with Cons.IH show ?case by (simp add: e split Un_assoc Diff_eq Int_assoc Compl_Un del: Collect_disj_eq)
qed

lemma dns_classic_step_eq:
  assumes "DNSTransactionID obs = Some txid" and "DNSResolvedAddrs obs = Some addrs" and "txid \<notin> seen"
  shows "dns_classic_step lookupper obs (seen, wa) = Some (insert txid seen, wa\<lparr>
     DNSLookupSuccessWithInvalidAddressesClassic := DNSLookupSuccessWithInvalidAddressesClassic wa \<union>
       sel (lookup_agrees lookupper False obs) txid,
     DNSLookupSuccessWithValidAddressClassic := DNSLookupSuccessWithValidAddressClassic wa \<union>
       sel (lookup_agrees lookupper True obs) txid\<rparr>)"
  using assms
  by (cases "ControlDNSResolvedAddrs obs"; cases "past_depth_zero obs")
    (simp_all add: dns_classic_step_def lookup_agrees_def addrs_agree_def set_Contains_def Let_def)

lemma dns_classic_loop:
  assumes "list_all dns_success_wf xs"
  shows "map_option snd (for_each (dns_classic_step lookupper) xs (seen, wa)) = Some (wa\<lparr>
     DNSLookupSuccessWithInvalidAddressesClassic := DNSLookupSuccessWithInvalidAddressesClassic wa \<union>
       dns_ids (firsts seen xs) (lookup_agrees lookupper False),
     DNSLookupSuccessWithValidAddressClassic := DNSLookupSuccessWithValidAddressClassic wa \<union>
       dns_ids (firsts seen xs) (lookup_agrees lookupper True)\<rparr>)"
  using assms
proof (induction xs arbitrary: seen wa)
  case Nil
  then show ?case by simp
next
  case (Cons obs xs)
  then obtain txid addrs where obs: "DNSTransactionID obs = Some txid" "DNSResolvedAddrs obs = Some addrs"
    by (auto simp: dns_success_wf_def split: option.splits)
  show ?case
  proof (cases "txid \<in> seen")
    case True
    with obs have "dns_classic_step lookupper obs (seen, wa) = Some (seen, wa)"
      by (simp add: dns_classic_step_def set_Contains_def)
    with Cons True obs show ?thesis by (simp del: map_option_eq_Some)
  next
    case False
    with Cons obs show ?thesis by (simp add: dns_classic_step_eq Un_assoc del: map_option_eq_Some)
  qed
qed

section \<open>The result of the analysis\<close>

text \<open>All the metrics but those of the final response, as sets over the observations.\<close>

definition analysis_sets :: "GeoIPASNLookupper \<Rightarrow> WebObservationsContainer \<Rightarrow> WebAnalysis" where
  "analysis_sets lookupper c =
     (let succ = firsts {} (DNSLookupSuccesses c); fail = firsts {} (DNSLookupFailures c);
          m = KnownTCPEndpoints c in
      WebAnalysis_zero\<lparr>
        wa_ControlExpectations := ControlExpectations c,
        DNSLookupSuccess := dns_ids succ (\<lambda>obs. \<not> past_depth_zero obs),
        DNSLookupSuccessWithInvalidAddresses := dns_ids succ (lookup_agrees lookupper False) - tls_confirmed m,
        DNSLookupSuccessWithValidAddress := dns_ids succ (lookup_agrees lookupper True) \<union> tls_confirmed m,
        DNSLookupSuccessWithBogonAddresses :=
          dns_ids succ (\<lambda>obs. \<not> past_depth_zero obs \<and> IPAddressBogon obs = Some True),
        DNSLookupSuccessWithInvalidAddressesClassic := dns_ids succ (lookup_agrees lookupper False),
        DNSLookupSuccessWithValidAddressClassic := dns_ids succ (lookup_agrees lookupper True),
        DNSLookupUnexpectedFailure := dns_ids fail (\<lambda>obs. dns_verdict obs = UnexpectedFailure),
        DNSLookupUnexplainedFailure := dns_ids fail (\<lambda>obs. dns_verdict obs = UnexplainedFailure),
        DNSExperimentFailure := Option.bind (find dns_experiment_failure fail) DNSLookupFailure,
        DNSLookupExpectedFailure := dns_ids fail (\<lambda>obs. dns_verdict obs = ExpectedFailure),
        DNSLookupExpectedSuccess := dns_ids fail dns_expected_success,
        TCPConnectExpectedFailure := ids m (\<lambda>obs. tcp_verdict obs = ExpectedFailure),
        TCPConnectUnexpectedFailure := ids m (\<lambda>obs. tcp_verdict obs = UnexpectedFailure),
        TCPConnectUnexpectedFailureDuringWebFetch :=
          ids m (\<lambda>obs. tcp_verdict obs = UnexpectedFailure \<and> web_fetch obs),
        TCPConnectUnexpectedFailureDuringConnectivityCheck :=
          ids m (\<lambda>obs. tcp_verdict obs = UnexpectedFailure \<and> connectivity_check obs),
        TCPConnectUnexplainedFailure := ids m (\<lambda>obs. tcp_verdict obs = UnexplainedFailure),
        TCPConnectUnexplainedFailureDuringWebFetch :=
          ids m (\<lambda>obs. tcp_verdict obs = UnexplainedFailure \<and> web_fetch obs),
        TCPConnectUnexplainedFailureDuringConnectivityCheck :=
          ids m (\<lambda>obs. tcp_verdict obs = UnexplainedFailure \<and> connectivity_check obs),
        TLSHandshakeExpectedFailure := ids m (\<lambda>obs. tls_verdict obs = ExpectedFailure),
        TLSHandshakeUnexpectedFailure := ids m (\<lambda>obs. tls_verdict obs = UnexpectedFailure),
        TLSHandshakeUnexpectedFailureDuringWebFetch :=
          ids m (\<lambda>obs. tls_verdict obs = UnexpectedFailure \<and> web_fetch obs),
        TLSHandshakeUnexpectedFailureDuringConnectivityCheck :=
          ids m (\<lambda>obs. tls_verdict obs = UnexpectedFailure \<and> connectivity_check obs),
        TLSHandshakeUnexplainedFailure := ids m (\<lambda>obs. tls_verdict obs = UnexplainedFailure),
        TLSHandshakeUnexplainedFailureDuringWebFetch :=
          ids m (\<lambda>obs. tls_verdict obs = UnexplainedFailure \<and> web_fetch obs),
        TLSHandshakeUnexplainedFailureDuringConnectivityCheck :=
          ids m (\<lambda>obs. tls_verdict obs = UnexplainedFailure \<and> connectivity_check obs),
        HTTPRoundTripUnexpectedFailure := ids m (\<lambda>obs. http_verdict obs = UnexpectedFailure),
        HTTPRoundTripUnexplainedFailure := ids m (\<lambda>obs. http_verdict obs = UnexplainedFailure)\<rparr>)"

lemma dnsComputeSuccessMetrics_eq:
  assumes "list_all dns_success_wf (DNSLookupSuccesses c)"
  shows "dnsComputeSuccessMetrics lookupper c wa =
    map_option (\<lambda>wa. fold (\<lambda>(_, obs). dns_undo_step obs) (KnownTCPEndpoints c) wa)
      (map_option snd (for_each (dns_success_step lookupper) (DNSLookupSuccesses c) ({}, wa)))"
  by (cases "for_each (dns_success_step lookupper) (DNSLookupSuccesses c) ({}, wa)")
    (auto simp: dnsComputeSuccessMetrics_def)

lemma analysis_eq:
  assumes "observations_wf c"
  shows "AnalyzeWebObservationsWithoutLinearAnalysis lookupper uni c =
    httpComputeFinalResponseMetrics uni c (analysis_sets lookupper c)"
proof -
  have wf: "list_all dns_success_wf (DNSLookupSuccesses c)" "list_all dns_failure_wf (DNSLookupFailures c)"
    using assms by (auto simp: observations_wf_def)
  note keyed = observations_wf_keyed [OF assms]
  show ?thesis
    unfolding AnalyzeWebObservationsWithoutLinearAnalysis_def
    by (simp add: dnsComputeSuccessMetrics_eq [OF wf(1)] dns_success_loop [OF wf(1)] dns_undo_loop
        dnsComputeSuccessMetricsClassic_def dns_classic_loop [OF wf(1)]
        dnsComputeFailureMetrics_def dns_failure_loop [OF wf(2)]
        tcpComputeMetrics_def tcp_loop [OF keyed] tlsComputeMetrics_def tls_loop [OF keyed]
        httpComputeFailureMetrics_def http_failure_loop [OF keyed]
        analysis_sets_def WebAnalysis_zero_def Let_def del: map_option_eq_Some)
qed

text \<open>The final response touches the fields of the final response only.\<close>

definition erase_final :: "WebAnalysis \<Rightarrow> WebAnalysis" where
  "erase_final wa = wa\<lparr>
     HTTPFinalResponseSuccessTLSWithoutControl := None, HTTPFinalResponseSuccessTLSWithControl := None,
     HTTPFinalResponseSuccessTCPWithoutControl := None, HTTPFinalResponseSuccessTCPWithControl := None,
     HTTPFinalResponseDiffBodyProportionFactor := None, HTTPFinalResponseDiffStatusCodeMatch := None,
     HTTPFinalResponseDiffTitleDifferentLongWords := None,
     HTTPFinalResponseDiffUncommonHeadersIntersection := None\<rparr>"

lemma diff_steps_erase:
  "erase_final (snd (httpDiffBodyProportionFactor obs wa)) = erase_final wa"
  "erase_final (snd (httpDiffStatusCodeMatch obs wa)) = erase_final wa"
  "erase_final (snd (httpDiffUncommonHeadersIntersection uni obs wa)) = erase_final wa"
  "erase_final (snd (httpDiffTitleDifferentLongWords uni obs wa)) = erase_final wa"
  by (simp_all add: httpDiffBodyProportionFactor_def httpDiffStatusCodeMatch_def Let_def
      httpDiffUncommonHeadersIntersection_def httpDiffTitleDifferentLongWords_def erase_final_def)

lemma success_updates_erase:
  "erase_final (wa\<lparr>HTTPFinalResponseSuccessTLSWithoutControl := x\<rparr>) = erase_final wa"
  "erase_final (wa\<lparr>HTTPFinalResponseSuccessTLSWithControl := x\<rparr>) = erase_final wa"
  "erase_final (wa\<lparr>HTTPFinalResponseSuccessTCPWithoutControl := x\<rparr>) = erase_final wa"
  "erase_final (wa\<lparr>HTTPFinalResponseSuccessTCPWithControl := x\<rparr>) = erase_final wa"
  by (simp_all add: erase_final_def)

lemma httpHandleFinalResponse_erase:
  "httpHandleFinalResponse uni obs wa = Some wa' \<Longrightarrow> erase_final wa' = erase_final wa"
  by (auto simp: httpHandleFinalResponse_def Let_def diff_steps_erase success_updates_erase
      split: if_splits option.splits Option.bind_splits)

lemma final_response_erase:
  "httpComputeFinalResponseMetrics uni c wa = Some wa' \<Longrightarrow> erase_final wa' = erase_final wa"
  by (auto simp: httpComputeFinalResponseMetrics_def dest: httpHandleFinalResponse_erase split: option.splits)

lemma analysis_sets_result:
  assumes "observations_wf c"
    and "AnalyzeWebObservationsWithoutLinearAnalysis lookupper uni c = Some wa"
  shows "erase_final wa = erase_final (analysis_sets lookupper c)"
  using assms final_response_erase by (simp add: analysis_eq)

text \<open>What \<open>erase_final\<close> keeps, for the projection of \<open>analysis_sets_result\<close> to a field.\<close>

lemma erase_final_fields:
  assumes "erase_final wa = erase_final wa'"
  shows "TCPConnectExpectedFailure wa = TCPConnectExpectedFailure wa'"
    "TCPConnectUnexpectedFailure wa = TCPConnectUnexpectedFailure wa'"
    "TCPConnectUnexplainedFailure wa = TCPConnectUnexplainedFailure wa'"
    "TCPConnectUnexpectedFailureDuringWebFetch wa = TCPConnectUnexpectedFailureDuringWebFetch wa'"
    "TCPConnectUnexpectedFailureDuringConnectivityCheck wa = TCPConnectUnexpectedFailureDuringConnectivityCheck wa'"
    "TLSHandshakeExpectedFailure wa = TLSHandshakeExpectedFailure wa'"
    "TLSHandshakeUnexpectedFailure wa = TLSHandshakeUnexpectedFailure wa'"
    "TLSHandshakeUnexplainedFailure wa = TLSHandshakeUnexplainedFailure wa'"
    "HTTPRoundTripUnexpectedFailure wa = HTTPRoundTripUnexpectedFailure wa'"
    "HTTPRoundTripUnexplainedFailure wa = HTTPRoundTripUnexplainedFailure wa'"
    "DNSLookupSuccess wa = DNSLookupSuccess wa'"
    "DNSLookupSuccessWithInvalidAddresses wa = DNSLookupSuccessWithInvalidAddresses wa'"
    "DNSLookupSuccessWithValidAddress wa = DNSLookupSuccessWithValidAddress wa'"
    "DNSLookupSuccessWithInvalidAddressesClassic wa = DNSLookupSuccessWithInvalidAddressesClassic wa'"
    "DNSLookupSuccessWithValidAddressClassic wa = DNSLookupSuccessWithValidAddressClassic wa'"
    "DNSLookupSuccessWithBogonAddresses wa = DNSLookupSuccessWithBogonAddresses wa'"
    "DNSLookupUnexpectedFailure wa = DNSLookupUnexpectedFailure wa'"
    "DNSLookupUnexplainedFailure wa = DNSLookupUnexplainedFailure wa'"
    "DNSLookupExpectedFailure wa = DNSLookupExpectedFailure wa'"
    "DNSLookupExpectedSuccess wa = DNSLookupExpectedSuccess wa'"
    "DNSExperimentFailure wa = DNSExperimentFailure wa'"
  using assms by (cases wa; cases wa'; simp add: erase_final_def)+

lemma ids_unique:
  assumes "gmap_wf m" and "\<And>obs. \<not> (P obs \<and> Q obs)"
  shows "ids m P \<inter> ids m Q = {}"
  using assms by (auto simp: ids_def dest: eq_key_imp_eq_value)

lemma firsts_unique:
  assumes "x \<in> set (firsts seen xs)" "y \<in> set (firsts seen xs)"
    and "DNSTransactionID x = Some t" "DNSTransactionID y = Some t"
  shows "x = y"
proof -
  have notseen: "the (DNSTransactionID z) \<notin> seen" if "z \<in> set (firsts seen xs)" for z seen xs
    using that by (induction xs arbitrary: seen) (auto split: if_splits)
  show ?thesis
    using assms(1,2)
  proof (induction xs arbitrary: seen)
    case Nil
    then show ?case by simp
  next
    case (Cons obs xs)
    show ?case
    proof (cases "the (DNSTransactionID obs) \<in> seen")
      case True
      with Cons show ?thesis by simp
    next
      case False
      let ?seen = "insert (the (DNSTransactionID obs)) seen"
      have "z = obs" if "z \<in> {x, y}" "obs \<in> {x, y}" for z
        using notseen [of z ?seen xs] that Cons.prems False assms(3,4) by auto
      then show ?thesis using Cons False by auto
    qed
  qed
qed

lemma dns_ids_unique:
  assumes "\<And>obs. \<not> (P obs \<and> Q obs)"
  shows "dns_ids (firsts seen xs) P \<inter> dns_ids (firsts seen xs) Q = {}"
  using assms firsts_unique by (fastforce simp: dns_ids_def)

definition fails :: "string option \<Rightarrow> bool" where
  "fails f \<longleftrightarrow> f \<noteq> None \<and> f \<noteq> Some ''''"

lemma past_depth_zero_iff: "past_depth_zero obs \<longleftrightarrow> TagDepth obs \<noteq> Some 0"
  by (auto simp: past_depth_zero_def split: option.splits)

lemma verdict_of_iff:
  "verdict_of r i p c = ExpectedFailure \<longleftrightarrow> fails p \<and> \<not> r \<and> fails c"
  "verdict_of r i p c = UnexpectedFailure \<longleftrightarrow> fails p \<and> \<not> r \<and> c = Some '''' \<and> \<not> i"
  "verdict_of r i p c = UnexplainedFailure \<longleftrightarrow> fails p \<and> r \<and> \<not> i"
  by (auto simp: verdict_of_def fails_def split: option.splits)

lemma http_verdict_iff:
  "http_verdict obs = UnexpectedFailure \<longleftrightarrow> fails (HTTPFailure obs) \<and> ControlHTTPFailure obs = Some ''''"
  "http_verdict obs = UnexplainedFailure \<longleftrightarrow> fails (HTTPFailure obs) \<and> ControlHTTPFailure obs = None"
  by (auto simp: http_verdict_def fails_def split: option.splits)

lemma dns_verdict_iff:
  "dns_verdict obs = ExpectedFailure \<longleftrightarrow> fails (DNSLookupFailure obs) \<and> dns_considered obs \<and> TagDepth obs = Some 0 \<and>
     (fails (ControlDNSLookupFailure obs) \<or> ControlDNSLookupFailure obs = Some '''' \<and>
      DNSLookupFailure obs = Some FailureDNSNoAnswer \<and> control_has_no_addrs obs)"
  "dns_verdict obs = UnexpectedFailure \<longleftrightarrow> fails (DNSLookupFailure obs) \<and> dns_considered obs \<and> TagDepth obs = Some 0 \<and>
     ControlDNSLookupFailure obs = Some '''' \<and>
     \<not> (DNSLookupFailure obs = Some FailureDNSNoAnswer \<and> control_has_no_addrs obs)"
  "dns_verdict obs = UnexplainedFailure \<longleftrightarrow> fails (DNSLookupFailure obs) \<and> dns_considered obs \<and> TagDepth obs \<noteq> Some 0"
  by (auto simp: dns_verdict_def fails_def past_depth_zero_iff split: option.splits)

lemma some_true_iff: "some_true v \<longleftrightarrow> v = Some True"
  by (auto simp: some_true_def split: option.splits)

lemma httpHandleFinalResponse_panics:
  "httpHandleFinalResponse uni obs wa = None \<longleftrightarrow> ControlHTTPFailure obs \<noteq> None \<and> fails (TLSHandshakeFailure obs)"
  by (auto simp: httpHandleFinalResponse_def fails_def Let_def IsNone_def split: option.splits)

section \<open>Properties\<close>

text \<open>
  C27: The analysis of well-formed observations panics in one case only: the final response has
  control information and its endpoint recorded a failed TLS handshake, which the assertion in
  \<open>httpHandleFinalResponse\<close> excludes. No \<open>Unwrap\<close> panics.
\<close>

theorem analysis_panics_iff:
  assumes "observations_wf c"
  shows "AnalyzeWebObservationsWithLinearAnalysis lookupper uni c = None \<longleftrightarrow>
    (case find (\<lambda>(_, obs). HTTPResponseIsFinal obs = Some True) (KnownTCPEndpoints c) of
       None \<Rightarrow> False
     | Some (_, obs) \<Rightarrow> ControlHTTPFailure obs \<noteq> None \<and> fails (TLSHandshakeFailure obs))"
  by (cases "find (\<lambda>(_, obs). HTTPResponseIsFinal obs = Some True) (KnownTCPEndpoints c)")
    (auto simp: AnalyzeWebObservationsWithLinearAnalysis_def analysis_eq [OF assms] bind_eq_None_conv
      httpComputeFinalResponseMetrics_def some_true_iff httpHandleFinalResponse_panics)

theorem analysis_panics_iff_witness:
  "\<exists>c. IngestWebMeasurement (\<lambda>_. None) id (\<lambda>_. Inr ''example.com'') sample_measurement = Some (Inr c) \<and>
     (AnalyzeWebObservationsWithLinearAnalysis (\<lambda>_. None) id c = None \<longleftrightarrow>
      (case find (\<lambda>(_, obs). HTTPResponseIsFinal obs = Some True) (KnownTCPEndpoints c) of
         None \<Rightarrow> False
       | Some (_, obs) \<Rightarrow> ControlHTTPFailure obs \<noteq> None \<and> fails (TLSHandshakeFailure obs)))"
proof -
  obtain c where c: "IngestWebMeasurement (\<lambda>_. None) id (\<lambda>_. Inr ''example.com'') sample_measurement = Some (Inr c)"
    using sample_ingested by auto
  then have "observations_wf c" by (intro container_wf_observations ingested_wf)
  from analysis_panics_iff [OF this] c show ?thesis by blast
qed

text \<open>
  The TCP failures are classified by comparing the probe with the control. At depth zero a
  failure is expected when the control failed too and unexpected when the control succeeded; past
  depth zero, where there is no control, it is unexplained. A failure that looks like missing IPv6
  is neither unexpected nor unexplained. No transaction is in two classes, and an unexpected
  failure is refined by the purpose of the transaction.
\<close>

theorem tcp_failures_classified:
  assumes "observations_wf c"
    and "AnalyzeWebObservationsWithoutLinearAnalysis lookupper uni c = Some wa"
  shows "(txid \<in> TCPConnectExpectedFailure wa \<longleftrightarrow> (\<exists>obs. (txid, obs) \<in> set (KnownTCPEndpoints c) \<and>
      TagDepth obs = Some 0 \<and> fails (TCPConnectFailure obs) \<and> fails (ControlTCPConnectFailure obs))) \<and>
    (txid \<in> TCPConnectUnexpectedFailure wa \<longleftrightarrow> (\<exists>obs. (txid, obs) \<in> set (KnownTCPEndpoints c) \<and>
      TagDepth obs = Some 0 \<and> fails (TCPConnectFailure obs) \<and> ControlTCPConnectFailure obs = Some '''' \<and>
      \<not> utilsTCPConnectFailureSeemsMisconfiguredIPv6 obs)) \<and>
    (txid \<in> TCPConnectUnexplainedFailure wa \<longleftrightarrow> (\<exists>obs. (txid, obs) \<in> set (KnownTCPEndpoints c) \<and>
      TagDepth obs \<noteq> Some 0 \<and> fails (TCPConnectFailure obs) \<and>
      \<not> utilsTCPConnectFailureSeemsMisconfiguredIPv6 obs)) \<and>
    TCPConnectExpectedFailure wa \<inter> TCPConnectUnexpectedFailure wa = {} \<and>
    TCPConnectExpectedFailure wa \<inter> TCPConnectUnexplainedFailure wa = {} \<and>
    TCPConnectUnexpectedFailure wa \<inter> TCPConnectUnexplainedFailure wa = {} \<and>
    TCPConnectUnexpectedFailureDuringWebFetch wa \<inter> TCPConnectUnexpectedFailureDuringConnectivityCheck wa = {} \<and>
    TCPConnectUnexpectedFailureDuringWebFetch wa \<union> TCPConnectUnexpectedFailureDuringConnectivityCheck wa
      \<subseteq> TCPConnectUnexpectedFailure wa"
proof -
  note fields = erase_final_fields [OF analysis_sets_result [OF assms]]
  have "gmap_wf (KnownTCPEndpoints c)" using assms(1) by (simp add: observations_wf_def)
  note unique = ids_unique [OF this]
  show ?thesis
    unfolding fields analysis_sets_def Let_def
    by (simp add: unique) (auto simp: ids_def tcp_verdict_def verdict_of_iff past_depth_zero_iff)
qed

text \<open>A container with one TCP endpoint that the probe could not reach and the control could.\<close>

definition sample_container :: WebObservationsContainer where
  "sample_container = NewWebObservationsContainer\<lparr>
     KnownTCPEndpoints := [(2, (tcp_obs sample_connect (WebObservation_zero\<lparr>
       IPAddress := Some ''93.184.216.34'', IPAddressBogon := Some (IsBogon ''93.184.216.34'')\<rparr>))\<lparr>
         ControlTCPConnectFailure := Some ''''\<rparr>)]\<rparr>"

lemma sample_container_wf: "observations_wf sample_container"
  by (simp add: sample_container_def observations_wf_def NewWebObservationsContainer_def endpoint_wf_def
      stage_failure_def tcp_obs_def WebObservation_zero_def sample_connect_def Let_def)

lemma sample_container_analysis:
  "\<exists>wa. AnalyzeWebObservationsWithoutLinearAnalysis lookupper uni sample_container = Some wa"
  unfolding analysis_eq [OF sample_container_wf]
  by (simp add: httpComputeFinalResponseMetrics_def sample_container_def tcp_obs_def WebObservation_zero_def some_true_iff Let_def)

lemma sample_depth: "utilsExtractTagDepth [''depth=0'', ''fetch_body=true''] = Some 0"
  by code_simp

theorem tcp_failures_classified_witness:
  "\<exists>wa. AnalyzeWebObservationsWithoutLinearAnalysis (\<lambda>_. None) id sample_container = Some wa \<and>
     2 \<in> TCPConnectUnexpectedFailure wa \<and> 2 \<notin> TCPConnectExpectedFailure wa"
proof -
  obtain wa where wa: "AnalyzeWebObservationsWithoutLinearAnalysis (\<lambda>_. None) id sample_container = Some wa"
    using sample_container_analysis by blast
  from tcp_failures_classified [OF sample_container_wf wa, of 2] wa show ?thesis
    by (auto simp: sample_container_def tcp_obs_def WebObservation_zero_def sample_connect_def fails_def Let_def
        sample_depth utilsStringPointerToString_def utilsTCPConnectFailureSeemsMisconfiguredIPv6_def
        FailureNetworkUnreachable_def FailureHostUnreachable_def)
qed

text \<open>
  The TLS failures are classified in the same way, and an HTTP failure is unexpected when the
  control's final response succeeded and unexplained when there is no control at all, whatever the
  redirect depth. No transaction is in two classes.
\<close>

theorem tls_http_failures_classified:
  assumes "observations_wf c"
    and "AnalyzeWebObservationsWithoutLinearAnalysis lookupper uni c = Some wa"
  shows "(txid \<in> TLSHandshakeExpectedFailure wa \<longleftrightarrow> (\<exists>obs. (txid, obs) \<in> set (KnownTCPEndpoints c) \<and>
      TagDepth obs = Some 0 \<and> fails (TLSHandshakeFailure obs) \<and> fails (ControlTLSHandshakeFailure obs))) \<and>
    (txid \<in> TLSHandshakeUnexpectedFailure wa \<longleftrightarrow> (\<exists>obs. (txid, obs) \<in> set (KnownTCPEndpoints c) \<and>
      TagDepth obs = Some 0 \<and> fails (TLSHandshakeFailure obs) \<and> ControlTLSHandshakeFailure obs = Some '''')) \<and>
    (txid \<in> TLSHandshakeUnexplainedFailure wa \<longleftrightarrow> (\<exists>obs. (txid, obs) \<in> set (KnownTCPEndpoints c) \<and>
      TagDepth obs \<noteq> Some 0 \<and> fails (TLSHandshakeFailure obs))) \<and>
    (txid \<in> HTTPRoundTripUnexpectedFailure wa \<longleftrightarrow> (\<exists>obs. (txid, obs) \<in> set (KnownTCPEndpoints c) \<and>
      fails (HTTPFailure obs) \<and> ControlHTTPFailure obs = Some '''')) \<and>
    (txid \<in> HTTPRoundTripUnexplainedFailure wa \<longleftrightarrow> (\<exists>obs. (txid, obs) \<in> set (KnownTCPEndpoints c) \<and>
      fails (HTTPFailure obs) \<and> ControlHTTPFailure obs = None)) \<and>
    TLSHandshakeExpectedFailure wa \<inter> TLSHandshakeUnexpectedFailure wa = {} \<and>
    TLSHandshakeExpectedFailure wa \<inter> TLSHandshakeUnexplainedFailure wa = {} \<and>
    TLSHandshakeUnexpectedFailure wa \<inter> TLSHandshakeUnexplainedFailure wa = {} \<and>
    HTTPRoundTripUnexpectedFailure wa \<inter> HTTPRoundTripUnexplainedFailure wa = {}"
proof -
  note fields = erase_final_fields [OF analysis_sets_result [OF assms]]
  have "gmap_wf (KnownTCPEndpoints c)" using assms(1) by (simp add: observations_wf_def)
  note unique = ids_unique [OF this]
  show ?thesis
    unfolding fields analysis_sets_def Let_def
    by (simp add: unique) (auto simp: ids_def tls_verdict_def verdict_of_iff http_verdict_iff past_depth_zero_iff)
qed

theorem tls_http_failures_classified_witness:
  "\<exists>wa. AnalyzeWebObservationsWithoutLinearAnalysis (\<lambda>_. None) id sample_container = Some wa \<and>
     2 \<notin> TLSHandshakeUnexpectedFailure wa \<and> 2 \<notin> HTTPRoundTripUnexpectedFailure wa"
proof -
  obtain wa where wa: "AnalyzeWebObservationsWithoutLinearAnalysis (\<lambda>_. None) id sample_container = Some wa"
    using sample_container_analysis by blast
  from tls_http_failures_classified [OF sample_container_wf wa, of 2] wa show ?thesis
    by (auto simp: sample_container_def tcp_obs_def WebObservation_zero_def fails_def Let_def)
qed

text \<open>
  The DNS failures are classified by the first observation of each transaction. Failures of
  DNS-over-HTTPS and of AAAA queries without answers are left out; at depth zero a failure is
  expected when the control failed or, for \<open>dns_no_answer\<close>, resolved no address, and unexpected when
  the control resolved addresses; past depth zero it is unexplained. No transaction is in two
  classes.
\<close>

theorem dns_failures_classified:
  assumes "observations_wf c"
    and "AnalyzeWebObservationsWithoutLinearAnalysis lookupper uni c = Some wa"
  shows "(txid \<in> DNSLookupExpectedFailure wa \<longleftrightarrow> (\<exists>obs \<in> set (firsts {} (DNSLookupFailures c)).
      DNSTransactionID obs = Some txid \<and> dns_considered obs \<and> TagDepth obs = Some 0 \<and> fails (DNSLookupFailure obs) \<and>
      (fails (ControlDNSLookupFailure obs) \<or> ControlDNSLookupFailure obs = Some '''' \<and>
       DNSLookupFailure obs = Some FailureDNSNoAnswer \<and> control_has_no_addrs obs))) \<and>
    (txid \<in> DNSLookupUnexpectedFailure wa \<longleftrightarrow> (\<exists>obs \<in> set (firsts {} (DNSLookupFailures c)).
      DNSTransactionID obs = Some txid \<and> dns_considered obs \<and> TagDepth obs = Some 0 \<and> fails (DNSLookupFailure obs) \<and>
      ControlDNSLookupFailure obs = Some '''' \<and>
      \<not> (DNSLookupFailure obs = Some FailureDNSNoAnswer \<and> control_has_no_addrs obs))) \<and>
    (txid \<in> DNSLookupUnexplainedFailure wa \<longleftrightarrow> (\<exists>obs \<in> set (firsts {} (DNSLookupFailures c)).
      DNSTransactionID obs = Some txid \<and> dns_considered obs \<and> TagDepth obs \<noteq> Some 0 \<and> fails (DNSLookupFailure obs))) \<and>
    DNSLookupExpectedFailure wa \<inter> DNSLookupUnexpectedFailure wa = {} \<and>
    DNSLookupExpectedFailure wa \<inter> DNSLookupUnexplainedFailure wa = {} \<and>
    DNSLookupUnexpectedFailure wa \<inter> DNSLookupUnexplainedFailure wa = {}"
proof -
  note fields = erase_final_fields [OF analysis_sets_result [OF assms]]
  show ?thesis
    unfolding fields analysis_sets_def Let_def
    by (simp add: dns_ids_unique) (auto simp: dns_ids_def dns_verdict_iff)
qed

definition sample_nxdomain :: WebObservationsContainer where
  "sample_nxdomain = NewWebObservationsContainer\<lparr>
     DNSLookupFailures := [(dns_failure_obs (sample_query\<lparr>dns_Failure := Some ''dns_nxdomain_error''\<rparr>))\<lparr>
       ControlDNSLookupFailure := Some ''''\<rparr>]\<rparr>"

theorem dns_failures_classified_witness:
  "\<exists>wa. AnalyzeWebObservationsWithoutLinearAnalysis (\<lambda>_. None) id sample_nxdomain = Some wa \<and>
     1 \<in> DNSLookupUnexpectedFailure wa"
proof -
  have wf: "observations_wf sample_nxdomain"
    by (simp add: sample_nxdomain_def observations_wf_def NewWebObservationsContainer_def dns_failure_wf_def
        dns_failure_obs_def WebObservation_zero_def Let_def)
  have depth: "utilsExtractTagDepth [''depth=0''] = Some 0" by code_simp
  obtain wa where wa: "AnalyzeWebObservationsWithoutLinearAnalysis (\<lambda>_. None) id sample_nxdomain = Some wa"
    unfolding analysis_eq [OF wf]
    by (simp add: httpComputeFinalResponseMetrics_def sample_nxdomain_def NewWebObservationsContainer_def)
  from dns_failures_classified [OF wf wa, of 1] wa show ?thesis
    by (auto simp: sample_nxdomain_def NewWebObservationsContainer_def dns_failure_obs_def WebObservation_zero_def
        sample_query_def fails_def depth Let_def dns_considered_def utilsStringPointerToString_def
        utilsDNSEngineIsDNSOverHTTPS_def utilsDNSLookupFailureIsDNSNoAnswerForAAAA_def FailureDNSNoAnswer_def)
qed

text \<open>
  A lookup of the first request is valid when one of its addresses, or one of their AS numbers,
  is among those of the control, or when a TLS handshake with an address it returned succeeded, and
  invalid when none of this holds and there is control information. The valid and the invalid
  lookups are disjoint, also in the relaxed classification that ignores TLS.
\<close>

lemma dns_lookups_valid_or_invalid:
  assumes "observations_wf c"
    and "AnalyzeWebObservationsWithoutLinearAnalysis lookupper uni c = Some wa"
  shows "DNSLookupSuccessWithValidAddress wa =
      dns_ids (firsts {} (DNSLookupSuccesses c)) (lookup_agrees lookupper True) \<union> tls_confirmed (KnownTCPEndpoints c) \<and>
    DNSLookupSuccessWithInvalidAddresses wa =
      dns_ids (firsts {} (DNSLookupSuccesses c)) (lookup_agrees lookupper False) - tls_confirmed (KnownTCPEndpoints c) \<and>
    DNSLookupSuccessWithValidAddress wa \<inter> DNSLookupSuccessWithInvalidAddresses wa = {} \<and>
    DNSLookupSuccessWithValidAddressClassic wa \<inter> DNSLookupSuccessWithInvalidAddressesClassic wa = {} \<and>
    DNSLookupSuccessWithInvalidAddresses wa \<subseteq> DNSLookupSuccess wa"
proof -
  note fields = erase_final_fields [OF analysis_sets_result [OF assms]]
  have "dns_ids (firsts {} (DNSLookupSuccesses c)) (lookup_agrees lookupper True) \<inter>
      dns_ids (firsts {} (DNSLookupSuccesses c)) (lookup_agrees lookupper False) = {}"
    by (rule dns_ids_unique) (auto simp: lookup_agrees_def split: option.splits)
  then show ?thesis
    unfolding fields analysis_sets_def Let_def
    by (auto simp: dns_ids_def lookup_agrees_def)
qed

text \<open>The element that a loop with an early exit finds, when only one can be found.\<close>

lemma find_unique_perm:
  assumes "mset xs = mset ys" and "\<And>x y. x \<in> set xs \<Longrightarrow> y \<in> set xs \<Longrightarrow> P x \<Longrightarrow> P y \<Longrightarrow> x = y"
  shows "find P xs = find P ys"
proof -
  have same: "set xs = set ys" using assms(1) by (metis set_mset_mset)
  show ?thesis
  proof (cases "find P xs")
    case None
    with same show ?thesis by (metis find_None_iff)
  next
    case (Some x)
    then have x: "x \<in> set xs" "P x" by (auto simp: find_Some_iff)
    then obtain y where y: "find P ys = Some y" using same by (metis find_None_iff not_Some_eq)
    then have "y \<in> set ys" "P y" by (auto simp: find_Some_iff)
    with x same assms(2) Some y show ?thesis by auto
  qed
qed

text \<open>
  The whole analysis does not depend on the order in which Go iterates over the map of the
  endpoints, provided that at most one endpoint has a final response, which is the case the source
  relies on.
\<close>

theorem analysis_deterministic:
  assumes "observations_wf c" and perm: "mset (KnownTCPEndpoints c') = mset (KnownTCPEndpoints c)"
    and rest: "DNSLookupFailures c' = DNSLookupFailures c" "DNSLookupSuccesses c' = DNSLookupSuccesses c"
      "ControlExpectations c' = ControlExpectations c"
    and one: "\<forall>(t1, o1) \<in> set (KnownTCPEndpoints c). \<forall>(t2, o2) \<in> set (KnownTCPEndpoints c).
      HTTPResponseIsFinal o1 = Some True \<and> HTTPResponseIsFinal o2 = Some True \<longrightarrow> t1 = t2"
  shows "AnalyzeWebObservationsWithLinearAnalysis lookupper uni c' =
    AnalyzeWebObservationsWithLinearAnalysis lookupper uni c"
proof -
  have same: "set (KnownTCPEndpoints c') = set (KnownTCPEndpoints c)" using perm by (metis set_mset_mset)
  have wf': "observations_wf c'"
    using assms(1) rest same mset_eq_imp_distinct_iff [of "gmap_keys (KnownTCPEndpoints c')" "gmap_keys (KnownTCPEndpoints c)"] perm
    by (simp add: observations_wf_def)
  have "find (\<lambda>(_, obs). some_true (HTTPResponseIsFinal obs)) (KnownTCPEndpoints c) =
      find (\<lambda>(_, obs). some_true (HTTPResponseIsFinal obs)) (KnownTCPEndpoints c')"
  proof (rule find_unique_perm)
    show "mset (KnownTCPEndpoints c) = mset (KnownTCPEndpoints c')" using perm by simp
    fix x y
    assume x: "x \<in> set (KnownTCPEndpoints c)" "case x of (_, obs) \<Rightarrow> some_true (HTTPResponseIsFinal obs)"
      and y: "y \<in> set (KnownTCPEndpoints c)" "case y of (_, obs) \<Rightarrow> some_true (HTTPResponseIsFinal obs)"
    then have "fst x = fst y" using one by (fastforce simp: some_true_iff)
    with x y assms(1) show "x = y"
      by (auto simp: observations_wf_def dest: eq_key_imp_eq_value)
  qed
  then have "httpComputeFinalResponseMetrics uni c' = httpComputeFinalResponseMetrics uni c"
    by (auto simp: httpComputeFinalResponseMetrics_def)
  moreover have "analysis_sets lookupper c' = analysis_sets lookupper c"
  proof -
    have "tls_confirmed (KnownTCPEndpoints c') = tls_confirmed (KnownTCPEndpoints c)"
      by (simp add: tls_confirmed_def same)
    then show ?thesis using rest ids_perm [OF same] by (simp add: analysis_sets_def Let_def)
  qed
  moreover have "NewLinearWebAnalysis c' = NewLinearWebAnalysis c"
    by (rule linear_analysis_deterministic [OF assms(1) perm rest(1,2)])
  ultimately show ?thesis
    by (simp add: AnalyzeWebObservationsWithLinearAnalysis_def analysis_eq [OF assms(1)] analysis_eq [OF wf'])
qed

theorem analysis_deterministic_witness:
  "AnalyzeWebObservationsWithLinearAnalysis (\<lambda>_. None) id
     (sample_container\<lparr>KnownTCPEndpoints := rev (KnownTCPEndpoints sample_container)\<rparr>) =
   AnalyzeWebObservationsWithLinearAnalysis (\<lambda>_. None) id sample_container"
  by (rule analysis_deterministic [OF sample_container_wf]) (simp_all add: sample_container_def)

text \<open>
  The bogon metric looks at the first observation of a lookup only. A lookup of the first
  request is registered as a bogon lookup exactly when its first address is a bogon: when a public
  address sorts before it, a bogon address of the same lookup is not registered.
\<close>

theorem bogon_of_first_address_only:
  assumes "observations_wf c"
    and "AnalyzeWebObservationsWithoutLinearAnalysis lookupper uni c = Some wa"
  shows "(txid \<in> DNSLookupSuccessWithBogonAddresses wa \<longleftrightarrow> (\<exists>obs \<in> set (firsts {} (DNSLookupSuccesses c)).
      DNSTransactionID obs = Some txid \<and> TagDepth obs = Some 0 \<and> IPAddressBogon obs = Some True)) \<and>
    DNSLookupSuccessWithBogonAddresses wa \<subseteq> DNSLookupSuccess wa"
proof -
  note fields = erase_final_fields [OF analysis_sets_result [OF assms]]
  show ?thesis
    unfolding fields analysis_sets_def Let_def
    by (auto simp: dns_ids_def past_depth_zero_iff)
qed

definition sample_two_addresses :: WebObservationsContainer where
  "sample_two_addresses =
     (let addrs = {''1.1.1.1'', ''10.0.0.1''} in
      NewWebObservationsContainer\<lparr>DNSLookupSuccesses :=
        map (dns_success_obs (\<lambda>_. None) sample_query addrs) [''1.1.1.1'', ''10.0.0.1'']\<rparr>)"

theorem bogon_of_first_address_only_witness:
  "\<exists>wa. AnalyzeWebObservationsWithoutLinearAnalysis (\<lambda>_. None) id sample_two_addresses = Some wa \<and>
     IsBogon ''10.0.0.1'' \<and> map IPAddress (DNSLookupSuccesses sample_two_addresses) = [Some ''1.1.1.1'', Some ''10.0.0.1''] \<and>
     DNSLookupSuccessWithBogonAddresses wa = {}"
proof -
  have bogon: "IsBogon ''10.0.0.1''" "\<not> IsBogon ''1.1.1.1''"
  proof -
    have "dotted 10 0 0 1 = ''10.0.0.1''" "dotted 1 1 1 1 = ''1.1.1.1''" by code_simp+
    then show "IsBogon ''10.0.0.1''" "\<not> IsBogon ''1.1.1.1''"
      using IsBogon_dotted [of 10 0 0 1] IsBogon_dotted [of 1 1 1 1] by (simp_all add: bogon_v4_def)
  qed
  have wf: "observations_wf sample_two_addresses"
    by (simp add: sample_two_addresses_def observations_wf_def NewWebObservationsContainer_def Let_def dns_success_obs_wf)
  obtain wa where wa: "AnalyzeWebObservationsWithoutLinearAnalysis (\<lambda>_. None) id sample_two_addresses = Some wa"
    unfolding analysis_eq [OF wf]
    by (simp add: httpComputeFinalResponseMetrics_def sample_two_addresses_def NewWebObservationsContainer_def Let_def)
  have "txid \<notin> DNSLookupSuccessWithBogonAddresses wa" for txid
    using bogon_of_first_address_only [OF wf wa, of txid] bogon
    by (auto simp: sample_two_addresses_def NewWebObservationsContainer_def dns_success_obs_def WebObservation_zero_def
        sample_query_def Let_def)
  then have "DNSLookupSuccessWithBogonAddresses wa = {}" by blast
  with wa bogon show ?thesis
    by (auto simp: sample_two_addresses_def NewWebObservationsContainer_def dns_success_obs_def Let_def)
qed

end
