(* ===== verification/NormalizeSort.thy ===== *)
theory NormalizeSort
  imports Archival GoSort
begin

text \<open>
  The normalisation and the ordering of archival events that keep the test cases of the pipeline
  stable: \<open>internal/minipipeline/normalize.go\<close> and \<open>internal/minipipeline/sorting.go\<close>. The
  normalisations update the events in place; the sorts copy the slice and sort it with
  \<open>sort.SliceStable\<close>, each with its own comparator.
\<close>

section \<open>Normalisation\<close>

definition normalize_dns :: "ArchivalDNSLookupResult \<Rightarrow> ArchivalDNSLookupResult" where
  "normalize_dns entry =
     (let entry = (if dns_Engine entry = ''udp'' then entry\<lparr>dns_ResolverAddress := ''1.1.1.1:53''\<rparr>
                   else if dns_Engine entry = ''doh''
                   then entry\<lparr>dns_ResolverAddress := ''https://dns.google/dns-query''\<rparr>
                   else entry)
      in entry\<lparr>dns_T0 := 0, dns_T := 0, dns_RawResponse := ''''\<rparr>)"

definition NormalizeDNSLookupResults :: "ArchivalDNSLookupResult list \<Rightarrow> ArchivalDNSLookupResult list" where
  "NormalizeDNSLookupResults values = map normalize_dns values"

definition NormalizeNetworkEvents :: "ArchivalNetworkEvent list \<Rightarrow> ArchivalNetworkEvent list" where
  "NormalizeNetworkEvents values = map (\<lambda>entry. entry\<lparr>net_T0 := 0, net_T := 0\<rparr>) values"

definition NormalizeTCPConnectResults :: "ArchivalTCPConnectResult list \<Rightarrow> ArchivalTCPConnectResult list" where
  "NormalizeTCPConnectResults values = map (\<lambda>entry. entry\<lparr>tcp_T0 := 0, tcp_T := 0\<rparr>) values"

definition NormalizeTLSHandshakeResults ::
  "ArchivalTLSOrQUICHandshakeResult list \<Rightarrow> ArchivalTLSOrQUICHandshakeResult list" where
  "NormalizeTLSHandshakeResults values =
     map (\<lambda>entry. entry\<lparr>tls_T0 := 0, tls_T := 0, tls_PeerCertificates := []\<rparr>) values"

definition maxStoreBody :: nat where
  "maxStoreBody = 12000"

definition normalize_http :: "ArchivalHTTPRequestResult \<Rightarrow> ArchivalHTTPRequestResult" where
  "normalize_http entry =
     (let entry = entry\<lparr>http_T0 := 0, http_T := 0\<rparr> in
      if length (resp_Body (http_Response entry)) > maxStoreBody
      then entry\<lparr>http_Response := (http_Response entry)\<lparr>resp_Body := '''', resp_BodyIsTruncated := True\<rparr>\<rparr>
      else entry)"

definition NormalizeHTTPRequestResults :: "ArchivalHTTPRequestResult list \<Rightarrow> ArchivalHTTPRequestResult list" where
  "NormalizeHTTPRequestResults values = map normalize_http values"

section \<open>Ordering\<close>

definition fsget :: "string option \<Rightarrow> string" where
  "fsget v = (case v of None \<Rightarrow> '''' | Some s \<Rightarrow> s)"

definition dns_less :: "ArchivalDNSLookupResult \<Rightarrow> ArchivalDNSLookupResult \<Rightarrow> bool" where
  "dns_less left right =
     (if dns_Engine left < dns_Engine right then True
      else if dns_Engine left > dns_Engine right then False
      else if dns_TransactionID left < dns_TransactionID right then True
      else if dns_TransactionID left > dns_TransactionID right then False
      else if dns_QueryType left < dns_QueryType right then True
      else if dns_QueryType left > dns_QueryType right then False
      else fsget (dns_Failure left) < fsget (dns_Failure right))"

definition SortDNSLookupResults :: "ArchivalDNSLookupResult list \<Rightarrow> ArchivalDNSLookupResult list" where
  "SortDNSLookupResults inputs = slice_stable dns_less inputs"

definition net_less :: "ArchivalNetworkEvent \<Rightarrow> ArchivalNetworkEvent \<Rightarrow> bool" where
  "net_less left right =
     (if net_Address left < net_Address right then True
      else if net_Address left > net_Address right then False
      else if net_TransactionID left < net_TransactionID right then True
      else if net_TransactionID left > net_TransactionID right then False
      else net_T left < net_T right)"

definition SortNetworkEvents :: "ArchivalNetworkEvent list \<Rightarrow> ArchivalNetworkEvent list" where
  "SortNetworkEvents inputs = slice_stable net_less inputs"

definition tcp_less :: "ArchivalTCPConnectResult \<Rightarrow> ArchivalTCPConnectResult \<Rightarrow> bool" where
  "tcp_less left right =
     (if tcp_IP left < tcp_IP right then True
      else if tcp_IP left > tcp_IP right then False
      else if tcp_Port left < tcp_Port right then True
      else if tcp_Port left > tcp_Port right then False
      else if tcp_TransactionID left < tcp_TransactionID right then True
      else if tcp_TransactionID left > tcp_TransactionID right then False
      else tcp_T left < tcp_T right)"

definition SortTCPConnectResults :: "ArchivalTCPConnectResult list \<Rightarrow> ArchivalTCPConnectResult list" where
  "SortTCPConnectResults inputs = slice_stable tcp_less inputs"

definition tls_less :: "ArchivalTLSOrQUICHandshakeResult \<Rightarrow> ArchivalTLSOrQUICHandshakeResult \<Rightarrow> bool" where
  "tls_less left right =
     (if tls_Address left < tls_Address right then True
      else if tls_Address left > tls_Address right then False
      else if tls_TransactionID left < tls_TransactionID right then True
      else if tls_TransactionID left > tls_TransactionID right then False
      else tls_T left < tls_T right)"

definition SortTLSHandshakeResults ::
  "ArchivalTLSOrQUICHandshakeResult list \<Rightarrow> ArchivalTLSOrQUICHandshakeResult list" where
  "SortTLSHandshakeResults inputs = slice_stable tls_less inputs"

section \<open>The comparators compare keys\<close>

definition dns_key :: "ArchivalDNSLookupResult \<Rightarrow> string \<times> int \<times> string \<times> string" where
  "dns_key ev = (dns_Engine ev, dns_TransactionID ev, dns_QueryType ev, fsget (dns_Failure ev))"

definition net_key :: "ArchivalNetworkEvent \<Rightarrow> string \<times> int \<times> rat" where
  "net_key ev = (net_Address ev, net_TransactionID ev, net_T ev)"

definition tcp_key :: "ArchivalTCPConnectResult \<Rightarrow> string \<times> int \<times> int \<times> rat" where
  "tcp_key ev = (tcp_IP ev, tcp_Port ev, tcp_TransactionID ev, tcp_T ev)"

definition tls_key :: "ArchivalTLSOrQUICHandshakeResult \<Rightarrow> string \<times> int \<times> rat" where
  "tls_key ev = (tls_Address ev, tls_TransactionID ev, tls_T ev)"

interpretation dns_sort: keyed_less dns_less dns_key
  by unfold_locales (auto simp: dns_less_def dns_key_def less_prod_def)

interpretation net_sort: keyed_less net_less net_key
  by unfold_locales (auto simp: net_less_def net_key_def less_prod_def)

interpretation tcp_sort: keyed_less tcp_less tcp_key
  by unfold_locales (auto simp: tcp_less_def tcp_key_def less_prod_def)

interpretation tls_sort: keyed_less tls_less tls_key
  by unfold_locales (auto simp: tls_less_def tls_key_def less_prod_def)

lemma sort_key_map: "sort_key k (map f xs) = map f (sort_key (k \<circ> f) xs)"
proof (rule properties_for_sort_key)
  show "mset (map f (sort_key (k \<circ> f) xs)) = mset (map f xs)" by simp
  show "sorted (map k (map f (sort_key (k \<circ> f) xs)))"
    using sorted_sort_key [of "k \<circ> f" xs] by (simp add: comp_def)
  fix y
  show "filter (\<lambda>x. k y = k x) (map f (sort_key (k \<circ> f) xs)) = filter (\<lambda>x. k y = k x) (map f xs)"
    using sort_key_stable [of "k \<circ> f" "k y" xs] by (simp add: filter_map comp_def eq_commute [of "k y"])
qed

lemma normalize_dns_key [simp]: "dns_key (normalize_dns ev) = dns_key ev"
  by (simp add: dns_key_def normalize_dns_def Let_def)

lemma normalize_dns_idem: "normalize_dns (normalize_dns ev) = normalize_dns ev"
  by (simp add: normalize_dns_def Let_def)

lemma normalize_http_idem: "normalize_http (normalize_http ev) = normalize_http ev"
  by (simp add: normalize_http_def Let_def maxStoreBody_def)

lemma event_sort_network: "SortNetworkEvents evs = sort_key net_key evs"
  by (simp add: SortNetworkEvents_def net_sort.slice_stable_sort_key)

section \<open>Properties\<close>

text \<open>
  The four sorts are stable sorts: each rearranges its input, orders it by the documented key
  (for DNS the engine, the transaction, the query type and the failure; for the others the address,
  the transaction and the time), and keeps the order of events with equal keys.
\<close>

lemma event_sorts_are_stable_sorts:
  "SortDNSLookupResults ds =
     sort_key (\<lambda>ev. (dns_Engine ev, dns_TransactionID ev, dns_QueryType ev, fsget (dns_Failure ev))) ds \<and>
   SortNetworkEvents ns = sort_key (\<lambda>ev. (net_Address ev, net_TransactionID ev, net_T ev)) ns \<and>
   SortTCPConnectResults ts = sort_key (\<lambda>ev. (tcp_IP ev, tcp_Port ev, tcp_TransactionID ev, tcp_T ev)) ts \<and>
   SortTLSHandshakeResults ls = sort_key (\<lambda>ev. (tls_Address ev, tls_TransactionID ev, tls_T ev)) ls"
  using dns_sort.slice_stable_sort_key net_sort.slice_stable_sort_key tcp_sort.slice_stable_sort_key
    tls_sort.slice_stable_sort_key
  by (simp add: SortDNSLookupResults_def SortNetworkEvents_def SortTCPConnectResults_def
      SortTLSHandshakeResults_def dns_key_def [abs_def] net_key_def [abs_def] tcp_key_def [abs_def] tls_key_def [abs_def])

text \<open>
  Normalising twice is normalising once, sorting commutes with normalising for the DNS events,
  and after normalising, no event carries a time, a raw response, a certificate or a body longer
  than the limit.
\<close>

lemma normalize_idempotent:
  "NormalizeDNSLookupResults (NormalizeDNSLookupResults ds) = NormalizeDNSLookupResults ds \<and>
   NormalizeNetworkEvents (NormalizeNetworkEvents ns) = NormalizeNetworkEvents ns \<and>
   NormalizeTCPConnectResults (NormalizeTCPConnectResults ts) = NormalizeTCPConnectResults ts \<and>
   NormalizeTLSHandshakeResults (NormalizeTLSHandshakeResults ls) = NormalizeTLSHandshakeResults ls \<and>
   NormalizeHTTPRequestResults (NormalizeHTTPRequestResults hs) = NormalizeHTTPRequestResults hs \<and>
   SortDNSLookupResults (NormalizeDNSLookupResults ds) = NormalizeDNSLookupResults (SortDNSLookupResults ds) \<and>
   list_all (\<lambda>ev. dns_T ev = 0 \<and> dns_RawResponse ev = '''') (NormalizeDNSLookupResults ds) \<and>
   list_all (\<lambda>ev. tls_T ev = 0 \<and> tls_PeerCertificates ev = []) (NormalizeTLSHandshakeResults ls) \<and>
   list_all (\<lambda>ev. http_T ev = 0 \<and> length (resp_Body (http_Response ev)) \<le> 12000) (NormalizeHTTPRequestResults hs)"
proof -
  have "SortDNSLookupResults (NormalizeDNSLookupResults ds) = NormalizeDNSLookupResults (SortDNSLookupResults ds)"
    unfolding SortDNSLookupResults_def NormalizeDNSLookupResults_def dns_sort.slice_stable_sort_key sort_key_map
    by (simp add: comp_def)
  then show ?thesis
    by (auto simp: NormalizeDNSLookupResults_def NormalizeNetworkEvents_def NormalizeTCPConnectResults_def
        NormalizeTLSHandshakeResults_def NormalizeHTTPRequestResults_def normalize_dns_idem normalize_http_idem
        list_all_iff normalize_dns_def normalize_http_def maxStoreBody_def Let_def)
qed

text \<open>
  For network events sorting and normalising do not commute, since the sort looks at the times
  that normalising erases: events must be sorted before they are normalised.
\<close>

lemma sort_before_normalize_network_events:
  "\<exists>evs. SortNetworkEvents (NormalizeNetworkEvents evs) \<noteq> NormalizeNetworkEvents (SortNetworkEvents evs)"
proof -
  define ev :: "string \<Rightarrow> rat \<Rightarrow> ArchivalNetworkEvent" where
    "ev operation t = \<lparr>net_Address = '''', net_Failure = None, net_NumBytes = 0, net_Operation = operation,
       net_Proto = '''', net_T0 = 0, net_T = t, net_TransactionID = 1, net_Tags = []\<rparr>" for operation t
  let ?evs = "[ev ''write'' 2, ev ''read'' 1]"
  have "SortNetworkEvents (NormalizeNetworkEvents ?evs) = [ev ''write'' 0, ev ''read'' 0]"
    by (simp add: event_sort_network NormalizeNetworkEvents_def ev_def net_key_def)
  moreover have "NormalizeNetworkEvents (SortNetworkEvents ?evs) = [ev ''read'' 0, ev ''write'' 0]"
    by (simp add: event_sort_network NormalizeNetworkEvents_def ev_def net_key_def)
  moreover have "[ev ''write'' 0, ev ''read'' 0] \<noteq> [ev ''read'' 0, ev ''write'' 0]" by (simp add: ev_def)
  ultimately have "SortNetworkEvents (NormalizeNetworkEvents ?evs) \<noteq> NormalizeNetworkEvents (SortNetworkEvents ?evs)"
    by simp
  then show ?thesis by (rule exI)
qed

end
