(* ===== verification/KVStore.thy ===== *)
theory KVStore
  imports GoPrelude
begin

text \<open>
  The key-value store interface of \<open>internal/model\<close> (\<open>KeyValueStore\<close>) as a locale and the in-memory
  store of \<open>internal/kvstore/memory.go\<close>, which implements it. The store's mutex makes each operation
  atomic. A value is a byte string. An operation on a store that may fail returns the error's text.
\<close>

section \<open>The interface\<close>

text \<open>A sequence of writes, which stops at the first error.\<close>

fun write_all ::
  "('store \<Rightarrow> string \<Rightarrow> string \<Rightarrow> string option \<times> 'store) \<Rightarrow> (string \<times> string) list \<Rightarrow> 'store \<Rightarrow> 'store option" where
  "write_all kvSet [] s = Some s"
| "write_all kvSet ((k, v) # kvs) s =
     (case kvSet s k v of (None, s') \<Rightarrow> write_all kvSet kvs s' | (Some _, _) \<Rightarrow> None)"

locale kv_store =
  fixes kvGet :: "'store \<Rightarrow> string \<Rightarrow> string + string"
    and kvSet :: "'store \<Rightarrow> string \<Rightarrow> string \<Rightarrow> string option \<times> 'store"
  assumes get_set_same: "kvSet s k v = (None, s') \<Longrightarrow> kvGet s' k = Inr v"
    and get_set_other: "kvSet s k v = (None, s') \<Longrightarrow> k' \<noteq> k \<Longrightarrow> kvGet s' k' = kvGet s k'"
begin

lemma last_write:
  "write_all kvSet kvs s = Some s' \<Longrightarrow>
     kvGet s' k = (case map_of (rev kvs) k of Some v \<Rightarrow> Inr v | None \<Rightarrow> kvGet s k)"
proof (induction kvs arbitrary: s)
  case (Cons kv kvs)
  obtain k' v where kv: "kv = (k', v)" by (cases kv)
  with Cons.prems obtain s1 where s1: "kvSet s k' v = (None, s1)" and rest: "write_all kvSet kvs s1 = Some s'"
    by (auto split: prod.splits option.splits)
  from Cons.IH [OF rest] s1 kv show ?case
    by (auto simp: get_set_same get_set_other map_add_def split: option.splits)
qed simp

end

text \<open>A store whose failed writes change nothing.\<close>

locale kv_store_atomic = kv_store +
  assumes failed_set: "kvSet s k v = (Some err, s') \<Longrightarrow> s' = s"
begin

lemma get_after_set:
  "kvGet (snd (kvSet s k v)) k = kvGet s k \<or> kvGet (snd (kvSet s k v)) k = Inr v"
proof (cases "fst (kvSet s k v)")
  case None
  then show ?thesis using get_set_same [of s k v] by (metis prod.collapse)
next
  case (Some err)
  then show ?thesis using failed_set [of s k v err] by (metis prod.collapse)
qed

end

section \<open>The in-memory store\<close>

record Memory =
  m_map :: "(string, string) gomap option"

definition ErrNoSuchKey :: string where
  "ErrNoSuchKey = ''no such key''"

definition Memory_Get :: "Memory \<Rightarrow> string \<Rightarrow> string + string" where
  "Memory_Get kvs key =
     (case gmap_get (case m_map kvs of None \<Rightarrow> [] | Some m \<Rightarrow> m) key of
        None \<Rightarrow> Inl ErrNoSuchKey | Some v \<Rightarrow> Inr v)"

definition Memory_Set :: "Memory \<Rightarrow> string \<Rightarrow> string \<Rightarrow> string option \<times> Memory" where
  "Memory_Set kvs key v =
     (let m = (case m_map kvs of None \<Rightarrow> [] | Some m \<Rightarrow> m)
      in (None, kvs\<lparr>m_map := Some (AList.update key v m)\<rparr>))"

interpretation memory: kv_store_atomic Memory_Get Memory_Set
  by unfold_locales (auto simp: Memory_Get_def Memory_Set_def Let_def)

text \<open>
  A value written under a key is what the in-memory store returns for it until a later write of
  the same key: after any sequence of writes, a key holds the last value written under it, and a key
  that was not written keeps its value; the writes never fail.
\<close>

lemma memory_store_last_write:
  "\<exists>s'. write_all Memory_Set kvs s = Some s' \<and>
     Memory_Get s' k = (case map_of (rev kvs) k of Some v \<Rightarrow> Inr v | None \<Rightarrow> Memory_Get s k)"
proof -
  have "\<exists>s'. write_all Memory_Set kvs s = Some s'"
    by (induction kvs arbitrary: s) (auto simp: Memory_Set_def Let_def)
  then show ?thesis using memory.last_write by blast
qed

end
