(* ===== verification/Tactic.thy ===== *)
theory Tactic
  imports GoPrelude "HOL-Library.Sublist"
begin

text \<open>
  The dialing tactics of \<open>internal/enginenetx/httpsdialer.go\<close>, the happy-eyeballs delays of
  \<open>happyeyeballs.go\<close> and the filters of \<open>filter.go\<close>. A channel that is read until it is closed is
  the list of the values sent on it; a tactic is a pointer, so a channel may carry nil (\<open>None\<close>)
  until \<open>filterOutNilTactics\<close>. A \<open>time.Duration\<close> is an \<open>int64\<close> number of nanoseconds.
\<close>

section \<open>Tactics\<close>

record httpsDialerTactic =
  Address :: string
  InitialDelay :: int
  Port :: string
  SNI :: string
  VerifyHostname :: string

definition tactic_Clone :: "httpsDialerTactic \<Rightarrow> httpsDialerTactic" where
  "tactic_Clone dt = \<lparr>
     Address = Address dt, InitialDelay = InitialDelay dt, Port = Port dt, SNI = SNI dt,
     VerifyHostname = VerifyHostname dt\<rparr>"

definition tacticSummaryKey :: "httpsDialerTactic \<Rightarrow> string" where
  "tacticSummaryKey dt =
     join_host_port (Address dt) (Port dt) @ '' sni='' @ SNI dt @ '' verify='' @ VerifyHostname dt"

definition domainEndpointKey :: "httpsDialerTactic \<Rightarrow> string" where
  "domainEndpointKey dt = join_host_port (VerifyHostname dt) (Port dt)"

section \<open>Delays\<close>

definition time_Second :: int where
  "time_Second = 1000000000"

definition happyEyeballsDelay :: "int \<Rightarrow> int" where
  "happyEyeballsDelay idx =
     (if idx \<le> 0 then 0
      else if idx = 1 then time_Second
      else if idx \<le> 4 then wrap64 (time_Second * 2 ^ nat (idx - 1))
      else wrap64 (wrap64 (time_Second * 2 ^ 3) * wrap64 (idx - 3)))"

section \<open>Filters\<close>

fun filterOutNilTactics :: "httpsDialerTactic option list \<Rightarrow> httpsDialerTactic list" where
  "filterOutNilTactics [] = []"
| "filterOutNilTactics (tx # input) =
     (case tx of None \<Rightarrow> filterOutNilTactics input | Some t \<Rightarrow> t # filterOutNilTactics input)"

text \<open>\<open>uniq\<close> counts the tactics emitted for a summary key; the value of a missing key is zero.\<close>

fun keep_unique :: "(string, int) gomap \<Rightarrow> httpsDialerTactic list \<Rightarrow> httpsDialerTactic list" where
  "keep_unique uniq [] = []"
| "keep_unique uniq (tx # input) =
     (let key = tacticSummaryKey tx; n = (case gmap_get uniq key of None \<Rightarrow> 0 | Some n \<Rightarrow> n) in
      if n > 0 then keep_unique uniq input
      else tx # keep_unique (AList.update key (n + 1) uniq) input)"

definition filterOnlyKeepUniqueTactics :: "httpsDialerTactic list \<Rightarrow> httpsDialerTactic list" where
  "filterOnlyKeepUniqueTactics input = keep_unique [] input"

fun assign_delays :: "int \<Rightarrow> httpsDialerTactic list \<Rightarrow> httpsDialerTactic list" where
  "assign_delays index [] = []"
| "assign_delays index (tx # input) =
     tx\<lparr>InitialDelay := happyEyeballsDelay index\<rparr> # assign_delays (wrap64 (index + 1)) input"

definition filterAssignInitialDelays :: "httpsDialerTactic list \<Rightarrow> httpsDialerTactic list" where
  "filterAssignInitialDelays input = assign_delays 0 input"

definition httpsDialerFilterTactics :: "httpsDialerTactic option list \<Rightarrow> httpsDialerTactic list" where
  "httpsDialerFilterTactics input =
     filterAssignInitialDelays (filterOnlyKeepUniqueTactics (filterOutNilTactics input))"

definition streamTacticsFromSlice :: "httpsDialerTactic list \<Rightarrow> httpsDialerTactic option list" where
  "streamTacticsFromSlice input = map Some input"

section \<open>The summary key\<close>

lemma tactic_Clone_id [simp]: "tactic_Clone dt = dt"
  by (simp add: tactic_Clone_def)

text \<open>
  Fields as they come from DNS names, IP addresses and port numbers: no blanks, no colon in the
  port and no opening bracket at the start of the address.
\<close>

definition tactic_plain :: "httpsDialerTactic \<Rightarrow> bool" where
  "tactic_plain dt \<longleftrightarrow> CHR '' '' \<notin> set (Address dt) \<and> CHR '' '' \<notin> set (Port dt) \<and> CHR '' '' \<notin> set (SNI dt) \<and>
     CHR '':'' \<notin> set (Port dt) \<and> (Address dt = '''' \<or> hd (Address dt) \<noteq> CHR ''['')"

lemma split_first:
  assumes "xs @ c # ys = xs' @ c # ys'" "c \<notin> set xs" "c \<notin> set xs'"
  shows "xs = xs' \<and> ys = ys'"
  using assms by (auto simp: append_eq_Cons_conv Cons_eq_append_conv append_eq_append_conv2)

lemma split_last:
  assumes "xs @ c # ys = xs' @ c # ys'" "c \<notin> set ys" "c \<notin> set ys'"
  shows "xs = xs' \<and> ys = ys'"
  using assms by (auto simp: append_eq_Cons_conv Cons_eq_append_conv append_eq_append_conv2)

lemma join_host_port_inject:
  assumes "join_host_port h p = join_host_port h' p'"
    and "CHR '':'' \<notin> set p" "CHR '':'' \<notin> set p'"
    and "h = '''' \<or> hd h \<noteq> CHR ''[''" "h' = '''' \<or> hd h' \<noteq> CHR ''[''"
  shows "h = h' \<and> p = p'"
proof -
  define q where "q h = (if CHR '':'' \<in> set h then ''['' @ h @ '']'' else h)" for h :: string
  have eq: "join_host_port h p = q h @ CHR '':'' # p" for h p
    by (simp add: join_host_port_def q_def)
  have "q h = q h' \<and> p = p'"
    using split_last [of "q h" "CHR '':''" p "q h'" p'] assms(1-3) by (simp add: eq)
  then show ?thesis using assms(4,5) by (auto simp: q_def split: if_splits)
qed

lemma tacticSummaryKey_inject:
  assumes "tactic_plain a" "tactic_plain b" "tacticSummaryKey a = tacticSummaryKey b"
  shows "a\<lparr>InitialDelay := 0\<rparr> = b\<lparr>InitialDelay := 0\<rparr>"
proof -
  have blank: "CHR '' '' \<notin> set (join_host_port (Address t) (Port t))" if "tactic_plain t" for t
    using that by (auto simp: join_host_port_def tactic_plain_def)
  have 1: "join_host_port (Address a) (Port a) = join_host_port (Address b) (Port b) \<and>
      ''sni='' @ SNI a @ '' verify='' @ VerifyHostname a = ''sni='' @ SNI b @ '' verify='' @ VerifyHostname b"
    by (rule split_first [of _ "CHR '' ''"])
      (use assms blank in \<open>simp_all add: tacticSummaryKey_def\<close>)
  then have "SNI a @ CHR '' '' # ''verify='' @ VerifyHostname a = SNI b @ CHR '' '' # ''verify='' @ VerifyHostname b"
    by simp
  from split_first [OF this] assms(1,2)
  have "SNI a = SNI b" "VerifyHostname a = VerifyHostname b" by (auto simp: tactic_plain_def)
  moreover have "Address a = Address b \<and> Port a = Port b"
    by (rule join_host_port_inject) (use 1 assms(1,2) in \<open>auto simp: tactic_plain_def\<close>)
  ultimately show ?thesis by (cases a; cases b) simp
qed

section \<open>The delays\<close>

lemma happyEyeballsDelay_small:
  "happyEyeballsDelay 0 = 0" "happyEyeballsDelay 1 = time_Second" "happyEyeballsDelay 2 = 2 * time_Second"
  "happyEyeballsDelay 3 = 4 * time_Second" "happyEyeballsDelay 4 = 8 * time_Second"
  by (simp_all add: happyEyeballsDelay_def time_Second_def in_int64_def)

text \<open>The largest index for which the product does not wrap around.\<close>

definition max_delay_index :: int where
  "max_delay_index = 1152921507"

lemma happyEyeballsDelay_linear:
  assumes "4 \<le> idx" "idx \<le> max_delay_index"
  shows "happyEyeballsDelay idx = 8 * time_Second * (idx - 3)"
proof (cases "idx = 4")
  case True
  then show ?thesis by (simp add: happyEyeballsDelay_small)
next
  case False
  have "in_int64 (time_Second * 2 ^ 3)" "in_int64 (idx - 3)" "in_int64 (time_Second * 2 ^ 3 * (idx - 3))"
    using assms by (auto simp: in_int64_def time_Second_def max_delay_index_def)
  with False assms show ?thesis by (simp add: happyEyeballsDelay_def)
qed

lemma happyEyeballsDelay_mono:
  assumes "0 \<le> i" "i \<le> j" "j \<le> max_delay_index"
  shows "happyEyeballsDelay i \<le> happyEyeballsDelay j"
proof -
  have small: "k = 0 \<or> k = 1 \<or> k = 2 \<or> k = 3 \<or> 4 \<le> k" if "0 \<le> k" for k :: int using that by arith
  show ?thesis
  proof (cases "4 \<le> i")
    case True
    then show ?thesis using assms by (simp add: happyEyeballsDelay_linear time_Second_def)
  next
    case False
    consider "4 \<le> j" | "j < 4" by arith
    then show ?thesis
    proof cases
      case 1
      then have "8 * time_Second \<le> happyEyeballsDelay j"
        using assms by (simp add: happyEyeballsDelay_linear time_Second_def)
      moreover have "happyEyeballsDelay i \<le> 8 * time_Second"
        using small [OF assms(1)] False by (auto simp: happyEyeballsDelay_small time_Second_def)
      ultimately show ?thesis by simp
    next
      case 2
      with small [of i] small [of j] assms show ?thesis
        by (auto simp: happyEyeballsDelay_small time_Second_def)
    qed
  qed
qed

section \<open>The filters\<close>

lemma filterOutNil_eq: "filterOutNilTactics input = map the (filter (\<lambda>tx. tx \<noteq> None) input)"
  by (induction input) (auto split: option.splits)

definition counted :: "(string, int) gomap \<Rightarrow> string set" where
  "counted uniq = {key. (case gmap_get uniq key of None \<Rightarrow> 0 | Some n \<Rightarrow> n) > 0}"

lemma counted_empty [simp]: "counted [] = {}"
  by (simp add: counted_def)

lemma counted_update [simp]: "n \<ge> 0 \<Longrightarrow> counted (AList.update key (n + 1) uniq) = insert key (counted uniq)"
  by (auto simp: counted_def)

text \<open>The counters never go below zero.\<close>

definition counters_ok :: "(string, int) gomap \<Rightarrow> bool" where
  "counters_ok uniq \<longleftrightarrow> (\<forall>key. (case gmap_get uniq key of None \<Rightarrow> 0 | Some n \<Rightarrow> n) \<ge> (0 :: int))"

lemma counters_ok_update: "counters_ok uniq \<Longrightarrow> n \<ge> 0 \<Longrightarrow> counters_ok (AList.update key (n + 1) uniq)"
  by (simp add: counters_ok_def)

lemma keep_unique_spec:
  assumes "counters_ok uniq"
  shows "distinct (map tacticSummaryKey (keep_unique uniq xs)) \<and>
    tacticSummaryKey ` set (keep_unique uniq xs) = tacticSummaryKey ` set xs - counted uniq \<and>
    subseq (keep_unique uniq xs) xs"
  using assms
proof (induction xs arbitrary: uniq)
  case Nil
  then show ?case by simp
next
  case (Cons tx xs)
  define n where "n = (case gmap_get uniq (tacticSummaryKey tx) of None \<Rightarrow> 0 | Some n \<Rightarrow> n)"
  have n: "n \<ge> 0" "n > 0 \<longleftrightarrow> tacticSummaryKey tx \<in> counted uniq"
    using Cons.prems by (simp_all add: n_def counters_ok_def counted_def)
  show ?case
  proof (cases "n > 0")
    case True
    then have "keep_unique uniq (tx # xs) = keep_unique uniq xs" by (simp add: n_def)
    with Cons n True show ?thesis by auto
  next
    case False
    then have eq: "keep_unique uniq (tx # xs) = tx # keep_unique (AList.update (tacticSummaryKey tx) (n + 1) uniq) xs"
      by (simp add: n_def Let_def)
    from Cons.IH [OF counters_ok_update [OF Cons.prems n(1), of "tacticSummaryKey tx"]] n False
    show ?thesis unfolding eq by auto
  qed
qed

lemma assign_delays_length [simp]: "length (assign_delays index xs) = length xs"
  by (induction xs arbitrary: index) simp_all

lemma assign_delays_nth:
  assumes "0 \<le> index" "index + int (length xs) \<le> max_delay_index" "n < length xs"
  shows "assign_delays index xs ! n = (xs ! n)\<lparr>InitialDelay := happyEyeballsDelay (index + int n)\<rparr>"
  using assms
proof (induction xs arbitrary: index n)
  case Nil
  then show ?case by simp
next
  case (Cons tx xs)
  have "in_int64 (index + 1)" using Cons.prems by (simp add: in_int64_def max_delay_index_def)
  with Cons show ?case by (cases n) (simp_all add: add.assoc)
qed

lemma tacticSummaryKey_delay [simp]: "tacticSummaryKey (t\<lparr>InitialDelay := d\<rparr>) = tacticSummaryKey t"
  by (simp add: tacticSummaryKey_def)

section \<open>Properties\<close>

text \<open>
  Two tactics with the same summary key are the same tactic up to the delay, when their fields
  have the shape of addresses, ports and names. Collapsing tactics by their summary key, as the
  filter and the statistics do, never confuses two of them.
\<close>

lemma summary_key_identifies_tactic:
  assumes "tactic_plain a" and "tactic_plain b" and "tacticSummaryKey a = tacticSummaryKey b"
  shows "Address a = Address b \<and> Port a = Port b \<and> SNI a = SNI b \<and> VerifyHostname a = VerifyHostname b"
  using tacticSummaryKey_inject [OF assms] by (cases a; cases b) simp

definition sample_tactic :: httpsDialerTactic where
  "sample_tactic = \<lparr>Address = ''2001:db8::1'', InitialDelay = 0, Port = ''443'', SNI = ''www.example.com'',
     VerifyHostname = ''api.ooni.io''\<rparr>"

text \<open>
  The happy-eyeballs delays are 0, 1, 2, 4 and 8 seconds for the first five attempts and then
  8 seconds more for each further attempt; they never decrease from one attempt to the next, for
  every index whose delay fits an \<open>int64\<close> duration.
\<close>

lemma happy_eyeballs_delays:
  "map happyEyeballsDelay [0, 1, 2, 3, 4] = map (\<lambda>s. s * time_Second) [0, 1, 2, 4, 8] \<and>
   (\<forall>idx. 4 \<le> idx \<and> idx \<le> max_delay_index \<longrightarrow> happyEyeballsDelay idx = 8 * time_Second * (idx - 3)) \<and>
   (\<forall>i j. i \<le> j \<and> j \<le> max_delay_index \<longrightarrow> 0 \<le> happyEyeballsDelay i \<and> happyEyeballsDelay i \<le> happyEyeballsDelay j)"
proof -
  have neg: "happyEyeballsDelay i = 0" if "i \<le> 0" for i using that by (simp add: happyEyeballsDelay_def)
  have nonneg: "0 \<le> happyEyeballsDelay j" if "j \<le> max_delay_index" for j
    using happyEyeballsDelay_mono [of 0 j] neg [of 0] neg [of j] that by (cases "0 \<le> j") auto
  have "happyEyeballsDelay i \<le> happyEyeballsDelay j" if "i \<le> j" "j \<le> max_delay_index" for i j
    using happyEyeballsDelay_mono [of i j] neg [of i] nonneg [of j] that by (cases "0 \<le> i") auto
  with nonneg show ?thesis
    by (auto simp: happyEyeballsDelay_small happyEyeballsDelay_linear)
qed

lemma filtered_tactic:
  assumes "t \<in> set (httpsDialerFilterTactics input)"
  shows "\<exists>t0. Some t0 \<in> set input \<and> t = t0\<lparr>InitialDelay := InitialDelay t\<rparr>"
proof -
  have "\<exists>t0 \<in> set xs. t = t0\<lparr>InitialDelay := InitialDelay t\<rparr>" if "t \<in> set (assign_delays i xs)" for i xs
    using that by (induction i xs rule: assign_delays.induct) auto
  moreover have "set (keep_unique uniq xs) \<subseteq> set xs" for uniq xs
    by (induction xs arbitrary: uniq) (simp_all add: Let_def subset_insertI2)
  ultimately show ?thesis
    using assms unfolding httpsDialerFilterTactics_def filterAssignInitialDelays_def filterOnlyKeepUniqueTactics_def
    by (fastforce simp: filterOutNil_eq)
qed

text \<open>
  The tactics that reach the dialer are, up to the delay, a subsequence of what the policy
  emitted, without nil entries, with exactly one tactic for each summary key, and with the delay of
  the attempt number, so that the attempts start in the order of the list.
\<close>

theorem dialer_filter_tactics:
  assumes "int (length input) \<le> max_delay_index"
  shows "distinct (map tacticSummaryKey (httpsDialerFilterTactics input)) \<and>
    tacticSummaryKey ` set (httpsDialerFilterTactics input) = tacticSummaryKey ` {t. Some t \<in> set input} \<and>
    subseq (map (\<lambda>t. t\<lparr>InitialDelay := 0\<rparr>) (httpsDialerFilterTactics input))
      (map (\<lambda>t. t\<lparr>InitialDelay := 0\<rparr>) (filterOutNilTactics input)) \<and>
    map InitialDelay (httpsDialerFilterTactics input) =
      map (\<lambda>i. happyEyeballsDelay (int i)) [0..<length (httpsDialerFilterTactics input)] \<and>
    sorted (map InitialDelay (httpsDialerFilterTactics input))"
proof -
  let ?nn = "filterOutNilTactics input" and ?d = "\<lambda>t. t\<lparr>InitialDelay := 0\<rparr>"
  let ?u = "filterOnlyKeepUniqueTactics (filterOutNilTactics input)"
  let ?out = "httpsDialerFilterTactics input"
  have u: "distinct (map tacticSummaryKey ?u)" "tacticSummaryKey ` set ?u = tacticSummaryKey ` set ?nn" "subseq ?u ?nn"
    using keep_unique_spec [of "[]" ?nn] by (simp_all add: filterOnlyKeepUniqueTactics_def counters_ok_def)
  have "length ?u \<le> length ?nn" using u(3) by (rule list_emb_length)
  also have "\<dots> \<le> length input" by (simp add: filterOutNil_eq)
  finally have len: "int (length ?u) \<le> max_delay_index" using assms by simp
  have length: "length ?out = length ?u" by (simp add: httpsDialerFilterTactics_def filterAssignInitialDelays_def)
  have nth: "?out ! i = (?u ! i)\<lparr>InitialDelay := happyEyeballsDelay (int i)\<rparr>" if "i < length ?u" for i
    using assign_delays_nth [of 0 ?u i] len that by (simp add: httpsDialerFilterTactics_def filterAssignInitialDelays_def)
  have keys: "map tacticSummaryKey ?out = map tacticSummaryKey ?u"
    by (rule nth_equalityI) (simp_all add: length nth)
  have erased: "map ?d ?out = map ?d ?u"
    by (rule nth_equalityI) (simp_all add: length nth)
  have delays: "map InitialDelay ?out = map (\<lambda>i. happyEyeballsDelay (int i)) [0..<length ?out]"
    by (rule nth_equalityI) (simp_all add: length nth)
  have "sorted (map InitialDelay ?out)"
    unfolding delays using len length
    by (auto simp: sorted_iff_nth_mono intro!: happyEyeballsDelay_mono)
  moreover have "set ?nn = {t. Some t \<in> set input}"
    by (force simp: filterOutNil_eq)
  moreover have "tacticSummaryKey ` set ?out = tacticSummaryKey ` set ?u"
    using keys by (metis list.set_map)
  ultimately show ?thesis
    using u keys erased delays subseq_map [OF u(3), of ?d] by simp
qed

theorem dialer_filter_tactics_witness:
  "length (httpsDialerFilterTactics [Some sample_tactic, None, Some (sample_tactic\<lparr>InitialDelay := 7\<rparr>)]) = 1"
proof -
  let ?in = "[Some sample_tactic, None, Some (sample_tactic\<lparr>InitialDelay := 7\<rparr>)]"
  let ?out = "httpsDialerFilterTactics ?in"
  have "distinct (map tacticSummaryKey ?out) \<and> tacticSummaryKey ` set ?out = tacticSummaryKey ` {t. Some t \<in> set ?in}"
    using dialer_filter_tactics [of ?in] by (simp add: max_delay_index_def)
  moreover have "tacticSummaryKey ` {t. Some t \<in> set ?in} = {tacticSummaryKey sample_tactic}" by auto
  ultimately have "distinct (map tacticSummaryKey ?out)" "set (map tacticSummaryKey ?out) = {tacticSummaryKey sample_tactic}"
    by simp_all
  then have "length (map tacticSummaryKey ?out) = 1" by (metis distinct_card is_singletonI is_singleton_altdef)
  then show ?thesis by simp
qed

end
