(* ===== verification/StatsManager.thy ===== *)
theory StatsManager
  imports Tactic GoSort GoFloat KVStore
begin

text \<open>
  The statistics of \<open>internal/enginenetx/statsmanager.go\<close>. The container is read from disk, where a
  user may have edited it, so each pointer may be nil (\<open>None\<close>) and each map may be nil: reading a
  nil map finds nothing, writing to one panics. An operation that may panic returns an option.

  A \<open>time.Time\<close> is the number of nanoseconds since the Unix epoch; \<open>Sub\<close> saturates at the bounds
  of \<open>int64\<close>, and the current time is an argument, read once for each operation. The mutex makes the operations atomic: the
  concurrency of the manager is a sequence of operations, and the relation \<open>stats_reachable\<close> has all
  such sequences. The key-value store and the JSON coding are arguments of \<open>loadStatsContainer\<close> and
  \<open>statsManager_Close\<close>.
\<close>

section \<open>Records\<close>

record statsTactic =
  CountStarted :: int
  CountTCPConnectError :: int
  CountTCPConnectInterrupt :: int
  CountTLSHandshakeError :: int
  CountTLSHandshakeInterrupt :: int
  CountTLSVerificationError :: int
  CountSuccess :: int
  HistoTCPConnectError :: "(string, int) gomap option"
  HistoTLSHandshakeError :: "(string, int) gomap option"
  HistoTLSVerificationError :: "(string, int) gomap option"
  LastUpdated :: int
  st_Tactic :: "httpsDialerTactic option"

definition time_zero :: int where
  "time_zero = - 62135596800 * 1000000000"

definition statsNilSafeSuccessRate :: "statsTactic option \<Rightarrow> rat" where
  "statsNilSafeSuccessRate t =
     (case t of None \<Rightarrow> 0
      | Some t \<Rightarrow> if CountStarted t > 0 then f64_quot (CountSuccess t) (CountStarted t) else 0)"

definition statsNilSafeLastUpdated :: "statsTactic option \<Rightarrow> int" where
  "statsNilSafeLastUpdated t = (case t of None \<Rightarrow> time_zero | Some t \<Rightarrow> LastUpdated t)"

definition statsNilSafeCountSuccess :: "statsTactic option \<Rightarrow> int" where
  "statsNilSafeCountSuccess t = (case t of None \<Rightarrow> 0 | Some t \<Rightarrow> CountSuccess t)"

definition statsMaybeCloneMapStringInt64 :: "(string, int) gomap option \<Rightarrow> (string, int) gomap option" where
  "statsMaybeCloneMapStringInt64 input =
     map_option (\<lambda>m. fold (\<lambda>(key, v) output. AList.update key v output) m []) input"

definition statsMaybeCloneTactic :: "httpsDialerTactic option \<Rightarrow> httpsDialerTactic option" where
  "statsMaybeCloneTactic input = map_option tactic_Clone input"

definition statsTactic_Clone :: "statsTactic \<Rightarrow> statsTactic" where
  "statsTactic_Clone st = \<lparr>
     CountStarted = CountStarted st,
     CountTCPConnectError = CountTCPConnectError st,
     CountTCPConnectInterrupt = CountTCPConnectInterrupt st,
     CountTLSHandshakeError = CountTLSHandshakeError st,
     CountTLSHandshakeInterrupt = CountTLSHandshakeInterrupt st,
     CountTLSVerificationError = CountTLSVerificationError st,
     CountSuccess = CountSuccess st,
     HistoTCPConnectError = statsMaybeCloneMapStringInt64 (HistoTCPConnectError st),
     HistoTLSHandshakeError = statsMaybeCloneMapStringInt64 (HistoTLSHandshakeError st),
     HistoTLSVerificationError = statsMaybeCloneMapStringInt64 (HistoTLSVerificationError st),
     LastUpdated = LastUpdated st,
     st_Tactic = statsMaybeCloneTactic (st_Tactic st)\<rparr>"

section \<open>Sorting by success rate\<close>

definition stats_less :: "statsTactic \<Rightarrow> statsTactic \<Rightarrow> bool" where
  "stats_less x y =
     (if statsNilSafeSuccessRate (Some x) > statsNilSafeSuccessRate (Some y) then True
      else if statsNilSafeCountSuccess (Some x) > statsNilSafeCountSuccess (Some y) then True
      else if time_Sub (statsNilSafeLastUpdated (Some x)) (statsNilSafeLastUpdated (Some y)) > 0 then True
      else False)"

fun stats_work :: "statsTactic option list \<Rightarrow> statsTactic list" where
  "stats_work [] = []"
| "stats_work (t # input) =
     (case t of None \<Rightarrow> stats_work input
      | Some st \<Rightarrow> if st_Tactic st \<noteq> None then statsTactic_Clone st # stats_work input else stats_work input)"

definition statsDefensivelySortTacticsByDescendingSuccessRateWithAcceptPredicate ::
  "statsTactic option list \<Rightarrow> (statsTactic \<Rightarrow> bool) \<Rightarrow> statsTactic list" where
  "statsDefensivelySortTacticsByDescendingSuccessRateWithAcceptPredicate input acceptfunc =
     filter acceptfunc (slice_stable stats_less (stats_work input))"

section \<open>Containers\<close>

record statsDomainEndpoint =
  Tactics :: "(string, statsTactic option) gomap option"

record statsContainer =
  DomainEndpoints :: "(string, statsDomainEndpoint option) gomap option"
  Version :: int

definition nil_map :: "('k, 'v) gomap option \<Rightarrow> ('k, 'v) gomap" where
  "nil_map m = (case m of None \<Rightarrow> [] | Some m \<Rightarrow> m)"

definition statsContainerVersion :: int where
  "statsContainerVersion = 5"

definition newStatsContainer :: statsContainer where
  "newStatsContainer = \<lparr>DomainEndpoints = Some [], Version = statsContainerVersion\<rparr>"

definition oneWeek :: int where
  "oneWeek = 7 * 24 * 3600 * 1000000000"

definition maxEntriesPerDomainEndpoint :: nat where
  "maxEntriesPerDomainEndpoint = 10"

definition statsDomainEndpointPruneEntries :: "int \<Rightarrow> statsDomainEndpoint \<Rightarrow> statsDomainEndpoint" where
  "statsDomainEndpointPruneEntries now input =
     (let tactics = map snd (filter (\<lambda>(summary, t). \<not> (summary = '''' \<or> t = None \<or> st_Tactic (the t) = None))
                              (nil_map (Tactics input)));
          tactics = statsDefensivelySortTacticsByDescendingSuccessRateWithAcceptPredicate tactics
                      (\<lambda>st. time_Sub now (statsNilSafeLastUpdated (Some st)) < oneWeek);
          tactics = (if length tactics > maxEntriesPerDomainEndpoint
                     then take maxEntriesPerDomainEndpoint tactics else tactics) in
      \<lparr>Tactics = Some (fold (\<lambda>t m. AList.update (tacticSummaryKey (the (st_Tactic t))) (Some t) m) tactics [])\<rparr>)"

definition statsContainerPruneEntries :: "int \<Rightarrow> statsContainer \<Rightarrow> statsContainer" where
  "statsContainerPruneEntries now input =
     newStatsContainer\<lparr>DomainEndpoints := Some (fold (\<lambda>(domainEpnt, inputStats) output.
        case inputStats of None \<Rightarrow> output
        | Some stats \<Rightarrow>
            if domainEpnt = '''' \<or> length (nil_map (Tactics stats)) \<le> 0 then output
            else let prunedStats = statsDomainEndpointPruneEntries now stats in
                 if length (nil_map (Tactics prunedStats)) \<le> 0 then output
                 else AList.update domainEpnt (Some prunedStats) output)
        (nil_map (DomainEndpoints input)) [])\<rparr>"

text \<open>The record, which may be nil, and whether the map has it.\<close>

definition GetStatsTacticLocked :: "statsContainer \<Rightarrow> httpsDialerTactic \<Rightarrow> statsTactic option \<times> bool" where
  "GetStatsTacticLocked c tac =
     (case gmap_get (nil_map (DomainEndpoints c)) (domainEndpointKey tac) of
        None \<Rightarrow> (None, False)
      | Some None \<Rightarrow> (None, False)
      | Some (Some d) \<Rightarrow>
          (case gmap_get (nil_map (Tactics d)) (tacticSummaryKey tac) of
             None \<Rightarrow> (None, False) | Some record \<Rightarrow> (record, True)))"

definition SetStatsTacticLocked ::
  "statsContainer \<Rightarrow> httpsDialerTactic \<Rightarrow> statsTactic \<Rightarrow> statsContainer option" where
  "SetStatsTacticLocked c tac record =
     (let (d, m) = (case gmap_get (nil_map (DomainEndpoints c)) (domainEndpointKey tac) of
                      Some d \<Rightarrow> (d, nil_map (DomainEndpoints c))
                    | None \<Rightarrow> (let d = Some \<lparr>Tactics = Some []\<rparr>
                               in (d, AList.update (domainEndpointKey tac) d (nil_map (DomainEndpoints c))))) in
      do { d \<leftarrow> d;
           tactics \<leftarrow> Tactics d;
           Some (c\<lparr>DomainEndpoints := Some (AList.update (domainEndpointKey tac)
             (Some (d\<lparr>Tactics := Some (AList.update (tacticSummaryKey tac) (Some record) tactics)\<rparr>)) m)\<rparr>) })"

section \<open>Loading and storing\<close>

definition statsKey :: string where
  "statsKey = ''httpsdialerstats.state''"

datatype stats_error = ErrStore string | ErrJSON string | ErrStatsContainerWrongVersion int

definition loadStatsContainer ::
  "(string \<Rightarrow> string + string) \<Rightarrow> (string \<Rightarrow> string + statsContainer) \<Rightarrow> int \<Rightarrow> stats_error + statsContainer" where
  "loadStatsContainer kvGet unmarshal now =
     (case kvGet statsKey of
        Inl err \<Rightarrow> Inl (ErrStore err)
      | Inr data \<Rightarrow>
          (case unmarshal data of
             Inl err \<Rightarrow> Inl (ErrJSON err)
           | Inr container \<Rightarrow>
               if Version container \<noteq> statsContainerVersion
               then Inl (ErrStatsContainerWrongVersion (Version container))
               else Inr (statsContainerPruneEntries now container)))"

text \<open>The manager with its store, and whether \<open>closeOnce\<close> has run.\<close>

record 'store statsManager =
  sm_container :: statsContainer
  sm_kvStore :: 'store
  sm_closed :: bool

text \<open>
  The container of a new manager. The assertion on the trim interval is the panic; the background
  goroutine that the constructor starts is the event \<open>EvTrim\<close> below.
\<close>

definition newStatsManager ::
  "('store \<Rightarrow> string \<Rightarrow> string + string) \<Rightarrow> (string \<Rightarrow> string + statsContainer) \<Rightarrow> int \<Rightarrow> 'store \<Rightarrow> int \<Rightarrow>
   'store statsManager option" where
  "newStatsManager kvGet unmarshal now kvStore trimInterval =
     (if trimInterval > 0
      then let root = (case loadStatsContainer (kvGet kvStore) unmarshal now of
                         Inl _ \<Rightarrow> newStatsContainer | Inr container \<Rightarrow> container)
           in Some \<lparr>sm_container = root, sm_kvStore = kvStore, sm_closed = False\<rparr>
      else None)"

section \<open>Event handlers\<close>

definition new_record :: "httpsDialerTactic \<Rightarrow> statsTactic" where
  "new_record tac = \<lparr>
     CountStarted = 0, CountTCPConnectError = 0, CountTCPConnectInterrupt = 0,
     CountTLSHandshakeError = 0, CountTLSHandshakeInterrupt = 0, CountTLSVerificationError = 0,
     CountSuccess = 0, HistoTCPConnectError = Some [], HistoTLSHandshakeError = Some [],
     HistoTLSVerificationError = Some [], LastUpdated = time_zero, st_Tactic = Some (tactic_Clone tac)\<rparr>"

text \<open>The update of a record through the pointer that \<open>GetStatsTacticLocked\<close> found.\<close>

definition put_record :: "statsContainer \<Rightarrow> httpsDialerTactic \<Rightarrow> statsTactic \<Rightarrow> statsContainer" where
  "put_record c tac record =
     (case gmap_get (nil_map (DomainEndpoints c)) (domainEndpointKey tac) of
        Some (Some d) \<Rightarrow>
          c\<lparr>DomainEndpoints := Some (AList.update (domainEndpointKey tac)
            (Some (d\<lparr>Tactics := Some (AList.update (tacticSummaryKey tac) (Some record) (nil_map (Tactics d)))\<rparr>))
            (nil_map (DomainEndpoints c)))\<rparr>
      | _ \<Rightarrow> c)"

definition incr64 :: "int \<Rightarrow> int" where
  "incr64 n = wrap64 (n + 1)"

definition start_record :: "int \<Rightarrow> statsTactic \<Rightarrow> statsTactic" where
  "start_record now record = record\<lparr>CountStarted := incr64 (CountStarted record), LastUpdated := now\<rparr>"

definition OnStarting :: "int \<Rightarrow> httpsDialerTactic \<Rightarrow> statsContainer \<Rightarrow> statsContainer option" where
  "OnStarting now tac c =
     (case GetStatsTacticLocked c tac of
        (_, False) \<Rightarrow> SetStatsTacticLocked c tac (start_record now (new_record tac))
      | (record, True) \<Rightarrow> do { record \<leftarrow> record; Some (put_record c tac (start_record now record)) })"

definition statsSafeIncrementMapStringInt64 :: "(string, int) gomap option \<Rightarrow> string \<Rightarrow> (string, int) gomap option" where
  "statsSafeIncrementMapStringInt64 input v =
     (let m = nil_map input
      in Some (AList.update v (incr64 (case gmap_get m v of None \<Rightarrow> 0 | Some n \<Rightarrow> n)) m))"

text \<open>The shared shape of the other handlers: an unknown tactic is logged and ignored.\<close>

definition with_record ::
  "statsContainer \<Rightarrow> httpsDialerTactic \<Rightarrow> (statsTactic \<Rightarrow> statsTactic option) \<Rightarrow> statsContainer option" where
  "with_record c tac f =
     (case GetStatsTacticLocked c tac of
        (_, False) \<Rightarrow> Some c
      | (record, True) \<Rightarrow> do { record \<leftarrow> record; record \<leftarrow> f record; Some (put_record c tac record) })"

text \<open>\<open>interrupted\<close> is \<open>ctx.Err() != nil\<close>; a nil error fails an assertion.\<close>

definition OnTCPConnectError ::
  "int \<Rightarrow> bool \<Rightarrow> httpsDialerTactic \<Rightarrow> string option \<Rightarrow> statsContainer \<Rightarrow> statsContainer option" where
  "OnTCPConnectError now interrupted tac err c = with_record c tac (\<lambda>record.
     let record = record\<lparr>LastUpdated := now\<rparr> in
     if interrupted then Some (record\<lparr>CountTCPConnectInterrupt := incr64 (CountTCPConnectInterrupt record)\<rparr>)
     else do { err \<leftarrow> err;
               Some (record\<lparr>CountTCPConnectError := incr64 (CountTCPConnectError record),
                 HistoTCPConnectError := statsSafeIncrementMapStringInt64 (HistoTCPConnectError record) err\<rparr>) })"

definition OnTLSHandshakeError ::
  "int \<Rightarrow> bool \<Rightarrow> httpsDialerTactic \<Rightarrow> string option \<Rightarrow> statsContainer \<Rightarrow> statsContainer option" where
  "OnTLSHandshakeError now interrupted tac err c = with_record c tac (\<lambda>record.
     let record = record\<lparr>LastUpdated := now\<rparr> in
     if interrupted then Some (record\<lparr>CountTLSHandshakeInterrupt := incr64 (CountTLSHandshakeInterrupt record)\<rparr>)
     else do { err \<leftarrow> err;
               Some (record\<lparr>CountTLSHandshakeError := incr64 (CountTLSHandshakeError record),
                 HistoTLSHandshakeError := statsSafeIncrementMapStringInt64 (HistoTLSHandshakeError record) err\<rparr>) })"

definition OnTLSVerifyError ::
  "int \<Rightarrow> httpsDialerTactic \<Rightarrow> string option \<Rightarrow> statsContainer \<Rightarrow> statsContainer option" where
  "OnTLSVerifyError now tac err c = with_record c tac (\<lambda>record.
     do { err \<leftarrow> err;
          Some (record\<lparr>CountTLSVerificationError := incr64 (CountTLSVerificationError record),
            HistoTLSVerificationError := statsSafeIncrementMapStringInt64 (HistoTLSVerificationError record) err,
            LastUpdated := now\<rparr>) })"

definition OnSuccess :: "int \<Rightarrow> httpsDialerTactic \<Rightarrow> statsContainer \<Rightarrow> statsContainer option" where
  "OnSuccess now tac c = with_record c tac (\<lambda>record.
     Some (record\<lparr>CountSuccess := incr64 (CountSuccess record), LastUpdated := now\<rparr>))"

text \<open>One round of the background loop.\<close>

definition trim :: "int \<Rightarrow> statsContainer \<Rightarrow> statsContainer" where
  "trim now c = statsContainerPruneEntries now c"

text \<open>The error is the one of the store; the second call does nothing.\<close>

definition statsManager_Close ::
  "('store \<Rightarrow> string \<Rightarrow> string \<Rightarrow> string option \<times> 'store) \<Rightarrow> (statsContainer \<Rightarrow> string) \<Rightarrow> int \<Rightarrow>
   'store statsManager \<Rightarrow> string option \<times> 'store statsManager" where
  "statsManager_Close kvSet marshal now mt =
     (if sm_closed mt then (None, mt)
      else let container = statsContainerPruneEntries now (sm_container mt);
               (err, store) = kvSet (sm_kvStore mt) statsKey (marshal container)
           in (err, mt\<lparr>sm_kvStore := store, sm_closed := True\<rparr>))"

text \<open>A nil entry makes \<open>Clone\<close> panic.\<close>

definition stats_LookupTactics ::
  "statsContainer \<Rightarrow> string \<Rightarrow> string \<Rightarrow> (statsTactic option list \<times> bool) option" where
  "stats_LookupTactics c domain port =
     (case gmap_get (nil_map (DomainEndpoints c)) (join_host_port domain port) of
        None \<Rightarrow> Some ([], False)
      | Some None \<Rightarrow> Some ([], False)
      | Some (Some d) \<Rightarrow>
          do { out \<leftarrow> map_each (map_option statsTactic_Clone) (gmap_vals (nil_map (Tactics d)));
               Some (map Some out, length out > 0) })"

section \<open>Well-formed statistics\<close>

text \<open>A Go map has each key once; \<open>record_maps\<close> says so for the histograms of a record.\<close>

definition record_maps :: "statsTactic \<Rightarrow> bool" where
  "record_maps st \<longleftrightarrow> gmap_wf (nil_map (HistoTCPConnectError st)) \<and>
     gmap_wf (nil_map (HistoTLSHandshakeError st)) \<and> gmap_wf (nil_map (HistoTLSVerificationError st))"

definition endpoint_maps :: "statsDomainEndpoint \<Rightarrow> bool" where
  "endpoint_maps d \<longleftrightarrow> gmap_wf (nil_map (Tactics d)) \<and>
     (\<forall>(_, st) \<in> set (nil_map (Tactics d)). st \<noteq> None \<longrightarrow> record_maps (the st))"

definition container_maps :: "statsContainer \<Rightarrow> bool" where
  "container_maps c \<longleftrightarrow> gmap_wf (nil_map (DomainEndpoints c)) \<and>
     (\<forall>(_, d) \<in> set (nil_map (DomainEndpoints c)). d \<noteq> None \<longrightarrow> endpoint_maps (the d))"

text \<open>No nil pointer, no nil map, and each record is stored under the summary key of its tactic.\<close>

definition entry_wf :: "string \<Rightarrow> statsTactic option \<Rightarrow> bool" where
  "entry_wf key st \<longleftrightarrow> st \<noteq> None \<and> record_maps (the st) \<and> st_Tactic (the st) \<noteq> None \<and>
     tacticSummaryKey (the (st_Tactic (the st))) = key"

definition stats_endpoint_wf :: "statsDomainEndpoint option \<Rightarrow> bool" where
  "stats_endpoint_wf d \<longleftrightarrow> d \<noteq> None \<and> Tactics (the d) \<noteq> None \<and>
     gmap_wf (the (Tactics (the d))) \<and> (\<forall>(key, st) \<in> set (the (Tactics (the d))). entry_wf key st)"

definition stats_wf :: "statsContainer \<Rightarrow> bool" where
  "stats_wf c \<longleftrightarrow> DomainEndpoints c \<noteq> None \<and> Version c = statsContainerVersion \<and>
     gmap_wf (the (DomainEndpoints c)) \<and> (\<forall>(epnt, d) \<in> set (the (DomainEndpoints c)). stats_endpoint_wf d)"

lemma fold_clone_map: "gmap_wf (acc @ m) \<Longrightarrow> fold (\<lambda>(key, v) output. AList.update key v output) m acc = acc @ m"
proof (induction m arbitrary: acc)
  case (Cons kv m)
  obtain k v where kv: "kv = (k, v)" by (cases kv)
  with Cons.prems have "AList.update k v acc = acc @ [(k, v)]" by (intro gmap_update_new) auto
  with Cons kv show ?case by simp
qed simp

lemma clone_map_id: "gmap_wf (nil_map m) \<Longrightarrow> statsMaybeCloneMapStringInt64 m = m"
  using fold_clone_map [of "[]"] by (cases m) (auto simp: statsMaybeCloneMapStringInt64_def nil_map_def)

lemma statsTactic_Clone_id: "record_maps st \<Longrightarrow> statsTactic_Clone st = st"
  by (cases "st_Tactic st")
    (simp_all add: statsTactic_Clone_def record_maps_def clone_map_id statsMaybeCloneTactic_def)

section \<open>Pruning\<close>

lemma stats_work_eq:
  assumes "\<forall>t \<in> set ts. t \<noteq> None \<longrightarrow> record_maps (the t)"
  shows "stats_work ts = map the (filter (\<lambda>t. t \<noteq> None \<and> st_Tactic (the t) \<noteq> None) ts)"
  using assms by (induction ts) (auto simp: statsTactic_Clone_id split: option.splits)

lemma sorted_accepted_set:
  assumes "\<forall>t \<in> set ts. t \<noteq> None \<longrightarrow> record_maps (the t)"
  shows "set (statsDefensivelySortTacticsByDescendingSuccessRateWithAcceptPredicate ts accept) =
    {st. Some st \<in> set ts \<and> st_Tactic st \<noteq> None \<and> accept st}"
  unfolding statsDefensivelySortTacticsByDescendingSuccessRateWithAcceptPredicate_def stats_work_eq [OF assms]
  by force

text \<open>The map that the last loop of the pruning builds.\<close>

definition index_tactics :: "statsTactic list \<Rightarrow> (string, statsTactic option) gomap" where
  "index_tactics ts = fold (\<lambda>t m. AList.update (tacticSummaryKey (the (st_Tactic t))) (Some t) m) ts []"

lemma index_tactics_snoc:
  "index_tactics (ts @ [t]) = AList.update (tacticSummaryKey (the (st_Tactic t))) (Some t) (index_tactics ts)"
  by (simp add: index_tactics_def)

lemma index_tactics_wf: "gmap_wf (index_tactics ts)"
  by (induction ts rule: rev_induct) (simp_all add: index_tactics_snoc, simp add: index_tactics_def)

lemma update_mem:
  "(k', v') \<in> set (AList.update k v m) \<Longrightarrow> k' = k \<and> v' = v \<or> (k', v') \<in> set m"
  by (induction m) (auto split: if_splits)

lemma index_tactics_mem:
  "(key, st) \<in> set (index_tactics ts) \<Longrightarrow>
     \<exists>t \<in> set ts. st = Some t \<and> key = tacticSummaryKey (the (st_Tactic t))"
proof (induction ts rule: rev_induct)
  case Nil
  then show ?case by (simp add: index_tactics_def)
next
  case (snoc t ts)
  then show ?case by (auto simp: index_tactics_snoc dest!: update_mem)
qed

lemma index_tactics_keys:
  "fst ` set (index_tactics ts) = (\<lambda>t. tacticSummaryKey (the (st_Tactic t))) ` set ts"
proof (induction ts rule: rev_induct)
  case Nil
  then show ?case by (simp add: index_tactics_def)
next
  case (snoc t ts)
  then show ?case by (simp add: index_tactics_snoc)
qed

lemma index_tactics_length: "length (index_tactics ts) \<le> length ts"
proof -
  have "length (index_tactics ts) = card (fst ` set (index_tactics ts))"
    using index_tactics_wf [of ts] by (metis distinct_card length_map list.set_map)
  also have "\<dots> \<le> card (set ts)" unfolding index_tactics_keys by (rule card_image_le) simp
  also have "\<dots> \<le> length ts" by (rule card_length)
  finally show ?thesis .
qed

definition fresh :: "int \<Rightarrow> statsTactic \<Rightarrow> bool" where
  "fresh now st \<longleftrightarrow> time_Sub now (LastUpdated st) < oneWeek"

text \<open>The entries that survive the first two steps of the pruning of an endpoint.\<close>

definition prune_candidates :: "int \<Rightarrow> statsDomainEndpoint \<Rightarrow> statsTactic list" where
  "prune_candidates now d =
     statsDefensivelySortTacticsByDescendingSuccessRateWithAcceptPredicate
       (map snd (filter (\<lambda>(summary, t). \<not> (summary = '''' \<or> t = None \<or> st_Tactic (the t) = None))
         (nil_map (Tactics d)))) (fresh now)"

lemma prune_endpoint_eq:
  "statsDomainEndpointPruneEntries now d = \<lparr>Tactics = Some (index_tactics (take 10 (prune_candidates now d)))\<rparr>"
  by (simp add: statsDomainEndpointPruneEntries_def prune_candidates_def index_tactics_def Let_def
      maxEntriesPerDomainEndpoint_def fresh_def [abs_def] statsNilSafeLastUpdated_def)

lemma prune_candidates_set:
  assumes "endpoint_maps d"
  shows "set (prune_candidates now d) =
    {st. \<exists>key. (key, Some st) \<in> set (nil_map (Tactics d)) \<and> key \<noteq> '''' \<and> st_Tactic st \<noteq> None \<and> fresh now st}"
proof -
  have "\<forall>t \<in> set (map snd (filter (\<lambda>(summary, t). \<not> (summary = '''' \<or> t = None \<or> st_Tactic (the t) = None))
      (nil_map (Tactics d)))). t \<noteq> None \<longrightarrow> record_maps (the t)"
    using assms by (auto simp: endpoint_maps_def)
  note set = sorted_accepted_set [OF this]
  have "Some st \<in> set (map snd (filter (\<lambda>(summary, t). \<not> (summary = '''' \<or> t = None \<or> st_Tactic (the t) = None))
      (nil_map (Tactics d)))) \<longleftrightarrow>
    (\<exists>key. (key, Some st) \<in> set (nil_map (Tactics d)) \<and> key \<noteq> '''' \<and> st_Tactic st \<noteq> None)" for st
    by (auto simp: image_iff Bex_def)
  then show ?thesis unfolding prune_candidates_def set by blast
qed

lemma prune_endpoint_entry:
  assumes "endpoint_maps d" and "(key, st) \<in> set (nil_map (Tactics (statsDomainEndpointPruneEntries now d)))"
  shows "entry_wf key st \<and> fresh now (the st) \<and> (\<exists>key'. (key', st) \<in> set (nil_map (Tactics d)))"
proof -
  from assms(2) obtain t where t: "t \<in> set (prune_candidates now d)" "st = Some t"
      "key = tacticSummaryKey (the (st_Tactic t))"
    by (auto simp: prune_endpoint_eq nil_map_def dest!: index_tactics_mem in_set_takeD)
  moreover have "record_maps t"
    using t(1) assms(1) by (auto simp: prune_candidates_set [OF assms(1)] endpoint_maps_def)
  ultimately show ?thesis
    by (auto simp: prune_candidates_set [OF assms(1)] entry_wf_def)
qed

lemma prune_endpoint_wf: "endpoint_maps d \<Longrightarrow> stats_endpoint_wf (Some (statsDomainEndpointPruneEntries now d))"
  using prune_endpoint_entry [of d _ _ now]
  by (auto simp: stats_endpoint_wf_def prune_endpoint_eq index_tactics_wf nil_map_def)

lemma prune_endpoint_length: "length (nil_map (Tactics (statsDomainEndpointPruneEntries now d))) \<le> 10"
  using index_tactics_length [of "take 10 (prune_candidates now d)"]
  by (simp add: prune_endpoint_eq nil_map_def)

text \<open>The loop over the endpoints, as a filter over the map.\<close>

definition prune_entry :: "int \<Rightarrow> string \<Rightarrow> statsDomainEndpoint option \<Rightarrow> statsDomainEndpoint option option" where
  "prune_entry now epnt d =
     (case d of None \<Rightarrow> None
      | Some stats \<Rightarrow>
          if epnt = '''' \<or> nil_map (Tactics stats) = [] \<or>
             nil_map (Tactics (statsDomainEndpointPruneEntries now stats)) = []
          then None else Some (Some (statsDomainEndpointPruneEntries now stats)))"

lemma fold_update_filter:
  assumes "gmap_wf m" and "fst ` set acc \<inter> fst ` set m = {}"
  shows "fold (\<lambda>(k, v) out. case f k v of None \<Rightarrow> out | Some w \<Rightarrow> AList.update k w out) m acc =
    acc @ List.map_filter (\<lambda>(k, v). map_option (Pair k) (f k v)) m"
  using assms
proof (induction m arbitrary: acc)
  case Nil
  then show ?case by (simp add: map_filter_simps)
next
  case (Cons kv m)
  obtain k v where kv: "kv = (k, v)" by (cases kv)
  show ?case
  proof (cases "f k v")
    case None
    with Cons kv show ?thesis by (simp add: map_filter_simps)
  next
    case (Some w)
    have "AList.update k w acc = acc @ [(k, w)]" by (rule gmap_update_new) (use Cons.prems kv in auto)
    with Cons Some kv show ?thesis by (simp add: map_filter_simps)
  qed
qed

lemma prune_container_eq:
  assumes "container_maps c"
  shows "statsContainerPruneEntries now c = \<lparr>
    DomainEndpoints = Some (List.map_filter (\<lambda>(k, v). map_option (Pair k) (prune_entry now k v)) (nil_map (DomainEndpoints c))),
    Version = statsContainerVersion\<rparr>"
proof -
  have "(\<lambda>(domainEpnt, inputStats) output. case inputStats of None \<Rightarrow> output
        | Some stats \<Rightarrow>
            if domainEpnt = '''' \<or> length (nil_map (Tactics stats)) \<le> 0 then output
            else let prunedStats = statsDomainEndpointPruneEntries now stats in
                 if length (nil_map (Tactics prunedStats)) \<le> 0 then output
                 else AList.update domainEpnt (Some prunedStats) output) =
      (\<lambda>(k, v) out. case prune_entry now k v of None \<Rightarrow> out | Some w \<Rightarrow> AList.update k w out)"
    by (auto simp: fun_eq_iff prune_entry_def Let_def split: option.splits)
  then show ?thesis
    using fold_update_filter [of "nil_map (DomainEndpoints c)" "[]"] assms
    by (simp add: statsContainerPruneEntries_def newStatsContainer_def container_maps_def)
qed

lemma prune_container_mem:
  assumes "container_maps c"
  shows "(epnt, d) \<in> set (nil_map (DomainEndpoints (statsContainerPruneEntries now c))) \<longleftrightarrow>
    (\<exists>v. (epnt, v) \<in> set (nil_map (DomainEndpoints c)) \<and> prune_entry now epnt v = Some d)"
  by (auto simp: prune_container_eq [OF assms] nil_map_def set_map_filter_eq)

lemma prune_container_wf: "container_maps c \<Longrightarrow> stats_wf (statsContainerPruneEntries now c)"
proof -
  assume c: "container_maps c"
  have "stats_endpoint_wf d" if "(epnt, d) \<in> set (nil_map (DomainEndpoints (statsContainerPruneEntries now c)))" for epnt d
  proof -
    from that obtain v where "(epnt, v) \<in> set (nil_map (DomainEndpoints c))" "prune_entry now epnt v = Some d"
      unfolding prune_container_mem [OF c] by blast
    then show ?thesis
      using c prune_endpoint_wf
      by (force simp: prune_entry_def container_maps_def split: option.splits if_splits)
  qed
  moreover have "gmap_wf (nil_map (DomainEndpoints (statsContainerPruneEntries now c)))"
  proof -
    have "gmap_wf (nil_map (DomainEndpoints c))" using c by (simp add: container_maps_def)
    from map_filter_keys_distinct [OF this, of "prune_entry now"] show ?thesis
      unfolding prune_container_eq [OF c] nil_map_def by simp
  qed
  ultimately show ?thesis
    by (auto simp: stats_wf_def prune_container_eq [OF c] nil_map_def)
qed

section \<open>Well-formedness is kept\<close>

lemma entry_wf_maps: "entry_wf key st \<Longrightarrow> record_maps (the st)"
  by (simp add: entry_wf_def)

lemma stats_wf_maps: "stats_wf c \<Longrightarrow> container_maps c"
  by (fastforce simp: stats_wf_def container_maps_def stats_endpoint_wf_def endpoint_maps_def nil_map_def entry_wf_def
      split: option.splits)

lemma stats_wf_new: "stats_wf newStatsContainer"
  by (simp add: stats_wf_def newStatsContainer_def)

lemma trim_wf: "stats_wf c \<Longrightarrow> stats_wf (trim now c)"
  by (simp add: trim_def prune_container_wf stats_wf_maps)

text \<open>The endpoint and the record of a tactic in a well-formed container.\<close>

lemma stats_wf_endpoint:
  assumes "stats_wf c" and "gmap_get (nil_map (DomainEndpoints c)) epnt = Some d"
  shows "\<exists>m. d = Some \<lparr>Tactics = Some m\<rparr> \<and> gmap_wf m \<and> (\<forall>(key, st) \<in> set m. entry_wf key st)"
proof -
  have "stats_endpoint_wf d"
    using assms map_of_SomeD [OF assms(2)] by (auto simp: stats_wf_def nil_map_def split: option.splits)
  then show ?thesis
    by (cases d) (auto simp: stats_endpoint_wf_def, metis statsDomainEndpoint.cases statsDomainEndpoint.select_convs(1) option.collapse)
qed

lemma get_record_cases:
  assumes "stats_wf c"
  shows "GetStatsTacticLocked c tac = (None, False) \<or>
    (\<exists>m st. gmap_get (nil_map (DomainEndpoints c)) (domainEndpointKey tac) = Some (Some \<lparr>Tactics = Some m\<rparr>) \<and>
      gmap_get m (tacticSummaryKey tac) = Some (Some st) \<and> entry_wf (tacticSummaryKey tac) (Some st) \<and>
      GetStatsTacticLocked c tac = (Some st, True))"
proof (cases "gmap_get (nil_map (DomainEndpoints c)) (domainEndpointKey tac)")
  case None
  then show ?thesis by (simp add: GetStatsTacticLocked_def)
next
  case (Some d)
  then obtain m where m: "d = Some \<lparr>Tactics = Some m\<rparr>" "\<forall>(key, st) \<in> set m. entry_wf key st"
    using stats_wf_endpoint [OF assms] by blast
  show ?thesis
  proof (cases "gmap_get m (tacticSummaryKey tac)")
    case None
    with Some m show ?thesis by (simp add: GetStatsTacticLocked_def nil_map_def)
  next
    case get: (Some st)
    from map_of_SomeD [OF get] m(2) have "entry_wf (tacticSummaryKey tac) st" by auto
    then obtain r where "st = Some r" by (auto simp: entry_wf_def)
    with Some m get \<open>entry_wf (tacticSummaryKey tac) st\<close> show ?thesis
      by (simp add: GetStatsTacticLocked_def nil_map_def)
  qed
qed

lemma endpoint_update_wf:
  assumes "stats_wf c" and "gmap_wf m" and "\<forall>(key, st) \<in> set m. entry_wf key st" and "entry_wf key (Some st)"
  shows "stats_wf (c\<lparr>DomainEndpoints := Some (AList.update epnt
    (Some \<lparr>Tactics = Some (AList.update key (Some st) m)\<rparr>) (nil_map (DomainEndpoints c)))\<rparr>)"
proof -
  have "\<forall>(key, st) \<in> set (AList.update key (Some st) m). entry_wf key st"
    using assms(3,4) by (auto dest!: update_mem)
  then have "stats_endpoint_wf (Some \<lparr>Tactics = Some (AList.update key (Some st) m)\<rparr>)"
    using assms(2) by (auto simp: stats_endpoint_wf_def)
  then show ?thesis
    using assms(1) by (auto simp: stats_wf_def nil_map_def dest!: update_mem)
qed

lemma put_record_wf:
  assumes "stats_wf c" and "GetStatsTacticLocked c tac = (Some st, True)"
    and "entry_wf (tacticSummaryKey tac) (Some st')"
  shows "stats_wf (put_record c tac st')"
proof -
  obtain m where m: "gmap_get (nil_map (DomainEndpoints c)) (domainEndpointKey tac) = Some (Some \<lparr>Tactics = Some m\<rparr>)"
    using get_record_cases [OF assms(1), of tac] assms(2) by auto
  from stats_wf_endpoint [OF assms(1) m] have wf: "gmap_wf m" "\<forall>(key, st) \<in> set m. entry_wf key st" by auto
  show ?thesis
    using endpoint_update_wf [OF assms(1) wf assms(3)] m by (simp add: put_record_def nil_map_def)
qed

lemma set_record_wf:
  assumes "stats_wf c" and "entry_wf (tacticSummaryKey tac) (Some st)"
  shows "\<exists>c'. SetStatsTacticLocked c tac st = Some c' \<and> stats_wf c'"
proof (cases "gmap_get (nil_map (DomainEndpoints c)) (domainEndpointKey tac)")
  case None
  have "stats_wf (c\<lparr>DomainEndpoints := Some (AList.update (domainEndpointKey tac)
      (Some \<lparr>Tactics = Some (AList.update (tacticSummaryKey tac) (Some st) [])\<rparr>) (nil_map (DomainEndpoints c)))\<rparr>)"
    by (rule endpoint_update_wf [OF assms(1) _ _ assms(2)]) simp_all
  with None show ?thesis by (simp add: SetStatsTacticLocked_def Let_def update_update_same)
next
  case (Some d)
  then obtain m where m: "d = Some \<lparr>Tactics = Some m\<rparr>" "gmap_wf m" "\<forall>(key, st) \<in> set m. entry_wf key st"
    using stats_wf_endpoint [OF assms(1)] by blast
  from endpoint_update_wf [OF assms(1) m(2,3) assms(2)] Some m(1) show ?thesis
    by (simp add: SetStatsTacticLocked_def)
qed

section \<open>The manager as a state machine\<close>

datatype stats_event =
    EvStarting httpsDialerTactic
  | EvTCPConnectError bool httpsDialerTactic string
  | EvTLSHandshakeError bool httpsDialerTactic string
  | EvTLSVerifyError httpsDialerTactic string
  | EvSuccess httpsDialerTactic
  | EvTrim

fun stats_apply :: "int \<Rightarrow> stats_event \<Rightarrow> statsContainer \<Rightarrow> statsContainer option" where
  "stats_apply now (EvStarting tac) c = OnStarting now tac c"
| "stats_apply now (EvTCPConnectError interrupted tac err) c = OnTCPConnectError now interrupted tac (Some err) c"
| "stats_apply now (EvTLSHandshakeError interrupted tac err) c = OnTLSHandshakeError now interrupted tac (Some err) c"
| "stats_apply now (EvTLSVerifyError tac err) c = OnTLSVerifyError now tac (Some err) c"
| "stats_apply now (EvSuccess tac) c = OnSuccess now tac c"
| "stats_apply now EvTrim c = Some (trim now c)"

text \<open>The containers that any interleaving of the handlers and of the background loop reaches.\<close>

inductive stats_reachable ::
  "('store \<Rightarrow> string \<Rightarrow> string + string) \<Rightarrow> (string \<Rightarrow> string + statsContainer) \<Rightarrow> statsContainer \<Rightarrow> bool"
  for kvGet and unmarshal where
  init: "newStatsManager kvGet unmarshal now kvStore trimInterval = Some mt \<Longrightarrow>
    stats_reachable kvGet unmarshal (sm_container mt)"
| event: "stats_reachable kvGet unmarshal c \<Longrightarrow> stats_apply now ev c = Some c' \<Longrightarrow>
    stats_reachable kvGet unmarshal c'"

inductive_cases stats_reachableE: "stats_reachable kvGet unmarshal c"

text \<open>
  What the manager promises, on a map from the endpoint key and the summary key of a tactic to its
  record: an event changes the record of its own tactic only.
\<close>

type_synonym stats_map = "string \<times> string \<Rightarrow> statsTactic option"

definition stats_abs :: "statsContainer \<Rightarrow> stats_map" where
  "stats_abs c = (\<lambda>(epnt, key).
     case gmap_get (nil_map (DomainEndpoints c)) epnt of
       Some (Some d) \<Rightarrow> (case gmap_get (nil_map (Tactics d)) key of Some st \<Rightarrow> st | None \<Rightarrow> None)
     | _ \<Rightarrow> None)"

definition stats_keys :: "httpsDialerTactic \<Rightarrow> string \<times> string" where
  "stats_keys tac = (domainEndpointKey tac, tacticSummaryKey tac)"

fun event_tactic :: "stats_event \<Rightarrow> httpsDialerTactic option" where
  "event_tactic (EvStarting tac) = Some tac"
| "event_tactic (EvTCPConnectError _ tac _) = Some tac"
| "event_tactic (EvTLSHandshakeError _ tac _) = Some tac"
| "event_tactic (EvTLSVerifyError tac _) = Some tac"
| "event_tactic (EvSuccess tac) = Some tac"
| "event_tactic EvTrim = None"

fun record_event :: "int \<Rightarrow> stats_event \<Rightarrow> statsTactic \<Rightarrow> statsTactic" where
  "record_event now (EvStarting _) st =
     st\<lparr>CountStarted := incr64 (CountStarted st), LastUpdated := now\<rparr>"
| "record_event now (EvTCPConnectError interrupted _ err) st =
     (if interrupted
      then st\<lparr>CountTCPConnectInterrupt := incr64 (CountTCPConnectInterrupt st), LastUpdated := now\<rparr>
      else st\<lparr>CountTCPConnectError := incr64 (CountTCPConnectError st),
              HistoTCPConnectError := statsSafeIncrementMapStringInt64 (HistoTCPConnectError st) err, LastUpdated := now\<rparr>)"
| "record_event now (EvTLSHandshakeError interrupted _ err) st =
     (if interrupted
      then st\<lparr>CountTLSHandshakeInterrupt := incr64 (CountTLSHandshakeInterrupt st), LastUpdated := now\<rparr>
      else st\<lparr>CountTLSHandshakeError := incr64 (CountTLSHandshakeError st),
              HistoTLSHandshakeError := statsSafeIncrementMapStringInt64 (HistoTLSHandshakeError st) err, LastUpdated := now\<rparr>)"
| "record_event now (EvTLSVerifyError _ err) st =
     st\<lparr>CountTLSVerificationError := incr64 (CountTLSVerificationError st),
        HistoTLSVerificationError := statsSafeIncrementMapStringInt64 (HistoTLSVerificationError st) err, LastUpdated := now\<rparr>"
| "record_event now (EvSuccess _) st =
     st\<lparr>CountSuccess := incr64 (CountSuccess st), LastUpdated := now\<rparr>"
| "record_event now EvTrim st = st"

definition map_event :: "int \<Rightarrow> stats_event \<Rightarrow> stats_map \<Rightarrow> stats_map" where
  "map_event now ev m =
     (case event_tactic ev of None \<Rightarrow> m
      | Some tac \<Rightarrow>
          (case m (stats_keys tac) of
             Some st \<Rightarrow> m(stats_keys tac \<mapsto> record_event now ev st)
           | None \<Rightarrow> if (\<exists>t. ev = EvStarting t) then m(stats_keys tac \<mapsto> record_event now ev (new_record tac)) else m))"

lemma get_record_abs:
  "stats_wf c \<Longrightarrow> GetStatsTacticLocked c tac = (stats_abs c (stats_keys tac), stats_abs c (stats_keys tac) \<noteq> None)"
  using get_record_cases [of c tac]
  by (auto simp: stats_abs_def stats_keys_def GetStatsTacticLocked_def nil_map_def split: option.splits)

lemma stats_abs_entry: "stats_wf c \<Longrightarrow> stats_abs c (stats_keys tac) = Some st \<Longrightarrow> entry_wf (tacticSummaryKey tac) (Some st)"
  using get_record_cases [of c tac] by (auto simp: get_record_abs)

lemma put_record_abs:
  assumes "stats_wf c" and "stats_abs c (stats_keys tac) \<noteq> None"
  shows "stats_abs (put_record c tac st) = (stats_abs c)(stats_keys tac \<mapsto> st)"
proof -
  from assms obtain st0 where "GetStatsTacticLocked c tac = (Some st0, True)"
    by (auto simp: get_record_abs)
  then obtain m where "gmap_get (nil_map (DomainEndpoints c)) (domainEndpointKey tac) = Some (Some \<lparr>Tactics = Some m\<rparr>)"
    using get_record_cases [OF assms(1), of tac] by auto
  then show ?thesis
    by (auto simp: fun_eq_iff stats_abs_def put_record_def nil_map_def stats_keys_def)
qed

lemma set_record_abs:
  assumes "stats_wf c" and "SetStatsTacticLocked c tac st = Some c'"
  shows "stats_abs c' = (stats_abs c)(stats_keys tac \<mapsto> st)"
proof (cases "gmap_get (nil_map (DomainEndpoints c)) (domainEndpointKey tac)")
  case None
  with assms(2) show ?thesis
    by (auto simp: fun_eq_iff SetStatsTacticLocked_def Let_def update_update_same stats_abs_def nil_map_def stats_keys_def)
next
  case (Some d)
  then obtain m where "d = Some \<lparr>Tactics = Some m\<rparr>" using stats_wf_endpoint [OF assms(1)] by blast
  with Some assms(2) show ?thesis
    by (auto simp: fun_eq_iff SetStatsTacticLocked_def stats_abs_def nil_map_def stats_keys_def)
qed

lemma increment_wf: "gmap_wf (nil_map histo) \<Longrightarrow> gmap_wf (nil_map (statsSafeIncrementMapStringInt64 histo err))"
  by (simp add: statsSafeIncrementMapStringInt64_def nil_map_def Let_def)

lemma record_event_wf: "entry_wf key (Some st) \<Longrightarrow> entry_wf key (Some (record_event now ev st))"
  by (cases ev) (auto simp: entry_wf_def record_maps_def increment_wf)

lemma new_record_wf: "entry_wf (tacticSummaryKey tac) (Some (new_record tac))"
  by (simp add: entry_wf_def new_record_def record_maps_def nil_map_def)

lemma with_record_refines:
  assumes "stats_wf c" and "event_tactic ev = Some tac" and "\<nexists>t. ev = EvStarting t"
    and "\<And>st. f st = Some (record_event now ev st)"
  shows "\<exists>c'. with_record c tac f = Some c' \<and> stats_wf c' \<and> stats_abs c' = map_event now ev (stats_abs c)"
proof (cases "stats_abs c (stats_keys tac)")
  case None
  with assms show ?thesis by (simp add: with_record_def get_record_abs map_event_def)
next
  case (Some st)
  with assms show ?thesis
    using put_record_wf [OF assms(1) _ record_event_wf [OF stats_abs_entry [OF assms(1) Some]], of st]
    by (simp add: with_record_def get_record_abs map_event_def put_record_abs)
qed

lemma OnStarting_refines:
  assumes "stats_wf c"
  shows "\<exists>c'. OnStarting now tac c = Some c' \<and> stats_wf c' \<and>
    stats_abs c' = map_event now (EvStarting tac) (stats_abs c)"
proof (cases "stats_abs c (stats_keys tac)")
  case None
  have "entry_wf (tacticSummaryKey tac) (Some (start_record now (new_record tac)))"
    using record_event_wf [OF new_record_wf, of tac now "EvStarting tac"] by (simp add: start_record_def)
  from set_record_wf [OF assms this] obtain c' where
    "SetStatsTacticLocked c tac (start_record now (new_record tac)) = Some c'" "stats_wf c'" by blast
  with None assms set_record_abs [OF assms] show ?thesis
    by (simp add: OnStarting_def get_record_abs map_event_def start_record_def)
next
  case (Some st)
  with assms show ?thesis
    using put_record_wf [OF assms(1) _ record_event_wf [OF stats_abs_entry [OF assms(1) Some]], of st now "EvStarting tac"]
    by (simp add: OnStarting_def get_record_abs map_event_def put_record_abs start_record_def)
qed

lemma handlers_refine:
  assumes "stats_wf c" and "ev \<noteq> EvTrim"
  shows "\<exists>c'. stats_apply now ev c = Some c' \<and> stats_wf c' \<and> stats_abs c' = map_event now ev (stats_abs c)"
  using assms(2)
  by (cases ev) (auto simp: OnTCPConnectError_def OnTLSHandshakeError_def OnTLSVerifyError_def OnSuccess_def Let_def
      intro!: OnStarting_refines with_record_refines [OF assms(1)] assms(1))

lemma stats_apply_wf: "stats_wf c \<Longrightarrow> \<exists>c'. stats_apply now ev c = Some c' \<and> stats_wf c'"
  using handlers_refine [of c ev now] trim_wf [of c now] by (cases "ev = EvTrim") auto

definition decodes_maps :: "(string \<Rightarrow> string + statsContainer) \<Rightarrow> bool" where
  "decodes_maps unmarshal \<longleftrightarrow> (\<forall>data c. unmarshal data = Inr c \<longrightarrow> container_maps c)"

lemma load_wf: "decodes_maps unmarshal \<Longrightarrow> loadStatsContainer kvGet unmarshal now = Inr c \<Longrightarrow> stats_wf c"
  by (auto simp: loadStatsContainer_def decodes_maps_def prune_container_wf split: sum.splits if_splits)

lemma new_manager_wf:
  "decodes_maps unmarshal \<Longrightarrow> newStatsManager kvGet unmarshal now kvStore trimInterval = Some mt \<Longrightarrow> stats_wf (sm_container mt)"
  by (auto simp: newStatsManager_def Let_def stats_wf_new load_wf split: if_splits sum.splits)

lemma stats_reachable_wf:
  assumes "stats_reachable kvGet unmarshal c" and "decodes_maps unmarshal"
  shows "stats_wf c"
  using assms
proof (induction rule: stats_reachable.induct)
  case (init now kvStore trimInterval mt)
  from new_manager_wf [OF init(2,1)] show ?case .
next
  case (event c now ev c')
  then show ?case using stats_apply_wf [of c now ev] by auto
qed

section \<open>Pruning a well-formed container\<close>

abbreviation record_key :: "statsTactic \<Rightarrow> string" where
  "record_key st \<equiv> tacticSummaryKey (the (st_Tactic st))"

lemma summary_key_nonempty [simp]: "tacticSummaryKey tac \<noteq> []"
  by (simp add: tacticSummaryKey_def)

lemma entries_as_records:
  assumes "\<forall>(key, st) \<in> set m. entry_wf key st"
  shows "\<exists>rs. m = map (\<lambda>r. (record_key r, Some r)) rs \<and> (\<forall>r \<in> set rs. record_maps r \<and> st_Tactic r \<noteq> None)"
proof (intro exI conjI)
  show "m = map (\<lambda>r. (record_key r, Some r)) (map (the \<circ> snd) m)"
    using assms by (induction m) (auto simp: entry_wf_def)
  show "\<forall>r \<in> set (map (the \<circ> snd) m). record_maps r \<and> st_Tactic r \<noteq> None"
    using assms by (auto simp: entry_wf_def)
qed

text \<open>The candidates are the fresh records, in another order.\<close>

lemma prune_candidates_mset:
  assumes "\<forall>r \<in> set rs. record_maps r \<and> st_Tactic r \<noteq> None"
  shows "mset (prune_candidates now \<lparr>Tactics = Some (map (\<lambda>r. (record_key r, Some r)) rs)\<rparr>) = mset (filter (fresh now) rs)"
proof -
  have "map snd (filter (\<lambda>(summary, t). \<not> (summary = '''' \<or> t = None \<or> st_Tactic (the t) = None))
      (map (\<lambda>r. (record_key r, Some r)) rs)) = map Some rs"
    using assms by (induction rs) auto
  moreover have "stats_work (map Some rs) = rs"
    using assms by (induction rs) (auto simp: statsTactic_Clone_id)
  ultimately show ?thesis
    by (simp add: prune_candidates_def nil_map_def
        statsDefensivelySortTacticsByDescendingSuccessRateWithAcceptPredicate_def)
qed

lemma index_tactics_distinct:
  assumes "distinct (map record_key ts)"
  shows "index_tactics ts = map (\<lambda>r. (record_key r, Some r)) ts"
  using assms
proof (induction ts rule: rev_induct)
  case Nil
  then show ?case by (simp add: index_tactics_def)
next
  case (snoc t ts)
  then show ?case by (simp add: index_tactics_snoc, intro gmap_update_new) auto
qed

text \<open>
  An endpoint keeps ten of its fresh records, or all of them when there are at most ten, under their
  old keys.
\<close>

lemma prune_endpoint_records:
  assumes "gmap_wf m" and "\<forall>(key, st) \<in> set m. entry_wf key st"
  shows "\<exists>m'. statsDomainEndpointPruneEntries now \<lparr>Tactics = Some m\<rparr> = \<lparr>Tactics = Some m'\<rparr> \<and> gmap_wf m' \<and>
    set m' \<subseteq> {(key, st) \<in> set m. fresh now (the st)} \<and>
    length m' = min 10 (length (filter (fresh now \<circ> the \<circ> snd) m))"
proof -
  obtain rs where m: "m = map (\<lambda>r. (record_key r, Some r)) rs"
      and rs: "\<forall>r \<in> set rs. record_maps r \<and> st_Tactic r \<noteq> None"
    using entries_as_records [OF assms(2)] by blast
  define ts where "ts = prune_candidates now \<lparr>Tactics = Some m\<rparr>"
  have ts: "mset ts = mset (filter (fresh now) rs)"
    unfolding ts_def m by (rule prune_candidates_mset [OF rs])
  have "distinct (map record_key rs)" using assms(1) by (simp add: m o_def)
  then have "distinct (map record_key (filter (fresh now) rs))" by (rule distinct_map_filter)
  then have dist: "distinct (map record_key ts)"
    using ts by (metis mset_map mset_eq_imp_distinct_iff)
  then have dist10: "distinct (map record_key (take 10 ts))" by (metis distinct_take take_map)
  have sub: "set (take 10 ts) \<subseteq> set (filter (fresh now) rs)"
    unfolding mset_eq_setD [OF ts, symmetric] by (rule set_take_subset)
  have len: "length ts = length (filter (fresh now \<circ> the \<circ> snd) m)"
    using mset_eq_length [OF ts] by (simp add: m filter_map o_def)
  let ?m' = "map (\<lambda>r. (record_key r, Some r)) (take 10 ts)"
  have "statsDomainEndpointPruneEntries now \<lparr>Tactics = Some m\<rparr> = \<lparr>Tactics = Some ?m'\<rparr>"
    using dist10 by (simp add: prune_endpoint_eq ts_def [symmetric] index_tactics_distinct)
  moreover have "gmap_wf ?m'" using dist10 by (simp add: o_def)
  moreover have "set ?m' \<subseteq> {(key, st) \<in> set m. fresh now (the st)}" using sub by (auto simp: m)
  moreover have "length ?m' = min 10 (length (filter (fresh now \<circ> the \<circ> snd) m))" using len by simp
  ultimately show ?thesis by blast
qed

lemma prune_endpoint_small:
  assumes "gmap_wf m" and "\<forall>(key, st) \<in> set m. entry_wf key st" and "length m \<le> 10"
  shows "\<exists>m'. statsDomainEndpointPruneEntries now \<lparr>Tactics = Some m\<rparr> = \<lparr>Tactics = Some m'\<rparr> \<and> gmap_wf m' \<and>
    set m' = {(key, st) \<in> set m. fresh now (the st)}"
proof -
  let ?f = "filter (fresh now \<circ> the \<circ> snd) m"
  from prune_endpoint_records [OF assms(1,2), of now] obtain m' where
    m': "statsDomainEndpointPruneEntries now \<lparr>Tactics = Some m\<rparr> = \<lparr>Tactics = Some m'\<rparr>" "gmap_wf m'"
      "set m' \<subseteq> {(key, st) \<in> set m. fresh now (the st)}" "length m' = min 10 (length ?f)"
    by blast
  have f: "{(key, st) \<in> set m. fresh now (the st)} = set ?f" by auto
  have "length ?f \<le> 10" using assms(3) length_filter_le [of _ m] by (meson order.trans)
  moreover have "distinct ?f" "distinct m'" using assms(1) m'(2) by (auto simp: distinct_map)
  ultimately have "card (set m') = card (set ?f)" using m'(4) distinct_card [of m'] distinct_card [of ?f] by linarith
  then have "set m' = set ?f" using m'(3) f by (intro card_subset_eq) auto
  with m' f show ?thesis by blast
qed

lemma stats_abs_Some:
  assumes "stats_wf c"
  shows "stats_abs c (epnt, key) = Some st \<longleftrightarrow>
    (\<exists>m. (epnt, Some \<lparr>Tactics = Some m\<rparr>) \<in> set (nil_map (DomainEndpoints c)) \<and> (key, Some st) \<in> set m)"
proof -
  have dist: "gmap_wf (nil_map (DomainEndpoints c))" using stats_wf_maps [OF assms] by (simp add: container_maps_def)
  show ?thesis (is "?l \<longleftrightarrow> ?r")
  proof
    assume ?l
    then obtain d where d: "gmap_get (nil_map (DomainEndpoints c)) epnt = Some (Some d)"
        "gmap_get (nil_map (Tactics d)) key = Some (Some st)"
      by (auto simp: stats_abs_def split: option.splits)
    from stats_wf_endpoint [OF assms d(1)] obtain m where "d = \<lparr>Tactics = Some m\<rparr>" by auto
    with d show ?r by (auto simp: nil_map_def dest!: map_of_SomeD)
  next
    assume ?r
    then obtain m where m: "gmap_get (nil_map (DomainEndpoints c)) epnt = Some (Some \<lparr>Tactics = Some m\<rparr>)" "(key, Some st) \<in> set m"
      using dist by auto
    from stats_wf_endpoint [OF assms m(1)] have "gmap_wf m" by auto
    with m show ?l by (simp add: stats_abs_def nil_map_def)
  qed
qed

lemma stats_wf_member:
  assumes "stats_wf c" and "(epnt, d) \<in> set (nil_map (DomainEndpoints c))"
  shows "\<exists>m. d = Some \<lparr>Tactics = Some m\<rparr> \<and> gmap_wf m \<and> (\<forall>(key, st) \<in> set m. entry_wf key st)"
proof -
  have "gmap_wf (nil_map (DomainEndpoints c))" using stats_wf_maps [OF assms(1)] by (simp add: container_maps_def)
  with assms(2) have "gmap_get (nil_map (DomainEndpoints c)) epnt = Some d" by simp
  from stats_wf_endpoint [OF assms(1) this] show ?thesis .
qed

lemma prune_entry_SomeD:
  "prune_entry now epnt v = Some d \<Longrightarrow>
     epnt \<noteq> '''' \<and> (\<exists>stats. v = Some stats \<and> d = Some (statsDomainEndpointPruneEntries now stats) \<and>
       nil_map (Tactics (statsDomainEndpointPruneEntries now stats)) \<noteq> [])"
  by (auto simp: prune_entry_def split: option.splits if_splits)

text \<open>Containers that are the result of a pruning: at most ten records for an endpoint with a name.\<close>

definition stats_small :: "statsContainer \<Rightarrow> bool" where
  "stats_small c \<longleftrightarrow> (\<forall>(epnt, d) \<in> set (nil_map (DomainEndpoints c)).
     epnt \<noteq> '''' \<and> length (nil_map (Tactics (the d))) \<le> 10)"

lemma prune_container_small: "container_maps c \<Longrightarrow> stats_small (statsContainerPruneEntries now c)"
  by (auto simp: stats_small_def prune_container_mem prune_endpoint_length dest!: prune_entry_SomeD)

text \<open>A second pruning only removes the records that have become old.\<close>

lemma prune_small_abs:
  assumes wf: "stats_wf c" and small: "stats_small c"
  shows "stats_abs (statsContainerPruneEntries now c) (epnt, key) = Some st \<longleftrightarrow>
    stats_abs c (epnt, key) = Some st \<and> fresh now st"
proof -
  have maps: "container_maps c" by (rule stats_wf_maps [OF wf])
  have endpoint: "prune_entry now epnt (Some \<lparr>Tactics = Some m\<rparr>) = Some (Some \<lparr>Tactics = Some m'\<rparr>) \<Longrightarrow>
      (key, Some st) \<in> set m' \<longleftrightarrow> (key, Some st) \<in> set m \<and> fresh now st"
    and kept: "(key, Some st) \<in> set m \<Longrightarrow> fresh now st \<Longrightarrow>
      \<exists>m'. prune_entry now epnt (Some \<lparr>Tactics = Some m\<rparr>) = Some (Some \<lparr>Tactics = Some m'\<rparr>)"
    if mem: "(epnt, Some \<lparr>Tactics = Some m\<rparr>) \<in> set (nil_map (DomainEndpoints c))" for m m'
  proof -
    from stats_wf_member [OF wf mem] have m: "gmap_wf m" "\<forall>(key, st) \<in> set m. entry_wf key st" by auto
    have "epnt \<noteq> '''' \<and> length (nil_map (Tactics (the (Some \<lparr>Tactics = Some m\<rparr>)))) \<le> 10"
      using small mem unfolding stats_small_def by blast
    then have "epnt \<noteq> ''''" "length m \<le> 10" by (auto simp: nil_map_def)
    with prune_endpoint_small [OF m] obtain m1 where
      "statsDomainEndpointPruneEntries now \<lparr>Tactics = Some m\<rparr> = \<lparr>Tactics = Some m1\<rparr>"
      "set m1 = {(key, st) \<in> set m. fresh now (the st)}" by blast
    then show "prune_entry now epnt (Some \<lparr>Tactics = Some m\<rparr>) = Some (Some \<lparr>Tactics = Some m'\<rparr>) \<Longrightarrow>
        (key, Some st) \<in> set m' \<longleftrightarrow> (key, Some st) \<in> set m \<and> fresh now st"
      and "(key, Some st) \<in> set m \<Longrightarrow> fresh now st \<Longrightarrow>
        \<exists>m'. prune_entry now epnt (Some \<lparr>Tactics = Some m\<rparr>) = Some (Some \<lparr>Tactics = Some m'\<rparr>)"
      using \<open>epnt \<noteq> ''''\<close> by (auto simp: prune_entry_def nil_map_def split: if_splits)
  qed
  have "stats_abs (statsContainerPruneEntries now c) (epnt, key) = Some st \<longleftrightarrow>
      (\<exists>m v. (epnt, v) \<in> set (nil_map (DomainEndpoints c)) \<and>
        prune_entry now epnt v = Some (Some \<lparr>Tactics = Some m\<rparr>) \<and> (key, Some st) \<in> set m)"
    by (auto simp: stats_abs_Some [OF prune_container_wf [OF maps]] prune_container_mem [OF maps])
  also have "\<dots> \<longleftrightarrow> stats_abs c (epnt, key) = Some st \<and> fresh now st"
    unfolding stats_abs_Some [OF wf] using endpoint kept stats_wf_member [OF wf, of epnt] by blast
  finally show ?thesis .
qed

section \<open>Closing and loading\<close>

text \<open>
  The promise of any store: a manager that is created from the store of a closed manager has the
  records that the closed manager wrote and that are still fresh.
\<close>

context kv_store
begin

lemma close_then_load:
  assumes "stats_wf (sm_container mt)" and "\<not> sm_closed mt"
    and "unmarshal (marshal (statsContainerPruneEntries now (sm_container mt))) =
      Inr (statsContainerPruneEntries now (sm_container mt))"
    and "statsManager_Close kvSet marshal now mt = (None, mt')" and "trimInterval > 0"
  shows "\<exists>mt''. newStatsManager kvGet unmarshal now' (sm_kvStore mt') trimInterval = Some mt'' \<and>
    sm_container mt'' = statsContainerPruneEntries now' (statsContainerPruneEntries now (sm_container mt))"
proof -
  obtain store where store: "kvSet (sm_kvStore mt) statsKey (marshal (statsContainerPruneEntries now (sm_container mt))) = (None, store)"
      and mt': "sm_kvStore mt' = store"
    using assms(2,4) by (auto simp: statsManager_Close_def Let_def split: prod.splits)
  have version: "Version (statsContainerPruneEntries now (sm_container mt)) = statsContainerVersion"
    by (simp add: statsContainerPruneEntries_def newStatsContainer_def)
  show ?thesis
    using get_set_same [OF store] assms(3,5) version
    by (simp add: newStatsManager_def Let_def mt' loadStatsContainer_def)
qed

end

section \<open>Theorems\<close>

definition api_tactic :: httpsDialerTactic where
  "api_tactic = \<lparr>Address = ''192.0.2.1'', InitialDelay = 0, Port = ''443'', SNI = ''example.org'',
     VerifyHostname = ''api.ooni.io''\<rparr>"

definition sample_record :: statsTactic where
  "sample_record = (new_record api_tactic)\<lparr>CountStarted := 2, CountSuccess := 1, LastUpdated := 1000\<rparr>"

definition sample_stats :: statsContainer where
  "sample_stats = \<lparr>DomainEndpoints = Some [(domainEndpointKey api_tactic,
     Some \<lparr>Tactics = Some [(tacticSummaryKey api_tactic, Some sample_record)]\<rparr>)], Version = statsContainerVersion\<rparr>"

lemma sample_stats_wf: "stats_wf sample_stats"
  by (simp add: sample_stats_def stats_wf_def stats_endpoint_wf_def entry_wf_def sample_record_def new_record_def
      record_maps_def nil_map_def)

text \<open>
  C10: Whatever was on disk and whatever the interleaving of handlers and background trims, the
  container of a manager has no nil pointer and no nil map, each record sits under the key of its
  tactic, and neither a handler (given a non-nil error) nor a trim nor a lookup panics. The hypothesis
  on \<open>encoding/json\<close> says that a decoded map has each key once.
\<close>

theorem stats_manager_never_panics:
  assumes "stats_reachable kvGet unmarshal c" and "decodes_maps unmarshal"
  shows "stats_wf c \<and> (\<exists>c'. stats_apply now ev c = Some c' \<and> stats_wf c') \<and> stats_LookupTactics c domain port \<noteq> None"
proof -
  have wf: "stats_wf c" by (rule stats_reachable_wf [OF assms])
  have "stats_LookupTactics c domain port \<noteq> None"
  proof (cases "gmap_get (nil_map (DomainEndpoints c)) (join_host_port domain port)")
    case (Some d)
    then obtain m where m: "d = Some \<lparr>Tactics = Some m\<rparr>" "\<forall>(key, st) \<in> set m. entry_wf key st"
      using stats_wf_endpoint [OF wf] by blast
    have "map_each (map_option statsTactic_Clone) (gmap_vals m) = Some (map (statsTactic_Clone \<circ> the) (gmap_vals m))"
      by (rule map_each_total) (use m(2) in \<open>auto simp: entry_wf_def\<close>)
    with Some m(1) show ?thesis by (simp add: stats_LookupTactics_def nil_map_def)
  qed (simp add: stats_LookupTactics_def)
  with wf stats_apply_wf show ?thesis by blast
qed

theorem stats_manager_never_panics_witness:
  "stats_reachable Memory_Get (\<lambda>_. Inr sample_stats) (statsContainerPruneEntries 2000 sample_stats) \<and>
   stats_wf (statsContainerPruneEntries 2000 sample_stats) \<and>
   (\<exists>c'. stats_apply 3000 (EvSuccess api_tactic) (statsContainerPruneEntries 2000 sample_stats) = Some c' \<and> stats_wf c') \<and>
   stats_LookupTactics (statsContainerPruneEntries 2000 sample_stats) ''api.ooni.io'' ''443'' \<noteq> None"
proof -
  let ?kv = "\<lparr>m_map = Some [(statsKey, ''{}'')]\<rparr>"
  have "newStatsManager Memory_Get (\<lambda>_. Inr sample_stats) 2000 ?kv 1 =
      Some \<lparr>sm_container = statsContainerPruneEntries 2000 sample_stats, sm_kvStore = ?kv, sm_closed = False\<rparr>"
    by (simp add: newStatsManager_def loadStatsContainer_def Memory_Get_def sample_stats_def)
  from stats_reachable.init [OF this]
  have reach: "stats_reachable Memory_Get (\<lambda>_. Inr sample_stats) (statsContainerPruneEntries 2000 sample_stats)" by simp
  have "decodes_maps (\<lambda>_. Inr sample_stats)"
    using stats_wf_maps [OF sample_stats_wf] by (simp add: decodes_maps_def)
  from stats_manager_never_panics [OF reach this] reach show ?thesis by blast
qed

text \<open>
  C11: Each handler refines an update of a map from endpoint and summary keys to records: it changes
  the record of its own tactic and no other, \<open>OnStarting\<close> creates the record of a tactic it does not
  know, and the other handlers ignore such a tactic.
\<close>

theorem stats_handlers_refine_map:
  assumes "stats_wf c" and "ev \<noteq> EvTrim"
  shows "\<exists>c'. stats_apply now ev c = Some c' \<and> stats_wf c' \<and> stats_abs c' = map_event now ev (stats_abs c)"
  using assms by (rule handlers_refine)

theorem stats_handlers_refine_map_witness:
  "\<exists>c'. stats_apply 3000 (EvTCPConnectError False api_tactic ''connection_refused'') sample_stats = Some c' \<and> stats_wf c' \<and>
     stats_abs c' = map_event 3000 (EvTCPConnectError False api_tactic ''connection_refused'') (stats_abs sample_stats)"
  using stats_handlers_refine_map [OF sample_stats_wf, of "EvTCPConnectError False api_tactic ''connection_refused''" 3000] by simp

text \<open>
  C13: Pruning bounds the statistics: an endpoint of the pruned container has a name, at least one and
  at most ten records, each of them updated within the last week, stored under the key of its tactic
  and taken from the same endpoint of the input.
\<close>

theorem stats_prune_bounds:
  assumes "container_maps c" and "(epnt, d) \<in> set (nil_map (DomainEndpoints (statsContainerPruneEntries now c)))"
  shows "\<exists>m0 m. (epnt, Some m0) \<in> set (nil_map (DomainEndpoints c)) \<and> d = Some \<lparr>Tactics = Some m\<rparr> \<and>
    epnt \<noteq> '''' \<and> 0 < length m \<and> length m \<le> maxEntriesPerDomainEndpoint \<and> gmap_wf m \<and>
    (\<forall>(key, st) \<in> set m. entry_wf key st \<and> time_Sub now (LastUpdated (the st)) < oneWeek \<and>
      st \<in> set (gmap_vals (nil_map (Tactics m0))))"
proof -
  from assms(2) obtain m0 where m0: "(epnt, Some m0) \<in> set (nil_map (DomainEndpoints c))" "epnt \<noteq> ''''"
      "d = Some (statsDomainEndpointPruneEntries now m0)" "nil_map (Tactics (statsDomainEndpointPruneEntries now m0)) \<noteq> []"
    unfolding prune_container_mem [OF assms(1)] by (auto dest!: prune_entry_SomeD)
  from m0(1) assms(1) have maps: "endpoint_maps m0" by (auto simp: container_maps_def)
  obtain m where m: "statsDomainEndpointPruneEntries now m0 = \<lparr>Tactics = Some m\<rparr>" "gmap_wf m"
    using index_tactics_wf by (auto simp: prune_endpoint_eq)
  have "\<forall>(key, st) \<in> set m. entry_wf key st \<and> time_Sub now (LastUpdated (the st)) < oneWeek \<and>
      st \<in> set (gmap_vals (nil_map (Tactics m0)))"
    using prune_endpoint_entry [OF maps, of _ _ now] m(1) by (force simp: nil_map_def fresh_def)
  moreover have "length m \<le> maxEntriesPerDomainEndpoint" "0 < length m"
    using prune_endpoint_length [of now m0] m m0(4) by (auto simp: nil_map_def maxEntriesPerDomainEndpoint_def)
  ultimately show ?thesis using m0 m by blast
qed

lemma sample_stats_small: "stats_small sample_stats"
  by (simp add: stats_small_def sample_stats_def nil_map_def domainEndpointKey_def join_host_port_def)

lemma sample_stats_abs: "stats_abs sample_stats (stats_keys api_tactic) = Some sample_record"
  by (simp add: stats_abs_def sample_stats_def nil_map_def stats_keys_def)

lemma sample_stats_pruned:
  "\<exists>d. (domainEndpointKey api_tactic, d) \<in> set (nil_map (DomainEndpoints (statsContainerPruneEntries 2000 sample_stats)))"
proof -
  have "stats_abs (statsContainerPruneEntries 2000 sample_stats) (stats_keys api_tactic) = Some sample_record"
    using prune_small_abs [OF sample_stats_wf sample_stats_small, of 2000 "domainEndpointKey api_tactic"
        "tacticSummaryKey api_tactic" sample_record] sample_stats_abs
    by (simp add: stats_keys_def fresh_def sample_record_def time_Sub_def oneWeek_def)
  then show ?thesis
    using stats_abs_Some [OF prune_container_wf [OF stats_wf_maps [OF sample_stats_wf]]] by (auto simp: stats_keys_def)
qed

theorem stats_prune_bounds_witness:
  "\<exists>d m0 m. (domainEndpointKey api_tactic, Some m0) \<in> set (nil_map (DomainEndpoints sample_stats)) \<and>
    d = Some \<lparr>Tactics = Some m\<rparr> \<and> 0 < length m \<and> length m \<le> maxEntriesPerDomainEndpoint \<and> gmap_wf m"
proof -
  obtain d where "(domainEndpointKey api_tactic, d) \<in> set (nil_map (DomainEndpoints (statsContainerPruneEntries 2000 sample_stats)))"
    using sample_stats_pruned by blast
  from stats_prune_bounds [OF stats_wf_maps [OF sample_stats_wf] this] show ?thesis by blast
qed

text \<open>
  C12: Statistics survive a restart. When \<open>Close\<close> succeeds on the in-memory store, a manager created
  from that store at a later time has exactly the records that the final pruning kept and that are
  still less than a week old, unchanged. The hypothesis on \<open>encoding/json\<close> is that decoding what
  \<open>Close\<close> encodes gives it back.
\<close>

theorem stats_close_load_roundtrip:
  assumes "stats_wf (sm_container mt)" and "\<not> sm_closed mt" and "trimInterval > 0"
    and "unmarshal (marshal (statsContainerPruneEntries now (sm_container mt))) =
      Inr (statsContainerPruneEntries now (sm_container mt))"
    and "statsManager_Close Memory_Set marshal now mt = (None, mt')"
  shows "\<exists>mt''. newStatsManager Memory_Get unmarshal now' (sm_kvStore mt') trimInterval = Some mt'' \<and>
    (\<forall>epnt key st. stats_abs (sm_container mt'') (epnt, key) = Some st \<longleftrightarrow>
      stats_abs (statsContainerPruneEntries now (sm_container mt)) (epnt, key) = Some st \<and>
      time_Sub now' (LastUpdated st) < oneWeek)"
proof -
  have maps: "container_maps (sm_container mt)" by (rule stats_wf_maps [OF assms(1)])
  from memory.close_then_load [of mt unmarshal marshal now mt' trimInterval now', OF assms(1,2,4,5,3)] show ?thesis
    using prune_small_abs [OF prune_container_wf [OF maps] prune_container_small [OF maps], of now' now]
    by (auto simp: fresh_def)
qed

theorem stats_close_load_roundtrip_witness:
  "\<exists>mt''. newStatsManager Memory_Get (\<lambda>_. Inr (statsContainerPruneEntries 2000 sample_stats)) 3000
      \<lparr>m_map = Some [(statsKey, ''{}'')]\<rparr> 1 = Some mt'' \<and>
    stats_abs (sm_container mt'') (stats_keys api_tactic) = Some sample_record"
proof -
  let ?mt = "\<lparr>sm_container = sample_stats, sm_kvStore = \<lparr>m_map = None\<rparr>, sm_closed = False\<rparr>"
  let ?mt' = "\<lparr>sm_container = sample_stats, sm_kvStore = \<lparr>m_map = Some [(statsKey, ''{}'')]\<rparr>, sm_closed = True\<rparr>"
  have close: "statsManager_Close Memory_Set (\<lambda>_. ''{}'') 2000 ?mt = (None, ?mt')"
    by (simp add: statsManager_Close_def Memory_Set_def Let_def)
  have "time_Sub 2000 (LastUpdated sample_record) < oneWeek" "time_Sub 3000 (LastUpdated sample_record) < oneWeek"
    by (simp_all add: sample_record_def time_Sub_def oneWeek_def)
  then show ?thesis
    using stats_close_load_roundtrip [of ?mt 1 "\<lambda>_. Inr (statsContainerPruneEntries 2000 sample_stats)" "\<lambda>_. ''{}''" 2000 ?mt' 3000]
      close sample_stats_wf prune_small_abs [OF sample_stats_wf sample_stats_small, of 2000] sample_stats_abs
    by (auto simp: stats_keys_def fresh_def)
qed

lemma insertion_sort_reverses:
  assumes "sorted_wrt (\<lambda>x y. lt y x) xs"
  shows "insertion_sort lt xs = rev xs"
proof -
  have last: "insert_back lt x acc = acc @ [x]" if "\<forall>y \<in> set acc. lt x y" for x acc
    using that by (induction acc) auto
  have "fold (insert_back lt) xs acc = acc @ xs" if "sorted_wrt (\<lambda>x y. lt y x) (acc @ xs)" for acc
    using that
  proof (induction xs arbitrary: acc)
    case (Cons x xs)
    then have "insert_back lt x acc = acc @ [x]" by (intro last) (auto simp: sorted_wrt_append)
    then show ?case using Cons.IH [of "acc @ [x]"] Cons.prems by simp
  qed simp
  from this [of "[]"] show ?thesis using assms by (simp add: insertion_sort_def)
qed

text \<open>
  C29: The comparator of the sort by success rate is not an order, and the sort can do the opposite of
  what it is for. Take any records, up to twenty of them, in which a higher success rate goes with fewer
  successes. Listed by descending success rate, which is how they should come out, they are sorted into
  the ascending order; listed in the ascending order they are sorted into the descending one. The input
  order is the iteration order of a map, so that either can happen.
\<close>

theorem stats_sort_not_by_success_rate:
  assumes "length xs \<le> 20" and "\<forall>st \<in> set xs. record_maps st \<and> st_Tactic st \<noteq> None"
    and "sorted_wrt (\<lambda>x y. statsNilSafeSuccessRate (Some y) < statsNilSafeSuccessRate (Some x) \<and> CountSuccess x < CountSuccess y) xs"
  shows "statsDefensivelySortTacticsByDescendingSuccessRateWithAcceptPredicate (map Some xs) acceptfunc = filter acceptfunc (rev xs) \<and>
    statsDefensivelySortTacticsByDescendingSuccessRateWithAcceptPredicate (map Some (rev xs)) acceptfunc = filter acceptfunc xs"
proof -
  have work: "stats_work (map Some ys) = ys" if "\<forall>st \<in> set ys. record_maps st \<and> st_Tactic st \<noteq> None" for ys
    using that by (induction ys) (auto simp: statsTactic_Clone_id split: option.split)
  have "sorted_wrt (\<lambda>x y. stats_less y x) xs" "sorted_wrt (\<lambda>x y. stats_less x y) xs"
    using assms(3) by (auto elim!: sorted_wrt_mono_rel [rotated] simp: stats_less_def statsNilSafeCountSuccess_def)
  then show ?thesis
    using assms(1,2) insertion_sort_reverses [of stats_less xs] insertion_sort_reverses [of stats_less "rev xs"]
    by (simp add: statsDefensivelySortTacticsByDescendingSuccessRateWithAcceptPredicate_def work slice_stable_short sorted_wrt_rev)
qed

text \<open>A tactic that worked the only time it was tried comes after one that worked five times out of ten.\<close>

theorem stats_sort_not_by_success_rate_witness:
  "let always = (new_record api_tactic)\<lparr>CountStarted := 1, CountSuccess := 1\<rparr>;
       half = (new_record api_tactic)\<lparr>CountStarted := 10, CountSuccess := 5\<rparr> in
   statsDefensivelySortTacticsByDescendingSuccessRateWithAcceptPredicate [Some always, Some half] (\<lambda>_. True) = [half, always]"
proof -
  let ?a = "(new_record api_tactic)\<lparr>CountStarted := 1, CountSuccess := 1\<rparr>"
  let ?h = "(new_record api_tactic)\<lparr>CountStarted := 10, CountSuccess := 5\<rparr>"
  have rate: "f64_quot 5 10 < 1" "f64_quot 1 1 = 1" by code_simp+
  have maps: "record_maps ?a" "record_maps ?h" "st_Tactic ?a \<noteq> None" "st_Tactic ?h \<noteq> None"
    by (simp_all add: record_maps_def new_record_def nil_map_def)
  show ?thesis
    using stats_sort_not_by_success_rate [of "[?a, ?h]" "\<lambda>_. True"] rate maps by (simp add: Let_def statsNilSafeSuccessRate_def)
qed

end
