(* ===== verification/Policies.thy ===== *)
theory Policies
  imports StatsManager GoNet Bogon "HOL-Library.Word"
begin

text \<open>
  The dialing policies of \<open>internal/enginenetx\<close>: \<open>nullpolicy.go\<close>, \<open>dnspolicy.go\<close>, \<open>bridgespolicy.go\<close>,
  \<open>testhelperspolicy.go\<close>, \<open>userpolicy.go\<close>, \<open>statspolicy.go\<close>, \<open>mixpolicy.go\<close> and the composition of
  them in \<open>network.go\<close>. The \<open>LookupTactics\<close> of a policy is the list of the values that it sends on its
  channel before it closes it, each of which may be a nil pointer; a panic of its goroutine is
  \<open>None\<close>. The resolver, the key-value store and the decoder of the user policy are arguments;
  \<open>ctx_err\<close> says whether the context is done when the DNS policy starts, and \<open>rnd\<close> is the sequence of
  numbers that the random source draws.
\<close>

type_synonym policy = "string \<Rightarrow> string \<Rightarrow> httpsDialerTactic option list option"

section \<open>Policies\<close>

definition nullPolicy :: policy where
  "nullPolicy domain port = Some []"

definition dnsPolicy :: "bool \<Rightarrow> (string \<Rightarrow> string + string list) \<Rightarrow> policy" where
  "dnsPolicy ctx_err resolver domain port =
     (if ctx_err then Some []
      else case ShortCircuitIPAddr_LookupHost resolver domain of
             Inl err \<Rightarrow> Some []
           | Inr addrs \<Rightarrow>
               Some (map (\<lambda>addr. Some \<lparr>Address = addr, InitialDelay = 0, Port = port, SNI = domain,
                                       VerifyHostname = domain\<rparr>) addrs))"

definition bridgesAddrs :: "string list" where
  "bridgesAddrs = [''162.55.247.208'']"

definition bridgesDomains :: "string list" where
  "bridgesDomains = [
    ''adtm.spreadshirts.net'', ''alb.reddit.com'', ''a.loveholidays.com'', ''api.giphy.com'',
    ''api.nextgen.guardianapps.co.uk'', ''api.trademe.co.nz'', ''app.launchdarkly.com'', ''apps.voxmedia.com'',
    ''assets0.uswitch.com'', ''assets.boots.com'', ''assets.dunelm.com'', ''assets.guim.co.uk'',
    ''assets.hearstapps.com'', ''assets-jpcust.jwpsrv.com'', ''assets.nymag.com'', ''assets.thecut.com'',
    ''atreseries.atresmedia.com'', ''cdn.bfldr.com'', ''cdn.concert.io'', ''cdn.contentful.com'',
    ''cdn.ketchjs.com'', ''cdn.laredoute.com'', ''cdn.polyfill.io'', ''cdn.speedcurve.com'',
    ''cdn.sstatic.net'', ''cdn.taboola.com'', ''client.grubstreet.com'', ''client.nymag.com'',
    ''client-registry.mutinycdn.com'', ''client.thecut.com'', ''client.thestrategist.co.uk'',
    ''client.vulture.com'', ''compote.slate.com'', ''concertads-configs.vox-cdn.com'',
    ''contributions.guardianapis.com'', ''display.bidder.taboola.com'', ''edgemesh.webflow.io'',
    ''embed.api.video'', ''epsf.ticketmaster.com'', ''fastly.com'', ''fastly.jsdelivr.net'', ''fast.ssqt.io'',
    ''fast.wistia.com'', ''fdyn.pubwise.io'', ''fonts.nymag.com'', ''foursquare.com'',
    ''frend-assets.freetls.fastly.net'', ''f.vimeocdn.com'', ''github.githubassets.com'',
    ''global.ketchcdn.com'', ''helpersng.taboola.com'', ''hips.hearstapps.com'', ''i.guimcode.co.uk'',
    ''i.guim.co.uk'', ''i.insider.com'', ''images.mutinycdn.com'', ''images.taboola.com'',
    ''interactive.guim.co.uk'', ''i.vimeocdn.com'', ''js-agent.newrelic.com'', ''js.sentry-cdn.com'',
    ''linktr.ee'', ''login.nine.com.au'', ''lux.speedcurve.com'', ''martech.condenastdigital.com'',
    ''media0.giphy.com'', ''media1.giphy.com'', ''media2.giphy.com'', ''media3.giphy.com'',
    ''media.giphy.com'', ''media.newyorker.com'', ''media.wired.com'', ''mparticle.weather.com'',
    ''mv.outbrain.com'', ''newrelic.com'', ''next.ticketmaster.com'', ''nm.realtyninja.com'',
    ''pingback.giphy.com'', ''pips.taboola.com'', ''pitchfork.com'', ''pixel.condenastdigital.com'',
    ''player.ex.co'', ''pm-widget.taboola.com'', ''polyfill.io'', ''prd.jwpltx.com'', ''pyxis.nymag.com'',
    ''rapid-cdn.yottaa.com'', ''rtd-tm.everesttech.net'', ''s1.ticketm.net'', ''s3-media0.fl.yelpcdn.com'',
    ''slate.com'', ''sourcepoint.theguardian.com'', ''ssl.p.jwpcdn.com'', ''sstc.dunelm.com'',
    ''static.ads-twitter.com'', ''static.filestackapi.com'', ''static.klaviyo.com'',
    ''static.theguardian.com'', ''static-tracking.klaviyo.com'', ''s.w-x.co'', ''trademe.tmcdn.co.nz'',
    ''trc.taboola.com'', ''t.seenthis.se'', ''uploads.guim.co.uk'', ''video.seenthis.se'',
    ''vidstat.taboola.com'', ''vod.api.video'', ''vulcan.condenastdigital.com'', ''widget.perfectmarket.com'',
    ''www.allure.com'', ''www.amazeelabs.com'', ''www.architecturaldigest.com'', ''www.blackpepper.co.nz'',
    ''www.bonappetit.com'', ''www.cntraveler.com'', ''www.drupal.org'', ''www.dunelm.com'',
    ''www.epicurious.com'', ''www.fastly.com'', ''www.filestack.com'', ''www.giphy.com'', ''www.glamour.com'',
    ''www.gq.com'', ''www.insider.com'', ''www.jimdo.com'', ''www.loveholidays.com'',
    ''www.madeiramadeira.com.br'', ''www.newrelic.com'', ''www.newyorker.com'', ''www.pronovias.com'',
    ''www.redditstatic.com'', ''www.rvu.co.uk'', ''www.self.com'', ''www.shazam.com'', ''www.shondaland.com'',
    ''www.split.io'', ''www.spreadgroup.com'', ''www.spreadshirt.com'', ''www.taboola.com'',
    ''www.teenvogue.com'', ''www.thecut.com'', ''www.theguardian.com'', ''www.them.us'',
    ''www.ticketmaster.com'', ''www.trademe.co.nz'', ''www.vanityfair.com'', ''www.vogue.com'',
    ''www.wikihow.com'', ''www.wired.com'', ''www.yelp.com'', ''x.giphy.com'', ''yelp.com'']"

definition bridgesDomainsInRandomOrder :: "(nat \<Rightarrow> nat) \<Rightarrow> string list" where
  "bridgesDomainsInRandomOrder rnd = rand_Shuffle rnd (length bridgesDomains - 1) bridgesDomains"

text \<open>Each call of \<open>bridgesDomainsInRandomOrder\<close> has its own random source.\<close>

definition bridgesTacticsForDomain :: "(nat \<Rightarrow> nat \<Rightarrow> nat) \<Rightarrow> policy" where
  "bridgesTacticsForDomain rnd domain port =
     (if domain \<noteq> ''api.ooni.io'' then Some []
      else Some (concat (map (\<lambda>(k, ipAddr).
             map (\<lambda>sni. Some \<lparr>Address = ipAddr, InitialDelay = 0, Port = port, SNI = sni, VerifyHostname = domain\<rparr>)
               (bridgesDomainsInRandomOrder (rnd k))) (enumerate 0 bridgesAddrs))))"

definition testHelpersDomains :: "string list" where
  "testHelpersDomains = [''0.th.ooni.org'', ''1.th.ooni.org'', ''2.th.ooni.org'', ''3.th.ooni.org'',
     ''d33d1gs9kpq1c5.cloudfront.net'']"

text \<open>The first loop: a nil tactic is emitted and then dereferenced.\<close>

fun testHelpers_todo :: "httpsDialerTactic option list \<Rightarrow> httpsDialerTactic list option" where
  "testHelpers_todo [] = Some []"
| "testHelpers_todo (tx # input) =
     do { tactic \<leftarrow> tx;
          todo \<leftarrow> testHelpers_todo input;
          Some (if \<not> List.member testHelpersDomains (VerifyHostname tactic) then todo else tactic # todo) }"

definition testHelpersPolicy :: "(nat \<Rightarrow> nat \<Rightarrow> nat) \<Rightarrow> policy \<Rightarrow> policy" where
  "testHelpersPolicy rnd Child domain port =
     do { input \<leftarrow> Child domain port;
          todo \<leftarrow> testHelpers_todo input;
          Some (input @ concat (map (\<lambda>(k, tactic).
            map (\<lambda>sni. Some \<lparr>Address = Address tactic, InitialDelay = 0, Port = Port tactic, SNI = sni,
                             VerifyHostname = VerifyHostname tactic\<rparr>)
              (bridgesDomainsInRandomOrder (rnd k))) (enumerate 0 todo))) }"

section \<open>The user policy\<close>

record userPolicyRoot =
  up_DomainEndpoints :: "(string, httpsDialerTactic option list) gomap option"
  up_Version :: int

definition userPolicyKey :: string where
  "userPolicyKey = ''bridges.conf''"

definition userPolicyVersion :: int where
  "userPolicyVersion = 3"

datatype user_policy_error = UserErrStore string | UserErrJSON string | ErrUserPolicyWrongVersion int

definition newUserPolicyV2 ::
  "(string \<Rightarrow> string + string) \<Rightarrow> (string \<Rightarrow> string + userPolicyRoot) \<Rightarrow> user_policy_error + userPolicyRoot" where
  "newUserPolicyV2 kvGet unmarshal =
     (case kvGet userPolicyKey of
        Inl err \<Rightarrow> Inl (UserErrStore err)
      | Inr data \<Rightarrow>
          (case unmarshal data of
             Inl err \<Rightarrow> Inl (UserErrJSON err)
           | Inr policy_root \<Rightarrow>
               if up_Version policy_root \<noteq> userPolicyVersion then Inl (ErrUserPolicyWrongVersion (up_Version policy_root))
               else Inr policy_root))"

fun userPolicyRemoveNilEntries :: "httpsDialerTactic option list \<Rightarrow> httpsDialerTactic option list" where
  "userPolicyRemoveNilEntries [] = []"
| "userPolicyRemoveNilEntries (entry # input) =
     (if entry \<noteq> None then entry # userPolicyRemoveNilEntries input else userPolicyRemoveNilEntries input)"

definition userPolicyV2 :: "userPolicyRoot \<Rightarrow> policy" where
  "userPolicyV2 policy_root domain port =
     (case gmap_get (nil_map (up_DomainEndpoints policy_root)) (join_host_port domain port) of
        None \<Rightarrow> Some []
      | Some tactics \<Rightarrow>
          let tactics = userPolicyRemoveNilEntries tactics in
          if length tactics \<le> 0 then Some [] else Some tactics)"

section \<open>The statistics policy\<close>

text \<open>The assertion of the second loop is the panic.\<close>

definition statsPolicyFilterStatsTactics :: "statsTactic option list \<times> bool \<Rightarrow> httpsDialerTactic list option" where
  "statsPolicyFilterStatsTactics = (\<lambda>(tactics, good).
     if \<not> good then Some []
     else let onlySuccesses = statsDefensivelySortTacticsByDescendingSuccessRateWithAcceptPredicate tactics
                (\<lambda>st. st_Tactic st \<noteq> None \<and> CountSuccess st > 0)
          in map_each (\<lambda>t. if st_Tactic t \<noteq> None \<and> CountSuccess t > 0 then st_Tactic t else None) onlySuccesses)"

definition statsPolicyV2 :: "statsContainer \<Rightarrow> policy" where
  "statsPolicyV2 stats domain port =
     do { found \<leftarrow> stats_LookupTactics stats domain port;
          tactics \<leftarrow> statsPolicyFilterStatsTactics found;
          Some (streamTacticsFromSlice tactics) }"

section \<open>Mixing\<close>

definition mixPolicyEitherOr :: "policy \<Rightarrow> policy \<Rightarrow> policy" where
  "mixPolicyEitherOr Primary Fallback domain port =
     do { txs \<leftarrow> Primary domain port;
          if length txs > 0 then Some txs else Fallback domain port }"

text \<open>
  The loop of \<open>maybeTakeN\<close> over a channel: what it emits, and the channel, or none when it was found
  drained. The counter is a \<open>uint8\<close>.
\<close>

function takeN_loop :: "8 word \<Rightarrow> 8 word \<Rightarrow> 'a list \<Rightarrow> 'a list \<times> 'a list option" where
  "takeN_loop n idx ch =
     (if idx < n
      then case ch of [] \<Rightarrow> ([], None)
           | tactic # ch \<Rightarrow> let (out, rest) = takeN_loop n (idx + 1) ch in (tactic # out, rest)
      else ([], Some ch))"
  by pat_completeness auto
termination
  by (relation "measure (\<lambda>(n, idx, ch). length ch)") auto

declare takeN_loop.simps [simp del]

definition maybeTakeN :: "8 word \<Rightarrow> 'a list option \<Rightarrow> 'a list \<times> 'a list option" where
  "maybeTakeN Factor input =
     (case input of None \<Rightarrow> ([], None) | Some ch \<Rightarrow> takeN_loop (max 1 Factor) 0 ch)"

lemma takeN_loop_eq:
  "unat idx \<le> unat n \<Longrightarrow> takeN_loop n idx ch =
     (let k = unat n - unat idx in (take k ch, if length ch < k then None else Some (drop k ch)))"
proof (induction ch arbitrary: idx)
  case Nil
  show ?case
  proof (cases "idx < n")
    case True
    then have "unat idx < unat n" by (simp add: word_less_nat_alt)
    with True show ?thesis by (simp add: takeN_loop.simps [of n idx] Let_def)
  next
    case False
    then have "unat n \<le> unat idx" by (simp add: word_less_nat_alt)
    with False show ?thesis by (simp add: takeN_loop.simps [of n idx] Let_def)
  qed
next
  case (Cons t ch)
  show ?case
  proof (cases "idx < n")
    case True
    then have less: "unat idx < unat n" by (simp add: word_less_nat_alt)
    moreover have "unat n < 256" using unsigned_less [of n] by simp
    ultimately have "unat (idx + 1) = Suc (unat idx)" by (simp add: unat_word_ariths)
    moreover from this less have "unat n - unat idx = Suc (unat n - unat (idx + 1))" by simp
    ultimately show ?thesis using True less Cons.IH [of "idx + 1"]
      by (simp add: takeN_loop.simps [of n idx] Let_def)
  next
    case False
    then have "unat n \<le> unat idx" by (simp add: word_less_nat_alt)
    with False show ?thesis by (simp add: takeN_loop.simps [of n idx] Let_def)
  qed
qed

text \<open>How many tactics a round takes from each channel.\<close>

definition factor_nat :: "8 word \<Rightarrow> nat" where
  "factor_nat Factor = max 1 (unat Factor)"

lemma factor_nat_max: "unat (max 1 Factor) = factor_nat Factor"
  by (auto simp: factor_nat_def max_def word_le_nat_alt)

lemma factor_nat_pos [simp]: "0 < factor_nat Factor"
  by (simp add: factor_nat_def)

lemma maybeTakeN_None [simp]: "maybeTakeN Factor None = ([], None)"
  by (simp add: maybeTakeN_def)

lemma maybeTakeN_Some [simp]:
  "maybeTakeN Factor (Some ch) =
     (take (factor_nat Factor) ch, if length ch < factor_nat Factor then None else Some (drop (factor_nat Factor) ch))"
  by (simp add: maybeTakeN_def takeN_loop_eq factor_nat_max Let_def)

text \<open>The loop ends: a round removes a tactic from a channel that is not drained or finds it drained.\<close>

definition pending :: "'a list option \<Rightarrow> nat" where
  "pending ch = (case ch of None \<Rightarrow> 0 | Some xs \<Rightarrow> Suc (length xs))"

lemma pending_maybeTakeN: "ch \<noteq> None \<Longrightarrow> pending (snd (maybeTakeN Factor ch)) < pending ch"
  using factor_nat_pos [of Factor] by (auto simp: pending_def simp del: factor_nat_pos)

lemma pending_maybeTakeN_le: "pending (snd (maybeTakeN Factor ch)) \<le> pending ch"
  by (cases "ch = None") (simp_all add: pending_maybeTakeN less_imp_le)

function interleave_loop :: "8 word \<Rightarrow> 'a list option \<Rightarrow> 'a list option \<Rightarrow> 'a list" where
  "interleave_loop Factor primary fallback =
     (if primary \<noteq> None \<or> fallback \<noteq> None
      then let (out1, primary') = maybeTakeN Factor primary; (out2, fallback') = maybeTakeN Factor fallback
           in out1 @ out2 @ interleave_loop Factor primary' fallback'
      else [])"
  by pat_completeness auto
termination
proof (relation "measure (\<lambda>(Factor, primary, fallback). pending primary + pending fallback)", goal_cases)
  case (2 Factor primary fallback x out1 primary' y out2 fallback')
  then have "primary' = snd (maybeTakeN Factor primary)" "fallback' = snd (maybeTakeN Factor fallback)"
    by (metis snd_conv)+
  moreover have "pending (snd (maybeTakeN Factor primary)) < pending primary \<or>
      pending (snd (maybeTakeN Factor fallback)) < pending fallback"
    using 2(1) pending_maybeTakeN by blast
  ultimately show ?case
    using pending_maybeTakeN_le [of Factor primary] pending_maybeTakeN_le [of Factor fallback] by auto
qed simp

declare interleave_loop.simps [simp del]

definition mixPolicyInterleave :: "8 word \<Rightarrow> policy \<Rightarrow> policy \<Rightarrow> policy" where
  "mixPolicyInterleave Factor Primary Fallback domain port =
     do { primary \<leftarrow> Primary domain port;
          fallback \<leftarrow> Fallback domain port;
          Some (interleave_loop Factor (Some primary) (Some fallback)) }"

section \<open>The policy of the engine\<close>

definition composed_policy ::
  "bool \<Rightarrow> (nat \<Rightarrow> nat \<Rightarrow> nat) \<Rightarrow> (nat \<Rightarrow> nat \<Rightarrow> nat) \<Rightarrow> (string \<Rightarrow> string + string list) \<Rightarrow> statsContainer \<Rightarrow> policy" where
  "composed_policy ctx_err rnd rnd' resolver stats =
     (let statsOrBridges = mixPolicyInterleave 3 (statsPolicyV2 stats) (bridgesTacticsForDomain rnd);
          dnsExt = testHelpersPolicy rnd' (dnsPolicy ctx_err resolver)
      in mixPolicyInterleave 3 dnsExt statsOrBridges)"

definition newHTTPSDialerPolicy ::
  "bool \<Rightarrow> (nat \<Rightarrow> nat \<Rightarrow> nat) \<Rightarrow> (nat \<Rightarrow> nat \<Rightarrow> nat) \<Rightarrow> (string \<Rightarrow> string + string) \<Rightarrow>
   (string \<Rightarrow> string + userPolicyRoot) \<Rightarrow> string option \<Rightarrow> (string \<Rightarrow> string + string list) \<Rightarrow> statsContainer \<Rightarrow> policy" where
  "newHTTPSDialerPolicy ctx_err rnd rnd' kvGet unmarshal proxyURL resolver stats =
     (if proxyURL \<noteq> None then dnsPolicy ctx_err resolver
      else let composed = composed_policy ctx_err rnd rnd' resolver stats
           in case newUserPolicyV2 kvGet unmarshal of
                Inl err \<Rightarrow> composed
              | Inr primary \<Rightarrow> mixPolicyEitherOr (userPolicyV2 primary) composed)"

section \<open>The interleaving\<close>

text \<open>The specification of \<open>mixPolicyInterleave\<close>: chunks of \<open>n\<close> from each list in turn.\<close>

function chunked :: "nat \<Rightarrow> 'a list \<Rightarrow> 'a list \<Rightarrow> 'a list" where
  "chunked n xs ys =
     (if n = 0 \<or> xs = [] \<and> ys = [] then []
      else take n xs @ take n ys @ chunked n (drop n xs) (drop n ys))"
  by pat_completeness auto
termination
  by (relation "measure (\<lambda>(n, xs, ys). length xs + length ys)") (auto simp: neq_Nil_conv)

declare chunked.simps [simp del]

definition channel :: "'a list option \<Rightarrow> 'a list" where
  "channel ch = (case ch of None \<Rightarrow> [] | Some xs \<Rightarrow> xs)"

lemma maybeTakeN_channel:
  "fst (maybeTakeN Factor ch) = take (factor_nat Factor) (channel ch)"
  "channel (snd (maybeTakeN Factor ch)) = drop (factor_nat Factor) (channel ch)"
  by (cases ch; simp add: channel_def)+

lemma interleave_loop_chunked:
  "interleave_loop Factor primary fallback = chunked (factor_nat Factor) (channel primary) (channel fallback)"
proof (induction Factor primary fallback rule: interleave_loop.induct)
  case (1 Factor primary fallback)
  show ?case
  proof (cases "primary \<noteq> None \<or> fallback \<noteq> None")
    case True
    have "interleave_loop Factor (snd (maybeTakeN Factor primary)) (snd (maybeTakeN Factor fallback)) =
        chunked (factor_nat Factor) (drop (factor_nat Factor) (channel primary)) (drop (factor_nat Factor) (channel fallback))"
      using "1.IH" [OF True refl surjective_pairing [symmetric] refl surjective_pairing [symmetric]]
      by (simp add: maybeTakeN_channel)
    moreover have "chunked n [] [] = []" for n :: nat
      by (simp add: chunked.simps)
    moreover have "chunked 0 xs ys = []" for xs ys :: "'a list"
      by (simp add: chunked.simps)
    ultimately show ?thesis
      using True by (subst interleave_loop.simps, subst chunked.simps) (auto simp: case_prod_beta maybeTakeN_channel)
  next
    case False
    then show ?thesis by (simp add: interleave_loop.simps [of Factor None None] chunked.simps channel_def)
  qed
qed

lemma append_in_shuffles_left: "zs \<in> shuffles xs ys \<Longrightarrow> ws @ zs \<in> shuffles (ws @ xs) ys"
  by (induction ws) (auto intro: Cons_in_shuffles_leftI)

lemma append_in_shuffles_right: "zs \<in> shuffles xs ys \<Longrightarrow> ws @ zs \<in> shuffles xs (ws @ ys)"
  by (induction ws) (auto intro: Cons_in_shuffles_rightI)

lemma chunked_shuffles: "0 < n \<Longrightarrow> chunked n xs ys \<in> shuffles xs ys"
proof (induction n xs ys rule: chunked.induct)
  case (1 n xs ys)
  show ?case
  proof (cases "xs = [] \<and> ys = []")
    case False
    with 1 have "chunked n (drop n xs) (drop n ys) \<in> shuffles (drop n xs) (drop n ys)" by simp
    from append_in_shuffles_left [OF append_in_shuffles_right [OF this, of "take n ys"], of "take n xs"]
    show ?thesis using False 1(2) by (subst chunked.simps) simp
  qed (simp add: chunked.simps)
qed

lemma chunked_primary_nth:
  "0 < n \<Longrightarrow> i < length xs \<Longrightarrow> chunked n xs ys ! (i + min (length ys) (n * (i div n))) = xs ! i"
proof (induction n xs ys arbitrary: i rule: chunked.induct)
  case (1 n xs ys)
  then have eq: "chunked n xs ys = take n xs @ take n ys @ chunked n (drop n xs) (drop n ys)"
    by (subst chunked.simps) auto
  show ?case
  proof (cases "i < n")
    case True
    with 1(3) show ?thesis by (simp add: eq nth_append)
  next
    case False
    define k where "k = i - n"
    have k: "i = n + k" "i div n = Suc (k div n)" using False 1(2) by (auto simp: k_def le_div_geq not_less)
    have ne: "\<not> (n = 0 \<or> xs = [] \<and> ys = [])" and less: "k < length (drop n xs)" using 1(2,3) k(1) by auto
    have "chunked n (drop n xs) (drop n ys) ! (k + min (length ys - n) (n * (k div n))) = drop n xs ! k"
      using 1(1) [OF ne 1(2) less] by simp
    moreover have "i + min (length ys) (n * (i div n)) = n + min (length ys) n + (k + min (length ys - n) (n * (k div n)))"
      unfolding k(2) using k(1) by (auto simp: min_def)
    moreover have "n + min (length ys) n = length (take n xs @ take n ys)" using less by simp
    ultimately have "chunked n xs ys ! (i + min (length ys) (n * (i div n))) = drop n xs ! k"
      unfolding eq append_assoc [symmetric] by (metis nth_append_length_plus)
    then show ?thesis using 1(3) k(1) by simp
  qed
qed

lemma chunked_fallback_nth:
  "0 < n \<Longrightarrow> j < length ys \<Longrightarrow> chunked n xs ys ! (j + min (length xs) (n * (j div n + 1))) = ys ! j"
proof (induction n xs ys arbitrary: j rule: chunked.induct)
  case (1 n xs ys)
  then have eq: "chunked n xs ys = take n xs @ take n ys @ chunked n (drop n xs) (drop n ys)"
    by (subst chunked.simps) auto
  show ?case
  proof (cases "j < n")
    case True
    with 1(3) show ?thesis by (auto simp: eq nth_append min_def)
  next
    case False
    define k where "k = j - n"
    have k: "j = n + k" "j div n = Suc (k div n)" using False 1(2) by (auto simp: k_def le_div_geq not_less)
    have ne: "\<not> (n = 0 \<or> xs = [] \<and> ys = [])" and less: "k < length (drop n ys)" using 1(2,3) k(1) by auto
    have "chunked n (drop n xs) (drop n ys) ! (k + min (length xs - n) (n * (k div n + 1))) = drop n ys ! k"
      using 1(1) [OF ne 1(2) less] by simp
    moreover have "j + min (length xs) (n * (j div n + 1)) = min (length xs) n + n + (k + min (length xs - n) (n * (k div n + 1)))"
      unfolding k(2) using k(1) by (auto simp: min_def)
    ultimately show ?thesis using 1(3) k(1) by (simp add: eq nth_append)
  qed
qed

lemma set_enumerate_right: "(k, x) \<in> set (enumerate n xs) \<Longrightarrow> x \<in> set xs"
  by (auto simp: enumerate_eq_zip dest: set_zip_rightD)

section \<open>The contract of a policy\<close>

text \<open>
  A policy does not panic and emits only tactics that are not nil and that verify the domain, at the
  port, that the caller wants to reach.
\<close>

locale endpoint_policy =
  fixes lookup :: policy
  assumes total: "lookup domain port \<noteq> None"
    and emits: "lookup domain port = Some txs \<Longrightarrow> tx \<in> set txs \<Longrightarrow>
      \<exists>t. tx = Some t \<and> domainEndpointKey t = join_host_port domain port"
begin

lemma emitted: "\<exists>ts. lookup domain port = Some (map Some ts) \<and> (\<forall>t \<in> set ts. domainEndpointKey t = join_host_port domain port)"
proof -
  obtain txs where txs: "lookup domain port = Some txs" using total by blast
  have "Some (the tx) = tx" if "tx \<in> set txs" for tx using emits [OF txs that] by auto
  then have "txs = map Some (map the txs)" by (simp add: map_idI)
  moreover have "\<forall>t \<in> set (map the txs). domainEndpointKey t = join_host_port domain port"
    using emits [OF txs] by fastforce
  ultimately show ?thesis using txs by metis
qed

text \<open>The dialer's filter keeps the contract.\<close>

lemma filtered: "\<exists>txs. lookup domain port = Some txs \<and>
    (\<forall>t \<in> set (httpsDialerFilterTactics txs). domainEndpointKey t = join_host_port domain port)"
proof -
  obtain ts where ts: "lookup domain port = Some (map Some ts)" "\<forall>t \<in> set ts. domainEndpointKey t = join_host_port domain port"
    using emitted by blast
  have "filterOutNilTactics (map Some ts) = ts" by (induction ts) simp_all
  moreover have "set (keep_unique uniq xs) \<subseteq> set xs" for uniq xs
    by (induction xs arbitrary: uniq) (simp_all add: Let_def subset_insertI2)
  moreover have "\<forall>t \<in> set (assign_delays i xs). \<exists>t0 \<in> set xs. domainEndpointKey t = domainEndpointKey t0" for i xs
    by (induction i xs rule: assign_delays.induct) (auto simp: domainEndpointKey_def)
  ultimately have "\<forall>t \<in> set (httpsDialerFilterTactics (map Some ts)). domainEndpointKey t = join_host_port domain port"
    using ts(2) unfolding httpsDialerFilterTactics_def filterAssignInitialDelays_def filterOnlyKeepUniqueTactics_def
    by fastforce
  with ts(1) show ?thesis by blast
qed

end

text \<open>Policies that wrap a policy or mix two of them keep the contract.\<close>

locale child_policy = child: endpoint_policy Child for Child :: policy
begin

lemma testHelpers_todo_ok: "\<exists>todo. testHelpers_todo (map Some ts) = Some todo \<and> set todo \<subseteq> set ts"
  by (induction ts) auto

lemma test_helpers: "endpoint_policy (testHelpersPolicy rnd Child)"
proof
  fix domain port
  obtain ts where ts: "Child domain port = Some (map Some ts)" "\<forall>t \<in> set ts. domainEndpointKey t = join_host_port domain port"
    using child.emitted by blast
  obtain todo where todo: "testHelpers_todo (map Some ts) = Some todo" "set todo \<subseteq> set ts"
    using testHelpers_todo_ok by blast
  show "testHelpersPolicy rnd Child domain port \<noteq> None"
    using ts(1) todo(1) by (simp add: testHelpersPolicy_def)
  fix txs tx
  assume "testHelpersPolicy rnd Child domain port = Some txs" "tx \<in> set txs"
  then show "\<exists>t. tx = Some t \<and> domainEndpointKey t = join_host_port domain port"
    using ts todo(1) subsetD [OF todo(2)] by (auto simp: testHelpersPolicy_def domainEndpointKey_def dest!: set_enumerate_right)
qed

end

locale policy_pair = primary: endpoint_policy Primary + fallback: endpoint_policy Fallback
  for Primary :: policy and Fallback :: policy
begin

lemma either_or: "endpoint_policy (mixPolicyEitherOr Primary Fallback)"
  using primary.total fallback.total primary.emits fallback.emits
  by unfold_locales (auto simp: mixPolicyEitherOr_def split: bind_splits if_splits)

lemma interleave: "endpoint_policy (mixPolicyInterleave Factor Primary Fallback)"
proof
  fix domain port
  obtain xs ys where xs: "Primary domain port = Some xs" and ys: "Fallback domain port = Some ys"
    using primary.total fallback.total by blast
  then have out: "mixPolicyInterleave Factor Primary Fallback domain port = Some (chunked (factor_nat Factor) xs ys)"
    by (simp add: mixPolicyInterleave_def interleave_loop_chunked channel_def)
  then show "mixPolicyInterleave Factor Primary Fallback domain port \<noteq> None" by simp
  fix txs tx
  assume "mixPolicyInterleave Factor Primary Fallback domain port = Some txs" "tx \<in> set txs"
  then have "tx \<in> set xs \<union> set ys"
    using out set_shuffles [OF chunked_shuffles [of "factor_nat Factor" xs ys]] by simp
  then show "\<exists>t. tx = Some t \<and> domainEndpointKey t = join_host_port domain port"
    using primary.emits [OF xs] fallback.emits [OF ys] by blast
qed

end

interpretation null: endpoint_policy nullPolicy
  by unfold_locales (simp_all add: nullPolicy_def)

interpretation dns: endpoint_policy "dnsPolicy ctx_err resolver" for ctx_err resolver
  by unfold_locales (auto simp: dnsPolicy_def domainEndpointKey_def split: sum.splits if_splits)

interpretation bridges: endpoint_policy "bridgesTacticsForDomain rnd" for rnd
  by unfold_locales (auto simp: bridgesTacticsForDomain_def domainEndpointKey_def split: if_splits)

interpretation dns_child: child_policy "dnsPolicy ctx_err resolver" for ctx_err resolver
  by unfold_locales

section \<open>The statistics policy on well-formed statistics\<close>

lemma nil_map_Some [simp]: "nil_map (Some m) = m"
  by (simp add: nil_map_def)

lemma slice_stable_Nil [simp]: "slice_stable lt [] = []"
  by (metis length_0_conv length_slice_stable)

text \<open>The records of an endpoint, in the order of the map.\<close>

lemma lookup_tactics_records:
  assumes "stats_wf c"
  shows "\<exists>rs. stats_LookupTactics c domain port = Some (map Some rs, rs \<noteq> []) \<and> distinct (map record_key rs) \<and>
    (\<forall>r \<in> set rs. record_maps r \<and> st_Tactic r \<noteq> None) \<and>
    set rs = {r. \<exists>key. stats_abs c (join_host_port domain port, key) = Some r}"
proof (cases "gmap_get (nil_map (DomainEndpoints c)) (join_host_port domain port)")
  case None
  then show ?thesis by (simp add: stats_LookupTactics_def stats_abs_def)
next
  case (Some d)
  from stats_wf_endpoint [OF assms Some] obtain m where
    m: "d = Some \<lparr>Tactics = Some m\<rparr>" "gmap_wf m" "\<forall>(key, st) \<in> set m. entry_wf key st" by blast
  obtain rs where rs: "m = map (\<lambda>r. (record_key r, Some r)) rs" "\<forall>r \<in> set rs. record_maps r \<and> st_Tactic r \<noteq> None"
    using entries_as_records [OF m(3)] by blast
  have "map_each (map_option statsTactic_Clone) (gmap_vals m) = Some rs"
    unfolding rs(1) using rs(2) by (induction rs) (simp_all add: statsTactic_Clone_id)
  moreover have "distinct (map record_key rs)" using m(2) by (simp add: rs(1) o_def)
  moreover have "set rs = {r. \<exists>key. stats_abs c (join_host_port domain port, key) = Some r}"
  proof -
    have "stats_abs c (join_host_port domain port, key) = Some r \<longleftrightarrow> (key, Some r) \<in> set m" for key r
    proof -
      have "stats_abs c (join_host_port domain port, key) = (case gmap_get m key of Some st \<Rightarrow> st | None \<Rightarrow> None)"
        using Some m(1) by (simp add: stats_abs_def)
      then show ?thesis using gmap_get_wf_iff [OF m(2), of key "Some r"] by (simp split: option.splits)
    qed
    then show ?thesis by (auto simp: rs(1))
  qed
  ultimately show ?thesis using Some m(1) rs(2) by (auto simp: stats_LookupTactics_def nil_map_def)
qed

text \<open>The policy emits the tactics of the records with a success, each once, in the order of the sort.\<close>

lemma stats_policy_records:
  assumes "stats_wf c"
  shows "\<exists>rs. statsPolicyV2 c domain port = Some (map st_Tactic rs) \<and> distinct (map record_key rs) \<and>
    (\<forall>r \<in> set rs. st_Tactic r \<noteq> None) \<and>
    set rs = {r. (\<exists>key. stats_abs c (join_host_port domain port, key) = Some r) \<and> CountSuccess r > 0}"
proof -
  obtain rs where rs: "stats_LookupTactics c domain port = Some (map Some rs, rs \<noteq> [])" "distinct (map record_key rs)"
      "\<forall>r \<in> set rs. record_maps r \<and> st_Tactic r \<noteq> None"
      "set rs = {r. \<exists>key. stats_abs c (join_host_port domain port, key) = Some r}"
    using lookup_tactics_records [OF assms] by blast
  define out where "out = filter (\<lambda>st. st_Tactic st \<noteq> None \<and> CountSuccess st > 0) (slice_stable stats_less rs)"
  have work: "stats_work (map Some rs) = rs"
    using rs(3) by (induction rs) (auto simp: statsTactic_Clone_id)
  have each: "map_each (\<lambda>t. if st_Tactic t \<noteq> None \<and> CountSuccess t > 0 then st_Tactic t else None) out =
      Some (map (the \<circ> st_Tactic) out)"
    by (rule map_each_total) (auto simp: out_def)
  have "map (Some \<circ> (the \<circ> st_Tactic)) out = map st_Tactic out"
    by (rule map_cong) (auto simp: out_def)
  then have "statsPolicyV2 c domain port = Some (map st_Tactic out)"
    using rs(1) each work
    by (cases "rs = []") (simp_all add: statsPolicyV2_def statsPolicyFilterStatsTactics_def streamTacticsFromSlice_def
        statsDefensivelySortTacticsByDescendingSuccessRateWithAcceptPredicate_def out_def [symmetric]
        del: not_None_eq, simp add: out_def)
  moreover have "distinct (map record_key out)"
  proof -
    have "mset (map record_key (slice_stable stats_less rs)) = mset (map record_key rs)" by (simp only: mset_map mset_slice_stable)
    then have "distinct (map record_key (slice_stable stats_less rs))" using rs(2) mset_eq_imp_distinct_iff by blast
    then show ?thesis unfolding out_def by (rule distinct_map_filter)
  qed
  moreover have "set out = {r. (\<exists>key. stats_abs c (join_host_port domain port, key) = Some r) \<and> CountSuccess r > 0}"
  proof -
    have "set out = {r \<in> set rs. CountSuccess r > 0}" using rs(3) by (auto simp: out_def)
    then show ?thesis unfolding rs(4) by blast
  qed
  moreover have "\<forall>r \<in> set out. st_Tactic r \<noteq> None" by (simp add: out_def)
  ultimately show ?thesis by blast
qed

section \<open>Records stay under their endpoint\<close>

definition stats_endpoints :: "statsContainer \<Rightarrow> bool" where
  "stats_endpoints c \<longleftrightarrow> (\<forall>epnt key st. stats_abs c (epnt, key) = Some st \<longrightarrow> domainEndpointKey (the (st_Tactic st)) = epnt)"

lemma prune_abs_subset:
  assumes wf: "stats_wf c" and "stats_abs (statsContainerPruneEntries now c) (epnt, key) = Some st"
  shows "stats_abs c (epnt, key) = Some st"
proof -
  have maps: "container_maps c" by (rule stats_wf_maps [OF wf])
  from assms(2) obtain m' v where m': "(epnt, v) \<in> set (nil_map (DomainEndpoints c))"
      "prune_entry now epnt v = Some (Some \<lparr>Tactics = Some m'\<rparr>)" "(key, Some st) \<in> set m'"
    unfolding stats_abs_Some [OF prune_container_wf [OF maps]] prune_container_mem [OF maps] by blast
  from stats_wf_member [OF wf m'(1)] obtain m where
    m: "v = Some \<lparr>Tactics = Some m\<rparr>" "gmap_wf m" "\<forall>(key, st) \<in> set m. entry_wf key st" by blast
  from prune_endpoint_records [OF m(2,3), of now] m'(2,3) m(1) have "(key, Some st) \<in> set m"
    by (auto dest!: prune_entry_SomeD)
  with m'(1) m(1) show ?thesis using stats_abs_Some [OF wf] by blast
qed

lemma record_event_tactic [simp]: "st_Tactic (record_event now ev st) = st_Tactic st"
  by (cases ev) auto

lemma map_event_endpoints:
  assumes "\<forall>epnt key st. m (epnt, key) = Some st \<longrightarrow> domainEndpointKey (the (st_Tactic st)) = epnt"
    and "map_event now ev m (epnt, key) = Some st"
  shows "domainEndpointKey (the (st_Tactic st)) = epnt"
  using assms by (auto simp: map_event_def stats_keys_def new_record_def split: option.splits if_splits)

lemma stats_apply_endpoints:
  assumes "stats_wf c" and "stats_endpoints c" and "stats_apply now ev c = Some c'"
  shows "stats_endpoints c'"
proof (cases "ev = EvTrim")
  case True
  with assms show ?thesis
    by (auto simp: stats_endpoints_def trim_def dest!: prune_abs_subset [OF assms(1)])
next
  case False
  with handlers_refine [OF assms(1) False, of now] assms(3) have abs: "stats_abs c' = map_event now ev (stats_abs c)" by auto
  show ?thesis
    using map_event_endpoints [OF assms(2) [unfolded stats_endpoints_def]] unfolding stats_endpoints_def abs by blast
qed

definition stats_run :: "(int \<times> stats_event) list \<Rightarrow> statsContainer \<Rightarrow> statsContainer option" where
  "stats_run evs c = for_each (\<lambda>(now, ev). stats_apply now ev) evs c"

lemma stats_run_endpoints:
  assumes "stats_wf c" and "stats_endpoints c"
  shows "\<exists>c'. stats_run evs c = Some c' \<and> stats_wf c' \<and> stats_endpoints c'"
  unfolding stats_run_def
proof (rule for_each_invariant, use assms in blast, goal_cases)
  case (1 x s)
  obtain now ev where x: "x = (now, ev)" by (cases x)
  with 1 stats_apply_wf [of s now ev] obtain s' where "stats_apply now ev s = Some s'" "stats_wf s'" by auto
  with 1 x stats_apply_endpoints [of s now ev s'] show ?case by auto
qed

lemma stats_policy_contract:
  assumes "stats_wf c" and "stats_endpoints c"
  shows "endpoint_policy (statsPolicyV2 c)"
proof
  fix domain port
  obtain rs where rs: "statsPolicyV2 c domain port = Some (map st_Tactic rs)" "\<forall>r \<in> set rs. st_Tactic r \<noteq> None"
      "set rs = {r. (\<exists>key. stats_abs c (join_host_port domain port, key) = Some r) \<and> CountSuccess r > 0}"
    using stats_policy_records [OF assms(1)] by blast
  then show "statsPolicyV2 c domain port \<noteq> None" by simp
  fix txs tx
  assume "statsPolicyV2 c domain port = Some txs" "tx \<in> set txs"
  with rs(1) obtain r where r: "r \<in> set rs" "tx = st_Tactic r" by auto
  then obtain key t where "stats_abs c (join_host_port domain port, key) = Some r" "st_Tactic r = Some t"
    using rs(2,3) by blast
  with assms(2) have "domainEndpointKey t = join_host_port domain port" unfolding stats_endpoints_def by force
  with r(2) \<open>st_Tactic r = Some t\<close> show "\<exists>t. tx = Some t \<and> domainEndpointKey t = join_host_port domain port" by simp
qed

interpretation fresh_stats: endpoint_policy "statsPolicyV2 newStatsContainer"
  by (rule stats_policy_contract [OF stats_wf_new]) (simp add: stats_endpoints_def stats_abs_def newStatsContainer_def nil_map_def)

interpretation fresh_mix: policy_pair "statsPolicyV2 newStatsContainer" "bridgesTacticsForDomain rnd" for rnd
  by unfold_locales

lemma composed_policy_contract:
  assumes "stats_wf c" and "stats_endpoints c"
  shows "endpoint_policy (composed_policy ctx_err rnd rnd' resolver c)"
proof -
  have "policy_pair (statsPolicyV2 c) (bridgesTacticsForDomain rnd)"
    by (rule policy_pair.intro [OF stats_policy_contract [OF assms] bridges.endpoint_policy_axioms])
  from policy_pair.interleave [OF this] have "endpoint_policy (mixPolicyInterleave 3 (statsPolicyV2 c) (bridgesTacticsForDomain rnd))" .
  with dns_child.test_helpers have "policy_pair (testHelpersPolicy rnd' (dnsPolicy ctx_err resolver))
      (mixPolicyInterleave 3 (statsPolicyV2 c) (bridgesTacticsForDomain rnd))"
    by (rule policy_pair.intro)
  from policy_pair.interleave [OF this] show ?thesis by (simp add: composed_policy_def)
qed

section \<open>Shuffles\<close>

lemma mset_bridgesDomainsInRandomOrder: "mset (bridgesDomainsInRandomOrder rnd) = mset bridgesDomains"
  unfolding bridgesDomainsInRandomOrder_def by (rule mset_rand_Shuffle) (simp add: bridgesDomains_def)

text \<open>The table of bridge domains, compared as numbers.\<close>

definition string_code :: "string \<Rightarrow> int" where
  "string_code s = foldl (\<lambda>acc c. acc * 4 + of_char c) 0 s"

section \<open>Theorems\<close>

text \<open>
  C15: The interleaving policy emits all the tactics of both policies, each once and in the order of
  its policy, in rounds of \<open>max(1, Factor)\<close> from each: the positions say exactly where each tactic
  comes out, so no policy can delay the other by more than the completed rounds.
\<close>

theorem interleave_positions:
  assumes "Primary domain port = Some xs" and "Fallback domain port = Some ys"
  shows "\<exists>out. mixPolicyInterleave Factor Primary Fallback domain port = Some out \<and> out \<in> shuffles xs ys \<and>
    (\<forall>i < length xs. out ! (i + min (length ys) (factor_nat Factor * (i div factor_nat Factor))) = xs ! i) \<and>
    (\<forall>j < length ys. out ! (j + min (length xs) (factor_nat Factor * (j div factor_nat Factor + 1))) = ys ! j)"
  using assms
  by (simp add: mixPolicyInterleave_def interleave_loop_chunked channel_def chunked_shuffles chunked_primary_nth
      chunked_fallback_nth [of "factor_nat Factor", simplified])

theorem interleave_positions_witness:
  "\<exists>out. mixPolicyInterleave 0 (dnsPolicy False (\<lambda>_. Inr [''192.0.2.1'', ''192.0.2.2''])) nullPolicy ''a.org'' ''443'' = Some out \<and>
     length out = 2 \<and> map (Address \<circ> the) out = [''192.0.2.1'', ''192.0.2.2'']"
proof -
  let ?t = "\<lambda>addr. Some \<lparr>Address = addr, InitialDelay = 0, Port = ''443'', SNI = ''a.org'', VerifyHostname = ''a.org''\<rparr>"
  have xs: "dnsPolicy False (\<lambda>_. Inr [''192.0.2.1'', ''192.0.2.2'']) ''a.org'' ''443'' = Some [?t ''192.0.2.1'', ?t ''192.0.2.2'']"
    by code_simp
  have ys: "nullPolicy ''a.org'' ''443'' = Some []" by (simp add: nullPolicy_def)
  from interleave_positions [where Factor = 0, of "dnsPolicy False (\<lambda>_. Inr [''192.0.2.1'', ''192.0.2.2''])" "''a.org''" "''443''"
      _ nullPolicy, OF xs ys] show ?thesis by auto
qed

text \<open>
  C14: The tactics of the engine's policy, without a user policy, verify what the caller dials. Start
  from statistics whose records sit under the endpoint of their tactic, as a new container has them,
  and apply any sequence of handlers and trims: the composed policy does not panic, emits no nil
  tactic, and each tactic that the dialer's filter lets through has the domain and the port of the
  request as its domain endpoint.
\<close>

theorem engine_policy_verifies_domain:
  assumes "stats_wf c0" and "stats_endpoints c0"
  shows "\<exists>c txs. stats_run evs c0 = Some c \<and> composed_policy ctx_err rnd rnd' resolver c domain port = Some txs \<and>
    None \<notin> set txs \<and> (\<forall>t \<in> set (httpsDialerFilterTactics txs). domainEndpointKey t = join_host_port domain port)"
proof -
  obtain c where c: "stats_run evs c0 = Some c" "stats_wf c" "stats_endpoints c"
    using stats_run_endpoints [OF assms] by blast
  note contract = composed_policy_contract [OF c(2,3), of ctx_err rnd rnd' resolver]
  from endpoint_policy.filtered [OF contract, of domain port] obtain txs where
    txs: "composed_policy ctx_err rnd rnd' resolver c domain port = Some txs"
      "\<forall>t \<in> set (httpsDialerFilterTactics txs). domainEndpointKey t = join_host_port domain port" by blast
  moreover have "None \<notin> set txs" using endpoint_policy.emits [OF contract txs(1)] by blast
  ultimately show ?thesis using c(1) by blast
qed

theorem engine_policy_verifies_domain_witness:
  "\<exists>c txs. stats_run [(0, EvStarting api_tactic), (1, EvSuccess api_tactic)] newStatsContainer = Some c \<and>
    composed_policy False (\<lambda>_ _. 0) (\<lambda>_ _. 0) (\<lambda>_. Inl ''error'') c ''api.ooni.io'' ''443'' = Some txs \<and>
    None \<notin> set txs \<and> (\<forall>t \<in> set (httpsDialerFilterTactics txs). domainEndpointKey t = join_host_port ''api.ooni.io'' ''443'')"
  by (rule engine_policy_verifies_domain [OF stats_wf_new])
    (simp add: stats_endpoints_def stats_abs_def newStatsContainer_def nil_map_def)

text \<open>
  The statistics policy emits the tactics of the endpoint's records that have a success, and only
  those, each once; its assertion never fails.
\<close>

theorem stats_policy_emits_successes:
  assumes "stats_wf c"
  shows "\<exists>ts. statsPolicyV2 c domain port = Some (map Some ts) \<and> distinct (map tacticSummaryKey ts) \<and>
    set ts = {t. \<exists>key r. stats_abs c (join_host_port domain port, key) = Some r \<and> CountSuccess r > 0 \<and> st_Tactic r = Some t}"
proof -
  obtain rs where rs: "statsPolicyV2 c domain port = Some (map st_Tactic rs)" "distinct (map record_key rs)"
      "\<forall>r \<in> set rs. st_Tactic r \<noteq> None"
      "set rs = {r. (\<exists>key. stats_abs c (join_host_port domain port, key) = Some r) \<and> CountSuccess r > 0}"
    using stats_policy_records [OF assms] by blast
  let ?ts = "map (the \<circ> st_Tactic) rs"
  have "statsPolicyV2 c domain port = Some (map Some ?ts)" using rs(1,3) by simp
  moreover have "distinct (map tacticSummaryKey (map (the \<circ> st_Tactic) rs))" using rs(2) by (simp add: o_def)
  moreover have "set ?ts = {t. \<exists>r \<in> set rs. st_Tactic r = Some t}" using rs(3) by force
  then have "set ?ts = {t. \<exists>key r. stats_abs c (join_host_port domain port, key) = Some r \<and> CountSuccess r > 0 \<and> st_Tactic r = Some t}"
    unfolding rs(4) by blast
  ultimately show ?thesis by blast
qed

theorem stats_policy_emits_successes_witness: "statsPolicyV2 sample_stats ''api.ooni.io'' ''443'' = Some [Some api_tactic]"
proof -
  obtain ts where ts: "statsPolicyV2 sample_stats ''api.ooni.io'' ''443'' = Some (map Some ts)" "distinct (map tacticSummaryKey ts)"
      "set ts = {t. \<exists>key r. stats_abs sample_stats (join_host_port ''api.ooni.io'' ''443'', key) = Some r \<and> CountSuccess r > 0 \<and> st_Tactic r = Some t}"
    using stats_policy_emits_successes [OF sample_stats_wf] by blast
  have key: "join_host_port ''api.ooni.io'' ''443'' = domainEndpointKey api_tactic"
    by (simp add: domainEndpointKey_def api_tactic_def)
  have "set ts = {api_tactic}"
    unfolding ts(3) key by (auto simp: stats_abs_def sample_stats_def sample_record_def new_record_def split: if_splits)
  moreover have "distinct ts" using ts(2) by (simp add: distinct_map)
  ultimately have "mset ts = {#api_tactic#}" by (metis mset_set_set mset_set.insert mset_set.empty finite.emptyI empty_iff)
  then have "ts = [api_tactic]" by simp
  with ts(1) show ?thesis by simp
qed

definition user_tactics ::
  "(string \<Rightarrow> string + string) \<Rightarrow> (string \<Rightarrow> string + userPolicyRoot) \<Rightarrow> string \<Rightarrow> string \<Rightarrow> httpsDialerTactic option list" where
  "user_tactics kvGet unmarshal domain port =
     (case kvGet userPolicyKey of Inl _ \<Rightarrow> [] | Inr data \<Rightarrow>
        (case unmarshal data of Inl _ \<Rightarrow> [] | Inr policy_root \<Rightarrow>
           if up_Version policy_root \<noteq> userPolicyVersion then []
           else filter (\<lambda>tx. tx \<noteq> None)
             (case gmap_get (nil_map (up_DomainEndpoints policy_root)) (join_host_port domain port) of
                None \<Rightarrow> [] | Some txs \<Rightarrow> txs)))"

text \<open>
  With a proxy the engine's policy is the DNS policy. Without one, the tactics that a valid user
  policy has for the endpoint, less the nil ones, are all that it emits; only when there are none, or
  the user policy does not load, does it emit those of the composed policy.
\<close>

theorem engine_policy_priority:
  "newHTTPSDialerPolicy ctx_err rnd rnd' kvGet unmarshal proxyURL resolver stats domain port =
     (if proxyURL \<noteq> None then dnsPolicy ctx_err resolver domain port
      else if user_tactics kvGet unmarshal domain port \<noteq> [] then Some (user_tactics kvGet unmarshal domain port)
      else composed_policy ctx_err rnd rnd' resolver stats domain port)"
proof -
  have "userPolicyRemoveNilEntries txs = filter (\<lambda>tx. tx \<noteq> None) txs" for txs by (induction txs) auto
  then show ?thesis
    by (auto simp: newHTTPSDialerPolicy_def newUserPolicyV2_def user_tactics_def userPolicyV2_def mixPolicyEitherOr_def Let_def
        split: sum.splits option.splits)
qed

fun strict_chain :: "'a::linorder list \<Rightarrow> bool" where
  "strict_chain (x # y # zs) \<longleftrightarrow> x < y \<and> strict_chain (y # zs)"
| "strict_chain _ \<longleftrightarrow> True"

lemma strict_chain_distinct: "strict_chain xs \<Longrightarrow> sorted_wrt (<) xs"
proof (induction xs rule: strict_chain.induct)
  case (1 x y zs)
  then show ?case by (auto intro: less_trans)
qed auto

lemma bridgesDomains_chain: "strict_chain (sort (map string_code bridgesDomains))"
  by code_simp

lemma bridgesDomains_distinct: "distinct bridgesDomains"
proof -
  have "distinct (sort (map string_code bridgesDomains))"
    using strict_chain_distinct [OF bridgesDomains_chain] by (simp add: strict_sorted_iff)
  then show ?thesis by (simp add: distinct_map)
qed

text \<open>
  The bridges policy emits tactics for \<open>api.ooni.io\<close> only: one for each of the domains of the
  table, which has no duplicates, in some order, with that domain as the SNI and \<open>api.ooni.io\<close> as the
  name to verify.
\<close>

lemma bridges_tactics:
  "bridgesTacticsForDomain rnd domain port =
     (if domain = ''api.ooni.io''
      then Some (map (\<lambda>sni. Some \<lparr>Address = ''162.55.247.208'', InitialDelay = 0, Port = port, SNI = sni, VerifyHostname = domain\<rparr>)
                  (bridgesDomainsInRandomOrder (rnd 0)))
      else Some []) \<and>
   mset (bridgesDomainsInRandomOrder (rnd 0)) = mset bridgesDomains \<and> distinct (bridgesDomainsInRandomOrder (rnd 0))"
  using mset_bridgesDomainsInRandomOrder [of "rnd 0"] bridgesDomains_distinct mset_eq_imp_distinct_iff
  by (auto simp: bridgesTacticsForDomain_def bridgesAddrs_def)

definition with_sni :: "httpsDialerTactic \<Rightarrow> string \<Rightarrow> httpsDialerTactic" where
  "with_sni t sni = t\<lparr>InitialDelay := 0, SNI := sni\<rparr>"

text \<open>
  The test-helpers policy emits the tactics of its child first and unchanged, and then, for each of
  them that verifies a test helper, one tactic with each bridge domain as the SNI and the same
  address, port and name to verify.
\<close>

lemma test_helpers_extension:
  assumes "Child domain port = Some (map Some ts)"
  shows "\<exists>ext. testHelpersPolicy rnd Child domain port = Some (map Some (ts @ ext)) \<and>
    mset ext = mset (concat (map (\<lambda>t. map (with_sni t) bridgesDomains)
      (filter (\<lambda>t. VerifyHostname t \<in> set testHelpersDomains) ts)))"
proof -
  let ?todo = "filter (\<lambda>t. VerifyHostname t \<in> set testHelpersDomains) ts"
  let ?ext = "concat (map (\<lambda>(k, t). map (with_sni t) (bridgesDomainsInRandomOrder (rnd k))) (enumerate 0 ?todo))"
  have todo: "testHelpers_todo (map Some ts) = Some ?todo"
    by (induction ts) simp_all
  have "(\<lambda>sni. Some \<lparr>Address = Address t, InitialDelay = 0, Port = Port t, SNI = sni, VerifyHostname = VerifyHostname t\<rparr>) =
      Some \<circ> with_sni t" for t by (simp add: fun_eq_iff with_sni_def)
  then have "testHelpersPolicy rnd Child domain port = Some (map Some (ts @ ?ext))"
    using assms todo by (simp add: testHelpersPolicy_def map_concat o_def case_prod_unfold)
  moreover have "mset (concat (map (\<lambda>(k, t). map (with_sni t) (bridgesDomainsInRandomOrder (rnd k))) (enumerate n us))) =
      mset (concat (map (\<lambda>t. map (with_sni t) bridgesDomains) us))" for n us
    by (induction us arbitrary: n) (simp_all add: mset_bridgesDomainsInRandomOrder)
  ultimately show ?thesis by blast
qed

end
