(* ===== verification/HttpsDialer.thy ===== *)
theory HttpsDialer
  imports Policies
begin

text \<open>
  The TLS dialer of \<open>internal/enginenetx/httpsdialer.go\<close>: \<open>DialTLSContext\<close> with its sixteen workers,
  \<open>dialTLS\<close>, the wait for the happy-eyeballs delay, the verification of the certificate chain and the
  reduction of the results.

  The dialer is a relation \<open>dial_step\<close> on states, and its runs are all the interleavings of the workers,
  of the collector loop, of the cancellation by the caller, and of the clock. The outcomes of the
  network (connect, handshake, peer certificates) are arbitrary: a step exists for each of them.
  A send on an unbuffered channel and its receipt by the collector loop are one step. The channel of
  tactics is the list of the tactics that are still to be read. \<open>verify\<close> is \<open>Verify\<close> of \<open>crypto/x509\<close> with
  the root pool of the dialer: from the leaf certificate, the name and the intermediates to the
  error, if any. \<open>d_log\<close> and \<open>d_open\<close> record the calls of the events handler and the connections that
  are open, and no step depends on them.
\<close>

section \<open>Verification and results\<close>

definition errEmptyVerifyHostname :: string where
  "errEmptyVerifyHostname = ''empty VerifyHostname''"

definition errNoPeerCertificate :: string where
  "errNoPeerCertificate = ''no peer certificate''"

definition httpsDialerVerifyCertificateChain ::
  "('cert \<Rightarrow> string \<Rightarrow> 'cert list \<Rightarrow> string option) \<Rightarrow> string \<Rightarrow> 'cert list \<Rightarrow> string option" where
  "httpsDialerVerifyCertificateChain verify hostname peerCertificates =
     (if hostname = '''' then Some errEmptyVerifyHostname
      else case peerCertificates of [] \<Rightarrow> Some errNoPeerCertificate
           | leaf # intermediates \<Rightarrow> verify leaf hostname intermediates)"

datatype 'conn dial_result = DialConn 'conn | DialErrors "string list" | DialNoAnswer

text \<open>The connections that it closes and what it returns; \<open>DialErrors\<close> is \<open>errors.Join\<close>.\<close>

definition httpsDialerReduceResult :: "'conn list \<Rightarrow> string list \<Rightarrow> 'conn list \<times> 'conn dial_result" where
  "httpsDialerReduceResult connv errorv =
     (if length connv \<ge> 1 then (tl connv, DialConn (hd connv))
      else if length errorv \<ge> 1 then ([], DialErrors errorv)
      else ([], DialNoAnswer))"

text \<open>The zero time is set by the first call.\<close>

definition zeroTime_Get :: "int \<Rightarrow> int \<Rightarrow> int" where
  "zeroTime_Get now t0 = (if t0 = time_zero then now else t0)"

section \<open>The dialer\<close>

record 'cert tls_conn =
  tc_id :: nat
  tc_tactic :: httpsDialerTactic
  tc_certs :: "'cert list"

text \<open>Where a worker is in its loop and in \<open>dialTLS\<close>; the number is the one of the attempt.\<close>

datatype 'cert worker =
    WIdle
  | WWait nat httpsDialerTactic int
  | WReady nat httpsDialerTactic
  | WConnect nat httpsDialerTactic
  | WHandshake nat httpsDialerTactic
  | WVerify nat httpsDialerTactic "'cert list"
  | WSendErr nat string
  | WSendConn "'cert tls_conn"
  | WDone

text \<open>
  \<open>httpsDialerTacticWaitReady\<close> up to its \<open>select\<close>: an attempt whose deadline has passed is ready, another
  one waits for the timer or for the context.
\<close>

definition httpsDialerTacticWaitReady :: "int \<Rightarrow> int \<Rightarrow> nat \<Rightarrow> httpsDialerTactic \<Rightarrow> 'cert worker" where
  "httpsDialerTacticWaitReady now t0 n tac =
     (let deadline = t0 + InitialDelay tac; delta = deadline - now in
      if delta \<le> 0 then WReady n tac else WWait n tac deadline)"

record 'cert dial_state =
  d_emitter :: "httpsDialerTactic list"
  d_workers :: "'cert worker list"
  d_t0 :: int
  d_now :: int
  d_cancelled :: bool
  d_next :: nat
  d_stats :: statsContainer
  d_log :: "(nat \<times> int \<times> stats_event) list"
  d_open :: "nat set"
  d_connv :: "'cert tls_conn list"
  d_errorv :: "string list"
  d_joined :: nat

definition parallelism :: nat where
  "parallelism = 16"

definition dial_init :: "httpsDialerTactic list \<Rightarrow> int \<Rightarrow> bool \<Rightarrow> statsContainer \<Rightarrow> 'cert dial_state" where
  "dial_init tactics now cancelled stats = \<lparr>
     d_emitter = tactics, d_workers = replicate parallelism WIdle, d_t0 = time_zero, d_now = now,
     d_cancelled = cancelled, d_next = 0, d_stats = stats, d_log = [], d_open = {}, d_connv = [], d_errorv = [],
     d_joined = 0\<rparr>"

text \<open>A panic of the policy is \<open>None\<close>; an endpoint that does not parse is an error.\<close>

definition DialTLSContext_start ::
  "policy \<Rightarrow> string \<Rightarrow> int \<Rightarrow> bool \<Rightarrow> statsContainer \<Rightarrow> (addr_error + 'cert dial_state) option" where
  "DialTLSContext_start policy endpoint now cancelled stats =
     (case SplitHostPort endpoint of
        Inl err \<Rightarrow> Some (Inl err)
      | Inr (hostname, port) \<Rightarrow>
          do { txs \<leftarrow> policy hostname port;
               Some (Inr (dial_init (httpsDialerFilterTactics txs) now cancelled stats)) })"

text \<open>What the collector loop receives, on \<open>joiner\<close> or on \<open>collector\<close>, and what it does with it.\<close>

datatype 'cert message = MsgJoin | MsgErr string | MsgConn "'cert tls_conn"

fun DialTLSContext_collect :: "'cert message \<Rightarrow> 'cert dial_state \<Rightarrow> 'cert dial_state" where
  "DialTLSContext_collect MsgJoin s = s\<lparr>d_joined := Suc (d_joined s)\<rparr>"
| "DialTLSContext_collect (MsgErr err) s = s\<lparr>d_errorv := d_errorv s @ [err]\<rparr>"
| "DialTLSContext_collect (MsgConn conn) s = s\<lparr>d_connv := d_connv s @ [conn], d_cancelled := True\<rparr>"

text \<open>A call of the events handler.\<close>

definition notify :: "nat \<Rightarrow> stats_event \<Rightarrow> 'cert dial_state \<Rightarrow> 'cert dial_state option" where
  "notify n ev s =
     do { st \<leftarrow> stats_apply (d_now s) ev (d_stats s);
          Some (s\<lparr>d_stats := st, d_log := d_log s @ [(n, d_now s, ev)]\<rparr>) }"

inductive dial_act ::
  "('cert \<Rightarrow> string \<Rightarrow> 'cert list \<Rightarrow> string option) \<Rightarrow> 'cert dial_state \<Rightarrow> 'cert dial_state \<Rightarrow> bool"
  for verify where
  take: "d_workers s = us @ WIdle # vs \<Longrightarrow> d_emitter s = tac # rest \<Longrightarrow>
    t0 = zeroTime_Get (d_now s) (d_t0 s) \<Longrightarrow> w = httpsDialerTacticWaitReady (d_now s) t0 (d_next s) tac \<Longrightarrow>
    dial_act verify s (s\<lparr>d_workers := us @ w # vs, d_emitter := rest, d_t0 := t0, d_next := Suc (d_next s)\<rparr>)"
| timer: "d_workers s = us @ WWait n tac deadline # vs \<Longrightarrow> deadline \<le> d_now s \<Longrightarrow>
    dial_act verify s (s\<lparr>d_workers := us @ WReady n tac # vs\<rparr>)"
| interrupted: "d_workers s = us @ WWait n tac deadline # vs \<Longrightarrow> d_cancelled s \<Longrightarrow>
    dial_act verify s (s\<lparr>d_workers := us @ WSendErr n err # vs\<rparr>)"
| start: "d_workers s = us @ WReady n tac # vs \<Longrightarrow> notify n (EvStarting tac) s = Some s1 \<Longrightarrow>
    dial_act verify s (s1\<lparr>d_workers := us @ WConnect n tac # vs\<rparr>)"
| tcp_fail: "d_workers s = us @ WConnect n tac # vs \<Longrightarrow>
    notify n (EvTCPConnectError (d_cancelled s) tac err) s = Some s1 \<Longrightarrow>
    dial_act verify s (s1\<lparr>d_workers := us @ WSendErr n err # vs\<rparr>)"
| tcp_ok: "d_workers s = us @ WConnect n tac # vs \<Longrightarrow>
    dial_act verify s (s\<lparr>d_workers := us @ WHandshake n tac # vs, d_open := insert n (d_open s)\<rparr>)"
| tls_fail: "d_workers s = us @ WHandshake n tac # vs \<Longrightarrow>
    notify n (EvTLSHandshakeError (d_cancelled s) tac err) s = Some s1 \<Longrightarrow>
    dial_act verify s (s1\<lparr>d_workers := us @ WSendErr n err # vs, d_open := d_open s - {n}\<rparr>)"
| tls_ok: "d_workers s = us @ WHandshake n tac # vs \<Longrightarrow>
    dial_act verify s (s\<lparr>d_workers := us @ WVerify n tac certs # vs\<rparr>)"
| verify_fail: "d_workers s = us @ WVerify n tac certs # vs \<Longrightarrow>
    httpsDialerVerifyCertificateChain verify (VerifyHostname tac) certs = Some err \<Longrightarrow>
    notify n (EvTLSVerifyError tac err) s = Some s1 \<Longrightarrow>
    dial_act verify s (s1\<lparr>d_workers := us @ WSendErr n err # vs, d_open := d_open s - {n}\<rparr>)"
| verify_ok: "d_workers s = us @ WVerify n tac certs # vs \<Longrightarrow>
    httpsDialerVerifyCertificateChain verify (VerifyHostname tac) certs = None \<Longrightarrow>
    notify n (EvSuccess tac) s = Some s1 \<Longrightarrow>
    dial_act verify s (s1\<lparr>d_workers := us @ WSendConn \<lparr>tc_id = n, tc_tactic = tac, tc_certs = certs\<rparr> # vs\<rparr>)"
| collect_err: "d_workers s = us @ WSendErr n err # vs \<Longrightarrow> d_joined s < parallelism \<Longrightarrow>
    dial_act verify s ((DialTLSContext_collect (MsgErr err) s)\<lparr>d_workers := us @ WIdle # vs\<rparr>)"
| collect_conn: "d_workers s = us @ WSendConn conn # vs \<Longrightarrow> d_joined s < parallelism \<Longrightarrow>
    dial_act verify s ((DialTLSContext_collect (MsgConn conn) s)\<lparr>d_workers := us @ WIdle # vs\<rparr>)"
| join: "d_workers s = us @ WIdle # vs \<Longrightarrow> d_emitter s = [] \<Longrightarrow> d_joined s < parallelism \<Longrightarrow>
    dial_act verify s ((DialTLSContext_collect MsgJoin s)\<lparr>d_workers := us @ WDone # vs\<rparr>)"
| cancel: "\<not> d_cancelled s \<Longrightarrow> dial_act verify s (s\<lparr>d_cancelled := True\<rparr>)"

text \<open>Time passes between the steps.\<close>

inductive dial_step ::
  "('cert \<Rightarrow> string \<Rightarrow> 'cert list \<Rightarrow> string option) \<Rightarrow> 'cert dial_state \<Rightarrow> 'cert dial_state \<Rightarrow> bool"
  for verify where
  "d_now s \<le> now \<Longrightarrow> dial_act verify (s\<lparr>d_now := now\<rparr>) s' \<Longrightarrow> dial_step verify s s'"

inductive_cases dial_stepE: "dial_step verify s s'"

text \<open>The states after \<open>k\<close> steps.\<close>

inductive dial_run ::
  "('cert \<Rightarrow> string \<Rightarrow> 'cert list \<Rightarrow> string option) \<Rightarrow> 'cert dial_state \<Rightarrow> nat \<Rightarrow> 'cert dial_state \<Rightarrow> bool"
  for verify and s0 where
  refl: "dial_run verify s0 0 s0"
| step: "dial_run verify s0 k s \<Longrightarrow> dial_step verify s s' \<Longrightarrow> dial_run verify s0 (Suc k) s'"

definition dial_final :: "'cert dial_state \<Rightarrow> bool" where
  "dial_final s \<longleftrightarrow> d_joined s = parallelism"

section \<open>Invariants\<close>

fun worker_ids :: "'cert worker \<Rightarrow> nat list" where
  "worker_ids (WWait n _ _) = [n]"
| "worker_ids (WReady n _) = [n]"
| "worker_ids (WConnect n _) = [n]"
| "worker_ids (WHandshake n _) = [n]"
| "worker_ids (WVerify n _ _) = [n]"
| "worker_ids (WSendErr n _) = [n]"
| "worker_ids (WSendConn conn) = [tc_id conn]"
| "worker_ids _ = []"

fun conn_ids :: "'cert worker \<Rightarrow> nat list" where
  "conn_ids (WHandshake n _) = [n]"
| "conn_ids (WVerify n _ _) = [n]"
| "conn_ids (WSendConn conn) = [tc_id conn]"
| "conn_ids _ = []"

definition active :: "'cert dial_state \<Rightarrow> nat list" where
  "active s = concat (map worker_ids (d_workers s))"

lemmas wait_ready = httpsDialerTacticWaitReady_def Let_def

lemma wait_ready_ids [simp]:
  "worker_ids (httpsDialerTacticWaitReady now t0 n tac) = [n]"
  "conn_ids (httpsDialerTacticWaitReady now t0 n tac) = []"
  "httpsDialerTacticWaitReady now t0 n tac \<noteq> WDone"
  "WSendConn c \<noteq> httpsDialerTacticWaitReady now t0 n tac"
  by (simp_all add: wait_ready)

lemma notify_Some [simp]:
  "notify n ev s = Some s1 \<longleftrightarrow>
     (\<exists>st. stats_apply (d_now s) ev (d_stats s) = Some st \<and> s1 = s\<lparr>d_stats := st, d_log := d_log s @ [(n, d_now s, ev)]\<rparr>)"
  by (auto simp: notify_def split: bind_splits)

lemma conn_ids_subset: "set (conn_ids w) \<subseteq> set (worker_ids w)"
  by (cases w) auto

text \<open>The attempts: the emitter, the counters and the numbers of the attempts.\<close>

definition counts_inv :: "httpsDialerTactic list \<Rightarrow> 'cert dial_state \<Rightarrow> bool" where
  "counts_inv ts s \<longleftrightarrow> length (d_workers s) = parallelism \<and>
     d_joined s = length (filter (\<lambda>w. w = WDone) (d_workers s)) \<and>
     d_emitter s = drop (d_next s) ts \<and> d_next s \<le> length ts \<and>
     d_next s = length (d_connv s) + length (d_errorv s) + length (active s) \<and>
     (d_joined s > 0 \<longrightarrow> d_emitter s = [])"

definition ids_inv :: "'cert dial_state \<Rightarrow> bool" where
  "ids_inv s \<longleftrightarrow> distinct (active s @ map tc_id (d_connv s)) \<and>
     (\<forall>n \<in> set (active s @ map tc_id (d_connv s)). n < d_next s)"

definition open_inv :: "'cert dial_state \<Rightarrow> bool" where
  "open_inv s \<longleftrightarrow> d_open s = set (map tc_id (d_connv s)) \<union> set (concat (map conn_ids (d_workers s)))"

lemma counts_inv_act:
  assumes "dial_act verify s s'" and "counts_inv ts s"
  shows "counts_inv ts s'"
  using assms
proof (induction rule: dial_act.induct)
  case (take s us vs tac rest t0 w)
  then have "drop (d_next s) ts = tac # rest" by (simp add: counts_inv_def)
  then have "rest = drop (Suc (d_next s)) ts" "d_next s < length ts"
    by (metis drop_Suc list.sel(3) tl_drop, metis drop_all linorder_not_less list.distinct(1))
  with take show ?case by (auto simp: counts_inv_def active_def)
qed (auto simp: counts_inv_def active_def)

lemma ids_inv_act:
  assumes "dial_act verify s s'" and "ids_inv s"
  shows "ids_inv s'"
  using assms by (induction rule: dial_act.induct) (auto simp: ids_inv_def active_def less_Suc_eq)

lemma open_inv_act:
  assumes "dial_act verify s s'" and "ids_inv s" and "open_inv s"
  shows "open_inv s'"
  using assms
proof (induction rule: dial_act.induct)
  case (tls_fail s us n tac vs err s1)
  then have "n \<notin> set (concat (map conn_ids us))" "n \<notin> set (concat (map conn_ids vs))" "n \<notin> tc_id ` set (d_connv s)"
    using conn_ids_subset by (fastforce simp: ids_inv_def active_def)+
  with tls_fail show ?case by (auto simp: open_inv_def)
next
  case (verify_fail s us n tac certs vs err s1)
  then have "n \<notin> set (concat (map conn_ids us))" "n \<notin> set (concat (map conn_ids vs))" "n \<notin> tc_id ` set (d_connv s)"
    using conn_ids_subset by (fastforce simp: ids_inv_def active_def)+
  with verify_fail show ?case by (auto simp: open_inv_def)
qed (auto simp: open_inv_def)

text \<open>The calls of the events handler for one attempt.\<close>

definition dial_log :: "'cert dial_state \<Rightarrow> nat \<Rightarrow> stats_event list" where
  "dial_log s n = map (\<lambda>(_, _, ev). ev) (filter (\<lambda>(k, _, _). k = n) (d_log s))"

fun failure_of :: "httpsDialerTactic \<Rightarrow> stats_event \<Rightarrow> bool" where
  "failure_of t (EvTCPConnectError _ t' _) \<longleftrightarrow> t' = t"
| "failure_of t (EvTLSHandshakeError _ t' _) \<longleftrightarrow> t' = t"
| "failure_of t (EvTLSVerifyError t' _) \<longleftrightarrow> t' = t"
| "failure_of t _ \<longleftrightarrow> False"

definition failed_log :: "httpsDialerTactic \<Rightarrow> stats_event list \<Rightarrow> bool" where
  "failed_log t evs \<longleftrightarrow> evs = [] \<or> (\<exists>ev. evs = [EvStarting t, ev] \<and> failure_of t ev)"

definition success_log :: "httpsDialerTactic \<Rightarrow> stats_event list \<Rightarrow> bool" where
  "success_log t evs \<longleftrightarrow> evs = [EvStarting t, EvSuccess t]"

fun worker_log :: "httpsDialerTactic list \<Rightarrow> (nat \<Rightarrow> stats_event list) \<Rightarrow> 'cert worker \<Rightarrow> bool" where
  "worker_log ts L (WWait n t _) \<longleftrightarrow> t = ts ! n \<and> L n = []"
| "worker_log ts L (WReady n t) \<longleftrightarrow> t = ts ! n \<and> L n = []"
| "worker_log ts L (WConnect n t) \<longleftrightarrow> t = ts ! n \<and> L n = [EvStarting t]"
| "worker_log ts L (WHandshake n t) \<longleftrightarrow> t = ts ! n \<and> L n = [EvStarting t]"
| "worker_log ts L (WVerify n t _) \<longleftrightarrow> t = ts ! n \<and> L n = [EvStarting t]"
| "worker_log ts L (WSendErr n _) \<longleftrightarrow> failed_log (ts ! n) (L n)"
| "worker_log ts L (WSendConn c) \<longleftrightarrow> tc_tactic c = ts ! tc_id c \<and> success_log (tc_tactic c) (L (tc_id c))"
| "worker_log ts L _ \<longleftrightarrow> True"

definition log_inv :: "httpsDialerTactic list \<Rightarrow> 'cert dial_state \<Rightarrow> bool" where
  "log_inv ts s \<longleftrightarrow> (\<forall>w \<in> set (d_workers s). worker_log ts (dial_log s) w) \<and>
     (\<forall>c \<in> set (d_connv s). tc_tactic c = ts ! tc_id c \<and> success_log (tc_tactic c) (dial_log s (tc_id c))) \<and>
     (\<forall>n < d_next s. n \<notin> set (active s) \<longrightarrow> n \<notin> tc_id ` set (d_connv s) \<longrightarrow> failed_log (ts ! n) (dial_log s n)) \<and>
     (\<forall>n \<ge> d_next s. dial_log s n = [])"

lemma worker_log_other: "n \<notin> set (worker_ids w) \<Longrightarrow> worker_log ts (L(n := l)) w = worker_log ts L w"
  by (cases w) auto

lemma dial_log_append: "d_log s' = d_log s @ [(n, t, ev)] \<Longrightarrow> dial_log s' = (dial_log s)(n := dial_log s n @ [ev])"
  by (auto simp: dial_log_def)

lemma dial_log_same: "d_log s' = d_log s \<Longrightarrow> dial_log s' = dial_log s"
  by (auto simp: dial_log_def)

text \<open>A step of a worker that keeps its attempt, with or without a call of the handler.\<close>

lemma log_inv_quiet:
  assumes "log_inv ts s" and "d_workers s = us @ w # vs" and "d_workers s' = us @ w' # vs"
    and "worker_ids w' = worker_ids w" and "worker_log ts (dial_log s) w'"
    and "d_log s' = d_log s" and "d_connv s' = d_connv s" and "d_next s' = d_next s"
  shows "log_inv ts s'"
proof -
  have "dial_log s' = dial_log s" by (rule dial_log_same [OF assms(6)])
  moreover have "active s' = active s" using assms(2-4) by (simp add: active_def)
  ultimately show ?thesis using assms(1-3,5,7,8) by (auto simp: log_inv_def)
qed

lemma log_inv_notify:
  assumes "log_inv ts s" and "ids_inv s" and "d_workers s = us @ w # vs" and "d_workers s' = us @ w' # vs"
    and "worker_ids w = [n]" and "worker_ids w' = [n]"
    and "worker_log ts ((dial_log s)(n := dial_log s n @ [ev])) w'"
    and "d_log s' = d_log s @ [(n, t, ev)]" and "d_connv s' = d_connv s" and "d_next s' = d_next s"
  shows "log_inv ts s'"
proof -
  have other: "\<forall>w \<in> set us \<union> set vs. n \<notin> set (worker_ids w)" and conn: "n \<notin> tc_id ` set (d_connv s)" and less: "n < d_next s"
    using assms(2,3,5) by (auto simp: ids_inv_def active_def)
  have "\<forall>w \<in> set us \<union> set vs. worker_log ts (dial_log s) w" using assms(1,3) by (simp add: log_inv_def)
  then have "\<forall>w \<in> set us \<union> set vs. worker_log ts (dial_log s') w"
    using other by (simp add: dial_log_append [OF assms(8)] worker_log_other)
  moreover have "\<forall>c \<in> set (d_connv s). dial_log s' (tc_id c) = dial_log s (tc_id c)"
    using conn by (auto simp: dial_log_append [OF assms(8)])
  moreover have "set (active s') = set (active s)" "n \<in> set (active s)"
    using assms(3-6) by (auto simp: active_def)
  ultimately show ?thesis
    using assms(1,3,4,7,9,10) less by (auto simp: log_inv_def dial_log_append [OF assms(8)])
qed

lemma log_inv_act:
  assumes "dial_act verify s s'" and "counts_inv ts s" and "ids_inv s" and "log_inv ts s"
  shows "log_inv ts s'"
  using assms(1)
proof cases
  case (take us vs tac rest t0 w)
  have "drop (d_next s) ts = tac # rest" using take assms(2) by (simp add: counts_inv_def)
  then have "tac = ts ! d_next s" by (metis nth_via_drop)
  moreover have "dial_log s (d_next s) = []" using assms(4) by (simp add: log_inv_def)
  moreover have "dial_log s' = dial_log s" using take by (intro dial_log_same) simp
  ultimately show ?thesis
    using assms(4) take by (auto simp: log_inv_def active_def less_Suc_eq wait_ready)
next
  case (timer us n tac deadline vs)
  with assms(4) show ?thesis by (intro log_inv_quiet [OF assms(4) timer(2)]) (auto simp: log_inv_def)
next
  case (interrupted us n tac deadline vs err)
  with assms(4) show ?thesis by (intro log_inv_quiet [OF assms(4) interrupted(2)]) (auto simp: log_inv_def failed_log_def)
next
  case (start us n tac vs s1)
  with assms(4) show ?thesis by (intro log_inv_notify [OF assms(4,3) start(2)]) (auto simp: log_inv_def)
next
  case (tcp_fail us n tac vs err s1)
  with assms(4) show ?thesis by (intro log_inv_notify [OF assms(4,3) tcp_fail(2)]) (auto simp: log_inv_def failed_log_def)
next
  case (tcp_ok us n tac vs)
  with assms(4) show ?thesis by (intro log_inv_quiet [OF assms(4) tcp_ok(2)]) (auto simp: log_inv_def)
next
  case (tls_fail us n tac vs err s1)
  with assms(4) show ?thesis by (intro log_inv_notify [OF assms(4,3) tls_fail(2)]) (auto simp: log_inv_def failed_log_def)
next
  case (tls_ok us n tac vs certs)
  with assms(4) show ?thesis by (intro log_inv_quiet [OF assms(4) tls_ok(2)]) (auto simp: log_inv_def)
next
  case (verify_fail us n tac certs vs err s1)
  with assms(4) show ?thesis by (intro log_inv_notify [OF assms(4,3) verify_fail(2)]) (auto simp: log_inv_def failed_log_def)
next
  case (verify_ok us n tac certs vs s1)
  with assms(4) show ?thesis by (intro log_inv_notify [OF assms(4,3) verify_ok(2)]) (auto simp: log_inv_def success_log_def)
next
  case (collect_err us n err vs)
  have "dial_log s' = dial_log s" using collect_err by (intro dial_log_same) simp
  with assms(4) collect_err show ?thesis by (auto simp: log_inv_def active_def)
next
  case (collect_conn us conn vs)
  have "dial_log s' = dial_log s" using collect_conn by (intro dial_log_same) simp
  with assms(4) collect_conn show ?thesis by (auto simp: log_inv_def active_def)
next
  case (join us vs)
  have "dial_log s' = dial_log s" using join by (intro dial_log_same) simp
  with assms(4) join show ?thesis by (auto simp: log_inv_def active_def)
next
  case cancel
  have "dial_log s' = dial_log s" using cancel by (intro dial_log_same) simp
  with assms(4) cancel show ?thesis by (auto simp: log_inv_def active_def)
qed

text \<open>The connections were verified for the name that their tactic says.\<close>

definition conn_verified :: "('cert \<Rightarrow> string \<Rightarrow> 'cert list \<Rightarrow> string option) \<Rightarrow> 'cert tls_conn \<Rightarrow> bool" where
  "conn_verified verify c \<longleftrightarrow> httpsDialerVerifyCertificateChain verify (VerifyHostname (tc_tactic c)) (tc_certs c) = None"

definition conns_inv :: "('cert \<Rightarrow> string \<Rightarrow> 'cert list \<Rightarrow> string option) \<Rightarrow> 'cert dial_state \<Rightarrow> bool" where
  "conns_inv verify s \<longleftrightarrow> stats_wf (d_stats s) \<and> (\<forall>c \<in> set (d_connv s). conn_verified verify c) \<and>
     (\<forall>c. WSendConn c \<in> set (d_workers s) \<longrightarrow> conn_verified verify c)"

lemma notify_wf: "stats_wf c \<Longrightarrow> stats_apply now ev c = Some c' \<Longrightarrow> stats_wf c'"
  using stats_apply_wf [of c now ev] by auto

lemma conns_inv_act:
  assumes "dial_act verify s s'" and "conns_inv verify s"
  shows "conns_inv verify s'"
  using assms by cases (auto simp: conns_inv_def conn_verified_def simp del: stats_apply.simps dest: notify_wf)

text \<open>No attempt starts before its delay from the zero time has passed.\<close>

fun worker_time :: "int \<Rightarrow> int \<Rightarrow> 'cert worker \<Rightarrow> bool" where
  "worker_time t0 now (WWait _ t deadline) \<longleftrightarrow> deadline = t0 + InitialDelay t"
| "worker_time t0 now (WReady _ t) \<longleftrightarrow> t0 + InitialDelay t \<le> now"
| "worker_time t0 now _ \<longleftrightarrow> True"

definition time_inv :: "'cert dial_state \<Rightarrow> bool" where
  "time_inv s \<longleftrightarrow> time_zero < d_now s \<and> (d_next s > 0 \<longrightarrow> time_zero < d_t0 s) \<and>
     (d_next s = 0 \<longrightarrow> d_t0 s = time_zero \<and> d_log s = [] \<and> active s = []) \<and>
     (\<forall>w \<in> set (d_workers s). worker_time (d_t0 s) (d_now s) w) \<and>
     (\<forall>n t tac. (n, t, EvStarting tac) \<in> set (d_log s) \<longrightarrow> d_t0 s + InitialDelay tac \<le> t)"

lemma worker_time_idle: "worker_ids w = [] \<Longrightarrow> worker_time t0 now w"
  by (cases w) auto

lemma time_inv_act:
  assumes "dial_act verify s s'" and "time_inv s" and "ids_inv s"
  shows "time_inv s'"
  using assms(1)
proof cases
  case (take us vs tac rest t0 w)
  show ?thesis
  proof (cases "d_next s = 0")
    case True
    then have "d_log s = []" "d_t0 s = time_zero" "\<forall>w \<in> set us \<union> set vs. worker_ids w = []"
      using assms(2) take(2) by (auto simp: time_inv_def active_def)
    then show ?thesis using assms(2) take by (auto simp: time_inv_def zeroTime_Get_def worker_time_idle wait_ready)
  next
    case False
    then have "t0 = d_t0 s" using assms(2) take by (auto simp: time_inv_def zeroTime_Get_def)
    then show ?thesis using assms(2) take False by (auto simp: time_inv_def wait_ready)
  qed
next
  case (start us n tac vs s1)
  then have "0 < d_next s" using assms(3) by (auto simp: ids_inv_def active_def)
  with start assms(2) show ?thesis by (auto simp: time_inv_def)
next
  case (tcp_fail us n tac vs err s1)
  then have "0 < d_next s" using assms(3) by (auto simp: ids_inv_def active_def)
  with tcp_fail assms(2) show ?thesis by (auto simp: time_inv_def)
next
  case (tls_fail us n tac vs err s1)
  then have "0 < d_next s" using assms(3) by (auto simp: ids_inv_def active_def)
  with tls_fail assms(2) show ?thesis by (auto simp: time_inv_def)
next
  case (verify_fail us n tac certs vs err s1)
  then have "0 < d_next s" using assms(3) by (auto simp: ids_inv_def active_def)
  with verify_fail assms(2) show ?thesis by (auto simp: time_inv_def)
next
  case (verify_ok us n tac certs vs s1)
  then have "0 < d_next s" using assms(3) by (auto simp: ids_inv_def active_def)
  with verify_ok assms(2) show ?thesis by (auto simp: time_inv_def)
qed (use assms(2) in \<open>auto simp: time_inv_def active_def\<close>)

lemma worker_time_mono: "worker_time t0 now w \<Longrightarrow> now \<le> now' \<Longrightarrow> worker_time t0 now' w"
  by (cases w) auto

section \<open>Reachable states\<close>

definition dial_inv ::
  "('cert \<Rightarrow> string \<Rightarrow> 'cert list \<Rightarrow> string option) \<Rightarrow> httpsDialerTactic list \<Rightarrow> 'cert dial_state \<Rightarrow> bool" where
  "dial_inv verify ts s \<longleftrightarrow> counts_inv ts s \<and> ids_inv s \<and> open_inv s \<and> conns_inv verify s \<and> log_inv ts s \<and> time_inv s"

lemma dial_inv_tick:
  assumes "dial_inv verify ts s" and "d_now s \<le> now"
  shows "dial_inv verify ts (s\<lparr>d_now := now\<rparr>)"
proof -
  have "time_inv (s\<lparr>d_now := now\<rparr>)"
    using assms worker_time_mono [OF _ assms(2)] by (auto simp: dial_inv_def time_inv_def active_def)
  moreover have "counts_inv ts (s\<lparr>d_now := now\<rparr>) = counts_inv ts s" by (simp add: counts_inv_def active_def)
  moreover have "ids_inv (s\<lparr>d_now := now\<rparr>) = ids_inv s" by (simp add: ids_inv_def active_def)
  moreover have "open_inv (s\<lparr>d_now := now\<rparr>) = open_inv s" by (simp add: open_inv_def)
  moreover have "conns_inv verify (s\<lparr>d_now := now\<rparr>) = conns_inv verify s" by (simp add: conns_inv_def)
  moreover have "log_inv ts (s\<lparr>d_now := now\<rparr>) = log_inv ts s"
    by (simp add: log_inv_def active_def dial_log_same [of "s\<lparr>d_now := now\<rparr>" s])
  ultimately show ?thesis using assms(1) by (simp add: dial_inv_def)
qed

lemma dial_inv_step:
  assumes "dial_step verify s s'" and "dial_inv verify ts s"
  shows "dial_inv verify ts s'"
proof -
  from assms(1) obtain now where now: "d_now s \<le> now" and act: "dial_act verify (s\<lparr>d_now := now\<rparr>) s'"
    by (rule dial_stepE)
  have "dial_inv verify ts (s\<lparr>d_now := now\<rparr>)" by (rule dial_inv_tick [OF assms(2) now])
  then show ?thesis
    using counts_inv_act [OF act] ids_inv_act [OF act] open_inv_act [OF act] conns_inv_act [OF act]
      log_inv_act [OF act] time_inv_act [OF act]
    unfolding dial_inv_def by blast
qed

lemma dial_inv_init:
  assumes "stats_wf stats" and "time_zero < now"
  shows "dial_inv verify ts (dial_init ts now cancelled stats)"
  using assms
  by (auto simp: dial_inv_def counts_inv_def ids_inv_def open_inv_def conns_inv_def log_inv_def time_inv_def active_def
      dial_init_def dial_log_def)

lemma dial_inv_run:
  assumes "dial_run verify (dial_init ts now cancelled stats) k s" and "stats_wf stats" and "time_zero < now"
  shows "dial_inv verify ts s"
  using assms(1) by induction (use assms(2,3) dial_inv_init dial_inv_step in blast)+

section \<open>Termination\<close>

text \<open>What is left to do: each step of a worker brings it closer to the end of its attempt.\<close>

fun worker_weight :: "'cert worker \<Rightarrow> nat" where
  "worker_weight (WWait _ _ _) = 7"
| "worker_weight (WReady _ _) = 6"
| "worker_weight (WConnect _ _) = 5"
| "worker_weight (WHandshake _ _) = 4"
| "worker_weight (WVerify _ _ _) = 3"
| "worker_weight (WSendErr _ _) = 2"
| "worker_weight (WSendConn _) = 2"
| "worker_weight WIdle = 1"
| "worker_weight WDone = 0"

definition dial_measure :: "'cert dial_state \<Rightarrow> nat" where
  "dial_measure s = 7 * length (d_emitter s) + sum_list (map worker_weight (d_workers s)) + (if d_cancelled s then 0 else 1)"

lemma dial_step_decreases: "dial_step verify s s' \<Longrightarrow> dial_measure s' < dial_measure s"
proof (erule dial_stepE)
  fix now
  assume "dial_act verify (s\<lparr>d_now := now\<rparr>) s'"
  then show "dial_measure s' < dial_measure s"
    by cases (auto simp: dial_measure_def wait_ready simp del: stats_apply.simps)
qed

lemma dial_run_bound: "dial_run verify s0 k s \<Longrightarrow> k + dial_measure s \<le> dial_measure s0"
  by (induction rule: dial_run.induct) (auto dest!: dial_step_decreases)

lemma dial_act_step: "dial_act verify (s\<lparr>d_now := max (d_now s) now\<rparr>) s' \<Longrightarrow> dial_step verify s s'"
  by (rule dial_step.intros [of s "max (d_now s) now"]) simp_all

lemma notify_total: "stats_wf (d_stats s) \<Longrightarrow> \<exists>s1. notify n ev s = Some s1"
  using stats_apply_wf [of "d_stats s" "d_now s" ev] by auto

lemma joined_less:
  assumes inv: "dial_inv verify ts s" and w: "w \<in> set (d_workers s)" "w \<noteq> WDone"
  shows "d_joined s < parallelism"
proof -
  from split_list [OF w(1)] obtain us vs where ws: "d_workers s = us @ w # vs" by blast
  have "d_joined s = length (filter (\<lambda>w. w = WDone) us) + length (filter (\<lambda>w. w = WDone) vs)"
      "length us + length vs + 1 = parallelism"
    using inv w(2) by (auto simp: dial_inv_def counts_inv_def ws)
  then show ?thesis
    using length_filter_le [of "\<lambda>w. w = WDone" us] length_filter_le [of "\<lambda>w. w = WDone" vs] by linarith
qed

text \<open>A worker that has not joined can take a step: the network answers, the timer fires, or the collector reads.\<close>

lemma worker_can_step:
  assumes inv: "dial_inv verify ts s" and w: "w \<in> set (d_workers s)" "w \<noteq> WDone"
  shows "\<exists>s'. dial_step verify s s'"
proof -
  from split_list [OF w(1)] obtain us vs where ws: "d_workers s = us @ w # vs" by blast
  have joined: "d_joined s < parallelism" by (rule joined_less [OF inv w])
  have wf: "stats_wf (d_stats s)" using inv by (simp add: dial_inv_def conns_inv_def)
  let ?s = "\<lambda>now. s\<lparr>d_now := max (d_now s) now\<rparr>"
  have wf': "stats_wf (d_stats (?s now))" for now using wf by simp
  show ?thesis
  proof (cases w)
    case WIdle
    show ?thesis
    proof (cases "d_emitter s")
      case Nil
      show ?thesis by (rule exI, rule dial_act_step, rule dial_act.join) (use ws WIdle Nil joined in auto)
    next
      case (Cons tac rest)
      show ?thesis by (rule exI, rule dial_act_step, rule dial_act.take) (use ws WIdle Cons in auto)
    qed
  next
    case (WWait n tac deadline)
    show ?thesis by (rule exI, rule dial_act_step [where now = deadline], rule dial_act.timer) (use ws WWait in auto)
  next
    case (WReady n tac)
    obtain s1 where "notify n (EvStarting tac) (?s 0) = Some s1" using notify_total [OF wf'] by blast
    then have "dial_act verify (?s 0) (s1\<lparr>d_workers := us @ WConnect n tac # vs\<rparr>)"
      using ws WReady by (intro dial_act.start) simp_all
    then show ?thesis using dial_act_step by blast
  next
    case (WConnect n tac)
    show ?thesis by (rule exI, rule dial_act_step, rule dial_act.tcp_ok) (use ws WConnect in auto)
  next
    case (WHandshake n tac)
    show ?thesis by (rule exI, rule dial_act_step, rule dial_act.tls_ok) (use ws WHandshake in auto)
  next
    case (WVerify n tac certs)
    show ?thesis
    proof (cases "httpsDialerVerifyCertificateChain verify (VerifyHostname tac) certs")
      case None
      obtain s1 where "notify n (EvSuccess tac) (?s 0) = Some s1" using notify_total [OF wf'] by blast
      then have "dial_act verify (?s 0)
          (s1\<lparr>d_workers := us @ WSendConn \<lparr>tc_id = n, tc_tactic = tac, tc_certs = certs\<rparr> # vs\<rparr>)"
        using ws WVerify None by (intro dial_act.verify_ok) simp_all
      then show ?thesis using dial_act_step by blast
    next
      case (Some err)
      obtain s1 where "notify n (EvTLSVerifyError tac err) (?s 0) = Some s1" using notify_total [OF wf'] by blast
      then have "dial_act verify (?s 0) (s1\<lparr>d_workers := us @ WSendErr n err # vs, d_open := d_open (?s 0) - {n}\<rparr>)"
        using ws WVerify Some by (intro dial_act.verify_fail) simp_all
      then show ?thesis using dial_act_step by blast
    qed
  next
    case (WSendErr n err)
    show ?thesis by (rule exI, rule dial_act_step, rule dial_act.collect_err) (use ws WSendErr joined in auto)
  next
    case (WSendConn conn)
    show ?thesis by (rule exI, rule dial_act_step, rule dial_act.collect_conn) (use ws WSendConn joined in auto)
  next
    case WDone
    with w(2) show ?thesis by simp
  qed
qed

lemma dial_progress:
  assumes "dial_inv verify ts s" and "\<not> dial_final s"
  shows "\<exists>s'. dial_step verify s s'"
proof (rule ccontr)
  assume "\<nexists>s'. dial_step verify s s'"
  then have "\<forall>w \<in> set (d_workers s). w = WDone" using worker_can_step [OF assms(1)] by blast
  then have "filter (\<lambda>w. w = WDone) (d_workers s) = d_workers s" by (rule filter_True)
  moreover have "length (d_workers s) = parallelism" "d_joined s = length (filter (\<lambda>w. w = WDone) (d_workers s))"
    using assms(1) unfolding dial_inv_def counts_inv_def by blast+
  ultimately show False using assms(2) by (simp add: dial_final_def)
qed

lemma dial_final_workers:
  assumes "dial_inv verify ts s" and "dial_final s"
  shows "(\<forall>w \<in> set (d_workers s). w = WDone) \<and> active s = [] \<and> d_emitter s = [] \<and> d_next s = length ts"
proof -
  have "length (filter (\<lambda>w. w = WDone) (d_workers s)) = length (d_workers s)"
    using assms by (simp add: dial_inv_def counts_inv_def dial_final_def)
  then have all: "\<forall>w \<in> set (d_workers s). w = WDone"
    using length_filter_less [where P = "\<lambda>w. w = WDone" and xs = "d_workers s"] by fastforce
  moreover have "active s = []" using all by (auto simp: active_def)
  moreover have "d_emitter s = []" "d_next s = length ts"
    using assms by (auto simp: dial_inv_def counts_inv_def dial_final_def parallelism_def)
  ultimately show ?thesis by blast
qed

lemma dial_step_connv: "dial_step verify s s' \<Longrightarrow> set (d_connv s) \<subseteq> set (d_connv s')"
  by (erule dial_stepE, erule dial_act.cases) auto

lemma dial_reaches_final:
  assumes "dial_run verify s0 k s" and "dial_inv verify ts s"
  shows "\<exists>k' s'. dial_run verify s0 k' s' \<and> dial_final s' \<and> set (d_connv s) \<subseteq> set (d_connv s')"
  using assms
proof (induction "dial_measure s" arbitrary: k s rule: less_induct)
  case less
  show ?case
  proof (cases "dial_final s")
    case True
    with less.prems(1) show ?thesis by blast
  next
    case False
    then obtain s1 where s1: "dial_step verify s s1" using dial_progress [OF less.prems(2)] by blast
    from less.hyps [OF dial_step_decreases [OF s1] dial_run.step [OF less.prems(1) s1] dial_inv_step [OF s1 less.prems(2)]]
    show ?thesis using dial_step_connv [OF s1] by blast
  qed
qed

section \<open>Theorems\<close>

definition sample_tactics :: "httpsDialerTactic list" where
  "sample_tactics = httpsDialerFilterTactics [Some api_tactic]"

lemma time_zero_neg: "time_zero < 0"
  by (simp add: time_zero_def)

lemma sample_run:
  "\<exists>k (s :: nat dial_state). dial_run (\<lambda>_ _ _. None) (dial_init sample_tactics 0 False sample_stats) k s \<and> dial_final s"
  using dial_reaches_final [OF dial_run.refl dial_inv_init [OF sample_stats_wf time_zero_neg]] by blast

text \<open>
  C2: The dialer returns. However the workers, the network, the clock and the caller's cancellation
  interleave, a dial with \<open>n\<close> tactics takes at most \<open>7 * n + 17\<close> steps, and it is never stuck before all
  sixteen workers have joined; no call of the statistics panics on the way.
\<close>

theorem dialer_terminates:
  assumes "stats_wf stats" and "time_zero < now"
    and "dial_run verify (dial_init ts now cancelled stats) k s"
  shows "k \<le> 7 * length ts + 17 \<and> (dial_final s \<or> (\<exists>s'. dial_step verify s s'))"
proof -
  have "dial_measure (dial_init ts now cancelled stats :: 'a dial_state) \<le> 7 * length ts + 17"
    by (simp add: dial_measure_def dial_init_def parallelism_def sum_list_replicate)
  with dial_run_bound [OF assms(3)] have "k \<le> 7 * length ts + 17" by linarith
  then show ?thesis using dial_progress [OF dial_inv_run [OF assms(3,1,2)]] by blast
qed

theorem dialer_terminates_witness:
  "\<not> dial_final (dial_init sample_tactics 0 False sample_stats :: nat dial_state) \<and>
   (\<exists>s'. dial_step (\<lambda>_ _ _. None) (dial_init sample_tactics 0 False sample_stats :: nat dial_state) s')"
  using dialer_terminates [where verify = "\<lambda>_ _ _. None", OF sample_stats_wf time_zero_neg dial_run.refl]
  by (auto simp: dial_final_def dial_init_def parallelism_def)

text \<open>
  C3: No connection leaks. When the workers have joined, every connection that was opened is closed,
  by the failing attempt or by the reduction of the results, except the one that is returned.
\<close>

theorem dialer_closes_connections:
  assumes "stats_wf stats" and "time_zero < now"
    and "dial_run verify (dial_init ts now cancelled stats) k s" and "dial_final s"
    and "httpsDialerReduceResult (d_connv s) (d_errorv s) = (dropped, result)"
  shows "d_open s - tc_id ` set dropped = (case result of DialConn c \<Rightarrow> {tc_id c} | _ \<Rightarrow> {})"
proof -
  have inv: "dial_inv verify ts s" by (rule dial_inv_run [OF assms(3,1,2)])
  have "\<forall>w \<in> set (d_workers s). conn_ids w = []" using dial_final_workers [OF inv assms(4)] by auto
  then have open_ids: "d_open s = tc_id ` set (d_connv s)" using inv by (auto simp: dial_inv_def open_inv_def)
  have "distinct (map tc_id (d_connv s))" using inv by (simp add: dial_inv_def ids_inv_def)
  then show ?thesis
    using assms(5) open_ids by (cases "d_connv s") (auto simp: httpsDialerReduceResult_def split: if_splits, metis image_eqI)
qed

theorem dialer_closes_connections_witness:
  "\<exists>k s. dial_run (\<lambda>_ _ _. None) (dial_init sample_tactics 0 False sample_stats :: nat dial_state) k s \<and> dial_final s \<and>
     d_open s - tc_id ` set (fst (httpsDialerReduceResult (d_connv s) (d_errorv s))) =
       (case snd (httpsDialerReduceResult (d_connv s) (d_errorv s)) of DialConn c \<Rightarrow> {tc_id c} | _ \<Rightarrow> {})"
proof -
  obtain k and s :: "nat dial_state" where
    run: "dial_run (\<lambda>_ _ _. None) (dial_init sample_tactics 0 False sample_stats) k s" "dial_final s"
    using sample_run by blast
  from dialer_closes_connections [OF sample_stats_wf time_zero_neg run surjective_pairing] run show ?thesis by blast
qed

lemma dialer_outcome_full:
  assumes "stats_wf stats" and "time_zero < now"
    and "dial_run verify (dial_init ts now cancelled stats) k s" and "dial_final s"
  shows "length (d_connv s) + length (d_errorv s) = length ts \<and>
    (case snd (httpsDialerReduceResult (d_connv s) (d_errorv s)) of
       DialConn c \<Rightarrow> tc_id c < length ts \<and> tc_tactic c = ts ! tc_id c \<and> VerifyHostname (tc_tactic c) \<noteq> '''' \<and>
         (\<exists>leaf intermediates. tc_certs c = leaf # intermediates \<and>
            verify leaf (VerifyHostname (tc_tactic c)) intermediates = None)
     | DialErrors errs \<Rightarrow> errs = d_errorv s \<and> length errs = length ts \<and> ts \<noteq> []
     | DialNoAnswer \<Rightarrow> ts = [])"
proof -
  have inv: "dial_inv verify ts s" by (rule dial_inv_run [OF assms(3,1,2)])
  have count: "length (d_connv s) + length (d_errorv s) = length ts"
    using inv dial_final_workers [OF inv assms(4)] by (simp add: dial_inv_def counts_inv_def)
  have conn: "tc_id c < length ts \<and> tc_tactic c = ts ! tc_id c \<and> VerifyHostname (tc_tactic c) \<noteq> '''' \<and>
      (\<exists>leaf intermediates. tc_certs c = leaf # intermediates \<and> verify leaf (VerifyHostname (tc_tactic c)) intermediates = None)"
    if "c \<in> set (d_connv s)" for c
  proof -
    have "tc_id c < length ts" "tc_tactic c = ts ! tc_id c"
      using inv that dial_final_workers [OF inv assms(4)] by (auto simp: dial_inv_def ids_inv_def log_inv_def)
    moreover have "conn_verified verify c" using inv that by (simp add: dial_inv_def conns_inv_def)
    ultimately show ?thesis
      by (auto simp: conn_verified_def httpsDialerVerifyCertificateChain_def split: if_splits list.splits)
  qed
  show ?thesis
  proof (cases "d_connv s")
    case Nil
    with count show ?thesis by (cases ts) (auto simp: httpsDialerReduceResult_def)
  next
    case (Cons c cs)
    with count conn [of c] show ?thesis by (auto simp: httpsDialerReduceResult_def)
  qed
qed

lemma dialer_outcome:
  assumes "stats_wf stats" and "time_zero < now"
    and "dial_run verify (dial_init ts now cancelled stats) k s" and "dial_final s"
    and "snd (httpsDialerReduceResult (d_connv s) (d_errorv s)) = DialConn c"
  shows "tc_tactic c \<in> set ts \<and> (\<exists>leaf intermediates. tc_certs c = leaf # intermediates \<and>
    verify leaf (VerifyHostname (tc_tactic c)) intermediates = None)"
  using dialer_outcome_full [OF assms(1-4)] assms(5) by auto

text \<open>
  C4: Every tactic is tried to its end and the result says what happened: there is one connection or
  one error for each tactic; a connection is returned when some attempt succeeded, and it was made
  with one of the tactics and its certificate chain verified for the tactic's name, which is not
  empty; the error is "no answer" exactly when there was no tactic.
\<close>

theorem dialer_result:
  assumes "stats_wf stats" and "time_zero < now"
    and "dial_run verify (dial_init ts now cancelled stats) k s" and "dial_final s"
  shows "length (d_connv s) + length (d_errorv s) = length ts \<and>
    (case snd (httpsDialerReduceResult (d_connv s) (d_errorv s)) of
       DialConn c \<Rightarrow> tc_id c < length ts \<and> tc_tactic c = ts ! tc_id c \<and> VerifyHostname (tc_tactic c) \<noteq> '''' \<and>
         (\<exists>leaf intermediates. tc_certs c = leaf # intermediates \<and>
            verify leaf (VerifyHostname (tc_tactic c)) intermediates = None)
     | DialErrors errs \<Rightarrow> errs = d_errorv s \<and> length errs = length ts \<and> ts \<noteq> []
     | DialNoAnswer \<Rightarrow> ts = [])"
  using assms by (rule dialer_outcome_full)

theorem dialer_result_witness:
  "\<exists>k s. dial_run (\<lambda>_ _ _. None) (dial_init sample_tactics 0 False sample_stats :: nat dial_state) k s \<and> dial_final s \<and>
     length (d_connv s) + length (d_errorv s) = length sample_tactics"
proof -
  obtain k and s :: "nat dial_state" where
    run: "dial_run (\<lambda>_ _ _. None) (dial_init sample_tactics 0 False sample_stats) k s" "dial_final s"
    using sample_run by blast
  from dialer_result [OF sample_stats_wf time_zero_neg run] run show ?thesis by blast
qed

text \<open>
  C5: The events handler sees each attempt once. When the workers have joined, the calls for the
  \<open>n\<close>-th tactic are none (the wait was interrupted), or \<open>OnStarting\<close> and one error, or \<open>OnStarting\<close> and
  \<open>OnSuccess\<close>, all with that tactic; \<open>OnSuccess\<close> is there exactly when the attempt gave a connection.
\<close>

theorem dialer_reports_once:
  assumes "stats_wf stats" and "time_zero < now"
    and "dial_run verify (dial_init ts now cancelled stats) k s" and "dial_final s" and "n < length ts"
  shows "if n \<in> tc_id ` set (d_connv s) then dial_log s n = [EvStarting (ts ! n), EvSuccess (ts ! n)]
    else dial_log s n = [] \<or> (\<exists>ev. dial_log s n = [EvStarting (ts ! n), ev] \<and> failure_of (ts ! n) ev)"
proof -
  have inv: "dial_inv verify ts s" by (rule dial_inv_run [OF assms(3,1,2)])
  have fin: "active s = []" "d_next s = length ts" using dial_final_workers [OF inv assms(4)] by auto
  have log: "log_inv ts s" using inv by (simp add: dial_inv_def)
  show ?thesis
  proof (cases "n \<in> tc_id ` set (d_connv s)")
    case True
    with log show ?thesis by (auto simp: log_inv_def success_log_def)
  next
    case False
    with log fin assms(5) have "failed_log (ts ! n) (dial_log s n)" unfolding log_inv_def by auto
    with False show ?thesis by (simp add: failed_log_def)
  qed
qed

theorem dialer_reports_once_witness:
  "\<exists>k s. dial_run (\<lambda>_ _ _. None) (dial_init [api_tactic] 0 False sample_stats :: nat dial_state) k s \<and> dial_final s \<and>
     (dial_log s 0 = [EvStarting api_tactic, EvSuccess api_tactic] \<or> dial_log s 0 = [] \<or>
      (\<exists>ev. dial_log s 0 = [EvStarting api_tactic, ev] \<and> failure_of api_tactic ev))"
proof -
  obtain k and s :: "nat dial_state" where
    run: "dial_run (\<lambda>_ _ _. None) (dial_init [api_tactic] 0 False sample_stats) k s" "dial_final s"
    using dial_reaches_final [OF dial_run.refl dial_inv_init [OF sample_stats_wf time_zero_neg]] by blast
  have "(0::nat) < length [api_tactic]" by simp
  from dialer_reports_once [OF sample_stats_wf time_zero_neg run this] run show ?thesis by (auto split: if_splits)
qed

lemma failure_not_starting: "failure_of t ev \<Longrightarrow> ev \<noteq> EvStarting t'"
  by (cases ev) auto

lemma worker_log_starting:
  "worker_log ts L w \<Longrightarrow> n \<in> set (worker_ids w) \<Longrightarrow> EvStarting t \<in> set (L n) \<Longrightarrow> t = ts ! n"
  by (cases w) (auto simp: failed_log_def success_log_def failure_not_starting)

lemma log_inv_starting:
  assumes "log_inv ts s" and "EvStarting t \<in> set (dial_log s n)"
  shows "t = ts ! n"
proof (cases "n \<in> set (active s)")
  case True
  then obtain w where "w \<in> set (d_workers s)" "n \<in> set (worker_ids w)" by (auto simp: active_def)
  with assms show ?thesis using worker_log_starting [of ts "dial_log s" w n t] unfolding log_inv_def by blast
next
  case False
  have "n < d_next s" using assms unfolding log_inv_def by (metis empty_iff empty_set linorder_not_less)
  show ?thesis
  proof (cases "n \<in> tc_id ` set (d_connv s)")
    case True
    with assms show ?thesis by (auto simp: log_inv_def success_log_def)
  next
    case notin: False
    with False \<open>n < d_next s\<close> assms(1) have "failed_log (ts ! n) (dial_log s n)" unfolding log_inv_def by blast
    with assms(2) show ?thesis by (auto simp: failed_log_def failure_not_starting)
  qed
qed

text \<open>
  Happy eyeballs: in every run of the dialer on the filtered tactics of a policy, the \<open>n\<close>-th
  attempt starts (\<open>OnStarting\<close>) no earlier than \<open>happyEyeballsDelay(n)\<close> after the zero time.
\<close>

theorem dialer_honours_delays:
  assumes "stats_wf stats" and "time_zero < now" and "ts = httpsDialerFilterTactics txs" and "int (length ts) \<le> max_delay_index"
    and "dial_run verify (dial_init ts now cancelled stats) k s"
    and "(n, t, EvStarting tac) \<in> set (d_log s)"
  shows "tac = ts ! n \<and> d_t0 s + happyEyeballsDelay (int n) \<le> t"
proof -
  have inv: "dial_inv verify ts s" by (rule dial_inv_run [OF assms(5,1,2)])
  then have time: "d_t0 s + InitialDelay tac \<le> t" using assms(6) by (simp add: dial_inv_def time_inv_def)
  have start: "EvStarting tac \<in> set (dial_log s n)"
    using assms(6) by (force simp: dial_log_def)
  have tac: "tac = ts ! n" using inv start log_inv_starting by (auto simp: dial_inv_def)
  have "n < length ts"
  proof -
    have "\<forall>m \<ge> d_next s. dial_log s m = []" "d_next s \<le> length ts"
      using inv unfolding dial_inv_def log_inv_def counts_inv_def by blast+
    with start show ?thesis by (metis empty_iff empty_set le_trans linorder_not_less)
  qed
  then have "InitialDelay (ts ! n) = happyEyeballsDelay (int n)"
    using assms(3,4) unfolding httpsDialerFilterTactics_def filterAssignInitialDelays_def
    by (simp add: assign_delays_nth)
  with tac time show ?thesis by simp
qed

lemma sample_starts:
  "\<exists>st. dial_run (\<lambda>_ _ _. None) (dial_init sample_tactics 0 False sample_stats :: nat dial_state) 2
     \<lparr>d_emitter = [], d_workers = WConnect 0 api_tactic # replicate 15 WIdle, d_t0 = 0, d_now = 0, d_cancelled = False,
      d_next = 1, d_stats = st, d_log = [(0, 0, EvStarting api_tactic)], d_open = {}, d_connv = [], d_errorv = [], d_joined = 0\<rparr>"
proof -
  let ?s0 = "dial_init sample_tactics 0 False sample_stats :: nat dial_state"
  let ?s1 = "?s0\<lparr>d_workers := WReady 0 api_tactic # replicate 15 WIdle, d_emitter := [], d_t0 := 0, d_next := 1\<rparr>"
  have tactics: "sample_tactics = [api_tactic]"
    by (simp add: sample_tactics_def httpsDialerFilterTactics_def filterAssignInitialDelays_def filterOnlyKeepUniqueTactics_def
        happyEyeballsDelay_def api_tactic_def)
  have workers: "d_workers ?s0 = [] @ WIdle # replicate 15 WIdle"
    by (simp add: dial_init_def parallelism_def replicate_Suc [symmetric] del: replicate_Suc)
  have "dial_act (\<lambda>_ _ _. None) (?s0\<lparr>d_now := 0\<rparr>) ?s1"
  proof -
    have "dial_act (\<lambda>_ _ _. None) ?s0 (?s0\<lparr>d_workers := [] @ WReady 0 api_tactic # replicate 15 WIdle, d_emitter := [],
        d_t0 := 0, d_next := Suc (d_next ?s0)\<rparr>)"
      by (rule dial_act.take [OF workers, of api_tactic "[]" 0]) (simp_all add: dial_init_def tactics zeroTime_Get_def api_tactic_def wait_ready)
    then show ?thesis by (simp add: dial_init_def)
  qed
  then have step1: "dial_step (\<lambda>_ _ _. None) ?s0 ?s1" by (intro dial_step.intros [where now = 0]) (simp_all add: dial_init_def)
  obtain st where st: "stats_apply 0 (EvStarting api_tactic) sample_stats = Some st"
    using stats_apply_wf [OF sample_stats_wf] by blast
  let ?s2 = "?s1\<lparr>d_stats := st, d_log := [(0, 0, EvStarting api_tactic)], d_workers := [] @ WConnect 0 api_tactic # replicate 15 WIdle\<rparr>"
  have "dial_act (\<lambda>_ _ _. None) (?s1\<lparr>d_now := 0\<rparr>) ?s2"
  proof -
    have "notify 0 (EvStarting api_tactic) ?s1 = Some (?s1\<lparr>d_stats := st, d_log := [(0, 0, EvStarting api_tactic)]\<rparr>)"
      using st by (simp add: dial_init_def del: stats_apply.simps)
    from dial_act.start [OF _ this, of "[]"] show ?thesis by (simp add: dial_init_def)
  qed
  then have "dial_step (\<lambda>_ _ _. None) ?s1 ?s2" by (intro dial_step.intros [where now = 0]) (simp_all add: dial_init_def)
  from dial_run.step [OF dial_run.step [OF dial_run.refl step1] this] show ?thesis
    by (auto simp: dial_init_def numeral_2_eq_2)
qed

theorem dialer_honours_delays_witness:
  "\<exists>(s :: nat dial_state). dial_run (\<lambda>_ _ _. None) (dial_init sample_tactics 0 False sample_stats) 2 s \<and>
     (0, 0, EvStarting api_tactic) \<in> set (d_log s) \<and> api_tactic = sample_tactics ! 0 \<and> d_t0 s + happyEyeballsDelay 0 \<le> 0"
proof -
  obtain s :: "nat dial_state" where run: "dial_run (\<lambda>_ _ _. None) (dial_init sample_tactics 0 False sample_stats) 2 s"
      and log: "(0, 0, EvStarting api_tactic) \<in> set (d_log s)"
    using sample_starts by fastforce
  have "int (length sample_tactics) \<le> max_delay_index"
    by (simp add: sample_tactics_def httpsDialerFilterTactics_def filterAssignInitialDelays_def filterOnlyKeepUniqueTactics_def
        max_delay_index_def)
  from dialer_honours_delays [OF sample_stats_wf time_zero_neg sample_tactics_def this run log] run log show ?thesis by auto
qed

section \<open>Joined endpoints\<close>

lemma join_host_port_unique:
  assumes "join_host_port h p = join_host_port host port" and "CHR '':'' \<notin> set host" and "host = '''' \<or> hd host \<noteq> CHR ''[''"
  shows "h = host \<and> p = port"
proof (cases "CHR '':'' \<in> set h")
  case True
  with assms show ?thesis by (cases host) (auto simp: join_host_port_def)
next
  case False
  with assms show ?thesis using split_first [of h "CHR '':''" p host port] by (simp add: join_host_port_def)
qed

section \<open>An attempt can succeed\<close>

lemma dial_run_act:
  "dial_run verify s0 k s \<Longrightarrow> d_now s \<le> now \<Longrightarrow> dial_act verify (s\<lparr>d_now := now\<rparr>) s' \<Longrightarrow> dial_run verify s0 (Suc k) s'"
  by (blast intro: dial_run.step dial_step.intros)

lemma reach_ready:
  assumes "dial_run verify s0 k s" and "d_workers s = us @ WIdle # vs" and "d_emitter s = tac # rest"
  shows "\<exists>k' s' n. dial_run verify s0 k' s' \<and> d_workers s' = us @ WReady n tac # vs"
proof -
  let ?t0 = "zeroTime_Get (d_now s) (d_t0 s)"
  let ?deadline = "?t0 + InitialDelay tac"
  let ?w = "if ?deadline - d_now s \<le> 0 then WReady (d_next s) tac else WWait (d_next s) tac ?deadline"
  let ?s1 = "s\<lparr>d_workers := us @ ?w # vs, d_emitter := rest, d_t0 := ?t0, d_next := Suc (d_next s)\<rparr>"
  have "dial_act verify (s\<lparr>d_now := d_now s\<rparr>) ?s1"
    using dial_act.take [OF assms(2,3) HOL.refl HOL.refl, of verify] by (simp add: wait_ready)
  from dial_run_act [OF assms(1) order.refl this] have run: "dial_run verify s0 (Suc k) ?s1" .
  show ?thesis
  proof (cases "?deadline - d_now s \<le> 0")
    case True
    then have "d_workers ?s1 = us @ WReady (d_next s) tac # vs" by simp
    with run show ?thesis by blast
  next
    case False
    have "dial_act verify (?s1\<lparr>d_now := ?deadline\<rparr>) (?s1\<lparr>d_now := ?deadline, d_workers := us @ WReady (d_next s) tac # vs\<rparr>)"
      using dial_act.timer [of "?s1\<lparr>d_now := ?deadline\<rparr>" us "d_next s" tac ?deadline vs verify] False by simp
    moreover have "d_now ?s1 \<le> ?deadline" using False by simp
    ultimately have "dial_run verify s0 (Suc (Suc k)) (?s1\<lparr>d_now := ?deadline, d_workers := us @ WReady (d_next s) tac # vs\<rparr>)"
      by (intro dial_run_act [OF run])
    moreover have "d_workers (?s1\<lparr>d_now := ?deadline, d_workers := us @ WReady (d_next s) tac # vs\<rparr>) = us @ WReady (d_next s) tac # vs"
      by simp
    ultimately show ?thesis by blast
  qed
qed

lemma reach_connection:
  assumes "dial_run verify s0 k s" and "dial_inv verify ts s" and "d_workers s = us @ WReady n tac # vs"
    and "httpsDialerVerifyCertificateChain verify (VerifyHostname tac) certs = None"
  shows "\<exists>k' s'. dial_run verify s0 k' s' \<and> \<lparr>tc_id = n, tc_tactic = tac, tc_certs = certs\<rparr> \<in> set (d_connv s')"
proof -
  let ?conn = "\<lparr>tc_id = n, tc_tactic = tac, tc_certs = certs\<rparr>"
  have step: "dial_run verify s0 (Suc k) s' \<and> dial_inv verify ts s'"
    if "dial_run verify s0 k s" "dial_inv verify ts s" "dial_act verify s s'" for k s s'
    using that dial_run_act [of verify s0 k s "d_now s" s'] dial_inv_step [of verify s s' ts] dial_step.intros [of s "d_now s"] by simp
  have wf: "stats_wf (d_stats s)" if "dial_inv verify ts s" for s using that by (simp add: dial_inv_def conns_inv_def)
  obtain s1 where s1: "notify n (EvStarting tac) s = Some s1" using notify_total [OF wf [OF assms(2)]] by blast
  let ?s2 = "s1\<lparr>d_workers := us @ WConnect n tac # vs\<rparr>"
  have r2: "dial_run verify s0 (Suc k) ?s2 \<and> dial_inv verify ts ?s2"
    by (rule step [OF assms(1,2) dial_act.start [OF assms(3) s1]])
  let ?s3 = "?s2\<lparr>d_workers := us @ WHandshake n tac # vs, d_open := insert n (d_open ?s2)\<rparr>"
  have r3: "dial_run verify s0 (Suc (Suc k)) ?s3 \<and> dial_inv verify ts ?s3"
    using r2 by (intro step [of _ ?s2] dial_act.tcp_ok) simp_all
  let ?s4 = "?s3\<lparr>d_workers := us @ WVerify n tac certs # vs\<rparr>"
  have r4: "dial_run verify s0 (Suc (Suc (Suc k))) ?s4 \<and> dial_inv verify ts ?s4"
    using r3 by (intro step [of _ ?s3] dial_act.tls_ok) simp_all
  then obtain s5 where s5: "notify n (EvSuccess tac) ?s4 = Some s5" using notify_total [OF wf] by blast
  let ?s6 = "s5\<lparr>d_workers := us @ WSendConn ?conn # vs\<rparr>"
  have r6: "dial_run verify s0 (Suc (Suc (Suc (Suc k)))) ?s6 \<and> dial_inv verify ts ?s6"
    using r4 s5 assms(4) by (intro step [of _ ?s4] dial_act.verify_ok) simp_all
  then have joined: "d_joined ?s6 < parallelism" by (intro joined_less [of verify ts _ "WSendConn ?conn"]) simp_all
  let ?s7 = "(DialTLSContext_collect (MsgConn ?conn) ?s6)\<lparr>d_workers := us @ WIdle # vs\<rparr>"
  have "dial_run verify s0 (Suc (Suc (Suc (Suc (Suc k))))) ?s7 \<and> dial_inv verify ts ?s7"
    using r6 joined by (intro step [of _ ?s6] dial_act.collect_conn) simp_all
  moreover have "?conn \<in> set (d_connv ?s7)" by simp
  ultimately show ?thesis by blast
qed

text \<open>Some run makes a connection with the first tactic, when the chain that the peer sends verifies.\<close>

lemma dial_can_succeed:
  assumes "stats_wf stats" and "time_zero < now"
    and "httpsDialerVerifyCertificateChain verify (VerifyHostname tac) certs = None"
  shows "\<exists>k s c. dial_run verify (dial_init (tac # rest) now cancelled stats) k s \<and> dial_final s \<and> c \<in> set (d_connv s)"
proof -
  let ?s0 = "dial_init (tac # rest) now cancelled stats"
  have workers: "d_workers ?s0 = [] @ WIdle # replicate 15 WIdle"
    by (simp add: dial_init_def parallelism_def replicate_Suc [symmetric] del: replicate_Suc)
  have emitter: "d_emitter ?s0 = tac # rest" by (simp add: dial_init_def)
  from reach_ready [OF dial_run.refl workers emitter] obtain k s n where
    run: "dial_run verify ?s0 k s" "d_workers s = [] @ WReady n tac # replicate 15 WIdle" by blast
  from reach_connection [OF run(1) dial_inv_run [OF run(1) assms(1,2)] run(2) assms(3)] obtain k' s' c where
    run': "dial_run verify ?s0 k' s'" "c \<in> set (d_connv s')" by blast
  from dial_reaches_final [OF run'(1) dial_inv_run [OF run'(1) assms(1,2)]] run'(2) show ?thesis by blast
qed

end
