(* ===== verification/Scrubber.thy ===== *)
theory Scrubber
  imports WebTitle Bogon
begin

text \<open>
  \<open>internal/scrubber/scrubber.go\<close>, which removes network endpoints from strings that are logged or
  published. The regular expressions of the source are terms of a small language with the
  leftmost-first semantics of Go's \<open>regexp\<close>: \<open>re_match\<close> gives the positions after a match, the
  preferred one first. The patterns have bounded repetitions only, so matching is a total function.
\<close>

section \<open>Regular expressions\<close>

text \<open>
  \<open>Cls\<close> is a class of ASCII characters, \<open>NonWord\<close> the class \<open>[^\w:]\<close>, which matches one rune, \<open>Bol\<close>
  and \<open>Eol\<close> the beginning and the end of the text.
\<close>

datatype re = Eps | Cls string | NonWord | Bol | Eol | Seq re re | Alt re re | Opt re

definition digits :: string where
  "digits = ''0123456789''"

definition hex_digits :: string where
  "hex_digits = ''0123456789abcdefABCDEF''"

definition word_chars :: string where
  "word_chars = ''0123456789ABCDEFGHIJKLMNOPQRSTUVWXYZ_abcdefghijklmnopqrstuvwxyz''"

definition spaces :: string where
  "spaces = [CHR 0x09, CHR 0x0A, CHR 0x0C, CHR 0x0D, CHR '' '']"

text \<open>A position: whether it is the beginning of the text, and the text that follows.\<close>

type_synonym pos = "bool \<times> string"

fun re_match :: "re \<Rightarrow> pos \<Rightarrow> pos list" where
  "re_match Eps p = [p]"
| "re_match (Cls cs) (start, s) =
     (case s of [] \<Rightarrow> [] | c # rest \<Rightarrow> if c \<in> set cs then [(False, rest)] else [])"
| "re_match NonWord (start, s) =
     (case s of [] \<Rightarrow> [] | c # rest \<Rightarrow>
        if c \<in> set word_chars \<or> c = CHR '':'' then [] else [(False, drop (rune_width s) s)])"
| "re_match Bol (start, s) = (if start then [(start, s)] else [])"
| "re_match Eol (start, s) = (if s = [] then [(start, s)] else [])"
| "re_match (Seq a b) p = concat (map (re_match b) (re_match a p))"
| "re_match (Alt a b) p = re_match a p @ re_match b p"
| "re_match (Opt a) p = re_match a p @ [p]"

text \<open>The repetition \<open>r{m,m+n}\<close>, greedy.\<close>

fun at_most :: "nat \<Rightarrow> re \<Rightarrow> re" where
  "at_most 0 r = Eps"
| "at_most (Suc n) r = Opt (Seq r (at_most n r))"

fun rep :: "nat \<Rightarrow> nat \<Rightarrow> re \<Rightarrow> re" where
  "rep 0 n r = at_most n r"
| "rep (Suc m) n r = Seq r (rep m n r)"

fun lit :: "string \<Rightarrow> re" where
  "lit [] = Eps"
| "lit (c # cs) = Seq (Cls [c]) (lit cs)"

section \<open>The patterns\<close>

definition ipv4Address :: re where
  "ipv4Address = Seq (rep 1 2 (Cls digits)) (Seq (Cls ''.'') (Seq (rep 1 2 (Cls digits)) (Seq (Cls ''.'')
     (Seq (rep 1 2 (Cls digits)) (Seq (Cls ''.'') (rep 1 2 (Cls digits)))))))"

definition colon :: re where
  "colon = Alt (Cls '':'') (Alt (lit ''%3a'') (lit ''%3A''))"

definition hex_group :: re where
  "hex_group = rep 0 4 (Cls hex_digits)"

definition ipv6Address :: re where
  "ipv6Address = Seq (rep 5 2 (Seq hex_group colon)) (Opt hex_group)"

definition ipv6Compressed :: re where
  "ipv6Compressed = Seq (rep 0 5 (Seq hex_group colon)) (Seq (Opt hex_group) (Seq (rep 2 0 colon)
     (Seq (rep 0 5 (Seq hex_group colon)) (Opt hex_group))))"

definition ipv6Full :: re where
  "ipv6Full = Alt (Seq ipv6Address ipv4Address) (Alt (Seq ipv6Compressed ipv4Address)
     (Alt ipv6Address ipv6Compressed))"

definition optionalPort :: re where
  "optionalPort = Opt (Seq (Cls '':'') (rep 1 4 (Cls digits)))"

definition addressPattern :: re where
  "addressPattern = Seq (Alt ipv4Address (Alt (Seq (Cls ''['') (Seq ipv6Full (Cls '']''))) ipv6Full)) optionalPort"

definition before_address :: re where
  "before_address = Alt Bol (Alt (Cls spaces) NonWord)"

definition after_address :: re where
  "after_address = Alt (Cls spaces) (Alt (Seq (Cls '':'') (Cls spaces)) (Alt NonWord Eol))"

definition fullAddrPattern :: re where
  "fullAddrPattern = Seq before_address (Seq addressPattern after_address)"

section \<open>Replacement\<close>

text \<open>
  \<open>ReplaceAllFunc\<close>: the leftmost match at or after the position is replaced, and the search goes on
  after it; a position without a match is copied, rune by rune. The guard that a match consumes
  something always holds for the patterns above.
\<close>

function replace_all :: "re \<Rightarrow> (string \<Rightarrow> string) \<Rightarrow> pos \<Rightarrow> string" where
  "replace_all pat repl (start, s) =
     (case re_match pat (start, s) of
        (_, rest) # _ \<Rightarrow>
          if length rest < length s
          then repl (take (length s - length rest) s) @ replace_all pat repl (False, rest) else s
      | [] \<Rightarrow> if s = [] then [] else take (rune_width s) s @ replace_all pat repl (False, drop (rune_width s) s))"
  by pat_completeness auto
termination
  by (relation "measure (\<lambda>(pat, repl, start, s). length s)") (auto simp: rune_width_pos)

declare replace_all.simps [simp del]

definition ScrubBytes :: "string \<Rightarrow> string" where
  "ScrubBytes b = replace_all fullAddrPattern (\<lambda>m. replace_all addressPattern (\<lambda>_. ''[scrubbed]'') (True, m)) (True, b)"

definition ScrubString :: "string \<Rightarrow> string" where
  "ScrubString s = ScrubBytes s"

section \<open>Matches consume text\<close>

lemma re_match_suffix: "p' \<in> set (re_match r p) \<Longrightarrow> \<exists>u. snd p = u @ snd p'"
proof (induction r arbitrary: p p')
  case (Seq a b)
  then obtain q where q: "q \<in> set (re_match a p)" "p' \<in> set (re_match b q)" by auto
  obtain u v where "snd p = u @ snd q" "snd q = v @ snd p'" using Seq.IH q by blast
  then show ?case by simp
next
  case NonWord
  then show ?case
    by (cases p; cases "snd p") (auto split: if_splits intro: exI [of _ "take (rune_width (snd p)) (snd p)"])
next
  case (Cls cs)
  then show ?case by (cases p; cases "snd p") (auto split: if_splits)
qed (cases p; auto split: if_splits)+

text \<open>How many characters of \<open>D\<close> every match consumes at least.\<close>

fun min_count :: "string \<Rightarrow> re \<Rightarrow> nat" where
  "min_count D (Cls cs) = (if list_all (\<lambda>c. c \<in> set D) cs then 1 else 0)"
| "min_count D (Seq a b) = min_count D a + min_count D b"
| "min_count D (Alt a b) = min (min_count D a) (min_count D b)"
| "min_count D _ = 0"

abbreviation count_in :: "string \<Rightarrow> string \<Rightarrow> nat" where
  "count_in D s \<equiv> length (filter (\<lambda>c. c \<in> set D) s)"

lemma count_in_suffix: "p' \<in> set (re_match r p) \<Longrightarrow> count_in D (snd p') \<le> count_in D (snd p)"
  using re_match_suffix by fastforce

lemma min_count_sound: "p' \<in> set (re_match r p) \<Longrightarrow> min_count D r + count_in D (snd p') \<le> count_in D (snd p)"
proof (induction r arbitrary: p p')
  case (Cls cs)
  then show ?case by (cases p; cases "snd p") (auto simp: list_all_iff split: if_splits)
next
  case (Seq a b)
  then obtain q where "q \<in> set (re_match a p)" "p' \<in> set (re_match b q)" by auto
  with Seq.IH show ?case by fastforce
next
  case (Alt a b)
  then show ?case by fastforce
qed (use count_in_suffix in \<open>simp_all only: min_count.simps add_0\<close>)

lemma min_count_none: "count_in D s < min_count D r \<Longrightarrow> re_match r (start, s) = []"
  using min_count_sound [of _ r "(start, s)" D] by (cases "re_match r (start, s)") fastforce+

abbreviation requires :: "string \<Rightarrow> re \<Rightarrow> bool" where
  "requires D r \<equiv> 0 < min_count D r"

lemma requires_none: "requires D r \<Longrightarrow> \<forall>c \<in> set s. c \<notin> set D \<Longrightarrow> re_match r (start, s) = []"
  by (rule min_count_none [where D = D]) (simp add: filter_False)

lemma requires_consumes: "requires D r \<Longrightarrow> p' \<in> set (re_match r p) \<Longrightarrow> length (snd p') < length (snd p)"
  using min_count_sound [of p' r p D] re_match_suffix [of p' r p] by fastforce

text \<open>The characters that some part of an address must have.\<close>

lemma address_requires:
  "requires ''.:%'' addressPattern" "requires ''.:%'' fullAddrPattern"
  "requires '':%'' ipv6Full" "min_count ''.'' ipv4Address = 3"
  by code_simp+

text \<open>The guard of \<open>replace_all\<close> holds for the two patterns.\<close>

lemma address_consumes:
  "p' \<in> set (re_match addressPattern p) \<Longrightarrow> length (snd p') < length (snd p)"
  "p' \<in> set (re_match fullAddrPattern p) \<Longrightarrow> length (snd p') < length (snd p)"
  by (rule requires_consumes [OF address_requires(1)] requires_consumes [OF address_requires(2)], assumption)+

lemma replace_all_none: "\<forall>c \<in> set s. c \<notin> set D \<Longrightarrow> requires D pat \<Longrightarrow> replace_all pat repl (start, s) = s"
proof (induction s arbitrary: start rule: length_induct)
  case (1 s)
  show ?case
  proof (cases "s = []")
    case True
    with 1 show ?thesis by (simp add: replace_all.simps requires_none)
  next
    case False
    then have "length (drop (rune_width s) s) < length s" using rune_width_pos by simp
    moreover have "\<forall>c \<in> set (drop (rune_width s) s). c \<notin> set D" using "1.prems"(1) by (meson in_set_dropD)
    ultimately have "replace_all pat repl (False, drop (rune_width s) s) = drop (rune_width s) s"
      using "1.IH" "1.prems"(2) by blast
    with 1 False show ?thesis by (subst replace_all.simps) (simp add: requires_none)
  qed
qed

text \<open>One step of the replacement without a match, on an ASCII character.\<close>

lemma rune_width_ascii: "is_ascii c \<Longrightarrow> rune_width (c # s) = 1"
  by (simp add: rune_width_def Let_def is_ascii_def)

lemma replace_all_copy:
  "is_ascii c \<Longrightarrow> re_match pat (start, c # s) = [] \<Longrightarrow>
     replace_all pat repl (start, c # s) = c # replace_all pat repl (False, s)"
  by (subst replace_all.simps) (simp add: rune_width_ascii)

lemma replace_all_match:
  "re_match pat (start, u @ s) = (b, s) # others \<Longrightarrow> u \<noteq> [] \<Longrightarrow>
     replace_all pat repl (start, u @ s) = repl u @ replace_all pat repl (False, s)"
  by (subst replace_all.simps) simp

section \<open>IPv4 addresses\<close>

lemma is_digit_set: "is_digit c \<longleftrightarrow> c \<in> set digits"
proof
  assume "is_digit c"
  then have "(of_char c :: nat) \<in> set [48..<58]" unfolding set_upt is_digit_def by simp
  then have "char_of (of_char c :: nat) \<in> set (map char_of [48..<58::nat])" by (simp only: set_map) blast
  moreover have "map char_of [48..<58::nat] = digits" by code_simp
  ultimately show "c \<in> set digits" by (simp only: char_of_char)
qed (auto simp: digits_def is_digit_def)

text \<open>A group of one to three digits.\<close>

definition octet :: "string \<Rightarrow> bool" where
  "octet ds \<longleftrightarrow> 1 \<le> length ds \<and> length ds \<le> 3 \<and> set ds \<subseteq> set digits"

lemma octet_nat_digits: "n < 256 \<Longrightarrow> octet (nat_digits n)"
  using nat_digits_digits [of n] by (auto simp: octet_def nat_digits_byte list_all_iff is_digit_set)

lemma octet_cases:
  assumes "octet ds"
  obtains x where "ds = [x]" "x \<in> set digits"
    | x y where "ds = [x, y]" "x \<in> set digits" "y \<in> set digits"
    | x y z where "ds = [x, y, z]" "x \<in> set digits" "y \<in> set digits" "z \<in> set digits"
  using assms unfolding octet_def
  by (cases ds; cases "tl ds"; cases "tl (tl ds)"; cases "tl (tl (tl ds))") auto

abbreviation octet_re :: re where
  "octet_re \<equiv> rep 1 2 (Cls digits)"

lemma rep_octet: "octet_re = Seq (Cls digits) (Opt (Seq (Cls digits) (Opt (Seq (Cls digits) Eps))))"
  by (simp add: numeral_eq_Suc)

lemma octet_first:
  assumes "octet ds" and "rest = [] \<or> hd rest \<notin> set digits"
  shows "\<exists>others. re_match octet_re (b, ds @ rest) = (False, rest) # others"
  unfolding rep_octet using assms(1)
  by (cases rule: octet_cases) (use assms(2) in \<open>cases rest; simp\<close>)+

lemma octet_dot:
  assumes "octet ds"
  shows "re_match (Seq octet_re (Seq (Cls ''.'') r)) (b, ds @ CHR ''.'' # rest) = re_match r (False, rest)"
proof -
  have dot: "CHR ''.'' \<notin> set digits" by code_simp
  then have "x \<noteq> CHR ''.''" if "x \<in> set digits" for x using that by auto
  note facts = dot this
  from assms show ?thesis unfolding rep_octet by (cases rule: octet_cases) (auto simp: facts)
qed

lemma ipv4_first:
  assumes "octet a" "octet b" "octet c" "octet d" and "rest = [] \<or> hd rest \<notin> set digits"
  shows "\<exists>others. re_match ipv4Address (start, a @ ''.'' @ b @ ''.'' @ c @ ''.'' @ d @ rest) = (False, rest) # others"
proof -
  have "re_match ipv4Address (start, a @ CHR ''.'' # b @ CHR ''.'' # c @ CHR ''.'' # d @ rest) = re_match octet_re (False, d @ rest)"
    unfolding ipv4Address_def octet_dot [OF assms(1)] octet_dot [OF assms(2)] octet_dot [OF assms(3)] ..
  with octet_first [OF assms(4,5)] show ?thesis by simp
qed

lemma seq_first:
  "re_match a p = q # qs \<Longrightarrow> re_match b q = r # rs \<Longrightarrow> \<exists>others. re_match (Seq a b) p = r # others"
  by simp

lemma dotted_address_first:
  assumes "a < 256" "b < 256" "c < 256" "d < 256" and "rest = [] \<or> hd rest \<notin> set digits \<and> hd rest \<noteq> CHR '':''"
  shows "\<exists>others. re_match addressPattern (start, dotted a b c d @ rest) = (False, rest) # others"
proof -
  obtain others where "re_match ipv4Address (start, dotted a b c d @ rest) = (False, rest) # others"
    using ipv4_first [OF assms(1-4) [THEN octet_nat_digits]] assms(5) by (fastforce simp: dotted_def)
  moreover have "re_match optionalPort (False, rest) = [(False, rest)]"
    using assms(5) by (cases rest) (auto simp: optionalPort_def)
  ultimately show ?thesis unfolding addressPattern_def by (intro seq_first) auto
qed

text \<open>No address starts before a character that no address has.\<close>

lemma seq_nonempty: "re_match (Seq a b) p \<noteq> [] \<Longrightarrow> \<exists>q \<in> set (re_match a p). re_match b q \<noteq> []"
  by auto

lemma ipv4_starts:
  assumes "re_match ipv4Address (start, s) \<noteq> []"
  shows "\<exists>ds r. s = ds @ CHR ''.'' # r \<and> set ds \<subseteq> set digits"
proof -
  obtain q where q: "q \<in> set (re_match octet_re (start, s))"
      "re_match (Seq (Cls ''.'') (Seq octet_re (Seq (Cls ''.'') (Seq octet_re (Seq (Cls ''.'') octet_re))))) q \<noteq> []"
    using seq_nonempty [OF assms [unfolded ipv4Address_def]] by blast
  obtain q' where "q' \<in> set (re_match (Cls ''.'') q)" using seq_nonempty [OF q(2)] by blast
  then obtain r where r: "snd q = CHR ''.'' # r" by (cases q; cases "snd q") (auto split: if_splits)
  have "\<exists>ds. s = ds @ snd q \<and> set ds \<subseteq> set digits"
    using q(1) unfolding rep_octet
    by (auto split: list.splits if_splits intro: exI [of _ "[_]"] exI [of _ "[_, _]"] exI [of _ "[_, _, _]"])
  with r show ?thesis by auto
qed

lemma address_none_before:
  assumes "\<forall>c \<in> set (u @ v). c \<notin> set '':%''" and "CHR ''.'' \<notin> set u"
    and "v = [] \<or> hd v \<noteq> CHR ''.'' \<and> hd v \<notin> set digits"
  shows "re_match addressPattern (start, u @ v) = []"
proof -
  have "re_match ipv4Address (start, u @ v) = []"
  proof (rule ccontr)
    assume "re_match ipv4Address (start, u @ v) \<noteq> []"
    then obtain ds r where ds: "u @ v = ds @ CHR ''.'' # r" "set ds \<subseteq> set digits" using ipv4_starts by blast
    then have "length u < length ds \<or> length u = length ds \<or> length ds < length u" by linarith
    moreover have False if "length ds < length u"
    proof -
      have "u ! length ds = CHR ''.''" using ds(1) that by (metis nth_append nth_append_length)
      then show False using assms(2) that nth_mem by fastforce
    qed
    moreover have False if "length u \<le> length ds"
    proof -
      have "v \<noteq> []" using ds(1) that by (cases v) auto
      have "hd v = (ds @ CHR ''.'' # r) ! length u"
        using ds(1) \<open>v \<noteq> []\<close> by (metis hd_conv_nth nth_append_length_plus add.right_neutral)
      moreover have "ds ! length u \<in> set digits" if "length u < length ds" using that ds(2) nth_mem by blast
      ultimately have "hd v = CHR ''.'' \<or> hd v \<in> set digits"
        using that by (cases "length u < length ds") (simp_all add: nth_append)
      then show False using assms(3) \<open>v \<noteq> []\<close> by auto
    qed
    ultimately show False by linarith
  qed
  moreover have "re_match ipv6Full (st, w) = []" if "\<forall>c \<in> set w. c \<notin> set '':%''" for st w
    by (rule requires_none [OF address_requires(3) that])
  ultimately show ?thesis
    using assms(1) by (cases "u @ v") (simp_all add: addressPattern_def)
qed

section \<open>Properties\<close>

text \<open>A character that can stand before or after an address: ASCII, and not part of one.\<close>

definition separator :: "char \<Rightarrow> bool" where
  "separator c \<longleftrightarrow> is_ascii c \<and> c \<notin> set word_chars \<and> c \<notin> set ''.:%[]''"

lemma separator_match:
  assumes "separator c"
  shows "\<exists>others. re_match (Alt (Cls spaces) NonWord) (b, c # s) = (False, s) # others"
    "\<exists>others. re_match after_address (b, c # s) = (False, s) # others"
  using assms by (auto simp: separator_def after_address_def rune_width_ascii)

lemma separator_not_digit: "separator c \<Longrightarrow> c \<notin> set digits"
proof -
  have "set digits \<subseteq> set word_chars" by code_simp
  then show "separator c \<Longrightarrow> c \<notin> set digits" by (auto simp: separator_def)
qed

lemma dotted_chars: "c \<in> set (dotted a b c' d) \<Longrightarrow> c = CHR ''.'' \<or> c \<in> set digits"
  using nat_digits_digits by (auto simp: dotted_def list_all_iff is_digit_set)

lemma dotted_no_colon: "\<forall>c \<in> set (dotted a b c' d). c \<notin> set '':%''"
proof -
  have "CHR '':'' \<notin> set digits" "CHR ''%'' \<notin> set digits" by code_simp+
  then show ?thesis using dotted_chars by fastforce
qed

lemma separator_address_none:
  assumes "separator c" and "\<forall>x \<in> set s. x \<notin> set '':%''"
  shows "re_match addressPattern (b, c # s) = []"
proof -
  have "re_match addressPattern (b, [] @ c # s) = []"
    by (rule address_none_before) (use assms separator_not_digit [OF assms(1)] in \<open>auto simp: separator_def\<close>)
  then show ?thesis by simp
qed

text \<open>The replacement inside one match.\<close>

lemma replace_address:
  assumes "a < 256" "b < 256" "c < 256" "d < 256" and "separator x" and "separator y"
  shows "replace_all addressPattern (\<lambda>_. ''[scrubbed]'') (True, x # dotted a b c d @ [y]) = x # ''[scrubbed]'' @ [y]"
    "replace_all addressPattern (\<lambda>_. ''[scrubbed]'') (True, dotted a b c d @ [y]) = ''[scrubbed]'' @ [y]"
proof -
  have y: "replace_all addressPattern (\<lambda>_. ''[scrubbed]'') (False, [y]) = [y]"
    by (rule replace_all_none [OF _ address_requires(1)]) (use assms(6) in \<open>auto simp: separator_def\<close>)
  have ne: "dotted a b c d \<noteq> []" by (simp add: dotted_def)
  have scrubbed: "replace_all addressPattern (\<lambda>_. ''[scrubbed]'') (b', dotted a b c d @ [y]) = ''[scrubbed]'' @ [y]" for b'
  proof -
    obtain others where "re_match addressPattern (b', dotted a b c d @ [y]) = (False, [y]) # others"
      using dotted_address_first [OF assms(1-4), of "[y]" b'] assms(6) separator_not_digit [OF assms(6)]
      by (auto simp: separator_def)
    from replace_all_match [OF this ne] y show ?thesis by simp
  qed
  then show "replace_all addressPattern (\<lambda>_. ''[scrubbed]'') (True, dotted a b c d @ [y]) = ''[scrubbed]'' @ [y]" .
  have "re_match addressPattern (True, x # dotted a b c d @ [y]) = []"
    by (rule separator_address_none [OF assms(5)])
      (use dotted_no_colon assms(6) in \<open>fastforce simp: separator_def\<close>)
  with assms(5) scrubbed show "replace_all addressPattern (\<lambda>_. ''[scrubbed]'') (True, x # dotted a b c d @ [y]) = x # ''[scrubbed]'' @ [y]"
    by (simp add: replace_all_copy separator_def)
qed

text \<open>Text without any character that addresses are made of but digits and letters.\<close>

definition plain_text :: "string \<Rightarrow> bool" where
  "plain_text s \<longleftrightarrow> list_all is_ascii s \<and> (\<forall>c \<in> set s. c \<notin> set ''.:%'')"

abbreviation scrub_match :: "string \<Rightarrow> string" where
  "scrub_match m \<equiv> replace_all addressPattern (\<lambda>_. ''[scrubbed]'') (True, m)"

lemma full_match_after_separator:
  assumes "a < 256" "b < 256" "c < 256" "d < 256" and "separator x" and "separator y"
    and "\<forall>z \<in> set post. z \<notin> set '':%''"
  shows "\<exists>others. re_match fullAddrPattern (start, x # dotted a b c d @ y # post) = (False, post) # others"
proof -
  have "re_match addressPattern (start, x # dotted a b c d @ y # post) = []"
    by (rule separator_address_none [OF assms(5)])
      (use dotted_no_colon assms(6,7) in \<open>fastforce simp: separator_def\<close>)
  moreover obtain o1 where "re_match (Alt (Cls spaces) NonWord) (start, x # dotted a b c d @ y # post) =
      (False, dotted a b c d @ y # post) # o1"
    using separator_match(1) [OF assms(5)] by blast
  moreover obtain o2 where "re_match (Seq addressPattern after_address) (False, dotted a b c d @ y # post) = (False, post) # o2"
    using dotted_address_first [OF assms(1-4), of "y # post" False] separator_match(2) [OF assms(6), of False post]
      assms(6) separator_not_digit [OF assms(6)] seq_first by (fastforce simp: separator_def)
  ultimately show ?thesis
    unfolding fullAddrPattern_def before_address_def by (cases start) auto
qed

lemma full_none_before:
  assumes "plain_text u" and "u \<noteq> []" and "separator x" and "\<forall>z \<in> set v. z \<notin> set '':%''"
  shows "re_match fullAddrPattern (start, u @ x # v) = []"
proof -
  obtain c u' where u: "u = c # u'" using assms(2) by (cases u) auto
  have none: "re_match addressPattern (b, w @ x # v) = []" if "set w \<subseteq> set u" for b w
  proof (rule address_none_before)
    have "z \<notin> set ''.:%''" if "z \<in> set w" for z
      using that \<open>set w \<subseteq> set u\<close> assms(1) unfolding plain_text_def by blast
    then have w: "CHR ''.'' \<notin> set w" "z \<notin> set '':%''" if "z \<in> set w" for z using that by auto
    then show "CHR ''.'' \<notin> set w" by blast
    have "x \<notin> set '':%''" using assms(3) by (auto simp: separator_def)
    with w(2) assms(4) show "\<forall>z \<in> set (w @ x # v). z \<notin> set '':%''" by (metis Un_iff set_ConsD set_append)
    show "x # v = [] \<or> hd (x # v) \<noteq> CHR ''.'' \<and> hd (x # v) \<notin> set digits"
      using assms(3) separator_not_digit [OF assms(3)] by (auto simp: separator_def)
  qed
  have "is_ascii c" using assms(1) u by (simp add: plain_text_def)
  moreover have "re_match addressPattern (b, u @ x # v) = []" "re_match addressPattern (b, u' @ x # v) = []" for b
    using none [of u] none [of u'] u by auto
  ultimately show ?thesis
    unfolding fullAddrPattern_def before_address_def u by (auto simp: rune_width_ascii)
qed

lemma replace_skip:
  assumes "plain_text u" and "separator x" and "\<forall>z \<in> set v. z \<notin> set '':%''"
  shows "replace_all fullAddrPattern repl (start, u @ x # v) =
    u @ replace_all fullAddrPattern repl (start \<and> u = [], x # v)"
  using assms(1)
proof (induction u arbitrary: start)
  case Nil
  then show ?case by simp
next
  case (Cons c u)
  then have "is_ascii c" "plain_text u" by (simp_all add: plain_text_def)
  moreover have "re_match fullAddrPattern (start, c # u @ x # v) = []"
    using full_none_before [OF Cons.prems _ assms(2,3), of start] by simp
  ultimately show ?case using Cons.IH [of False] by (simp add: replace_all_copy)
qed

text \<open>
  An IPv4 address in a text is removed and nothing else changes: between two separators that
  are not part of an address, the address is replaced by the marker, and the text around it, when it
  contains no dots, colons or percent signs, stays as it is.
\<close>

theorem scrub_ipv4_address:
  assumes "a < 256" "b < 256" "c < 256" "d < 256" and "separator x" and "separator y"
    and "plain_text pre" and "plain_text post"
  shows "ScrubString (pre @ [x] @ dotted a b c d @ [y] @ post) = pre @ [x] @ ''[scrubbed]'' @ [y] @ post"
proof -
  have post: "\<forall>z \<in> set post. z \<notin> set '':%''" using assms(8) by (auto simp: plain_text_def)
  have tail: "\<forall>z \<in> set (dotted a b c d @ y # post). z \<notin> set '':%''"
    using dotted_no_colon assms(6) post by (fastforce simp: separator_def)
  obtain others where match: "re_match fullAddrPattern (start, (x # dotted a b c d @ [y]) @ post) = (False, post) # others"
    if "start = (pre = [])" for start
    using full_match_after_separator [OF assms(1-6) post, of "pre = []"] by auto
  have "replace_all fullAddrPattern scrub_match (False, post) = post"
    by (rule replace_all_none [OF _ address_requires(2)]) (use assms(8) in \<open>simp add: plain_text_def\<close>)
  with replace_all_match [OF match [OF refl], of scrub_match] replace_address(1) [OF assms(1-6)]
  have "replace_all fullAddrPattern scrub_match (pre = [], x # dotted a b c d @ y # post) = x # ''[scrubbed]'' @ y # post"
    by simp
  then show ?thesis
    using replace_skip [OF assms(7,5) tail, of scrub_match True] by (simp add: ScrubString_def ScrubBytes_def)
qed

theorem scrub_ipv4_address_witness:
  "ScrubString ''dial 192.0.2.17 failed'' = ''dial [scrubbed] failed''"
proof -
  have "dotted 192 0 2 17 = ''192.0.2.17''" by code_simp
  moreover have "separator (CHR '' '')" "plain_text ''dial''" "plain_text ''failed''" by code_simp+
  ultimately show ?thesis
    using scrub_ipv4_address [of 192 0 2 17 "CHR '' ''" "CHR '' ''" "''dial''" "''failed''"] by simp
qed

lemma dotted_remains:
  assumes "set s \<subseteq> insert (CHR ''.'') (set digits)" and "count_in ''.'' s \<le> 3"
  shows "replace_all fullAddrPattern repl (False, s) = s"
  using assms
proof (induction s)
  case Nil
  then show ?case by (intro replace_all_none [OF _ address_requires(2)]) simp
next
  case (Cons z s)
  have "is_digit y \<or> y = CHR ''.''" if "y \<in> set (z # s)" for y
    using Cons.prems(1) that is_digit_set by auto
  then have chars: "is_ascii y" "y \<notin> set '':%''" if "y \<in> set (z # s)" for y
    using that by (fastforce simp: is_ascii_def is_digit_def)+
  have "re_match fullAddrPattern (False, z # s) = []"
  proof (cases "z = CHR ''.''")
    case True
    have "re_match ipv4Address (b, s) = []" for b
      by (rule min_count_none [where D = "''.''"]) (use Cons.prems(2) True address_requires(4) in simp)
    moreover have "re_match ipv6Full (b, s) = []" "re_match ipv6Full (b, tl s) = []" for b
      by (rule requires_none [OF address_requires(3)], cases s, use chars(2) in auto)+
    ultimately have "re_match addressPattern (b, s) = []" for b
      by (cases s) (simp_all add: addressPattern_def)
    with True show ?thesis
      by (simp add: fullAddrPattern_def before_address_def rune_width_ascii is_ascii_def)
  next
    case False
    then have "z \<in> set digits" using Cons.prems(1) by auto
    moreover have "set digits \<subseteq> set word_chars" "set digits \<inter> set spaces = {}" by code_simp+
    ultimately show ?thesis by (auto simp: fullAddrPattern_def before_address_def)
  qed
  with Cons chars(1) [of z] show ?case by (auto simp: replace_all_copy split: if_splits)
qed

text \<open>
  Of two IPv4 addresses separated by one character, only the first is removed: the match of the
  first address includes the separator, which the second address would need before it. The second
  address is published as it is.
\<close>

theorem scrub_consecutive_addresses:
  assumes "a < 256" "b < 256" "c < 256" "d < 256" and "separator y"
  shows "ScrubString (dotted a b c d @ [y] @ dotted a' b' c' d') = ''[scrubbed]'' @ [y] @ dotted a' b' c' d'"
proof -
  let ?t = "dotted a' b' c' d'"
  obtain o1 where o1: "re_match (Seq addressPattern after_address) (True, dotted a b c d @ y # ?t) = (False, ?t) # o1"
    using dotted_address_first [OF assms(1-4), of "y # ?t" True] separator_match(2) [OF assms(5), of False ?t]
      assms(5) separator_not_digit [OF assms(5)] seq_first by (fastforce simp: separator_def)
  then obtain others where "re_match fullAddrPattern (True, (dotted a b c d @ [y]) @ ?t) = (False, ?t) # others"
    unfolding fullAddrPattern_def before_address_def by (simp del: re_match.simps(2,3))
  from replace_all_match [OF this, of scrub_match] replace_address(2) [OF assms(1-4) assms(5) assms(5)]
  have "ScrubString (dotted a b c d @ [y] @ ?t) = ''[scrubbed]'' @ [y] @ replace_all fullAddrPattern scrub_match (False, ?t)"
    by (simp add: ScrubString_def ScrubBytes_def)
  moreover have "count_in ''.'' ?t \<le> 3"
  proof -
    have "CHR ''.'' \<notin> set (nat_digits n)" for n
      using nat_digits_digits [of n] by (auto simp: list_all_iff is_digit_def)
    then have "count_in ''.'' (nat_digits n) = 0" for n by (simp add: filter_empty_conv) metis
    then show ?thesis by (simp add: dotted_def)
  qed
  ultimately show ?thesis
    using dotted_remains [of ?t scrub_match] dotted_chars [of _ a' b' c' d'] by auto
qed

theorem scrub_consecutive_addresses_witness:
  "ScrubString ''192.0.2.1 192.0.2.2'' = ''[scrubbed] 192.0.2.2''"
proof -
  have "dotted 192 0 2 1 = ''192.0.2.1''" "dotted 192 0 2 2 = ''192.0.2.2''" "separator (CHR '' '')" by code_simp+
  then show ?thesis using scrub_consecutive_addresses [of 192 0 2 1 "CHR '' ''" 192 0 2 2] by simp
qed

section \<open>Text that is not an address\<close>

text \<open>Every match consumes characters of \<open>D\<close> only.\<close>

fun uses :: "string \<Rightarrow> re \<Rightarrow> bool" where
  "uses D (Cls cs) = list_all (\<lambda>c. c \<in> set D) cs"
| "uses D NonWord = False"
| "uses D (Seq a b) = (uses D a \<and> uses D b)"
| "uses D (Alt a b) = (uses D a \<and> uses D b)"
| "uses D (Opt a) = uses D a"
| "uses D _ = True"

lemma uses_sound: "uses D r \<Longrightarrow> p' \<in> set (re_match r p) \<Longrightarrow> \<exists>u. snd p = u @ snd p' \<and> set u \<subseteq> set D"
proof (induction r arbitrary: p p')
  case (Seq a b)
  then obtain q where q: "q \<in> set (re_match a p)" "p' \<in> set (re_match b q)" by auto
  obtain u v where "snd p = u @ snd q" "set u \<subseteq> set D" "snd q = v @ snd p'" "set v \<subseteq> set D"
    using Seq.IH(1) [OF _ q(1)] Seq.IH(2) [OF _ q(2)] Seq.prems(1) by auto
  then show ?case by (intro exI [of _ "u @ v"]) auto
next
  case (Cls cs)
  then show ?case by (cases p; cases "snd p") (auto simp: list_all_iff split: if_splits)
qed (cases p; auto split: if_splits)+

definition address_chars :: string where
  "address_chars = hex_digits @ ''.:%[]''"

lemma address_uses: "uses address_chars addressPattern"
  by code_simp

lemma address_starts: "c \<notin> set address_chars \<Longrightarrow> re_match addressPattern (b, c # s) = []"
proof (rule ccontr)
  assume c: "c \<notin> set address_chars" and "re_match addressPattern (b, c # s) \<noteq> []"
  then obtain p' where p': "p' \<in> set (re_match addressPattern (b, c # s))" by (metis list.set_intros(1) neq_Nil_conv)
  obtain u where u: "c # s = u @ snd p'" "set u \<subseteq> set address_chars" using uses_sound [OF address_uses p'] by auto
  with address_consumes(1) [OF p'] have "u \<noteq> []" by auto
  with u c show False by (cases u) auto
qed

text \<open>A word whose first character is no part of an address is copied.\<close>

lemma replace_word:
  assumes "set w \<subseteq> set word_chars" and "start \<longrightarrow> w \<noteq> [] \<and> hd w \<notin> set address_chars"
  shows "replace_all fullAddrPattern repl (start, w @ s) = w @ replace_all fullAddrPattern repl (False, s)"
  using assms
proof (induction w arbitrary: start)
  case Nil
  then show ?case by simp
next
  case (Cons c w)
  have word: "list_all is_ascii word_chars" "list_all (\<lambda>c. c \<notin> set spaces) word_chars" by code_simp+
  then have c: "is_ascii c" "c \<notin> set spaces" using Cons.prems(1) by (auto simp: list_all_iff)
  have "start \<Longrightarrow> re_match addressPattern (b, c # w @ s) = []" for b
    using Cons.prems(2) by (simp add: address_starts)
  then have "re_match fullAddrPattern (start, c # w @ s) = []"
    using c(2) Cons.prems(1) by (auto simp: fullAddrPattern_def before_address_def)
  with c(1) Cons.IH [of False] Cons.prems(1) show ?case by (simp add: replace_all_copy)
qed

lemma ScrubString_word:
  "set w \<subseteq> set word_chars \<Longrightarrow> w \<noteq> [] \<Longrightarrow> hd w \<notin> set address_chars \<Longrightarrow> \<exists>t. ScrubString (w @ s) = w @ t"
  by (simp add: ScrubString_def ScrubBytes_def replace_word)

end
