(* ===== verification/NetErrors.thy ===== *)
theory NetErrors
  imports Scrubber WebObservation "HOL-Library.Word"
begin

text \<open>
  The mapping of Go errors to OONI failure strings: \<open>internal/netxlite/errno.go\<close>,
  \<open>errno_linux.go\<close> (the other systems have the same table), \<open>classify.go\<close>, \<open>operations.go\<close> and
  \<open>errwrapper.go\<close>, and the conversion of an error to an archival failure in
  \<open>internal/measurexlite/failure.go\<close> and \<open>internal/legacy/tracex\<close>. An error is a tree: a node is the
  dynamic type of the error with its text, and its children are what \<open>Unwrap\<close> returns; \<open>errors.As\<close>
  and \<open>errors.Is\<close> visit the tree in preorder. The transport error codes of the QUIC library are
  arguments.
\<close>

section \<open>Failures and operations\<close>

abbreviation FailureAddressFamilyNotSupported :: string where "FailureAddressFamilyNotSupported \<equiv> ''address_family_not_supported''"
abbreviation FailureAddressInUse :: string where "FailureAddressInUse \<equiv> ''address_in_use''"
abbreviation FailureAddressNotAvailable :: string where "FailureAddressNotAvailable \<equiv> ''address_not_available''"
abbreviation FailureAlreadyConnected :: string where "FailureAlreadyConnected \<equiv> ''already_connected''"
abbreviation FailureAndroidDNSCacheNoData :: string where "FailureAndroidDNSCacheNoData \<equiv> ''android_dns_cache_no_data''"
abbreviation FailureBadAddress :: string where "FailureBadAddress \<equiv> ''bad_address''"
abbreviation FailureBadFileDescriptor :: string where "FailureBadFileDescriptor \<equiv> ''bad_file_descriptor''"
abbreviation FailureConnectionAborted :: string where "FailureConnectionAborted \<equiv> ''connection_aborted''"
abbreviation FailureConnectionAlreadyClosed :: string where "FailureConnectionAlreadyClosed \<equiv> ''connection_already_closed''"
abbreviation FailureConnectionAlreadyInProgress :: string where "FailureConnectionAlreadyInProgress \<equiv> ''connection_already_in_progress''"
abbreviation FailureConnectionRefused :: string where "FailureConnectionRefused \<equiv> ''connection_refused''"
abbreviation FailureConnectionReset :: string where "FailureConnectionReset \<equiv> ''connection_reset''"
abbreviation FailureDNSBogonError :: string where "FailureDNSBogonError \<equiv> ''dns_bogon_error''"
abbreviation FailureDNSNXDOMAINError :: string where "FailureDNSNXDOMAINError \<equiv> ''dns_nxdomain_error''"
abbreviation FailureDNSNonRecoverableFailure :: string where "FailureDNSNonRecoverableFailure \<equiv> ''dns_non_recoverable_failure''"
abbreviation FailureDNSRefusedError :: string where "FailureDNSRefusedError \<equiv> ''dns_refused_error''"
abbreviation FailureDNSReplyWithWrongQueryID :: string where "FailureDNSReplyWithWrongQueryID \<equiv> ''dns_reply_with_wrong_query_id''"
abbreviation FailureDNSServerMisbehaving :: string where "FailureDNSServerMisbehaving \<equiv> ''dns_server_misbehaving''"
abbreviation FailureDNSServfailError :: string where "FailureDNSServfailError \<equiv> ''dns_servfail_error''"
abbreviation FailureDNSTemporaryFailure :: string where "FailureDNSTemporaryFailure \<equiv> ''dns_temporary_failure''"
abbreviation FailureDestinationAddressRequired :: string where "FailureDestinationAddressRequired \<equiv> ''destination_address_required''"
abbreviation FailureEOFError :: string where "FailureEOFError \<equiv> ''eof_error''"
abbreviation FailureGenericTimeoutError :: string where "FailureGenericTimeoutError \<equiv> ''generic_timeout_error''"
abbreviation FailureHTTPInvalidRedirectLocationHost :: string where "FailureHTTPInvalidRedirectLocationHost \<equiv> ''http_invalid_redirect_location_host''"
abbreviation FailureInterrupted :: string where "FailureInterrupted \<equiv> ''interrupted''"
abbreviation FailureInvalidArgument :: string where "FailureInvalidArgument \<equiv> ''invalid_argument''"
abbreviation FailureJSONParseError :: string where "FailureJSONParseError \<equiv> ''json_parse_error''"
abbreviation FailureMessageSize :: string where "FailureMessageSize \<equiv> ''message_size''"
abbreviation FailureNetworkDown :: string where "FailureNetworkDown \<equiv> ''network_down''"
abbreviation FailureNetworkReset :: string where "FailureNetworkReset \<equiv> ''network_reset''"
abbreviation FailureNoBufferSpace :: string where "FailureNoBufferSpace \<equiv> ''no_buffer_space''"
abbreviation FailureNoProtocolOption :: string where "FailureNoProtocolOption \<equiv> ''no_protocol_option''"
abbreviation FailureNotASocket :: string where "FailureNotASocket \<equiv> ''not_a_socket''"
abbreviation FailureNotConnected :: string where "FailureNotConnected \<equiv> ''not_connected''"
abbreviation FailureOperationWouldBlock :: string where "FailureOperationWouldBlock \<equiv> ''operation_would_block''"
abbreviation FailurePermissionDenied :: string where "FailurePermissionDenied \<equiv> ''permission_denied''"
abbreviation FailureProtocolNotSupported :: string where "FailureProtocolNotSupported \<equiv> ''protocol_not_supported''"
abbreviation FailureQUICIncompatibleVersion :: string where "FailureQUICIncompatibleVersion \<equiv> ''quic_incompatible_version''"
abbreviation FailureSSLFailedHandshake :: string where "FailureSSLFailedHandshake \<equiv> ''ssl_failed_handshake''"
abbreviation FailureSSLInvalidCertificate :: string where "FailureSSLInvalidCertificate \<equiv> ''ssl_invalid_certificate''"
abbreviation FailureSSLInvalidHostname :: string where "FailureSSLInvalidHostname \<equiv> ''ssl_invalid_hostname''"
abbreviation FailureSSLUnknownAuthority :: string where "FailureSSLUnknownAuthority \<equiv> ''ssl_unknown_authority''"
abbreviation FailureTimedOut :: string where "FailureTimedOut \<equiv> ''timed_out''"
abbreviation FailureWrongProtocolType :: string where "FailureWrongProtocolType \<equiv> ''wrong_protocol_type''"
abbreviation FailureUnknown :: string where "FailureUnknown \<equiv> ''unknown_failure''"

definition failuresMap :: "(string, string) gomap" where
  "failuresMap = map (\<lambda>failure. (failure, failure)) [
     ''address_family_not_supported'', ''address_in_use'', ''address_not_available'', ''already_connected'',
     ''android_dns_cache_no_data'', ''bad_address'', ''bad_file_descriptor'', ''connection_aborted'',
     ''connection_already_closed'', ''connection_already_in_progress'', ''connection_refused'', ''connection_reset'',
     ''destination_address_required'', ''dns_bogon_error'', ''dns_no_answer'', ''dns_non_recoverable_failure'',
     ''dns_nxdomain_error'', ''dns_refused_error'', ''dns_reply_with_wrong_query_id'', ''dns_server_misbehaving'',
     ''dns_servfail_error'', ''dns_temporary_failure'', ''eof_error'', ''generic_timeout_error'',
     ''host_unreachable'', ''http_invalid_redirect_location_host'', ''interrupted'', ''invalid_argument'',
     ''json_parse_error'', ''message_size'', ''network_down'', ''network_reset'',
     ''network_unreachable'', ''no_buffer_space'', ''no_protocol_option'', ''not_a_socket'',
     ''not_connected'', ''operation_would_block'', ''permission_denied'', ''protocol_not_supported'',
     ''quic_incompatible_version'', ''ssl_failed_handshake'', ''ssl_invalid_certificate'', ''ssl_invalid_hostname'',
     ''ssl_unknown_authority'', ''timed_out'', ''wrong_protocol_type'']"

abbreviation ResolveOperation :: string where "ResolveOperation \<equiv> ''resolve''"
abbreviation ConnectOperation :: string where "ConnectOperation \<equiv> ''connect''"
abbreviation DNSRoundTripOperation :: string where "DNSRoundTripOperation \<equiv> ''dns_round_trip''"
abbreviation TLSHandshakeOperation :: string where "TLSHandshakeOperation \<equiv> ''tls_handshake''"
abbreviation QUICHandshakeOperation :: string where "QUICHandshakeOperation \<equiv> ''quic_handshake''"
abbreviation QUICListenOperation :: string where "QUICListenOperation \<equiv> ''quic_listen''"
abbreviation HTTPRoundTripOperation :: string where "HTTPRoundTripOperation \<equiv> ''http_round_trip''"
abbreviation CloseOperation :: string where "CloseOperation \<equiv> ''close''"
abbreviation ReadOperation :: string where "ReadOperation \<equiv> ''read''"
abbreviation WriteOperation :: string where "WriteOperation \<equiv> ''write''"
abbreviation ReadFromOperation :: string where "ReadFromOperation \<equiv> ''read_from''"
abbreviation WriteToOperation :: string where "WriteToOperation \<equiv> ''write_to''"
abbreviation UnknownOperation :: string where "UnknownOperation \<equiv> ''unknown''"
abbreviation TopLevelOperation :: string where "TopLevelOperation \<equiv> ''top_level''"

section \<open>Errors\<close>

datatype errno =
    ECONNREFUSED | ECONNRESET | EHOSTUNREACH | ETIMEDOUT | EAFNOSUPPORT | EADDRINUSE | EADDRNOTAVAIL
  | EISCONN | EFAULT | EBADF | ECONNABORTED | EALREADY | EDESTADDRREQ | EINTR
  | EINVAL | EMSGSIZE | ENETDOWN | ENETRESET | ENETUNREACH | ENOBUFS | ENOPROTOOPT
  | ENOTSOCK | ENOTCONN | EWOULDBLOCK | EACCES | EPROTONOSUPPORT | EPROTOTYPE
  | OtherErrno int

text \<open>The errors of the package that are compared by identity, and \<open>context.Canceled\<close>.\<close>

datatype sentinel =
    ContextCanceled | SentinelDNSBogon | ErrOODNSRefused | ErrOODNSServfail | ErrDNSReplyWithWrongQueryID
  | ErrAndroidDNSCacheNoData | IoEOF | IoErrUnexpectedEOF

text \<open>
  The dynamic types that the classifiers look for. An \<open>ErrWrapper\<close> has its failure and operation, a
  QUIC transport error its code and message, and a \<open>net.OpError\<close> says whether it is a timeout.
\<close>

datatype err_kind =
    OtherError | Sentinel sentinel | Errno errno
  | KErrWrapper string string
  | VersionNegotiationError | StatelessResetError | HandshakeTimeoutError | IdleTimeoutError
  | TransportError "64 word" string
  | HostnameError | UnknownAuthorityError | CertificateInvalidError
  | OpError bool

datatype go_error = GoError err_kind string "go_error list"

fun err_chain :: "go_error \<Rightarrow> err_kind list" where
  "err_chain (GoError kind txt causes) = kind # concat (map err_chain causes)"

definition errors_As :: "(err_kind \<Rightarrow> 'a option) \<Rightarrow> go_error \<Rightarrow> 'a option" where
  "errors_As sel err = (case List.map_filter sel (err_chain err) of [] \<Rightarrow> None | x # _ \<Rightarrow> Some x)"

definition errors_Is :: "err_kind \<Rightarrow> go_error \<Rightarrow> bool" where
  "errors_Is kind err \<longleftrightarrow> kind \<in> set (err_chain err)"

fun err_Error :: "go_error \<Rightarrow> string" where
  "err_Error (GoError (KErrWrapper failure operation) txt causes) = failure"
| "err_Error (GoError kind txt causes) = txt"

fun as_wrapper :: "err_kind \<Rightarrow> (string \<times> string) option" where
  "as_wrapper (KErrWrapper failure operation) = Some (failure, operation)"
| "as_wrapper kind = None"

fun as_errno :: "err_kind \<Rightarrow> errno option" where
  "as_errno (Errno errno) = Some errno"
| "as_errno kind = None"

fun as_transport :: "err_kind \<Rightarrow> (64 word \<times> string) option" where
  "as_transport (TransportError code message) = Some (code, message)"
| "as_transport kind = None"

section \<open>Classification\<close>

fun errno_failure :: "errno \<Rightarrow> string" where
  "errno_failure ECONNREFUSED = FailureConnectionRefused"
| "errno_failure ECONNRESET = FailureConnectionReset"
| "errno_failure EHOSTUNREACH = FailureHostUnreachable"
| "errno_failure ETIMEDOUT = FailureTimedOut"
| "errno_failure EAFNOSUPPORT = FailureAddressFamilyNotSupported"
| "errno_failure EADDRINUSE = FailureAddressInUse"
| "errno_failure EADDRNOTAVAIL = FailureAddressNotAvailable"
| "errno_failure EISCONN = FailureAlreadyConnected"
| "errno_failure EFAULT = FailureBadAddress"
| "errno_failure EBADF = FailureBadFileDescriptor"
| "errno_failure ECONNABORTED = FailureConnectionAborted"
| "errno_failure EALREADY = FailureConnectionAlreadyInProgress"
| "errno_failure EDESTADDRREQ = FailureDestinationAddressRequired"
| "errno_failure EINTR = FailureInterrupted"
| "errno_failure EINVAL = FailureInvalidArgument"
| "errno_failure EMSGSIZE = FailureMessageSize"
| "errno_failure ENETDOWN = FailureNetworkDown"
| "errno_failure ENETRESET = FailureNetworkReset"
| "errno_failure ENETUNREACH = FailureNetworkUnreachable"
| "errno_failure ENOBUFS = FailureNoBufferSpace"
| "errno_failure ENOPROTOOPT = FailureNoProtocolOption"
| "errno_failure ENOTSOCK = FailureNotASocket"
| "errno_failure ENOTCONN = FailureNotConnected"
| "errno_failure EWOULDBLOCK = FailureOperationWouldBlock"
| "errno_failure EACCES = FailurePermissionDenied"
| "errno_failure EPROTONOSUPPORT = FailureProtocolNotSupported"
| "errno_failure EPROTOTYPE = FailureWrongProtocolType"
| "errno_failure (OtherErrno n) = ''''"

definition classifySyscallError :: "go_error \<Rightarrow> string" where
  "classifySyscallError err = (case errors_As as_errno err of None \<Rightarrow> '''' | Some errno \<Rightarrow> errno_failure errno)"

definition has_suffix :: "string \<Rightarrow> string \<Rightarrow> bool" where
  "has_suffix s suffix \<longleftrightarrow> drop (length s - length suffix) s = suffix \<and> length suffix \<le> length s"

abbreviation DNSNoSuchHostSuffix :: string where "DNSNoSuchHostSuffix \<equiv> ''no such host''"
abbreviation DNSServerMisbehavingSuffix :: string where "DNSServerMisbehavingSuffix \<equiv> ''server misbehaving''"
abbreviation DNSNoAnswerSuffix :: string where "DNSNoAnswerSuffix \<equiv> ''no answer from DNS server''"

definition classifyWithStringSuffix :: "go_error \<Rightarrow> string" where
  "classifyWithStringSuffix err =
     (let s = err_Error err in
      if has_suffix s ''operation was canceled'' then FailureInterrupted
      else if has_suffix s ''EOF'' then FailureEOFError
      else if has_suffix s ''context deadline exceeded'' then FailureGenericTimeoutError
      else if has_suffix s ''transaction is timed out'' then FailureGenericTimeoutError
      else if has_suffix s ''i/o timeout'' then FailureGenericTimeoutError
      else if has_suffix s ''TLS handshake timeout'' then FailureGenericTimeoutError
      else if has_suffix s DNSNoSuchHostSuffix then FailureDNSNXDOMAINError
      else if has_suffix s DNSServerMisbehavingSuffix then FailureDNSServerMisbehaving
      else if has_suffix s DNSNoAnswerSuffix then FailureDNSNoAnswer
      else if has_suffix s ''use of closed network connection'' then FailureConnectionAlreadyClosed
      else '''')"

definition ClassifyGenericError :: "go_error \<Rightarrow> string" where
  "ClassifyGenericError err =
     (case errors_As as_wrapper err of
        Some (failure, _) \<Rightarrow> failure
      | None \<Rightarrow>
          let failure = classifySyscallError err in
          if failure \<noteq> '''' then failure
          else if errors_Is (Sentinel ContextCanceled) err then FailureInterrupted
          else let failure = classifyWithStringSuffix err in
          if failure \<noteq> '''' then failure
          else if err_Error err = FailureUnknown then FailureUnknown
          else let formatted = FailureUnknown @ '': '' @ err_Error err in ScrubString formatted)"

definition quicIsCertificateError :: "8 word \<Rightarrow> bool" where
  "quicIsCertificateError alert \<longleftrightarrow> alert = 42 \<or> alert = 43 \<or> alert = 45 \<or> alert = 44 \<or> alert = 46"

definition ClassifyQUICHandshakeError :: "64 word \<Rightarrow> 64 word \<Rightarrow> go_error \<Rightarrow> string" where
  "ClassifyQUICHandshakeError quic_ConnectionRefused quic_InternalError err =
     (case errors_As as_wrapper err of
        Some (failure, _) \<Rightarrow> failure
      | None \<Rightarrow>
          if errors_Is VersionNegotiationError err then FailureQUICIncompatibleVersion
          else if errors_Is StatelessResetError err then FailureConnectionReset
          else if errors_Is HandshakeTimeoutError err then FailureGenericTimeoutError
          else if errors_Is IdleTimeoutError err then FailureGenericTimeoutError
          else case errors_As as_transport err of
            None \<Rightarrow> ClassifyGenericError err
          | Some (code, message) \<Rightarrow>
              if code = quic_ConnectionRefused then FailureConnectionRefused
              else let errCode = (ucast code :: 8 word) in
              if quicIsCertificateError errCode then FailureSSLInvalidCertificate
              else if errCode = 51 \<or> errCode = 40 then FailureSSLFailedHandshake
              else if errCode = 48 then FailureSSLUnknownAuthority
              else if errCode = 112 then FailureSSLInvalidHostname
              else case (if code = quic_InternalError then gmap_get failuresMap message else None) of
                Some s \<Rightarrow> if s \<noteq> '''' then s else ClassifyGenericError err
              | None \<Rightarrow> ClassifyGenericError err)"

definition ClassifyResolverError :: "go_error \<Rightarrow> string" where
  "ClassifyResolverError err =
     (case errors_As as_wrapper err of
        Some (failure, _) \<Rightarrow> failure
      | None \<Rightarrow>
          if errors_Is (Sentinel SentinelDNSBogon) err then FailureDNSBogonError
          else if errors_Is (Sentinel ErrOODNSRefused) err then FailureDNSRefusedError
          else if errors_Is (Sentinel ErrOODNSServfail) err then FailureDNSServfailError
          else if errors_Is (Sentinel ErrDNSReplyWithWrongQueryID) err then FailureDNSReplyWithWrongQueryID
          else if errors_Is (Sentinel ErrAndroidDNSCacheNoData) err then FailureAndroidDNSCacheNoData
          else ClassifyGenericError err)"

definition ClassifyTLSHandshakeError :: "go_error \<Rightarrow> string" where
  "ClassifyTLSHandshakeError err =
     (case errors_As as_wrapper err of
        Some (failure, _) \<Rightarrow> failure
      | None \<Rightarrow>
          if errors_Is HostnameError err then FailureSSLInvalidHostname
          else if errors_Is UnknownAuthorityError err then FailureSSLUnknownAuthority
          else if errors_Is CertificateInvalidError err then FailureSSLInvalidCertificate
          else if has_suffix (err_Error err) ''tls: unrecognized name'' then FailureSSLInvalidHostname
          else if has_suffix (err_Error err) ''tls: alert(112)'' then FailureSSLInvalidHostname
          else ClassifyGenericError err)"

section \<open>Wrapping\<close>

type_synonym classifier = "go_error \<Rightarrow> string"

text \<open>The value \<open>&ErrWrapper{...}\<close>.\<close>

definition err_wrapper :: "string \<Rightarrow> string \<Rightarrow> go_error \<Rightarrow> go_error" where
  "err_wrapper failure operation err = GoError (KErrWrapper failure operation) failure [err]"

definition classifyOperation :: "string \<Rightarrow> string \<Rightarrow> string" where
  "classifyOperation ew_operation operation =
     (if ew_operation = ConnectOperation then ew_operation
      else if ew_operation = HTTPRoundTripOperation then ew_operation
      else if ew_operation = ResolveOperation then ew_operation
      else if ew_operation = TLSHandshakeOperation then ew_operation
      else if ew_operation = QUICHandshakeOperation then ew_operation
      else if ew_operation = ''quic_handshake_start'' then QUICHandshakeOperation
      else if ew_operation = ''quic_handshake_done'' then QUICHandshakeOperation
      else operation)"

text \<open>A nil classifier and a nil error are \<open>None\<close>; the outer \<open>None\<close> is a panic.\<close>

definition NewErrWrapper :: "classifier option \<Rightarrow> string \<Rightarrow> go_error option \<Rightarrow> go_error option" where
  "NewErrWrapper c op err =
     (case Option.bind err (errors_As as_wrapper) of
        Some (failure, operation) \<Rightarrow> map_option (err_wrapper failure (classifyOperation operation op)) err
      | None \<Rightarrow>
          do { c \<leftarrow> c;
               if op = '''' then None
               else do { err \<leftarrow> err; Some (err_wrapper (c err) op err) } })"

definition MaybeNewErrWrapper :: "classifier option \<Rightarrow> string \<Rightarrow> go_error option \<Rightarrow> go_error option option" where
  "MaybeNewErrWrapper c op err =
     (if err \<noteq> None then map_option Some (NewErrWrapper c op err) else Some None)"

definition NewTopLevelGenericErrWrapper :: "go_error option \<Rightarrow> go_error option" where
  "NewTopLevelGenericErrWrapper err = NewErrWrapper (Some ClassifyGenericError) TopLevelOperation err"

section \<open>Failures of archival data\<close>

definition empty_failure :: string where
  "empty_failure = ''unknown_failure: errWrapper.Failure is empty''"

text \<open>The failure of the wrapper that the two functions below end up with; \<open>None\<close> is the panic.\<close>

definition wrapped_failure :: "go_error \<Rightarrow> string option" where
  "wrapped_failure err =
     do { (failure, _) \<leftarrow> (case errors_As as_wrapper err of
            Some w \<Rightarrow> Some w
          | None \<Rightarrow> do { e \<leftarrow> NewTopLevelGenericErrWrapper (Some err); errors_As as_wrapper e });
          Some (if failure = '''' then empty_failure else failure) }"

definition NewFailure :: "go_error option \<Rightarrow> string option option" where
  "NewFailure err = (case err of None \<Rightarrow> Some None | Some err \<Rightarrow> map_option Some (wrapped_failure err))"

definition NewFailureStr :: "go_error option \<Rightarrow> string option" where
  "NewFailureStr err = (case err of None \<Rightarrow> Some '''' | Some err \<Rightarrow> wrapped_failure err)"

definition ToFailure :: "string \<Rightarrow> string option" where
  "ToFailure fs = (if fs \<noteq> '''' then Some fs else None)"

definition tracex_NewFailure :: "go_error option \<Rightarrow> string option option" where
  "tracex_NewFailure err = map_option ToFailure (NewFailureStr err)"

section \<open>Lemmas\<close>

lemma errors_As_wrapper [simp]: "errors_As as_wrapper (err_wrapper failure operation err) = Some (failure, operation)"
  by (simp add: errors_As_def err_wrapper_def)

lemma err_Error_wrapper [simp]: "err_Error (err_wrapper failure operation err) = failure"
  by (simp add: err_wrapper_def)

lemma NewErrWrapper_first:
  "errors_As as_wrapper err = None \<Longrightarrow> op \<noteq> '''' \<Longrightarrow>
     NewErrWrapper (Some c) op (Some err) = Some (err_wrapper (c err) op err)"
  by (simp add: NewErrWrapper_def)

lemma NewErrWrapper_again:
  "errors_As as_wrapper err = Some (failure, operation) \<Longrightarrow>
     NewErrWrapper c op (Some err) = Some (err_wrapper failure (classifyOperation operation op) err)"
  by (simp add: NewErrWrapper_def)

text \<open>The classifiers do not classify a wrapped error again.\<close>

lemma classify_wrapped:
  assumes "errors_As as_wrapper err = Some (failure, operation)"
  shows "ClassifyGenericError err = failure" "ClassifyQUICHandshakeError refused internal err = failure"
    "ClassifyResolverError err = failure" "ClassifyTLSHandshakeError err = failure"
  using assms by (simp_all add: ClassifyGenericError_def ClassifyQUICHandshakeError_def ClassifyResolverError_def
      ClassifyTLSHandshakeError_def)

definition major_operation :: "string \<Rightarrow> bool" where
  "major_operation op \<longleftrightarrow> op \<in> {ConnectOperation, HTTPRoundTripOperation, ResolveOperation, TLSHandshakeOperation,
     QUICHandshakeOperation}"

definition legacy_operation :: "string \<Rightarrow> bool" where
  "legacy_operation op \<longleftrightarrow> op \<in> {''quic_handshake_start'', ''quic_handshake_done''}"

lemma classifyOperation_eq:
  "\<not> legacy_operation op \<Longrightarrow> classifyOperation op op' = (if major_operation op then op else op')"
  by (auto simp: classifyOperation_def major_operation_def legacy_operation_def)

text \<open>An error that goes up through several layers, each of which wraps it.\<close>

fun wrap_all :: "(classifier \<times> string) list \<Rightarrow> go_error \<Rightarrow> go_error option" where
  "wrap_all [] err = Some err"
| "wrap_all ((c, op) # layers) err = do { e \<leftarrow> NewErrWrapper (Some c) op (Some err); wrap_all layers e }"

definition blamed_operation :: "string list \<Rightarrow> string" where
  "blamed_operation ops = (case find major_operation ops of Some op \<Rightarrow> op | None \<Rightarrow> last ops)"

lemma blamed_operation_Cons:
  "blamed_operation (op # op' # ops) = blamed_operation ((if major_operation op then op else op') # ops)"
  by (simp add: blamed_operation_def split: option.split)

lemma wrap_all_again:
  assumes "errors_As as_wrapper err = Some (failure, operation)"
    and "\<forall>op \<in> set (operation # map snd layers). \<not> legacy_operation op"
  shows "\<exists>e. wrap_all layers err = Some e \<and>
    errors_As as_wrapper e = Some (failure, blamed_operation (operation # map snd layers))"
  using assms
proof (induction layers arbitrary: err operation)
  case Nil
  then show ?case by (simp add: blamed_operation_def)
next
  case (Cons layer layers)
  obtain c op where layer: "layer = (c, op)" by (cases layer)
  let ?op = "if major_operation operation then operation else op"
  let ?e = "err_wrapper failure ?op err"
  have "NewErrWrapper (Some c) op (Some err) = Some ?e"
    using NewErrWrapper_again [OF Cons.prems(1)] Cons.prems(2) by (simp add: classifyOperation_eq)
  moreover have "\<forall>op \<in> set (?op # map snd layers). \<not> legacy_operation op" using Cons.prems(2) layer by auto
  ultimately show ?case
    using Cons.IH [of ?e ?op] blamed_operation_Cons by (simp add: layer)
qed

section \<open>Properties\<close>

text \<open>
  C26: An error is classified once. However many layers wrap it, each with its own classifier and
  operation, the failure is the one that the first layer computed, which is also the text of the
  error and what every classifier returns for it; the operation that is blamed is the first major
  operation or, if no layer has one, the operation of the last layer.
\<close>

theorem wrapping_classifies_once:
  assumes "errors_As as_wrapper err = None" and "op \<noteq> ''''"
    and "\<forall>o' \<in> set (op # map snd layers). \<not> legacy_operation o'"
  shows "\<exists>e. wrap_all ((c, op) # layers) err = Some e \<and>
    errors_As as_wrapper e = Some (c err, blamed_operation (op # map snd layers)) \<and>
    ClassifyGenericError e = c err \<and> ClassifyQUICHandshakeError refused internal e = c err \<and>
    ClassifyResolverError e = c err \<and> ClassifyTLSHandshakeError e = c err"
proof -
  obtain e where "wrap_all layers (err_wrapper (c err) op err) = Some e"
      "errors_As as_wrapper e = Some (c err, blamed_operation (op # map snd layers))"
    using wrap_all_again [OF errors_As_wrapper assms(3)] by blast
  with assms(1,2) show ?thesis by (auto simp: NewErrWrapper_first classify_wrapped)
qed

definition connection_reset_error :: go_error where
  "connection_reset_error = GoError OtherError ''read tcp: connection reset by peer'' [GoError (Errno ECONNRESET) ''connection reset by peer'' []]"

theorem wrapping_classifies_once_witness:
  "\<exists>e. wrap_all [(ClassifyGenericError, ReadOperation), (ClassifyTLSHandshakeError, TLSHandshakeOperation),
       (ClassifyGenericError, HTTPRoundTripOperation)] connection_reset_error = Some e \<and>
     errors_As as_wrapper e = Some (FailureConnectionReset, TLSHandshakeOperation)"
proof -
  have "errors_As as_wrapper connection_reset_error = None"
    "ClassifyGenericError connection_reset_error = FailureConnectionReset"
    by (simp_all add: connection_reset_error_def errors_As_def ClassifyGenericError_def classifySyscallError_def)
  moreover have "blamed_operation [ReadOperation, TLSHandshakeOperation, HTTPRoundTripOperation] = TLSHandshakeOperation"
    by (simp add: blamed_operation_def major_operation_def)
  ultimately show ?thesis
    using wrapping_classifies_once [of connection_reset_error ReadOperation
        "[(ClassifyTLSHandshakeError, TLSHandshakeOperation), (ClassifyGenericError, HTTPRoundTripOperation)]" ClassifyGenericError]
    by (auto simp: legacy_operation_def)
qed

text \<open>The strings that a classifier returns for an error that was not wrapped yet.\<close>

definition known_failure :: "string \<Rightarrow> bool" where
  "known_failure s \<longleftrightarrow> List.member (gmap_keys failuresMap) s"

definition failure_string :: "string \<Rightarrow> bool" where
  "failure_string s \<longleftrightarrow> known_failure s \<or> has_prefix s FailureUnknown"

lemma failures_documented: "list_all known_failure [
    FailureInterrupted, FailureEOFError, FailureGenericTimeoutError, FailureDNSNXDOMAINError,
    FailureDNSServerMisbehaving, FailureDNSNoAnswer, FailureConnectionAlreadyClosed, FailureQUICIncompatibleVersion,
    FailureConnectionReset, FailureConnectionRefused, FailureSSLInvalidCertificate, FailureSSLFailedHandshake,
    FailureSSLUnknownAuthority, FailureSSLInvalidHostname, FailureDNSBogonError, FailureDNSRefusedError,
    FailureDNSServfailError, FailureDNSReplyWithWrongQueryID, FailureAndroidDNSCacheNoData]"
  by code_simp

lemmas documented = failures_documented [unfolded list.pred_inject]

lemma errno_failure_documented: "errno_failure errno = '''' \<or> known_failure (errno_failure errno)"
proof (cases errno)
  case (OtherErrno n)
  then show ?thesis by simp
qed (simp_all add: known_failure_def failuresMap_def FailureHostUnreachable_def FailureNetworkUnreachable_def)

lemma unknown_failure_prefix: "has_prefix (ScrubString (FailureUnknown @ '': '' @ s)) FailureUnknown"
proof -
  have "list_all (\<lambda>c. c \<in> set word_chars) FailureUnknown" by code_simp
  then have "set FailureUnknown \<subseteq> set word_chars" by (auto simp only: list_all_iff)
  moreover have "CHR ''u'' \<notin> set address_chars" by code_simp
  ultimately obtain t where "ScrubString (FailureUnknown @ '': '' @ s) = FailureUnknown @ t"
    using ScrubString_word [of FailureUnknown "'': '' @ s"] by auto
  then show ?thesis by (simp add: has_prefix_def)
qed

lemma suffix_failure: "classifyWithStringSuffix err = '''' \<or> failure_string (classifyWithStringSuffix err)"
  by (simp add: classifyWithStringSuffix_def failure_string_def documented Let_def)

lemma generic_failure_string:
  "errors_As as_wrapper err = None \<Longrightarrow> failure_string (ClassifyGenericError err)"
  using errno_failure_documented suffix_failure [of err] unknown_failure_prefix
  by (auto simp: ClassifyGenericError_def classifySyscallError_def failure_string_def documented Let_def has_prefix_def
      split: option.splits)

lemma failure_string_nonempty: "failure_string s \<Longrightarrow> s \<noteq> ''''"
proof -
  have "\<not> failure_string ''''" by code_simp
  then show "failure_string s \<Longrightarrow> s \<noteq> ''''" by auto
qed

lemma failuresMap_identity: "gmap_get failuresMap message = Some s \<Longrightarrow> known_failure s"
  by (force simp: known_failure_def failuresMap_def dest!: map_of_SomeD)

text \<open>
  Every classifier maps an error that was not wrapped yet to one of the failures of the table or
  to a string that starts with the marker of an unknown failure; the result is never empty. This
  includes the message of a QUIC transport error, which is used only when it is a failure of the
  table.
\<close>

theorem classifiers_return_failures:
  assumes "errors_As as_wrapper err = None"
  shows "failure_string (ClassifyGenericError err) \<and> failure_string (ClassifyResolverError err) \<and>
    failure_string (ClassifyTLSHandshakeError err) \<and>
    failure_string (ClassifyQUICHandshakeError refused internal err)"
proof -
  note generic = generic_failure_string [OF assms]
  moreover have "failure_string (ClassifyResolverError err)" "failure_string (ClassifyTLSHandshakeError err)"
    using assms generic
    by (simp_all add: ClassifyResolverError_def ClassifyTLSHandshakeError_def failure_string_def documented)
  moreover have "failure_string (ClassifyQUICHandshakeError refused internal err)"
    using assms generic
    by (auto simp: ClassifyQUICHandshakeError_def failure_string_def documented Let_def dest: failuresMap_identity
        split: option.splits)
  ultimately show ?thesis by simp
qed

theorem classifiers_return_failures_witness:
  "failure_string (ClassifyTLSHandshakeError connection_reset_error)"
  using classifiers_return_failures [of connection_reset_error]
  by (simp add: connection_reset_error_def errors_As_def)

lemma wrapped_failure_eq:
  "wrapped_failure err =
     (let failure = (case errors_As as_wrapper err of Some (failure, _) \<Rightarrow> failure | None \<Rightarrow> ClassifyGenericError err)
      in Some (if failure = '''' then empty_failure else failure))"
  by (auto simp: wrapped_failure_def NewTopLevelGenericErrWrapper_def NewErrWrapper_first Let_def split: option.split)

text \<open>
  The conversion of an error to an archival failure never panics, gives a null failure for the
  nil error only and never an empty string, and the function of the measurement library and the one
  of the legacy tracing library agree on every error.
\<close>

theorem new_failure_total:
  "NewFailure err = tracex_NewFailure err \<and>
   (case err of
      None \<Rightarrow> NewFailure err = Some None
    | Some e \<Rightarrow> \<exists>s. NewFailure err = Some (Some s) \<and> s \<noteq> '''' \<and>
        (\<forall>failure operation. errors_As as_wrapper e = Some (failure, operation) \<longrightarrow> failure \<noteq> '''' \<longrightarrow> s = failure) \<and>
        (errors_As as_wrapper e = None \<longrightarrow> s = ClassifyGenericError e))"
proof (cases err)
  case None
  then show ?thesis by (simp add: NewFailure_def tracex_NewFailure_def NewFailureStr_def ToFailure_def)
next
  case (Some e)
  have "empty_failure \<noteq> ''''" by (simp add: empty_failure_def)
  moreover have "ClassifyGenericError e \<noteq> ''''" if "errors_As as_wrapper e = None"
    using failure_string_nonempty [OF generic_failure_string [OF that]] .
  ultimately show ?thesis
    using Some
    by (cases "errors_As as_wrapper e")
      (auto simp: NewFailure_def tracex_NewFailure_def NewFailureStr_def ToFailure_def wrapped_failure_eq)
qed

theorem new_failure_total_witness:
  "NewFailure (Some connection_reset_error) = Some (Some FailureConnectionReset)"
proof -
  have "errors_As as_wrapper connection_reset_error = None"
    "ClassifyGenericError connection_reset_error = FailureConnectionReset"
    by (simp_all add: connection_reset_error_def errors_As_def ClassifyGenericError_def classifySyscallError_def)
  then show ?thesis using new_failure_total [of "Some connection_reset_error"] by auto
qed

end
