(* ===== verification/DnsMessages.thy ===== *)
theory DnsMessages
  imports NetErrors Bogon
begin

unbundle bit_operations_syntax

text \<open>
  DNS queries, responses and transports of \<open>internal/netxlite\<close>: the encoder and the decoder
  (\<open>dnsencoder.go\<close>, \<open>dnsdecoder.go\<close>), the error wrapping transport (\<open>dnstransport.go\<close>) and the transports
  over HTTPS, TCP or TLS, UDP and \<open>getaddrinfo\<close>. A transport is a function from a query to an error or a
  response. The wire format is the business of the \<open>miekg/dns\<close> library, whose \<open>Pack\<close>, \<open>Unpack\<close>, \<open>Len\<close> and
  \<open>Fqdn\<close> are arguments; so are the HTTP client, the connections and the operating system's resolver.
  A race between a context and an I/O operation is decided by an argument: \<open>Some e\<close> when the context
  ends first, with \<open>e\<close> the error of the context.

  The properties: a padded query fills whole blocks, the framing of DNS over TCP is what a server
  reads back and the reply it frames is the reply that is decoded, the decoder returns exactly the
  addresses of the type that was asked for or a classified error, a transport never returns a
  reply to another query, and the UDP transport closes its connection once on every path.
\<close>

type_synonym bytes = "8 word list"

section \<open>Errors and input\<close>

text \<open>\<open>errors.New\<close>, for an error that is not compared by identity.\<close>

definition new_error :: "string \<Rightarrow> go_error" where
  "new_error txt = GoError OtherError txt []"

definition sentinel_error :: "sentinel \<Rightarrow> string \<Rightarrow> go_error" where
  "sentinel_error s txt = GoError (Sentinel s) txt []"

definition ErrOODNSNoSuchHost :: go_error where
  "ErrOODNSNoSuchHost = new_error (''ooniresolver: '' @ DNSNoSuchHostSuffix)"

definition ErrOODNSMisbehaving :: go_error where
  "ErrOODNSMisbehaving = new_error (''ooniresolver: '' @ DNSServerMisbehavingSuffix)"

definition ErrOODNSNoAnswer :: go_error where
  "ErrOODNSNoAnswer = new_error (''ooniresolver: '' @ DNSNoAnswerSuffix)"

definition ErrNoDNSTransport :: go_error where
  "ErrNoDNSTransport = new_error ''operation requires a DNS transport''"

definition ErrDNSIsQuery :: go_error where
  "ErrDNSIsQuery = new_error ''ooresolver: expected response but received query''"

definition errQueryTooLarge :: go_error where
  "errQueryTooLarge = new_error ''oodns: query too large for this transport''"

definition io_EOF :: go_error where
  "io_EOF = sentinel_error IoEOF ''EOF''"

definition io_ErrUnexpectedEOF :: go_error where
  "io_ErrUnexpectedEOF = sentinel_error IoErrUnexpectedEOF ''unexpected EOF''"

text \<open>
  \<open>NewErrWrapper\<close> with a classifier and an operation that the source spells out: it cannot panic
  (\<open>wrap_error_eq\<close>).
\<close>

definition wrap_error :: "classifier \<Rightarrow> string \<Rightarrow> go_error \<Rightarrow> go_error" where
  "wrap_error c op err = (case NewErrWrapper (Some c) op (Some err) of Some e \<Rightarrow> e | None \<Rightarrow> err)"

lemma wrap_error_eq: "op \<noteq> '''' \<Longrightarrow> NewErrWrapper (Some c) op (Some err) = Some (wrap_error c op err)"
  by (auto simp: wrap_error_def NewErrWrapper_def split: option.split)

definition is_wrapped :: "go_error \<Rightarrow> bool" where
  "is_wrapped err \<longleftrightarrow> errors_As as_wrapper err \<noteq> None"

lemma wrap_error_wrapped [simp]: "op \<noteq> '''' \<Longrightarrow> is_wrapped (wrap_error c op err)"
  by (auto simp: wrap_error_def NewErrWrapper_def is_wrapped_def split: option.split)

lemma wrap_error_failure:
  assumes "op \<noteq> ''''"
  shows "errors_As as_wrapper (wrap_error c op err) =
    Some (case errors_As as_wrapper err of
            None \<Rightarrow> (c err, op) | Some (failure, operation) \<Rightarrow> (failure, classifyOperation operation op))"
  using assms by (auto simp: wrap_error_def NewErrWrapper_def split: option.split)

text \<open>
  A reader holds the bytes that will arrive and the error it ends with. \<open>io.ReadFull\<close> reads \<open>n\<close> bytes
  and leaves the rest.
\<close>

record reader =
  rd_data :: bytes
  rd_end :: go_error

definition ReadFull :: "nat \<Rightarrow> reader \<Rightarrow> go_error + bytes \<times> reader" where
  "ReadFull n r =
     (let data = rd_data r in
      if n \<le> length data then Inr (take n data, r\<lparr>rd_data := drop n data\<rparr>)
      else if data \<noteq> [] \<and> rd_end r = io_EOF then Inl io_ErrUnexpectedEOF
      else Inl (rd_end r))"

text \<open>\<open>ReadAllContext\<close> applied to an \<open>io.LimitReader\<close>.\<close>

definition read_all_limited :: "nat \<Rightarrow> reader \<Rightarrow> go_error + bytes" where
  "read_all_limited limit r =
     (if limit \<le> length (rd_data r) then Inr (take limit (rd_data r))
      else if errors_Is (Sentinel IoEOF) (rd_end r) then Inr (rd_data r)
      else Inl (rd_end r))"

definition ReadAllContext :: "go_error option \<Rightarrow> go_error + bytes \<Rightarrow> go_error + bytes" where
  "ReadAllContext ctx_done readall =
     (case ctx_done of
        Some e \<Rightarrow> Inl (wrap_error ClassifyGenericError TopLevelOperation e)
      | None \<Rightarrow> (case readall of
          Inl err \<Rightarrow> Inl (wrap_error ClassifyGenericError TopLevelOperation err)
        | Inr data \<Rightarrow> Inr data))"

section \<open>Addresses as text\<close>

text \<open>\<open>net.IP.String\<close>: dotted decimal, or groups with the first longest run of two or more zeros elided.\<close>

definition hex_char :: "nat \<Rightarrow> char" where
  "hex_char n = ''0123456789abcdef'' ! n"

fun hex_nat :: "nat \<Rightarrow> string" where
  "hex_nat n = (if n < 16 then [hex_char n] else hex_nat (n div 16) @ [hex_char (n mod 16)])"

declare hex_nat.simps [simp del]

fun ip_groups :: "nat list \<Rightarrow> nat list" where
  "ip_groups (a # b # bs) = (a * 256 + b) # ip_groups bs"
| "ip_groups bs = []"

definition zero_run :: "nat list \<Rightarrow> nat \<Rightarrow> nat" where
  "zero_run gs i = length (takeWhile (\<lambda>g. g = 0) (drop i gs))"

definition longest_zeros :: "nat list \<Rightarrow> (nat \<times> nat) option" where
  "longest_zeros gs =
     fold (\<lambda>i best. let l = zero_run gs i in
             if 2 \<le> l \<and> (case best of None \<Rightarrow> True | Some (_, n) \<Rightarrow> n < l) then Some (i, l) else best)
          [0 ..< length gs] None"

definition join_bytes :: "string \<Rightarrow> string list \<Rightarrow> string" where
  "join_bytes sep ss = (case ss of [] \<Rightarrow> '''' | s # ss \<Rightarrow> s @ concat (map (\<lambda>t. sep @ t) ss))"

definition v6_string :: "nat list \<Rightarrow> string" where
  "v6_string gs =
     (case longest_zeros gs of
        None \<Rightarrow> join_bytes '':'' (map hex_nat gs)
      | Some (i, l) \<Rightarrow> join_bytes '':'' (map hex_nat (take i gs)) @ ''::'' @ join_bytes '':'' (map hex_nat (drop (i + l) gs)))"

definition IP_String :: "ip \<Rightarrow> string" where
  "IP_String ip =
     (if ip = [] then ''<nil>''
      else case To4 ip of
        Some b \<Rightarrow> join_bytes ''.'' (map nat_digits b)
      | None \<Rightarrow>
          if length ip = 16 then v6_string (ip_groups ip)
          else ''?'' @ concat (map (\<lambda>b. [hex_char (b div 16), hex_char (b mod 16)]) ip))"

section \<open>Queries\<close>

abbreviation TypeA :: "16 word" where "TypeA \<equiv> 1"
abbreviation TypeNS :: "16 word" where "TypeNS \<equiv> 2"
abbreviation TypeAAAA :: "16 word" where "TypeAAAA \<equiv> 28"
abbreviation TypeHTTPS :: "16 word" where "TypeHTTPS \<equiv> 65"
abbreviation TypeANY :: "16 word" where "TypeANY \<equiv> 255"

record dnsQuery =
  q_domain :: string
  q_kind :: "16 word"
  q_id :: "16 word"
  q_memoizedBytes :: bytes
  q_padding :: bool

text \<open>The identifier is the random number that \<open>dns.Id\<close> draws.\<close>

definition Encode :: "16 word \<Rightarrow> string \<Rightarrow> 16 word \<Rightarrow> bool \<Rightarrow> dnsQuery" where
  "Encode qid domain qtype padding =
     \<lparr>q_domain = domain, q_kind = qtype, q_id = qid, q_memoizedBytes = [], q_padding = padding\<rparr>"

text \<open>The message that the encoder fills in, with the padding option as the number of its zero octets.\<close>

record query_msg =
  qm_Id :: "16 word"
  qm_RecursionDesired :: bool
  qm_Name :: string
  qm_Qtype :: "16 word"
  qm_Edns0 :: "(nat \<times> bool \<times> nat list) option"

text \<open>The \<open>uint\<close> arithmetic of the padding, which wraps around.\<close>

definition padding_remainder :: "nat \<Rightarrow> 64 word" where
  "padding_remainder len = (128 - (of_nat len + 4)) mod 128"

definition query_bytes ::
    "(query_msg \<Rightarrow> nat) \<Rightarrow> (query_msg \<Rightarrow> go_error + bytes) \<Rightarrow> (string \<Rightarrow> string) \<Rightarrow> dnsQuery \<Rightarrow> go_error + bytes" where
  "query_bytes msg_Len Pack Fqdn q =
     (let query = \<lparr>qm_Id = q_id q, qm_RecursionDesired = True, qm_Name = Fqdn (q_domain q), qm_Qtype = q_kind q,
                   qm_Edns0 = None\<rparr>;
          query = (if q_padding q
                   then let query = query\<lparr>qm_Edns0 := Some (4096, True, [])\<rparr>;
                            remainder = padding_remainder (msg_Len query)
                        in query\<lparr>qm_Edns0 := Some (4096, True, [unat remainder])\<rparr>
                   else query)
      in Pack query)"

text \<open>The memoizing \<open>Bytes\<close>; the query it leaves behind and its result.\<close>

definition query_Bytes ::
    "(query_msg \<Rightarrow> nat) \<Rightarrow> (query_msg \<Rightarrow> go_error + bytes) \<Rightarrow> (string \<Rightarrow> string) \<Rightarrow> dnsQuery \<Rightarrow>
     dnsQuery \<times> (go_error + bytes)" where
  "query_Bytes msg_Len Pack Fqdn q =
     (if q_memoizedBytes q = []
      then case query_bytes msg_Len Pack Fqdn q of
             Inl err \<Rightarrow> (q, Inl err)
           | Inr data \<Rightarrow> (q\<lparr>q_memoizedBytes := data\<rparr>, Inr data)
      else (q, Inr (q_memoizedBytes q)))"

section \<open>Responses\<close>

datatype svcb = SVCBAlpn "string list" | SVCBIPv4Hint "ip list" | SVCBIPv6Hint "ip list" | SVCBECHConfig bytes
  | SVCBOther

datatype dns_rr = RR_A ip | RR_AAAA ip | RR_NS string | RR_CNAME string | RR_HTTPS "svcb list" | RR_Other

record dns_Msg =
  msg_Response :: bool
  msg_Id :: "16 word"
  msg_Rcode :: int
  msg_Answer :: "dns_rr list"

record HTTPSSvc =
  ALPN :: "string list"
  IPv4 :: "string list"
  IPv6 :: "string list"
  Ech :: bytes

text \<open>The implementations of \<open>model.DNSResponse\<close>: a decoded message and the result of \<open>getaddrinfo\<close>.\<close>

datatype dns_response = DnsResponse (rs_bytes: bytes) (rs_msg: dns_Msg) (rs_query: dnsQuery)
  | GetaddrinfoResponse (rs_addrs: "string list") (rs_cname: string) (rs_query: dnsQuery)

abbreviation dnsDecoderWrapError :: "go_error \<Rightarrow> go_error" where
  "dnsDecoderWrapError \<equiv> wrap_error ClassifyResolverError ResolveOperation"

definition DecodeResponse :: "(bytes \<Rightarrow> go_error + dns_Msg) \<Rightarrow> bytes \<Rightarrow> dnsQuery \<Rightarrow> go_error + dns_response" where
  "DecodeResponse Unpack data query =
     (case Unpack data of
        Inl err \<Rightarrow> Inl (dnsDecoderWrapError err)
      | Inr reply \<Rightarrow>
          if \<not> msg_Response reply then Inl (dnsDecoderWrapError ErrDNSIsQuery)
          else if msg_Id reply \<noteq> q_id query
          then Inl (dnsDecoderWrapError (sentinel_error ErrDNSReplyWithWrongQueryID FailureDNSReplyWithWrongQueryID))
          else Inr (DnsResponse data reply query))"

definition rcodeToError :: "int \<Rightarrow> go_error option" where
  "rcodeToError rcode =
     (if rcode = 0 then None
      else if rcode = 3 then Some (dnsDecoderWrapError ErrOODNSNoSuchHost)
      else if rcode = 5 then Some (dnsDecoderWrapError (sentinel_error ErrOODNSRefused ''ooniresolver: refused''))
      else if rcode = 2 then Some (dnsDecoderWrapError (sentinel_error ErrOODNSServfail ''ooniresolver: servfail''))
      else Some (dnsDecoderWrapError ErrOODNSMisbehaving))"

fun svc_value :: "svcb \<Rightarrow> HTTPSSvc \<Rightarrow> HTTPSSvc" where
  "svc_value (SVCBAlpn alpn) out = out\<lparr>ALPN := alpn\<rparr>"
| "svc_value (SVCBIPv4Hint hint) out = out\<lparr>IPv4 := IPv4 out @ map IP_String hint\<rparr>"
| "svc_value (SVCBIPv6Hint hint) out = out\<lparr>IPv6 := IPv6 out @ map IP_String hint\<rparr>"
| "svc_value (SVCBECHConfig ech) out = out\<lparr>Ech := ech\<rparr>"
| "svc_value SVCBOther out = out"

fun svc_answer :: "dns_rr \<Rightarrow> HTTPSSvc \<Rightarrow> HTTPSSvc" where
  "svc_answer (RR_HTTPS values) out = fold svc_value values out"
| "svc_answer rr out = out"

definition msg_DecodeHTTPS :: "dns_Msg \<Rightarrow> go_error + HTTPSSvc" where
  "msg_DecodeHTTPS msg =
     (case rcodeToError (msg_Rcode msg) of
        Some err \<Rightarrow> Inl err
      | None \<Rightarrow>
          let out = fold svc_answer (msg_Answer msg) \<lparr>ALPN = [], IPv4 = [], IPv6 = [], Ech = []\<rparr>
          in if IPv4 out = [] \<and> IPv6 out = [] \<and> Ech out = [] then Inl (dnsDecoderWrapError ErrOODNSNoAnswer)
             else Inr out)"

fun answer_addr :: "16 word \<Rightarrow> dns_rr \<Rightarrow> string option" where
  "answer_addr kind (RR_A ip) = (if kind = TypeA then Some (IP_String ip) else None)"
| "answer_addr kind (RR_AAAA ip) = (if kind = TypeAAAA then Some (IP_String ip) else None)"
| "answer_addr kind rr = None"

definition msg_DecodeLookupHost :: "dns_Msg \<Rightarrow> dnsQuery \<Rightarrow> go_error + string list" where
  "msg_DecodeLookupHost msg query =
     (case rcodeToError (msg_Rcode msg) of
        Some err \<Rightarrow> Inl err
      | None \<Rightarrow>
          let addrs = List.map_filter (answer_addr (q_kind query)) (msg_Answer msg)
          in if addrs = [] then Inl (dnsDecoderWrapError ErrOODNSNoAnswer) else Inr addrs)"

fun answer_ns :: "dns_rr \<Rightarrow> string option" where
  "answer_ns (RR_NS ns) = Some ns"
| "answer_ns rr = None"

definition msg_DecodeNS :: "dns_Msg \<Rightarrow> go_error + string list" where
  "msg_DecodeNS msg =
     (case rcodeToError (msg_Rcode msg) of
        Some err \<Rightarrow> Inl err
      | None \<Rightarrow>
          let out = List.map_filter answer_ns (msg_Answer msg)
          in if out = [] then Inl (dnsDecoderWrapError ErrOODNSNoAnswer) else Inr out)"

fun first_cname :: "dns_rr list \<Rightarrow> string option" where
  "first_cname [] = None"
| "first_cname (RR_CNAME target # rrs) = Some target"
| "first_cname (rr # rrs) = first_cname rrs"

definition msg_DecodeCNAME :: "dns_Msg \<Rightarrow> go_error + string" where
  "msg_DecodeCNAME msg =
     (case rcodeToError (msg_Rcode msg) of
        Some err \<Rightarrow> Inl err
      | None \<Rightarrow> (case first_cname (msg_Answer msg) of
          Some target \<Rightarrow> Inr target
        | None \<Rightarrow> Inl (dnsDecoderWrapError ErrOODNSNoAnswer)))"

text \<open>The methods of the interface, by the dynamic type.\<close>

fun DecodeLookupHost :: "dns_response \<Rightarrow> go_error + string list" where
  "DecodeLookupHost (DnsResponse data msg query) = msg_DecodeLookupHost msg query"
| "DecodeLookupHost (GetaddrinfoResponse addrs cname query) = (if addrs = [] then Inl ErrOODNSNoAnswer else Inr addrs)"

fun DecodeHTTPS :: "dns_response \<Rightarrow> go_error + HTTPSSvc" where
  "DecodeHTTPS (DnsResponse data msg query) = msg_DecodeHTTPS msg"
| "DecodeHTTPS (GetaddrinfoResponse addrs cname query) = Inl ErrNoDNSTransport"

fun DecodeNS :: "dns_response \<Rightarrow> go_error + string list" where
  "DecodeNS (DnsResponse data msg query) = msg_DecodeNS msg"
| "DecodeNS (GetaddrinfoResponse addrs cname query) = Inl ErrNoDNSTransport"

fun DecodeCNAME :: "dns_response \<Rightarrow> go_error + string" where
  "DecodeCNAME (DnsResponse data msg query) = msg_DecodeCNAME msg"
| "DecodeCNAME (GetaddrinfoResponse addrs cname query) = (if cname = '''' then Inl ErrOODNSNoAnswer else Inr cname)"

section \<open>Transports\<close>

type_synonym dns_transport = "dnsQuery \<Rightarrow> go_error + dns_response"

text \<open>The method of \<open>dnsTransportErrWrapper\<close>.\<close>

definition errWrapper_RoundTrip :: "dns_transport \<Rightarrow> dns_transport" where
  "errWrapper_RoundTrip txp query =
     (case txp query of
        Inl err \<Rightarrow> Inl (wrap_error ClassifyResolverError DNSRoundTripOperation err)
      | Inr resp \<Rightarrow> Inr resp)"

abbreviation wrapDNSTransport :: "dns_transport \<Rightarrow> dns_transport" where
  "wrapDNSTransport \<equiv> errWrapper_RoundTrip"

subsection \<open>HTTPS\<close>

record doh_request =
  rq_method :: string
  rq_url :: string
  rq_host :: string
  rq_header :: "(string, string list) gomap"
  rq_body :: bytes

record doh_reply =
  rp_StatusCode :: int
  rp_Header :: "(string, string list) gomap"
  rp_Body :: reader

definition header_Get :: "(string, string list) gomap \<Rightarrow> string \<Rightarrow> string" where
  "header_Get h key = (case gmap_get h key of Some (v # _) \<Rightarrow> v | _ \<Rightarrow> '''')"

definition HTTPHeaderUserAgent :: string where
  "HTTPHeaderUserAgent =
     ''Mozilla/5.0 (Macintosh; Intel Mac OS X 10_15_7) AppleWebKit/605.1.15 (KHTML, like Gecko) Version/17.10 Safari/605.1.1''"

text \<open>\<open>http.NewRequest\<close> fails with an invalid URL: \<open>bad_url\<close> has its error. \<open>client\<close> is \<open>Client.Do\<close>.\<close>

definition doh_RoundTrip ::
    "(dnsQuery \<Rightarrow> go_error + bytes) \<Rightarrow> (bytes \<Rightarrow> go_error + dns_Msg) \<Rightarrow> (string \<Rightarrow> go_error option) \<Rightarrow>
     (doh_request \<Rightarrow> go_error + doh_reply) \<Rightarrow> go_error option \<Rightarrow> string \<Rightarrow> string \<Rightarrow> dns_transport" where
  "doh_RoundTrip Bytes Unpack bad_url client ctx_done url hostOverride query =
     (case Bytes query of
        Inl err \<Rightarrow> Inl err
      | Inr rawQuery \<Rightarrow>
          (case bad_url url of
             Some err \<Rightarrow> Inl err
           | None \<Rightarrow>
               let req = \<lparr>rq_method = ''POST'', rq_url = url, rq_host = hostOverride,
                          rq_header = [(''User-Agent'', [HTTPHeaderUserAgent]), (''Content-Type'', [''application/dns-message''])],
                          rq_body = rawQuery\<rparr>
               in case client req of
                    Inl err \<Rightarrow> Inl err
                  | Inr resp \<Rightarrow>
                      if rp_StatusCode resp \<noteq> 200 then Inl (new_error ''doh: server returned error'')
                      else if header_Get (rp_Header resp) ''Content-Type'' \<noteq> ''application/dns-message''
                      then Inl (new_error ''doh: invalid content-type'')
                      else (case ReadAllContext ctx_done (read_all_limited (2 ^ 20) (rp_Body resp)) of
                              Inl err \<Rightarrow> Inl err
                            | Inr rawResponse \<Rightarrow> DecodeResponse Unpack rawResponse query)))"

subsection \<open>TCP and TLS\<close>

text \<open>A connection: whether a write fails, and what it reads.\<close>

record dns_conn =
  cn_write :: "bytes \<Rightarrow> go_error option"
  cn_reader :: reader

text \<open>The request as it goes on the wire: \<open>byte(len >> 8)\<close>, \<open>byte(len)\<close> and the query.\<close>

definition tcp_frame :: "bytes \<Rightarrow> bytes" where
  "tcp_frame rawQuery =
     (let len = (of_nat (length rawQuery) :: 64 word)
      in [ucast (drop_bit 8 len), ucast len] @ rawQuery)"

definition tcp_length :: "bytes \<Rightarrow> nat" where
  "tcp_length header = unat (push_bit 8 (ucast (header ! 0)) OR (ucast (header ! 1)) :: 64 word)"

definition tcp_read_reply :: "reader \<Rightarrow> go_error + bytes" where
  "tcp_read_reply r =
     (case ReadFull 2 r of
        Inl err \<Rightarrow> Inl err
      | Inr (header, r) \<Rightarrow>
          (case ReadFull (tcp_length header) r of
             Inl err \<Rightarrow> Inl err
           | Inr (rawResponse, r) \<Rightarrow> Inr rawResponse))"

definition tcp_RoundTrip ::
    "(dnsQuery \<Rightarrow> go_error + bytes) \<Rightarrow> (bytes \<Rightarrow> go_error + dns_Msg) \<Rightarrow> (string \<Rightarrow> go_error + dns_conn) \<Rightarrow> string \<Rightarrow>
     dns_transport" where
  "tcp_RoundTrip Bytes Unpack dial address query =
     (case Bytes query of
        Inl err \<Rightarrow> Inl err
      | Inr rawQuery \<Rightarrow>
          if 65535 < length rawQuery then Inl errQueryTooLarge
          else (case dial address of
            Inl err \<Rightarrow> Inl err
          | Inr conn \<Rightarrow>
              (case cn_write conn (tcp_frame rawQuery) of
                 Some err \<Rightarrow> Inl err
               | None \<Rightarrow>
                   (case tcp_read_reply (cn_reader conn) of
                      Inl err \<Rightarrow> Inl err
                    | Inr rawResponse \<Rightarrow> DecodeResponse Unpack rawResponse query))))"

subsection \<open>UDP\<close>

text \<open>
  A connected socket: each read returns a datagram or an error, and after those the deadline of five
  seconds expires. The state has what is left to read, how often the connection was closed and the
  late responses that the trace received.
\<close>

record udp_state =
  u_reads :: "(go_error + bytes) list"
  u_deadline :: go_error
  u_closed :: nat
  u_late :: "(dns_response \<times> (go_error + string list)) list"

definition udp_Read :: "udp_state \<Rightarrow> udp_state \<times> (go_error + bytes)" where
  "udp_Read u =
     (case u_reads u of
        [] \<Rightarrow> (u, Inl (u_deadline u))
      | Inl err # rs \<Rightarrow> (u\<lparr>u_reads := rs\<rparr>, Inl err)
      | Inr data # rs \<Rightarrow> (u\<lparr>u_reads := rs\<rparr>, Inr (take (2 ^ 17) data)))"

definition udp_Close :: "udp_state \<Rightarrow> udp_state" where
  "udp_Close u = u\<lparr>u_closed := Suc (u_closed u)\<rparr>"

definition udp_recv :: "(bytes \<Rightarrow> go_error + dns_Msg) \<Rightarrow> dnsQuery \<Rightarrow> udp_state \<Rightarrow> udp_state \<times> (go_error + dns_response)" where
  "udp_recv Unpack query u =
     (case udp_Read u of
        (u, Inl err) \<Rightarrow> (u, Inl err)
      | (u, Inr rawResponse) \<Rightarrow> (u, DecodeResponse Unpack rawResponse query))"

lemma udp_recv_reads:
  "udp_recv Unpack query u = (u', Inr resp) \<Longrightarrow> length (u_reads u') < length (u_reads u)"
  by (auto simp: udp_recv_def udp_Read_def split: list.splits sum.splits)

text \<open>The loop of the goroutine that owns the connection; \<open>full n\<close> says that the trace refuses its \<open>n\<close>th late response.\<close>

function ownConnAndSendRecvLoop ::
    "(bytes \<Rightarrow> go_error + dns_Msg) \<Rightarrow> (nat \<Rightarrow> bool) \<Rightarrow> dnsQuery \<Rightarrow> udp_state \<Rightarrow> udp_state" where
  "ownConnAndSendRecvLoop Unpack full query u =
     (case udp_recv Unpack query u of
        (u', Inl err) \<Rightarrow> udp_Close u'
      | (u', Inr resp) \<Rightarrow>
          if full (length (u_late u')) then udp_Close u'
          else ownConnAndSendRecvLoop Unpack full query (u'\<lparr>u_late := u_late u' @ [(resp, DecodeLookupHost resp)]\<rparr>))"
  by pat_completeness auto
termination
  by (relation "measure (\<lambda>(_, _, _, u). length (u_reads u))") (auto dest!: sym [THEN udp_recv_reads])

declare ownConnAndSendRecvLoop.simps [simp del]

text \<open>No state is returned when no connection was opened.\<close>

definition udp_RoundTrip ::
    "(dnsQuery \<Rightarrow> go_error + bytes) \<Rightarrow> (bytes \<Rightarrow> go_error + dns_Msg) \<Rightarrow> go_error + udp_state \<Rightarrow>
     (bytes \<Rightarrow> go_error option) \<Rightarrow> (nat \<Rightarrow> bool) \<Rightarrow> dnsQuery \<Rightarrow> udp_state option \<times> (go_error + dns_response)" where
  "udp_RoundTrip Bytes Unpack dial wr full query =
     (case Bytes query of
        Inl err \<Rightarrow> (None, Inl err)
      | Inr rawQuery \<Rightarrow>
          (case dial of
             Inl err \<Rightarrow> (None, Inl err)
           | Inr u \<Rightarrow>
               (case wr rawQuery of
                  Some err \<Rightarrow> (Some (udp_Close u), Inl err)
                | None \<Rightarrow>
                    (case udp_recv Unpack query u of
                       (u', Inl err) \<Rightarrow> (Some (udp_Close u'), Inl err)
                     | (u', Inr resp) \<Rightarrow> (Some (ownConnAndSendRecvLoop Unpack full query u'), Inr resp)))))"

subsection \<open>The system resolver as a transport\<close>

text \<open>\<open>getaddrinfo\<close> runs in a goroutine; the context may end before it.\<close>

definition getaddrinfo_lookup ::
    "go_error option \<Rightarrow> (string \<Rightarrow> go_error + string list \<times> string) \<Rightarrow> string \<Rightarrow> go_error + string list \<times> string" where
  "getaddrinfo_lookup ctx_done lookupfn hostname =
     (case ctx_done of Some e \<Rightarrow> Inl e | None \<Rightarrow> lookupfn hostname)"

definition getaddrinfo_RoundTrip ::
    "go_error option \<Rightarrow> (string \<Rightarrow> go_error + string list \<times> string) \<Rightarrow> dns_transport" where
  "getaddrinfo_RoundTrip ctx_done lookupfn query =
     (if q_kind query \<noteq> TypeANY then Inl ErrNoDNSTransport
      else case getaddrinfo_lookup ctx_done lookupfn (q_domain query) of
             Inl err \<Rightarrow> Inl err
           | Inr (addrs, cname) \<Rightarrow> Inr (GetaddrinfoResponse addrs cname query))"

section \<open>Lemmas\<close>

lemma DecodeResponse_SomeD:
  "DecodeResponse Unpack data query = Inr resp \<Longrightarrow>
     \<exists>msg. resp = DnsResponse data msg query \<and> Unpack data = Inr msg \<and> msg_Response msg \<and> msg_Id msg = q_id query"
  by (auto simp: DecodeResponse_def split: sum.splits if_splits)

text \<open>A big-endian length of two bytes.\<close>

lemma tcp_frame_length:
  assumes "length raw \<le> 65535"
  shows "tcp_length (take 2 (tcp_frame raw)) = length raw"
proof -
  let ?w = "of_nat (length raw) :: 64 word"
  have small: "unat ?w = length raw" using assms by (simp add: unat_of_nat take_bit_eq_mod)
  have "(push_bit 8 (ucast (ucast (drop_bit 8 ?w) :: 8 word)) OR ucast (ucast ?w :: 8 word) :: 64 word) = ?w"
  proof (rule bit_eqI)
    fix n
    assume "possible_bit TYPE(64 word) n"
    have "\<not> bit ?w n" if "16 \<le> n"
    proof -
      have "length raw < 2 ^ 16" using assms by simp
      also have "\<dots> \<le> 2 ^ n" using that by (rule power_increasing) simp
      finally have "\<not> bit (length raw) n" by (simp add: bit_iff_odd)
      then show ?thesis by (simp add: bit_of_nat_iff)
    qed
    then show "bit (push_bit 8 (ucast (ucast (drop_bit 8 ?w) :: 8 word)) OR ucast (ucast ?w :: 8 word) :: 64 word) n = bit ?w n"
      by (cases "n < 8"; cases "n < 16")
        (auto simp: bit_or_iff bit_push_bit_iff bit_ucast_iff bit_drop_bit_eq dest: bit_imp_le_length)
  qed
  then show ?thesis using small by (simp add: tcp_length_def tcp_frame_def Let_def)
qed

lemma tcp_read_frame:
  assumes "length raw \<le> 65535"
  shows "tcp_read_reply \<lparr>rd_data = tcp_frame raw @ rest, rd_end = e\<rparr> = Inr raw"
proof -
  have "length (tcp_frame raw) = Suc (Suc (length raw))" "drop 2 (tcp_frame raw) = raw"
    by (simp_all add: tcp_frame_def Let_def)
  then show ?thesis
    using tcp_frame_length [OF assms] by (simp add: tcp_read_reply_def ReadFull_def Let_def)
qed

lemma udp_recv_frame:
  assumes "udp_recv Unpack query u = (u', res)"
  shows "u_closed u' = u_closed u" and "u_late u' = u_late u"
  using assms by (auto simp: udp_recv_def udp_Read_def split: list.splits sum.splits)

text \<open>The datagrams that the loop accepts: the leading ones that answer the query.\<close>

definition answers :: "(bytes \<Rightarrow> go_error + dns_Msg) \<Rightarrow> dnsQuery \<Rightarrow> go_error + bytes \<Rightarrow> dns_response option" where
  "answers Unpack query rd =
     (case rd of Inl err \<Rightarrow> None
      | Inr data \<Rightarrow> (case DecodeResponse Unpack (take (2 ^ 17) data) query of Inl err \<Rightarrow> None | Inr resp \<Rightarrow> Some resp))"

fun leading :: "('a \<Rightarrow> 'b option) \<Rightarrow> 'a list \<Rightarrow> 'b list" where
  "leading f [] = []"
| "leading f (x # xs) = (case f x of None \<Rightarrow> [] | Some y \<Rightarrow> y # leading f xs)"

lemma udp_recv_Cons:
  "u_reads u = rd # rs \<Longrightarrow>
     (case answers Unpack query rd of
        None \<Rightarrow> \<exists>err. udp_recv Unpack query u = (u\<lparr>u_reads := rs\<rparr>, Inl err)
      | Some resp \<Rightarrow> udp_recv Unpack query u = (u\<lparr>u_reads := rs\<rparr>, Inr resp))"
  by (auto simp: udp_recv_def udp_Read_def answers_def split: sum.splits option.splits)

text \<open>Of those, the trace takes the ones before the first that it refuses.\<close>

definition accepted :: "(nat \<Rightarrow> bool) \<Rightarrow> nat \<Rightarrow> 'a list \<Rightarrow> 'a list" where
  "accepted full n xs = map snd (takeWhile (\<lambda>(k, x). \<not> full k) (enumerate n xs))"

lemma accepted_simps [simp]:
  "accepted full n [] = []" "accepted full n (x # xs) = (if full n then [] else x # accepted full (Suc n) xs)"
  by (simp_all add: accepted_def)

lemma udp_loop:
  "u_late (ownConnAndSendRecvLoop Unpack full query u) =
     u_late u @ map (\<lambda>r. (r, DecodeLookupHost r)) (accepted full (length (u_late u)) (leading (answers Unpack query) (u_reads u)))"
proof (induction "u_reads u" arbitrary: u)
  case Nil
  then show ?case
    by (subst ownConnAndSendRecvLoop.simps) (simp add: udp_recv_def udp_Read_def udp_Close_def)
next
  case (Cons rd rs)
  show ?case
  proof (cases "answers Unpack query rd")
    case None
    then obtain err where "udp_recv Unpack query u = (u\<lparr>u_reads := rs\<rparr>, Inl err)"
      using udp_recv_Cons [of u rd rs Unpack query] Cons.hyps(2) by auto
    then show ?thesis
      using None by (subst ownConnAndSendRecvLoop.simps) (simp add: udp_Close_def flip: Cons.hyps(2))
  next
    case (Some resp)
    then have "udp_recv Unpack query u = (u\<lparr>u_reads := rs\<rparr>, Inr resp)"
      using udp_recv_Cons [of u rd rs Unpack query] Cons.hyps(2) by auto
    then show ?thesis
      using Some Cons.hyps(1) [of "u\<lparr>u_reads := rs, u_late := u_late u @ [(resp, DecodeLookupHost resp)]\<rparr>"]
      by (subst ownConnAndSendRecvLoop.simps) (simp add: udp_Close_def flip: Cons.hyps(2))
  qed
qed

lemma udp_loop_closed: "u_closed (ownConnAndSendRecvLoop Unpack full query u) = Suc (u_closed u)"
proof (induction Unpack full query u rule: ownConnAndSendRecvLoop.induct)
  case (1 Unpack full query u)
  obtain u' res where rec: "udp_recv Unpack query u = (u', res)" by (cases "udp_recv Unpack query u")
  show ?case
    using 1 [OF rec [symmetric]] udp_recv_frame [OF rec] rec
    by (subst ownConnAndSendRecvLoop.simps) (auto simp: udp_Close_def split: sum.split)
qed

text \<open>The padding, in words and in numbers.\<close>

lemma padding_remainder_less: "unat (padding_remainder n) < 128"
  by (simp add: padding_remainder_def unat_mod_distrib)

lemma padding_remainder_dvd: "128 dvd n + 4 + unat (padding_remainder n)"
proof -
  let ?w = "of_nat (n + 4) :: 64 word"
  have "unat (128 - ?w + ?w) = 128" by simp
  then have "(unat (128 - ?w) + unat ?w) mod 2 ^ 64 = 128" by (simp only: unat_word_ariths) simp
  then have "(unat (128 - ?w) + unat ?w) mod 2 ^ 64 mod 128 = 0" by simp
  then have a: "(unat (128 - ?w) + unat ?w) mod 128 = 0" by (simp add: mod_mod_cancel)
  have "unat ?w = (n + 4) mod 2 ^ 64" by (simp only: unat_of_nat) simp
  then have "unat ?w mod 128 = (n + 4) mod 128" by (simp add: mod_mod_cancel)
  with a have "(n + 4 + unat (128 - ?w) mod 128) mod 128 = 0"
    by (metis add.commute mod_add_eq mod_add_right_eq)
  moreover have "unat (padding_remainder n) = unat (128 - ?w) mod 128"
    by (simp add: padding_remainder_def unat_mod_distrib)
  ultimately show ?thesis by (simp add: dvd_eq_mod_eq_0)
qed

definition matches :: "dnsQuery \<Rightarrow> dns_response \<Rightarrow> bool" where
  "matches query resp =
     (case resp of
        DnsResponse data msg q \<Rightarrow> msg_Response msg \<and> msg_Id msg = q_id query \<and> q = query
      | GetaddrinfoResponse addrs cname q \<Rightarrow> False)"

lemma DecodeResponse_matches: "DecodeResponse Unpack data query = Inr resp \<Longrightarrow> matches query resp"
  by (auto dest: DecodeResponse_SomeD simp: matches_def)

lemma udp_recv_matches: "udp_recv Unpack query u = (u', Inr resp) \<Longrightarrow> matches query resp"
  by (auto simp: udp_recv_def split: prod.splits sum.splits dest: DecodeResponse_matches)

lemma udp_loop_matches:
  "\<forall>(r, _) \<in> set (u_late u). matches query r \<Longrightarrow>
   \<forall>(r, _) \<in> set (u_late (ownConnAndSendRecvLoop Unpack full query u)). matches query r"
proof (induction Unpack full query u rule: ownConnAndSendRecvLoop.induct)
  case (1 Unpack full query u)
  obtain u' res where rec: "udp_recv Unpack query u = (u', res)" by (cases "udp_recv Unpack query u")
  note late = udp_recv_frame(2) [OF rec]
  show ?case
  proof (cases "\<exists>resp. res = Inr resp \<and> \<not> full (length (u_late u'))")
    case True
    then obtain resp where resp: "res = Inr resp" "\<not> full (length (u_late u'))" by blast
    with 1(1) [OF rec [symmetric] resp] 1(2) rec late udp_recv_matches [of Unpack query u u' resp] show ?thesis
      by (subst ownConnAndSendRecvLoop.simps) auto
  next
    case False
    with 1(2) rec late show ?thesis
      by (subst ownConnAndSendRecvLoop.simps) (auto simp: udp_Close_def split: sum.split)
  qed
qed

text \<open>What the response codes are classified as.\<close>

definition rcode_failure :: "int \<Rightarrow> string" where
  "rcode_failure rcode =
     (if rcode = 0 then FailureDNSNoAnswer else if rcode = 3 then FailureDNSNXDOMAINError
      else if rcode = 5 then FailureDNSRefusedError else if rcode = 2 then FailureDNSServfailError
      else FailureDNSServerMisbehaving)"

definition decoded_as :: "int \<Rightarrow> go_error + 'a \<Rightarrow> bool" where
  "decoded_as rcode res =
     (case res of
        Inr x \<Rightarrow> rcode = 0
      | Inl err \<Rightarrow> errors_As as_wrapper err = Some (rcode_failure rcode, ResolveOperation))"

lemma classify_decoder_errors:
  "ClassifyResolverError ErrOODNSNoSuchHost = FailureDNSNXDOMAINError"
  "ClassifyResolverError ErrOODNSMisbehaving = FailureDNSServerMisbehaving"
  "ClassifyResolverError ErrOODNSNoAnswer = FailureDNSNoAnswer"
  "ClassifyResolverError (sentinel_error ErrOODNSRefused t) = FailureDNSRefusedError"
  "ClassifyResolverError (sentinel_error ErrOODNSServfail t) = FailureDNSServfailError"
  by (simp_all add: ClassifyResolverError_def ClassifyGenericError_def classifySyscallError_def
      classifyWithStringSuffix_def has_suffix_def ErrOODNSNoSuchHost_def ErrOODNSMisbehaving_def ErrOODNSNoAnswer_def
      FailureDNSNoAnswer_def new_error_def sentinel_error_def errors_As_def errors_Is_def)

lemma unwrapped_errors [simp]:
  "errors_As as_wrapper (new_error t) = None" "errors_As as_wrapper (sentinel_error s t) = None"
  "errors_As as_wrapper ErrOODNSNoSuchHost = None" "errors_As as_wrapper ErrOODNSMisbehaving = None"
  "errors_As as_wrapper ErrOODNSNoAnswer = None" "errors_As as_wrapper ErrNoDNSTransport = None"
  by (simp_all add: new_error_def sentinel_error_def errors_As_def ErrOODNSNoSuchHost_def ErrOODNSMisbehaving_def
      ErrOODNSNoAnswer_def ErrNoDNSTransport_def)

lemma no_answer_failure:
  "errors_As as_wrapper (dnsDecoderWrapError ErrOODNSNoAnswer) = Some (FailureDNSNoAnswer, ResolveOperation)"
  by (simp add: wrap_error_failure classify_decoder_errors)

lemma rcodeToError_failure:
  "rcodeToError rcode = Some err \<Longrightarrow> errors_As as_wrapper err = Some (rcode_failure rcode, ResolveOperation)"
  by (auto simp: rcodeToError_def rcode_failure_def wrap_error_failure classify_decoder_errors split: if_splits)

lemma rcodeToError_None: "rcodeToError rcode = None \<longleftrightarrow> rcode = 0"
  by (simp add: rcodeToError_def)

section \<open>Properties\<close>

text \<open>
  The padding of a query. If a padding option of \<open>n\<close> octets makes a message \<open>n + 4\<close> octets longer,
  then the length of a padded query is a multiple of 128 octets, whatever the length of the
  message without the option; less than a block is added beyond the header of the option, although the
  subtraction that computes it wraps around.
\<close>

theorem padded_query_fills_blocks:
  assumes "\<And>m n. msg_Len (m\<lparr>qm_Edns0 := Some (4096, True, [n])\<rparr>) = msg_Len (m\<lparr>qm_Edns0 := Some (4096, True, [])\<rparr>) + 4 + n"
    and "\<And>m data. Pack m = Inr data \<Longrightarrow> length data = msg_Len m"
    and "q_padding q" and "query_bytes msg_Len Pack Fqdn q = Inr data"
  shows "128 dvd length data \<and> unat (padding_remainder len) < 128"
proof -
  let ?m = "\<lparr>qm_Id = q_id q, qm_RecursionDesired = True, qm_Name = Fqdn (q_domain q), qm_Qtype = q_kind q, qm_Edns0 = None\<rparr>"
  let ?len = "msg_Len (?m\<lparr>qm_Edns0 := Some (4096, True, [])\<rparr>)"
  have "length data = ?len + 4 + unat (padding_remainder ?len)"
    using assms(2) [of "?m\<lparr>qm_Edns0 := Some (4096, True, [unat (padding_remainder ?len)])\<rparr>" data] assms(1) [where m = ?m] assms(3,4)
    by (simp add: query_bytes_def Let_def)
  moreover have "128 dvd n + 4 + unat (padding_remainder n)" for n
    by (rule padding_remainder_dvd)
  ultimately show ?thesis by (simp add: padding_remainder_less)
qed

text \<open>A length of 12 octets for the header, 11 for the EDNS0 record and 4 for the header of each option.\<close>

definition sample_msg_len :: "query_msg \<Rightarrow> nat" where
  "sample_msg_len m = 12 + length (qm_Name m) +
     (case qm_Edns0 m of None \<Rightarrow> 0 | Some (_, _, opts) \<Rightarrow> 11 + sum_list (map (\<lambda>n. 4 + n) opts))"

definition sample_pack :: "query_msg \<Rightarrow> go_error + bytes" where
  "sample_pack m = Inr (replicate (sample_msg_len m) 0)"

theorem padded_query_fills_blocks_witness:
  "128 dvd length (replicate 128 (0 :: 8 word)) \<and>
   query_bytes sample_msg_len sample_pack (\<lambda>s. s @ ''.'') (Encode 7 ''example.org'' TypeA True) = Inr (replicate 128 0)"
proof -
  have "query_bytes sample_msg_len sample_pack (\<lambda>s. s @ ''.'') (Encode 7 ''example.org'' TypeA True) = Inr (replicate 128 0)"
    by (simp add: query_bytes_def Encode_def sample_pack_def sample_msg_len_def padding_remainder_def Let_def)
  then show ?thesis
    using padded_query_fills_blocks [of sample_msg_len sample_pack "Encode 7 ''example.org'' TypeA True" "\<lambda>s. s @ ''.''"]
    by (simp add: sample_pack_def sample_msg_len_def Encode_def)
qed

text \<open>
  C21: DNS over TCP. The bytes that the transport writes for a query are read back by a server that
  uses the same framing as exactly the query. If the server frames its reply the same way,
  the transport decodes exactly that reply, whatever follows it on the connection; a query that does
  not fit into the length field is refused before anything is sent.
\<close>

theorem dns_over_tcp_framing:
  assumes "Bytes query = Inr raw" and "dial address = Inr conn" and "cn_write conn (tcp_frame raw) = None"
    and "rd_data (cn_reader conn) = tcp_frame reply @ rest" and "length reply \<le> 65535"
  shows "if length raw \<le> 65535
    then tcp_read_reply \<lparr>rd_data = tcp_frame raw @ rest', rd_end = e\<rparr> = Inr raw \<and>
      tcp_RoundTrip Bytes Unpack dial address query = DecodeResponse Unpack reply query
    else tcp_RoundTrip Bytes Unpack dial address query = Inl errQueryTooLarge"
proof (cases "length raw \<le> 65535")
  case True
  have "cn_reader conn = \<lparr>rd_data = tcp_frame reply @ rest, rd_end = rd_end (cn_reader conn)\<rparr>"
    using assms(4) by simp
  then have "tcp_read_reply (cn_reader conn) = Inr reply"
    using tcp_read_frame [OF assms(5)] by metis
  with True assms(1-3) show ?thesis by (simp add: tcp_RoundTrip_def tcp_read_frame)
next
  case False
  with assms(1) show ?thesis by (simp add: tcp_RoundTrip_def)
qed

definition sample_dns_query :: dnsQuery where
  "sample_dns_query = Encode 7 ''example.org'' TypeA False"

definition sample_reply :: dns_Msg where
  "sample_reply = \<lparr>msg_Response = True, msg_Id = 7, msg_Rcode = 0, msg_Answer = [RR_CNAME ''example.com'', RR_A [93, 184, 216, 34]]\<rparr>"

theorem dns_over_tcp_framing_witness:
  "tcp_RoundTrip (\<lambda>q. Inr [1, 2, 3]) (\<lambda>data. Inr sample_reply)
     (\<lambda>address. Inr \<lparr>cn_write = \<lambda>data. None, cn_reader = \<lparr>rd_data = tcp_frame [4, 5] @ [6], rd_end = io_EOF\<rparr>\<rparr>)
     ''8.8.8.8:53'' sample_dns_query = Inr (DnsResponse [4, 5] sample_reply sample_dns_query)"
  using dns_over_tcp_framing [of "\<lambda>q. Inr [1, 2, 3]" sample_dns_query "[1, 2, 3]"
      "\<lambda>address. Inr \<lparr>cn_write = \<lambda>data. None, cn_reader = \<lparr>rd_data = tcp_frame [4, 5] @ [6], rd_end = io_EOF\<rparr>\<rparr>"
      "''8.8.8.8:53''" "\<lparr>cn_write = \<lambda>data. None, cn_reader = \<lparr>rd_data = tcp_frame [4, 5] @ [6], rd_end = io_EOF\<rparr>\<rparr>"
      "[4, 5]" "[6]" "[]" io_EOF "\<lambda>data. Inr sample_reply"]
  by (simp add: DecodeResponse_def sample_reply_def sample_dns_query_def Encode_def)

text \<open>
  C20: No transport returns the reply to another query: a response that the HTTPS, the TCP or the UDP
  transport returns is marked as a response, carries the identifier of the query that was sent and
  remembers that query. The same holds for each late response that the UDP transport reports.
\<close>

theorem dns_response_matches_query:
  "(doh_RoundTrip Bytes Unpack bad_url client ctx_done url hostOverride query = Inr resp \<longrightarrow> matches query resp) \<and>
   (tcp_RoundTrip Bytes Unpack dial address query = Inr resp \<longrightarrow> matches query resp) \<and>
   (udp_RoundTrip Bytes Unpack (Inr u) wr full query = (Some u', Inr resp) \<longrightarrow>
      matches query resp \<and> (u_late u = [] \<longrightarrow> (\<forall>(r, _) \<in> set (u_late u'). matches query r)))"
proof (intro conjI impI)
  assume "doh_RoundTrip Bytes Unpack bad_url client ctx_done url hostOverride query = Inr resp"
  then show "matches query resp"
    by (auto simp: doh_RoundTrip_def Let_def split: sum.splits option.splits if_splits dest: DecodeResponse_matches)
next
  assume "tcp_RoundTrip Bytes Unpack dial address query = Inr resp"
  then show "matches query resp"
    by (auto simp: tcp_RoundTrip_def split: sum.splits option.splits if_splits dest: DecodeResponse_matches)
next
  assume udp: "udp_RoundTrip Bytes Unpack (Inr u) wr full query = (Some u', Inr resp)"
  then obtain v where v: "udp_recv Unpack query u = (v, Inr resp)" "u' = ownConnAndSendRecvLoop Unpack full query v"
    by (auto simp: udp_RoundTrip_def split: sum.splits option.splits prod.splits)
  from v(1) show "matches query resp" by (rule udp_recv_matches)
  assume "u_late u = []"
  then show "\<forall>(r, _) \<in> set (u_late u'). matches query r"
    using udp_loop_matches [of v query Unpack full] udp_recv_frame(2) [OF v(1)] v(2) by simp
qed

definition sample_udp :: udp_state where
  "sample_udp = \<lparr>u_reads = [Inr [1], Inr [2], Inr [3]], u_deadline = new_error ''i/o timeout'', u_closed = 0, u_late = []\<rparr>"

text \<open>The third datagram does not answer the query.\<close>

definition sample_unpack :: "bytes \<Rightarrow> go_error + dns_Msg" where
  "sample_unpack data = Inr (sample_reply\<lparr>msg_Id := (if data = [3] then 8 else 7)\<rparr>)"

lemma sample_address: "IP_String [93, 184, 216, 34] = ''93.184.216.34''"
  by code_simp

definition sample_udp_end :: udp_state where
  "sample_udp_end = ownConnAndSendRecvLoop sample_unpack (\<lambda>n. False) sample_dns_query (sample_udp\<lparr>u_reads := [Inr [2], Inr [3]]\<rparr>)"

lemma sample_answers:
  "answers sample_unpack sample_dns_query (Inr [1]) = Some (DnsResponse [1] sample_reply sample_dns_query)"
  "answers sample_unpack sample_dns_query (Inr [2]) = Some (DnsResponse [2] sample_reply sample_dns_query)"
  "answers sample_unpack sample_dns_query (Inr [3]) = None"
  by (simp_all add: answers_def DecodeResponse_def sample_unpack_def sample_reply_def sample_dns_query_def Encode_def)

lemma sample_udp_run:
  "udp_RoundTrip (\<lambda>q. Inr [9]) sample_unpack (Inr sample_udp) (\<lambda>data. None) (\<lambda>n. False) sample_dns_query =
     (Some sample_udp_end, Inr (DnsResponse [1] sample_reply sample_dns_query))"
  using udp_recv_Cons [of sample_udp "Inr [1]" "[Inr [2], Inr [3]]" sample_unpack sample_dns_query]
  by (simp add: udp_RoundTrip_def sample_udp_end_def sample_answers) (simp add: sample_udp_def)

lemma sample_udp_late: "u_late sample_udp_end = [(DnsResponse [2] sample_reply sample_dns_query, Inr [''93.184.216.34''])]"
  using udp_loop [of sample_unpack "\<lambda>n. False" sample_dns_query "sample_udp\<lparr>u_reads := [Inr [2], Inr [3]]\<rparr>"]
  by (simp add: sample_udp_end_def sample_answers)
    (simp add: sample_udp_def sample_reply_def sample_dns_query_def Encode_def msg_DecodeLookupHost_def rcodeToError_def
      List.map_filter_simps sample_address)

theorem dns_response_matches_query_witness:
  "matches sample_dns_query (DnsResponse [2] sample_reply sample_dns_query)"
  using dns_response_matches_query [of "\<lambda>q. Inr [9]" sample_unpack _ _ _ _ _ sample_dns_query
      "DnsResponse [1] sample_reply sample_dns_query" _ _ sample_udp "\<lambda>data. None" "\<lambda>n. False" sample_udp_end]
    sample_udp_run by (simp add: sample_udp_late) (simp add: sample_udp_def)

text \<open>
  C22: The UDP transport closes the connection that it opened exactly once, whether the write fails,
  the first read fails or late responses are collected. After a failure it reports no late response.
  Otherwise the late responses that it reports are the datagrams after the first response up to the
  first one that does not answer the query or that the trace refuses, because its buffer is full.
\<close>

theorem udp_transport_closes:
  assumes "udp_RoundTrip Bytes Unpack (Inr u) wr full query = (Some u', res)"
  shows "u_closed u' = Suc (u_closed u) \<and>
    u_late u' = u_late u @ (case res of
        Inl err \<Rightarrow> []
      | Inr resp \<Rightarrow> map (\<lambda>r. (r, DecodeLookupHost r))
          (accepted full (length (u_late u)) (leading (answers Unpack query) (tl (u_reads u)))))"
proof -
  obtain raw where raw: "Bytes query = Inr raw"
    using assms by (auto simp: udp_RoundTrip_def split: sum.splits)
  obtain v r where rec: "udp_recv Unpack query u = (v, r)" by (cases "udp_recv Unpack query u")
  have tl: "u_reads v = tl (u_reads u)"
    using rec by (auto simp: udp_recv_def udp_Read_def split: list.splits sum.splits)
  show ?thesis
    using assms raw rec tl udp_recv_frame [OF rec] udp_loop_closed udp_loop [of Unpack full query v]
    by (auto simp: udp_RoundTrip_def udp_Close_def split: option.splits sum.splits)
qed

theorem udp_transport_closes_witness:
  "u_closed sample_udp_end = 1 \<and>
   u_late sample_udp_end = map (\<lambda>r. (r, DecodeLookupHost r)) [DnsResponse [2] sample_reply sample_dns_query]"
  using udp_transport_closes [OF sample_udp_run] by (simp add: sample_udp_def sample_answers)

text \<open>
  The failure that a reply stands for. When one of the four decoders of a message returns an
  error, the error is wrapped for the resolve operation, and its failure follows from the response code:
  NXDOMAIN, refused, servfail, misbehaving for every other code, and no answer when the code is
  success but no record of the kind that was asked for is there. A reply with an error code
  never decodes to a result.
\<close>

theorem dns_reply_failures:
  "decoded_as (msg_Rcode msg) (DecodeLookupHost (DnsResponse data msg query)) \<and>
   decoded_as (msg_Rcode msg) (DecodeHTTPS (DnsResponse data msg query)) \<and>
   decoded_as (msg_Rcode msg) (DecodeNS (DnsResponse data msg query)) \<and>
   decoded_as (msg_Rcode msg) (DecodeCNAME (DnsResponse data msg query))"
  by (cases "rcodeToError (msg_Rcode msg)"; intro conjI)
    (simp_all add: decoded_as_def msg_DecodeLookupHost_def msg_DecodeHTTPS_def msg_DecodeNS_def msg_DecodeCNAME_def
      Let_def rcodeToError_failure no_answer_failure rcodeToError_None rcode_failure_def split: option.split)

end
