(* ===== verification/Resolvers.thy ===== *)
theory Resolvers
  imports DnsMessages
begin

text \<open>
  The resolvers of \<open>internal/netxlite\<close>: the parallel and the serial resolver over a DNS transport, the
  system resolver, the wrappers that \<open>WrapResolver\<close> composes (\<open>resolvercore.go\<close>), the bogon resolver
  (\<open>bogon.go\<close>) and the caching resolver (\<open>resolvercache.go\<close>). A \<open>model.Resolver\<close> is a record of its methods;
  what the network does is in the transport. The IDNA conversion is code of \<open>golang.org/x/net\<close> and an
  argument, and so are the identifiers that the encoder draws, one for each query type.

  The locale \<open>classified_lookup\<close> is the contract of a resolver that its clients rely on: a lookup
  returns addresses or an error that has been classified. The properties: the parallel and the serial
  resolver merge the answers of the two query types, the wrapped resolver classifies its errors and
  short-circuits addresses, the bogon resolver returns no bogon, the cache returns what was
  looked up first.
\<close>

section \<open>The interfaces\<close>

record transport =
  t_RoundTrip :: dns_transport
  t_RequiresPadding :: bool
  t_Network :: string
  t_Address :: string

record resolver =
  r_LookupHost :: "string \<Rightarrow> go_error + string list"
  r_LookupHTTPS :: "string \<Rightarrow> go_error + HTTPSSvc"
  r_LookupNS :: "string \<Rightarrow> go_error + string list"
  r_Network :: string
  r_Address :: string

locale classified_lookup =
  fixes lookup :: "string \<Rightarrow> go_error + 'a"
  assumes classified: "lookup h = Inl err \<Longrightarrow> is_wrapped err"
begin

text \<open>The failure of a classified lookup is what every classifier returns for it.\<close>

lemma failure_of_lookup:
  "lookup h = Inl err \<Longrightarrow> \<exists>failure operation. errors_As as_wrapper err = Some (failure, operation) \<and>
     ClassifyGenericError err = failure \<and> ClassifyResolverError err = failure"
  using classified [of h err] classify_wrapped by (fastforce simp: is_wrapped_def)

end

section \<open>The parallel resolver\<close>

definition parallel_lookup :: "(16 word \<Rightarrow> 16 word) \<Rightarrow> transport \<Rightarrow> string \<Rightarrow> 16 word \<Rightarrow> string list \<times> go_error option" where
  "parallel_lookup ids txp hostname qtype =
     (let query = Encode (ids qtype) hostname qtype (t_RequiresPadding txp)
      in case t_RoundTrip txp query of
           Inl err \<Rightarrow> ([], Some err)
         | Inr response \<Rightarrow>
             (case DecodeLookupHost response of Inl err \<Rightarrow> ([], Some err) | Inr addrs \<Rightarrow> (addrs, None)))"

definition parallel_LookupHost :: "(16 word \<Rightarrow> 16 word) \<Rightarrow> transport \<Rightarrow> string \<Rightarrow> go_error + string list" where
  "parallel_LookupHost ids txp hostname =
     (let (a_addrs, a_err) = parallel_lookup ids txp hostname TypeA;
          (aaaa_addrs, aaaa_err) = parallel_lookup ids txp hostname TypeAAAA
      in case (a_err, aaaa_err) of
           (Some err, Some _) \<Rightarrow> Inl err
         | _ \<Rightarrow> let addrs = a_addrs @ aaaa_addrs in if addrs = [] then Inl ErrOODNSNoAnswer else Inr addrs)"

definition dns_LookupHTTPS :: "(16 word \<Rightarrow> 16 word) \<Rightarrow> transport \<Rightarrow> string \<Rightarrow> go_error + HTTPSSvc" where
  "dns_LookupHTTPS ids txp hostname =
     (case t_RoundTrip txp (Encode (ids TypeHTTPS) hostname TypeHTTPS (t_RequiresPadding txp)) of
        Inl err \<Rightarrow> Inl err
      | Inr response \<Rightarrow> DecodeHTTPS response)"

definition dns_LookupNS :: "(16 word \<Rightarrow> 16 word) \<Rightarrow> transport \<Rightarrow> string \<Rightarrow> go_error + string list" where
  "dns_LookupNS ids txp hostname =
     (case t_RoundTrip txp (Encode (ids TypeNS) hostname TypeNS (t_RequiresPadding txp)) of
        Inl err \<Rightarrow> Inl err
      | Inr response \<Rightarrow> DecodeNS response)"

definition NewUnwrappedParallelResolver :: "(16 word \<Rightarrow> 16 word) \<Rightarrow> transport \<Rightarrow> resolver" where
  "NewUnwrappedParallelResolver ids txp =
     \<lparr>r_LookupHost = parallel_LookupHost ids txp, r_LookupHTTPS = dns_LookupHTTPS ids txp,
      r_LookupNS = dns_LookupNS ids txp, r_Network = t_Network txp, r_Address = t_Address txp\<rparr>"

section \<open>The serial resolver\<close>

text \<open>
  A retry may have a different outcome, so the transport and the identifier depend on the number of the
  attempt. The counter of timeouts is threaded through.
\<close>

definition serial_lookup ::
    "(16 word \<Rightarrow> 16 word) \<Rightarrow> transport \<Rightarrow> string \<Rightarrow> 16 word \<Rightarrow> go_error + string list" where
  "serial_lookup ids txp hostname qtype =
     (case t_RoundTrip txp (Encode (ids qtype) hostname qtype (t_RequiresPadding txp)) of
        Inl err \<Rightarrow> Inl err
      | Inr response \<Rightarrow> DecodeLookupHost response)"

fun as_op_error :: "err_kind \<Rightarrow> bool option" where
  "as_op_error (OpError tmo) = Some tmo"
| "as_op_error kind = None"

definition is_op_timeout :: "go_error \<Rightarrow> bool" where
  "is_op_timeout err \<longleftrightarrow> errors_As as_op_error err = Some True"

fun serial_retry :: "(nat \<Rightarrow> go_error + string list) \<Rightarrow> nat \<Rightarrow> nat \<Rightarrow> go_error list \<Rightarrow> int \<Rightarrow> int \<times> (go_error list + string list)" where
  "serial_retry attempt i 0 errs timeouts = (timeouts, Inl errs)"
| "serial_retry attempt i (Suc left) errs timeouts =
     (case attempt i of
        Inr replies \<Rightarrow> (timeouts, Inr replies)
      | Inl err \<Rightarrow>
          if \<not> is_op_timeout err then (timeouts, Inl (errs @ [err]))
          else serial_retry attempt (Suc i) left (errs @ [err]) (wrap64 (timeouts + 1)))"

text \<open>\<open>errorslist[0]\<close> would panic for an empty list.\<close>

definition lookupHostWithRetry :: "(nat \<Rightarrow> go_error + string list) \<Rightarrow> int \<Rightarrow> (int \<times> (go_error + string list)) option" where
  "lookupHostWithRetry attempt timeouts =
     (case serial_retry attempt 0 3 [] timeouts of
        (n, Inr replies) \<Rightarrow> Some (n, Inr replies)
      | (n, Inl []) \<Rightarrow> None
      | (n, Inl (err # _)) \<Rightarrow> Some (n, Inl err))"

definition serial_LookupHost ::
    "(nat \<Rightarrow> 16 word \<Rightarrow> 16 word) \<Rightarrow> (nat \<Rightarrow> transport) \<Rightarrow> string \<Rightarrow> int \<Rightarrow> (int \<times> (go_error + string list)) option" where
  "serial_LookupHost ids txp hostname timeouts =
     do { (timeouts, resA) \<leftarrow> lookupHostWithRetry (\<lambda>i. serial_lookup (ids i) (txp i) hostname TypeA) timeouts;
          (timeouts, resAAAA) \<leftarrow> lookupHostWithRetry (\<lambda>i. serial_lookup (ids i) (txp i) hostname TypeAAAA) timeouts;
          Some (timeouts,
            case (resA, resAAAA) of
              (Inl errA, Inl _) \<Rightarrow> Inl errA
            | _ \<Rightarrow> let addrs = (case resA of Inl _ \<Rightarrow> [] | Inr a \<Rightarrow> a) @ (case resAAAA of Inl _ \<Rightarrow> [] | Inr a \<Rightarrow> a)
                   in if addrs = [] then Inl ErrOODNSNoAnswer else Inr addrs) }"

section \<open>The system resolver\<close>

definition system_LookupHost :: "(16 word \<Rightarrow> 16 word) \<Rightarrow> transport \<Rightarrow> string \<Rightarrow> go_error + string list" where
  "system_LookupHost ids txp hostname =
     (case t_RoundTrip txp (Encode (ids TypeANY) hostname TypeANY False) of
        Inl err \<Rightarrow> Inl err
      | Inr resp \<Rightarrow> DecodeLookupHost resp)"

definition newUnwrappedStdlibResolver :: "(16 word \<Rightarrow> 16 word) \<Rightarrow> transport \<Rightarrow> resolver" where
  "newUnwrappedStdlibResolver ids getaddrinfo =
     (let txp = getaddrinfo\<lparr>t_RoundTrip := wrapDNSTransport (t_RoundTrip getaddrinfo)\<rparr>
      in \<lparr>r_LookupHost = system_LookupHost ids txp, r_LookupHTTPS = (\<lambda>domain. Inl ErrNoDNSTransport),
          r_LookupNS = (\<lambda>domain. Inl ErrNoDNSTransport), r_Network = t_Network txp, r_Address = t_Address txp\<rparr>)"

section \<open>The wrappers\<close>

definition wrap_result :: "go_error + 'a \<Rightarrow> go_error + 'a" where
  "wrap_result res =
     (case res of Inl err \<Rightarrow> Inl (wrap_error ClassifyResolverError ResolveOperation err) | Inr x \<Rightarrow> Inr x)"

definition resolverErrWrapper :: "resolver \<Rightarrow> resolver" where
  "resolverErrWrapper r =
     r\<lparr>r_LookupHost := (\<lambda>hostname. wrap_result (r_LookupHost r hostname)),
       r_LookupHTTPS := (\<lambda>domain. wrap_result (r_LookupHTTPS r domain)),
       r_LookupNS := (\<lambda>domain. wrap_result (r_LookupNS r domain))\<rparr>"

definition ErrDNSIPAddress :: go_error where
  "ErrDNSIPAddress = new_error ''ooresolver: expected domain, found IP address''"

definition shortCircuit_LookupHTTPS :: "resolver \<Rightarrow> string \<Rightarrow> go_error + HTTPSSvc" where
  "shortCircuit_LookupHTTPS r hostname =
     (if ParseIP hostname \<noteq> None
      then Inr (if isIPv6 hostname then \<lparr>ALPN = [], IPv4 = [], IPv6 = [hostname], Ech = []\<rparr>
                else \<lparr>ALPN = [], IPv4 = [hostname], IPv6 = [], Ech = []\<rparr>)
      else r_LookupHTTPS r hostname)"

definition ResolverShortCircuitIPAddr :: "resolver \<Rightarrow> resolver" where
  "ResolverShortCircuitIPAddr r =
     r\<lparr>r_LookupHost := ShortCircuitIPAddr_LookupHost (r_LookupHost r),
       r_LookupHTTPS := shortCircuit_LookupHTTPS r,
       r_LookupNS := (\<lambda>hostname. if ParseIP hostname \<noteq> None then Inl ErrDNSIPAddress else r_LookupNS r hostname)\<rparr>"

definition invalid_domain :: "string \<Rightarrow> go_error" where
  "invalid_domain domain = new_error (''invalid domain: '' @ domain)"

text \<open>The domain to convert and the prefix to keep, for a name with a port prefix.\<close>

definition idna_split :: "string \<Rightarrow> go_error + string \<times> string" where
  "idna_split domain =
     (if has_prefix domain ''_''
      then let components = split_byte (CHR ''.'') domain
           in case parse_int64 (trim_prefix (components ! 0) ''_'') of
                None \<Rightarrow> Inl (invalid_domain domain)
              | Some port \<Rightarrow>
                  if 2 \<le> length components \<and> components ! 1 = ''_https'' \<and> 0 \<le> port \<and> port \<le> 65535
                  then Inr (join_bytes ''.'' (drop 2 components), components ! 0 @ ''.'' @ components ! 1 @ ''.'')
                  else Inl (invalid_domain domain)
      else Inr (domain, ''''))"

definition idna_LookupHTTPS :: "(string \<Rightarrow> go_error + string) \<Rightarrow> resolver \<Rightarrow> string \<Rightarrow> go_error + HTTPSSvc" where
  "idna_LookupHTTPS ToASCII r domain =
     (case idna_split domain of
        Inl err \<Rightarrow> Inl err
      | Inr (idnable, portPrefix) \<Rightarrow>
          (case ToASCII idnable of Inl err \<Rightarrow> Inl err | Inr ldh \<Rightarrow> r_LookupHTTPS r (portPrefix @ ldh)))"

definition resolverIDNA :: "(string \<Rightarrow> go_error + string) \<Rightarrow> resolver \<Rightarrow> resolver" where
  "resolverIDNA ToASCII r =
     r\<lparr>r_LookupHost := (\<lambda>hostname. case ToASCII hostname of Inl err \<Rightarrow> Inl err | Inr host \<Rightarrow> r_LookupHost r host),
       r_LookupHTTPS := idna_LookupHTTPS ToASCII r,
       r_LookupNS := (\<lambda>domain. case ToASCII domain of Inl err \<Rightarrow> Inl err | Inr host \<Rightarrow> r_LookupNS r host)\<rparr>"

text \<open>The logger prints and returns what the resolver returns.\<close>

definition resolverLogger :: "resolver \<Rightarrow> resolver" where
  "resolverLogger r = r"

definition WrapResolver :: "(string \<Rightarrow> go_error + string) \<Rightarrow> resolver \<Rightarrow> resolver" where
  "WrapResolver ToASCII r = resolverIDNA ToASCII (resolverLogger (ResolverShortCircuitIPAddr (resolverErrWrapper r)))"

definition ErrNoResolver :: go_error where
  "ErrNoResolver = new_error ''no configured resolver''"

definition NullResolver :: resolver where
  "NullResolver = \<lparr>r_LookupHost = (\<lambda>h. Inl ErrNoResolver), r_LookupHTTPS = (\<lambda>d. Inl ErrNoResolver),
     r_LookupNS = (\<lambda>d. Inl ErrNoResolver), r_Network = ''null'', r_Address = ''''\<rparr>"

definition ErrDNSBogon_error :: go_error where
  "ErrDNSBogon_error = sentinel_error SentinelDNSBogon ''dns: detected bogon address''"

definition bogonResolver :: "resolver \<Rightarrow> resolver" where
  "bogonResolver r =
     r\<lparr>r_LookupHost := (\<lambda>hostname.
         case bogon_LookupHost (r_LookupHost r hostname) of
           Inl (ResolverError err) \<Rightarrow> Inl err
         | Inl ErrDNSBogon \<Rightarrow> Inl (wrap_error ClassifyResolverError ResolveOperation ErrDNSBogon_error)
         | Inr addrs \<Rightarrow> Inr addrs),
       r_LookupHTTPS := (\<lambda>domain. Inl ErrNoDNSTransport),
       r_LookupNS := (\<lambda>domain. Inl ErrNoDNSTransport)\<rparr>"

definition MaybeWrapWithBogonResolver :: "bool \<Rightarrow> resolver \<Rightarrow> resolver" where
  "MaybeWrapWithBogonResolver enabled reso = (if enabled then bogonResolver reso else reso)"

section \<open>The caching resolver\<close>

text \<open>
  The cache with the flag that makes it static. The underlying resolver may answer differently each
  time, so it is an argument of each lookup. A resolver that does not fail returns a slice that is
  not nil.
\<close>

record cacheResolver =
  c_cache :: "(string, string list) gomap"
  c_readOnly :: bool

definition cache_get :: "cacheResolver \<Rightarrow> string \<Rightarrow> string list option" where
  "cache_get c domain = gmap_get (c_cache c) domain"

definition cache_set :: "cacheResolver \<Rightarrow> string \<Rightarrow> string list \<Rightarrow> cacheResolver" where
  "cache_set c domain addresses = c\<lparr>c_cache := AList.update domain addresses (c_cache c)\<rparr>"

definition cache_LookupHost ::
    "(string \<Rightarrow> go_error + string list) \<Rightarrow> cacheResolver \<Rightarrow> string \<Rightarrow> cacheResolver \<times> (go_error + string list)" where
  "cache_LookupHost resolver c hostname =
     (case cache_get c hostname of
        Some entry \<Rightarrow> (c, Inr entry)
      | None \<Rightarrow>
          (case resolver hostname of
             Inl err \<Rightarrow> (c, Inl err)
           | Inr entry \<Rightarrow> (if c_readOnly c then c else cache_set c hostname entry, Inr entry)))"

text \<open>The constructors; no cache is \<open>None\<close>.\<close>

definition MaybeWrapWithCachingResolver :: "bool \<Rightarrow> cacheResolver option" where
  "MaybeWrapWithCachingResolver enabled = (if enabled then Some \<lparr>c_cache = [], c_readOnly = False\<rparr> else None)"

definition MaybeWrapWithStaticDNSCache :: "(string, string list) gomap \<Rightarrow> cacheResolver option" where
  "MaybeWrapWithStaticDNSCache cache = (if cache \<noteq> [] then Some \<lparr>c_cache = cache, c_readOnly = True\<rparr> else None)"

section \<open>Lemmas\<close>

text \<open>What a lookup contributes: the addresses of a success.\<close>

definition addrs_of :: "go_error + string list \<Rightarrow> string list" where
  "addrs_of res = (case res of Inl _ \<Rightarrow> [] | Inr addrs \<Rightarrow> addrs)"

text \<open>The merge of the two answers that both resolvers perform.\<close>

definition merged :: "go_error + string list \<Rightarrow> go_error + string list \<Rightarrow> go_error + string list" where
  "merged resA resAAAA =
     (case (resA, resAAAA) of
        (Inl errA, Inl _) \<Rightarrow> Inl errA
      | _ \<Rightarrow> if addrs_of resA @ addrs_of resAAAA = [] then Inl ErrOODNSNoAnswer else Inr (addrs_of resA @ addrs_of resAAAA))"

lemma parallel_lookup_serial:
  "parallel_lookup ids txp hostname qtype =
     (addrs_of (serial_lookup ids txp hostname qtype),
      case serial_lookup ids txp hostname qtype of Inl err \<Rightarrow> Some err | Inr _ \<Rightarrow> None)"
  by (simp add: parallel_lookup_def serial_lookup_def addrs_of_def Let_def split: sum.split)

lemma parallel_LookupHost_merged:
  "parallel_LookupHost ids txp hostname =
     merged (serial_lookup ids txp hostname TypeA) (serial_lookup ids txp hostname TypeAAAA)"
  by (auto simp: parallel_LookupHost_def parallel_lookup_serial merged_def addrs_of_def Let_def split: sum.split)

text \<open>The first success of three attempts, where only a timeout is retried; otherwise the first error.\<close>

definition retried :: "(nat \<Rightarrow> go_error + string list) \<Rightarrow> nat \<Rightarrow> bool" where
  "retried attempt n \<longleftrightarrow> (\<forall>i < n. \<exists>err. attempt i = Inl err \<and> is_op_timeout err)"

definition first_success :: "(nat \<Rightarrow> go_error + string list) \<Rightarrow> go_error + string list" where
  "first_success attempt =
     (case find (\<lambda>n. retried attempt n \<and> (\<exists>r. attempt n = Inr r)) [0, Suc 0, Suc (Suc 0)] of
        Some n \<Rightarrow> attempt n | None \<Rightarrow> attempt 0)"

lemma lookupHostWithRetry_first:
  "\<exists>n. lookupHostWithRetry attempt timeouts = Some (n, first_success attempt)"
proof -
  have r: "retried attempt 0" "retried attempt (Suc 0) \<longleftrightarrow> (\<exists>e. attempt 0 = Inl e \<and> is_op_timeout e)"
    "retried attempt (Suc (Suc 0)) \<longleftrightarrow>
       (\<exists>e. attempt 0 = Inl e \<and> is_op_timeout e) \<and> (\<exists>e. attempt (Suc 0) = Inl e \<and> is_op_timeout e)"
    by (auto simp: retried_def less_Suc_eq)
  show ?thesis
    by (cases "attempt 0"; cases "attempt (Suc 0)"; cases "attempt (Suc (Suc 0))")
      (auto simp: lookupHostWithRetry_def first_success_def r numeral_3_eq_3)
qed

lemma serial_LookupHost_merged:
  "\<exists>n. serial_LookupHost ids txp hostname timeouts = Some (n,
     merged (first_success (\<lambda>i. serial_lookup (ids i) (txp i) hostname TypeA))
            (first_success (\<lambda>i. serial_lookup (ids i) (txp i) hostname TypeAAAA)))"
proof -
  let ?a = "\<lambda>i. serial_lookup (ids i) (txp i) hostname TypeA"
  let ?aaaa = "\<lambda>i. serial_lookup (ids i) (txp i) hostname TypeAAAA"
  obtain m where m: "lookupHostWithRetry ?a timeouts = Some (m, first_success ?a)"
    using lookupHostWithRetry_first [of ?a timeouts] by blast
  obtain n where "lookupHostWithRetry ?aaaa m = Some (n, first_success ?aaaa)"
    using lookupHostWithRetry_first [of ?aaaa m] by blast
  with m show ?thesis
    by (auto simp: serial_LookupHost_def merged_def addrs_of_def split: sum.split)
qed

lemma merged_Inr: "merged a b = Inr addrs \<longleftrightarrow> addrs = addrs_of a @ addrs_of b \<and> addrs \<noteq> []"
  by (auto simp: merged_def addrs_of_def split: sum.splits)

lemma merged_Inl:
  "merged a b = Inl err \<Longrightarrow> (\<exists>e. b = Inl e) \<and> a = Inl err \<or> err = ErrOODNSNoAnswer \<and> addrs_of a @ addrs_of b = []"
  by (auto simp: merged_def split: sum.splits if_splits)

section \<open>The contracts\<close>

lemma wrap_result_classified: "wrap_result res = Inl err \<Longrightarrow> is_wrapped err"
  by (auto simp: wrap_result_def split: sum.splits)

lemma wrap_result_Inr [simp]: "wrap_result res = Inr x \<longleftrightarrow> res = Inr x"
  by (auto simp: wrap_result_def split: sum.splits)

text \<open>The error wrapper and the short circuit keep the contract; the bogon resolver does if the resolver below it does.\<close>

interpretation err_wrapper: classified_lookup "r_LookupHost (resolverErrWrapper r)"
  by unfold_locales (auto simp: resolverErrWrapper_def dest: wrap_result_classified)

interpretation short_circuit: classified_lookup "r_LookupHost (ResolverShortCircuitIPAddr (resolverErrWrapper r))"
  using err_wrapper.classified
  by unfold_locales (auto simp: ResolverShortCircuitIPAddr_def ShortCircuitIPAddr_LookupHost_def split: if_splits)

lemma bogon_classified:
  assumes "classified_lookup (r_LookupHost r)"
  shows "classified_lookup (r_LookupHost (bogonResolver r))"
  using classified_lookup.classified [OF assms]
  by unfold_locales (auto simp: bogonResolver_def bogon_LookupHost_def split: sum.splits if_splits)

lemma WrapResolver_LookupHost:
  "r_LookupHost (WrapResolver ToASCII r) hostname =
     (case ToASCII hostname of
        Inl err \<Rightarrow> Inl err
      | Inr host \<Rightarrow> if ParseIP host \<noteq> None then Inr [host] else wrap_result (r_LookupHost r host))"
  by (simp add: WrapResolver_def resolverIDNA_def resolverLogger_def ResolverShortCircuitIPAddr_def
      ShortCircuitIPAddr_LookupHost_def resolverErrWrapper_def split: sum.split)

lemma bogon_LookupHost_Inr:
  "r_LookupHost (bogonResolver r) hostname = Inr addrs \<longleftrightarrow>
     r_LookupHost r hostname = Inr addrs \<and> list_all (\<lambda>a. \<not> IsBogon a) addrs"
  by (auto simp: bogonResolver_def bogon_LookupHost_def list_all_iff list_ex_iff split: sum.splits if_splits)

text \<open>A sequence of lookups through one cache, each with the resolver as it behaves at that time.\<close>

fun cache_run ::
    "cacheResolver \<Rightarrow> ((string \<Rightarrow> go_error + string list) \<times> string) list \<Rightarrow> cacheResolver \<times> (go_error + string list) list" where
  "cache_run c [] = (c, [])"
| "cache_run c ((r, h) # ls) =
     (let (c', res) = cache_LookupHost r c h; (c'', results) = cache_run c' ls in (c'', res # results))"

lemma cache_LookupHost_cases:
  assumes "cache_LookupHost r c h = (c', res)"
  shows "c_readOnly c' = c_readOnly c"
    and "cache_get c k = Some v \<Longrightarrow> cache_get c' k = Some v"
    and "c_readOnly c \<Longrightarrow> c' = c"
    and "\<not> c_readOnly c \<Longrightarrow> res = Inr entry \<Longrightarrow> cache_get c' h = Some entry"
    and "cache_get c h = Some v \<Longrightarrow> res = Inr v"
    and "cache_get c h = None \<Longrightarrow> res = r h"
  using assms by (auto simp: cache_LookupHost_def cache_get_def cache_set_def split: option.splits sum.splits if_splits)

lemma cache_run_length: "length (snd (cache_run c ls)) = length ls"
  by (induction c ls rule: cache_run.induct) (auto split: prod.split)

lemma cache_run_hit:
  assumes "cache_get c h = Some v" and "j < length ls" and "snd (ls ! j) = h"
  shows "snd (cache_run c ls) ! j = Inr v"
  using assms
proof (induction c ls arbitrary: j rule: cache_run.induct)
  case (1 c)
  then show ?case by simp
next
  case (2 c r k ls)
  obtain c' res where look: "cache_LookupHost r c k = (c', res)" by (cases "cache_LookupHost r c k")
  obtain c'' results where run: "cache_run c' ls = (c'', results)" by (cases "cache_run c' ls")
  note look_facts = cache_LookupHost_cases [OF look]
  show ?case
  proof (cases j)
    case 0
    with 2(2,4) look run look_facts(5) show ?thesis by simp
  next
    case (Suc i)
    have "snd (cache_run c' ls) ! i = Inr v"
      using 2(1) [OF look [symmetric] refl, of i] 2(2-4) look_facts(2) Suc by simp
    with Suc look run show ?thesis by simp
  qed
qed

lemma cache_run_split:
  "cache_run c (xs @ ys) =
     (let (c', rs) = cache_run c xs; (c'', rs') = cache_run c' ys in (c'', rs @ rs'))"
  by (induction c xs rule: cache_run.induct) (auto split: prod.split)

lemma cache_run_readOnly: "c_readOnly (fst (cache_run c ls)) = c_readOnly c"
proof (induction c ls rule: cache_run.induct)
  case (2 c r h ls)
  obtain c' res where look: "cache_LookupHost r c h = (c', res)" by (cases "cache_LookupHost r c h")
  show ?case
    using 2 [OF look [symmetric] refl] cache_LookupHost_cases(1) [OF look] look by (simp add: case_prod_beta)
qed simp

lemma cache_run_nth:
  assumes "i < length ls" and "ls ! i = (r, h)" and "cache_LookupHost r (fst (cache_run c (take i ls))) h = (c', res)"
  shows "snd (cache_run c ls) ! i = res"
    and "i < j \<Longrightarrow> j < length ls \<Longrightarrow>
      snd (cache_run c ls) ! j = snd (cache_run c' (drop (Suc i) ls)) ! (j - Suc i)"
proof -
  have ls: "ls = take i ls @ (r, h) # drop (Suc i) ls"
    using id_take_nth_drop [of i ls] assms(1,2) by simp
  have run: "snd (cache_run c ls) = snd (cache_run c (take i ls)) @ res # snd (cache_run c' (drop (Suc i) ls))"
    using assms(3) by (subst ls, subst cache_run_split) (simp add: Let_def case_prod_beta)
  have len: "length (snd (cache_run c (take i ls))) = i"
    using assms(1) by (simp add: cache_run_length)
  show "snd (cache_run c ls) ! i = res" using run len by (simp add: nth_append)
  show "snd (cache_run c ls) ! j = snd (cache_run c' (drop (Suc i) ls)) ! (j - Suc i)"
    if "i < j" "j < length ls"
  proof -
    have "j - i = Suc (j - Suc i)" using that by simp
    then show ?thesis using run len that by (simp add: nth_append)
  qed
qed

lemma cache_run_origin:
  "cache_get (fst (cache_run c ls)) h = Some v \<Longrightarrow>
     cache_get c h = Some v \<or> (\<exists>i < length ls. snd (ls ! i) = h \<and> snd (cache_run c ls) ! i = Inr v)"
proof (induction c ls rule: cache_run.induct)
  case (2 c r k ls)
  obtain c' res where look: "cache_LookupHost r c k = (c', res)" by (cases "cache_LookupHost r c k")
  have run: "cache_run c ((r, k) # ls) = (fst (cache_run c' ls), res # snd (cache_run c' ls))"
    using look by (simp add: case_prod_beta)
  consider "cache_get c' h = Some v" | i where "i < length ls" "snd (ls ! i) = h" "snd (cache_run c' ls) ! i = Inr v"
    using 2(1) [OF look [symmetric] refl] 2(2) run by auto
  then show ?case
  proof cases
    case 1
    then have "cache_get c h = Some v \<or> k = h \<and> res = Inr v"
      using look by (auto simp: cache_LookupHost_def cache_get_def cache_set_def split: option.splits sum.splits if_splits)
    then show ?thesis using run by (auto simp del: cache_run.simps intro!: exI [of _ 0])
  next
    case (2 i)
    then show ?thesis using run by (auto simp del: cache_run.simps intro!: exI [of _ "Suc i"])
  qed
qed simp

section \<open>Properties\<close>

text \<open>
  The serial resolver agrees with the parallel resolver. If the transport gives the same outcome to
  each retry of a query, the serial resolver returns what the parallel resolver returns and never
  panics. That result is the addresses of the A query followed by those of the AAAA query; there is
  an error only if both queries fail, which is then the error of the A query, or if no address
  was found.
\<close>

theorem serial_agrees_with_parallel:
  "(\<exists>n. serial_LookupHost (\<lambda>_. ids) (\<lambda>_. txp) hostname timeouts = Some (n, parallel_LookupHost ids txp hostname)) \<and>
   (case parallel_LookupHost ids txp hostname of
      Inr addrs \<Rightarrow> addrs \<noteq> [] \<and> addrs = addrs_of (serial_lookup ids txp hostname TypeA) @ addrs_of (serial_lookup ids txp hostname TypeAAAA)
    | Inl err \<Rightarrow> serial_lookup ids txp hostname TypeA = Inl err \<and> (\<exists>e. serial_lookup ids txp hostname TypeAAAA = Inl e) \<or>
        err = ErrOODNSNoAnswer \<and>
        addrs_of (serial_lookup ids txp hostname TypeA) @ addrs_of (serial_lookup ids txp hostname TypeAAAA) = [])"
proof
  have const: "first_success (\<lambda>_. x) = x" for x
    by (simp add: first_success_def split: option.split)
  show "\<exists>n. serial_LookupHost (\<lambda>_. ids) (\<lambda>_. txp) hostname timeouts = Some (n, parallel_LookupHost ids txp hostname)"
    using serial_LookupHost_merged [of "\<lambda>_. ids" "\<lambda>_. txp" hostname timeouts]
    by (simp add: const parallel_LookupHost_merged)
qed (auto simp: parallel_LookupHost_merged merged_Inr dest: merged_Inl split: sum.split)

text \<open>
  The caching resolver is coherent. In any sequence of lookups, whatever the resolver below answers
  at each of them, once a lookup of a name succeeds every later lookup of that name returns the same
  addresses; a failure is not remembered, so a lookup of a name that has not succeeded yet returns
  what the resolver answers at that time.
\<close>

theorem caching_resolver_coherent:
  assumes "MaybeWrapWithCachingResolver True = Some c" and "j < length ls" and "ls ! j = (r, h)"
  shows "snd (cache_run c ls) ! j =
    (case find (\<lambda>i. snd (ls ! i) = h \<and> \<not> isl (snd (cache_run c ls) ! i)) [0 ..< j] of
       Some i \<Rightarrow> snd (cache_run c ls) ! i
     | None \<Rightarrow> r h)"
proof (cases "find (\<lambda>i. snd (ls ! i) = h \<and> \<not> isl (snd (cache_run c ls) ! i)) [0 ..< j]")
  case (Some i)
  then have i: "i < j" "snd (ls ! i) = h" "\<not> isl (snd (cache_run c ls) ! i)"
    by (auto simp: find_Some_iff)
  obtain r' where ri: "ls ! i = (r', h)" using i(2) by (cases "ls ! i") simp
  let ?c = "fst (cache_run c (take i ls))"
  obtain c' res where look: "cache_LookupHost r' ?c h = (c', res)" by (cases "cache_LookupHost r' ?c h")
  have "i < length ls" using i(1) assms(2) by simp
  note nth = cache_run_nth [OF this ri look]
  obtain v where v: "res = Inr v" using i(3) nth(1) by (cases res) auto
  have "\<not> c_readOnly ?c"
    using assms(1) by (auto simp: cache_run_readOnly MaybeWrapWithCachingResolver_def)
  then have "cache_get c' h = Some v" using cache_LookupHost_cases(4) [OF look] v by blast
  moreover have "j - Suc i < length (drop (Suc i) ls)" "snd (drop (Suc i) ls ! (j - Suc i)) = h"
    using i(1) assms(2,3) by auto
  ultimately show ?thesis
    using cache_run_hit nth i(1) assms(2) v Some by simp
next
  case None
  let ?c = "fst (cache_run c (take j ls))"
  obtain c' res where look: "cache_LookupHost r ?c h = (c', res)" by (cases "cache_LookupHost r ?c h")
  have fresh: "isl (snd (cache_run c ls) ! i)" if "i < j" "snd (ls ! i) = h" for i
    using None that by (auto simp: find_None_iff)
  have prefix: "snd (cache_run c (take j ls)) ! i = snd (cache_run c ls) ! i" if "i < j" for i
  proof -
    have "snd (cache_run c (take j ls @ drop j ls)) = snd (cache_run c (take j ls)) @ snd (cache_run ?c (drop j ls))"
      by (subst cache_run_split) (simp add: Let_def case_prod_beta)
    then show ?thesis using that assms(2) by (simp add: nth_append cache_run_length)
  qed
  have "cache_get c h = None"
    using assms(1) by (auto simp: MaybeWrapWithCachingResolver_def cache_get_def)
  then have "cache_get ?c h = None"
    using cache_run_origin [of c "take j ls" h] fresh prefix assms(2) by (cases "cache_get ?c h") force+
  then show ?thesis
    using cache_LookupHost_cases(6) [OF look] cache_run_nth(1) [OF assms(2,3) look] None by simp
qed

text \<open>A name that fails, then resolves, then is looked up while the resolver answers differently.\<close>

definition sample_lookups :: "((string \<Rightarrow> go_error + string list) \<times> string) list" where
  "sample_lookups =
     [(\<lambda>h. Inl ErrOODNSNoAnswer, ''a.org''), (\<lambda>h. Inr [''8.8.8.8''], ''a.org''), (\<lambda>h. Inr [''1.1.1.1''], ''a.org'')]"

theorem caching_resolver_coherent_witness:
  "snd (cache_run \<lparr>c_cache = [], c_readOnly = False\<rparr> sample_lookups) ! 2 = Inr [''8.8.8.8'']"
  using caching_resolver_coherent [of "\<lparr>c_cache = [], c_readOnly = False\<rparr>" 2 sample_lookups "\<lambda>h. Inr [''1.1.1.1'']" "''a.org''"]
  by (simp add: MaybeWrapWithCachingResolver_def sample_lookups_def upt_rec cache_LookupHost_def cache_get_def cache_set_def)

end
