(* ===== verification/NetDialer.thy ===== *)
theory NetDialer
  imports Resolvers
begin

text \<open>
  The dialer of \<open>internal/netxlite/dialer.go\<close> with the helpers of \<open>quirks.go\<close>: it resolves the name of
  an endpoint, orders the addresses and connects to each in turn until one succeeds. A dialer is
  a function from the network and the endpoint to an error or a connection; the base dialer stands for
  the operating system and depends on the number of the attempt too. The hook \<open>OnConnectDone\<close> of the trace
  is a log of its arguments without the times.

  \<open>dial_outcome\<close> and the properties describe the loop: the addresses that are tried and in which order,
  which connection or error the caller gets, and what the trace has recorded.
\<close>

section \<open>Quirks\<close>

definition errReduceErrorsEmptyList :: go_error where
  "errReduceErrorsEmptyList = new_error ''bug: reduceErrors given an empty list''"

definition is_known :: "go_error \<Rightarrow> bool" where
  "is_known err \<longleftrightarrow> errors_As as_wrapper err \<noteq> None \<and> \<not> has_prefix (err_Error err) ''unknown_failure''"

fun first_known :: "go_error list \<Rightarrow> go_error option" where
  "first_known [] = None"
| "first_known (err # errs) = (if is_known err then Some err else first_known errs)"

definition quirkReduceErrors :: "go_error list \<Rightarrow> go_error" where
  "quirkReduceErrors errorslist =
     (case errorslist of
        [] \<Rightarrow> errReduceErrorsEmptyList
      | e # _ \<Rightarrow> (case first_known errorslist of Some err \<Rightarrow> err | None \<Rightarrow> e))"

definition quirkSortIPAddrs :: "string list \<Rightarrow> string list" where
  "quirkSortIPAddrs addrs =
     filter (\<lambda>a. ParseIP a \<noteq> None \<and> \<not> isIPv6 a) addrs @ filter (\<lambda>a. ParseIP a \<noteq> None \<and> isIPv6 a) addrs"

section \<open>Dialers\<close>

type_synonym 'c dialer = "nat \<Rightarrow> string \<Rightarrow> string \<Rightarrow> go_error + 'c"

text \<open>A connection, and the one that wraps the errors of another.\<close>

record ('r, 'w) net_conn =
  nc_Read :: "'r \<Rightarrow> go_error + nat"
  nc_Write :: "'w \<Rightarrow> go_error + nat"
  nc_Close :: "go_error option"

definition dialerErrWrapperConn :: "('r, 'w) net_conn \<Rightarrow> ('r, 'w) net_conn" where
  "dialerErrWrapperConn c =
     \<lparr>nc_Read = (\<lambda>b. case nc_Read c b of Inl err \<Rightarrow> Inl (wrap_error ClassifyGenericError ReadOperation err) | Inr n \<Rightarrow> Inr n),
      nc_Write = (\<lambda>b. case nc_Write c b of Inl err \<Rightarrow> Inl (wrap_error ClassifyGenericError WriteOperation err) | Inr n \<Rightarrow> Inr n),
      nc_Close = map_option (wrap_error ClassifyGenericError CloseOperation) (nc_Close c)\<rparr>"

definition dialerErrWrapper :: "('r, 'w) net_conn dialer \<Rightarrow> ('r, 'w) net_conn dialer" where
  "dialerErrWrapper d i network address =
     (case d i network address of
        Inl err \<Rightarrow> Inl (wrap_error ClassifyGenericError ConnectOperation err)
      | Inr conn \<Rightarrow> Inr (dialerErrWrapperConn conn))"

text \<open>The loggers print and return what the dialer below returns.\<close>

definition dialerLogger :: "'c dialer \<Rightarrow> 'c dialer" where
  "dialerLogger d = d"

definition dialer_lookupHost :: "resolver \<Rightarrow> string \<Rightarrow> go_error + string list" where
  "dialer_lookupHost r hostname = (if ParseIP hostname \<noteq> None then Inr [hostname] else r_LookupHost r hostname)"

text \<open>
  The loop over the addresses. The error of an attempt is the one after \<open>MaybeNewErrWrapper\<close>, which is nil for
  a success. Each entry of the log has the network, the host that was asked for, the target and the error.
\<close>

type_synonym connect_log = "(string \<times> string \<times> string \<times> go_error option) list"

fun dial_loop ::
    "('r, 'w) net_conn dialer \<Rightarrow> string \<Rightarrow> string \<Rightarrow> string \<Rightarrow> nat \<Rightarrow> string list \<Rightarrow> go_error list \<Rightarrow> connect_log \<Rightarrow>
     connect_log \<times> (go_error + ('r, 'w) net_conn)" where
  "dial_loop d network onlyhost onlyport i [] errorslist lg = (lg, Inl (quirkReduceErrors errorslist))"
| "dial_loop d network onlyhost onlyport i (addr # addrs) errorslist lg =
     (let target = join_host_port addr onlyport
      in case d i network target of
           Inr conn \<Rightarrow> (lg @ [(network, onlyhost, target, None)], Inr (dialerErrWrapperConn conn))
         | Inl err \<Rightarrow>
             let err = wrap_error ClassifyGenericError ConnectOperation err
             in dial_loop d network onlyhost onlyport (Suc i) addrs (errorslist @ [err])
                  (lg @ [(network, onlyhost, target, Some err)]))"

text \<open>The error of \<open>net.SplitHostPort\<close> as a Go error.\<close>

definition addr_error_text :: "addr_error \<Rightarrow> string" where
  "addr_error_text e =
     (case e of
        MissingPort \<Rightarrow> ''missing port in address''
      | TooManyColons \<Rightarrow> ''too many colons in address''
      | MissingBracket \<Rightarrow> ''missing '' @ [CHR 0x27, CHR '']'', CHR 0x27] @ '' in address''
      | UnexpectedBracket c \<Rightarrow> ''unexpected '' @ [CHR 0x27, c, CHR 0x27] @ '' in address'')"

definition addr_error :: "addr_error \<Rightarrow> string \<Rightarrow> go_error" where
  "addr_error e address =
     new_error ((if address \<noteq> '''' then ''address '' @ address @ '': '' else '''') @ addr_error_text e)"

definition dialer_DialContext ::
    "resolver \<Rightarrow> ('r, 'w) net_conn dialer \<Rightarrow> string \<Rightarrow> string \<Rightarrow> connect_log \<times> (go_error + ('r, 'w) net_conn)" where
  "dialer_DialContext r d network address =
     (case SplitHostPort address of
        Inl e \<Rightarrow> ([], Inl (addr_error e address))
      | Inr (onlyhost, onlyport) \<Rightarrow>
          (case dialer_lookupHost r onlyhost of
             Inl err \<Rightarrow> ([], Inl err)
           | Inr addrs \<Rightarrow> dial_loop d network onlyhost onlyport 0 (quirkSortIPAddrs addrs) [] []))"

text \<open>A nil wrapper is \<open>None\<close> and ignored.\<close>

definition WrapDialer ::
    "resolver \<Rightarrow> ('r, 'w) net_conn dialer \<Rightarrow> (('r, 'w) net_conn dialer \<Rightarrow> ('r, 'w) net_conn dialer) option list \<Rightarrow>
     string \<Rightarrow> string \<Rightarrow> connect_log \<times> (go_error + ('r, 'w) net_conn)" where
  "WrapDialer r baseDialer wrappers =
     (let outDialer = fold (\<lambda>w d. case w of None \<Rightarrow> d | Some wrap \<Rightarrow> wrap d) wrappers (dialerErrWrapper baseDialer)
      in dialer_DialContext r (dialerLogger outDialer))"

text \<open>\<open>NewDialerWithoutResolver\<close>.\<close>

definition NewDialerWithoutResolver ::
    "('r, 'w) net_conn dialer \<Rightarrow> string \<Rightarrow> string \<Rightarrow> connect_log \<times> (go_error + ('r, 'w) net_conn)" where
  "NewDialerWithoutResolver baseDialer = WrapDialer NullResolver baseDialer []"

text \<open>The dialer that hands out one connection; its state is the connection that is left.\<close>

definition ErrNoConnReuse :: go_error where
  "ErrNoConnReuse = new_error ''cannot reuse connection''"

definition NewSingleUseDialer :: "'c \<Rightarrow> 'c option" where
  "NewSingleUseDialer conn = Some conn"

definition singleUse_DialContext :: "'c option \<Rightarrow> 'c option \<times> (go_error + 'c)" where
  "singleUse_DialContext s = (case s of None \<Rightarrow> (None, Inl ErrNoConnReuse) | Some conn \<Rightarrow> (None, Inr conn))"

definition ErrNoDialer :: go_error where
  "ErrNoDialer = new_error ''no configured dialer''"

definition nullDialer :: "'c dialer" where
  "nullDialer i network address = Inl ErrNoDialer"

section \<open>Lemmas\<close>

text \<open>The order of the addresses is a stable sort of the valid ones that puts IPv6 last.\<close>

lemma quirkSortIPAddrs_sort:
  "quirkSortIPAddrs addrs = sort_key isIPv6 (filter (\<lambda>a. ParseIP a \<noteq> None) addrs)"
proof (rule sym, rule properties_for_sort_key)
  show "mset (quirkSortIPAddrs addrs) = mset (filter (\<lambda>a. ParseIP a \<noteq> None) addrs)"
    by (induction addrs) (auto simp: quirkSortIPAddrs_def)
  show "filter (\<lambda>a. isIPv6 k = isIPv6 a) (quirkSortIPAddrs addrs) =
      filter (\<lambda>a. isIPv6 k = isIPv6 a) (filter (\<lambda>a. ParseIP a \<noteq> None) addrs)" for k
    by (cases "isIPv6 k") (auto simp: quirkSortIPAddrs_def intro!: filter_cong)
  show "sorted (map isIPv6 (quirkSortIPAddrs addrs))"
  proof -
    have "map isIPv6 (filter (\<lambda>a. ParseIP a \<noteq> None \<and> \<not> isIPv6 a) addrs) =
        map (\<lambda>_. False) (filter (\<lambda>a. ParseIP a \<noteq> None \<and> \<not> isIPv6 a) addrs)"
      "map isIPv6 (filter (\<lambda>a. ParseIP a \<noteq> None \<and> isIPv6 a) addrs) =
        map (\<lambda>_. True) (filter (\<lambda>a. ParseIP a \<noteq> None \<and> isIPv6 a) addrs)"
      by (rule map_cong; simp)+
    then show ?thesis by (simp only: quirkSortIPAddrs_def map_append) (auto simp: map_replicate_const sorted_append)
  qed
qed

text \<open>The attempts, numbered by the loop, and how many fail before the first success.\<close>

definition dial_attempt :: "'c dialer \<Rightarrow> string \<Rightarrow> string list \<Rightarrow> nat \<Rightarrow> go_error + 'c" where
  "dial_attempt d network targets j = d j network (targets ! j)"

definition failing :: "(nat \<Rightarrow> 'e + 'c) \<Rightarrow> nat \<Rightarrow> nat" where
  "failing f n = length (takeWhile (\<lambda>j. isl (f j)) [0 ..< n])"

lemma failing_spec:
  "failing f n \<le> n" "j < failing f n \<Longrightarrow> isl (f j)" "failing f n < n \<Longrightarrow> \<not> isl (f (failing f n))"
proof -
  show "failing f n \<le> n" using length_takeWhile_le [of "\<lambda>j. isl (f j)" "[0 ..< n]"] by (simp add: failing_def)
  show "isl (f j)" if "j < failing f n"
    using that nth_mem [of j "takeWhile (\<lambda>j. isl (f j)) [0 ..< n]"] takeWhile_nth [of j "\<lambda>j. isl (f j)" "[0 ..< n]"]
      set_takeWhileD \<open>failing f n \<le> n\<close> by (fastforce simp: failing_def)
  show "\<not> isl (f (failing f n))" if "failing f n < n"
    using that nth_length_takeWhile [of "\<lambda>j. isl (f j)" "[0 ..< n]"] by (simp add: failing_def)
qed

lemma failing_unique:
  assumes "k \<le> n" "\<And>j. j < k \<Longrightarrow> isl (f j)" "k < n \<Longrightarrow> \<not> isl (f k)"
  shows "failing f n = k"
proof (rule ccontr)
  assume "failing f n \<noteq> k"
  then consider "failing f n < k" | "k < failing f n" by linarith
  then show False
  proof cases
    case 1
    then have "\<not> isl (f (failing f n))" using assms(1) failing_spec(3) [of f n] by simp
    with 1 assms(2) show False by blast
  next
    case 2
    then have "k < n" using failing_spec(1) [of f n] by simp
    with 2 assms(3) failing_spec(2) [of k f n] show False by blast
  qed
qed

abbreviation connect_error :: "go_error \<Rightarrow> go_error" where
  "connect_error \<equiv> wrap_error ClassifyGenericError ConnectOperation"

lemma dial_loop_run:
  assumes "\<And>j. j < k \<Longrightarrow> d (i + j) network (join_host_port (addrs ! j) port) = Inl (es j)" and "k \<le> length addrs"
  shows "dial_loop d network host port i addrs errs lg =
    dial_loop d network host port (i + k) (drop k addrs) (errs @ map (\<lambda>j. connect_error (es j)) [0 ..< k])
      (lg @ map (\<lambda>j. (network, host, join_host_port (addrs ! j) port, Some (connect_error (es j)))) [0 ..< k])"
  using assms
proof (induction k)
  case (Suc k)
  then have k: "k < length addrs" by simp
  have "drop k addrs = addrs ! k # drop (Suc k) addrs" using k by (simp add: Cons_nth_drop_Suc)
  moreover have "d (i + k) network (join_host_port (addrs ! k) port) = Inl (es k)" using Suc.prems(1) by simp
  ultimately show ?case using Suc.IH Suc.prems k by (simp add: Let_def)
qed simp

text \<open>The two ways in which the loop ends.\<close>

lemma dial_loop_success:
  assumes "\<And>j. j < k \<Longrightarrow> d j network (join_host_port (addrs ! j) port) = Inl (es j)" and "k < length addrs"
    and "d k network (join_host_port (addrs ! k) port) = Inr conn"
  shows "dial_loop d network host port 0 addrs [] [] =
    (map (\<lambda>j. (network, host, join_host_port (addrs ! j) port, Some (connect_error (es j)))) [0 ..< k] @
       [(network, host, join_host_port (addrs ! k) port, None)],
     Inr (dialerErrWrapperConn conn))"
proof -
  have "drop k addrs = addrs ! k # drop (Suc k) addrs" using assms(2) by (simp add: Cons_nth_drop_Suc)
  with dial_loop_run [of k d 0 network addrs port es host "[]" "[]"] assms show ?thesis by simp
qed

lemma dial_loop_failure:
  assumes "\<And>j. j < length addrs \<Longrightarrow> d j network (join_host_port (addrs ! j) port) = Inl (es j)"
  shows "dial_loop d network host port 0 addrs [] [] =
    (map (\<lambda>j. (network, host, join_host_port (addrs ! j) port, Some (connect_error (es j)))) [0 ..< length addrs],
     Inl (quirkReduceErrors (map (\<lambda>j. connect_error (es j)) [0 ..< length addrs])))"
  using dial_loop_run [of "length addrs" d 0 network addrs port es host "[]" "[]"] assms by simp

lemma first_known_find: "first_known errs = find is_known errs"
  by (induction errs) auto

section \<open>Properties\<close>

text \<open>
  C19: Dialing an endpoint. The dialer tries the valid addresses of the host in the order of the resolver,
  IPv4 before IPv6, and stops at the first that connects: the caller gets that connection, and the
  trace has the failures of the addresses before it, each classified as an error of the connect operation,
  and then the success. If no address connects the trace has all of them and the caller gets the
  first error with a known failure or, if there is none, the first error.
\<close>

theorem dial_tries_addresses_in_order:
  fixes d :: "('r, 'w) net_conn dialer" and network :: string
  assumes "SplitHostPort address = Inr (host, port)" and "dialer_lookupHost r host = Inr addrs"
  defines "targets \<equiv> map (\<lambda>a. join_host_port a port) (sort_key isIPv6 (filter (\<lambda>a. ParseIP a \<noteq> None) addrs))"
  defines "outcome \<equiv> dial_attempt d network targets"
  defines "k \<equiv> failing outcome (length targets)"
  defines "errs \<equiv> map (\<lambda>j. connect_error (projl (outcome j))) [0 ..< k]"
  shows "dialer_DialContext r d network address =
    (map (\<lambda>j. (network, host, targets ! j, Some (errs ! j))) [0 ..< k] @
       (if k < length targets then [(network, host, targets ! k, None)] else []),
     if k < length targets then Inr (dialerErrWrapperConn (projr (outcome k)))
     else if errs = [] then Inl errReduceErrorsEmptyList
     else Inl (case find is_known errs of Some err \<Rightarrow> err | None \<Rightarrow> hd errs))"
proof -
  let ?as = "quirkSortIPAddrs addrs"
  have targets: "targets = map (\<lambda>a. join_host_port a port) ?as"
    by (simp add: targets_def quirkSortIPAddrs_sort)
  then have n: "length targets = length ?as" by simp
  have le: "k \<le> length ?as" using failing_spec(1) [of outcome "length targets"] by (simp only: k_def n)
  have fails: "d j network (join_host_port (?as ! j) port) = Inl (projl (outcome j))" if "j < k" for j
  proof -
    have "isl (outcome j)" using failing_spec(2) that unfolding k_def by blast
    then show ?thesis using that le by (auto simp: outcome_def dial_attempt_def targets)
  qed
  have loop: "dialer_DialContext r d network address = dial_loop d network host port 0 ?as [] []"
    using assms(1,2) by (simp add: dialer_DialContext_def)
  have entries: "map (\<lambda>j. (network, host, targets ! j, Some (errs ! j))) [0 ..< k] =
      map (\<lambda>j. (network, host, join_host_port (?as ! j) port, Some (connect_error (projl (outcome j))))) [0 ..< k]"
    using le by (intro map_cong) (auto simp: errs_def targets)
  show ?thesis
  proof (cases "k < length ?as")
    case True
    then have "\<not> isl (outcome k)" using failing_spec(3) [of outcome "length targets"] unfolding k_def n by simp
    then have "d k network (join_host_port (?as ! k) port) = Inr (projr (outcome k))"
      using True by (auto simp: outcome_def dial_attempt_def targets)
    from dial_loop_success [of k d network ?as port "\<lambda>j. projl (outcome j)" _ host, OF fails True this]
    have "dial_loop d network host port 0 ?as [] [] =
        (map (\<lambda>j. (network, host, targets ! j, Some (errs ! j))) [0 ..< k] @ [(network, host, join_host_port (?as ! k) port, None)],
         Inr (dialerErrWrapperConn (projr (outcome k))))"
      unfolding entries by simp
    with True show ?thesis unfolding loop n by (simp add: targets)
  next
    case False
    with le have k: "k = length ?as" by simp
    have reduce: "quirkReduceErrors errs = (if errs = [] then errReduceErrorsEmptyList
        else case find is_known errs of Some err \<Rightarrow> err | None \<Rightarrow> hd errs)"
      by (cases errs) (auto simp: quirkReduceErrors_def first_known_find split: option.split)
    have "dial_loop d network host port 0 ?as [] [] =
        (map (\<lambda>j. (network, host, join_host_port (?as ! j) port, Some (connect_error (projl (outcome j))))) [0 ..< k],
         Inl (quirkReduceErrors errs))"
      using dial_loop_failure [of ?as d network port "\<lambda>j. projl (outcome j)" host, OF fails [unfolded k]]
      by (simp only: errs_def k)
    then have "dial_loop d network host port 0 ?as [] [] =
        (map (\<lambda>j. (network, host, targets ! j, Some (errs ! j))) [0 ..< k], Inl (quirkReduceErrors errs))"
      by (simp only: entries)
    with False show ?thesis unfolding loop n reduce by auto
  qed
qed

text \<open>The sample: two addresses, an IPv6 one first; the IPv4 one refuses the connection.\<close>

definition sample_dialer :: "(nat, nat) net_conn dialer" where
  "sample_dialer i network target =
     (if target = ''[2001:db8::1]:443'' then Inr \<lparr>nc_Read = (\<lambda>n. Inr n), nc_Write = (\<lambda>n. Inr n), nc_Close = None\<rparr>
      else Inl connection_reset_error)"

definition sample_dual_stack :: resolver where
  "sample_dual_stack = NullResolver\<lparr>r_LookupHost := (\<lambda>h. Inr [''2001:db8::1'', ''93.184.216.34''])\<rparr>"

lemma sample_parses:
  "ParseIP ''93.184.216.34'' \<noteq> None" "ParseIP ''2001:db8::1'' \<noteq> None" "\<not> isIPv6 ''93.184.216.34''" "isIPv6 ''2001:db8::1''"
  by (simp_all add: parse_eval isIPv6_def numeral_2_eq_2 [symmetric])

lemma sample_sorted:
  "quirkSortIPAddrs [''2001:db8::1'', ''93.184.216.34''] = [''93.184.216.34'', ''2001:db8::1'']"
  "quirkSortIPAddrs [''93.184.216.34'', ''2001:db8::1''] = [''93.184.216.34'', ''2001:db8::1'']"
  using sample_parses by (simp_all add: quirkSortIPAddrs_def)

lemma sample_endpoint:
  "SplitHostPort ''example.org:443'' = Inr (''example.org'', ''443'')" "ParseIP ''example.org'' = None"
  by code_simp+

theorem dial_tries_addresses_in_order_witness:
  "map (\<lambda>(network, host, target, err). (host, target, err \<noteq> None))
     (fst (dialer_DialContext sample_dual_stack sample_dialer ''tcp'' ''example.org:443'')) =
     [(''example.org'', ''93.184.216.34:443'', True), (''example.org'', ''[2001:db8::1]:443'', False)]"
proof -
  let ?t = "[''93.184.216.34:443'', ''[2001:db8::1]:443'']"
  have t: "map (\<lambda>a. join_host_port a ''443'') [''93.184.216.34'', ''2001:db8::1''] = ?t"
    by (simp add: join_host_port_def)
  have k: "failing (dial_attempt sample_dialer ''tcp'' ?t) (Suc (Suc 0)) = Suc 0"
    by (rule failing_unique) (simp_all add: dial_attempt_def sample_dialer_def)
  have "dialer_lookupHost sample_dual_stack ''example.org'' = Inr [''2001:db8::1'', ''93.184.216.34'']"
    by (simp add: dialer_lookupHost_def sample_dual_stack_def sample_endpoint)
  from dial_tries_addresses_in_order [OF sample_endpoint(1) this, of sample_dialer "''tcp''",
      folded quirkSortIPAddrs_sort, unfolded sample_sorted t]
  show ?thesis by (simp add: k)
qed

text \<open>
  The error of a failed dial is the first with a known failure, not the first that occurred: if
  the first address fails with an error that no table knows and the second is refused, the caller gets
  the error of the second.
\<close>

theorem dial_returns_first_known_error:
  assumes "SplitHostPort address = Inr (host, port)" and "dialer_lookupHost r host = Inr addrs"
    and "quirkSortIPAddrs addrs = [a, b]"
    and "d 0 network (join_host_port a port) = Inl e" and "d 1 network (join_host_port b port) = Inl e'"
    and "errors_As as_wrapper e = None" and "has_prefix (ClassifyGenericError e) ''unknown_failure''"
    and "errors_As as_wrapper e' = None" and "known_failure (ClassifyGenericError e')"
  shows "snd (dialer_DialContext r d network address) = Inl (connect_error e')"
proof -
  have known: "\<not> has_prefix f ''unknown_failure''" if "known_failure f" for f
  proof -
    have "list_all (\<lambda>f. \<not> has_prefix f ''unknown_failure'') (gmap_keys failuresMap)" by code_simp
    then show ?thesis using that unfolding known_failure_def list_all_iff List.member_iff by blast
  qed
  have err: "errors_As as_wrapper (connect_error x) = Some (ClassifyGenericError x, ConnectOperation)"
    "err_Error (connect_error x) = ClassifyGenericError x" if "errors_As as_wrapper x = None" for x
    using that by (simp_all add: wrap_error_failure wrap_error_def NewErrWrapper_def)
  have "\<not> is_known (connect_error e)" using err [OF assms(6)] assms(7) by (simp add: is_known_def)
  moreover have "is_known (connect_error e')" using err [OF assms(8)] known [OF assms(9)] by (simp add: is_known_def)
  ultimately show ?thesis
    using assms(1-5) by (simp add: dialer_DialContext_def Let_def quirkReduceErrors_def)
qed

theorem dial_returns_first_known_error_witness:
  "snd (dialer_DialContext (sample_dual_stack\<lparr>r_LookupHost := (\<lambda>h. Inr [''93.184.216.34'', ''2001:db8::1''])\<rparr>)
     (\<lambda>i network target. Inl (if i = 0 then new_error ''antani'' else connection_reset_error)) ''tcp'' ''example.org:443'') =
     (Inl (connect_error connection_reset_error) :: go_error + (nat, nat) net_conn)"
proof -
  have "errors_As as_wrapper connection_reset_error = None" "ClassifyGenericError connection_reset_error = FailureConnectionReset"
    by (simp_all add: connection_reset_error_def errors_As_def ClassifyGenericError_def classifySyscallError_def)
  moreover have "known_failure FailureConnectionReset" by code_simp
  moreover have "ClassifyGenericError (new_error ''antani'') = ScrubString (FailureUnknown @ '': '' @ ''antani'')"
    by (simp add: new_error_def ClassifyGenericError_def classifySyscallError_def classifyWithStringSuffix_def has_suffix_def
        errors_As_def errors_Is_def)
  moreover note unknown_failure_prefix [of "''antani''"]
  ultimately show ?thesis
    using dial_returns_first_known_error [of "''example.org:443''" "''example.org''" "''443''"
        "sample_dual_stack\<lparr>r_LookupHost := (\<lambda>h. Inr [''93.184.216.34'', ''2001:db8::1''])\<rparr>" "[''93.184.216.34'', ''2001:db8::1'']"
        "''93.184.216.34''" "''2001:db8::1''"
        "\<lambda>i network target. Inl (if i = 0 then new_error ''antani'' else connection_reset_error)" "''tcp''"
        "new_error ''antani''" connection_reset_error]
    by (simp add: dialer_lookupHost_def sample_endpoint sample_sorted)
qed

end
