(* ===== verification/EngineResolver.thy ===== *)
theory EngineResolver
  imports Resolvers GoSort GoFloat KVStore
begin

text \<open>
  The session resolver of \<open>internal/engineresolver\<close>: it keeps a score for each of a fixed list of
  resolvers, tries them by descending score, updates the score of each with an exponentially weighted
  moving average, and stores the scores in the key-value store. The child resolvers are the resolvers of
  the theory \<open>Resolvers\<close> over the DNS-over-HTTPS and the \<open>getaddrinfo\<close> transports, with the bogon
  resolver around them. \<open>dns_env\<close> is what the network and the operating system do during one lookup by one
  child; the \<open>n\<close>th entry of the state is tried in the environment \<open>env n\<close>, and \<open>ctx n\<close> is the error of the caller's
  context at that time. Scores are \<open>float64\<close> values, with the rounding of each operation to 53 bits and no fused operations; a score that would
  be subnormal, after some three hundred failures in a row, keeps its 53 bits here. Random draws, the JSON
  codec, the store and the scheme that \<open>url.Parse\<close> finds are arguments. A panic is \<open>None\<close>.

  The state is well formed after any sequence of lookups from any stored content that a lookup wrote:
  each supported resolver has one entry and its score is between 0 and 1. The properties also describe the
  order in which resolvers are tried, what a lookup returns, and the errors it collects.
\<close>

section \<open>Errors\<close>

text \<open>The errors of \<open>internal/legacy/multierror\<close>, which unwrap to the root.\<close>

record Union =
  un_Children :: "go_error list"
  un_Root :: go_error

definition multierror_New :: "go_error \<Rightarrow> Union" where
  "multierror_New err = \<lparr>un_Children = [], un_Root = err\<rparr>"

definition Union_Add :: "Union \<Rightarrow> go_error \<Rightarrow> Union" where
  "Union_Add u child = u\<lparr>un_Children := un_Children u @ [child]\<rparr>"

definition Union_AddWithPrefix :: "Union \<Rightarrow> string \<Rightarrow> go_error \<Rightarrow> Union" where
  "Union_AddWithPrefix u prefix child =
     Union_Add u (GoError OtherError (prefix @ '': '' @ err_Error child) [child])"

definition Union_Unwrap :: "Union \<Rightarrow> go_error" where
  "Union_Unwrap u = un_Root u"

definition Union_Is :: "Union \<Rightarrow> err_kind \<Rightarrow> bool" where
  "Union_Is u target \<longleftrightarrow> errors_Is target (un_Root u) \<or> list_ex (errors_Is target) (un_Children u)"

definition BuildErrorString :: "string \<Rightarrow> go_error list \<Rightarrow> string" where
  "BuildErrorString prefix errs = prefix @ '': ['' @ concat (map (\<lambda>c. '' '' @ err_Error c @ '';'') errs) @ '']''"

definition Union_Error :: "Union \<Rightarrow> string" where
  "Union_Error u = BuildErrorString (err_Error (un_Root u)) (un_Children u)"

text \<open>The wrapper that names the resolver.\<close>

definition newErrWrapper :: "go_error \<Rightarrow> string \<Rightarrow> go_error" where
  "newErrWrapper err url = GoError OtherError (''<'' @ url @ ''> '' @ err_Error err) [err]"

definition ErrLookupHost :: go_error where
  "ErrLookupHost = new_error ''sessionresolver: LookupHost failed''"

definition errLookupNotImplemented :: go_error where
  "errLookupNotImplemented = new_error ''sessionresolver: lookup not implemented''"

definition errCannotUseHTTP3WithAProxyURL :: go_error where
  "errCannotUseHTTP3WithAProxyURL = new_error ''cannot use HTTP/3 with a proxy URL''"

definition errUnsupportedResolverScheme :: go_error where
  "errUnsupportedResolverScheme = new_error ''unsupported resolver scheme''"

section \<open>Resolver makers\<close>

record resolvermaker =
  mk_url :: string
  mk_score :: rat

definition systemResolverURL :: string where
  "systemResolverURL = ''system:///''"

definition allmakers :: "string list" where
  "allmakers = [
    ''https://cloudflare-dns.com/dns-query'', ''http3://cloudflare-dns.com/dns-query'',
    ''https://dns.google/dns-query'', ''http3://dns.google/dns-query'',
    ''https://dns.quad9.net/dns-query'', systemResolverURL,
    ''https://mozilla.cloudflare-dns.com/dns-query'', ''http3://mozilla.cloudflare-dns.com/dns-query'',
    ''https://wikimedia-dns.org/dns-query'']"

text \<open>
  The initial scores: \<open>draws\<close> are the numbers that \<open>Float64\<close> returns, one for each resolver but the system's.
  The result is the list of makers with their scores, which is also the map by URL.
\<close>

fun make_scores :: "(nat \<Rightarrow> rat) \<Rightarrow> nat \<Rightarrow> string list \<Rightarrow> resolvermaker list" where
  "make_scores draws n [] = []"
| "make_scores draws n (url # urls) =
     (if url \<noteq> systemResolverURL then \<lparr>mk_url = url, mk_score = draws n\<rparr> # make_scores draws (Suc n) urls
      else \<lparr>mk_url = url, mk_score = f64 (1 / 2)\<rparr> # make_scores draws n urls)"

definition resolverMakeInitialState :: "(nat \<Rightarrow> rat) \<Rightarrow> resolvermaker list" where
  "resolverMakeInitialState draws = make_scores draws 0 allmakers"

section \<open>Child resolvers\<close>

datatype child = ChildHTTPS (ch_url: string) (ch_http3: bool) (ch_proxy: "string option") | ChildSystem

definition newChildResolver ::
    "(string \<Rightarrow> go_error + string) \<Rightarrow> string \<Rightarrow> bool \<Rightarrow> string option \<Rightarrow> (go_error + child) option" where
  "newChildResolver url_Parse url http3Enabled proxyURL =
     (if url = '''' then None
      else Some (
        if http3Enabled \<and> proxyURL \<noteq> None then Inl errCannotUseHTTP3WithAProxyURL
        else case url_Parse url of
          Inl err \<Rightarrow> Inl err
        | Inr scheme \<Rightarrow>
            if scheme = ''http'' \<or> scheme = ''https'' then Inr (ChildHTTPS url http3Enabled proxyURL)
            else if scheme = ''system'' then Inr ChildSystem
            else Inl errUnsupportedResolverScheme))"

definition newresolver :: "(string \<Rightarrow> go_error + string) \<Rightarrow> string option \<Rightarrow> string \<Rightarrow> (go_error + child) option" where
  "newresolver url_Parse proxyURL url =
     (let h3 = has_prefix url ''http3://'';
          url = (if h3 then ''https://'' @ drop 8 url else url)
      in newChildResolver url_Parse url h3 proxyURL)"

record dns_env =
  env_ids :: "16 word \<Rightarrow> 16 word"
  env_ToASCII :: "string \<Rightarrow> go_error + string"
  env_Bytes :: "dnsQuery \<Rightarrow> go_error + bytes"
  env_Unpack :: "bytes \<Rightarrow> go_error + dns_Msg"
  env_bad_url :: "string \<Rightarrow> go_error option"
  env_client :: "bool \<Rightarrow> string option \<Rightarrow> doh_request \<Rightarrow> go_error + doh_reply"
  env_getaddrinfo :: "string \<Rightarrow> go_error + string list \<times> string"
  env_ctx_done :: "go_error option"

text \<open>The resolver that a child is, in an environment.\<close>

definition doh_transport :: "dns_env \<Rightarrow> string \<Rightarrow> bool \<Rightarrow> string option \<Rightarrow> transport" where
  "doh_transport env url http3Enabled proxyURL =
     \<lparr>t_RoundTrip = wrapDNSTransport (doh_RoundTrip (env_Bytes env) (env_Unpack env) (env_bad_url env)
        (env_client env http3Enabled proxyURL) (env_ctx_done env) url ''''),
      t_RequiresPadding = True, t_Network = ''doh'', t_Address = url\<rparr>"

definition newChildResolverHTTPS :: "dns_env \<Rightarrow> string \<Rightarrow> bool \<Rightarrow> string option \<Rightarrow> resolver" where
  "newChildResolverHTTPS env url http3Enabled proxyURL =
     WrapResolver (env_ToASCII env) (NewUnwrappedParallelResolver (env_ids env) (doh_transport env url http3Enabled proxyURL))"

definition NewStdlibResolver :: "dns_env \<Rightarrow> resolver" where
  "NewStdlibResolver env =
     WrapResolver (env_ToASCII env) (newUnwrappedStdlibResolver (env_ids env)
       \<lparr>t_RoundTrip = getaddrinfo_RoundTrip (env_ctx_done env) (env_getaddrinfo env),
        t_RequiresPadding = False, t_Network = ''getaddrinfo'', t_Address = ''''\<rparr>)"

fun child_resolver :: "dns_env \<Rightarrow> child \<Rightarrow> resolver" where
  "child_resolver env (ChildHTTPS url http3Enabled proxyURL) =
     MaybeWrapWithBogonResolver True (newChildResolverHTTPS env url http3Enabled proxyURL)"
| "child_resolver env ChildSystem = MaybeWrapWithBogonResolver True (NewStdlibResolver env)"

text \<open>\<open>timeLimitedLookup\<close>: the timeout of four seconds is part of the environment.\<close>

definition timeLimitedLookup :: "dns_env \<Rightarrow> child \<Rightarrow> string \<Rightarrow> go_error + string list" where
  "timeLimitedLookup env re hostname = r_LookupHost (child_resolver env re) hostname"

section \<open>State\<close>

definition storekey :: string where
  "storekey = ''sessionresolver.state''"

record resolverinfo =
  ri_URL :: string
  ri_Score :: rat

datatype state_error = ErrNilKVStore | StateStoreError string | StateCodecError string | ErrNoEntries

text \<open>The resolver: the store, if any, the proxy, the cache of children, and whether \<open>closeall\<close> has run.\<close>

record 'store Resolver =
  er_KVStore :: "'store option"
  er_ProxyURL :: "string option"
  er_res :: "(string, child) gomap"
  er_closed :: bool

definition readstate ::
    "('store \<Rightarrow> string \<Rightarrow> string + string) \<Rightarrow> (string \<Rightarrow> string + resolverinfo option list) \<Rightarrow> 'store Resolver \<Rightarrow>
     state_error + resolverinfo option list" where
  "readstate kvGet decode r =
     (case er_KVStore r of
        None \<Rightarrow> Inl ErrNilKVStore
      | Some store \<Rightarrow>
          (case kvGet store storekey of
             Inl err \<Rightarrow> Inl (StateStoreError err)
           | Inr data \<Rightarrow> (case decode data of Inl err \<Rightarrow> Inl (StateCodecError err) | Inr ri \<Rightarrow> Inr ri)))"

text \<open>A null entry makes the loop panic.\<close>

definition readstateandprune ::
    "('store \<Rightarrow> string \<Rightarrow> string + string) \<Rightarrow> (string \<Rightarrow> string + resolverinfo option list) \<Rightarrow> 'store Resolver \<Rightarrow>
     (state_error + resolverinfo list) option" where
  "readstateandprune kvGet decode r =
     (case readstate kvGet decode r of
        Inl err \<Rightarrow> Some (Inl err)
      | Inr ri \<Rightarrow>
          do { ri \<leftarrow> map_each (\<lambda>e. e) ri;
               let out = filter (\<lambda>e. ri_URL e \<in> set allmakers) ri;
               Some (if out = [] then Inl ErrNoEntries else Inr out) })"

definition sortstate :: "resolverinfo list \<Rightarrow> resolverinfo list" where
  "sortstate ri = slice_stable (\<lambda>a b. ri_Score a \<ge> ri_Score b) ri"

definition readstatedefault ::
    "('store \<Rightarrow> string \<Rightarrow> string + string) \<Rightarrow> (string \<Rightarrow> string + resolverinfo option list) \<Rightarrow> resolvermaker list \<Rightarrow>
     'store Resolver \<Rightarrow> resolverinfo list option" where
  "readstatedefault kvGet decode makers r =
     do { res \<leftarrow> readstateandprune kvGet decode r;
          let ri = (case res of Inl _ \<Rightarrow> [] | Inr ri \<Rightarrow> ri);
          let missing = filter (\<lambda>m. mk_url m \<notin> ri_URL ` set ri) makers;
          Some (sortstate (ri @ map (\<lambda>m. \<lparr>ri_URL = mk_url m, ri_Score = mk_score m\<rparr>) missing)) }"

text \<open>The store that the write leaves behind; the caller ignores the error.\<close>

definition writestate ::
    "('store \<Rightarrow> string \<Rightarrow> string \<Rightarrow> string option \<times> 'store) \<Rightarrow> (resolverinfo list \<Rightarrow> string + string) \<Rightarrow>
     resolverinfo list \<Rightarrow> 'store Resolver \<Rightarrow> 'store Resolver" where
  "writestate kvSet encode ri r =
     (case er_KVStore r of
        None \<Rightarrow> r
      | Some store \<Rightarrow>
          (case encode ri of
             Inl err \<Rightarrow> r
           | Inr data \<Rightarrow> r\<lparr>er_KVStore := Some (snd (kvSet store storekey data))\<rparr>))"

section \<open>Lookups\<close>

definition getresolver ::
    "(string \<Rightarrow> go_error + string) \<Rightarrow> string \<Rightarrow> 'store Resolver \<Rightarrow> ('store Resolver \<times> (go_error + child)) option" where
  "getresolver url_Parse url r =
     (case gmap_get (er_res r) url of
        Some re \<Rightarrow> Some (r, Inr re)
      | None \<Rightarrow>
          do { res \<leftarrow> newresolver url_Parse (er_ProxyURL r) url;
               Some (case res of
                       Inl err \<Rightarrow> (r, Inl err)
                     | Inr re \<Rightarrow> (r\<lparr>er_res := AList.update url re (er_res r)\<rparr>, Inr re)) })"

definition CloseIdleConnections :: "'store Resolver \<Rightarrow> 'store Resolver" where
  "CloseIdleConnections r = (if er_closed r then r else r\<lparr>er_res := [], er_closed := True\<rparr>)"

text \<open>The average: the products with 0.9 are exact constants, the others are rounded.\<close>

definition score_success :: "rat \<Rightarrow> rat" where
  "score_success score = f64 (f64 (9 / 10) + f64 (f64 (1 / 10) * score))"

definition score_failure :: "rat \<Rightarrow> rat" where
  "score_failure score = f64 (0 + f64 (f64 (1 / 10) * score))"

definition lookupHost ::
    "(string \<Rightarrow> go_error + string) \<Rightarrow> dns_env \<Rightarrow> resolverinfo \<Rightarrow> string \<Rightarrow> 'store Resolver \<Rightarrow>
     ('store Resolver \<times> resolverinfo \<times> (go_error + string list)) option" where
  "lookupHost url_Parse env ri hostname r =
     do { (r, re) \<leftarrow> getresolver url_Parse (ri_URL ri) r;
          Some (case re of
                  Inl err \<Rightarrow> (r, ri\<lparr>ri_Score := 0\<rparr>, Inl err)
                | Inr re \<Rightarrow>
                    (case timeLimitedLookup env re hostname of
                       Inr addrs \<Rightarrow> (r, ri\<lparr>ri_Score := score_success (ri_Score ri)\<rparr>, Inr addrs)
                     | Inl err \<Rightarrow> (r, ri\<lparr>ri_Score := score_failure (ri_Score ri)\<rparr>, Inl err))) }"

definition shouldSkipWithProxy :: "(string \<Rightarrow> go_error + string) \<Rightarrow> resolverinfo \<Rightarrow> bool" where
  "shouldSkipWithProxy url_Parse e =
     (case url_Parse (ri_URL e) of
        Inl err \<Rightarrow> True
      | Inr scheme \<Rightarrow> \<not> (scheme = ''https'' \<or> scheme = ''dot'' \<or> scheme = ''tcp''))"

text \<open>The swap, for the number that \<open>Float64\<close> draws, and the return value.\<close>

definition maybeConfusion :: "rat \<Rightarrow> resolverinfo list \<Rightarrow> resolverinfo list \<times> int" where
  "maybeConfusion draw state =
     (if f64 (3 / 10) \<le> draw then (state, -1)
      else if length state \<le> 1 then (state, 0)
      else if length state = 2 then (state[0 := state ! 1, 1 := state ! 0], 2)
      else (state[0 := state ! 2, 2 := state ! 0], 3))"

text \<open>
  The loop: \<open>visited\<close> has the entries that were visited, with their new scores. An entry is reached in the
  environment of its position.
\<close>

fun lookup_loop ::
    "(string \<Rightarrow> go_error + string) \<Rightarrow> (nat \<Rightarrow> dns_env) \<Rightarrow> (nat \<Rightarrow> go_error option) \<Rightarrow> string \<Rightarrow> resolverinfo list \<Rightarrow>
     resolverinfo list \<Rightarrow> Union \<Rightarrow> 'store Resolver \<Rightarrow> ('store Resolver \<times> resolverinfo list \<times> (Union + string list)) option" where
  "lookup_loop url_Parse env ctx hostname visited [] me r = Some (r, visited, Inl me)"
| "lookup_loop url_Parse env ctx hostname visited (e # es) me r =
     (if er_ProxyURL r \<noteq> None \<and> shouldSkipWithProxy url_Parse e
      then lookup_loop url_Parse env ctx hostname (visited @ [e]) es me r
      else case ctx (length visited) of
        Some err \<Rightarrow> lookup_loop url_Parse env ctx hostname (visited @ [e]) es (Union_Add me (newErrWrapper err (ri_URL e))) r
      | None \<Rightarrow>
          do { (r, e, res) \<leftarrow> lookupHost url_Parse (env (length visited)) e hostname r;
               case res of
                 Inr addrs \<Rightarrow> Some (r, visited @ e # es, Inr addrs)
               | Inl err \<Rightarrow>
                   lookup_loop url_Parse env ctx hostname (visited @ [e]) es (Union_Add me (newErrWrapper err (ri_URL e))) r })"

definition engine_LookupHost ::
    "('store \<Rightarrow> string \<Rightarrow> string + string) \<Rightarrow> ('store \<Rightarrow> string \<Rightarrow> string \<Rightarrow> string option \<times> 'store) \<Rightarrow>
     (string \<Rightarrow> string + resolverinfo option list) \<Rightarrow> (resolverinfo list \<Rightarrow> string + string) \<Rightarrow> resolvermaker list \<Rightarrow>
     (string \<Rightarrow> go_error + string) \<Rightarrow> rat \<Rightarrow> (nat \<Rightarrow> dns_env) \<Rightarrow> (nat \<Rightarrow> go_error option) \<Rightarrow> string \<Rightarrow> 'store Resolver \<Rightarrow>
     ('store Resolver \<times> (Union + string list)) option" where
  "engine_LookupHost kvGet kvSet decode encode makers url_Parse draw env ctx hostname r =
     do { state \<leftarrow> readstatedefault kvGet decode makers r;
          let state = fst (maybeConfusion draw state);
          (r, state, res) \<leftarrow> lookup_loop url_Parse env ctx hostname [] state (multierror_New ErrLookupHost) r;
          Some (writestate kvSet encode state r, res) }"

definition engine_LookupHTTPS :: "string \<Rightarrow> go_error + HTTPSSvc" where
  "engine_LookupHTTPS domain = Inl errLookupNotImplemented"

definition engine_LookupNS :: "string \<Rightarrow> go_error + string list" where
  "engine_LookupNS domain = Inl errLookupNotImplemented"

section \<open>Scores\<close>

lemma round_half_even_nearest:
  assumes "\<bar>r - of_int m\<bar> < 1 / 2"
  shows "round_half_even r = m"
proof (cases "of_int m \<le> r")
  case True
  with assms have "\<lfloor>r\<rfloor> = m" by (intro floor_unique) auto
  with True assms show ?thesis by (simp add: round_half_even_def Let_def)
next
  case False
  with assms have "\<lfloor>r\<rfloor> = m - 1" by (intro floor_unique) auto
  with False assms show ?thesis by (simp add: round_half_even_def Let_def)
qed

lemma f64_round_below:
  assumes "0 < q" "1 \<le> q * 2 ^ e" "q * 2 ^ e < 2" "\<bar>q * 2 ^ (e + 52) - of_int m\<bar> < 1 / 2"
  shows "f64 q = of_int m / 2 ^ (e + 52)"
proof -
  have p: "(2::rat) powi (- int e) = 1 / 2 ^ e" "(2::rat) powi (- int e + 1) = 2 / 2 ^ e" "(2::rat) powi (- int e - 52) = 1 / 2 ^ (e + 52)"
    by (simp_all add: power_int_add power_int_diff power_int_minus field_simps power_add)
  have "round_half_even (q / 2 powi (- int e - 52)) = m"
    unfolding p using assms(4) by (intro round_half_even_nearest) simp
  moreover have "2 powi (- int e) \<le> q" "q < 2 powi (- int e + 1)"
    unfolding p using assms(2,3) by (simp_all add: field_simps)
  ultimately show ?thesis using f64_round [OF assms(1)] p(3) by simp
qed

lemma f64_tenth: "f64 (1 / 10) = 7205759403792794 / 2 ^ 56"
  using f64_round_below [of "1 / 10" 4 7205759403792794] by simp

lemma f64_nine_tenths: "f64 (9 / 10) = 8106479329266893 / 2 ^ 53"
  using f64_round_below [of "9 / 10" 1 8106479329266893] by simp

lemma f64_tenths_sum: "f64 (f64 (9 / 10) + f64 (1 / 10)) = 1"
  using f64_round_below [of "f64 (9 / 10) + f64 (1 / 10)" 0 "2 ^ 52"]
  by (simp add: f64_tenth f64_nine_tenths)

lemma f64_idem_tenths: "f64 (f64 (9 / 10)) = f64 (9 / 10)" "f64 (f64 (1 / 10)) = f64 (1 / 10)"
  using f64_round_below [of "f64 (9 / 10)" 1 8106479329266893] f64_round_below [of "f64 (1 / 10)" 4 7205759403792794]
  by (simp_all add: f64_tenth f64_nine_tenths)

lemma tenth_of_score:
  assumes "0 \<le> score" "score \<le> 1"
  shows "0 \<le> f64 (f64 (1 / 10) * score)" and "f64 (f64 (1 / 10) * score) \<le> f64 (1 / 10)"
proof -
  have t: "0 \<le> f64 (1 / 10)" by (simp add: f64_tenth)
  then have "0 \<le> f64 (1 / 10) * score" "f64 (1 / 10) * score \<le> f64 (1 / 10)"
    using assms by (simp_all add: mult_left_le)
  then show "0 \<le> f64 (f64 (1 / 10) * score)" "f64 (f64 (1 / 10) * score) \<le> f64 (1 / 10)"
    using f64_nonneg f64_mono [of "f64 (1 / 10) * score" "f64 (1 / 10)"] f64_idem_tenths(2) by auto
qed

text \<open>One outcome outweighs the past: a success lifts the score above every failure.\<close>

lemma score_success_bounds:
  assumes "0 \<le> score" "score \<le> 1"
  shows "f64 (9 / 10) \<le> score_success score" "score_success score \<le> 1"
proof -
  note t = tenth_of_score [OF assms]
  have nine: "0 \<le> f64 (9 / 10)" by (simp add: f64_nine_tenths)
  show "f64 (9 / 10) \<le> score_success score"
    using f64_mono [of "f64 (9 / 10)" "f64 (9 / 10) + f64 (f64 (1 / 10) * score)"] t nine
    by (simp add: score_success_def f64_idem_tenths)
  show "score_success score \<le> 1"
    using f64_mono [of "f64 (9 / 10) + f64 (f64 (1 / 10) * score)" "f64 (9 / 10) + f64 (1 / 10)"] t nine
    by (simp add: score_success_def f64_tenths_sum)
qed

lemma score_failure_bounds:
  assumes "0 \<le> score" "score \<le> 1"
  shows "0 \<le> score_failure score" "score_failure score \<le> f64 (1 / 10)"
  using tenth_of_score [OF assms] f64_nonneg [of "f64 (f64 (1 / 10) * score)"]
    f64_mono [of "f64 (f64 (1 / 10) * score)" "f64 (1 / 10)"]
  by (simp_all add: score_failure_def f64_idem_tenths)

definition score_ok :: "rat \<Rightarrow> bool" where
  "score_ok score \<longleftrightarrow> 0 \<le> score \<and> score \<le> 1"

lemma score_ok_updates: "score_ok score \<Longrightarrow> score_ok (score_success score)" "score_ok score \<Longrightarrow> score_ok (score_failure score)"
    "score_ok 0"
proof -
  have "0 \<le> f64 (9 / 10)" "f64 (1 / 10) \<le> 1" by (simp_all add: f64_nine_tenths f64_tenth)
  then show "score_ok score \<Longrightarrow> score_ok (score_success score)" "score_ok score \<Longrightarrow> score_ok (score_failure score)" "score_ok 0"
    using score_success_bounds [of score] score_failure_bounds [of score] by (auto simp: score_ok_def)
qed

section \<open>The order of the state\<close>

text \<open>Insertion sort with the comparison \<open>>=\<close>: the reverse of the stable ascending sort.\<close>

lemma insert_back_ge_filter:
  "sorted (map f ys) \<Longrightarrow>
     filter (\<lambda>y. f k = f y) (insert_back (\<lambda>a b. f a \<ge> f b) x ys) =
       filter (\<lambda>y. f k = f y) ys @ (if f k = f x then [x] else [])"
  for f :: "'a \<Rightarrow> 'b::linorder"
proof (induction ys)
  case (Cons y ys)
  then have rest: "filter (\<lambda>z. f x = f z) ys = []" if "f x < f y"
    using that by (auto simp: filter_empty_conv)
  show ?case using Cons rest by (auto simp: not_le)
qed simp

lemma insert_back_ge_sorted:
  "sorted (map f ys) \<Longrightarrow> sorted (map f (insert_back (\<lambda>a b. f a \<ge> f b) x ys))"
  for f :: "'a \<Rightarrow> 'b::linorder"
proof (induction ys)
  case (Cons y ys)
  have "set (insert_back (\<lambda>a b. f a \<ge> f b) x ys) = insert x (set ys)"
    by (induction ys) auto
  with Cons show ?case by auto
qed simp

lemma insertion_sort_ge: "insertion_sort (\<lambda>a b. f a \<ge> f b) xs = rev (sort_key f xs)"
  for f :: "'a \<Rightarrow> 'b::linorder"
proof -
  have "sorted (map f (fold (insert_back (\<lambda>a b. f a \<ge> f b)) xs acc)) \<and>
      (\<forall>k. filter (\<lambda>y. f k = f y) (fold (insert_back (\<lambda>a b. f a \<ge> f b)) xs acc) =
        filter (\<lambda>y. f k = f y) acc @ filter (\<lambda>y. f k = f y) xs)"
    if "sorted (map f acc)" for acc
    using that by (induction xs arbitrary: acc) (simp_all add: insert_back_ge_sorted insert_back_ge_filter)
  from this [of "[]"] have
    "sorted (map f (fold (insert_back (\<lambda>a b. f a \<ge> f b)) xs []))"
    "\<And>k. filter (\<lambda>y. f k = f y) (fold (insert_back (\<lambda>a b. f a \<ge> f b)) xs []) = filter (\<lambda>y. f k = f y) xs"
    by auto
  moreover have "mset (fold (insert_back (\<lambda>a b. f a \<ge> f b)) xs []) = mset xs"
    using mset_insertion_sort [of "\<lambda>a b. f a \<ge> f b" xs] by (simp add: insertion_sort_def)
  ultimately have "sort_key f xs = fold (insert_back (\<lambda>a b. f a \<ge> f b)) xs []"
    by (intro properties_for_sort_key) auto
  then show ?thesis by (simp add: insertion_sort_def)
qed

lemma sortstate_eq: "length ri \<le> 20 \<Longrightarrow> sortstate ri = rev (sort_key ri_Score ri)"
  by (simp add: sortstate_def slice_stable_short insertion_sort_ge)

lemma set_sortstate [simp]: "set (sortstate ri) = set ri"
  by (simp add: sortstate_def)

lemma mset_sortstate [simp]: "mset (sortstate ri) = mset ri"
  by (simp add: sortstate_def)

section \<open>The well-formed state\<close>

definition state_wf :: "resolverinfo list \<Rightarrow> bool" where
  "state_wf st \<longleftrightarrow> distinct (map ri_URL st) \<and> set (map ri_URL st) = set allmakers \<and> (\<forall>e \<in> set st. score_ok (ri_Score e))"

lemma allmakers_distinct: "distinct allmakers" "'''' \<notin> set allmakers" "length allmakers = 9"
  by (simp_all add: allmakers_def systemResolverURL_def)

lemma state_wf_length: "state_wf st \<Longrightarrow> length st = 9"
  using allmakers_distinct distinct_card [of "map ri_URL st"] distinct_card [of allmakers] by (simp add: state_wf_def)

lemma state_wf_perm: "mset (map ri_URL st) = mset (map ri_URL st') \<Longrightarrow> \<forall>e \<in> set st. score_ok (ri_Score e) \<Longrightarrow>
    state_wf st' \<Longrightarrow> state_wf st"
  using mset_eq_setD [of "map ri_URL st" "map ri_URL st'"] mset_eq_imp_distinct_iff [of "map ri_URL st" "map ri_URL st'"]
  by (auto simp: state_wf_def)

lemma make_scores_urls: "map mk_url (make_scores draws n urls) = urls"
  by (induction draws n urls rule: make_scores.induct) auto

lemma makers_urls: "map mk_url (resolverMakeInitialState draws) = allmakers"
  by (simp add: resolverMakeInitialState_def make_scores_urls)

lemma half_exact: "f64 (1 / 2) = 1 / 2"
  using f64_round_below [of "1 / 2" 1 "2 ^ 52"] by simp

lemma makers_scores:
  assumes "\<forall>n. score_ok (draws n)"
  shows "\<forall>m \<in> set (resolverMakeInitialState draws). score_ok (mk_score m)"
proof -
  have "\<forall>m \<in> set (make_scores draws n urls). score_ok (mk_score m)" for n urls
    using assms by (induction draws n urls rule: make_scores.induct) (auto simp: score_ok_def half_exact)
  then show ?thesis by (simp add: resolverMakeInitialState_def)
qed

section \<open>What a lookup does\<close>

text \<open>The child that serves a URL, whether it is cached or made; the cache holds nothing else.\<close>

definition res_wf :: "(string \<Rightarrow> go_error + string) \<Rightarrow> 'store Resolver \<Rightarrow> bool" where
  "res_wf url_Parse r \<longleftrightarrow> (\<forall>(url, re) \<in> set (er_res r). newresolver url_Parse (er_ProxyURL r) url = Some (Inr re))"

lemma newresolver_total: "url \<noteq> '''' \<Longrightarrow> \<exists>res. newresolver url_Parse proxy url = Some res"
  by (simp add: newresolver_def newChildResolver_def Let_def has_prefix_def)

lemma update_subset: "set (AList.update k v m) \<subseteq> insert (k, v) (set m)"
  by (induction m) auto

lemma getresolver_spec:
  assumes "res_wf url_Parse r" and "newresolver url_Parse (er_ProxyURL r) url = Some res"
  shows "\<exists>r'. getresolver url_Parse url r = Some (r', res) \<and> res_wf url_Parse r' \<and>
    er_ProxyURL r' = er_ProxyURL r \<and> er_KVStore r' = er_KVStore r"
proof (cases "gmap_get (er_res r) url")
  case (Some re)
  then have "(url, re) \<in> set (er_res r)" by (rule map_of_SomeD)
  with assms have "res = Inr re" by (auto simp: res_wf_def)
  with Some assms(1) show ?thesis by (simp add: getresolver_def)
next
  case None
  have "res_wf url_Parse (r\<lparr>er_res := AList.update url re (er_res r)\<rparr>)" if "res = Inr re" for re
    using assms that update_subset [of url re "er_res r"] by (fastforce simp: res_wf_def)
  then show ?thesis
    using None assms by (cases res) (auto simp: getresolver_def)
qed

definition child_outcome ::
    "(string \<Rightarrow> go_error + string) \<Rightarrow> string option \<Rightarrow> dns_env \<Rightarrow> string \<Rightarrow> string \<Rightarrow> go_error + string list" where
  "child_outcome url_Parse proxy env hostname url =
     (case newresolver url_Parse proxy url of
        Some (Inr re) \<Rightarrow> timeLimitedLookup env re hostname
      | Some (Inl err) \<Rightarrow> Inl err
      | None \<Rightarrow> Inl errUnsupportedResolverScheme)"

lemma lookupHost_spec:
  assumes "res_wf url_Parse r" and "ri_URL e \<noteq> ''''"
  shows "\<exists>r' e'. lookupHost url_Parse env e hostname r =
      Some (r', e', child_outcome url_Parse (er_ProxyURL r) env hostname (ri_URL e)) \<and>
    res_wf url_Parse r' \<and> er_ProxyURL r' = er_ProxyURL r \<and> er_KVStore r' = er_KVStore r \<and> ri_URL e' = ri_URL e \<and>
    (score_ok (ri_Score e) \<longrightarrow> score_ok (ri_Score e'))"
proof -
  obtain res where res: "newresolver url_Parse (er_ProxyURL r) (ri_URL e) = Some res"
    using newresolver_total [OF assms(2)] by blast
  from getresolver_spec [OF assms(1) this] obtain r' where
    "getresolver url_Parse (ri_URL e) r = Some (r', res)" "res_wf url_Parse r'"
    "er_ProxyURL r' = er_ProxyURL r" "er_KVStore r' = er_KVStore r" by blast
  then show ?thesis
    using res score_ok_updates by (auto simp: lookupHost_def child_outcome_def split: sum.split)
qed

text \<open>The entries that the loop skips, and the outcome of the others.\<close>

definition skipped :: "(string \<Rightarrow> go_error + string) \<Rightarrow> string option \<Rightarrow> resolverinfo \<Rightarrow> bool" where
  "skipped url_Parse proxy e \<longleftrightarrow> proxy \<noteq> None \<and> shouldSkipWithProxy url_Parse e"

definition entry_outcome ::
    "(string \<Rightarrow> go_error + string) \<Rightarrow> string option \<Rightarrow> (nat \<Rightarrow> dns_env) \<Rightarrow> (nat \<Rightarrow> go_error option) \<Rightarrow> string \<Rightarrow>
     nat \<times> resolverinfo \<Rightarrow> go_error + string list" where
  "entry_outcome url_Parse proxy env ctx hostname ie =
     (case ctx (fst ie) of
        Some err \<Rightarrow> Inl err
      | None \<Rightarrow> child_outcome url_Parse proxy (env (fst ie)) hostname (ri_URL (snd ie)))"

fun run_entries ::
    "(nat \<times> resolverinfo \<Rightarrow> bool) \<Rightarrow> (nat \<times> resolverinfo \<Rightarrow> go_error + string list) \<Rightarrow> Union \<Rightarrow> (nat \<times> resolverinfo) list \<Rightarrow>
     Union + string list" where
  "run_entries skip out me [] = Inl me"
| "run_entries skip out me (ie # ies) =
     (if skip ie then run_entries skip out me ies
      else case out ie of
        Inr addrs \<Rightarrow> Inr addrs
      | Inl err \<Rightarrow> run_entries skip out (Union_Add me (newErrWrapper err (ri_URL (snd ie)))) ies)"

lemma run_entries_eq:
  "run_entries skip out me ies =
     (case find (\<lambda>ie. \<not> skip ie \<and> \<not> isl (out ie)) ies of
        Some ie \<Rightarrow> Inr (projr (out ie))
      | None \<Rightarrow> Inl (me\<lparr>un_Children := un_Children me @
          map (\<lambda>ie. newErrWrapper (projl (out ie)) (ri_URL (snd ie))) (filter (\<lambda>ie. \<not> skip ie) ies)\<rparr>))"
  by (induction skip out me ies rule: run_entries.induct) (auto simp: Union_Add_def split: sum.split option.split)

lemma lookup_loop_spec:
  assumes "res_wf url_Parse r" and "\<forall>e \<in> set (visited @ es). ri_URL e \<noteq> '''' \<and> score_ok (ri_Score e)"
  shows "\<exists>r' st. lookup_loop url_Parse env ctx hostname visited es me r =
      Some (r', st, run_entries (\<lambda>ie. skipped url_Parse (er_ProxyURL r) (snd ie))
        (entry_outcome url_Parse (er_ProxyURL r) env ctx hostname) me (enumerate (length visited) es)) \<and>
    res_wf url_Parse r' \<and> er_ProxyURL r' = er_ProxyURL r \<and> er_KVStore r' = er_KVStore r \<and>
    map ri_URL st = map ri_URL (visited @ es) \<and> (\<forall>e \<in> set st. score_ok (ri_Score e))"
  using assms
proof (induction es arbitrary: visited me r)
  case Nil
  then show ?case by auto
next
  case (Cons e es)
  let ?skip = "skipped url_Parse (er_ProxyURL r) e"
  show ?case
  proof (cases "?skip \<or> ctx (length visited) \<noteq> None")
    case True
    then show ?thesis
      using Cons.IH [of r "visited @ [e]"] Cons.prems
      by (auto simp: skipped_def entry_outcome_def split: option.split)
  next
    case False
    obtain r' e' where look: "lookupHost url_Parse (env (length visited)) e hostname r =
        Some (r', e', child_outcome url_Parse (er_ProxyURL r) (env (length visited)) hostname (ri_URL e))"
      and r': "res_wf url_Parse r'" "er_ProxyURL r' = er_ProxyURL r" "er_KVStore r' = er_KVStore r"
      and e': "ri_URL e' = ri_URL e" "score_ok (ri_Score e')"
      using lookupHost_spec [OF Cons.prems(1), of e "env (length visited)" hostname] Cons.prems(2) by auto
    show ?thesis
    proof (cases "child_outcome url_Parse (er_ProxyURL r) (env (length visited)) hostname (ri_URL e)")
      case (Inr addrs)
      then show ?thesis
        using False look r' e' Cons.prems(2) by (auto simp: skipped_def entry_outcome_def)
    next
      case (Inl err)
      then show ?thesis
        using False look r' e' Cons.prems(2) Cons.IH [of r' "visited @ [e']"]
        by (auto simp: skipped_def entry_outcome_def)
    qed
  qed
qed

section \<open>Reachable states\<close>

text \<open>What is stored: nothing that can be read, or a well-formed state.\<close>

definition stored_wf ::
    "('store \<Rightarrow> string \<Rightarrow> string + string) \<Rightarrow> (string \<Rightarrow> string + resolverinfo option list) \<Rightarrow> 'store Resolver \<Rightarrow> bool" where
  "stored_wf kvGet decode r =
     (case readstate kvGet decode r of Inl err \<Rightarrow> True | Inr ri \<Rightarrow> \<exists>st. ri = map Some st \<and> state_wf st)"

text \<open>The documented behaviour of the JSON codec on the state.\<close>

definition codec_ok :: "(string \<Rightarrow> string + resolverinfo option list) \<Rightarrow> (resolverinfo list \<Rightarrow> string + string) \<Rightarrow> bool" where
  "codec_ok decode encode \<longleftrightarrow> (\<forall>st data. encode st = Inr data \<longrightarrow> decode data = Inr (map Some st))"

lemma map_each_Some [simp]: "map_each (\<lambda>e. e) (map Some xs) = Some xs"
  by (induction xs) simp_all

lemma readstatedefault_wf:
  assumes "stored_wf kvGet decode r" and "\<forall>n. score_ok (draws n)"
  shows "\<exists>st. readstatedefault kvGet decode (resolverMakeInitialState draws) r = Some st \<and> state_wf st \<and>
    sorted_wrt (\<lambda>a b. ri_Score a \<ge> ri_Score b) st"
proof -
  let ?makers = "resolverMakeInitialState draws"
  let ?default = "map (\<lambda>m. \<lparr>ri_URL = mk_url m, ri_Score = mk_score m\<rparr>) ?makers"
  have urls: "map ri_URL ?default = allmakers" using makers_urls [of draws] by (simp add: comp_def)
  have default: "state_wf ?default"
    unfolding state_wf_def urls using allmakers_distinct makers_scores [OF assms(2)] by auto
  have set_makers: "mk_url ` set ?makers = set allmakers" using makers_urls [of draws] by (metis set_map)
  have "\<exists>st. readstatedefault kvGet decode ?makers r = Some (sortstate st) \<and> state_wf st"
  proof (cases "readstate kvGet decode r")
    case (Inl err)
    then show ?thesis using default by (auto simp: readstatedefault_def readstateandprune_def)
  next
    case (Inr ri)
    with assms(1) obtain st where st: "ri = map Some st" "state_wf st" by (auto simp: stored_wf_def)
    then have "filter (\<lambda>e. ri_URL e \<in> set allmakers) st = st" "st \<noteq> []"
      using state_wf_length [OF st(2)] by (auto simp: state_wf_def filter_id_conv)
    moreover have "filter (\<lambda>m. mk_url m \<notin> ri_URL ` set st) ?makers = []"
      using st(2) set_makers by (auto simp: state_wf_def filter_empty_conv)
    ultimately show ?thesis
      using Inr st by (auto simp: readstatedefault_def readstateandprune_def Let_def)
  qed
  then obtain st where st: "readstatedefault kvGet decode ?makers r = Some (sortstate st)" "state_wf st" by blast
  have "mset (map ri_URL (sortstate st)) = mset (map ri_URL st)" by simp
  with st(2) have "state_wf (sortstate st)" using state_wf_perm by (auto simp: state_wf_def)
  moreover have "sorted_wrt (\<lambda>a b. ri_Score a \<ge> ri_Score b) (sortstate st)"
    using state_wf_length [OF st(2)] sorted_sort_key [of ri_Score st]
    by (simp add: sortstate_eq sorted_wrt_rev sorted_map)
  ultimately show ?thesis using st(1) by blast
qed

lemma mset_maybeConfusion: "mset (fst (maybeConfusion draw st)) = mset st"
proof -
  have swap: "mset (st[0 := st ! j, j := st ! 0]) = mset st" if "j < length st" for j
    using that by (metis mset_swap gr_implies_not0 length_greater_0_conv list.size(3))
  show ?thesis
    using swap [of 1] swap [of 2] by (auto simp: maybeConfusion_def)
qed

lemma maybeConfusion_wf: "state_wf st \<Longrightarrow> state_wf (fst (maybeConfusion draw st))"
proof (rule state_wf_perm)
  assume st: "state_wf st"
  show "mset (map ri_URL (fst (maybeConfusion draw st))) = mset (map ri_URL st)"
    by (simp add: mset_maybeConfusion)
  show "\<forall>e \<in> set (fst (maybeConfusion draw st)). score_ok (ri_Score e)"
    using st mset_eq_setD [OF mset_maybeConfusion [of draw st]] by (simp add: state_wf_def)
qed

definition engine_order ::
    "('store \<Rightarrow> string \<Rightarrow> string + string) \<Rightarrow> (string \<Rightarrow> string + resolverinfo option list) \<Rightarrow> resolvermaker list \<Rightarrow> rat \<Rightarrow>
     'store Resolver \<Rightarrow> resolverinfo list" where
  "engine_order kvGet decode makers draw r =
     (case readstatedefault kvGet decode makers r of None \<Rightarrow> [] | Some st \<Rightarrow> fst (maybeConfusion draw st))"

lemma state_wf_entries: "state_wf st \<Longrightarrow> \<forall>e \<in> set st. ri_URL e \<noteq> '''' \<and> score_ok (ri_Score e)"
  using allmakers_distinct(2) by (force simp: state_wf_def)

lemma engine_LookupHost_spec:
  fixes draw :: rat
  assumes "stored_wf kvGet decode r" and "res_wf url_Parse r" and "\<forall>n. score_ok (draws n)"
  defines "order \<equiv> engine_order kvGet decode (resolverMakeInitialState draws) draw r"
  shows "\<exists>r1 st. engine_LookupHost kvGet kvSet decode encode (resolverMakeInitialState draws) url_Parse draw env ctx hostname r =
      Some (writestate kvSet encode st r1, run_entries (\<lambda>ie. skipped url_Parse (er_ProxyURL r) (snd ie))
        (entry_outcome url_Parse (er_ProxyURL r) env ctx hostname) (multierror_New ErrLookupHost) (enumerate 0 order)) \<and>
    res_wf url_Parse r1 \<and> er_ProxyURL r1 = er_ProxyURL r \<and> er_KVStore r1 = er_KVStore r \<and> state_wf st \<and> state_wf order"
proof -
  obtain st where st: "readstatedefault kvGet decode (resolverMakeInitialState draws) r = Some st" "state_wf st"
    using readstatedefault_wf [OF assms(1,3)] by blast
  then have order: "order = fst (maybeConfusion draw st)" "state_wf order"
    using maybeConfusion_wf by (simp_all add: order_def engine_order_def)
  have "\<forall>e \<in> set ([] @ order). ri_URL e \<noteq> '''' \<and> score_ok (ri_Score e)" using state_wf_entries [OF order(2)] by simp
  from lookup_loop_spec [OF assms(2) this, of env ctx hostname "multierror_New ErrLookupHost"]
  obtain r1 st' where loop: "lookup_loop url_Parse env ctx hostname [] order (multierror_New ErrLookupHost) r =
      Some (r1, st', run_entries (\<lambda>ie. skipped url_Parse (er_ProxyURL r) (snd ie))
        (entry_outcome url_Parse (er_ProxyURL r) env ctx hostname) (multierror_New ErrLookupHost) (enumerate 0 order))"
      "res_wf url_Parse r1" "er_ProxyURL r1 = er_ProxyURL r" "er_KVStore r1 = er_KVStore r"
      "map ri_URL st' = map ri_URL order" "\<forall>e \<in> set st'. score_ok (ri_Score e)"
    by auto
  from loop(5,6) order(2) have "state_wf st'" by (auto simp: state_wf_def)
  with loop st(1) order show ?thesis by (auto simp: engine_LookupHost_def)
qed

text \<open>
  The life of a resolver: it starts with a store that has no readable state, then performs lookups in arbitrary
  environments and may be closed.
\<close>

inductive engine_reachable ::
    "('store \<Rightarrow> string \<Rightarrow> string + string) \<Rightarrow> ('store \<Rightarrow> string \<Rightarrow> string \<Rightarrow> string option \<times> 'store) \<Rightarrow>
     (string \<Rightarrow> string + resolverinfo option list) \<Rightarrow> (resolverinfo list \<Rightarrow> string + string) \<Rightarrow> resolvermaker list \<Rightarrow>
     (string \<Rightarrow> go_error + string) \<Rightarrow> 'store Resolver \<Rightarrow> bool"
  for kvGet kvSet decode encode makers url_Parse where
  init: "readstate kvGet decode r = Inl err \<Longrightarrow> er_res r = [] \<Longrightarrow>
    engine_reachable kvGet kvSet decode encode makers url_Parse r"
| lookup: "engine_reachable kvGet kvSet decode encode makers url_Parse r \<Longrightarrow>
    engine_LookupHost kvGet kvSet decode encode makers url_Parse draw env ctx hostname r = Some (r', res) \<Longrightarrow>
    engine_reachable kvGet kvSet decode encode makers url_Parse r'"
| close: "engine_reachable kvGet kvSet decode encode makers url_Parse r \<Longrightarrow>
    engine_reachable kvGet kvSet decode encode makers url_Parse (CloseIdleConnections r)"

context kv_store_atomic
begin

text \<open>What \<open>writestate\<close> leaves in the store can be read back.\<close>

lemma writestate_wf:
  assumes codec: "codec_ok decode encode"
    and "state_wf st" and "stored_wf kvGet decode r"
  shows "stored_wf kvGet decode (writestate kvSet encode st r)"
proof (cases "er_KVStore r")
  case None
  with assms(3) show ?thesis by (simp add: writestate_def)
next
  case (Some store)
  show ?thesis
  proof (cases "encode st")
    case (Inl err)
    with assms(3) Some show ?thesis by (simp add: writestate_def)
  next
    case (Inr data)
    with get_after_set [of store storekey data] codec Inr assms(2,3) Some show ?thesis
      by (auto simp: writestate_def stored_wf_def readstate_def codec_ok_def)
  qed
qed

lemma reachable_wf:
  assumes codec: "codec_ok decode encode"
    and draws: "\<forall>n. score_ok (draws n)"
    and "engine_reachable kvGet kvSet decode encode (resolverMakeInitialState draws) url_Parse r"
  shows "stored_wf kvGet decode r \<and> res_wf url_Parse r"
  using assms(3)
proof induction
  case (init r err)
  then show ?case by (simp add: stored_wf_def res_wf_def)
next
  case (lookup r draw env ctx hostname r' res)
  then obtain r1 st where r1: "r' = writestate kvSet encode st r1" "res_wf url_Parse r1" "er_ProxyURL r1 = er_ProxyURL r"
      "er_KVStore r1 = er_KVStore r" "state_wf st"
    using engine_LookupHost_spec [OF _ _ draws, of kvGet decode r url_Parse kvSet encode draw env ctx hostname] by auto
  have "stored_wf kvGet decode r1" using lookup.IH r1(4) by (simp add: stored_wf_def readstate_def)
  moreover have "res_wf url_Parse r'" using r1(1,2) by (auto simp: writestate_def res_wf_def split: option.split sum.split)
  ultimately show ?case using writestate_wf [OF codec r1(5)] r1(1) by blast
next
  case (close r)
  then show ?case by (auto simp: CloseIdleConnections_def stored_wf_def readstate_def res_wf_def)
qed

end

section \<open>Properties\<close>

text \<open>
  C16: The state of the session resolver is well formed after every sequence of lookups, whatever the network
  did: the state that the next lookup reads has one entry for each supported resolver and no other, every score is
  between 0 and 1, and the entries are sorted by descending score. So a lookup never panics on
  what earlier lookups stored. A success lifts a score to at least 0.9 and a failure lowers it to at
  most 0.1, after rounding.
\<close>

theorem engine_state_invariant:
  assumes "codec_ok decode encode" and "\<forall>n. score_ok (draws n)"
    and "engine_reachable Memory_Get Memory_Set decode encode (resolverMakeInitialState draws) url_Parse r"
  shows "\<exists>st. readstatedefault Memory_Get decode (resolverMakeInitialState draws) r = Some st \<and>
    distinct (map ri_URL st) \<and> set (map ri_URL st) = set allmakers \<and>
    sorted_wrt (\<lambda>a b. ri_Score a \<ge> ri_Score b) st \<and>
    (\<forall>e \<in> set st. 0 \<le> ri_Score e \<and> ri_Score e \<le> 1 \<and>
       f64 (9 / 10) \<le> score_success (ri_Score e) \<and> score_failure (ri_Score e) \<le> f64 (1 / 10)) \<and>
    engine_LookupHost Memory_Get Memory_Set decode encode (resolverMakeInitialState draws) url_Parse draw env ctx hostname r \<noteq> None"
proof -
  from memory.reachable_wf [OF assms] have wf: "stored_wf Memory_Get decode r" "res_wf url_Parse r" by auto
  obtain st where "readstatedefault Memory_Get decode (resolverMakeInitialState draws) r = Some st" "state_wf st"
      "sorted_wrt (\<lambda>a b. ri_Score a \<ge> ri_Score b) st"
    using readstatedefault_wf [OF wf(1) assms(2)] by blast
  moreover have "engine_LookupHost Memory_Get Memory_Set decode encode (resolverMakeInitialState draws) url_Parse draw env ctx hostname r \<noteq> None"
    using engine_LookupHost_spec [OF wf assms(2), where draw = draw and kvSet = Memory_Set and encode = encode and env = env and ctx = ctx and hostname = hostname] by auto
  ultimately show ?thesis
    using score_success_bounds(1) score_failure_bounds(2) by (auto simp: state_wf_def score_ok_def)
qed

text \<open>
  C17: What a lookup of the session resolver returns. The entries are tried in the order of the state; an
  entry that cannot be used with the proxy is skipped, and an entry that is reached after the caller's context
  is done fails with the error of the context. The result is the addresses of the first entry
  that succeeds; if none does, it is an error that has one child for each entry that was not skipped, in that
  order, each with the URL of its resolver. In particular the lookup succeeds whenever some entry that is
  not skipped can resolve the name in time.
\<close>

theorem engine_lookup_result:
  assumes "codec_ok decode encode" and "\<forall>n. score_ok (draws n)"
    and "engine_reachable Memory_Get Memory_Set decode encode (resolverMakeInitialState draws) url_Parse r"
  defines "makers \<equiv> resolverMakeInitialState draws"
  shows "map_option snd (engine_LookupHost Memory_Get Memory_Set decode encode makers url_Parse draw env ctx hostname r) =
    Some (let ies = enumerate 0 (engine_order Memory_Get decode makers draw r);
              tried = filter (\<lambda>ie. \<not> skipped url_Parse (er_ProxyURL r) (snd ie)) ies;
              out = entry_outcome url_Parse (er_ProxyURL r) env ctx hostname
          in case find (\<lambda>ie. \<not> isl (out ie)) tried of
               Some ie \<Rightarrow> Inr (projr (out ie))
             | None \<Rightarrow> Inl \<lparr>un_Children = map (\<lambda>ie. newErrWrapper (projl (out ie)) (ri_URL (snd ie))) tried,
                            un_Root = ErrLookupHost\<rparr>)"
proof -
  from memory.reachable_wf [OF assms(1-3)] have wf: "stored_wf Memory_Get decode r" "res_wf url_Parse r" by auto
  have find: "find (\<lambda>x. P x \<and> Q x) xs = find Q (filter P xs)" for P Q and xs :: "(nat \<times> resolverinfo) list"
    by (induction xs) auto
  show ?thesis
    using engine_LookupHost_spec [OF wf assms(2), where draw = draw and kvSet = Memory_Set and encode = encode and env = env and ctx = ctx and hostname = hostname]
    by (auto simp: makers_def run_entries_eq find multierror_New_def Let_def split: option.split)
qed

text \<open>
  C18: The session resolver returns no bogon: every address it returns parses as an IP address and is in none
  of the bogon ranges, whichever resolver it came from and whatever the network answered.
\<close>

theorem engine_lookup_no_bogons:
  assumes "codec_ok decode encode" and "\<forall>n. score_ok (draws n)"
    and "engine_reachable Memory_Get Memory_Set decode encode (resolverMakeInitialState draws) url_Parse r"
    and "engine_LookupHost Memory_Get Memory_Set decode encode (resolverMakeInitialState draws) url_Parse draw env ctx hostname r =
      Some (r', Inr addrs)"
  shows "\<forall>a \<in> set addrs. \<exists>ip. ParseIP a = Some ip \<and> \<not> isBogon a ip"
proof -
  from memory.reachable_wf [OF assms(1-3)] have wf: "stored_wf Memory_Get decode r" "res_wf url_Parse r" by auto
  obtain ie where "entry_outcome url_Parse (er_ProxyURL r) env ctx hostname ie = Inr addrs"
    using engine_LookupHost_spec [OF wf assms(2), where draw = draw and kvSet = Memory_Set and encode = encode and env = env and ctx = ctx and hostname = hostname] assms(4)
    by (auto simp: run_entries_eq find_Some_iff split: option.splits) (metis sum.collapse(2))
  then obtain re where "r_LookupHost (child_resolver (env (fst ie)) re) hostname = Inr addrs"
    by (auto simp: entry_outcome_def child_outcome_def timeLimitedLookup_def split: option.splits sum.splits)
  then have "list_all (\<lambda>a. \<not> IsBogon a) addrs"
    by (cases re) (auto simp: MaybeWrapWithBogonResolver_def bogon_LookupHost_Inr)
  then show ?thesis by (auto simp: list_all_iff IsBogon_def split: option.splits)
qed

text \<open>
  With a proxy the session resolver does not bypass it. If \<open>url.Parse\<close> returns the scheme of the supported
  URLs, then every entry that is not skipped is served by a DNS-over-HTTPS child for its own URL that uses the
  proxy and not HTTP/3; the system resolver is never used.
\<close>

theorem engine_proxy_children:
  assumes "\<forall>url \<in> set allmakers. url_Parse url = Inr (takeWhile (\<lambda>c. c \<noteq> CHR '':'') url)"
    and "ri_URL e \<in> set allmakers" and "\<not> skipped url_Parse (Some proxy) e"
  shows "newresolver url_Parse (Some proxy) (ri_URL e) = Some (Inr (ChildHTTPS (ri_URL e) False (Some proxy)))"
proof -
  have url: "url_Parse (ri_URL e) = Inr (takeWhile (\<lambda>c. c \<noteq> CHR '':'') (ri_URL e))" using assms(1,2) by blast
  have "list_all (\<lambda>u. takeWhile (\<lambda>c. c \<noteq> CHR '':'') u \<in> {''https'', ''dot'', ''tcp''} \<longrightarrow>
      u \<noteq> '''' \<and> takeWhile (\<lambda>c. c \<noteq> CHR '':'') u = ''https'' \<and> \<not> has_prefix u ''http3://'') allmakers"
    by (simp add: allmakers_def systemResolverURL_def has_prefix_def)
  then have "takeWhile (\<lambda>c. c \<noteq> CHR '':'') (ri_URL e) \<in> {''https'', ''dot'', ''tcp''} \<longrightarrow>
      ri_URL e \<noteq> '''' \<and> takeWhile (\<lambda>c. c \<noteq> CHR '':'') (ri_URL e) = ''https'' \<and> \<not> has_prefix (ri_URL e) ''http3://''"
    using assms(2) unfolding list_all_iff by blast
  moreover have "takeWhile (\<lambda>c. c \<noteq> CHR '':'') (ri_URL e) \<in> {''https'', ''dot'', ''tcp''}"
    using assms(3) url by (auto simp: skipped_def shouldSkipWithProxy_def)
  ultimately show ?thesis using url by (simp add: newresolver_def newChildResolver_def Let_def)
qed

theorem engine_proxy_children_witness:
  "newresolver (\<lambda>url. Inr (takeWhile (\<lambda>c. c \<noteq> CHR '':'') url)) (Some ''socks5://127.0.0.1:9050'') ''https://dns.google/dns-query'' =
     Some (Inr (ChildHTTPS ''https://dns.google/dns-query'' False (Some ''socks5://127.0.0.1:9050'')))"
  using engine_proxy_children [of "\<lambda>url. Inr (takeWhile (\<lambda>c. c \<noteq> CHR '':'') url)"
      "\<lparr>ri_URL = ''https://dns.google/dns-query'', ri_Score = 0\<rparr>" "''socks5://127.0.0.1:9050''"]
  by (simp add: allmakers_def skipped_def shouldSkipWithProxy_def)

text \<open>
  A stored state with a null entry makes every lookup panic: the loop that removes the unsupported entries
  reads the URL of each entry without a check.
\<close>

theorem engine_null_entry_panics:
  assumes "er_KVStore r = Some store" and "kvGet store storekey = Inr data" and "decode data = Inr ri" and "None \<in> set ri"
  shows "engine_LookupHost kvGet kvSet decode encode makers url_Parse draw env ctx hostname r = None"
proof -
  have "map_each (\<lambda>e. e) ri = None" using assms(4) by (induction ri) (auto split: option.split)
  with assms(1-3) show ?thesis
    by (simp add: engine_LookupHost_def readstatedefault_def readstateandprune_def readstate_def)
qed

section \<open>A sample session\<close>

definition sample_resolver :: "Memory Resolver" where
  "sample_resolver = \<lparr>er_KVStore = Some \<lparr>m_map = None\<rparr>, er_ProxyURL = None, er_res = [], er_closed = False\<rparr>"

definition sample_draws :: "nat \<Rightarrow> rat" where
  "sample_draws n = 1 / 4"

abbreviation sample_url_Parse :: "string \<Rightarrow> go_error + string" where
  "sample_url_Parse \<equiv> \<lambda>url. Inr (takeWhile (\<lambda>c. c \<noteq> CHR '':'') url)"

text \<open>A codec that knows the state after the lookup below.\<close>

definition sample_state :: "resolverinfo list" where
  "sample_state = \<lparr>ri_URL = systemResolverURL, ri_Score = score_success (1 / 2)\<rparr> #
     map (\<lambda>url. \<lparr>ri_URL = url, ri_Score = 1 / 4\<rparr>) (rev (remove1 systemResolverURL allmakers))"

definition sample_encode :: "resolverinfo list \<Rightarrow> string + string" where
  "sample_encode st = (if st = sample_state then Inr ''state'' else Inl ''unknown'')"

definition sample_decode :: "string \<Rightarrow> string + resolverinfo option list" where
  "sample_decode data = (if data = ''state'' then Inr (map Some sample_state) else Inl ''syntax error'')"

lemma sample_codec: "codec_ok sample_decode sample_encode"
  by (auto simp: codec_ok_def sample_encode_def sample_decode_def)

text \<open>HTTPS is blocked and the system resolver works.\<close>

definition sample_env :: "nat \<Rightarrow> dns_env" where
  "sample_env n = \<lparr>env_ids = (\<lambda>t. 7), env_ToASCII = Inr, env_Bytes = (\<lambda>q. Inr [1]), env_Unpack = (\<lambda>d. Inr sample_reply),
     env_bad_url = (\<lambda>u. None), env_client = (\<lambda>h3 proxy req. Inl connection_reset_error),
     env_getaddrinfo = (\<lambda>h. Inr ([''8.8.8.8''], '''')), env_ctx_done = None\<rparr>"

lemma sample_order:
  "\<exists>rest. engine_order Memory_Get sample_decode (resolverMakeInitialState sample_draws) 1 sample_resolver =
     \<lparr>ri_URL = systemResolverURL, ri_Score = 1 / 2\<rparr> # rest"
proof -
  have "f64 (3 / 10) \<le> 1" using f64_mono [of "3 / 10" 1] by simp
  moreover have "Memory_Get \<lparr>m_map = None\<rparr> storekey = Inl ErrNoSuchKey" by (simp add: Memory_Get_def)
  moreover have "\<exists>rest. sortstate (map (\<lambda>m. \<lparr>ri_URL = mk_url m, ri_Score = mk_score m\<rparr>) (resolverMakeInitialState sample_draws)) =
      \<lparr>ri_URL = systemResolverURL, ri_Score = 1 / 2\<rparr> # rest"
    using allmakers_distinct makers_urls [of sample_draws, THEN arg_cong, of length]
    by (simp add: sortstate_eq)
      (simp add: resolverMakeInitialState_def allmakers_def systemResolverURL_def sample_draws_def half_exact rev_swap [symmetric])
  ultimately show ?thesis
    by (simp add: engine_order_def readstatedefault_def readstateandprune_def readstate_def sample_resolver_def maybeConfusion_def)
qed

lemma sample_outcome:
  "entry_outcome sample_url_Parse None sample_env (\<lambda>n. None) ''example.org'' (0, \<lparr>ri_URL = systemResolverURL, ri_Score = 1 / 2\<rparr>) =
     Inr [''8.8.8.8'']"
proof -
  have ip: "ParseIP ''example.org'' = None" by code_simp
  have "''8.8.8.8'' = dotted 8 8 8 8" by code_simp
  then have "\<not> IsBogon ''8.8.8.8''" by (simp add: IsBogon_dotted bogon_v4_def)
  then show ?thesis
    by (simp add: entry_outcome_def child_outcome_def newresolver_def newChildResolver_def systemResolverURL_def has_prefix_def
        timeLimitedLookup_def MaybeWrapWithBogonResolver_def bogonResolver_def bogon_LookupHost_def NewStdlibResolver_def
        WrapResolver_LookupHost ip newUnwrappedStdlibResolver_def system_LookupHost_def errWrapper_RoundTrip_def
        getaddrinfo_RoundTrip_def getaddrinfo_lookup_def Encode_def sample_env_def wrap_result_def)
qed

lemma sample_reachable:
  "engine_reachable Memory_Get Memory_Set sample_decode sample_encode (resolverMakeInitialState sample_draws) sample_url_Parse sample_resolver"
  by (rule engine_reachable.init [of _ _ _ "StateStoreError ErrNoSuchKey"])
    (simp_all add: readstate_def sample_resolver_def Memory_Get_def)

lemma sample_scores: "\<forall>n. score_ok (sample_draws n)"
  by (simp add: sample_draws_def score_ok_def)

theorem engine_lookup_result_witness:
  "map_option snd (engine_LookupHost Memory_Get Memory_Set sample_decode sample_encode (resolverMakeInitialState sample_draws)
     sample_url_Parse 1 sample_env (\<lambda>n. None) ''example.org'' sample_resolver) = Some (Inr [''8.8.8.8''])"
proof -
  obtain rest where order: "engine_order Memory_Get sample_decode (resolverMakeInitialState sample_draws) 1 sample_resolver =
     \<lparr>ri_URL = systemResolverURL, ri_Score = 1 / 2\<rparr> # rest"
    using sample_order by blast
  have "er_ProxyURL sample_resolver = None" by (simp add: sample_resolver_def)
  then show ?thesis
    using engine_lookup_result [OF sample_codec sample_scores sample_reachable, of 1 sample_env "\<lambda>n. None" "''example.org''"] sample_outcome
    by (simp add: order skipped_def)
qed

theorem engine_state_invariant_witness:
  "\<exists>st. readstatedefault Memory_Get sample_decode (resolverMakeInitialState sample_draws) sample_resolver = Some st \<and>
     set (map ri_URL st) = set allmakers"
  using engine_state_invariant [OF sample_codec sample_scores sample_reachable] by blast

theorem engine_lookup_no_bogons_witness:
  "\<exists>ip. ParseIP ''8.8.8.8'' = Some ip \<and> \<not> isBogon ''8.8.8.8'' ip"
proof -
  have wf: "stored_wf Memory_Get sample_decode sample_resolver" "res_wf sample_url_Parse sample_resolver"
    using memory.reachable_wf [OF sample_codec sample_scores sample_reachable] by auto
  obtain rest where order: "engine_order Memory_Get sample_decode (resolverMakeInitialState sample_draws) 1 sample_resolver =
     \<lparr>ri_URL = systemResolverURL, ri_Score = 1 / 2\<rparr> # rest"
    using sample_order by blast
  have "er_ProxyURL sample_resolver = None" by (simp add: sample_resolver_def)
  with order engine_LookupHost_spec [OF wf sample_scores, where draw = 1 and env = sample_env and ctx = "\<lambda>n. None"
      and hostname = "''example.org''" and kvSet = Memory_Set and encode = sample_encode] sample_outcome
  obtain r' where "engine_LookupHost Memory_Get Memory_Set sample_decode sample_encode (resolverMakeInitialState sample_draws)
      sample_url_Parse 1 sample_env (\<lambda>n. None) ''example.org'' sample_resolver = Some (r', Inr [''8.8.8.8''])"
    by (auto simp: skipped_def)
  from engine_lookup_no_bogons [OF sample_codec sample_scores sample_reachable this] show ?thesis by simp
qed

theorem engine_null_entry_panics_witness:
  "engine_LookupHost Memory_Get Memory_Set (\<lambda>data. Inr [None]) sample_encode (resolverMakeInitialState sample_draws)
     sample_url_Parse 1 sample_env (\<lambda>n. None) ''example.org''
     (sample_resolver\<lparr>er_KVStore := Some \<lparr>m_map = Some [(storekey, ''[null]'')]\<rparr>\<rparr>) = None"
  by (rule engine_null_entry_panics [where store = "\<lparr>m_map = Some [(storekey, ''[null]'')]\<rparr>" and data = "''[null]''" and ri = "[None]"])
    (simp_all add: Memory_Get_def)

end
