(* ===== verification/LteTestKeys.thy ===== *)
theory LteTestKeys
  imports Archival Optional GoSort NetErrors
begin

text \<open>
  The test keys of \<open>internal/experiment/webconnectivitylte/testkeys.go\<close> and their summary,
  \<open>summary.go\<close>. Every method takes the mutex for its whole body, so each is one atomic function on
  the record; the mutex itself is not a field. \<open>SetControlFailure\<close> can panic in the conversion of the
  error, hence the option, but never does (theorem \<open>new_failure_total\<close>). A \<open>*model.OOAPIService\<close> and an \<open>error\<close> are optional
  values, the latter given by its text. \<open>Blocking\<close>, of type \<open>any\<close>, is one of the three kinds of
  value that its documentation lists.
\<close>

section \<open>Data\<close>

record ConnPriorityLogEntry =
  cpl_Msg :: string
  cpl_T :: rat

record DNSWhoamiInfoEntry =
  whoami_Address :: string

record DNSWhoamiInfo =
  SystemV4 :: "DNSWhoamiInfoEntry list"
  UDPv4 :: "(string, DNSWhoamiInfoEntry list) gomap"

record TestKeysDoH =
  doh_NetworkEvents :: "ArchivalNetworkEvent list"
  doh_Queries :: "ArchivalDNSLookupResult list"
  doh_Requests :: "ArchivalHTTPRequestResult list"
  doh_TCPConnect :: "ArchivalTCPConnectResult list"
  doh_TLSHandshakes :: "ArchivalTLSOrQUICHandshakeResult list"

record TestKeysDo53 =
  do53_NetworkEvents :: "ArchivalNetworkEvent list"
  do53_Queries :: "ArchivalDNSLookupResult list"

record OOAPIService =
  svc_Address :: string
  svc_Type :: string
  svc_Front :: string

datatype blocking = BlockingNil | BlockingBool bool | BlockingString string

record TestKeys =
  lte_Agent :: string
  lte_ClientResolver :: string
  lte_Retries :: "int option"
  lte_SOCKSProxy :: "string option"
  lte_NetworkEvents :: "ArchivalNetworkEvent list"
  lte_DNSWoami :: DNSWhoamiInfo
  lte_DoH :: TestKeysDoH
  lte_Do53 :: TestKeysDo53
  lte_DNSDuplicateResponses :: "ArchivalDNSLookupResult list"
  lte_Queries :: "ArchivalDNSLookupResult list"
  lte_Requests :: "ArchivalHTTPRequestResult list"
  lte_TCPConnect :: "ArchivalTCPConnectResult list"
  lte_TLSHandshakes :: "ArchivalTLSOrQUICHandshakeResult list"
  lte_ControlRequest :: "THRequest option"
  lte_Control :: "THResponse option"
  lte_ConnPriorityLog :: "ConnPriorityLogEntry list"
  lte_ControlFailure :: "string option"
  DNSFlags :: int
  lte_DNSExperimentFailure :: "string option"
  DNSConsistency :: "string option"
  HTTPExperimentFailure :: "string option"
  BlockingFlags :: int
  NullNullFlags :: int
  BodyProportion :: rat
  BodyLengthMatch :: "bool option"
  HeadersMatch :: "bool option"
  StatusCodeMatch :: "bool option"
  TitleMatch :: "bool option"
  Blocking :: blocking
  Accessible :: "bool option"
  fundamentalFailure :: "string option"
  testHelper :: "OOAPIService option"

definition NewTestKeys :: TestKeys where
  "NewTestKeys = \<lparr>
     lte_Agent = ''redirect'', lte_ClientResolver = '''', lte_Retries = None, lte_SOCKSProxy = None,
     lte_NetworkEvents = [],
     lte_DNSWoami = \<lparr>SystemV4 = [], UDPv4 = []\<rparr>,
     lte_DoH = \<lparr>doh_NetworkEvents = [], doh_Queries = [], doh_Requests = [], doh_TCPConnect = [],
                doh_TLSHandshakes = []\<rparr>,
     lte_Do53 = \<lparr>do53_NetworkEvents = [], do53_Queries = []\<rparr>,
     lte_DNSDuplicateResponses = [], lte_Queries = [], lte_Requests = [], lte_TCPConnect = [],
     lte_TLSHandshakes = [], lte_ControlRequest = None, lte_Control = None, lte_ConnPriorityLog = [],
     lte_ControlFailure = None, DNSFlags = 0, lte_DNSExperimentFailure = None, DNSConsistency = None,
     HTTPExperimentFailure = None, BlockingFlags = 0, NullNullFlags = 0, BodyProportion = 0,
     BodyLengthMatch = None, HeadersMatch = None, StatusCodeMatch = None, TitleMatch = None,
     Blocking = BlockingNil, Accessible = None, fundamentalFailure = None, testHelper = None\<rparr>"

section \<open>Operations\<close>

definition AppendNetworkEvents :: "ArchivalNetworkEvent list \<Rightarrow> TestKeys \<Rightarrow> TestKeys" where
  "AppendNetworkEvents v tk = tk\<lparr>lte_NetworkEvents := lte_NetworkEvents tk @ v\<rparr>"

definition AppendDNSLateReplies :: "ArchivalDNSLookupResult list \<Rightarrow> TestKeys \<Rightarrow> TestKeys" where
  "AppendDNSLateReplies v tk = tk\<lparr>lte_DNSDuplicateResponses := lte_DNSDuplicateResponses tk @ v\<rparr>"

definition AppendQueries :: "ArchivalDNSLookupResult list \<Rightarrow> TestKeys \<Rightarrow> TestKeys" where
  "AppendQueries v tk = tk\<lparr>lte_Queries := lte_Queries tk @ v\<rparr>"

definition PrependRequests :: "ArchivalHTTPRequestResult list \<Rightarrow> TestKeys \<Rightarrow> TestKeys" where
  "PrependRequests v tk = tk\<lparr>lte_Requests := v @ lte_Requests tk\<rparr>"

definition AppendTCPConnectResults :: "ArchivalTCPConnectResult list \<Rightarrow> TestKeys \<Rightarrow> TestKeys" where
  "AppendTCPConnectResults v tk = tk\<lparr>lte_TCPConnect := lte_TCPConnect tk @ v\<rparr>"

definition AppendTLSHandshakes :: "ArchivalTLSOrQUICHandshakeResult list \<Rightarrow> TestKeys \<Rightarrow> TestKeys" where
  "AppendTLSHandshakes v tk = tk\<lparr>lte_TLSHandshakes := lte_TLSHandshakes tk @ v\<rparr>"

definition SetControlRequest :: "THRequest option \<Rightarrow> TestKeys \<Rightarrow> TestKeys" where
  "SetControlRequest v tk = tk\<lparr>lte_ControlRequest := v\<rparr>"

definition SetControl :: "THResponse option \<Rightarrow> TestKeys \<Rightarrow> TestKeys" where
  "SetControl v tk = tk\<lparr>lte_Control := v\<rparr>"

definition SetControlFailure :: "go_error option \<Rightarrow> TestKeys \<Rightarrow> TestKeys option" where
  "SetControlFailure err tk =
     do { failure \<leftarrow> tracex_NewFailure err; Some (tk\<lparr>lte_ControlFailure := failure\<rparr>) }"

definition SetFundamentalFailure :: "string option \<Rightarrow> TestKeys \<Rightarrow> TestKeys" where
  "SetFundamentalFailure err tk = tk\<lparr>fundamentalFailure := err\<rparr>"

definition WithTestKeysDoH :: "(TestKeysDoH \<Rightarrow> TestKeysDoH) \<Rightarrow> TestKeys \<Rightarrow> TestKeys" where
  "WithTestKeysDoH f tk = tk\<lparr>lte_DoH := f (lte_DoH tk)\<rparr>"

definition WithTestKeysDo53 :: "(TestKeysDo53 \<Rightarrow> TestKeysDo53) \<Rightarrow> TestKeys \<Rightarrow> TestKeys" where
  "WithTestKeysDo53 f tk = tk\<lparr>lte_Do53 := f (lte_Do53 tk)\<rparr>"

definition WithDNSWhoami :: "(DNSWhoamiInfo \<Rightarrow> DNSWhoamiInfo) \<Rightarrow> TestKeys \<Rightarrow> TestKeys" where
  "WithDNSWhoami fn tk = tk\<lparr>lte_DNSWoami := fn (lte_DNSWoami tk)\<rparr>"

definition AppendConnPriorityLogEntry :: "ConnPriorityLogEntry \<Rightarrow> TestKeys \<Rightarrow> TestKeys" where
  "AppendConnPriorityLogEntry entry tk = tk\<lparr>lte_ConnPriorityLog := lte_ConnPriorityLog tk @ [entry]\<rparr>"

definition setTestHelper :: "OOAPIService option \<Rightarrow> TestKeys \<Rightarrow> TestKeys" where
  "setTestHelper th tk = tk\<lparr>testHelper := th\<rparr>"

definition getTestHelper :: "TestKeys \<Rightarrow> OOAPIService option" where
  "getTestHelper tk = testHelper tk"

text \<open>\<open>sort.SliceStable\<close> of the network events by time, the last step of \<open>Finalize\<close>.\<close>

definition net_event_less :: "ArchivalNetworkEvent \<Rightarrow> ArchivalNetworkEvent \<Rightarrow> bool" where
  "net_event_less left right \<longleftrightarrow> net_T left < net_T right"

definition sort_network_events :: "TestKeys \<Rightarrow> TestKeys" where
  "sort_network_events tk = tk\<lparr>lte_NetworkEvents := slice_stable net_event_less (lte_NetworkEvents tk)\<rparr>"

section \<open>Summary\<close>

record SummaryKeys =
  sk_Accessible :: bool
  sk_Blocking :: string
  sk_IsAnomaly :: bool

definition MeasurementSummaryKeys :: "TestKeys \<Rightarrow> SummaryKeys" where
  "MeasurementSummaryKeys tk =
     (let sk = \<lparr>sk_Accessible = False, sk_Blocking = '''', sk_IsAnomaly = False\<rparr>;
          sk = (case Blocking tk of BlockingString v \<Rightarrow> sk\<lparr>sk_IsAnomaly := True, sk_Blocking := v\<rparr> | _ \<Rightarrow> sk)
      in sk\<lparr>sk_Accessible := UnwrapOr (Accessible tk) False\<rparr>)"

definition Anomaly :: "SummaryKeys \<Rightarrow> bool" where
  "Anomaly sk = sk_IsAnomaly sk"

section \<open>Lemmas\<close>

interpretation net_event: keyed_less net_event_less net_T
  by unfold_locales (simp add: net_event_less_def)

lemma summary_anomaly_iff: "Anomaly (MeasurementSummaryKeys tk) \<longleftrightarrow> (\<exists>v. Blocking tk = BlockingString v)"
  by (simp add: Anomaly_def MeasurementSummaryKeys_def Let_def split: blocking.splits)

end
