(* ===== verification/LteAnalysis.thy ===== *)
theory LteAnalysis
  imports LteTestKeys Analysis Bogon
begin

text \<open>
  The analysis that Web Connectivity runs when all its tasks have ended, from
  \<open>internal/experiment/webconnectivitylte\<close>: \<open>analysishttpdiff.go\<close>, \<open>analysiscore.go\<close> (the flags),
  \<open>analysisext.go\<close> (the extended analysis, which sets flags) and \<open>analysisclassic.go\<close> (the verdict
  compatible with version 0.4). The functions change the test keys, so each maps the record to the
  new one; a panic is \<open>None\<close>. The informational text that the extended analysis prints is left out.
  The flags are \<open>int64\<close> values that start at zero and are only combined by a bitwise or with small
  constants, so they stay non-negative integers.
\<close>

unbundle bit_operations_syntax

section \<open>Flags\<close>

definition AnalysisBlockingFlagDNSBlocking :: int where "AnalysisBlockingFlagDNSBlocking = push_bit 0 1"
definition AnalysisBlockingFlagTCPIPBlocking :: int where "AnalysisBlockingFlagTCPIPBlocking = push_bit 1 1"
definition AnalysisBlockingFlagTLSBlocking :: int where "AnalysisBlockingFlagTLSBlocking = push_bit 2 1"
definition AnalysisBlockingFlagHTTPBlocking :: int where "AnalysisBlockingFlagHTTPBlocking = push_bit 3 1"
definition AnalysisBlockingFlagHTTPDiff :: int where "AnalysisBlockingFlagHTTPDiff = push_bit 4 1"
definition AnalysisBlockingFlagSuccess :: int where "AnalysisBlockingFlagSuccess = push_bit 5 1"

definition AnalysisFlagNullNullExpectedDNSLookupFailure :: int where
  "AnalysisFlagNullNullExpectedDNSLookupFailure = push_bit 0 1"
definition AnalysisFlagNullNullExpectedTCPConnectFailure :: int where
  "AnalysisFlagNullNullExpectedTCPConnectFailure = push_bit 1 1"
definition AnalysisFlagNullNullExpectedTLSHandshakeFailure :: int where
  "AnalysisFlagNullNullExpectedTLSHandshakeFailure = push_bit 2 1"
definition AnalysisFlagNullNullSuccessfulHTTPS :: int where
  "AnalysisFlagNullNullSuccessfulHTTPS = push_bit 3 1"
definition AnalysisFlagNullNullUnexpectedDNSLookupSuccess :: int where
  "AnalysisFlagNullNullUnexpectedDNSLookupSuccess = push_bit 4 1"

definition AnalysisFlagDNSBogon :: int where "AnalysisFlagDNSBogon = push_bit 0 1"
definition AnalysisDNSFlagUnexpectedFailure :: int where "AnalysisDNSFlagUnexpectedFailure = push_bit 1 1"
definition AnalysisDNSFlagUnexpectedAddrs :: int where "AnalysisDNSFlagUnexpectedAddrs = push_bit 2 1"

text \<open>The assignments \<open>tk.BlockingFlags |= flag\<close> and the like.\<close>

definition blocking_flag :: "int \<Rightarrow> TestKeys \<Rightarrow> TestKeys" where
  "blocking_flag flag tk = tk\<lparr>BlockingFlags := BlockingFlags tk OR flag\<rparr>"

definition dns_flag :: "int \<Rightarrow> TestKeys \<Rightarrow> TestKeys" where
  "dns_flag flag tk = tk\<lparr>DNSFlags := DNSFlags tk OR flag\<rparr>"

definition null_null_flag :: "int \<Rightarrow> TestKeys \<Rightarrow> TestKeys" where
  "null_null_flag flag tk = tk\<lparr>NullNullFlags := NullNullFlags tk OR flag\<rparr>"

section \<open>HTTP difference\<close>

record analysisHTTPDiffStatus =
  hds_BodyProportion :: "rat option"
  hds_BodyLengthMatch :: "bool option"
  hds_HeadersMatch :: "bool option"
  hds_StatusCodeMatch :: "bool option"
  hds_TitleMatch :: "bool option"

definition bodyProportionFactor :: rat where
  "bodyProportionFactor = f64 (7 / 10)"

definition newAnalysisHTTPDiffStatus :: "WebAnalysis \<Rightarrow> analysisHTTPDiffStatus" where
  "newAnalysisHTTPDiffStatus analysis = \<lparr>
     hds_BodyProportion = HTTPFinalResponseDiffBodyProportionFactor analysis,
     hds_BodyLengthMatch =
       map_option (\<lambda>p. p > bodyProportionFactor) (HTTPFinalResponseDiffBodyProportionFactor analysis),
     hds_HeadersMatch =
       map_option (\<lambda>m. length m > 0) (HTTPFinalResponseDiffUncommonHeadersIntersection analysis),
     hds_StatusCodeMatch = HTTPFinalResponseDiffStatusCodeMatch analysis,
     hds_TitleMatch =
       map_option (\<lambda>m. length m \<le> 0) (HTTPFinalResponseDiffTitleDifferentLongWords analysis)\<rparr>"

text \<open>
  The argument of the algorithm is an interface with four methods, here the four values they
  return. The status above and the test keys implement it.
\<close>

definition analysisHTTPDiffAlgorithm ::
  "bool option \<Rightarrow> bool option \<Rightarrow> bool option \<Rightarrow> bool option \<Rightarrow> bool" where
  "analysisHTTPDiffAlgorithm bodyLengthMatch headersMatch statusCodeMatch titleMatch =
     (if some_true statusCodeMatch then
        if some_true bodyLengthMatch then False
        else if some_true headersMatch then False
        else if some_true titleMatch then False
        else True
      else True)"

definition hds_diff :: "analysisHTTPDiffStatus \<Rightarrow> bool" where
  "hds_diff hds = analysisHTTPDiffAlgorithm (hds_BodyLengthMatch hds) (hds_HeadersMatch hds)
     (hds_StatusCodeMatch hds) (hds_TitleMatch hds)"

definition httpDiff :: "TestKeys \<Rightarrow> bool" where
  "httpDiff tk = analysisHTTPDiffAlgorithm (BodyLengthMatch tk) (HeadersMatch tk) (StatusCodeMatch tk) (TitleMatch tk)"

section \<open>Extended analysis\<close>

definition analysisExtDNS :: "WebAnalysis \<Rightarrow> TestKeys \<Rightarrow> TestKeys" where
  "analysisExtDNS analysis tk =
     (let tk = (if set_Len (DNSLookupSuccessWithBogonAddresses analysis) > 0
                then dns_flag AnalysisFlagDNSBogon tk else tk);
          tk = (if set_Len (DNSLookupUnexpectedFailure analysis) > 0
                then dns_flag AnalysisDNSFlagUnexpectedFailure (blocking_flag AnalysisBlockingFlagDNSBlocking tk)
                else tk)
      in if set_Len (DNSLookupSuccessWithInvalidAddresses analysis) > 0
         then dns_flag AnalysisDNSFlagUnexpectedAddrs (blocking_flag AnalysisBlockingFlagDNSBlocking tk)
         else tk)"

definition analysisExtEndpointFailure :: "WebAnalysis \<Rightarrow> TestKeys \<Rightarrow> TestKeys" where
  "analysisExtEndpointFailure analysis tk =
     (let tk = (if set_Len (TCPConnectUnexpectedFailure analysis) > 0
                then blocking_flag AnalysisBlockingFlagTCPIPBlocking tk else tk);
          tk = (if set_Len (TLSHandshakeUnexpectedFailure analysis) > 0
                then blocking_flag AnalysisBlockingFlagTLSBlocking tk else tk)
      in if set_Len (HTTPRoundTripUnexpectedFailure analysis) > 0
         then blocking_flag AnalysisBlockingFlagHTTPBlocking tk else tk)"

definition analysisExtHTTPFinalResponse :: "WebAnalysis \<Rightarrow> TestKeys \<Rightarrow> TestKeys" where
  "analysisExtHTTPFinalResponse analysis tk =
     (if \<not> IsNone (HTTPFinalResponseSuccessTCPWithoutControl analysis) then tk
      else if \<not> IsNone (HTTPFinalResponseSuccessTLSWithoutControl analysis)
      then blocking_flag AnalysisBlockingFlagSuccess (null_null_flag AnalysisFlagNullNullSuccessfulHTTPS tk)
      else if \<not> IsNone (HTTPFinalResponseSuccessTLSWithControl analysis)
      then blocking_flag AnalysisBlockingFlagSuccess tk
      else if \<not> IsNone (HTTPFinalResponseSuccessTCPWithControl analysis)
      then if hds_diff (newAnalysisHTTPDiffStatus analysis)
           then blocking_flag AnalysisBlockingFlagHTTPDiff tk
           else blocking_flag AnalysisBlockingFlagSuccess tk
      else tk)"

text \<open>The second half of \<open>analysisExtRedirectErrors\<close>, when the errors can be explained.\<close>

definition explain_redirect_errors :: "WebAnalysis \<Rightarrow> TestKeys \<Rightarrow> TestKeys" where
  "explain_redirect_errors analysis tk =
     (let tk = (if set_Len (DNSLookupUnexplainedFailure analysis) > 0
                then blocking_flag AnalysisBlockingFlagDNSBlocking tk else tk);
          tk = (if set_Len (TCPConnectUnexplainedFailure analysis) > 0
                then blocking_flag AnalysisBlockingFlagTCPIPBlocking tk else tk);
          tk = (if set_Len (TLSHandshakeUnexplainedFailure analysis) > 0
                then blocking_flag AnalysisBlockingFlagTLSBlocking tk else tk)
      in if set_Len (HTTPRoundTripUnexplainedFailure analysis) > 0
         then blocking_flag AnalysisBlockingFlagHTTPBlocking tk else tk)"

definition analysisExtRedirectErrors :: "WebAnalysis \<Rightarrow> TestKeys \<Rightarrow> TestKeys" where
  "analysisExtRedirectErrors analysis tk =
     (if \<not> IsNone (HTTPFinalResponseSuccessTCPWithoutControl analysis) then tk
      else if \<not> IsNone (HTTPFinalResponseSuccessTLSWithoutControl analysis) then tk
      else if \<not> IsNone (HTTPFinalResponseSuccessTLSWithControl analysis) then tk
      else if \<not> IsNone (HTTPFinalResponseSuccessTCPWithControl analysis) then tk
      else case wa_ControlExpectations analysis of
        None \<Rightarrow> tk
      | Some expect \<Rightarrow>
          (case FinalResponseFailure expect of
             None \<Rightarrow> tk
           | Some failure \<Rightarrow> if failure \<noteq> '''' then tk else explain_redirect_errors analysis tk))"

definition analysisExtExpectedFailures :: "WebAnalysis \<Rightarrow> TestKeys \<Rightarrow> TestKeys" where
  "analysisExtExpectedFailures analysis tk =
     (let tk = (if set_Len (DNSLookupExpectedFailure analysis) > 0
                then null_null_flag AnalysisFlagNullNullExpectedDNSLookupFailure tk else tk);
          tk = (if set_Len (TCPConnectExpectedFailure analysis) > 0
                then null_null_flag AnalysisFlagNullNullExpectedTCPConnectFailure tk else tk);
          tk = (if set_Len (TLSHandshakeExpectedFailure analysis) > 0
                then null_null_flag AnalysisFlagNullNullExpectedTLSHandshakeFailure tk else tk)
      in case wa_ControlExpectations analysis of
           None \<Rightarrow> tk
         | Some expect \<Rightarrow>
             if set_Len (DNSAddresses expect) \<le> 0 \<and> set_Len (DNSLookupSuccess analysis) > 0
             then null_null_flag AnalysisFlagNullNullUnexpectedDNSLookupSuccess tk else tk)"

definition analysis_ext_flags :: "WebAnalysis \<Rightarrow> TestKeys \<Rightarrow> TestKeys" where
  "analysis_ext_flags analysis tk =
     analysisExtExpectedFailures analysis (analysisExtHTTPFinalResponse analysis
       (analysisExtRedirectErrors analysis (analysisExtEndpointFailure analysis (analysisExtDNS analysis tk))))"

definition analysisExtMain ::
  "GeoIPASNLookupper \<Rightarrow> (string \<Rightarrow> string) \<Rightarrow> WebObservationsContainer \<Rightarrow> TestKeys \<Rightarrow> TestKeys option" where
  "analysisExtMain lookupper uni container tk =
     do { analysis \<leftarrow> AnalyzeWebObservationsWithoutLinearAnalysis lookupper uni container;
          Some (analysis_ext_flags analysis tk) }"

section \<open>Classic analysis\<close>

definition analysisClassicDNSConsistency :: "WebAnalysis \<Rightarrow> string option" where
  "analysisClassicDNSConsistency woa =
     (if set_Len (DNSLookupUnexpectedFailure woa) \<le> 0 \<and>
         set_Len (DNSLookupSuccessWithInvalidAddressesClassic woa) \<le> 0 \<and>
         (set_Len (DNSLookupSuccessWithValidAddressClassic woa) > 0 \<or> set_Len (DNSLookupExpectedFailure woa) > 0)
      then Some ''consistent''
      else if set_Len (DNSLookupSuccessWithInvalidAddressesClassic woa) > 0 \<or>
         set_Len (DNSLookupUnexpectedFailure woa) > 0 \<or>
         (set_Len (DNSLookupSuccess woa) > 0 \<and>
          (case wa_ControlExpectations woa of None \<Rightarrow> False | Some expect \<Rightarrow> set_Len (DNSAddresses expect) \<le> 0))
      then Some ''inconsistent''
      else None)"

definition setHTTPDiffValues :: "WebAnalysis \<Rightarrow> TestKeys \<Rightarrow> TestKeys" where
  "setHTTPDiffValues woa tk =
     (let hds = newAnalysisHTTPDiffStatus woa in
      tk\<lparr>BodyProportion := UnwrapOr (hds_BodyProportion hds) 0,
         BodyLengthMatch := hds_BodyLengthMatch hds,
         HeadersMatch := hds_HeadersMatch hds,
         StatusCodeMatch := hds_StatusCodeMatch hds,
         TitleMatch := hds_TitleMatch hds\<rparr>)"

text \<open>\<open>!tk.DNSConsistency.IsNone() && tk.DNSConsistency.Unwrap() == "inconsistent"\<close>\<close>

abbreviation dns_inconsistent :: "TestKeys \<Rightarrow> bool" where
  "dns_inconsistent tk \<equiv> DNSConsistency tk = Some ''inconsistent''"

definition setBlockingFalse :: "TestKeys \<Rightarrow> TestKeys" where
  "setBlockingFalse tk = tk\<lparr>Blocking := BlockingBool False, Accessible := Some True\<rparr>"

definition setBlockingNil :: "TestKeys \<Rightarrow> TestKeys" where
  "setBlockingNil tk =
     (if dns_inconsistent tk
      then tk\<lparr>Blocking := BlockingString ''dns'', Accessible := Some False\<rparr>
      else tk\<lparr>Blocking := BlockingNil, Accessible := None\<rparr>)"

definition setBlockingString :: "string \<Rightarrow> TestKeys \<Rightarrow> TestKeys" where
  "setBlockingString v tk =
     (let tk = (if dns_inconsistent tk then tk\<lparr>Blocking := BlockingString ''dns''\<rparr>
                else tk\<lparr>Blocking := BlockingString v\<rparr>)
      in tk\<lparr>Accessible := Some False\<rparr>)"

definition setHTTPExperimentFailure :: "string option \<Rightarrow> TestKeys \<Rightarrow> TestKeys" where
  "setHTTPExperimentFailure v tk = tk\<lparr>HTTPExperimentFailure := v\<rparr>"

definition setWebsiteDown :: "TestKeys \<Rightarrow> TestKeys" where
  "setWebsiteDown tk =
     (if dns_inconsistent tk
      then tk\<lparr>Blocking := BlockingString ''dns'', Accessible := Some False\<rparr>
      else tk\<lparr>Blocking := BlockingBool False, Accessible := Some False\<rparr>)"

text \<open>The loop over \<open>addrs.Keys()\<close> with its counter.\<close>

fun only_loopback_loop :: "string list \<Rightarrow> nat \<Rightarrow> bool" where
  "only_loopback_loop [] n = (n > 0)"
| "only_loopback_loop (addr # addrs) n =
     (if ParseIP addr = None then only_loopback_loop addrs n
      else if \<not> IsLoopback addr then False
      else only_loopback_loop addrs (n + 1))"

definition analysisContainsOnlyLoopbackAddrs :: "string set \<Rightarrow> bool" where
  "analysisContainsOnlyLoopbackAddrs addrs = only_loopback_loop (set_Keys addrs) 0"

text \<open>The conditions that cases 6 and 7 share.\<close>

definition resolved_like_control :: "WebObservation \<Rightarrow> bool" where
  "resolved_like_control entry \<longleftrightarrow> Type entry = WebObservationTypeDNSLookup \<and>
     Failure entry = Some '''' \<and> ControlDNSLookupFailure entry = Some ''''"

definition loopback_only :: "string set option \<Rightarrow> bool \<Rightarrow> bool" where
  "loopback_only addrs expected = (case addrs of None \<Rightarrow> False
     | Some a \<Rightarrow> analysisContainsOnlyLoopbackAddrs a = expected)"

text \<open>One iteration: \<open>Some\<close> when the body returns, \<open>None\<close> when it reaches the end of the loop body.\<close>

definition classic_entry :: "WebObservation \<Rightarrow> TestKeys \<Rightarrow> TestKeys option" where
  "classic_entry entry tk =
     (if some_true (HTTPResponseIsFinal entry) then
        if TLSHandshakeFailure entry = Some '''' then Some (setBlockingFalse tk)
        else if IsNone (ControlHTTPFailure entry) then Some (setBlockingNil tk)
        else if \<not> httpDiff tk then Some (setBlockingFalse tk)
        else Some (setBlockingString ''http-diff'' tk)
      else if Type entry = WebObservationTypeHTTPRoundTrip \<and> fails (Failure entry) then
        (case ControlHTTPFailure entry of
           None \<Rightarrow> Some (setHTTPExperimentFailure (Failure entry) (setBlockingNil tk))
         | Some control \<Rightarrow>
             if control \<noteq> '''' then Some (setHTTPExperimentFailure (Failure entry) (setWebsiteDown tk))
             else Some (setHTTPExperimentFailure (Failure entry) (setBlockingString ''http-failure'' tk)))
      else if Type entry = WebObservationTypeTLSHandshake \<and> fails (Failure entry) then
        (case ControlTLSHandshakeFailure entry of
           None \<Rightarrow>
             if IsNone (ControlHTTPFailure entry)
             then Some (setHTTPExperimentFailure (Failure entry) (setBlockingNil tk))
             else Some (setHTTPExperimentFailure (Failure entry) (setBlockingString ''http-failure'' tk))
         | Some control \<Rightarrow>
             if control \<noteq> '''' then Some (setHTTPExperimentFailure (Failure entry) (setWebsiteDown tk))
             else Some (setHTTPExperimentFailure (Failure entry) (setBlockingString ''http-failure'' tk)))
      else if Type entry = WebObservationTypeTCPConnect \<and> fails (Failure entry) then
        (case ControlTCPConnectFailure entry of
           None \<Rightarrow>
             if IsNone (ControlHTTPFailure entry)
             then Some (setHTTPExperimentFailure (Failure entry) (setBlockingNil tk))
             else Some (setHTTPExperimentFailure (Failure entry) (setBlockingString ''http-failure'' tk))
         | Some control \<Rightarrow>
             if control \<noteq> '''' then Some (setHTTPExperimentFailure (Failure entry) (setWebsiteDown tk))
             else Some (setHTTPExperimentFailure (Failure entry) (setBlockingString ''tcp_ip'' tk)))
      else if Type entry = WebObservationTypeDNSLookup \<and> fails (Failure entry) then
        (case ControlDNSLookupFailure entry of
           None \<Rightarrow>
             if IsNone (ControlHTTPFailure entry)
             then Some (setHTTPExperimentFailure (Failure entry) (setBlockingFalse tk))
             else Some (setHTTPExperimentFailure (Failure entry) (setBlockingString ''dns'' tk))
         | Some control \<Rightarrow>
             if control \<noteq> '''' then Some (setHTTPExperimentFailure (Failure entry) (setWebsiteDown tk))
             else if Failure entry = Some FailureDNSNoAnswer \<and>
               (case ControlDNSResolvedAddrs entry of None \<Rightarrow> False | Some addrs \<Rightarrow> set_Len addrs \<le> 0)
             then Some (setWebsiteDown tk)
             else Some (setHTTPExperimentFailure (Failure entry) (setBlockingString ''dns'' tk)))
      else if resolved_like_control entry \<and> loopback_only (DNSResolvedAddrs entry) True \<and>
          loopback_only (ControlDNSResolvedAddrs entry) False
      then Some (setBlockingString ''dns'' tk)
      else if resolved_like_control entry \<and> loopback_only (DNSResolvedAddrs entry) True \<and>
          loopback_only (ControlDNSResolvedAddrs entry) True
      then Some (setWebsiteDown tk)
      else None)"

fun analysisClassicComputeBlockingAccessible :: "WebObservation list \<Rightarrow> TestKeys \<Rightarrow> TestKeys" where
  "analysisClassicComputeBlockingAccessible [] tk = tk"
| "analysisClassicComputeBlockingAccessible (entry # entries) tk =
     (case classic_entry entry tk of
        Some tk' \<Rightarrow> tk'
      | None \<Rightarrow> analysisClassicComputeBlockingAccessible entries tk)"

text \<open>
  The container that \<open>analysisClassic\<close> builds; \<open>runtimex.Try0\<close> panics when the URL of the control
  request does not parse.
\<close>

definition lte_container ::
  "GeoIPASNLookupper \<Rightarrow> (string \<Rightarrow> string) \<Rightarrow> (string \<Rightarrow> string + string) \<Rightarrow> TestKeys \<Rightarrow> WebObservationsContainer option" where
  "lte_container lookupper uni urlHostname tk =
     (let container = NewWebObservationsContainer;
          container = IngestDNSLookupEvents lookupper (lte_Queries tk) container;
          container = IngestTCPConnectEvents lookupper (lte_TCPConnect tk) container;
          container = IngestTLSHandshakeEvents (lte_TLSHandshakes tk) container;
          container = IngestHTTPRoundTripEvents uni (lte_Requests tk) container
      in case (lte_ControlRequest tk, lte_Control tk) of
           (Some request, Some response) \<Rightarrow>
             do { r \<leftarrow> IngestControlMessages urlHostname request response container;
                  case r of Inl _ \<Rightarrow> None | Inr container \<Rightarrow> Some container }
         | _ \<Rightarrow> Some container)"

text \<open>The steps that use the classic analysis.\<close>

definition classic_verdict :: "WebAnalysis \<Rightarrow> TestKeys \<Rightarrow> TestKeys" where
  "classic_verdict woa tk =
     (let tk = tk\<lparr>DNSConsistency := analysisClassicDNSConsistency woa\<rparr>;
          tk = (if fails (DNSExperimentFailure woa)
                then tk\<lparr>lte_DNSExperimentFailure := DNSExperimentFailure woa\<rparr> else tk);
          tk = setHTTPDiffValues woa tk
      in analysisClassicComputeBlockingAccessible (wa_Linear woa) tk)"

definition analysisClassic ::
  "GeoIPASNLookupper \<Rightarrow> (string \<Rightarrow> string) \<Rightarrow> (string \<Rightarrow> string + string) \<Rightarrow> TestKeys \<Rightarrow> TestKeys option" where
  "analysisClassic lookupper uni urlHostname tk =
     do { container \<leftarrow> lte_container lookupper uni urlHostname tk;
          tk \<leftarrow> analysisExtMain lookupper uni container tk;
          classic \<leftarrow> ClassicFilter container;
          woa \<leftarrow> AnalyzeWebObservationsWithLinearAnalysis lookupper uni classic;
          Some (classic_verdict woa tk) }"

text \<open>\<open>Finalize\<close>, with the lookup that \<open>analysisEngineClassic\<close> passes as an argument.\<close>

definition Finalize ::
  "GeoIPASNLookupper \<Rightarrow> (string \<Rightarrow> string) \<Rightarrow> (string \<Rightarrow> string + string) \<Rightarrow> TestKeys \<Rightarrow> TestKeys option" where
  "Finalize lookupper uni urlHostname tk =
     map_option sort_network_events (analysisClassic lookupper uni urlHostname tk)"

end
