(* ===== verification/LteVerdict.thy ===== *)
theory LteVerdict
  imports LteAnalysis
begin

text \<open>
  What the analysis of Web Connectivity (theory \<open>LteAnalysis\<close>) computes. The flags are given bit by
  bit in terms of the sets of the pipeline's analysis. The verdict refines a specification: each
  observation has an \<open>outcome\<close>, the first decisive one in the linear order is published, and an
  inconsistent DNS overrides everything but a reachable website. The analysis does not panic on test
  keys in which a failed TLS handshake sends no request.
\<close>

unbundle bit_operations_syntax

section \<open>Which flags are set\<close>

lemma bit_flag: "bit (push_bit k 1 :: int) j \<longleftrightarrow> j = k"
  unfolding bit_push_bit_iff bit_1_iff by auto

lemmas flag_defs =
  AnalysisBlockingFlagDNSBlocking_def AnalysisBlockingFlagTCPIPBlocking_def AnalysisBlockingFlagTLSBlocking_def
  AnalysisBlockingFlagHTTPBlocking_def AnalysisBlockingFlagHTTPDiff_def AnalysisBlockingFlagSuccess_def
  AnalysisFlagNullNullExpectedDNSLookupFailure_def AnalysisFlagNullNullExpectedTCPConnectFailure_def
  AnalysisFlagNullNullExpectedTLSHandshakeFailure_def AnalysisFlagNullNullSuccessfulHTTPS_def
  AnalysisFlagNullNullUnexpectedDNSLookupSuccess_def AnalysisFlagDNSBogon_def
  AnalysisDNSFlagUnexpectedFailure_def AnalysisDNSFlagUnexpectedAddrs_def

lemmas flag_setters = blocking_flag_def dns_flag_def null_null_flag_def

lemma bit_flags [simp]:
  "bit AnalysisBlockingFlagDNSBlocking j \<longleftrightarrow> j = 0" "bit AnalysisBlockingFlagTCPIPBlocking j \<longleftrightarrow> j = 1"
  "bit AnalysisBlockingFlagTLSBlocking j \<longleftrightarrow> j = 2" "bit AnalysisBlockingFlagHTTPBlocking j \<longleftrightarrow> j = 3"
  "bit AnalysisBlockingFlagHTTPDiff j \<longleftrightarrow> j = 4" "bit AnalysisBlockingFlagSuccess j \<longleftrightarrow> j = 5"
  "bit AnalysisFlagNullNullExpectedDNSLookupFailure j \<longleftrightarrow> j = 0"
  "bit AnalysisFlagNullNullExpectedTCPConnectFailure j \<longleftrightarrow> j = 1"
  "bit AnalysisFlagNullNullExpectedTLSHandshakeFailure j \<longleftrightarrow> j = 2"
  "bit AnalysisFlagNullNullSuccessfulHTTPS j \<longleftrightarrow> j = 3"
  "bit AnalysisFlagNullNullUnexpectedDNSLookupSuccess j \<longleftrightarrow> j = 4"
  "bit AnalysisFlagDNSBogon j \<longleftrightarrow> j = 0" "bit AnalysisDNSFlagUnexpectedFailure j \<longleftrightarrow> j = 1"
  "bit AnalysisDNSFlagUnexpectedAddrs j \<longleftrightarrow> j = 2"
  unfolding flag_defs bit_flag by (rule refl)+

text \<open>The flags after a step, bit by bit.\<close>

lemma flag_bits_setters [simp]:
  "bit (BlockingFlags (blocking_flag flag tk)) j \<longleftrightarrow> bit (BlockingFlags tk) j \<or> bit flag j"
  "bit (DNSFlags (dns_flag flag tk)) j \<longleftrightarrow> bit (DNSFlags tk) j \<or> bit flag j"
  "bit (NullNullFlags (null_null_flag flag tk)) j \<longleftrightarrow> bit (NullNullFlags tk) j \<or> bit flag j"
  by (simp_all add: flag_setters bit_or_iff)

lemma flag_frames [simp]:
  "BlockingFlags (dns_flag x tk) = BlockingFlags tk" "BlockingFlags (null_null_flag x tk) = BlockingFlags tk"
  "DNSFlags (blocking_flag x tk) = DNSFlags tk" "DNSFlags (null_null_flag x tk) = DNSFlags tk"
  "NullNullFlags (blocking_flag x tk) = NullNullFlags tk" "NullNullFlags (dns_flag x tk) = NullNullFlags tk"
  by (simp_all add: flag_setters)

text \<open>There is no final response, but the control could fetch the page.\<close>

definition no_final_response :: "WebAnalysis \<Rightarrow> bool" where
  "no_final_response wa \<longleftrightarrow>
     HTTPFinalResponseSuccessTCPWithoutControl wa = None \<and> HTTPFinalResponseSuccessTLSWithoutControl wa = None \<and>
     HTTPFinalResponseSuccessTLSWithControl wa = None \<and> HTTPFinalResponseSuccessTCPWithControl wa = None"

definition control_fetched :: "WebAnalysis \<Rightarrow> bool" where
  "control_fetched wa \<longleftrightarrow> (\<exists>expect. wa_ControlExpectations wa = Some expect \<and> FinalResponseFailure expect = Some '''')"

definition redirect_explained :: "WebAnalysis \<Rightarrow> bool" where
  "redirect_explained wa \<longleftrightarrow> no_final_response wa \<and> control_fetched wa"

lemma redirect_errors_eq:
  "analysisExtRedirectErrors wa tk = (if redirect_explained wa then explain_redirect_errors wa tk else tk)"
  by (simp add: analysisExtRedirectErrors_def redirect_explained_def no_final_response_def control_fetched_def
      IsNone_def split: option.split)

lemma ext_dns_bits:
  "bit (BlockingFlags (analysisExtDNS wa tk)) j \<longleftrightarrow> bit (BlockingFlags tk) j \<or>
     j = 0 \<and> (set_Len (DNSLookupUnexpectedFailure wa) > 0 \<or> set_Len (DNSLookupSuccessWithInvalidAddresses wa) > 0)"
  "bit (DNSFlags (analysisExtDNS wa tk)) j \<longleftrightarrow> bit (DNSFlags tk) j \<or>
     j = 0 \<and> set_Len (DNSLookupSuccessWithBogonAddresses wa) > 0 \<or>
     j = 1 \<and> set_Len (DNSLookupUnexpectedFailure wa) > 0 \<or>
     j = 2 \<and> set_Len (DNSLookupSuccessWithInvalidAddresses wa) > 0"
  "NullNullFlags (analysisExtDNS wa tk) = NullNullFlags tk"
  by (auto simp: analysisExtDNS_def Let_def)

lemma ext_endpoint_bits:
  "bit (BlockingFlags (analysisExtEndpointFailure wa tk)) j \<longleftrightarrow> bit (BlockingFlags tk) j \<or>
     j = 1 \<and> set_Len (TCPConnectUnexpectedFailure wa) > 0 \<or>
     j = 2 \<and> set_Len (TLSHandshakeUnexpectedFailure wa) > 0 \<or>
     j = 3 \<and> set_Len (HTTPRoundTripUnexpectedFailure wa) > 0"
  "DNSFlags (analysisExtEndpointFailure wa tk) = DNSFlags tk"
  "NullNullFlags (analysisExtEndpointFailure wa tk) = NullNullFlags tk"
  by (auto simp: analysisExtEndpointFailure_def Let_def)

lemma ext_redirect_bits:
  "bit (BlockingFlags (analysisExtRedirectErrors wa tk)) j \<longleftrightarrow> bit (BlockingFlags tk) j \<or>
     redirect_explained wa \<and>
     (j = 0 \<and> set_Len (DNSLookupUnexplainedFailure wa) > 0 \<or>
      j = 1 \<and> set_Len (TCPConnectUnexplainedFailure wa) > 0 \<or>
      j = 2 \<and> set_Len (TLSHandshakeUnexplainedFailure wa) > 0 \<or>
      j = 3 \<and> set_Len (HTTPRoundTripUnexplainedFailure wa) > 0)"
  "DNSFlags (analysisExtRedirectErrors wa tk) = DNSFlags tk"
  "NullNullFlags (analysisExtRedirectErrors wa tk) = NullNullFlags tk"
  by (auto simp: redirect_errors_eq explain_redirect_errors_def Let_def)

text \<open>Whether the final response counts as a success, and as different from the control.\<close>

definition final_differs :: "WebAnalysis \<Rightarrow> bool" where
  "final_differs wa \<longleftrightarrow>
     HTTPFinalResponseSuccessTCPWithoutControl wa = None \<and> HTTPFinalResponseSuccessTLSWithoutControl wa = None \<and>
     HTTPFinalResponseSuccessTLSWithControl wa = None \<and> HTTPFinalResponseSuccessTCPWithControl wa \<noteq> None \<and>
     hds_diff (newAnalysisHTTPDiffStatus wa)"

definition final_succeeds :: "WebAnalysis \<Rightarrow> bool" where
  "final_succeeds wa \<longleftrightarrow> HTTPFinalResponseSuccessTCPWithoutControl wa = None \<and>
     \<not> no_final_response wa \<and> \<not> final_differs wa"

lemma ext_final_bits:
  "bit (BlockingFlags (analysisExtHTTPFinalResponse wa tk)) j \<longleftrightarrow> bit (BlockingFlags tk) j \<or>
     j = 4 \<and> final_differs wa \<or> j = 5 \<and> final_succeeds wa"
  "DNSFlags (analysisExtHTTPFinalResponse wa tk) = DNSFlags tk"
  "bit (NullNullFlags (analysisExtHTTPFinalResponse wa tk)) j \<longleftrightarrow> bit (NullNullFlags tk) j \<or>
     j = 3 \<and> HTTPFinalResponseSuccessTCPWithoutControl wa = None \<and> HTTPFinalResponseSuccessTLSWithoutControl wa \<noteq> None"
  by (auto simp: analysisExtHTTPFinalResponse_def final_differs_def final_succeeds_def
      no_final_response_def IsNone_def split: option.splits)

lemma ext_expected_bits:
  "BlockingFlags (analysisExtExpectedFailures wa tk) = BlockingFlags tk"
  "DNSFlags (analysisExtExpectedFailures wa tk) = DNSFlags tk"
  "bit (NullNullFlags (analysisExtExpectedFailures wa tk)) j \<longleftrightarrow> bit (NullNullFlags tk) j \<or>
     j = 0 \<and> set_Len (DNSLookupExpectedFailure wa) > 0 \<or>
     j = 1 \<and> set_Len (TCPConnectExpectedFailure wa) > 0 \<or>
     j = 2 \<and> set_Len (TLSHandshakeExpectedFailure wa) > 0 \<or>
     j = 4 \<and> set_Len (DNSLookupSuccess wa) > 0 \<and>
       (\<exists>expect. wa_ControlExpectations wa = Some expect \<and> set_Len (DNSAddresses expect) = 0)"
  by (auto simp: analysisExtExpectedFailures_def Let_def split: option.splits)

lemmas ext_bits = ext_dns_bits ext_endpoint_bits ext_redirect_bits ext_final_bits ext_expected_bits

section \<open>Specification: the outcome of an observation\<close>

text \<open>
  What one observation says about the website, independently of how the test keys encode it. The
  control for a failed observation is the test helper's result for the same stage.
\<close>

datatype outcome = Reachable | Inconclusive | Down | BlockedBy string

definition stage_control :: "WebObservation \<Rightarrow> string option" where
  "stage_control obs = (case Type obs of
     WebObservationTypeHTTPRoundTrip \<Rightarrow> ControlHTTPFailure obs
   | WebObservationTypeTLSHandshake \<Rightarrow> ControlTLSHandshakeFailure obs
   | WebObservationTypeTCPConnect \<Rightarrow> ControlTCPConnectFailure obs
   | WebObservationTypeDNSLookup \<Rightarrow> ControlDNSLookupFailure obs)"

definition failure_outcome :: "WebObservation \<Rightarrow> outcome" where
  "failure_outcome obs = (case stage_control obs of
     None \<Rightarrow>
       if ControlHTTPFailure obs \<noteq> None
       then BlockedBy (if Type obs = WebObservationTypeDNSLookup then ''dns'' else ''http-failure'')
       else if Type obs = WebObservationTypeDNSLookup then Reachable else Inconclusive
   | Some control \<Rightarrow>
       if control \<noteq> '''' then Down
       else case Type obs of
         WebObservationTypeTCPConnect \<Rightarrow> BlockedBy ''tcp_ip''
       | WebObservationTypeDNSLookup \<Rightarrow>
           if Failure obs = Some FailureDNSNoAnswer \<and> control_has_no_addrs obs then Down else BlockedBy ''dns''
       | _ \<Rightarrow> BlockedBy ''http-failure'')"

definition entry_outcome :: "bool \<Rightarrow> WebObservation \<Rightarrow> outcome option" where
  "entry_outcome differs obs =
     (if HTTPResponseIsFinal obs = Some True then
        Some (if TLSHandshakeFailure obs = Some '''' then Reachable
              else if ControlHTTPFailure obs = None then Inconclusive
              else if differs then BlockedBy ''http-diff'' else Reachable)
      else if fails (Failure obs) then Some (failure_outcome obs)
      else if resolved_like_control obs \<and> loopback_only (DNSResolvedAddrs obs) True then
        (case ControlDNSResolvedAddrs obs of
           None \<Rightarrow> None
         | Some control \<Rightarrow> Some (if analysisContainsOnlyLoopbackAddrs control then Down else BlockedBy ''dns''))
      else None)"

text \<open>How an outcome is published, depending on whether the DNS was inconsistent.\<close>

fun publish :: "bool \<Rightarrow> outcome \<Rightarrow> blocking \<times> bool option" where
  "publish inconsistent Reachable = (BlockingBool False, Some True)"
| "publish inconsistent Inconclusive =
     (if inconsistent then (BlockingString ''dns'', Some False) else (BlockingNil, None))"
| "publish inconsistent Down =
     (if inconsistent then (BlockingString ''dns'', Some False) else (BlockingBool False, Some False))"
| "publish inconsistent (BlockedBy reason) = (BlockingString (if inconsistent then ''dns'' else reason), Some False)"

abbreviation verdict_keys :: "TestKeys \<Rightarrow> blocking \<times> bool option" where
  "verdict_keys tk \<equiv> (Blocking tk, Accessible tk)"

lemmas setters = setBlockingFalse_def setBlockingNil_def setBlockingString_def setWebsiteDown_def
  setHTTPExperimentFailure_def

lemma setters_publish [simp]:
  "verdict_keys (setBlockingFalse tk) = publish (dns_inconsistent tk) Reachable"
  "verdict_keys (setBlockingNil tk) = publish (dns_inconsistent tk) Inconclusive"
  "verdict_keys (setWebsiteDown tk) = publish (dns_inconsistent tk) Down"
  "verdict_keys (setBlockingString reason tk) = publish (dns_inconsistent tk) (BlockedBy reason)"
  "verdict_keys (setHTTPExperimentFailure failure tk) = verdict_keys tk"
  by (simp_all add: setters Let_def)

text \<open>The loop body refines the specification.\<close>

lemma classic_entry_outcome:
  "map_option verdict_keys (classic_entry obs tk) = map_option (publish (dns_inconsistent tk)) (entry_outcome (httpDiff tk) obs)"
proof (cases "HTTPResponseIsFinal obs = Some True")
  case True
  then show ?thesis
    by (simp add: classic_entry_def entry_outcome_def some_true_iff IsNone_def del: publish.simps)
next
  case nonfinal: False
  show ?thesis
  proof (cases "fails (Failure obs)")
    case True
    with nonfinal show ?thesis
      by (cases "Type obs"; cases "stage_control obs")
        (simp_all add: classic_entry_def entry_outcome_def some_true_iff IsNone_def failure_outcome_def
          stage_control_def control_has_no_addrs_def del: publish.simps)
  next
    case False
    with nonfinal show ?thesis
      by (cases "ControlDNSResolvedAddrs obs")
        (simp_all add: classic_entry_def entry_outcome_def some_true_iff loopback_only_def del: publish.simps)
  qed
qed

lemma classic_loop_outcome:
  "verdict_keys (analysisClassicComputeBlockingAccessible entries tk) =
     (case List.map_filter (entry_outcome (httpDiff tk)) entries of
        [] \<Rightarrow> verdict_keys tk
      | outcome # _ \<Rightarrow> publish (dns_inconsistent tk) outcome)"
proof (induction entries)
  case Nil
  then show ?case by simp
next
  case (Cons obs entries)
  then show ?case
    using classic_entry_outcome [of obs tk]
    by (cases "classic_entry obs tk"; cases "entry_outcome (httpDiff tk) obs") simp_all
qed

section \<open>The container\<close>

text \<open>The container is the one the pipeline ingests from the events of the test keys.\<close>

definition lte_measurement :: "TestKeys \<Rightarrow> WebMeasurement" where
  "lte_measurement tk = \<lparr>meas_Input = '''', meas_TestKeys = Some \<lparr>
     tk_Control = lte_Control tk, tk_NetworkEvents = map Some (lte_NetworkEvents tk), tk_Queries = map Some (lte_Queries tk),
     tk_Requests = map Some (lte_Requests tk), tk_TCPConnect = map Some (lte_TCPConnect tk),
     tk_TLSHandshakes = map Some (lte_TLSHandshakes tk), tk_QUICHandshakes = [], tk_XControlRequest = lte_ControlRequest tk\<rparr>\<rparr>"

lemma lte_measurement_not_nil: "\<not> nil_event (the (meas_TestKeys (lte_measurement tk)))"
  by (auto simp: nil_event_def lte_measurement_def)

lemma lte_container_ingest:
  "lte_container lookupper uni urlHostname tk =
     (case IngestWebMeasurement lookupper uni urlHostname (lte_measurement tk) of
        Some (Inr c) \<Rightarrow> Some c | _ \<Rightarrow> None)"
  using lte_measurement_not_nil [of tk]
  by (auto simp: lte_container_def IngestWebMeasurement_events ingest_events_def lte_measurement_def Let_def comp_def
      split: option.splits sum.splits Option.bind_splits)

lemma lte_container_wf: "lte_container lookupper uni urlHostname tk = Some c \<Longrightarrow> container_wf c"
  by (auto simp: lte_container_ingest split: option.splits sum.splits dest: ingested_wf)

definition lte_events :: "GeoIPASNLookupper \<Rightarrow> (string \<Rightarrow> string) \<Rightarrow> TestKeys \<Rightarrow> WebObservationsContainer" where
  "lte_events lookupper uni tk = ingest_events lookupper uni (the (meas_TestKeys (lte_measurement tk)))"

definition request_parses :: "(string \<Rightarrow> string + string) \<Rightarrow> TestKeys \<Rightarrow> bool" where
  "request_parses urlHostname tk \<longleftrightarrow>
     (\<forall>request response. lte_ControlRequest tk = Some request \<and> lte_Control tk = Some response \<longrightarrow>
        (\<exists>host. urlHostname (thr_HTTPRequest request) = Inr host))"

lemma lte_container_total:
  assumes "request_parses urlHostname tk"
  shows "\<exists>c. lte_container lookupper uni urlHostname tk = Some c \<and> same_core (lte_events lookupper uni tk) c"
proof (cases "\<exists>request response. lte_ControlRequest tk = Some request \<and> lte_Control tk = Some response")
  case True
  then obtain request response where control: "lte_ControlRequest tk = Some request" "lte_Control tk = Some response"
    by blast
  then obtain host where "urlHostname (thr_HTTPRequest request) = Inr host"
    using assms unfolding request_parses_def by blast
  from IngestControlMessages_ok [where urlHostname = urlHostname and req = request and resp = response,
      OF ingest_events_wf [of lookupper uni "the (meas_TestKeys (lte_measurement tk))"] this] control
  show ?thesis
    using lte_measurement_not_nil [of tk]
    by (fastforce simp: lte_container_ingest lte_measurement_def IngestWebMeasurement_events lte_events_def)
next
  case False
  then have "lte_container lookupper uni urlHostname tk = Some (lte_events lookupper uni tk)"
    using lte_measurement_not_nil [of tk]
    by (auto simp: lte_container_ingest lte_measurement_def IngestWebMeasurement_events lte_events_def
        split: option.splits)
  then show ?thesis by simp
qed

lemma update_endpoints_keyed:
  assumes "\<forall>(txid, obs) \<in> set (KnownTCPEndpoints c). Q txid obs"
    and "\<And>ev obs. ev \<in> set evs \<Longrightarrow> Q (key ev) obs \<Longrightarrow> Q (key ev) (upd ev obs)"
  shows "\<forall>(txid, obs) \<in> set (KnownTCPEndpoints (fold (\<lambda>ev. update_endpoint (key ev) (upd ev)) evs c)). Q txid obs"
  using assms
proof (induction evs arbitrary: c)
  case Nil
  then show ?case by simp
next
  case (Cons ev evs)
  have "\<forall>(txid, obs) \<in> set (KnownTCPEndpoints (update_endpoint (key ev) (upd ev) c)). Q txid obs"
  proof (cases "gmap_get (KnownTCPEndpoints c) (key ev)")
    case None
    with Cons.prems(1) show ?thesis by (simp add: update_endpoint_def)
  next
    case (Some obs)
    then have "Q (key ev) obs" using Cons.prems(1) map_of_SomeD [OF Some] by auto
    then have "Q (key ev) (upd ev obs)" using Cons.prems(2) by simp
    with Some Cons.prems(1) show ?thesis
      using gmap_update_all [where P = Q] by (simp add: update_endpoint_def)
  qed
  with Cons show ?case by simp
qed

text \<open>
  A transaction whose TLS handshake failed sends no HTTP request. The flows of the experiment
  return after a failed handshake, so their test keys have this property.
\<close>

definition no_request_after_failed_tls :: "TestKeys \<Rightarrow> bool" where
  "no_request_after_failed_tls tk \<longleftrightarrow> (\<forall>ev \<in> set (lte_TLSHandshakes tk). \<forall>req \<in> set (lte_Requests tk).
     tls_Failure ev \<noteq> None \<longrightarrow> tls_TransactionID ev \<noteq> http_TransactionID req)"

lemma lte_events_eq:
  "lte_events lookupper uni tk =
     IngestHTTPRoundTripEvents uni (lte_Requests tk)
       (IngestTLSHandshakeEvents (lte_TLSHandshakes tk)
         (IngestTCPConnectEvents lookupper (lte_TCPConnect tk)
           (IngestDNSLookupEvents lookupper (lte_Queries tk) NewWebObservationsContainer)))"
  by (simp add: lte_events_def lte_measurement_def ingest_events_def)

definition final_tls_ok :: "WebObservation \<Rightarrow> bool" where
  "final_tls_ok obs \<longleftrightarrow> (HTTPResponseIsFinal obs = Some True \<longrightarrow> \<not> fails (TLSHandshakeFailure obs))"

lemma lte_events_final_tls:
  assumes "no_request_after_failed_tls tk"
  shows "endpoints_all final_tls_ok
    (lte_events lookupper uni tk)"
proof -
  let ?failed = "tls_TransactionID ` {ev \<in> set (lte_TLSHandshakes tk). tls_Failure ev \<noteq> None}"
  let ?requests = "http_TransactionID ` set (lte_Requests tk)"
  let ?Q = "\<lambda>txid obs. (fails (TLSHandshakeFailure obs) \<longrightarrow> txid \<in> ?failed) \<and>
    (HTTPResponseIsFinal obs \<noteq> None \<longrightarrow> txid \<in> ?requests)"
  let ?t = "IngestTCPConnectEvents lookupper (lte_TCPConnect tk)
    (IngestDNSLookupEvents lookupper (lte_Queries tk) NewWebObservationsContainer)"
  have "endpoints_all (\<lambda>obs. TLSHandshakeFailure obs = None \<and> HTTPResponseIsFinal obs = None) ?t"
    by (rule endpoints_all_tcp)
      (use IngestDNSLookupEvents_new_wf [of lookupper "lte_Queries tk"] in
        \<open>simp_all add: dns_part_wf_def endpoints_all_def tcp_obs_def WebObservation_zero_def Let_def\<close>)
  then have "\<forall>(txid, obs) \<in> set (KnownTCPEndpoints ?t). ?Q txid obs"
    by (auto simp: endpoints_all_def fails_def)
  then have "\<forall>(txid, obs) \<in> set (KnownTCPEndpoints (IngestTLSHandshakeEvents (lte_TLSHandshakes tk) ?t)). ?Q txid obs"
    unfolding IngestTLSHandshakeEvents_def
    by (rule update_endpoints_keyed)
      (auto simp: tls_update_def Let_def fails_def utilsStringPointerToString_def split: option.splits)
  then have "\<forall>(txid, obs) \<in> set (KnownTCPEndpoints (lte_events lookupper uni tk)). ?Q txid obs"
    unfolding lte_events_eq IngestHTTPRoundTripEvents_def
    by (rule update_endpoints_keyed) (auto simp: http_update_def Let_def)
  moreover have "?failed \<inter> ?requests = {}"
    using assms by (auto simp: no_request_after_failed_tls_def)
  ultimately show ?thesis by (fastforce simp: endpoints_all_def final_tls_ok_def)
qed

section \<open>The whole analysis\<close>

text \<open>The extended analysis changes the flags only.\<close>

definition erase_flags :: "TestKeys \<Rightarrow> TestKeys" where
  "erase_flags tk = tk\<lparr>BlockingFlags := 0, DNSFlags := 0, NullNullFlags := 0\<rparr>"

lemma erase_flags_setters [simp]:
  "erase_flags (blocking_flag x tk) = erase_flags tk" "erase_flags (dns_flag x tk) = erase_flags tk"
  "erase_flags (null_null_flag x tk) = erase_flags tk"
  by (simp_all add: erase_flags_def flag_setters)

lemma erase_ext_steps:
  "erase_flags (analysisExtDNS wa tk) = erase_flags tk"
  "erase_flags (analysisExtEndpointFailure wa tk) = erase_flags tk"
  "erase_flags (explain_redirect_errors wa tk) = erase_flags tk"
  "erase_flags (analysisExtHTTPFinalResponse wa tk) = erase_flags tk"
  "erase_flags (analysisExtExpectedFailures wa tk) = erase_flags tk"
  by (simp_all add: analysisExtDNS_def analysisExtEndpointFailure_def explain_redirect_errors_def
      analysisExtHTTPFinalResponse_def analysisExtExpectedFailures_def Let_def split: option.split)

lemma erase_ext_flags: "erase_flags (analysis_ext_flags wa tk) = erase_flags tk"
  by (simp add: analysis_ext_flags_def redirect_errors_eq erase_ext_steps)

text \<open>The classic analysis changes what it computes only.\<close>

definition erase_verdict :: "TestKeys \<Rightarrow> TestKeys" where
  "erase_verdict tk = tk\<lparr>Blocking := BlockingNil, Accessible := None, HTTPExperimentFailure := None\<rparr>"

lemma erase_verdict_setters [simp]:
  "erase_verdict (setBlockingFalse tk) = erase_verdict tk" "erase_verdict (setBlockingNil tk) = erase_verdict tk"
  "erase_verdict (setBlockingString v tk) = erase_verdict tk" "erase_verdict (setWebsiteDown tk) = erase_verdict tk"
  "erase_verdict (setHTTPExperimentFailure failure tk) = erase_verdict tk"
  by (simp_all add: erase_verdict_def setters Let_def)

lemma erase_classic_entry: "classic_entry obs tk = Some tk' \<Longrightarrow> erase_verdict tk' = erase_verdict tk"
  by (auto simp: classic_entry_def split: if_splits option.splits)

lemma erase_classic_loop: "erase_verdict (analysisClassicComputeBlockingAccessible entries tk) = erase_verdict tk"
  by (induction entries) (auto dest: erase_classic_entry split: option.split)

lemma erase_verdict_fields:
  assumes "erase_verdict tk = erase_verdict tk'"
  shows "httpDiff tk = httpDiff tk'" "DNSConsistency tk = DNSConsistency tk'" "BlockingFlags tk = BlockingFlags tk'"
    "DNSFlags tk = DNSFlags tk'" "NullNullFlags tk = NullNullFlags tk'"
  using assms by (cases tk; cases tk'; simp add: erase_verdict_def httpDiff_def)+

lemma httpDiff_setHTTPDiffValues: "httpDiff (setHTTPDiffValues woa tk) = hds_diff (newAnalysisHTTPDiffStatus woa)"
  by (simp add: httpDiff_def setHTTPDiffValues_def hds_diff_def Let_def)

lemma classic_verdict_fields:
  "httpDiff (classic_verdict woa tk) = hds_diff (newAnalysisHTTPDiffStatus woa)"
  "DNSConsistency (classic_verdict woa tk) = analysisClassicDNSConsistency woa"
  "BlockingFlags (classic_verdict woa tk) = BlockingFlags tk" "DNSFlags (classic_verdict woa tk) = DNSFlags tk"
  "NullNullFlags (classic_verdict woa tk) = NullNullFlags tk"
  unfolding classic_verdict_def Let_def erase_verdict_fields [OF erase_classic_loop]
  by (simp_all add: httpDiff_setHTTPDiffValues) (simp_all add: setHTTPDiffValues_def Let_def)

lemma classic_verdict_outcome:
  "verdict_keys (classic_verdict woa tk) =
     (case List.map_filter (entry_outcome (httpDiff (classic_verdict woa tk))) (wa_Linear woa) of
        [] \<Rightarrow> verdict_keys tk
      | outcome # _ \<Rightarrow> publish (dns_inconsistent (classic_verdict woa tk)) outcome)"
proof -
  obtain tk1 where tk1: "classic_verdict woa tk = analysisClassicComputeBlockingAccessible (wa_Linear woa) tk1"
    and same: "verdict_keys tk1 = verdict_keys tk"
    by (simp add: classic_verdict_def setHTTPDiffValues_def Let_def)
  show ?thesis
    unfolding tk1 erase_verdict_fields [OF erase_classic_loop] classic_loop_outcome same ..
qed

lemma ext_flags_verdict: "verdict_keys (analysis_ext_flags wa tk) = verdict_keys tk"
  using erase_ext_flags [of wa tk]
  by (cases tk; cases "analysis_ext_flags wa tk"; simp add: erase_flags_def)

lemma sort_network_events_fields:
  "verdict_keys (sort_network_events tk) = verdict_keys tk" "httpDiff (sort_network_events tk) = httpDiff tk"
  "DNSConsistency (sort_network_events tk) = DNSConsistency tk"
  "BlockingFlags (sort_network_events tk) = BlockingFlags tk" "DNSFlags (sort_network_events tk) = DNSFlags tk"
  "NullNullFlags (sort_network_events tk) = NullNullFlags tk"
  by (simp_all add: sort_network_events_def httpDiff_def)

lemma Finalize_steps:
  assumes "Finalize lookupper uni urlHostname tk = Some tk'"
  obtains c wa classic woa where
    "lte_container lookupper uni urlHostname tk = Some c"
    "AnalyzeWebObservationsWithoutLinearAnalysis lookupper uni c = Some wa"
    "ClassicFilter c = Some classic"
    "AnalyzeWebObservationsWithLinearAnalysis lookupper uni classic = Some woa"
    "tk' = sort_network_events (classic_verdict woa (analysis_ext_flags wa tk))"
  using assms by (auto simp: Finalize_def analysisClassic_def analysisExtMain_def split: Option.bind_splits)

lemma map_filter_Cons_split:
  assumes "List.map_filter f xs = y # ys"
  shows "\<exists>pre x post. xs = pre @ x # post \<and> f x = Some y \<and> (\<forall>z \<in> set pre. f z = None)"
  using assms
proof (induction xs)
  case Nil
  then show ?case by simp
next
  case (Cons a xs)
  show ?case
  proof (cases "f a")
    case None
    with Cons obtain pre x post where "xs = pre @ x # post" "f x = Some y" "\<forall>z \<in> set pre. f z = None" by auto
    with None show ?thesis by (intro exI [of _ "a # pre"]) auto
  next
    case (Some b)
    with Cons.prems show ?thesis by (intro exI [of _ "[]"]) auto
  qed
qed

lemma map_filter_Nil_iff: "List.map_filter f xs = [] \<longleftrightarrow> (\<forall>x \<in> set xs. f x = None)"
  by (induction xs) (auto split: option.split)

text \<open>All the observations of a container.\<close>

definition observations :: "WebObservationsContainer \<Rightarrow> WebObservation set" where
  "observations c = set (DNSLookupFailures c) \<union> set (DNSLookupSuccesses c) \<union> set (gmap_vals (KnownTCPEndpoints c))"

lemma set_linear: "set (NewLinearWebAnalysis c) = observations c"
  using mset_slice_stable [THEN arg_cong [where f = set_mset]]
  by (auto simp: NewLinearWebAnalysis_def observations_def)

text \<open>Deeper redirects first, and with equal depth the later stage first.\<close>

definition no_later_than :: "WebObservation \<Rightarrow> WebObservation \<Rightarrow> bool" where
  "no_later_than obs obs' \<longleftrightarrow> UnwrapOr (TagDepth obs) (-1) < UnwrapOr (TagDepth obs') (-1) \<or>
     UnwrapOr (TagDepth obs) (-1) = UnwrapOr (TagDepth obs') (-1) \<and> Type obs \<le> Type obs'"

lemma sorted_linear: "sorted_wrt (\<lambda>l r. no_later_than r l) (NewLinearWebAnalysis c)"
proof -
  have "sorted_wrt (\<lambda>l r. linear_key l \<le> linear_key r) (NewLinearWebAnalysis c)"
    using linear.sorted_slice_stable by (simp add: NewLinearWebAnalysis_def sorted_map)
  then show ?thesis
    by (rule sorted_wrt_mono_rel [rotated])
      (auto simp: linear_key_def no_later_than_def less_eq_prod_def less_prod_def less_eq_WebObservationType_def)
qed

lemma first_decisive:
  assumes "List.map_filter f (NewLinearWebAnalysis c) = y # ys"
  shows "\<exists>obs \<in> observations c. f obs = Some y \<and>
    (\<forall>obs' \<in> observations c. f obs' \<noteq> None \<longrightarrow> no_later_than obs' obs)"
proof -
  obtain pre x post where split: "NewLinearWebAnalysis c = pre @ x # post" "f x = Some y" "\<forall>z \<in> set pre. f z = None"
    using map_filter_Cons_split [OF assms] by blast
  have "no_later_than x x" by (simp add: no_later_than_def)
  moreover have "\<forall>z \<in> set post. no_later_than z x"
    using sorted_linear [of c] split(1) by (simp add: sorted_wrt_append)
  ultimately have "\<forall>obs' \<in> observations c. f obs' \<noteq> None \<longrightarrow> no_later_than obs' x"
    using split by (auto simp flip: set_linear)
  moreover have "x \<in> observations c" using split(1) by (simp flip: set_linear)
  ultimately show ?thesis using split(2) by blast
qed

section \<open>No panics\<close>

lemma final_assertion_total:
  assumes "observations_wf c"
    and "endpoints_all final_tls_ok c"
  shows "\<exists>wa. AnalyzeWebObservationsWithoutLinearAnalysis lookupper uni c = Some wa"
proof -
  have "httpComputeFinalResponseMetrics uni c wa \<noteq> None" for wa
  proof (cases "find (\<lambda>(_, obs). some_true (HTTPResponseIsFinal obs)) (KnownTCPEndpoints c)")
    case None
    then show ?thesis by (simp add: httpComputeFinalResponseMetrics_def)
  next
    case (Some e)
    then have "e \<in> set (KnownTCPEndpoints c)" by (metis find_Some_iff nth_mem)
    moreover have "HTTPResponseIsFinal (snd e) = Some True"
      using Some by (auto simp: find_Some_iff some_true_iff)
    ultimately have "\<not> fails (TLSHandshakeFailure (snd e))" using assms(2) by (auto simp: endpoints_all_def final_tls_ok_def)
    with Some show ?thesis
      using httpHandleFinalResponse_panics [of uni "snd e" wa]
      by (auto simp: httpComputeFinalResponseMetrics_def split: prod.splits)
  qed
  then show ?thesis unfolding analysis_eq [OF assms(1)] by auto
qed

lemma same_core_final_tls:
  assumes "same_core c c'"
    and "endpoints_all final_tls_ok c"
  shows "endpoints_all final_tls_ok c'"
proof -
  have iff: "endpoints_all final_tls_ok c \<longleftrightarrow> (\<forall>(txid, obs) \<in> set (gmap_map core (KnownTCPEndpoints c)). final_tls_ok obs)" for c
    by (simp add: endpoints_all_def set_gmap_map split_beta core_def final_tls_ok_def)
  show ?thesis using assms unfolding iff same_core_def by simp
qed

lemma classic_subset:
  assumes "observations_wf c" and "ClassicFilter c = Some classic"
  shows "observations_wf classic" "set (KnownTCPEndpoints classic) \<subseteq> set (KnownTCPEndpoints c)"
  using classic_filter_run [OF assms(1)] assms(2) by auto

lemma Finalize_total:
  assumes "no_request_after_failed_tls tk" and "request_parses urlHostname tk"
  shows "\<exists>tk'. Finalize lookupper uni urlHostname tk = Some tk'"
proof -
  obtain c where c: "lte_container lookupper uni urlHostname tk = Some c" "same_core (lte_events lookupper uni tk) c"
    using lte_container_total [OF assms(2)] by blast
  have wf: "observations_wf c" by (rule container_wf_observations [OF lte_container_wf [OF c(1)]])
  have ok: "endpoints_all final_tls_ok c"
    by (rule same_core_final_tls [OF c(2) lte_events_final_tls [OF assms(1)]])
  obtain wa where wa: "AnalyzeWebObservationsWithoutLinearAnalysis lookupper uni c = Some wa"
    using final_assertion_total [OF wf ok] by blast
  obtain classic where classic: "ClassicFilter c = Some classic" using classic_filter_run [OF wf] by blast
  have "endpoints_all final_tls_ok classic"
    using ok classic_subset(2) [OF wf classic] by (auto simp: endpoints_all_def)
  then obtain woa where "AnalyzeWebObservationsWithoutLinearAnalysis lookupper uni classic = Some woa"
    using final_assertion_total [OF classic_subset(1) [OF wf classic]] by blast
  with c(1) wa classic show ?thesis
    by (simp add: Finalize_def analysisClassic_def analysisExtMain_def AnalyzeWebObservationsWithLinearAnalysis_def)
qed

section \<open>Properties\<close>

lemma Finalize_verdict:
  assumes "Finalize lookupper uni urlHostname tk = Some tk'" and "verdict_keys tk = (BlockingNil, None)"
  obtains c wa classic wa' where
    "lte_container lookupper uni urlHostname tk = Some c"
    "AnalyzeWebObservationsWithoutLinearAnalysis lookupper uni c = Some wa"
    "ClassicFilter c = Some classic"
    "AnalyzeWebObservationsWithoutLinearAnalysis lookupper uni classic = Some wa'"
    "httpDiff tk' = hds_diff (newAnalysisHTTPDiffStatus wa')"
    "BlockingFlags tk' = BlockingFlags (analysis_ext_flags wa tk)"
    "verdict_keys tk' = (case List.map_filter (entry_outcome (httpDiff tk')) (NewLinearWebAnalysis classic) of
       [] \<Rightarrow> (BlockingNil, None) | outcome # _ \<Rightarrow> publish (dns_inconsistent tk') outcome)"
proof -
  obtain c wa classic woa where steps: "lte_container lookupper uni urlHostname tk = Some c"
      "AnalyzeWebObservationsWithoutLinearAnalysis lookupper uni c = Some wa" "ClassicFilter c = Some classic"
      "AnalyzeWebObservationsWithLinearAnalysis lookupper uni classic = Some woa"
      and tk': "tk' = sort_network_events (classic_verdict woa (analysis_ext_flags wa tk))"
    using Finalize_steps [OF assms(1)] by metis
  from steps(4) obtain wa' where wa': "AnalyzeWebObservationsWithoutLinearAnalysis lookupper uni classic = Some wa'"
      "woa = wa'\<lparr>wa_Linear := NewLinearWebAnalysis classic\<rparr>"
    by (auto simp: AnalyzeWebObservationsWithLinearAnalysis_def split: Option.bind_splits)
  have linear: "wa_Linear woa = NewLinearWebAnalysis classic" using wa'(2) by simp
  have "verdict_keys tk' = (case List.map_filter (entry_outcome (httpDiff tk')) (NewLinearWebAnalysis classic) of
      [] \<Rightarrow> (BlockingNil, None) | outcome # _ \<Rightarrow> publish (dns_inconsistent tk') outcome)"
    unfolding tk' sort_network_events_fields linear [symmetric]
    by (subst classic_verdict_outcome) (simp only: ext_flags_verdict assms(2))
  moreover have "httpDiff tk' = hds_diff (newAnalysisHTTPDiffStatus wa')"
    "BlockingFlags tk' = BlockingFlags (analysis_ext_flags wa tk)"
    by (simp_all add: tk' sort_network_events_fields classic_verdict_fields wa'(2) newAnalysisHTTPDiffStatus_def)
  ultimately show ?thesis using that steps(1-3) wa'(1) by blast
qed

text \<open>
  Test keys with a refused connection, and a test helper that could connect.
\<close>

definition sample_lte :: TestKeys where
  "sample_lte =
     SetControl (Some (sample_response\<lparr>
         th_TCPConnect := [(''127.0.0.1:80'', \<lparr>thtcp_Status = True, thtcp_Failure = None\<rparr>)],
         th_DNS := \<lparr>thdns_Failure = None, thdns_Addrs = [], thdns_ASNs = []\<rparr>\<rparr>))
       (SetControlRequest (Some sample_request)
         (AppendTCPConnectResults [sample_connect\<lparr>tcp_IP := ''127.0.0.1''\<rparr>] NewTestKeys))"

abbreviation sample_finalize :: "TestKeys option" where
  "sample_finalize \<equiv> Finalize (\<lambda>_. None) id (\<lambda>_. Inr ''example.com'') sample_lte"

lemma sample_lte_fields:
  "lte_TLSHandshakes sample_lte = []" "Blocking sample_lte = BlockingNil" "Accessible sample_lte = None"
  "BlockingFlags sample_lte = 0" "DNSFlags sample_lte = 0" "NullNullFlags sample_lte = 0"
  by (simp_all add: sample_lte_def SetControl_def SetControlRequest_def AppendTCPConnectResults_def
      NewTestKeys_def)

lemma sample_finalized:
  "map_option (\<lambda>tk. (Blocking tk, Accessible tk, BlockingFlags tk, httpDiff tk)) sample_finalize =
     Some (BlockingString ''tcp_ip'', Some False, 2, True)"
  by code_simp

text \<open>
  C23: The verdict of Web Connectivity is the outcome of one decisive observation of the classic
  container, published with the DNS consistency taken into account: a final response, a failure, or
  a lookup that returned loopback addresses only. No decisive observation belongs to a later
  redirect or, at the same redirect, to a later stage. Without a decisive observation the verdict
  stays null.
\<close>

theorem lte_verdict_decisive:
  assumes "Finalize lookupper uni urlHostname tk = Some tk'" and "verdict_keys tk = (BlockingNil, None)"
  shows "\<exists>c classic. lte_container lookupper uni urlHostname tk = Some c \<and> ClassicFilter c = Some classic \<and>
    (if \<forall>obs \<in> observations classic. entry_outcome (httpDiff tk') obs = None
     then verdict_keys tk' = (BlockingNil, None)
     else \<exists>obs \<in> observations classic. \<exists>outcome. entry_outcome (httpDiff tk') obs = Some outcome \<and>
       verdict_keys tk' = publish (DNSConsistency tk' = Some ''inconsistent'') outcome \<and>
       (\<forall>obs' \<in> observations classic. entry_outcome (httpDiff tk') obs' \<noteq> None \<longrightarrow> no_later_than obs' obs))"
proof -
  let ?f = "entry_outcome (httpDiff tk')"
  obtain c classic where steps: "lte_container lookupper uni urlHostname tk = Some c" "ClassicFilter c = Some classic"
      and verdict: "verdict_keys tk' = (case List.map_filter ?f (NewLinearWebAnalysis classic) of
        [] \<Rightarrow> (BlockingNil, None) | outcome # _ \<Rightarrow> publish (dns_inconsistent tk') outcome)"
    using Finalize_verdict [OF assms] by metis
  show ?thesis
  proof (cases "List.map_filter ?f (NewLinearWebAnalysis classic)")
    case Nil
    then have "\<forall>obs \<in> observations classic. ?f obs = None" by (simp add: map_filter_Nil_iff set_linear)
    with steps verdict Nil show ?thesis by simp
  next
    case (Cons outcome outcomes)
    with first_decisive [OF Cons] steps verdict show ?thesis by auto
  qed
qed

theorem lte_verdict_decisive_witness:
  "\<exists>tk' c classic. sample_finalize = Some tk' \<and>
     lte_container (\<lambda>_. None) id (\<lambda>_. Inr ''example.com'') sample_lte = Some c \<and> ClassicFilter c = Some classic \<and>
     (\<exists>obs \<in> observations classic. \<exists>outcome. entry_outcome (httpDiff tk') obs = Some outcome \<and>
        (BlockingString ''tcp_ip'', Some False) = publish (DNSConsistency tk' = Some ''inconsistent'') outcome)"
proof -
  obtain tk' where tk': "sample_finalize = Some tk'" "verdict_keys tk' = (BlockingString ''tcp_ip'', Some False)"
    using sample_finalized by auto
  from lte_verdict_decisive [OF tk'(1)] tk'(2)
  obtain c classic where "lte_container (\<lambda>_. None) id (\<lambda>_. Inr ''example.com'') sample_lte = Some c"
    "ClassicFilter c = Some classic"
    "\<exists>obs \<in> observations classic. \<exists>outcome. entry_outcome (httpDiff tk') obs = Some outcome \<and>
       (BlockingString ''tcp_ip'', Some False) = publish (DNSConsistency tk' = Some ''inconsistent'') outcome"
    by (force simp: sample_lte_fields split: if_splits)
  with tk'(1) show ?thesis by blast
qed

lemma stage_outcome_reason:
  "entry_outcome differs obs = Some (BlockedBy reason) \<Longrightarrow> reason \<in> {''dns'', ''tcp_ip'', ''http-failure'', ''http-diff''}"
  by (auto simp: entry_outcome_def failure_outcome_def split: if_splits option.splits WebObservationType.splits)

lemma classic_verdict_published:
  assumes "Finalize lookupper uni urlHostname tk = Some tk'" and "verdict_keys tk = (BlockingNil, None)"
  shows "verdict_keys tk' = (BlockingNil, None) \<or>
    (\<exists>obs outcome. entry_outcome (httpDiff tk') obs = Some outcome \<and>
       verdict_keys tk' = publish (dns_inconsistent tk') outcome)"
proof -
  obtain classic where "verdict_keys tk' =
      (case List.map_filter (entry_outcome (httpDiff tk')) (NewLinearWebAnalysis classic) of
         [] \<Rightarrow> (BlockingNil, None) | outcome # _ \<Rightarrow> publish (dns_inconsistent tk') outcome)"
    using Finalize_verdict [OF assms] by metis
  then show ?thesis
    by (auto split: list.splits dest!: map_filter_Cons_split)
qed

text \<open>
  C24: The published verdict is always one of the documented combinations. Blocking is a reason
  exactly when the summary is an anomaly; then the reason is one of the four documented strings and
  the website is not accessible. Blocking is null exactly when accessible is null, and is never
  true. When the DNS is inconsistent, the only reason is the DNS. The summary never calls a website
  accessible that the verdict does not.
\<close>

theorem lte_verdict_values:
  assumes "Finalize lookupper uni urlHostname tk = Some tk'" and "verdict_keys tk = (BlockingNil, None)"
  shows "(Anomaly (MeasurementSummaryKeys tk') \<longleftrightarrow> (\<exists>reason. Blocking tk' = BlockingString reason)) \<and>
    (case Blocking tk' of
       BlockingString reason \<Rightarrow> Accessible tk' = Some False \<and> sk_Blocking (MeasurementSummaryKeys tk') = reason \<and>
         reason \<in> {''dns'', ''tcp_ip'', ''http-failure'', ''http-diff''} \<and>
         (DNSConsistency tk' = Some ''inconsistent'' \<longrightarrow> reason = ''dns'')
     | BlockingNil \<Rightarrow> Accessible tk' = None
     | BlockingBool b \<Rightarrow> \<not> b \<and> Accessible tk' \<noteq> None) \<and>
    (sk_Accessible (MeasurementSummaryKeys tk') \<longleftrightarrow> Accessible tk' = Some True)"
proof -
  have "case Blocking tk' of
       BlockingString reason \<Rightarrow> Accessible tk' = Some False \<and>
         reason \<in> {''dns'', ''tcp_ip'', ''http-failure'', ''http-diff''} \<and> (dns_inconsistent tk' \<longrightarrow> reason = ''dns'')
     | BlockingNil \<Rightarrow> Accessible tk' = None
     | BlockingBool b \<Rightarrow> \<not> b \<and> Accessible tk' \<noteq> None"
    using classic_verdict_published [OF assms]
  proof (elim disjE exE conjE)
    fix obs outcome
    assume "entry_outcome (httpDiff tk') obs = Some outcome" "verdict_keys tk' = publish (dns_inconsistent tk') outcome"
    then show ?thesis
      by (cases outcome) (auto dest: stage_outcome_reason split: if_splits)
  qed simp
  then show ?thesis
    by (cases "Blocking tk'"; cases "Accessible tk'")
      (simp_all add: summary_anomaly_iff, simp_all add: MeasurementSummaryKeys_def)
qed

theorem lte_verdict_values_witness:
  "\<exists>tk'. sample_finalize = Some tk' \<and> Anomaly (MeasurementSummaryKeys tk') \<and> Accessible tk' = Some False"
proof -
  obtain tk' where tk': "sample_finalize = Some tk'" "Blocking tk' = BlockingString ''tcp_ip''"
    using sample_finalized by auto
  from lte_verdict_values [OF tk'(1)] tk' show ?thesis by (simp add: sample_lte_fields)
qed

lemma finite_ids [simp]: "finite (ids m P)" "finite (dns_ids xs P)"
proof -
  have "ids m P \<subseteq> fst ` set m" by (force simp: ids_def)
  then show "finite (ids m P)" by (rule finite_subset) simp
  have "dns_ids xs P \<subseteq> the ` DNSTransactionID ` set xs"
    by (force simp: dns_ids_def)
  then show "finite (dns_ids xs P)" by (rule finite_subset) simp
qed

lemma set_Len_pos: "finite S \<Longrightarrow> 0 < set_Len S \<longleftrightarrow> S \<noteq> {}"
  by (simp add: set_Len_def card_gt_0_iff)

lemma analysis_lens:
  assumes "observations_wf c" and "AnalyzeWebObservationsWithoutLinearAnalysis lookupper uni c = Some wa"
  shows "0 < set_Len (DNSLookupUnexpectedFailure wa) \<longleftrightarrow> DNSLookupUnexpectedFailure wa \<noteq> {}"
    "0 < set_Len (DNSLookupUnexplainedFailure wa) \<longleftrightarrow> DNSLookupUnexplainedFailure wa \<noteq> {}"
    "0 < set_Len (DNSLookupExpectedFailure wa) \<longleftrightarrow> DNSLookupExpectedFailure wa \<noteq> {}"
    "0 < set_Len (DNSLookupSuccess wa) \<longleftrightarrow> DNSLookupSuccess wa \<noteq> {}"
    "0 < set_Len (DNSLookupSuccessWithBogonAddresses wa) \<longleftrightarrow> DNSLookupSuccessWithBogonAddresses wa \<noteq> {}"
    "0 < set_Len (DNSLookupSuccessWithInvalidAddresses wa) \<longleftrightarrow> DNSLookupSuccessWithInvalidAddresses wa \<noteq> {}"
    "0 < set_Len (TCPConnectUnexpectedFailure wa) \<longleftrightarrow> TCPConnectUnexpectedFailure wa \<noteq> {}"
    "0 < set_Len (TCPConnectUnexplainedFailure wa) \<longleftrightarrow> TCPConnectUnexplainedFailure wa \<noteq> {}"
    "0 < set_Len (TCPConnectExpectedFailure wa) \<longleftrightarrow> TCPConnectExpectedFailure wa \<noteq> {}"
    "0 < set_Len (TLSHandshakeUnexpectedFailure wa) \<longleftrightarrow> TLSHandshakeUnexpectedFailure wa \<noteq> {}"
    "0 < set_Len (TLSHandshakeUnexplainedFailure wa) \<longleftrightarrow> TLSHandshakeUnexplainedFailure wa \<noteq> {}"
    "0 < set_Len (TLSHandshakeExpectedFailure wa) \<longleftrightarrow> TLSHandshakeExpectedFailure wa \<noteq> {}"
    "0 < set_Len (HTTPRoundTripUnexpectedFailure wa) \<longleftrightarrow> HTTPRoundTripUnexpectedFailure wa \<noteq> {}"
    "0 < set_Len (HTTPRoundTripUnexplainedFailure wa) \<longleftrightarrow> HTTPRoundTripUnexplainedFailure wa \<noteq> {}"
  by (rule set_Len_pos, simp add: erase_final_fields [OF analysis_sets_result [OF assms]] analysis_sets_def Let_def)+

text \<open>
  C25: Each flag of the extended analysis is set exactly when the analysis of all the observations
  has a reason for it. The blocking flags name the stages with a failure that the control did not
  have, and also those with an unexplained failure of a redirect when there is no final response
  while the control could fetch the page; then the difference of the final response, and success.
  No other bit is set. In particular, bogon addresses alone set the DNS flag and do not count as
  blocking.
\<close>

theorem lte_flags:
  assumes "Finalize lookupper uni urlHostname tk = Some tk'"
    and "BlockingFlags tk = 0" and "DNSFlags tk = 0" and "NullNullFlags tk = 0"
  shows "\<exists>c wa. lte_container lookupper uni urlHostname tk = Some c \<and>
    AnalyzeWebObservationsWithoutLinearAnalysis lookupper uni c = Some wa \<and>
    (\<forall>j. bit (BlockingFlags tk') j \<longleftrightarrow>
       j = 0 \<and> (DNSLookupUnexpectedFailure wa \<noteq> {} \<or> DNSLookupSuccessWithInvalidAddresses wa \<noteq> {} \<or>
         redirect_explained wa \<and> DNSLookupUnexplainedFailure wa \<noteq> {}) \<or>
       j = 1 \<and> (TCPConnectUnexpectedFailure wa \<noteq> {} \<or> redirect_explained wa \<and> TCPConnectUnexplainedFailure wa \<noteq> {}) \<or>
       j = 2 \<and> (TLSHandshakeUnexpectedFailure wa \<noteq> {} \<or> redirect_explained wa \<and> TLSHandshakeUnexplainedFailure wa \<noteq> {}) \<or>
       j = 3 \<and> (HTTPRoundTripUnexpectedFailure wa \<noteq> {} \<or> redirect_explained wa \<and> HTTPRoundTripUnexplainedFailure wa \<noteq> {}) \<or>
       j = 4 \<and> final_differs wa \<or> j = 5 \<and> final_succeeds wa) \<and>
    (\<forall>j. bit (DNSFlags tk') j \<longleftrightarrow>
       j = 0 \<and> DNSLookupSuccessWithBogonAddresses wa \<noteq> {} \<or> j = 1 \<and> DNSLookupUnexpectedFailure wa \<noteq> {} \<or>
       j = 2 \<and> DNSLookupSuccessWithInvalidAddresses wa \<noteq> {}) \<and>
    (\<forall>j. bit (NullNullFlags tk') j \<longleftrightarrow>
       j = 0 \<and> DNSLookupExpectedFailure wa \<noteq> {} \<or> j = 1 \<and> TCPConnectExpectedFailure wa \<noteq> {} \<or>
       j = 2 \<and> TLSHandshakeExpectedFailure wa \<noteq> {} \<or>
       j = 3 \<and> HTTPFinalResponseSuccessTCPWithoutControl wa = None \<and> HTTPFinalResponseSuccessTLSWithoutControl wa \<noteq> None \<or>
       j = 4 \<and> DNSLookupSuccess wa \<noteq> {} \<and>
         (\<exists>expect. wa_ControlExpectations wa = Some expect \<and> set_Len (DNSAddresses expect) = 0))"
proof -
  obtain c wa classic woa where c: "lte_container lookupper uni urlHostname tk = Some c"
      and wa: "AnalyzeWebObservationsWithoutLinearAnalysis lookupper uni c = Some wa"
      and tk': "tk' = sort_network_events (classic_verdict woa (analysis_ext_flags wa tk))"
    using Finalize_steps [OF assms(1)] by metis
  note lens = analysis_lens [OF container_wf_observations [OF lte_container_wf [OF c]] wa]
  have flags: "BlockingFlags tk' = BlockingFlags (analysis_ext_flags wa tk)"
    "DNSFlags tk' = DNSFlags (analysis_ext_flags wa tk)" "NullNullFlags tk' = NullNullFlags (analysis_ext_flags wa tk)"
    by (simp_all add: tk' sort_network_events_fields classic_verdict_fields)
  note bits = ext_bits [where wa = wa, unfolded lens]
  have zero: "bit (BlockingFlags tk) j = False" "bit (DNSFlags tk) j = False" "bit (NullNullFlags tk) j = False" for j
    by (simp_all add: assms)
  have blocking: "bit (BlockingFlags tk') j \<longleftrightarrow>
       j = 0 \<and> (DNSLookupUnexpectedFailure wa \<noteq> {} \<or> DNSLookupSuccessWithInvalidAddresses wa \<noteq> {} \<or>
         redirect_explained wa \<and> DNSLookupUnexplainedFailure wa \<noteq> {}) \<or>
       j = 1 \<and> (TCPConnectUnexpectedFailure wa \<noteq> {} \<or> redirect_explained wa \<and> TCPConnectUnexplainedFailure wa \<noteq> {}) \<or>
       j = 2 \<and> (TLSHandshakeUnexpectedFailure wa \<noteq> {} \<or> redirect_explained wa \<and> TLSHandshakeUnexplainedFailure wa \<noteq> {}) \<or>
       j = 3 \<and> (HTTPRoundTripUnexpectedFailure wa \<noteq> {} \<or> redirect_explained wa \<and> HTTPRoundTripUnexplainedFailure wa \<noteq> {}) \<or>
       j = 4 \<and> final_differs wa \<or> j = 5 \<and> final_succeeds wa" for j
    unfolding flags analysis_ext_flags_def bits zero by argo
  have dns: "bit (DNSFlags tk') j \<longleftrightarrow>
       j = 0 \<and> DNSLookupSuccessWithBogonAddresses wa \<noteq> {} \<or> j = 1 \<and> DNSLookupUnexpectedFailure wa \<noteq> {} \<or>
       j = 2 \<and> DNSLookupSuccessWithInvalidAddresses wa \<noteq> {}" for j
    unfolding flags analysis_ext_flags_def bits zero by argo
  have null: "bit (NullNullFlags tk') j \<longleftrightarrow>
       j = 0 \<and> DNSLookupExpectedFailure wa \<noteq> {} \<or> j = 1 \<and> TCPConnectExpectedFailure wa \<noteq> {} \<or>
       j = 2 \<and> TLSHandshakeExpectedFailure wa \<noteq> {} \<or>
       j = 3 \<and> HTTPFinalResponseSuccessTCPWithoutControl wa = None \<and> HTTPFinalResponseSuccessTLSWithoutControl wa \<noteq> None \<or>
       j = 4 \<and> DNSLookupSuccess wa \<noteq> {} \<and>
         (\<exists>expect. wa_ControlExpectations wa = Some expect \<and> set_Len (DNSAddresses expect) = 0)" for j
    unfolding flags analysis_ext_flags_def bits zero by argo
  show ?thesis using c wa blocking dns null by (intro exI [of _ c] exI [of _ wa]) simp
qed

theorem lte_flags_witness:
  "\<exists>tk' c wa. sample_finalize = Some tk' \<and>
     lte_container (\<lambda>_. None) id (\<lambda>_. Inr ''example.com'') sample_lte = Some c \<and>
     AnalyzeWebObservationsWithoutLinearAnalysis (\<lambda>_. None) id c = Some wa \<and>
     (TCPConnectUnexpectedFailure wa \<noteq> {} \<or> TCPConnectUnexplainedFailure wa \<noteq> {}) \<and> \<not> final_differs wa"
proof -
  obtain tk' where tk': "sample_finalize = Some tk'" "BlockingFlags tk' = 2" using sample_finalized by auto
  have bits: "bit (BlockingFlags tk') 1" "\<not> bit (BlockingFlags tk') 4" unfolding tk'(2) by simp_all
  obtain c wa where "lte_container (\<lambda>_. None) id (\<lambda>_. Inr ''example.com'') sample_lte = Some c"
    "AnalyzeWebObservationsWithoutLinearAnalysis (\<lambda>_. None) id c = Some wa"
    "bit (BlockingFlags tk') 1 \<longrightarrow> TCPConnectUnexpectedFailure wa \<noteq> {} \<or> TCPConnectUnexplainedFailure wa \<noteq> {}"
    "\<not> bit (BlockingFlags tk') 4 \<longrightarrow> \<not> final_differs wa"
    using lte_flags [OF tk'(1) sample_lte_fields(4-6)] by (elim exE conjE) (simp add: bit_2_iff)
  with tk'(1) bits show ?thesis by blast
qed

section \<open>Frame of the analysis\<close>

definition lte_inputs :: "TestKeys \<Rightarrow> TestKeys" where
  "lte_inputs tk = tk\<lparr>
     BlockingFlags := 0, DNSFlags := 0, NullNullFlags := 0, Blocking := BlockingNil, Accessible := None,
     HTTPExperimentFailure := None, DNSConsistency := None, lte_DNSExperimentFailure := None,
     BodyProportion := 0, BodyLengthMatch := None, HeadersMatch := None, StatusCodeMatch := None,
     TitleMatch := None\<rparr>"

lemma lte_inputs_erase: "lte_inputs (erase_flags tk) = lte_inputs tk" "lte_inputs (erase_verdict tk) = lte_inputs tk"
  by (simp_all add: lte_inputs_def erase_flags_def erase_verdict_def)

lemma lte_inputs_events: "lte_NetworkEvents (lte_inputs tk) = lte_NetworkEvents tk"
  by (simp add: lte_inputs_def)

lemma lte_inputs_ext: "lte_inputs (analysis_ext_flags wa tk) = lte_inputs tk"
  by (metis lte_inputs_erase(1) erase_ext_flags)

lemma lte_inputs_classic: "lte_inputs (classic_verdict woa tk) = lte_inputs tk"
proof -
  have "lte_inputs (analysisClassicComputeBlockingAccessible entries tk) = lte_inputs tk" for entries tk
    by (metis lte_inputs_erase(2) erase_classic_loop)
  then show ?thesis
    by (simp add: classic_verdict_def setHTTPDiffValues_def Let_def) (simp add: lte_inputs_def)
qed

text \<open>
  The analysis does not panic on test keys in which no request follows a failed TLS handshake and
  whose control request, when there is a control, has a valid URL. It changes what it computes only:
  the events, the control and everything else stay as they were, except that the network events are
  rearranged by their time, keeping the order of simultaneous events.
\<close>

theorem lte_finalize_total:
  assumes "no_request_after_failed_tls tk" and "request_parses urlHostname tk"
  shows "\<exists>tk'. Finalize lookupper uni urlHostname tk = Some tk' \<and>
    lte_inputs tk' = lte_inputs (tk\<lparr>lte_NetworkEvents := lte_NetworkEvents tk'\<rparr>) \<and>
    sorted (map net_T (lte_NetworkEvents tk')) \<and>
    (\<forall>t. filter (\<lambda>ev. t = net_T ev) (lte_NetworkEvents tk') = filter (\<lambda>ev. t = net_T ev) (lte_NetworkEvents tk))"
proof -
  obtain tk' where tk': "Finalize lookupper uni urlHostname tk = Some tk'" using Finalize_total [OF assms] by blast
  then obtain wa woa where tk'_eq: "tk' = sort_network_events (classic_verdict woa (analysis_ext_flags wa tk))"
    using Finalize_steps by metis
  have inputs: "lte_inputs (classic_verdict woa (analysis_ext_flags wa tk)) = lte_inputs tk"
    by (simp add: lte_inputs_classic lte_inputs_ext)
  then have events: "lte_NetworkEvents (classic_verdict woa (analysis_ext_flags wa tk)) = lte_NetworkEvents tk"
    by (metis lte_inputs_events)
  then have tk'_events: "lte_NetworkEvents tk' = slice_stable net_event_less (lte_NetworkEvents tk)"
    by (simp add: tk'_eq sort_network_events_def)
  have "lte_inputs tk' = (lte_inputs tk)\<lparr>lte_NetworkEvents := lte_NetworkEvents tk'\<rparr>"
    unfolding inputs [symmetric] by (simp add: tk'_eq sort_network_events_def lte_inputs_def)
  then have "lte_inputs tk' = lte_inputs (tk\<lparr>lte_NetworkEvents := lte_NetworkEvents tk'\<rparr>)"
    by (simp add: lte_inputs_def)
  with tk' tk'_events show ?thesis
    by (simp add: net_event.sorted_slice_stable net_event.slice_stable_stable)
qed

lemma sample_lte_total_hyps:
  "no_request_after_failed_tls sample_lte" "request_parses (\<lambda>_. Inr ''example.com'') sample_lte"
  by (simp_all add: no_request_after_failed_tls_def request_parses_def sample_lte_fields)

theorem lte_finalize_total_witness:
  "\<exists>tk'. sample_finalize = Some tk' \<and> lte_inputs tk' = lte_inputs (sample_lte\<lparr>lte_NetworkEvents := lte_NetworkEvents tk'\<rparr>)"
  using lte_finalize_total [OF sample_lte_total_hyps] by blast

text \<open>
  C30: A DNS failure without any control counts as reachable. When a failed lookup is the decisive
  observation and there is no control at all for it, the verdict is that the website is accessible
  and not blocked, whereas failed connections, handshakes and round trips without control leave the
  verdict null. (Version 0.4, which this analysis emulates, leaves the verdict null whenever the
  control cannot be reached.)
\<close>

theorem lte_dns_failure_without_control:
  assumes "HTTPResponseIsFinal obs \<noteq> Some True" and "fails (Failure obs)"
    and "stage_control obs = None" and "ControlHTTPFailure obs = None"
    and "DNSConsistency tk \<noteq> Some ''inconsistent''"
  shows "verdict_keys (analysisClassicComputeBlockingAccessible (obs # entries) tk) =
    (if Type obs = WebObservationTypeDNSLookup then (BlockingBool False, Some True) else (BlockingNil, None))"
proof -
  have "entry_outcome (httpDiff tk) obs = Some (failure_outcome obs)" using assms by (simp add: entry_outcome_def)
  then show ?thesis
    unfolding classic_loop_outcome using assms by (simp add: failure_outcome_def)
qed

definition failed_lookup :: WebObservation where
  "failed_lookup = WebObservation_zero\<lparr>Failure := Some ''dns_nxdomain_error''\<rparr>"

theorem lte_dns_failure_without_control_witness:
  "Accessible (analysisClassicComputeBlockingAccessible [failed_lookup] NewTestKeys) = Some True"
proof -
  have "verdict_keys (analysisClassicComputeBlockingAccessible [failed_lookup] NewTestKeys) = (BlockingBool False, Some True)"
    using lte_dns_failure_without_control [of failed_lookup NewTestKeys "[]"]
    by (simp add: failed_lookup_def WebObservation_zero_def fails_def stage_control_def NewTestKeys_def)
  then show ?thesis by simp
qed

section \<open>Agreement of the two analyses\<close>

text \<open>The comparison of the final response depends on its observation only.\<close>

definition diff_fields :: "WebAnalysis \<Rightarrow> rat option \<times> bool option \<times> (string, bool) gomap option \<times> (string, bool) gomap option" where
  "diff_fields wa = (HTTPFinalResponseDiffBodyProportionFactor wa, HTTPFinalResponseDiffStatusCodeMatch wa,
     HTTPFinalResponseDiffTitleDifferentLongWords wa, HTTPFinalResponseDiffUncommonHeadersIntersection wa)"

lemma diff_steps_fields:
  assumes "diff_fields wa = diff_fields wa'"
  shows "diff_fields (snd (httpDiffBodyProportionFactor obs wa)) = diff_fields (snd (httpDiffBodyProportionFactor obs wa'))"
    "diff_fields (snd (httpDiffStatusCodeMatch obs wa)) = diff_fields (snd (httpDiffStatusCodeMatch obs wa'))"
    "diff_fields (snd (httpDiffUncommonHeadersIntersection uni obs wa)) =
       diff_fields (snd (httpDiffUncommonHeadersIntersection uni obs wa'))"
    "diff_fields (snd (httpDiffTitleDifferentLongWords uni obs wa)) = diff_fields (snd (httpDiffTitleDifferentLongWords uni obs wa'))"
  using assms by (simp_all add: diff_fields_def httpDiffBodyProportionFactor_def httpDiffStatusCodeMatch_def
      httpDiffUncommonHeadersIntersection_def httpDiffTitleDifferentLongWords_def Let_def)

lemma final_response_hds:
  assumes "httpHandleFinalResponse uni obs wa0 = Some wa" and "httpHandleFinalResponse uni obs wa0' = Some wa'"
    and "diff_fields wa0 = diff_fields wa0'"
  shows "newAnalysisHTTPDiffStatus wa = newAnalysisHTTPDiffStatus wa'"
proof -
  have success: "diff_fields (wa\<lparr>HTTPFinalResponseSuccessTLSWithoutControl := x\<rparr>) = diff_fields wa"
    "diff_fields (wa\<lparr>HTTPFinalResponseSuccessTLSWithControl := x\<rparr>) = diff_fields wa"
    "diff_fields (wa\<lparr>HTTPFinalResponseSuccessTCPWithoutControl := x\<rparr>) = diff_fields wa"
    "diff_fields (wa\<lparr>HTTPFinalResponseSuccessTCPWithControl := x\<rparr>) = diff_fields wa" for wa x
    by (simp_all add: diff_fields_def)
  have "diff_fields wa = diff_fields wa'"
    using assms unfolding httpHandleFinalResponse_def
    by (auto simp: Let_def success split: if_splits option.splits intro!: diff_steps_fields)
  then show ?thesis by (simp add: diff_fields_def newAnalysisHTTPDiffStatus_def)
qed

lemma analysis_sets_diff_fields: "diff_fields (analysis_sets lookupper c) = diff_fields (analysis_sets lookupper c')"
  by (simp add: diff_fields_def analysis_sets_def WebAnalysis_zero_def Let_def)

lemma final_response_tcp_controlled:
  assumes "httpHandleFinalResponse uni obs (analysis_sets lookupper c) = Some wa"
    and "ControlHTTPFailure obs \<noteq> None" and "TLSHandshakeFailure obs \<noteq> Some ''''"
  shows "HTTPFinalResponseSuccessTCPWithoutControl wa = None \<and> HTTPFinalResponseSuccessTLSWithoutControl wa = None \<and>
    HTTPFinalResponseSuccessTLSWithControl wa = None \<and> HTTPFinalResponseSuccessTCPWithControl wa = EndpointTransactionID obs"
  using assms
  by (auto simp: httpHandleFinalResponse_def analysis_sets_def WebAnalysis_zero_def
      httpDiffBodyProportionFactor_def httpDiffStatusCodeMatch_def httpDiffUncommonHeadersIntersection_def
      httpDiffTitleDifferentLongWords_def Let_def split: if_splits option.splits)

definition one_final_response :: "WebObservationsContainer \<Rightarrow> bool" where
  "one_final_response c \<longleftrightarrow> (\<forall>(t1, o1) \<in> set (KnownTCPEndpoints c). \<forall>(t2, o2) \<in> set (KnownTCPEndpoints c).
     HTTPResponseIsFinal o1 = Some True \<and> HTTPResponseIsFinal o2 = Some True \<longrightarrow> t1 = t2)"

lemma one_final_response_subset:
  "one_final_response c \<Longrightarrow> set (KnownTCPEndpoints c') \<subseteq> set (KnownTCPEndpoints c) \<Longrightarrow> one_final_response c'"
  unfolding one_final_response_def split_beta by blast

lemma final_response_found:
  assumes "observations_wf c" and "one_final_response c"
    and obs: "(txid, obs) \<in> set (KnownTCPEndpoints c)" "HTTPResponseIsFinal obs = Some True"
    and "AnalyzeWebObservationsWithoutLinearAnalysis lookupper uni c = Some wa"
  shows "httpHandleFinalResponse uni obs (analysis_sets lookupper c) = Some wa"
proof -
  let ?P = "\<lambda>(_, obs). some_true (HTTPResponseIsFinal obs)"
  have "?P (txid, obs)" using obs(2) by (simp add: some_true_iff)
  with obs(1) have "find ?P (KnownTCPEndpoints c) \<noteq> None" unfolding find_None_iff by blast
  then obtain e where e: "find ?P (KnownTCPEndpoints c) = Some e" by blast
  then have in_c: "e \<in> set (KnownTCPEndpoints c)" by (metis find_Some_iff nth_mem)
  have "?P e" using e by (auto simp: find_Some_iff)
  then have "HTTPResponseIsFinal (snd e) = Some True" by (simp add: some_true_iff split_beta)
  with in_c obs assms(2) have "fst e = txid" by (fastforce simp: one_final_response_def)
  moreover have "gmap_wf (KnownTCPEndpoints c)" using assms(1) by (simp add: observations_wf_def)
  ultimately have "e = (txid, obs)" using in_c obs(1) by (metis eq_key_imp_eq_value prod.collapse)
  with e assms(5) show ?thesis by (simp add: analysis_eq [OF assms(1)] httpComputeFinalResponseMetrics_def)
qed

lemma http_diff_outcome:
  assumes "entry_outcome differs obs = Some (BlockedBy ''http-diff'')"
  shows "HTTPResponseIsFinal obs = Some True" "TLSHandshakeFailure obs \<noteq> Some ''''" "ControlHTTPFailure obs \<noteq> None" "differs"
  using assms by (auto simp: entry_outcome_def failure_outcome_def split: if_splits option.splits WebObservationType.splits)

text \<open>
  The two analyses agree on the difference of the page. If the verdict is that the page differs
  from the control's, then the extended analysis, which looks at all the observations and not only
  at those of the system resolver, has set the corresponding flag, provided that the measurement has
  one final response at most.
\<close>

theorem lte_http_diff_flagged:
  assumes "Finalize lookupper uni urlHostname tk = Some tk'" and "verdict_keys tk = (BlockingNil, None)"
    and "lte_container lookupper uni urlHostname tk = Some c" and "one_final_response c"
  shows "Blocking tk' = BlockingString ''http-diff'' \<longrightarrow> bit (BlockingFlags tk') 4"
proof
  assume diff: "Blocking tk' = BlockingString ''http-diff''"
  obtain c' wa classic wa' where c': "lte_container lookupper uni urlHostname tk = Some c'"
      and wa: "AnalyzeWebObservationsWithoutLinearAnalysis lookupper uni c' = Some wa"
      and classic: "ClassicFilter c' = Some classic"
      and wa': "AnalyzeWebObservationsWithoutLinearAnalysis lookupper uni classic = Some wa'"
      and http_diff: "httpDiff tk' = hds_diff (newAnalysisHTTPDiffStatus wa')"
      and flags: "BlockingFlags tk' = BlockingFlags (analysis_ext_flags wa tk)"
      and verdict: "verdict_keys tk' =
        (case List.map_filter (entry_outcome (httpDiff tk')) (NewLinearWebAnalysis classic) of
           [] \<Rightarrow> (BlockingNil, None) | outcome # _ \<Rightarrow> publish (dns_inconsistent tk') outcome)"
    by (rule Finalize_verdict [OF assms(1,2)])
  have c'_eq: "c' = c" using c' assms(3) by simp
  note wa = wa [unfolded c'_eq] and classic = classic [unfolded c'_eq]
  have wf: "observations_wf c" by (rule container_wf_observations [OF lte_container_wf [OF assms(3)]])
  note classic_wf = classic_subset [OF wf classic]
  from verdict obtain outcome obs where outcome: "entry_outcome (httpDiff tk') obs = Some outcome"
      "verdict_keys tk' = publish (dns_inconsistent tk') outcome" and in_classic: "obs \<in> observations classic"
    using diff by (auto split: list.splits dest!: first_decisive)
  from outcome(2) diff have "outcome = BlockedBy ''http-diff''"
    by (cases outcome) (auto split: if_splits)
  note obs = http_diff_outcome [OF outcome(1) [unfolded this]]
  obtain txid where "(txid, obs) \<in> set (KnownTCPEndpoints classic)"
    using in_classic obs(1) classic_wf(1)
    by (auto simp: observations_def observations_wf_def list_all_iff dns_failure_wf_def dns_success_wf_def)
  then have found: "(txid, obs) \<in> set (KnownTCPEndpoints c)" "(txid, obs) \<in> set (KnownTCPEndpoints classic)"
    using classic_wf(2) by auto
  have one: "one_final_response classic" by (rule one_final_response_subset [OF assms(4) classic_wf(2)])
  have final: "httpHandleFinalResponse uni obs (analysis_sets lookupper c) = Some wa"
      "httpHandleFinalResponse uni obs (analysis_sets lookupper classic) = Some wa'"
    using final_response_found [OF wf assms(4) found(1) obs(1) wa]
      final_response_found [OF classic_wf(1) one found(2) obs(1) wa'] .
  have "EndpointTransactionID obs \<noteq> None"
    using wf found(1) by (auto simp: observations_wf_def endpoint_wf_def)
  then have "final_differs wa"
    using final_response_tcp_controlled [OF final(1) obs(3,2)] final_response_hds [OF final analysis_sets_diff_fields] obs(4) http_diff
    by (simp add: final_differs_def)
  then show "bit (BlockingFlags tk') 4"
    by (simp add: flags analysis_ext_flags_def ext_bits)
qed

text \<open>Test keys in which the probe got an error page and the test helper did not.\<close>

definition sample_http_diff :: TestKeys where
  "sample_http_diff =
     SetControl (Some (sample_response\<lparr>th_TCPConnect := [], th_DNS := \<lparr>thdns_Failure = None, thdns_Addrs = [], thdns_ASNs = []\<rparr>\<rparr>))
       (SetControlRequest (Some sample_request)
         (PrependRequests [\<lparr>http_Network = ''tcp'', http_Address = ''127.0.0.1:80'', http_ALPN = '''', http_Failure = None,
             http_Request = \<lparr>req_Body = '''', req_BodyIsTruncated = False, req_HeadersList = [], req_Headers = [],
               req_Method = ''GET'', req_Tor = \<lparr>tor_ExitIP = None, tor_ExitName = None, tor_IsTor = False\<rparr>,
               req_Transport = ''tcp'', req_URL = ''http://example.com/''\<rparr>,
             http_Response = \<lparr>resp_Body = '''', resp_BodyIsTruncated = False, resp_Code = 404, resp_HeadersList = [],
               resp_Headers = [], resp_Locations = []\<rparr>,
             http_T0 = 1 / 4, http_T = 1 / 2, http_Tags = [''depth=0'', ''fetch_body=true''], http_TransactionID = 2\<rparr>]
           (AppendTCPConnectResults [sample_connect\<lparr>tcp_IP := ''127.0.0.1'',
               tcp_Status := \<lparr>st_Blocked = None, st_Failure = None, st_Success = True\<rparr>\<rparr>] NewTestKeys)))"

lemma sample_http_diff_container:
  "map_option (\<lambda>c. gmap_keys (KnownTCPEndpoints c))
     (lte_container (\<lambda>_. None) id (\<lambda>_. Inr ''example.com'') sample_http_diff) = Some [2]"
  by code_simp

lemma sample_http_diff_finalized:
  "map_option Blocking (Finalize (\<lambda>_. None) id (\<lambda>_. Inr ''example.com'') sample_http_diff) =
     Some (BlockingString ''http-diff'')"
  by code_simp

theorem lte_http_diff_flagged_witness:
  "\<exists>tk'. Finalize (\<lambda>_. None) id (\<lambda>_. Inr ''example.com'') sample_http_diff = Some tk' \<and>
     Blocking tk' = BlockingString ''http-diff'' \<and> bit (BlockingFlags tk') 4"
proof -
  obtain c where c: "lte_container (\<lambda>_. None) id (\<lambda>_. Inr ''example.com'') sample_http_diff = Some c"
      "gmap_keys (KnownTCPEndpoints c) = [2]"
    using sample_http_diff_container by auto
  then have "one_final_response c" by (auto simp: one_final_response_def)
  moreover have "verdict_keys sample_http_diff = (BlockingNil, None)"
    by (simp add: sample_http_diff_def SetControl_def SetControlRequest_def PrependRequests_def
        AppendTCPConnectResults_def NewTestKeys_def)
  ultimately show ?thesis
    using lte_http_diff_flagged [OF _ _ c(1)] sample_http_diff_finalized by auto
qed

end
