(* ===== verification/TraceX.thy ===== *)
theory TraceX
  imports Archival NetErrors GoFloat
begin

text \<open>
  The trace of the legacy measurement library, \<open>internal/legacy/tracex\<close>: the events (\<open>event.go\<close>), the saver that
  collects them (\<open>saver.go\<close>) and the conversion of a list of events to the archival data format (\<open>archival.go\<close>),
  with the lookup of AS numbers of \<open>internal/geoipx\<close>. An event is a constructor applied to its value; the
  GeoIP database is an argument. Times are nanoseconds, and \<open>Duration_Seconds\<close> is the \<open>float64\<close> of \<open>Duration.Seconds\<close>.

  The lemmas say which events each list has and in which order: the last HTTP transaction comes first, and each
  address of a lookup is an answer of exactly one of the two queries that the lookup stands for.
\<close>

section \<open>Events\<close>

record EventValue =
  ev_Addresses :: "string list"
  ev_Address :: string
  ev_DNSQuery :: string
  ev_DNSResponse :: string
  ev_Data :: string
  ev_Duration :: int
  ev_Err :: string
  ev_HTTPMethod :: string
  ev_HTTPRequestHeaders :: http_header
  ev_HTTPResponseHeaders :: http_header
  ev_HTTPResponseBody :: string
  ev_HTTPResponseBodyIsTruncated :: bool
  ev_HTTPStatusCode :: int
  ev_HTTPURL :: string
  ev_Hostname :: string
  ev_NoTLSVerify :: bool
  ev_NumBytes :: int
  ev_Proto :: string
  ev_TLSServerName :: string
  ev_TLSCipherSuite :: string
  ev_TLSNegotiatedProto :: string
  ev_TLSNextProtos :: "string list"
  ev_TLSPeerCerts :: "string list"
  ev_TLSVersion :: string
  ev_Time :: int
  ev_Transport :: string

datatype Event =
    EventTLSHandshakeStart (Event_Value: EventValue) | EventTLSHandshakeDone (Event_Value: EventValue)
  | EventResolveStart (Event_Value: EventValue) | EventResolveDone (Event_Value: EventValue)
  | EventDNSRoundTripStart (Event_Value: EventValue) | EventDNSRoundTripDone (Event_Value: EventValue)
  | EventQUICHandshakeStart (Event_Value: EventValue) | EventQUICHandshakeDone (Event_Value: EventValue)
  | EventWriteToOperation (Event_Value: EventValue) | EventReadFromOperation (Event_Value: EventValue)
  | EventHTTPTransactionStart (Event_Value: EventValue) | EventHTTPTransactionDone (Event_Value: EventValue)
  | EventConnectOperation (Event_Value: EventValue) | EventReadOperation (Event_Value: EventValue)
  | EventWriteOperation (Event_Value: EventValue)

fun Event_Name :: "Event \<Rightarrow> string" where
  "Event_Name (EventTLSHandshakeStart _) = ''tls_handshake_start''"
| "Event_Name (EventTLSHandshakeDone _) = ''tls_handshake_done''"
| "Event_Name (EventResolveStart _) = ''resolve_start''"
| "Event_Name (EventResolveDone _) = ''resolve_done''"
| "Event_Name (EventDNSRoundTripStart _) = ''dns_round_trip_start''"
| "Event_Name (EventDNSRoundTripDone _) = ''dns_round_trip_done''"
| "Event_Name (EventQUICHandshakeStart _) = ''quic_handshake_start''"
| "Event_Name (EventQUICHandshakeDone _) = ''quic_handshake_done''"
| "Event_Name (EventWriteToOperation _) = WriteToOperation"
| "Event_Name (EventReadFromOperation _) = ReadFromOperation"
| "Event_Name (EventHTTPTransactionStart _) = ''http_transaction_start''"
| "Event_Name (EventHTTPTransactionDone _) = ''http_transaction_done''"
| "Event_Name (EventConnectOperation _) = ConnectOperation"
| "Event_Name (EventReadOperation _) = ReadOperation"
| "Event_Name (EventWriteOperation _) = WriteOperation"

definition FailureStr_IsNil :: "string \<Rightarrow> bool" where
  "FailureStr_IsNil fs \<longleftrightarrow> fs = ''''"

definition FailureStr_IsNotNil :: "string \<Rightarrow> bool" where
  "FailureStr_IsNotNil fs \<longleftrightarrow> \<not> FailureStr_IsNil fs"

section \<open>The saver\<close>

record Saver =
  sv_ops :: "Event list"

definition Saver_Read :: "Saver \<Rightarrow> Saver \<times> Event list" where
  "Saver_Read s = (s\<lparr>sv_ops := []\<rparr>, sv_ops s)"

definition Saver_Write :: "Saver \<Rightarrow> Event \<Rightarrow> Saver" where
  "Saver_Write s ev = s\<lparr>sv_ops := sv_ops s @ [ev]\<rparr>"

section \<open>AS numbers and times\<close>

text \<open>
  The record that the database has for an address, or \<open>None\<close> for an error: the AS number, the organisation and the
  country code. An address that does not parse is passed on as nil. The database that is built in always loads.
\<close>

type_synonym mmdb = "ip option \<Rightarrow> (nat \<times> string \<times> string) option"

definition geoipx_LookupASN :: "mmdb \<Rightarrow> string \<Rightarrow> nat \<times> string" where
  "geoipx_LookupASN db ip =
     (case db (ParseIP ip) of None \<Rightarrow> (0, '''') | Some (asn, org, cc) \<Rightarrow> (asn, if org \<noteq> '''' then org else ''''))"

definition geoipx_LookupCC :: "mmdb \<Rightarrow> string \<Rightarrow> string" where
  "geoipx_LookupCC db ip =
     (case db (ParseIP ip) of None \<Rightarrow> ''ZZ'' | Some (asn, org, cc) \<Rightarrow> if cc \<noteq> '''' then cc else ''ZZ'')"

definition Duration_Seconds :: "int \<Rightarrow> rat" where
  "Duration_Seconds d =
     (let sec = go_div d 1000000000; nsec = d - sec * 1000000000
      in f64 (f64 (of_int sec) + f64 (f64 (of_int nsec) / 1000000000)))"

text \<open>The value of \<open>strconv.Atoi\<close> when its error is ignored: zero for bad syntax, the nearest bound out of range.\<close>

definition Atoi_value :: "string \<Rightarrow> int" where
  "Atoi_value s =
     (case parse_int64 s of
        Some v \<Rightarrow> v
      | None \<Rightarrow>
          let ds = (if has_prefix s ''-'' \<or> has_prefix s ''+'' then tl s else s)
          in if ds = [] \<or> \<not> list_all is_digit ds then 0
             else if has_prefix s ''-'' then - (2 ^ 63) else 2 ^ 63 - 1)"

section \<open>Conversion to the archival format\<close>

text \<open>The error of \<open>net.SplitHostPort\<close> is ignored: both parts are then empty.\<close>

definition connect_entry :: "int \<Rightarrow> EventValue \<Rightarrow> ArchivalTCPConnectResult" where
  "connect_entry t0 ev =
     (let (ip, sport) = (case SplitHostPort (ev_Address ev) of Inl _ \<Rightarrow> ('''', '''') | Inr hp \<Rightarrow> hp)
      in \<lparr>tcp_IP = ip, tcp_Port = Atoi_value sport,
          tcp_Status = \<lparr>st_Blocked = None, st_Failure = ToFailure (ev_Err ev), st_Success = FailureStr_IsNil (ev_Err ev)\<rparr>,
          tcp_T0 = 0, tcp_T = Duration_Seconds (time_Sub (ev_Time ev) t0), tcp_Tags = [], tcp_TransactionID = 0\<rparr>)"

fun NewTCPConnectList :: "int \<Rightarrow> Event list \<Rightarrow> ArchivalTCPConnectResult list" where
  "NewTCPConnectList t0 [] = []"
| "NewTCPConnectList t0 (EventConnectOperation ev # events) =
     (if ev_Proto ev \<noteq> ''tcp'' then NewTCPConnectList t0 events
      else connect_entry t0 ev # NewTCPConnectList t0 events)"
| "NewTCPConnectList t0 (_ # events) = NewTCPConnectList t0 events"

definition NewFailedOperation :: "go_error option \<Rightarrow> string option" where
  "NewFailedOperation err =
     (case err of
        None \<Rightarrow> None
      | Some err \<Rightarrow> Some (case errors_As as_wrapper err of
          Some (failure, operation) \<Rightarrow> if operation \<noteq> '''' then operation else UnknownOperation
        | None \<Rightarrow> UnknownOperation))"

definition header_Values :: "http_header \<Rightarrow> string \<Rightarrow> string list" where
  "header_Values h key = (case gmap_get h key of None \<Rightarrow> [] | Some vs \<Rightarrow> vs)"

definition request_entry :: "int \<Rightarrow> EventValue \<Rightarrow> ArchivalHTTPRequestResult" where
  "request_entry t0 ev =
     \<lparr>http_Network = '''', http_Address = '''', http_ALPN = '''', http_Failure = ToFailure (ev_Err ev),
      http_Request = \<lparr>
        req_Body = '''', req_BodyIsTruncated = False,
        req_HeadersList = ArchivalNewHTTPHeadersList (ev_HTTPRequestHeaders ev),
        req_Headers = ArchivalNewHTTPHeadersMap (ev_HTTPRequestHeaders ev), req_Method = ev_HTTPMethod ev,
        req_Tor = \<lparr>tor_ExitIP = None, tor_ExitName = None, tor_IsTor = False\<rparr>,
        req_Transport = ev_Transport ev, req_URL = ev_HTTPURL ev\<rparr>,
      http_Response = \<lparr>
        resp_Body = ev_HTTPResponseBody ev, resp_BodyIsTruncated = ev_HTTPResponseBodyIsTruncated ev,
        resp_Code = ev_HTTPStatusCode ev,
        resp_HeadersList = ArchivalNewHTTPHeadersList (ev_HTTPResponseHeaders ev),
        resp_Headers = ArchivalNewHTTPHeadersMap (ev_HTTPResponseHeaders ev),
        resp_Locations = header_Values (ev_HTTPResponseHeaders ev) ''Location''\<rparr>,
      http_T0 = 0, http_T = Duration_Seconds (time_Sub (ev_Time ev) t0), http_Tags = [], http_TransactionID = 0\<rparr>"

fun newRequestList :: "int \<Rightarrow> Event list \<Rightarrow> ArchivalHTTPRequestResult list" where
  "newRequestList t0 [] = []"
| "newRequestList t0 (EventHTTPTransactionDone ev # events) = request_entry t0 ev # newRequestList t0 events"
| "newRequestList t0 (_ # events) = newRequestList t0 events"

definition NewRequestList :: "int \<Rightarrow> Event list \<Rightarrow> ArchivalHTTPRequestResult list" where
  "NewRequestList t0 events = rev (newRequestList t0 events)"

datatype dnsQueryType = QTypeA | QTypeAAAA

fun qtype_string :: "dnsQueryType \<Rightarrow> string" where
  "qtype_string QTypeA = ''A''"
| "qtype_string QTypeAAAA = ''AAAA''"

fun ipOfType :: "dnsQueryType \<Rightarrow> string \<Rightarrow> bool" where
  "ipOfType QTypeA addr \<longleftrightarrow> CHR '':'' \<notin> set addr"
| "ipOfType QTypeAAAA addr \<longleftrightarrow> CHR '':'' \<in> set addr"

definition makeAnswerEntry :: "mmdb \<Rightarrow> dnsQueryType \<Rightarrow> string \<Rightarrow> ArchivalDNSAnswer" where
  "makeAnswerEntry db qtype addr =
     (let (asn, org) = geoipx_LookupASN db addr
      in \<lparr>ans_ASN = wrap64 (int asn), ans_ASOrgName = org, ans_AnswerType = qtype_string qtype, ans_Hostname = '''',
          ans_IPv4 = (if qtype = QTypeA then addr else ''''), ans_IPv6 = (if qtype = QTypeAAAA then addr else ''''),
          ans_TTL = None\<rparr>)"

definition makeQueryEntry :: "int \<Rightarrow> dnsQueryType \<Rightarrow> EventValue \<Rightarrow> ArchivalDNSLookupResult" where
  "makeQueryEntry t0 qtype ev =
     \<lparr>dns_Answers = [], dns_Engine = ev_Proto ev, dns_Failure = ToFailure (ev_Err ev), dns_GetaddrinfoError = 0,
      dns_Hostname = ev_Hostname ev, dns_QueryType = qtype_string qtype, dns_RawResponse = '''', dns_Rcode = 0,
      dns_ResolverHostname = None, dns_ResolverPort = None, dns_ResolverAddress = ev_Address ev, dns_T0 = 0,
      dns_T = Duration_Seconds (time_Sub (ev_Time ev) t0), dns_Tags = [], dns_TransactionID = 0\<rparr>"

text \<open>The entry of one of the two query types, unless it is skipped.\<close>

definition query_entries :: "mmdb \<Rightarrow> int \<Rightarrow> EventValue \<Rightarrow> dnsQueryType \<Rightarrow> ArchivalDNSLookupResult list" where
  "query_entries db t0 ev qtype =
     (let entry = (makeQueryEntry t0 qtype ev)
            \<lparr>dns_Answers := map (makeAnswerEntry db qtype) (filter (ipOfType qtype) (ev_Addresses ev))\<rparr>
      in if dns_Answers entry = [] \<and> FailureStr_IsNil (ev_Err ev) then [] else [entry])"

fun NewDNSQueriesList :: "mmdb \<Rightarrow> int \<Rightarrow> Event list \<Rightarrow> ArchivalDNSLookupResult list" where
  "NewDNSQueriesList db t0 [] = []"
| "NewDNSQueriesList db t0 (EventResolveDone ev # events) =
     query_entries db t0 ev QTypeA @ query_entries db t0 ev QTypeAAAA @ NewDNSQueriesList db t0 events"
| "NewDNSQueriesList db t0 (_ # events) = NewDNSQueriesList db t0 events"

fun network_event :: "int \<Rightarrow> Event \<Rightarrow> ArchivalNetworkEvent" where
  "network_event t0 wrapper =
     (let ev = Event_Value wrapper;
          entry = \<lparr>net_Address = '''', net_Failure = ToFailure (ev_Err ev), net_NumBytes = 0,
            net_Operation = Event_Name wrapper, net_Proto = '''', net_T0 = 0,
            net_T = Duration_Seconds (time_Sub (ev_Time ev) t0), net_TransactionID = 0, net_Tags = []\<rparr>
      in case wrapper of
           EventConnectOperation _ \<Rightarrow> entry\<lparr>net_Address := ev_Address ev, net_Proto := ev_Proto ev\<rparr>
         | EventReadOperation _ \<Rightarrow> entry\<lparr>net_NumBytes := ev_NumBytes ev\<rparr>
         | EventWriteOperation _ \<Rightarrow> entry\<lparr>net_NumBytes := ev_NumBytes ev\<rparr>
         | EventReadFromOperation _ \<Rightarrow> entry\<lparr>net_Address := ev_Address ev, net_NumBytes := ev_NumBytes ev\<rparr>
         | EventWriteToOperation _ \<Rightarrow> entry\<lparr>net_Address := ev_Address ev, net_NumBytes := ev_NumBytes ev\<rparr>
         | _ \<Rightarrow> entry)"

definition NewNetworkEventsList :: "int \<Rightarrow> Event list \<Rightarrow> ArchivalNetworkEvent list" where
  "NewNetworkEventsList t0 events = map (network_event t0) events"

definition handshake_entry :: "int \<Rightarrow> EventValue \<Rightarrow> ArchivalTLSOrQUICHandshakeResult" where
  "handshake_entry t0 ev =
     \<lparr>tls_Network = '''', tls_Address = ev_Address ev, tls_CipherSuite = ev_TLSCipherSuite ev,
      tls_Failure = ToFailure (ev_Err ev), tls_SoError = None, tls_NegotiatedProtocol = ev_TLSNegotiatedProto ev,
      tls_NoTLSVerify = ev_NoTLSVerify ev, tls_PeerCertificates = ev_TLSPeerCerts ev, tls_ServerName = ev_TLSServerName ev,
      tls_OuterServerName = '''', tls_ECHConfig = '''', tls_T0 = 0, tls_T = Duration_Seconds (time_Sub (ev_Time ev) t0),
      tls_Tags = [], tls_TLSVersion = ev_TLSVersion ev, tls_TransactionID = 0\<rparr>"

fun NewTLSHandshakesList :: "int \<Rightarrow> Event list \<Rightarrow> ArchivalTLSOrQUICHandshakeResult list" where
  "NewTLSHandshakesList t0 [] = []"
| "NewTLSHandshakesList t0 (EventQUICHandshakeDone ev # events) = handshake_entry t0 ev # NewTLSHandshakesList t0 events"
| "NewTLSHandshakesList t0 (EventTLSHandshakeDone ev # events) = handshake_entry t0 ev # NewTLSHandshakesList t0 events"
| "NewTLSHandshakesList t0 (_ # events) = NewTLSHandshakesList t0 events"

section \<open>Lemmas\<close>

lemma newRequestList_append [simp]:
  "newRequestList t0 (xs @ ys) = newRequestList t0 xs @ newRequestList t0 ys"
  by (induction t0 xs rule: newRequestList.induct) auto

text \<open>The transaction that ended last is the first request, whatever other events follow it.\<close>

lemma last_request_first:
  "newRequestList t0 later = [] \<Longrightarrow>
     NewRequestList t0 (earlier @ EventHTTPTransactionDone ev # later) = request_entry t0 ev # NewRequestList t0 earlier"
  by (simp add: NewRequestList_def)

definition answer_ip :: "ArchivalDNSAnswer \<Rightarrow> string" where
  "answer_ip a = (if ans_AnswerType a = ''A'' then ans_IPv4 a else ans_IPv6 a)"

lemma makeAnswerEntry_ip [simp]: "answer_ip (makeAnswerEntry db qtype addr) = addr"
  by (cases qtype) (simp_all add: answer_ip_def makeAnswerEntry_def split: prod.split)

lemma query_entries_answers:
  "concat (map (\<lambda>q. map answer_ip (dns_Answers q)) (query_entries db t0 ev qtype)) = filter (ipOfType qtype) (ev_Addresses ev)"
  by (auto simp: query_entries_def Let_def comp_def)

fun resolved :: "Event \<Rightarrow> string list" where
  "resolved (EventResolveDone ev) = ev_Addresses ev"
| "resolved _ = []"

text \<open>The answers of the queries are the addresses of the lookups, each with the same number of occurrences.\<close>

lemma queries_answers:
  "mset (concat (map (\<lambda>q. map answer_ip (dns_Answers q)) (NewDNSQueriesList db t0 events))) =
     mset (concat (map resolved events))"
proof (induction db t0 events rule: NewDNSQueriesList.induct)
  case (2 db t0 ev events)
  have split: "mset (filter (ipOfType QTypeA) xs) + mset (filter (ipOfType QTypeAAAA) xs) = mset xs" for xs :: "string list"
    by (induction xs) auto
  show ?case using 2 by (simp add: query_entries_answers split flip: add.assoc del: mset_filter)
qed auto

lemma NewFailedOperation_None [simp]: "NewFailedOperation err = None \<longleftrightarrow> err = None"
  by (simp add: NewFailedOperation_def split: option.split)

end
