(* ===== verification/Urlgetter.thy ===== *)
theory Urlgetter
  imports TraceX DnsMessages
begin

text \<open>
  The experiment library \<open>internal/experiment/urlgetter\<close>, on which Web Connectivity 0.4 and the messaging
  experiments rest: the configuration (\<open>configurer.go\<close>), the runner of one measurement (\<open>runner.go\<close>), the getter
  that turns the trace of a run into test keys (\<open>getter.go\<close>) and the parallel runner (\<open>multi.go\<close>). What the network
  code below does is an argument: the outcome of each connect, handshake, lookup and HTTP round trip, and the
  events that it wrote to the saver. A panic is \<open>None\<close>.

  The parallel runner is a step relation over all interleavings of its source, its workers and its
  collector. The theorem about it says that it always ends and hands out exactly one result for each input, in some order.
\<close>

section \<open>Data\<close>

record ug_Config =
  cfg_CertPool :: "string list option"
  cfg_Timeout :: int
  cfg_DNSCache :: string
  cfg_DNSHTTPHost :: string
  cfg_DNSTLSServerName :: string
  cfg_DNSTLSVersion :: string
  cfg_FailOnHTTPError :: bool
  cfg_HTTP3Enabled :: bool
  cfg_HTTPHost :: string
  cfg_Method :: string
  cfg_NoFollowRedirects :: bool
  cfg_NoTLSVerify :: bool
  cfg_RejectDNSBogons :: bool
  cfg_ResolverURL :: string
  cfg_TLSServerName :: string
  cfg_TLSVersion :: string
  cfg_Tunnel :: string
  cfg_UserAgent :: string

text \<open>The zero value.\<close>

definition ug_Config_zero :: ug_Config where
  "ug_Config_zero = \<lparr>cfg_CertPool = None, cfg_Timeout = 0, cfg_DNSCache = '''', cfg_DNSHTTPHost = '''',
     cfg_DNSTLSServerName = '''', cfg_DNSTLSVersion = '''', cfg_FailOnHTTPError = False, cfg_HTTP3Enabled = False,
     cfg_HTTPHost = '''', cfg_Method = '''', cfg_NoFollowRedirects = False, cfg_NoTLSVerify = False,
     cfg_RejectDNSBogons = False, cfg_ResolverURL = '''', cfg_TLSServerName = '''', cfg_TLSVersion = '''',
     cfg_Tunnel = '''', cfg_UserAgent = ''''\<rparr>"

record ug_TestKeys =
  ug_Agent :: string
  ug_BootstrapTime :: rat
  ug_DNSCache :: "string list"
  ug_FailedOperation :: "string option"
  ug_Failure :: "string option"
  ug_NetworkEvents :: "ArchivalNetworkEvent list"
  ug_Queries :: "ArchivalDNSLookupResult list"
  ug_Requests :: "ArchivalHTTPRequestResult list"
  ug_SOCKSProxy :: string
  ug_TCPConnect :: "ArchivalTCPConnectResult list"
  ug_TLSHandshakes :: "ArchivalTLSOrQUICHandshakeResult list"
  ug_Tunnel :: string
  ug_HTTPResponseStatus :: int
  ug_HTTPResponseBody :: string
  ug_HTTPResponseLocations :: "string list"

definition ug_TestKeys_zero :: ug_TestKeys where
  "ug_TestKeys_zero = \<lparr>ug_Agent = '''', ug_BootstrapTime = 0, ug_DNSCache = [], ug_FailedOperation = None,
     ug_Failure = None, ug_NetworkEvents = [], ug_Queries = [], ug_Requests = [], ug_SOCKSProxy = '''',
     ug_TCPConnect = [], ug_TLSHandshakes = [], ug_Tunnel = '''', ug_HTTPResponseStatus = 0,
     ug_HTTPResponseBody = '''', ug_HTTPResponseLocations = []\<rparr>"

section \<open>Configuration\<close>

text \<open>
  The expression \<open>^([a-z0-9]+(-[a-z0-9]+)*\.)+[a-z]{2,}$\<close>. Neither a label nor the last part has a dot, and
  the words of a label have no dash, so the expression describes the parts between the dots and dashes.
\<close>

definition lower_letters :: string where
  "lower_letters = ''abcdefghijklmnopqrstuvwxyz''"

definition label_ok :: "string \<Rightarrow> bool" where
  "label_ok l \<longleftrightarrow> list_all (\<lambda>w. w \<noteq> [] \<and> list_all (\<lambda>c. c \<in> set lower_letters \<union> set ''0123456789'') w) (split_byte (CHR ''-'') l)"

definition domainregex :: "string \<Rightarrow> bool" where
  "domainregex s \<longleftrightarrow>
     (let parts = split_byte (CHR ''.'') s
      in 2 \<le> length parts \<and> list_all label_ok (butlast parts) \<and>
         2 \<le> length (last parts) \<and> list_all (\<lambda>c. c \<in> set lower_letters) (last parts))"

definition fill_dns_cache :: "string \<Rightarrow> go_error + (string, string list) gomap" where
  "fill_dns_cache cache =
     (if cache = '''' then Inr []
      else let entry = split_byte (CHR '' '') cache in
        if length entry < 2 then Inl (new_error ''invalid DNSCache string'')
        else if \<not> domainregex (entry ! 0) then Inl (new_error ''invalid domain in DNSCache'')
        else if list_ex (\<lambda>a. ParseIP a = None) (tl entry) then Inl (new_error ''invalid IP in DNSCache'')
        else Inr [(entry ! 0, tl entry)])"

record tls_config =
  tc_NextProtos :: "string list"
  tc_ServerName :: string
  tc_MinVersion :: nat
  tc_MaxVersion :: nat
  tc_InsecureSkipVerify :: bool
  tc_RootCAs :: "string list option"

definition ErrInvalidTLSVersion :: go_error where
  "ErrInvalidTLSVersion = new_error ''invalid TLS version''"

definition ConfigureTLSVersion :: "tls_config \<Rightarrow> string \<Rightarrow> go_error + tls_config" where
  "ConfigureTLSVersion config version =
     (if version = ''TLSv1.3'' then Inr (config\<lparr>tc_MinVersion := 772, tc_MaxVersion := 772\<rparr>)
      else if version = ''TLSv1.2'' then Inr (config\<lparr>tc_MinVersion := 771, tc_MaxVersion := 771\<rparr>)
      else if version = ''TLSv1.1'' then Inr (config\<lparr>tc_MinVersion := 770, tc_MaxVersion := 770\<rparr>)
      else if version = ''TLSv1.0'' \<or> version = ''TLSv1'' then Inr (config\<lparr>tc_MinVersion := 769, tc_MaxVersion := 769\<rparr>)
      else if version = '''' then Inr config
      else Inl ErrInvalidTLSVersion)"

text \<open>\<open>netx.Config\<close>, without the logger and the savers.\<close>

record netx_Config =
  nx_BogonIsError :: bool
  nx_CacheResolutions :: bool
  nx_ContextByteCounting :: bool
  nx_HTTP3Enabled :: bool
  nx_DNSCache :: "(string, string list) gomap"
  nx_TLSConfig :: tls_config
  nx_ProxyURL :: "string option"

text \<open>\<open>dns_client\<close> is \<open>NewDNSClientWithOverrides\<close>, which may refuse its arguments.\<close>

definition NewConfiguration ::
    "((string, string list) gomap \<Rightarrow> string \<Rightarrow> string \<Rightarrow> string \<Rightarrow> string \<Rightarrow> go_error option) \<Rightarrow> ug_Config \<Rightarrow> string option \<Rightarrow>
     go_error + netx_Config" where
  "NewConfiguration dns_client c proxyURL =
     (case fill_dns_cache (cfg_DNSCache c) of
        Inl err \<Rightarrow> Inl err
      | Inr cache \<Rightarrow>
          (case dns_client cache (cfg_ResolverURL c) (cfg_DNSHTTPHost c) (cfg_DNSTLSServerName c) (cfg_DNSTLSVersion c) of
             Some err \<Rightarrow> Inl err
           | None \<Rightarrow>
               (case ConfigureTLSVersion \<lparr>tc_NextProtos = [''h2'', ''http/1.1''], tc_ServerName = cfg_TLSServerName c,
                   tc_MinVersion = 0, tc_MaxVersion = 0, tc_InsecureSkipVerify = False, tc_RootCAs = None\<rparr> (cfg_TLSVersion c) of
                  Inl err \<Rightarrow> Inl err
                | Inr tls \<Rightarrow>
                    Inr \<lparr>nx_BogonIsError = cfg_RejectDNSBogons c, nx_CacheResolutions = True, nx_ContextByteCounting = True,
                         nx_HTTP3Enabled = cfg_HTTP3Enabled c, nx_DNSCache = cache,
                         nx_TLSConfig = tls\<lparr>tc_InsecureSkipVerify := cfg_NoTLSVerify c, tc_RootCAs := cfg_CertPool c\<rparr>,
                         nx_ProxyURL = proxyURL\<rparr>)))"

section \<open>The runner\<close>

definition ErrHTTPRequestFailed :: go_error where
  "ErrHTTPRequestFailed = err_wrapper ''http_request_failed'' TopLevelOperation (new_error ''http_request_failed'')"

definition MaybeUserAgent :: "string \<Rightarrow> string" where
  "MaybeUserAgent ua = (if ua = '''' then HTTPHeaderUserAgent else ua)"

definition HTTPHeaderAccept :: string where
  "HTTPHeaderAccept = ''text/html,application/xhtml+xml,application/xml;q=0.9,*/*;q=0.8''"

definition HTTPHeaderAcceptLanguage :: string where
  "HTTPHeaderAcceptLanguage = ''en-US,en;q=0.9''"

text \<open>The methods that \<open>http.NewRequest\<close> accepts: tokens; the empty one stands for GET.\<close>

definition token_chars :: string where
  "token_chars = word_chars @ ''!#$%&*+-.^`|~'' @ [CHR 0x27]"

definition valid_method :: "string \<Rightarrow> bool" where
  "valid_method m \<longleftrightarrow> list_all (\<lambda>c. c \<in> set token_chars) m"

record ug_request =
  ugr_Method :: string
  ugr_URL :: string
  ugr_Host :: "string option"
  ugr_Header :: http_header
  ugr_NoFollowRedirects :: bool

text \<open>A URL that parses: its scheme, its host and its host name.\<close>

record url =
  url_Scheme :: string
  url_Host :: string
  url_Hostname :: string

text \<open>
  What the network does during one run. A response is its status code and the error of reading its body.
\<close>

record run_env =
  renv_Do :: "netx_Config \<Rightarrow> ug_request \<Rightarrow> go_error + int \<times> go_error option"
  renv_LookupHost :: "netx_Config \<Rightarrow> string \<Rightarrow> go_error + string list"
  renv_DialTLS :: "netx_Config \<Rightarrow> string \<Rightarrow> go_error option"
  renv_Dial :: "netx_Config \<Rightarrow> string \<Rightarrow> go_error option"

definition httpGet :: "run_env \<Rightarrow> ug_Config \<Rightarrow> netx_Config \<Rightarrow> string \<Rightarrow> go_error option option" where
  "httpGet env c nx url =
     (if \<not> valid_method (cfg_Method c) then None
      else Some (case renv_Do env nx
          \<lparr>ugr_Method = (if cfg_Method c = '''' then ''GET'' else cfg_Method c), ugr_URL = url,
           ugr_Host = (if cfg_HTTPHost c \<noteq> '''' then Some (cfg_HTTPHost c) else None),
           ugr_Header = [(''Accept'', [HTTPHeaderAccept]), (''Accept-Language'', [HTTPHeaderAcceptLanguage]),
                         (''User-Agent'', [MaybeUserAgent (cfg_UserAgent c)])],
           ugr_NoFollowRedirects = cfg_NoFollowRedirects c\<rparr> of
        Inl err \<Rightarrow> Some err
      | Inr (status, body_err) \<Rightarrow>
          (case body_err of
             Some err \<Rightarrow> Some err
           | None \<Rightarrow> if 400 \<le> status \<and> cfg_FailOnHTTPError c then Some ErrHTTPRequestFailed else None)))"

definition dnsLookup :: "run_env \<Rightarrow> netx_Config \<Rightarrow> string \<Rightarrow> go_error option" where
  "dnsLookup env nx hostname = (case renv_LookupHost env nx hostname of Inl err \<Rightarrow> Some err | Inr _ \<Rightarrow> None)"

definition Runner_Run ::
    "(string \<Rightarrow> go_error + url) \<Rightarrow> run_env \<Rightarrow> ug_Config \<Rightarrow> netx_Config \<Rightarrow> string \<Rightarrow> go_error option option" where
  "Runner_Run url_Parse env c nx target =
     (case url_Parse target of
        Inl err \<Rightarrow> Some (Some (GoError OtherError (''urlgetter: invalid target URL: '' @ err_Error err) [err]))
      | Inr u \<Rightarrow>
          if url_Scheme u = ''http'' \<or> url_Scheme u = ''https'' then httpGet env c nx target
          else if url_Scheme u = ''dnslookup'' then Some (dnsLookup env nx (url_Hostname u))
          else if url_Scheme u = ''tlshandshake'' then Some (renv_DialTLS env nx (url_Host u))
          else if url_Scheme u = ''tcpconnect'' then Some (renv_Dial env nx (url_Host u))
          else Some (Some (new_error ''unknown targetURL scheme'')))"

section \<open>The getter\<close>

text \<open>The tunnel: creating its directory and starting it may fail; it then has a bootstrap time and a proxy URL.\<close>

record getter_env =
  genv_TempDir :: "go_error option"
  genv_Start :: "string \<Rightarrow> go_error + int \<times> string"
  genv_dns_client :: "(string, string list) gomap \<Rightarrow> string \<Rightarrow> string \<Rightarrow> string \<Rightarrow> string \<Rightarrow> go_error option"
  genv_url_Parse :: "string \<Rightarrow> go_error + url"
  genv_run :: run_env
  genv_events :: "Event list"

definition start_tunnel :: "getter_env \<Rightarrow> string \<Rightarrow> ug_TestKeys \<Rightarrow> ug_TestKeys \<times> (go_error + string option)" where
  "start_tunnel env name tk =
     (if name = '''' then (tk, Inr None)
      else case genv_TempDir env of
        Some err \<Rightarrow> (tk, Inl err)
      | None \<Rightarrow>
          (case genv_Start env name of
             Inl err \<Rightarrow> (tk, Inl err)
           | Inr (bootstrap, proxy) \<Rightarrow>
               (tk\<lparr>ug_BootstrapTime := Duration_Seconds bootstrap, ug_SOCKSProxy := proxy\<rparr>, Inr (Some proxy))))"

definition getter_get :: "getter_env \<Rightarrow> ug_Config \<Rightarrow> string \<Rightarrow> (ug_TestKeys \<times> go_error option) option" where
  "getter_get env c target =
     (let tk = ug_TestKeys_zero\<lparr>ug_Agent := ''redirect'', ug_Tunnel := cfg_Tunnel c\<rparr>;
          tk = (if cfg_DNSCache c \<noteq> '''' then tk\<lparr>ug_DNSCache := [cfg_DNSCache c]\<rparr> else tk);
          tk = (if cfg_NoFollowRedirects c then tk\<lparr>ug_Agent := ''agent''\<rparr> else tk)
      in case start_tunnel env (cfg_Tunnel c) tk of
           (tk, Inl err) \<Rightarrow> Some (tk, Some err)
         | (tk, Inr proxyURL) \<Rightarrow>
             (case NewConfiguration (genv_dns_client env) c proxyURL of
                Inl err \<Rightarrow> Some (tk, Some err)
              | Inr nx \<Rightarrow> map_option (\<lambda>err. (tk, err)) (Runner_Run (genv_url_Parse env) (genv_run env) c nx target)))"

text \<open>The test keys and the error; \<open>t0\<close> is the time when the experiment began.\<close>

definition getter_Get :: "mmdb \<Rightarrow> getter_env \<Rightarrow> int \<Rightarrow> ug_Config \<Rightarrow> string \<Rightarrow> (ug_TestKeys \<times> go_error option) option" where
  "getter_Get db env t0 c target =
     do { (tk, err) \<leftarrow> getter_get env c target;
          err \<leftarrow> (case err of None \<Rightarrow> Some None | Some _ \<Rightarrow> map_option Some (NewTopLevelGenericErrWrapper err));
          failure \<leftarrow> tracex_NewFailure err;
          let tk = tk\<lparr>ug_FailedOperation := NewFailedOperation err, ug_Failure := failure\<rparr>;
          let events = genv_events env;
          let tk = tk\<lparr>ug_Queries := ug_Queries tk @ NewDNSQueriesList db t0 events,
                      ug_NetworkEvents := ug_NetworkEvents tk @ NewNetworkEventsList t0 events,
                      ug_Requests := ug_Requests tk @ NewRequestList t0 events\<rparr>;
          let tk = (case ug_Requests tk of
                      [] \<Rightarrow> tk
                    | req # _ \<Rightarrow> tk\<lparr>ug_HTTPResponseStatus := resp_Code (http_Response req),
                                   ug_HTTPResponseBody := resp_Body (http_Response req),
                                   ug_HTTPResponseLocations := resp_Locations (http_Response req)\<rparr>);
          let tk = tk\<lparr>ug_TCPConnect := ug_TCPConnect tk @ NewTCPConnectList t0 events,
                      ug_TLSHandshakes := ug_TLSHandshakes tk @ NewTLSHandshakesList t0 events\<rparr>;
          Some (tk, err) }"

section \<open>Parallel measurements\<close>

record multi_input =
  mi_Config :: ug_Config
  mi_Target :: string

record multi_output =
  mo_Input :: multi_input
  mo_Err :: "go_error option"
  mo_TestKeys :: ug_TestKeys

text \<open>
  The goroutines: the source has the inputs that were not sent yet; a worker waits for an input, measures it, waits for
  the collector to take its output, or has returned; the collector has handed out \<open>ms_outputs\<close> and reported
  \<open>ms_progress\<close>. The channels are not buffered, so each communication is one step of both sides. The
  caller reads everything that the collector sends.
\<close>

datatype multi_worker = WaitInput | Measure multi_input | SendOutput multi_output | Returned

record multi_state =
  ms_inputs :: "multi_input list"
  ms_workers :: "multi_worker list"
  ms_outputs :: "multi_output list"
  ms_progress :: "rat list"

definition multi_parallelism :: "int \<Rightarrow> nat" where
  "multi_parallelism parallelism = nat (if parallelism \<le> 0 then 3 else parallelism)"

definition multi_init :: "int \<Rightarrow> multi_input list \<Rightarrow> multi_state" where
  "multi_init parallelism inputs =
     \<lparr>ms_inputs = inputs, ms_workers = replicate (multi_parallelism parallelism) WaitInput, ms_outputs = [], ms_progress = []\<rparr>"

text \<open>
  \<open>outcome\<close> relates an input to what the getter may return for it, \<open>expect\<close> is the number of outputs that the collector
  waits for; its percentages count from \<open>start\<close> to \<open>overall\<close>.
\<close>

inductive multi_step ::
    "(multi_input \<Rightarrow> ug_TestKeys \<times> go_error option \<Rightarrow> bool) \<Rightarrow> nat \<Rightarrow> int \<Rightarrow> int \<Rightarrow> multi_state \<Rightarrow> multi_state \<Rightarrow> bool"
  for outcome expect start overall where
  take_input: "ms_inputs s = x # xs \<Longrightarrow> i < length (ms_workers s) \<Longrightarrow> ms_workers s ! i = WaitInput \<Longrightarrow>
    multi_step outcome expect start overall s (s\<lparr>ms_inputs := xs, ms_workers := (ms_workers s)[i := Measure x]\<rparr>)"
| measure: "i < length (ms_workers s) \<Longrightarrow> ms_workers s ! i = Measure x \<Longrightarrow> outcome x (tk, err) \<Longrightarrow>
    multi_step outcome expect start overall s
      (s\<lparr>ms_workers := (ms_workers s)[i := SendOutput \<lparr>mo_Input = x, mo_Err = err, mo_TestKeys = tk\<rparr>]\<rparr>)"
| deliver: "i < length (ms_workers s) \<Longrightarrow> ms_workers s ! i = SendOutput out \<Longrightarrow> length (ms_outputs s) < expect \<Longrightarrow>
    multi_step outcome expect start overall s
      (s\<lparr>ms_workers := (ms_workers s)[i := WaitInput], ms_outputs := ms_outputs s @ [out],
         ms_progress := ms_progress s @ [f64_quot (start + int (length (ms_outputs s)) + 1) overall]\<rparr>)"
| return: "i < length (ms_workers s) \<Longrightarrow> ms_workers s ! i = WaitInput \<Longrightarrow> ms_inputs s = [] \<Longrightarrow>
    multi_step outcome expect start overall s (s\<lparr>ms_workers := (ms_workers s)[i := Returned]\<rparr>)"

text \<open>The collector has returned.\<close>

definition multi_collected :: "nat \<Rightarrow> multi_state \<Rightarrow> bool" where
  "multi_collected expect s \<longleftrightarrow> length (ms_outputs s) = expect"

text \<open>\<open>Collect\<close>: the lists of outputs that the caller may read.\<close>

definition multi_Collect ::
    "(multi_input \<Rightarrow> ug_TestKeys \<times> go_error option \<Rightarrow> bool) \<Rightarrow> int \<Rightarrow> multi_input list \<Rightarrow> multi_output list \<Rightarrow> bool" where
  "multi_Collect outcome parallelism inputs outputs \<longleftrightarrow>
     (\<exists>s. (multi_step outcome (length inputs) 0 (int (length inputs)))\<^sup>*\<^sup>* (multi_init parallelism inputs) s \<and>
          multi_collected (length inputs) s \<and> ms_outputs s = outputs)"

section \<open>Runs of the parallel runner\<close>

definition worker_inputs :: "multi_worker \<Rightarrow> multi_input multiset" where
  "worker_inputs w = (case w of Measure x \<Rightarrow> {#x#} | SendOutput out \<Rightarrow> {#mo_Input out#} | _ \<Rightarrow> {#})"

definition multi_inv ::
    "(multi_input \<Rightarrow> ug_TestKeys \<times> go_error option \<Rightarrow> bool) \<Rightarrow> int \<Rightarrow> int \<Rightarrow> int \<Rightarrow> multi_input list \<Rightarrow> multi_state \<Rightarrow> bool" where
  "multi_inv outcome parallelism start overall inputs s \<longleftrightarrow>
     mset (ms_inputs s) + (\<Sum>w \<in># mset (ms_workers s). worker_inputs w) + mset (map mo_Input (ms_outputs s)) = mset inputs \<and>
     length (ms_workers s) = multi_parallelism parallelism \<and>
     (Returned \<in> set (ms_workers s) \<longrightarrow> ms_inputs s = []) \<and>
     (\<forall>out. SendOutput out \<in> set (ms_workers s) \<or> out \<in> set (ms_outputs s) \<longrightarrow>
        outcome (mo_Input out) (mo_TestKeys out, mo_Err out)) \<and>
     ms_progress s = map (\<lambda>k. f64_quot (start + int k) overall) [1 ..< Suc (length (ms_outputs s))]"

definition multi_weight :: "multi_worker \<Rightarrow> nat" where
  "multi_weight w = (case w of WaitInput \<Rightarrow> 1 | Measure _ \<Rightarrow> 4 | SendOutput _ \<Rightarrow> 3 | Returned \<Rightarrow> 0)"

definition multi_measure :: "multi_state \<Rightarrow> nat" where
  "multi_measure s = 4 * length (ms_inputs s) + sum_list (map multi_weight (ms_workers s))"

lemma sum_update:
  fixes f :: "'a \<Rightarrow> 'b :: comm_monoid_add"
  assumes "i < length xs"
  shows "\<exists>rest. (\<Sum>x \<in># mset xs. f x) = f (xs ! i) + rest \<and> (\<Sum>x \<in># mset (xs[i := y]). f x) = f y + rest"
proof -
  have "mset xs = add_mset (xs ! i) (mset xs - {#xs ! i#})" using assms by (simp add: nth_mem_mset)
  moreover have "mset (xs[i := y]) = add_mset y (mset xs - {#xs ! i#})" using assms by (rule mset_update)
  ultimately show ?thesis by (metis image_mset_add_mset sum_mset.add_mset)
qed

lemma worker_inputs_simps [simp]:
  "worker_inputs WaitInput = {#}" "worker_inputs (Measure x) = {#x#}" "worker_inputs (SendOutput out) = {#mo_Input out#}"
  "worker_inputs Returned = {#}"
  by (simp_all add: worker_inputs_def)

lemma multi_weight_simps [simp]:
  "multi_weight WaitInput = 1" "multi_weight (Measure x) = 4" "multi_weight (SendOutput out) = 3" "multi_weight Returned = 0"
  by (simp_all add: multi_weight_def)

lemma worker_update:
  fixes f :: "'a \<Rightarrow> 'b :: comm_monoid_add"
  assumes "i < length ws" and "f (ws ! i) = a" and "f w' = b"
  obtains rest where "(\<Sum>w \<in># mset ws. f w) = a + rest" and "(\<Sum>w \<in># mset (ws[i := w']). f w) = b + rest"
  using sum_update [OF assms(1), of f w'] assms(2,3) by auto

lemma worker_memD: "w \<in> set (ws[i := w']) \<Longrightarrow> w = w' \<or> w \<in> set ws"
  using set_update_subset_insert by fast

lemma multi_step_inv:
  assumes "multi_step outcome expect start overall s s'" and "multi_inv outcome parallelism start overall inputs s"
  shows "multi_inv outcome parallelism start overall inputs s'"
  using assms(1)
proof cases
  case (take_input x xs i)
  then obtain rest where "(\<Sum>w \<in># mset (ms_workers s). worker_inputs w) = {#} + rest"
      "(\<Sum>w \<in># mset ((ms_workers s)[i := Measure x]). worker_inputs w) = {#x#} + rest"
    by (metis worker_update worker_inputs_simps(1,2))
  with take_input assms(2) show ?thesis by (auto simp: multi_inv_def dest!: worker_memD)
next
  case (measure i x tk err)
  let ?w = "SendOutput \<lparr>mo_Input = x, mo_Err = err, mo_TestKeys = tk\<rparr>"
  have "worker_inputs ?w = {#x#}" by simp
  with measure obtain rest where "(\<Sum>w \<in># mset (ms_workers s). worker_inputs w) = {#x#} + rest"
      "(\<Sum>w \<in># mset ((ms_workers s)[i := ?w]). worker_inputs w) = {#x#} + rest"
    by (metis worker_update worker_inputs_simps(2))
  with measure assms(2) show ?thesis by (auto simp: multi_inv_def dest!: worker_memD)
next
  case (deliver i out)
  then obtain rest where "(\<Sum>w \<in># mset (ms_workers s). worker_inputs w) = {#mo_Input out#} + rest"
      "(\<Sum>w \<in># mset ((ms_workers s)[i := WaitInput]). worker_inputs w) = {#} + rest"
    by (metis worker_update worker_inputs_simps(1,3))
  moreover have "SendOutput out \<in> set (ms_workers s)" using deliver by (metis nth_mem)
  ultimately show ?thesis using deliver assms(2) by (auto simp: multi_inv_def ac_simps dest!: worker_memD)
next
  case (return i)
  then obtain rest where "(\<Sum>w \<in># mset (ms_workers s). worker_inputs w) = {#} + rest"
      "(\<Sum>w \<in># mset ((ms_workers s)[i := Returned]). worker_inputs w) = {#} + rest"
    by (metis worker_update worker_inputs_simps(1,4))
  with return assms(2) show ?thesis by (auto simp: multi_inv_def dest!: worker_memD)
qed

lemma multi_init_inv: "multi_inv outcome parallelism start overall inputs (multi_init parallelism inputs)"
  by (simp add: multi_inv_def multi_init_def multi_parallelism_def)

lemma multi_runs_inv:
  assumes "(multi_step outcome expect start overall)\<^sup>*\<^sup>* (multi_init parallelism inputs) s"
  shows "multi_inv outcome parallelism start overall inputs s"
  using assms by (induction) (auto intro: multi_init_inv multi_step_inv)

lemma multi_step_measure:
  assumes "multi_step outcome expect start overall s s'"
  shows "multi_measure s' < multi_measure s"
proof -
  have shrink: "sum_list (map multi_weight (ws[i := w'])) + multi_weight (ws ! i) = sum_list (map multi_weight ws) + multi_weight w'"
    if "i < length ws" for i ws w'
    using sum_update [OF that, of multi_weight w'] by (auto simp flip: sum_mset_sum_list simp: mset_map)
  from assms show ?thesis
  proof cases
    case (take_input x xs i)
    with shrink [of i "ms_workers s" "Measure x"] show ?thesis by (simp add: multi_measure_def)
  next
    case (measure i x tk err)
    with shrink [of i "ms_workers s" "SendOutput \<lparr>mo_Input = x, mo_Err = err, mo_TestKeys = tk\<rparr>"] show ?thesis
      by (simp add: multi_measure_def)
  next
    case (deliver i out)
    with shrink [of i "ms_workers s" WaitInput] show ?thesis by (simp add: multi_measure_def)
  next
    case (return i)
    with shrink [of i "ms_workers s" Returned] show ?thesis by (simp add: multi_measure_def)
  qed
qed

lemma multi_run_length:
  "(multi_step outcome expect start overall ^^ k) s s' \<Longrightarrow> k + multi_measure s' \<le> multi_measure s"
proof (induction k arbitrary: s')
  case (Suc k)
  then obtain t where "(multi_step outcome expect start overall ^^ k) s t" "multi_step outcome expect start overall t s'" by auto
  with Suc.IH [of t] multi_step_measure [of outcome expect start overall t s'] show ?case by simp
qed simp

text \<open>The number of outputs that are not delivered yet.\<close>

lemma multi_inv_count:
  assumes "multi_inv outcome parallelism start overall inputs s"
  shows "length (ms_inputs s) + (\<Sum>w \<in># mset (ms_workers s). size (worker_inputs w)) + length (ms_outputs s) = length inputs"
proof -
  have sizes: "size (\<Sum>w \<in># M. worker_inputs w) = (\<Sum>w \<in># M. size (worker_inputs w))" for M by (induction M) auto
  have "size (mset (ms_inputs s) + (\<Sum>w \<in># mset (ms_workers s). worker_inputs w) + mset (map mo_Input (ms_outputs s))) = size (mset inputs)"
    using assms by (simp add: multi_inv_def)
  then show ?thesis unfolding size_union sizes by simp
qed

lemma multi_progress:
  assumes "multi_inv outcome parallelism start overall inputs s"
    and "\<forall>x. \<exists>tk err. outcome x (tk, err)"
    and "\<not> multi_collected (length inputs) s"
  shows "\<exists>s'. multi_step outcome (length inputs) start overall s s'"
proof (rule ccontr)
  assume stuck: "\<nexists>s'. multi_step outcome (length inputs) start overall s s'"
  note count = multi_inv_count [OF assms(1)]
  have less: "length (ms_outputs s) < length inputs" using count assms(3) by (auto simp: multi_collected_def)
  have "w = Returned" if "w \<in> set (ms_workers s)" for w
  proof -
    from that obtain i where i: "i < length (ms_workers s)" "ms_workers s ! i = w" by (auto simp: in_set_conv_nth)
    show ?thesis
    proof (cases w)
      case WaitInput
      then show ?thesis
        using i stuck by (cases "ms_inputs s") (blast intro: multi_step.take_input multi_step.return)+
    next
      case (Measure x)
      then show ?thesis using i stuck assms(2) by (metis multi_step.measure)
    next
      case (SendOutput out)
      then show ?thesis using i stuck less by (metis multi_step.deliver)
    qed simp
  qed
  then have all: "\<forall>w \<in># mset (ms_workers s). w = Returned" by simp
  moreover have "ms_workers s \<noteq> []" using assms(1) by (auto simp: multi_inv_def multi_parallelism_def split: if_splits)
  ultimately have "Returned \<in> set (ms_workers s)" by (metis hd_in_set set_mset_mset)
  then have "ms_inputs s = []" using assms(1) by (simp add: multi_inv_def)
  moreover have "(\<Sum>w \<in># mset (ms_workers s). size (worker_inputs w)) = 0"
    using all by (auto simp: worker_inputs_def)
  ultimately show False using count less by (simp only:) simp
qed

section \<open>A sequential run\<close>

text \<open>One worker may do all the work, so every choice of results for the inputs is collected by some run.\<close>

definition outputs_of :: "(multi_input \<Rightarrow> ug_TestKeys) \<Rightarrow> multi_input list \<Rightarrow> multi_output list" where
  "outputs_of keys inputs = map (\<lambda>x. \<lparr>mo_Input = x, mo_Err = None, mo_TestKeys = keys x\<rparr>) inputs"

lemma sequential_run:
  assumes "\<forall>x. outcome x (keys x, None)" and "ws \<noteq> []" and "ws ! 0 = WaitInput" and "length outs + length xs = expect"
  shows "\<exists>progress'. (multi_step outcome expect start overall)\<^sup>*\<^sup>*
    \<lparr>ms_inputs = xs, ms_workers = ws, ms_outputs = outs, ms_progress = progress\<rparr>
    \<lparr>ms_inputs = [], ms_workers = ws, ms_outputs = outs @ outputs_of keys xs, ms_progress = progress'\<rparr>"
  using assms(4)
proof (induction xs arbitrary: outs progress)
  case Nil
  then show ?case by (auto simp: outputs_of_def)
next
  case (Cons x xs)
  let ?s = "\<lambda>ins w os p. \<lparr>ms_inputs = ins, ms_workers = ws[0 := w], ms_outputs = os, ms_progress = p\<rparr>"
  let ?out = "\<lparr>mo_Input = x, mo_Err = None, mo_TestKeys = keys x\<rparr>"
  let ?p = "progress @ [f64_quot (start + int (length outs) + 1) overall]"
  let ?step = "multi_step outcome expect start overall"
  have ws: "ws[0 := WaitInput] = ws" "0 < length ws" using assms(2,3) by (metis list_update_id, simp)
  have "?step (?s (x # xs) WaitInput outs progress) (?s xs (Measure x) outs progress)"
    using multi_step.take_input [of "?s (x # xs) WaitInput outs progress" x xs 0 outcome expect start overall] ws(2) by simp
  moreover have "?step (?s xs (Measure x) outs progress) (?s xs (SendOutput ?out) outs progress)"
    using multi_step.measure [of 0 "?s xs (Measure x) outs progress" x outcome "keys x" None expect start overall] ws(2) assms(1) by simp
  moreover have "?step (?s xs (SendOutput ?out) outs progress) (?s xs WaitInput (outs @ [?out]) ?p)"
    using multi_step.deliver [of 0 "?s xs (SendOutput ?out) outs progress" ?out expect outcome start overall] ws(2) Cons.prems by simp
  moreover obtain progress' where "?step\<^sup>*\<^sup>* (?s xs WaitInput (outs @ [?out]) ?p)
      (?s [] WaitInput ((outs @ [?out]) @ outputs_of keys xs) progress')"
    using Cons.IH [of "outs @ [?out]" ?p] Cons.prems ws(1) by auto
  ultimately have "?step\<^sup>*\<^sup>* (?s (x # xs) WaitInput outs progress) (?s [] WaitInput (outs @ outputs_of keys (x # xs)) progress')"
    by (simp add: outputs_of_def)
  then show ?case unfolding ws(1) by blast
qed

lemma sequential_collect:
  assumes "\<forall>x. outcome x (keys x, None)"
  shows "multi_Collect outcome parallelism inputs (outputs_of keys inputs)"
proof -
  let ?ws = "replicate (multi_parallelism parallelism) WaitInput"
  have "?ws \<noteq> []" "?ws ! 0 = WaitInput" by (auto simp: multi_parallelism_def)
  from sequential_run [of outcome keys ?ws "[]" inputs "length inputs" 0 "int (length inputs)" "[]", OF assms this] show ?thesis
    by (auto simp: multi_Collect_def multi_init_def multi_collected_def outputs_of_def)
qed

section \<open>The collector as an interface\<close>

text \<open>
  What an experiment relies on when it measures a list of inputs: the outputs that it reads are one per input, in
  an unknown order, and each is an outcome of its input. \<open>update\<close> adds one output to the results of an experiment; \<open>view\<close> is a part of the
  results on which updates commute.
\<close>

locale collector =
  fixes collects :: "'i list \<Rightarrow> 'o list \<Rightarrow> bool" and input :: "'o \<Rightarrow> 'i" and possible :: "'o \<Rightarrow> bool"
  assumes one_output_each: "collects inputs outputs \<Longrightarrow> mset (map input outputs) = mset inputs"
    and outputs_possible: "collects inputs outputs \<Longrightarrow> out \<in> set outputs \<Longrightarrow> possible out"
begin

lemma collected_input: "collects inputs outputs \<Longrightarrow> out \<in> set outputs \<Longrightarrow> input out \<in> set inputs"
  using one_output_each [of inputs outputs] by (metis image_eqI list.set_map set_mset_mset)

lemma collected_output: "collects inputs outputs \<Longrightarrow> x \<in> set inputs \<Longrightarrow> \<exists>out \<in> set outputs. input out = x"
  using one_output_each [of inputs outputs] by (metis imageE list.set_map set_mset_mset)

lemma collected_unique:
  assumes "collects inputs outputs" and "distinct (map f inputs)"
    and "a \<in> set outputs" and "b \<in> set outputs" and "f (input a) = f (input b)"
  shows "a = b"
proof -
  have "mset (map (f \<circ> input) outputs) = mset (map f inputs)"
    using one_output_each [OF assms(1)] by (metis map_map mset_map)
  then have "distinct (map (f \<circ> input) outputs)" using assms(2) by (metis mset_eq_imp_distinct_iff)
  with assms(3-5) show ?thesis by (auto simp: distinct_map inj_on_def)
qed

end

lemma multi_CollectD:
  assumes "multi_Collect outcome parallelism inputs outputs"
  shows "mset (map mo_Input outputs) = mset inputs"
    and "out \<in> set outputs \<Longrightarrow> outcome (mo_Input out) (mo_TestKeys out, mo_Err out)"
proof -
  obtain s where s: "(multi_step outcome (length inputs) 0 (int (length inputs)))\<^sup>*\<^sup>* (multi_init parallelism inputs) s"
      "multi_collected (length inputs) s" "ms_outputs s = outputs"
    using assms unfolding multi_Collect_def by blast
  note inv = multi_runs_inv [OF s(1)]
  have "size (mset inputs) = size (mset (map mo_Input outputs))" using s(2,3) by (simp add: multi_collected_def)
  moreover have "mset (map mo_Input outputs) \<subseteq># mset inputs"
    using inv s(3) unfolding multi_inv_def by (metis mset_subset_eq_add_right)
  ultimately show "mset (map mo_Input outputs) = mset inputs" by (metis mset_subset_size nless_le subset_mset.le_less)
  show "out \<in> set outputs \<Longrightarrow> outcome (mo_Input out) (mo_TestKeys out, mo_Err out)"
    using inv s(3) by (auto simp: multi_inv_def)
qed

interpretation multi: collector "multi_Collect outcome parallelism" mo_Input "\<lambda>out. outcome (mo_Input out) (mo_TestKeys out, mo_Err out)"
  for outcome parallelism
  by unfold_locales (auto dest: multi_CollectD)

section \<open>Properties\<close>

text \<open>
  C31: The parallel runner always ends and loses nothing. In every interleaving of its source, its workers and its
  collector, whatever the measurements return, it performs at most \<open>4 n + p\<close> steps for \<open>n\<close> inputs and \<open>p\<close> workers,
  and as long as the caller has not received all the outputs some step is possible, so the caller never blocks
  forever. When it has received them, there is one output for each input, each with a result of the measurement of its
  own input, and the reported progress went from \<open>1 / n\<close> to \<open>n / n\<close> in steps of one.
\<close>

theorem multi_collects_each_input:
  assumes "\<forall>x. \<exists>tk err. outcome x (tk, err)"
    and "(multi_step outcome (length inputs) 0 (int (length inputs)) ^^ k) (multi_init parallelism inputs) s"
  shows "k \<le> 4 * length inputs + multi_parallelism parallelism \<and>
    (if multi_collected (length inputs) s
     then mset (map mo_Input (ms_outputs s)) = mset inputs \<and>
       (\<forall>out \<in> set (ms_outputs s). outcome (mo_Input out) (mo_TestKeys out, mo_Err out)) \<and>
       ms_progress s = map (\<lambda>i. f64_quot (int i) (int (length inputs))) [1 ..< Suc (length inputs)]
     else \<exists>s'. multi_step outcome (length inputs) 0 (int (length inputs)) s s')"
proof -
  from assms(2) have run: "(multi_step outcome (length inputs) 0 (int (length inputs)))\<^sup>*\<^sup>* (multi_init parallelism inputs) s"
    by (rule relpowp_imp_rtranclp)
  note inv = multi_runs_inv [OF run]
  have "k + multi_measure s \<le> 4 * length inputs + multi_parallelism parallelism"
    using multi_run_length [OF assms(2)] by (simp add: multi_measure_def multi_init_def sum_list_replicate map_replicate_const)
  moreover have "multi_Collect outcome parallelism inputs (ms_outputs s)" if "multi_collected (length inputs) s"
    using run that unfolding multi_Collect_def by blast
  moreover have "ms_progress s = map (\<lambda>i. f64_quot (int i) (int (length inputs))) [1 ..< Suc (length inputs)]"
    if "multi_collected (length inputs) s"
    using inv that by (simp add: multi_inv_def multi_collected_def)
  ultimately show ?thesis
    using multi_progress [OF inv assms(1)] multi.one_output_each multi.outputs_possible by auto
qed

definition sample_input :: multi_input where
  "sample_input = \<lparr>mi_Config = ug_Config_zero, mi_Target = ''https://example.org/''\<rparr>"

definition sample_output :: multi_output where
  "sample_output = \<lparr>mo_Input = sample_input, mo_Err = None, mo_TestKeys = ug_TestKeys_zero\<rparr>"

lemma sample_multi_run:
  fixes outcome :: "multi_input \<Rightarrow> ug_TestKeys \<times> go_error option \<Rightarrow> bool"
  defines "outcome \<equiv> \<lambda>x r. r = (ug_TestKeys_zero, None)"
  shows "(multi_step outcome (length [sample_input]) 0 (int (length [sample_input])) ^^ 3) (multi_init 1 [sample_input])
    \<lparr>ms_inputs = [], ms_workers = [WaitInput], ms_outputs = [sample_output], ms_progress = [f64_quot 1 1]\<rparr>"
proof -
  let ?s = "\<lambda>ins w. \<lparr>ms_inputs = ins, ms_workers = [w], ms_outputs = [], ms_progress = []\<rparr>"
  have "multi_step outcome 1 0 1 (?s [sample_input] WaitInput) (?s [] (Measure sample_input))"
    using multi_step.take_input [of "?s [sample_input] WaitInput" sample_input "[]" 0 outcome 1 0 1] by simp
  moreover have "multi_step outcome 1 0 1 (?s [] (Measure sample_input)) (?s [] (SendOutput sample_output))"
    using multi_step.measure [of 0 "?s [] (Measure sample_input)" sample_input outcome ug_TestKeys_zero None 1 0 1]
    by (simp add: outcome_def sample_output_def)
  moreover have "multi_step outcome 1 0 1 (?s [] (SendOutput sample_output))
      \<lparr>ms_inputs = [], ms_workers = [WaitInput], ms_outputs = [sample_output], ms_progress = [f64_quot 1 1]\<rparr>"
    using multi_step.deliver [of 0 "?s [] (SendOutput sample_output)" sample_output 1 outcome 0 1] by simp
  moreover have "multi_init 1 [sample_input] = ?s [sample_input] WaitInput"
    by (simp add: multi_init_def multi_parallelism_def)
  ultimately show ?thesis by (auto simp: numeral_3_eq_3 intro!: relcomppI)
qed

theorem multi_collects_each_input_witness:
  "mset (map mo_Input [sample_output]) = mset [sample_input]"
  using multi_collects_each_input [OF _ sample_multi_run] by (simp add: multi_collected_def)

section \<open>The getter\<close>

lemma double_dash_part:
  "\<exists>p \<in> set (split_byte (CHR ''.'') (a @ ''--'' @ b)). \<exists>u v. p = u @ ''--'' @ v"
proof (induction a)
  case Nil
  obtain w ws where "split_byte (CHR ''.'') b = w # ws" by (cases "split_byte (CHR ''.'') b") auto
  then show ?case by (auto intro: exI [of _ "[]"])
next
  case (Cons x a)
  then obtain p u v where p: "p \<in> set (split_byte (CHR ''.'') (a @ ''--'' @ b))" "p = u @ ''--'' @ v" by blast
  show ?case
  proof (cases "x = CHR ''.''")
    case True
    with p show ?thesis by auto
  next
    case False
    obtain w ws where w: "split_byte (CHR ''.'') (a @ ''--'' @ b) = w # ws"
      by (cases "split_byte (CHR ''.'') (a @ ''--'' @ b)") auto
    with p consider "w = u @ ''--'' @ v" | "p \<in> set ws" by auto
    then show ?thesis
    proof cases
      case 1
      then have "x # w = (x # u) @ ''--'' @ v" by simp
      with False w show ?thesis by (auto intro: exI [of _ "x # u"])
    next
      case 2
      with False w p(2) show ?thesis by (auto intro!: bexI [of _ p])
    qed
  qed
qed

lemma split_byte_at: "split_byte c (u @ c # v) = split_byte c u @ split_byte c v"
  by (induction u) (auto split: list.split simp: append_eq_Cons_conv)

text \<open>A domain with two dashes in a row, as the punycode of every internationalized label has, does not match.\<close>

lemma domainregex_punycode: "\<not> domainregex (a @ ''--'' @ b)"
proof
  let ?parts = "split_byte (CHR ''.'') (a @ ''--'' @ b)"
  assume dom: "domainregex (a @ ''--'' @ b)"
  obtain p u v where p: "p \<in> set ?parts" "p = u @ ''--'' @ v" using double_dash_part by blast
  have "split_byte (CHR ''-'') p = split_byte (CHR ''-'') u @ [] # split_byte (CHR ''-'') v"
    using split_byte_at [of "CHR ''-''" u "CHR ''-'' # v"] p(2) by simp
  then have "\<not> label_ok p" by (simp add: label_ok_def)
  moreover have "\<not> list_all (\<lambda>c. c \<in> set lower_letters) p" using p(2) by (simp add: lower_letters_def)
  moreover have "x \<in> set (butlast xs) \<or> x = last xs" if "x \<in> set xs" for x :: string and xs
    using that by (induction xs rule: rev_induct) auto
  then have "p \<in> set (butlast ?parts) \<or> p = last ?parts" using p(1) by blast
  ultimately show False using dom by (auto simp: domainregex_def Let_def list_all_iff)
qed

lemma top_level_wrapper:
  "NewTopLevelGenericErrWrapper (Some err) = Some (wrap_error ClassifyGenericError TopLevelOperation err)"
  by (simp add: NewTopLevelGenericErrWrapper_def wrap_error_eq)

lemma tracex_NewFailure_wrapped:
  assumes "is_wrapped err"
  shows "\<exists>f. tracex_NewFailure (Some err) = Some (Some f) \<and> f \<noteq> ''''"
  using assms by (auto simp: is_wrapped_def tracex_NewFailure_def NewFailureStr_def wrapped_failure_eq ToFailure_def empty_failure_def Let_def)

text \<open>
  C35: What one measurement gives. The getter panics only for an HTTP target with a configured method that is not a
  token, because building the request is assumed to succeed. Otherwise the error is wrapped, and the test keys have a
  failure and a failed operation exactly when there is an error; the failure is never empty. The requests are the HTTP
  transactions of the trace, the last one first, and the status of the response is that of the last transaction.
\<close>

theorem getter_test_keys:
  "case getter_Get db env t0 c target of
     None \<Rightarrow> \<not> valid_method (cfg_Method c) \<and>
       (\<exists>u. genv_url_Parse env target = Inr u \<and> (url_Scheme u = ''http'' \<or> url_Scheme u = ''https''))
   | Some (tk, err) \<Rightarrow>
       (case err of
          None \<Rightarrow> ug_Failure tk = None \<and> ug_FailedOperation tk = None
        | Some e \<Rightarrow> is_wrapped e \<and> (\<exists>f op. ug_Failure tk = Some f \<and> f \<noteq> '''' \<and> ug_FailedOperation tk = Some op)) \<and>
       ug_Requests tk = rev (newRequestList t0 (genv_events env)) \<and>
       ug_HTTPResponseStatus tk = (let reqs = newRequestList t0 (genv_events env)
          in if reqs = [] then 0 else resp_Code (http_Response (last reqs)))"
proof (cases "getter_get env c target")
  case None
  then show ?thesis
    by (auto simp: getter_Get_def getter_get_def Runner_Run_def httpGet_def Let_def split: prod.splits sum.splits if_splits)
next
  case (Some res)
  obtain tk err where res: "res = (tk, err)" by (cases res)
  have zero: "ug_Requests tk = []" "ug_HTTPResponseStatus tk = 0"
    using Some res
    by (auto simp: getter_get_def start_tunnel_def ug_TestKeys_zero_def Let_def split: prod.splits sum.splits if_splits option.splits)
  have reqs: "NewRequestList t0 (genv_events env) = rev (newRequestList t0 (genv_events env))" by (simp add: NewRequestList_def)
  show ?thesis
  proof (cases err)
    case None
    with Some res zero reqs show ?thesis
      by (cases "newRequestList t0 (genv_events env)" rule: rev_cases)
        (simp_all add: getter_Get_def tracex_NewFailure_def NewFailureStr_def ToFailure_def Let_def split: list.split)
  next
    case (Some e)
    let ?e = "wrap_error ClassifyGenericError TopLevelOperation e"
    obtain f where "tracex_NewFailure (Some ?e) = Some (Some f)" "f \<noteq> ''''"
      using tracex_NewFailure_wrapped [of ?e] by auto
    moreover obtain op where "NewFailedOperation (Some ?e) = Some op"
      by (cases "NewFailedOperation (Some ?e)") auto
    ultimately show ?thesis
      using Some \<open>getter_get env c target = Some res\<close> res zero reqs
      by (cases "newRequestList t0 (genv_events env)" rule: rev_cases)
        (simp_all add: getter_Get_def top_level_wrapper Let_def split: list.split)
  qed
qed

text \<open>
  A domain with an internationalized label cannot be put into the DNS cache: the getter then fails before it touches the
  network, whatever the network would do.
\<close>

lemma getter_refuses_punycode:
  assumes "cfg_Tunnel c = ''''" and "cfg_DNSCache c = a @ ''--'' @ b @ '' '' @ addrs" and "CHR '' '' \<notin> set a" and "CHR '' '' \<notin> set b"
  shows "\<exists>tk. getter_get env c target = Some (tk, Some (new_error ''invalid domain in DNSCache''))"
proof -
  have nosep: "split_byte (CHR '' '') s = [s]" if "CHR '' '' \<notin> set s" for s using that by (induction s) auto
  have "split_byte (CHR '' '') (cfg_DNSCache c) = (a @ ''--'' @ b) # split_byte (CHR '' '') addrs"
    using split_byte_at [of "CHR '' ''" "a @ ''--'' @ b" addrs] nosep [of "a @ ''--'' @ b"] assms(2-4) by simp
  moreover have "split_byte (CHR '' '') addrs \<noteq> []" by simp
  ultimately have "fill_dns_cache (cfg_DNSCache c) = Inl (new_error ''invalid domain in DNSCache'')"
    using domainregex_punycode [of a b] assms(2) by (cases "split_byte (CHR '' '') addrs") (auto simp: fill_dns_cache_def Let_def)
  with assms(1) show ?thesis by (simp add: getter_get_def start_tunnel_def NewConfiguration_def Let_def)
qed

end
