(* ===== verification/Messaging.thy ===== *)
theory Messaging
  imports Urlgetter GoSort
begin

text \<open>
  The experiments that measure messaging services with the parallel runner: \<open>internal/experiment/telegram\<close>,
  \<open>internal/experiment/whatsapp\<close>, \<open>internal/experiment/fbmessenger\<close> and \<open>internal/experiment/signal\<close>. Each has a list
  of inputs, an update of its test keys by one output and a summary. The runner hands the outputs out in any
  order, so the theorems describe the published verdict by the result that was measured for each target: a
  verdict that depended on the order would have no such description.
\<close>

section \<open>Shared by the experiments\<close>

text \<open>The entries that every update appends.\<close>

definition append_keys :: "ug_TestKeys \<Rightarrow> ug_TestKeys \<Rightarrow> ug_TestKeys" where
  "append_keys tk v =
     tk\<lparr>ug_NetworkEvents := ug_NetworkEvents tk @ ug_NetworkEvents v, ug_Queries := ug_Queries tk @ ug_Queries v,
        ug_Requests := ug_Requests tk @ ug_Requests v, ug_TCPConnect := ug_TCPConnect tk @ ug_TCPConnect v,
        ug_TLSHandshakes := ug_TLSHandshakes tk @ ug_TLSHandshakes v\<rparr>"

abbreviation failed :: "multi_output \<Rightarrow> bool" where
  "failed v \<equiv> ug_Failure (mo_TestKeys v) \<noteq> None"

abbreviation target :: "multi_output \<Rightarrow> string" where
  "target v \<equiv> mi_Target (mo_Input v)"

text \<open>The test keys that were measured for a target.\<close>

definition result :: "multi_output list \<Rightarrow> string \<Rightarrow> ug_TestKeys" where
  "result outs t = (case find (\<lambda>v. target v = t) outs of Some v \<Rightarrow> mo_TestKeys v | None \<Rightarrow> ug_TestKeys_zero)"

lemma result_of_output:
  assumes "multi_Collect outcome parallelism inputs outs" and "distinct (map mi_Target inputs)" and "v \<in> set outs"
  shows "result outs (target v) = mo_TestKeys v"
proof -
  obtain w where w: "find (\<lambda>u. target u = target v) outs = Some w"
    using assms(3) by (cases "find (\<lambda>u. target u = target v) outs") (auto simp: find_None_iff)
  then have "w \<in> set outs" "target w = target v" by (auto simp: find_Some_iff)
  then have "w = v" using multi.collected_unique [OF assms(1,2)] assms(3) by blast
  with w show ?thesis by (simp add: result_def)
qed

lemma ball_outputs:
  assumes "multi_Collect outcome parallelism inputs outs" and "distinct (map mi_Target inputs)"
  shows "(\<forall>v \<in> set outs. P (mo_Input v) (mo_TestKeys v)) \<longleftrightarrow> (\<forall>x \<in> set inputs. P x (result outs (mi_Target x)))"
  using multi.collected_input [OF assms(1)] multi.collected_output [OF assms(1)] result_of_output [OF assms]
  by metis

lemma fold_flag:
  assumes "\<And>v tk. f (update v tk) \<longleftrightarrow> f tk \<or> P v"
  shows "f (fold update vs tk) \<longleftrightarrow> f tk \<or> (\<exists>v \<in> set vs. P v)"
  by (induction vs arbitrary: tk) (auto simp: assms)

section \<open>Telegram\<close>

record telegram_TestKeys =
  tg_TestKeys :: ug_TestKeys
  TelegramHTTPBlocking :: bool
  TelegramTCPBlocking :: bool
  TelegramWebFailure :: "string option"
  TelegramWebStatus :: string

definition telegram_NewTestKeys :: telegram_TestKeys where
  "telegram_NewTestKeys = \<lparr>tg_TestKeys = ug_TestKeys_zero, TelegramHTTPBlocking = True, TelegramTCPBlocking = True,
     TelegramWebFailure = None, TelegramWebStatus = ''ok''\<rparr>"

definition telegram_Update :: "multi_output \<Rightarrow> telegram_TestKeys \<Rightarrow> telegram_TestKeys" where
  "telegram_Update v tk =
     (let keys = mo_TestKeys v; tk = tk\<lparr>tg_TestKeys := append_keys (tg_TestKeys tk) keys\<rparr>
      in if cfg_Method (mi_Config (mo_Input v)) \<noteq> ''GET''
         then if ug_Failure keys = None then tk\<lparr>TelegramHTTPBlocking := False, TelegramTCPBlocking := False\<rparr>
              else if ug_FailedOperation keys = None \<or> ug_FailedOperation keys \<noteq> Some ConnectOperation
              then tk\<lparr>TelegramTCPBlocking := False\<rparr>
              else tk
         else if ug_Failure keys \<noteq> None
         then tk\<lparr>TelegramWebStatus := ''blocked'', TelegramWebFailure := ug_Failure keys\<rparr>
         else tk)"

definition DatacenterIPAddrs :: "string list" where
  "DatacenterIPAddrs = [''149.154.175.50'', ''149.154.167.51'', ''149.154.175.100'', ''149.154.167.91'', ''149.154.171.5'',
     ''95.161.76.100'']"

definition telegram_inputs :: "multi_input list" where
  "telegram_inputs =
     \<lparr>mi_Config = ug_Config_zero\<lparr>cfg_Method := ''GET''\<rparr>, mi_Target = ''https://web.telegram.org/''\<rparr> #
     concat (map (\<lambda>dc.
       [\<lparr>mi_Config = ug_Config_zero\<lparr>cfg_Method := ''POST''\<rparr>, mi_Target = ''http://'' @ dc @ ''/''\<rparr>,
        \<lparr>mi_Config = ug_Config_zero\<lparr>cfg_Method := ''POST''\<rparr>, mi_Target = ''http://'' @ dc @ '':443/''\<rparr>]) DatacenterIPAddrs)"

text \<open>\<open>Run\<close>, for the outputs that the runner hands out.\<close>

definition telegram_Run :: "multi_output list \<Rightarrow> telegram_TestKeys" where
  "telegram_Run outputs =
     fold telegram_Update outputs (telegram_NewTestKeys\<lparr>tg_TestKeys := ug_TestKeys_zero\<lparr>ug_Agent := ''redirect''\<rparr>\<rparr>)"

record telegram_SummaryKeys =
  tgs_HTTPBlocking :: bool
  tgs_TCPBlocking :: bool
  tgs_WebBlocking :: bool
  tgs_IsAnomaly :: bool

definition telegram_MeasurementSummaryKeys :: "telegram_TestKeys \<Rightarrow> telegram_SummaryKeys" where
  "telegram_MeasurementSummaryKeys tk =
     (let tcpBlocking = TelegramTCPBlocking tk; httpBlocking = TelegramHTTPBlocking tk; webBlocking = (TelegramWebFailure tk \<noteq> None)
      in \<lparr>tgs_HTTPBlocking = httpBlocking, tgs_TCPBlocking = tcpBlocking, tgs_WebBlocking = webBlocking,
          tgs_IsAnomaly = (webBlocking \<or> httpBlocking \<or> tcpBlocking)\<rparr>)"

section \<open>WhatsApp\<close>

definition RegistrationServiceURL :: string where
  "RegistrationServiceURL = ''https://v.whatsapp.net/v2/register''"

definition WebHTTPSURL :: string where
  "WebHTTPSURL = ''https://web.whatsapp.com/''"

text \<open>The expression \<open>^tcpconnect://e[0-9]{1,2}\.whatsapp\.net:[0-9]{3,5}$\<close>.\<close>

definition endpointPattern :: re where
  "endpointPattern = Seq Bol (Seq (lit ''tcpconnect://e'') (Seq (rep 1 1 (Cls digits)) (Seq (lit ''.whatsapp.net:'')
     (Seq (rep 3 2 (Cls digits)) Eol))))"

definition is_endpoint :: "string \<Rightarrow> bool" where
  "is_endpoint t \<longleftrightarrow> re_match endpointPattern (True, t) \<noteq> []"

text \<open>\<open>url.Parse(target).Hostname()\<close> for a target that matches the pattern.\<close>

definition endpoint_hostname :: "string \<Rightarrow> string" where
  "endpoint_hostname t = takeWhile (\<lambda>c. c \<noteq> CHR '':'') (drop (length ''tcpconnect://'') t)"

record whatsapp_TestKeys =
  wa_TestKeys :: ug_TestKeys
  RegistrationServerFailure :: "string option"
  RegistrationServerStatus :: string
  WhatsappEndpointsBlocked :: "string list"
  WhatsappEndpointsDNSInconsistent :: "string list"
  WhatsappEndpointsStatus :: string
  WhatsappWebFailure :: "string option"
  WhatsappWebStatus :: string
  WhatsappEndpointsCount :: "(string, int) gomap"
  WhatsappHTTPSFailure :: "string option"

definition whatsapp_NewTestKeys :: whatsapp_TestKeys where
  "whatsapp_NewTestKeys = \<lparr>wa_TestKeys = ug_TestKeys_zero,
     RegistrationServerFailure = Some ''unknown_failure'', RegistrationServerStatus = ''blocked'',
     WhatsappEndpointsBlocked = [], WhatsappEndpointsDNSInconsistent = [], WhatsappEndpointsStatus = ''blocked'',
     WhatsappWebFailure = Some ''unknown_failure'', WhatsappWebStatus = ''blocked'', WhatsappEndpointsCount = [],
     WhatsappHTTPSFailure = Some ''unknown_failure''\<rparr>"

definition whatsapp_count :: "whatsapp_TestKeys \<Rightarrow> string \<Rightarrow> int" where
  "whatsapp_count tk hostname = (case gmap_get (WhatsappEndpointsCount tk) hostname of Some n \<Rightarrow> n | None \<Rightarrow> 0)"

definition whatsapp_Update :: "multi_output \<Rightarrow> whatsapp_TestKeys \<Rightarrow> whatsapp_TestKeys" where
  "whatsapp_Update v tk =
     (let keys = mo_TestKeys v; tk = tk\<lparr>wa_TestKeys := append_keys (wa_TestKeys tk) keys\<rparr>
      in if is_endpoint (target v)
         then if ug_Failure keys \<noteq> None
              then let hostname = endpoint_hostname (target v);
                       tk = tk\<lparr>WhatsappEndpointsCount :=
                              AList.update hostname (wrap64 (whatsapp_count tk hostname + 1)) (WhatsappEndpointsCount tk)\<rparr>
                   in if whatsapp_count tk hostname \<ge> 2
                      then tk\<lparr>WhatsappEndpointsBlocked := WhatsappEndpointsBlocked tk @ [hostname]\<rparr>
                      else tk
              else tk\<lparr>WhatsappEndpointsStatus := ''ok''\<rparr>
         else if target v = RegistrationServiceURL
         then let tk = tk\<lparr>RegistrationServerFailure := ug_Failure keys\<rparr>
              in if ug_Failure keys = None then tk\<lparr>RegistrationServerStatus := ''ok''\<rparr> else tk
         else tk\<lparr>WhatsappHTTPSFailure := ug_Failure keys\<rparr>)"

definition ComputeWebStatus :: "whatsapp_TestKeys \<Rightarrow> whatsapp_TestKeys" where
  "ComputeWebStatus tk =
     (if WhatsappHTTPSFailure tk = None then tk\<lparr>WhatsappWebFailure := None, WhatsappWebStatus := ''ok''\<rparr>
      else tk\<lparr>WhatsappWebStatus := ''blocked'', WhatsappWebFailure := WhatsappHTTPSFailure tk\<rparr>)"

definition whatsapp_all_inputs :: "multi_input list" where
  "whatsapp_all_inputs =
     concat (map (\<lambda>idx. map (\<lambda>port. \<lparr>mi_Config = ug_Config_zero,
         mi_Target = ''tcpconnect://e'' @ itoa idx @ ''.whatsapp.net:'' @ port\<rparr>) [''443'', ''5222'']) [1 .. 16]) @
     [\<lparr>mi_Config = ug_Config_zero, mi_Target = RegistrationServiceURL\<rparr>, \<lparr>mi_Config = ug_Config_zero, mi_Target = WebHTTPSURL\<rparr>]"

definition whatsapp_inputs :: "(nat \<Rightarrow> nat) \<Rightarrow> multi_input list" where
  "whatsapp_inputs rnd = rand_Shuffle rnd (length whatsapp_all_inputs - 1) whatsapp_all_inputs"

definition whatsapp_Run :: "multi_output list \<Rightarrow> whatsapp_TestKeys" where
  "whatsapp_Run outputs = ComputeWebStatus (fold whatsapp_Update outputs
     (whatsapp_NewTestKeys\<lparr>wa_TestKeys := ug_TestKeys_zero\<lparr>ug_Agent := ''redirect''\<rparr>\<rparr>))"

record whatsapp_SummaryKeys =
  was_RegistrationServerBlocking :: bool
  was_WebBlocking :: bool
  was_EndpointsBlocking :: bool
  was_IsAnomaly :: bool

definition whatsapp_MeasurementSummaryKeys :: "whatsapp_TestKeys \<Rightarrow> whatsapp_SummaryKeys" where
  "whatsapp_MeasurementSummaryKeys tk =
     (let registration = (RegistrationServerStatus tk = ''blocked''); web = (WhatsappWebStatus tk = ''blocked'');
          endpoints = (WhatsappEndpointsStatus tk = ''blocked'')
      in \<lparr>was_RegistrationServerBlocking = registration, was_WebBlocking = web, was_EndpointsBlocking = endpoints,
          was_IsAnomaly = (registration \<or> web \<or> endpoints)\<rparr>)"

section \<open>Facebook Messenger\<close>

definition ServiceSTUN :: string where "ServiceSTUN = ''dnslookup://stun.fbsbx.com''"
definition ServiceBAPI :: string where "ServiceBAPI = ''tcpconnect://b-api.facebook.com:443''"
definition ServiceBGraph :: string where "ServiceBGraph = ''tcpconnect://b-graph.facebook.com:443''"
definition ServiceEdge :: string where "ServiceEdge = ''tcpconnect://edge-mqtt.facebook.com:443''"
definition ServiceExternalCDN :: string where "ServiceExternalCDN = ''tcpconnect://external.xx.fbcdn.net:443''"
definition ServiceScontentCDN :: string where "ServiceScontentCDN = ''tcpconnect://scontent.xx.fbcdn.net:443''"
definition ServiceStar :: string where "ServiceStar = ''tcpconnect://star.c10r.facebook.com:443''"

lemmas service_defs = ServiceSTUN_def ServiceBAPI_def ServiceBGraph_def ServiceEdge_def ServiceExternalCDN_def
  ServiceScontentCDN_def ServiceStar_def

definition Services :: "string list" where
  "Services = [ServiceSTUN, ServiceBAPI, ServiceBGraph, ServiceEdge, ServiceExternalCDN, ServiceScontentCDN, ServiceStar]"

definition FacebookASN :: int where
  "FacebookASN = 32934"

record facebook_TestKeys =
  fb_TestKeys :: ug_TestKeys
  FacebookBAPIDNSConsistent :: "bool option"
  FacebookBAPIReachable :: "bool option"
  FacebookBGraphDNSConsistent :: "bool option"
  FacebookBGraphReachable :: "bool option"
  FacebookEdgeDNSConsistent :: "bool option"
  FacebookEdgeReachable :: "bool option"
  FacebookExternalCDNDNSConsistent :: "bool option"
  FacebookExternalCDNReachable :: "bool option"
  FacebookScontentCDNDNSConsistent :: "bool option"
  FacebookScontentCDNReachable :: "bool option"
  FacebookStarDNSConsistent :: "bool option"
  FacebookStarReachable :: "bool option"
  FacebookSTUNDNSConsistent :: "bool option"
  FacebookSTUNReachable :: "bool option"
  FacebookDNSBlocking :: "bool option"
  FacebookTCPBlocking :: "bool option"

text \<open>
  \<open>ComputeEndpointStatus\<close> writes through two pointers to fields; here it returns the two values and the caller
  assigns them.
\<close>

definition ComputeEndpointStatus ::
    "multi_output \<Rightarrow> facebook_TestKeys \<Rightarrow> facebook_TestKeys \<times> bool option \<times> bool option" where
  "ComputeEndpointStatus v tk =
     (let keys = mo_TestKeys v
      in if ug_FailedOperation keys = Some ResolveOperation then (tk\<lparr>FacebookDNSBlocking := Some True\<rparr>, Some False, None)
         else if list_ex (\<lambda>query. list_ex (\<lambda>ans. ans_ASN ans \<noteq> FacebookASN) (dns_Answers query)) (ug_Queries keys)
         then (tk\<lparr>FacebookDNSBlocking := Some True\<rparr>, Some False, None)
         else if ug_FailedOperation keys = Some ConnectOperation
         then (tk\<lparr>FacebookTCPBlocking := Some True\<rparr>, Some True, Some False)
         else (tk, Some True, Some True))"

definition facebook_Update :: "multi_output \<Rightarrow> facebook_TestKeys \<Rightarrow> facebook_TestKeys" where
  "facebook_Update v tk =
     (let tk = tk\<lparr>fb_TestKeys := append_keys (fb_TestKeys tk) (mo_TestKeys v)\<rparr>;
          (tk', dns, tcp) = ComputeEndpointStatus v tk
      in if target v = ServiceSTUN then tk'\<lparr>FacebookSTUNDNSConsistent := dns\<rparr>
         else if target v = ServiceBAPI then tk'\<lparr>FacebookBAPIDNSConsistent := dns, FacebookBAPIReachable := tcp\<rparr>
         else if target v = ServiceBGraph then tk'\<lparr>FacebookBGraphDNSConsistent := dns, FacebookBGraphReachable := tcp\<rparr>
         else if target v = ServiceEdge then tk'\<lparr>FacebookEdgeDNSConsistent := dns, FacebookEdgeReachable := tcp\<rparr>
         else if target v = ServiceExternalCDN
         then tk'\<lparr>FacebookExternalCDNDNSConsistent := dns, FacebookExternalCDNReachable := tcp\<rparr>
         else if target v = ServiceScontentCDN
         then tk'\<lparr>FacebookScontentCDNDNSConsistent := dns, FacebookScontentCDNReachable := tcp\<rparr>
         else if target v = ServiceStar then tk'\<lparr>FacebookStarDNSConsistent := dns, FacebookStarReachable := tcp\<rparr>
         else tk)"

definition facebook_inputs :: "(nat \<Rightarrow> nat) \<Rightarrow> multi_input list" where
  "facebook_inputs rnd = rand_Shuffle rnd (length Services - 1)
     (map (\<lambda>service. \<lparr>mi_Config = ug_Config_zero, mi_Target = service\<rparr>) Services)"

definition facebook_zero :: facebook_TestKeys where
  "facebook_zero = \<lparr>fb_TestKeys = ug_TestKeys_zero, FacebookBAPIDNSConsistent = None, FacebookBAPIReachable = None,
     FacebookBGraphDNSConsistent = None, FacebookBGraphReachable = None, FacebookEdgeDNSConsistent = None,
     FacebookEdgeReachable = None, FacebookExternalCDNDNSConsistent = None, FacebookExternalCDNReachable = None,
     FacebookScontentCDNDNSConsistent = None, FacebookScontentCDNReachable = None, FacebookStarDNSConsistent = None,
     FacebookStarReachable = None, FacebookSTUNDNSConsistent = None, FacebookSTUNReachable = None,
     FacebookDNSBlocking = None, FacebookTCPBlocking = None\<rparr>"

definition facebook_Run :: "multi_output list \<Rightarrow> facebook_TestKeys" where
  "facebook_Run outputs =
     (let tk = fold facebook_Update outputs (facebook_zero\<lparr>fb_TestKeys := ug_TestKeys_zero\<lparr>ug_Agent := ''redirect''\<rparr>\<rparr>);
          tk = (if FacebookDNSBlocking tk = None then tk\<lparr>FacebookDNSBlocking := Some False\<rparr> else tk)
      in if FacebookTCPBlocking tk = None then tk\<lparr>FacebookTCPBlocking := Some False\<rparr> else tk)"

record facebook_SummaryKeys =
  fbs_DNSBlocking :: bool
  fbs_TCPBlocking :: bool
  fbs_IsAnomaly :: bool

definition facebook_MeasurementSummaryKeys :: "facebook_TestKeys \<Rightarrow> facebook_SummaryKeys" where
  "facebook_MeasurementSummaryKeys tk =
     (let dnsBlocking = (FacebookDNSBlocking tk = Some True); tcpBlocking = (FacebookTCPBlocking tk = Some True)
      in \<lparr>fbs_DNSBlocking = dnsBlocking, fbs_TCPBlocking = tcpBlocking, fbs_IsAnomaly = (dnsBlocking \<or> tcpBlocking)\<rparr>)"

section \<open>Signal\<close>

record signal_TestKeys =
  sg_TestKeys :: ug_TestKeys
  SignalBackendStatus :: string
  SignalBackendFailure :: "string option"

definition signal_NewTestKeys :: signal_TestKeys where
  "signal_NewTestKeys = \<lparr>sg_TestKeys = ug_TestKeys_zero, SignalBackendStatus = ''ok'', SignalBackendFailure = None\<rparr>"

definition signal_Update :: "multi_output \<Rightarrow> signal_TestKeys \<Rightarrow> signal_TestKeys" where
  "signal_Update v tk =
     (let keys = mo_TestKeys v; tk = tk\<lparr>sg_TestKeys := append_keys (sg_TestKeys tk) keys\<rparr>
      in if target v = ''dnslookup://uptime.signal.org'' then tk
         else if ug_Failure keys \<noteq> None
         then tk\<lparr>SignalBackendStatus := ''blocked'', SignalBackendFailure := ug_Failure keys\<rparr>
         else tk)"

definition signal_services :: "string list" where
  "signal_services = [''https://cdsi.signal.org/'', ''https://chat.signal.org/'', ''https://sfu.voip.signal.org/'',
     ''https://storage.signal.org/'']"

definition signal_inputs :: "string list \<Rightarrow> multi_input list" where
  "signal_inputs certPool =
     map (\<lambda>t. \<lparr>mi_Config = ug_Config_zero\<lparr>cfg_Method := ''GET'', cfg_FailOnHTTPError := False, cfg_CertPool := Some certPool\<rparr>,
                mi_Target = t\<rparr>) signal_services @
     [\<lparr>mi_Config = ug_Config_zero, mi_Target = ''dnslookup://uptime.signal.org''\<rparr>]"

text \<open>
  The certificate pool that the run uses: \<open>mozilla\<close> is the built-in pool, \<open>append_pem\<close> is \<open>AppendCertsFromPEM\<close>, and
  \<open>builtin\<close> has the two certificates of Signal.
\<close>

definition signal_certPool ::
    "(string list \<Rightarrow> string \<Rightarrow> string list option) \<Rightarrow> string list \<Rightarrow> string list \<Rightarrow> string \<Rightarrow> go_error + string list" where
  "signal_certPool append_pem mozilla builtin signalCA =
     (case for_each (\<lambda>ca pool. append_pem pool ca) (if signalCA \<noteq> '''' then [signalCA] else builtin) mozilla of
        None \<Rightarrow> Inl (new_error ''AppendCertsFromPEM failed'')
      | Some pool \<Rightarrow> Inr pool)"

definition signal_Run :: "multi_output list \<Rightarrow> signal_TestKeys" where
  "signal_Run outputs =
     fold signal_Update outputs (signal_NewTestKeys\<lparr>sg_TestKeys := ug_TestKeys_zero\<lparr>ug_Agent := ''redirect''\<rparr>\<rparr>)"

record signal_SummaryKeys =
  sgs_SignalBackendStatus :: string
  sgs_SignalBackendFailure :: "string option"
  sgs_IsAnomaly :: bool

definition signal_MeasurementSummaryKeys :: "signal_TestKeys \<Rightarrow> signal_SummaryKeys" where
  "signal_MeasurementSummaryKeys tk =
     \<lparr>sgs_SignalBackendStatus = SignalBackendStatus tk, sgs_SignalBackendFailure = SignalBackendFailure tk,
      sgs_IsAnomaly = (SignalBackendStatus tk = ''blocked'')\<rparr>"

section \<open>Verdicts\<close>

subsection \<open>Telegram\<close>

lemma telegram_Update_fields [simp]:
  "TelegramHTTPBlocking (telegram_Update v tk) \<longleftrightarrow>
     TelegramHTTPBlocking tk \<and> (cfg_Method (mi_Config (mo_Input v)) = ''GET'' \<or> failed v)"
  "TelegramTCPBlocking (telegram_Update v tk) \<longleftrightarrow> TelegramTCPBlocking tk \<and>
     (cfg_Method (mi_Config (mo_Input v)) = ''GET'' \<or> failed v \<and> ug_FailedOperation (mo_TestKeys v) = Some ConnectOperation)"
  "TelegramWebFailure (telegram_Update v tk) =
     (if cfg_Method (mi_Config (mo_Input v)) = ''GET'' \<and> failed v then ug_Failure (mo_TestKeys v) else TelegramWebFailure tk)"
  "TelegramWebStatus (telegram_Update v tk) =
     (if cfg_Method (mi_Config (mo_Input v)) = ''GET'' \<and> failed v then ''blocked'' else TelegramWebStatus tk)"
  by (auto simp: telegram_Update_def Let_def)

definition telegram_access_points :: "string list" where
  "telegram_access_points = concat (map (\<lambda>dc. [''http://'' @ dc @ ''/'', ''http://'' @ dc @ '':443/'']) DatacenterIPAddrs)"

lemma telegram_inputs_eq:
  "telegram_inputs = \<lparr>mi_Config = ug_Config_zero\<lparr>cfg_Method := ''GET''\<rparr>, mi_Target = ''https://web.telegram.org/''\<rparr> #
     map (\<lambda>t. \<lparr>mi_Config = ug_Config_zero\<lparr>cfg_Method := ''POST''\<rparr>, mi_Target = t\<rparr>) telegram_access_points"
  by (simp add: telegram_inputs_def telegram_access_points_def DatacenterIPAddrs_def)

lemma telegram_inputs_distinct: "distinct (map mi_Target telegram_inputs)"
  by (simp add: telegram_inputs_eq telegram_access_points_def DatacenterIPAddrs_def)

lemma telegram_fold:
  "TelegramHTTPBlocking (fold telegram_Update vs tk) \<longleftrightarrow> TelegramHTTPBlocking tk \<and>
     (\<forall>v \<in> set vs. cfg_Method (mi_Config (mo_Input v)) = ''GET'' \<or> failed v)"
  "TelegramTCPBlocking (fold telegram_Update vs tk) \<longleftrightarrow> TelegramTCPBlocking tk \<and>
     (\<forall>v \<in> set vs. cfg_Method (mi_Config (mo_Input v)) = ''GET'' \<or>
        failed v \<and> ug_FailedOperation (mo_TestKeys v) = Some ConnectOperation)"
  by (induction vs arbitrary: tk) auto

lemma telegram_fold_web:
  assumes "\<forall>v \<in> set vs. cfg_Method (mi_Config (mo_Input v)) = ''GET'' \<longrightarrow> ug_Failure (mo_TestKeys v) = f"
  shows "TelegramWebFailure (fold telegram_Update vs tk) =
      (if \<exists>v \<in> set vs. cfg_Method (mi_Config (mo_Input v)) = ''GET'' \<and> failed v then f else TelegramWebFailure tk)"
    and "TelegramWebStatus (fold telegram_Update vs tk) =
      (if \<exists>v \<in> set vs. cfg_Method (mi_Config (mo_Input v)) = ''GET'' \<and> failed v then ''blocked'' else TelegramWebStatus tk)"
  using assms by (induction vs arbitrary: tk) auto

text \<open>
  The verdict of the Telegram experiment, for every interleaving of its measurements. HTTP is reported as blocked when every
  one of the twelve access points failed, TCP when every one of them failed to connect, and the web interface with
  the failure of its own measurement; the measurement is an anomaly when one of the three is.
\<close>

theorem telegram_verdict:
  assumes "multi_Collect outcome parallelism telegram_inputs outs"
  defines "web \<equiv> ug_Failure (result outs ''https://web.telegram.org/'')"
  shows "(TelegramHTTPBlocking (telegram_Run outs) \<longleftrightarrow> (\<forall>t \<in> set telegram_access_points. ug_Failure (result outs t) \<noteq> None)) \<and>
    (TelegramTCPBlocking (telegram_Run outs) \<longleftrightarrow> (\<forall>t \<in> set telegram_access_points.
       ug_Failure (result outs t) \<noteq> None \<and> ug_FailedOperation (result outs t) = Some ConnectOperation)) \<and>
    TelegramWebFailure (telegram_Run outs) = web \<and>
    TelegramWebStatus (telegram_Run outs) = (if web = None then ''ok'' else ''blocked'') \<and>
    tgs_IsAnomaly (telegram_MeasurementSummaryKeys (telegram_Run outs)) =
      (web \<noteq> None \<or> (\<forall>t \<in> set telegram_access_points. ug_Failure (result outs t) \<noteq> None))"
proof -
  note transfer = ball_outputs [OF assms(1) telegram_inputs_distinct]
  have get: "\<forall>v \<in> set outs. cfg_Method (mi_Config (mo_Input v)) = ''GET'' \<longrightarrow> ug_Failure (mo_TestKeys v) = web"
    unfolding transfer [of "\<lambda>x keys. cfg_Method (mi_Config x) = ''GET'' \<longrightarrow> ug_Failure keys = web"]
    by (simp add: telegram_inputs_eq web_def)
  have "(\<exists>v \<in> set outs. cfg_Method (mi_Config (mo_Input v)) = ''GET'' \<and> failed v) \<longleftrightarrow> web \<noteq> None"
    using transfer [of "\<lambda>x keys. \<not> (cfg_Method (mi_Config x) = ''GET'' \<and> ug_Failure keys \<noteq> None)"]
    by (auto simp: telegram_inputs_eq web_def)
  note web' = telegram_fold_web [OF get, unfolded this]
  have http: "TelegramHTTPBlocking (telegram_Run outs) \<longleftrightarrow> (\<forall>t \<in> set telegram_access_points. ug_Failure (result outs t) \<noteq> None)"
    unfolding telegram_Run_def telegram_fold
      transfer [of "\<lambda>x keys. cfg_Method (mi_Config x) = ''GET'' \<or> ug_Failure keys \<noteq> None"]
    by (simp add: telegram_inputs_eq telegram_NewTestKeys_def)
  moreover have tcp: "TelegramTCPBlocking (telegram_Run outs) \<longleftrightarrow> (\<forall>t \<in> set telegram_access_points.
       ug_Failure (result outs t) \<noteq> None \<and> ug_FailedOperation (result outs t) = Some ConnectOperation)"
    unfolding telegram_Run_def telegram_fold
      transfer [of "\<lambda>x keys. cfg_Method (mi_Config x) = ''GET'' \<or> ug_Failure keys \<noteq> None \<and> ug_FailedOperation keys = Some ConnectOperation"]
    by (simp add: telegram_inputs_eq telegram_NewTestKeys_def)
  moreover have "TelegramWebFailure (telegram_Run outs) = web"
    "TelegramWebStatus (telegram_Run outs) = (if web = None then ''ok'' else ''blocked'')"
    by (auto simp: telegram_Run_def web' telegram_NewTestKeys_def)
  ultimately show ?thesis by (auto simp: telegram_MeasurementSummaryKeys_def Let_def)
qed

text \<open>Results for a witness: every measurement fails to connect except those of the targets in the list.\<close>

definition sample_keys :: "string list \<Rightarrow> multi_input \<Rightarrow> ug_TestKeys" where
  "sample_keys good x = (if mi_Target x \<in> set good then ug_TestKeys_zero
     else ug_TestKeys_zero\<lparr>ug_Failure := Some FailureConnectionRefused, ug_FailedOperation := Some ConnectOperation\<rparr>)"

abbreviation sample_collect :: "string list \<Rightarrow> multi_input list \<Rightarrow> bool" where
  "sample_collect good inputs \<equiv>
     multi_Collect (\<lambda>x r. r = (sample_keys good x, None)) 0 inputs (outputs_of (sample_keys good) inputs)"

lemma sample_collect: "sample_collect good inputs"
  by (rule sequential_collect) simp

lemma result_outputs_of:
  assumes "distinct (map mi_Target inputs)" and "x \<in> set inputs"
  shows "result (outputs_of (sample_keys good) inputs) (mi_Target x) = sample_keys good x"
proof -
  have "\<lparr>mo_Input = x, mo_Err = None, mo_TestKeys = sample_keys good x\<rparr> \<in> set (outputs_of (sample_keys good) inputs)"
    using assms(2) by (simp add: outputs_of_def)
  from result_of_output [OF sample_collect assms(1) this] show ?thesis by simp
qed

theorem telegram_verdict_witness:
  "TelegramTCPBlocking (telegram_Run (outputs_of (sample_keys [''https://web.telegram.org/'']) telegram_inputs)) \<and>
   TelegramWebStatus (telegram_Run (outputs_of (sample_keys [''https://web.telegram.org/'']) telegram_inputs)) = ''ok''"
proof -
  let ?outs = "outputs_of (sample_keys [''https://web.telegram.org/'']) telegram_inputs"
  note r = result_outputs_of [OF telegram_inputs_distinct, where good = "[''https://web.telegram.org/'']"]
  have "result ?outs ''https://web.telegram.org/'' = ug_TestKeys_zero"
    using r [of "hd telegram_inputs"] by (simp add: telegram_inputs_eq sample_keys_def)
  moreover have "ug_Failure (result ?outs t) = Some FailureConnectionRefused \<and> ug_FailedOperation (result ?outs t) = Some ConnectOperation"
    if "t \<in> set telegram_access_points" for t
  proof -
    have "t \<noteq> ''https://web.telegram.org/''" using that telegram_inputs_distinct by (auto simp: telegram_inputs_eq comp_def)
    with that r [of "\<lparr>mi_Config = ug_Config_zero\<lparr>cfg_Method := ''POST''\<rparr>, mi_Target = t\<rparr>"] show ?thesis
      by (simp add: telegram_inputs_eq sample_keys_def)
  qed
  ultimately show ?thesis
    using telegram_verdict [OF sample_collect [of "[''https://web.telegram.org/'']"]] by (simp add: ug_TestKeys_zero_def)
qed

subsection \<open>WhatsApp\<close>

text \<open>The outputs and the inputs with their results, as multisets.\<close>

lemma mset_outputs:
  assumes "multi_Collect outcome parallelism inputs outs" and "distinct (map mi_Target inputs)"
  shows "mset (map (\<lambda>v. (mo_Input v, mo_TestKeys v)) outs) = mset (map (\<lambda>x. (x, result outs (mi_Target x))) inputs)"
proof -
  have "map (\<lambda>v. (mo_Input v, mo_TestKeys v)) outs = map (\<lambda>x. (x, result outs (mi_Target x))) (map mo_Input outs)"
    using result_of_output [OF assms] by simp
  then show ?thesis using multi.one_output_each [OF assms(1)] by (simp only: mset_map)
qed

lemma length_filter_mset: "mset xs = mset ys \<Longrightarrow> length (filter P xs) = length (filter P ys)"
  by (metis mset_filter size_mset)

lemma count_outputs:
  assumes "multi_Collect outcome parallelism inputs outs" and "distinct (map mi_Target inputs)"
  shows "length (filter (\<lambda>v. P (mo_Input v) (mo_TestKeys v)) outs) = length (filter (\<lambda>x. P x (result outs (mi_Target x))) inputs)"
proof -
  have "length (filter (\<lambda>(x, keys). P x keys) (map (\<lambda>v. (mo_Input v, mo_TestKeys v)) outs)) =
      length (filter (\<lambda>(x, keys). P x keys) (map (\<lambda>x. (x, result outs (mi_Target x))) inputs))"
    by (rule length_filter_mset [OF mset_outputs [OF assms]])
  then show ?thesis by (simp add: filter_map comp_def)
qed

abbreviation fails_endpoint :: "string \<Rightarrow> multi_output \<Rightarrow> bool" where
  "fails_endpoint h v \<equiv> is_endpoint (target v) \<and> failed v \<and> endpoint_hostname (target v) = h"

lemma whatsapp_Update_count:
  "whatsapp_count (whatsapp_Update v tk) h = (if fails_endpoint h v then wrap64 (whatsapp_count tk h + 1) else whatsapp_count tk h)"
  by (simp add: whatsapp_Update_def whatsapp_count_def Let_def)

lemma whatsapp_Update_blocked:
  "WhatsappEndpointsBlocked (whatsapp_Update v tk) = WhatsappEndpointsBlocked tk @
     (let h = endpoint_hostname (target v)
      in if is_endpoint (target v) \<and> failed v \<and> 2 \<le> wrap64 (whatsapp_count tk h + 1) then [h] else [])"
  by (simp add: whatsapp_Update_def whatsapp_count_def Let_def)

lemma whatsapp_count_fold:
  assumes "int (length vs) < 2 ^ 63" and "WhatsappEndpointsCount tk = []" and "WhatsappEndpointsBlocked tk = []"
  shows "whatsapp_count (fold whatsapp_Update vs tk) h = int (length (filter (fails_endpoint h) vs)) \<and>
    count_list (WhatsappEndpointsBlocked (fold whatsapp_Update vs tk)) h = length (filter (fails_endpoint h) vs) - 1"
  using assms(1)
proof (induction vs arbitrary: h rule: rev_induct)
  case Nil
  then show ?case using assms(2,3) by (simp add: whatsapp_count_def)
next
  case (snoc v vs)
  let ?tk = "fold whatsapp_Update vs tk" and ?n = "\<lambda>h. length (filter (fails_endpoint h) vs)"
  have IH: "whatsapp_count ?tk h = int (?n h)" "count_list (WhatsappEndpointsBlocked ?tk) h = ?n h - 1" for h
    using snoc by auto
  have "int n + 1 < 2 ^ 63" if "n \<le> length vs" for n using that snoc.prems by simp
  then have "in_int64 (int (?n h) + 1)" using length_filter_le [of "fails_endpoint h" vs] unfolding in_int64_def by fastforce
  then have "wrap64 (int (?n h) + 1) = int (?n h) + 1" by (rule wrap64_id)
  with IH show ?case
    by (cases "fails_endpoint h v"; cases "?n h") (auto simp: whatsapp_Update_count whatsapp_Update_blocked Let_def)
qed

lemma fold_last:
  assumes "\<And>v tk. get (update v tk) = (if P v then g v else get tk)" and "\<forall>v \<in> set vs. P v \<longrightarrow> g v = c"
  shows "get (fold update vs tk) = (if \<exists>v \<in> set vs. P v then c else get tk)"
  using assms(2) by (induction vs arbitrary: tk) (auto simp: assms(1))

lemma whatsapp_Update_fields:
  "WhatsappEndpointsStatus (whatsapp_Update v tk) = (if is_endpoint (target v) \<and> \<not> failed v then ''ok'' else WhatsappEndpointsStatus tk)"
  "RegistrationServerFailure (whatsapp_Update v tk) =
     (if \<not> is_endpoint (target v) \<and> target v = RegistrationServiceURL then ug_Failure (mo_TestKeys v) else RegistrationServerFailure tk)"
  "RegistrationServerStatus (whatsapp_Update v tk) =
     (if \<not> is_endpoint (target v) \<and> target v = RegistrationServiceURL \<and> \<not> failed v then ''ok'' else RegistrationServerStatus tk)"
  "WhatsappHTTPSFailure (whatsapp_Update v tk) =
     (if \<not> is_endpoint (target v) \<and> target v \<noteq> RegistrationServiceURL then ug_Failure (mo_TestKeys v) else WhatsappHTTPSFailure tk)"
  by (auto simp: whatsapp_Update_def Let_def)

definition whatsapp_hosts :: "string list" where
  "whatsapp_hosts = map (\<lambda>i. ''e'' @ itoa i @ ''.whatsapp.net'') [1 .. 16]"

definition endpoint :: "string \<Rightarrow> string \<Rightarrow> string" where
  "endpoint h port = ''tcpconnect://'' @ h @ '':'' @ port"

lemma whatsapp_targets:
  "map mi_Target whatsapp_all_inputs =
     concat (map (\<lambda>h. [endpoint h ''443'', endpoint h ''5222'']) whatsapp_hosts) @ [RegistrationServiceURL, WebHTTPSURL]"
  by (simp add: whatsapp_all_inputs_def whatsapp_hosts_def endpoint_def comp_def map_concat)

lemma whatsapp_hosts_endpoints:
  "list_all (\<lambda>h. is_endpoint (endpoint h ''443'') \<and> is_endpoint (endpoint h ''5222'') \<and>
     endpoint_hostname (endpoint h ''443'') = h \<and> endpoint_hostname (endpoint h ''5222'') = h) whatsapp_hosts"
  by code_simp

lemma whatsapp_others: "\<not> is_endpoint RegistrationServiceURL" "\<not> is_endpoint WebHTTPSURL" "WebHTTPSURL \<noteq> RegistrationServiceURL"
  by code_simp+

lemma whatsapp_hosts_distinct: "distinct whatsapp_hosts"
  by code_simp

lemma whatsapp_fail_count:
  "length (filter (\<lambda>x. is_endpoint (mi_Target x) \<and> F (mi_Target x) \<and> endpoint_hostname (mi_Target x) = h) whatsapp_all_inputs) =
     (if h \<in> set whatsapp_hosts then of_bool (F (endpoint h ''443'')) + of_bool (F (endpoint h ''5222'')) else 0)"
proof -
  let ?Q = "\<lambda>t. is_endpoint t \<and> F t \<and> endpoint_hostname t = h"
  have sum: "length (filter ?Q (concat (map (\<lambda>h. [endpoint h ''443'', endpoint h ''5222'']) hs))) =
      (if h \<in> set hs then of_bool (F (endpoint h ''443'')) + of_bool (F (endpoint h ''5222'')) else 0)"
    if "distinct hs" and "list_all (\<lambda>h. is_endpoint (endpoint h ''443'') \<and> is_endpoint (endpoint h ''5222'') \<and>
      endpoint_hostname (endpoint h ''443'') = h \<and> endpoint_hostname (endpoint h ''5222'') = h) hs" for hs
    using that by (induction hs) auto
  have "length (filter (\<lambda>x. ?Q (mi_Target x)) whatsapp_all_inputs) = length (filter ?Q (map mi_Target whatsapp_all_inputs))"
    by (simp add: filter_map comp_def)
  then show ?thesis
    unfolding whatsapp_targets using sum [OF whatsapp_hosts_distinct whatsapp_hosts_endpoints] whatsapp_others by simp
qed

lemma whatsapp_inputs_mset: "mset (whatsapp_inputs rnd) = mset whatsapp_all_inputs"
  unfolding whatsapp_inputs_def by (rule mset_rand_Shuffle) (simp add: whatsapp_all_inputs_def)

lemma whatsapp_inputs_distinct: "distinct (map mi_Target (whatsapp_inputs rnd))"
proof -
  have "distinct (map mi_Target whatsapp_all_inputs)" by code_simp
  then show ?thesis using whatsapp_inputs_mset [of rnd] by (metis mset_eq_imp_distinct_iff mset_map)
qed

lemma whatsapp_inputs_ball:
  "(\<forall>x \<in> set (whatsapp_inputs rnd). P (mi_Target x)) \<longleftrightarrow>
     (\<forall>h \<in> set whatsapp_hosts. P (endpoint h ''443'') \<and> P (endpoint h ''5222'')) \<and> P RegistrationServiceURL \<and> P WebHTTPSURL"
proof -
  have "set (whatsapp_inputs rnd) = set whatsapp_all_inputs" using whatsapp_inputs_mset by (rule mset_eq_setD)
  then have "(\<forall>x \<in> set (whatsapp_inputs rnd). P (mi_Target x)) \<longleftrightarrow> (\<forall>t \<in> set (map mi_Target whatsapp_all_inputs). P t)" by simp
  also have "\<dots> \<longleftrightarrow> (\<forall>h \<in> set whatsapp_hosts. \<forall>t \<in> set [endpoint h ''443'', endpoint h ''5222'']. P t) \<and> P RegistrationServiceURL \<and> P WebHTTPSURL"
    unfolding whatsapp_targets by (simp only: set_append set_concat set_map ball_Un ball_UN image_image) simp
  finally show ?thesis by simp
qed

lemma whatsapp_outputs_ball:
  assumes "multi_Collect outcome parallelism (whatsapp_inputs rnd) outs"
  shows "(\<forall>v \<in> set outs. P (target v) (mo_TestKeys v)) \<longleftrightarrow>
    (\<forall>h \<in> set whatsapp_hosts. P (endpoint h ''443'') (result outs (endpoint h ''443'')) \<and>
      P (endpoint h ''5222'') (result outs (endpoint h ''5222''))) \<and>
    P RegistrationServiceURL (result outs RegistrationServiceURL) \<and> P WebHTTPSURL (result outs WebHTTPSURL)"
  using ball_outputs [OF assms whatsapp_inputs_distinct, of "\<lambda>x. P (mi_Target x)"]
    whatsapp_inputs_ball [of rnd "\<lambda>t. P t (result outs t)"] by blast

lemma whatsapp_failing_ports:
  assumes "multi_Collect outcome parallelism (whatsapp_inputs rnd) outs"
  shows "length (filter (fails_endpoint h) outs) = (if h \<in> set whatsapp_hosts
    then of_bool (ug_Failure (result outs (endpoint h ''443'')) \<noteq> None) + of_bool (ug_Failure (result outs (endpoint h ''5222'')) \<noteq> None)
    else 0)"
proof -
  let ?P = "\<lambda>x keys. is_endpoint (mi_Target x) \<and> ug_Failure keys \<noteq> None \<and> endpoint_hostname (mi_Target x) = h"
  have "length (filter (fails_endpoint h) outs) = length (filter (\<lambda>x. ?P x (result outs (mi_Target x))) (whatsapp_inputs rnd))"
    using count_outputs [OF assms whatsapp_inputs_distinct, of ?P] .
  also have "\<dots> = length (filter (\<lambda>x. ?P x (result outs (mi_Target x))) whatsapp_all_inputs)"
    by (rule length_filter_mset [OF whatsapp_inputs_mset])
  also note whatsapp_fail_count [of "\<lambda>t. ug_Failure (result outs t) \<noteq> None" h]
  finally show ?thesis .
qed

lemma whatsapp_blocked:
  assumes "multi_Collect outcome parallelism (whatsapp_inputs rnd) outs"
    and "WhatsappEndpointsCount tk = []" and "WhatsappEndpointsBlocked tk = []"
  defines "blocked \<equiv> WhatsappEndpointsBlocked (fold whatsapp_Update outs tk)"
  shows "distinct blocked \<and> set blocked = {h \<in> set whatsapp_hosts.
    ug_Failure (result outs (endpoint h ''443'')) \<noteq> None \<and> ug_Failure (result outs (endpoint h ''5222'')) \<noteq> None}"
proof -
  have "length outs = length whatsapp_all_inputs"
    using multi.one_output_each [OF assms(1), THEN mset_eq_length] whatsapp_inputs_mset [of rnd, THEN mset_eq_length] by simp
  moreover have "length whatsapp_all_inputs = 34" by code_simp
  ultimately have "int (length outs) < 2 ^ 63" by simp
  then have n: "count_list blocked h = of_bool (h \<in> set whatsapp_hosts \<and>
      ug_Failure (result outs (endpoint h ''443'')) \<noteq> None \<and> ug_Failure (result outs (endpoint h ''5222'')) \<noteq> None)" for h
    using whatsapp_count_fold [of outs tk h] whatsapp_failing_ports [OF assms(1), of h] assms(2,3) by (auto simp: blocked_def)
  have "distinct xs" if "\<forall>h. count_list xs h \<le> 1" for xs :: "string list"
    using that
  proof (induction xs)
    case (Cons x xs)
    then have "count_list xs x = 0" by (metis One_nat_def add_le_same_cancel2 count_list.simps(2) le_zero_eq Suc_eq_plus1)
    moreover have "\<forall>h. count_list xs h \<le> 1" using Cons.prems by (metis (full_types) count_list.simps(2) le_add1 order_trans)
    ultimately show ?case using Cons.IH by (simp add: count_list_0_iff)
  qed simp
  then have "distinct blocked" by (simp add: n)
  moreover have "h \<in> set blocked \<longleftrightarrow> count_list blocked h \<noteq> 0" for h by (simp add: count_list_0_iff)
  ultimately show ?thesis unfolding set_eq_iff n by simp
qed

text \<open>
  C36: The verdict of the WhatsApp experiment, for every order of the targets and every interleaving of their measurements. The
  endpoints are reported as blocked when all 32 of them failed; the list of blocked endpoints has exactly the hosts of
  which both ports failed, each once. The registration service and the web interface are reported with
  the failure of their own measurement, and the measurement is an anomaly when one of the three is blocked.
\<close>

theorem whatsapp_verdict:
  assumes "multi_Collect outcome parallelism (whatsapp_inputs rnd) outs"
  defines "failure \<equiv> \<lambda>t. ug_Failure (result outs t)" and "tk \<equiv> whatsapp_Run outs"
  defines "both \<equiv> \<lambda>h. failure (endpoint h ''443'') \<noteq> None \<and> failure (endpoint h ''5222'') \<noteq> None"
  shows "WhatsappEndpointsStatus tk = (if \<forall>h \<in> set whatsapp_hosts. both h then ''blocked'' else ''ok'') \<and>
    distinct (WhatsappEndpointsBlocked tk) \<and> set (WhatsappEndpointsBlocked tk) = {h \<in> set whatsapp_hosts. both h} \<and>
    RegistrationServerFailure tk = failure RegistrationServiceURL \<and>
    RegistrationServerStatus tk = (if failure RegistrationServiceURL = None then ''ok'' else ''blocked'') \<and>
    WhatsappWebFailure tk = failure WebHTTPSURL \<and> WhatsappWebStatus tk = (if failure WebHTTPSURL = None then ''ok'' else ''blocked'') \<and>
    (was_IsAnomaly (whatsapp_MeasurementSummaryKeys tk) \<longleftrightarrow>
      (\<forall>h \<in> set whatsapp_hosts. both h) \<or> failure RegistrationServiceURL \<noteq> None \<or> failure WebHTTPSURL \<noteq> None)"
proof -
  let ?start = "whatsapp_NewTestKeys\<lparr>wa_TestKeys := ug_TestKeys_zero\<lparr>ug_Agent := ''redirect''\<rparr>\<rparr>"
  let ?tk = "fold whatsapp_Update outs ?start"
  have run: "tk = ComputeWebStatus ?tk" by (simp add: tk_def whatsapp_Run_def)
  note all = whatsapp_outputs_ball [OF assms(1)] and facts = whatsapp_others whatsapp_hosts_endpoints [unfolded list_all_iff]
  have "(\<exists>v \<in> set outs. is_endpoint (target v) \<and> \<not> failed v) \<longleftrightarrow> \<not> (\<forall>h \<in> set whatsapp_hosts. both h)"
    using all [of "\<lambda>t keys. \<not> (is_endpoint t \<and> \<not> ug_Failure keys \<noteq> None)"] facts by (auto simp: both_def failure_def)
  then have "WhatsappEndpointsStatus ?tk = (if \<forall>h \<in> set whatsapp_hosts. both h then ''blocked'' else ''ok'')"
    using fold_last [of WhatsappEndpointsStatus whatsapp_Update, OF whatsapp_Update_fields(1), of outs "''ok''" ?start]
    by (simp add: whatsapp_NewTestKeys_def)
  moreover have "RegistrationServerFailure ?tk = failure RegistrationServiceURL"
    using fold_last [of RegistrationServerFailure whatsapp_Update, OF whatsapp_Update_fields(2), of outs "failure RegistrationServiceURL" ?start]
      all [of "\<lambda>t keys. \<not> is_endpoint t \<and> t = RegistrationServiceURL \<longrightarrow> ug_Failure keys = failure RegistrationServiceURL"]
      all [of "\<lambda>t keys. \<not> (\<not> is_endpoint t \<and> t = RegistrationServiceURL)"] facts
    by (auto simp: failure_def)
  moreover have "RegistrationServerStatus ?tk = (if failure RegistrationServiceURL = None then ''ok'' else ''blocked'')"
    using fold_last [of RegistrationServerStatus whatsapp_Update, OF whatsapp_Update_fields(3), of outs "''ok''" ?start]
      all [of "\<lambda>t keys. \<not> (\<not> is_endpoint t \<and> t = RegistrationServiceURL \<and> \<not> ug_Failure keys \<noteq> None)"] facts
    by (auto simp: failure_def whatsapp_NewTestKeys_def)
  moreover have "WhatsappHTTPSFailure ?tk = failure WebHTTPSURL"
    using fold_last [of WhatsappHTTPSFailure whatsapp_Update, OF whatsapp_Update_fields(4), of outs "failure WebHTTPSURL" ?start]
      all [of "\<lambda>t keys. \<not> is_endpoint t \<and> t \<noteq> RegistrationServiceURL \<longrightarrow> ug_Failure keys = failure WebHTTPSURL"]
      all [of "\<lambda>t keys. \<not> (\<not> is_endpoint t \<and> t \<noteq> RegistrationServiceURL)"] facts
    by (auto simp: failure_def)
  moreover have "distinct (WhatsappEndpointsBlocked ?tk)" "set (WhatsappEndpointsBlocked ?tk) = {h \<in> set whatsapp_hosts. both h}"
    using whatsapp_blocked [OF assms(1), of ?start] by (auto simp: whatsapp_NewTestKeys_def both_def failure_def)
  ultimately show ?thesis by (simp add: run ComputeWebStatus_def whatsapp_MeasurementSummaryKeys_def Let_def)
qed

theorem whatsapp_verdict_witness:
  "whatsapp_MeasurementSummaryKeys (whatsapp_Run (outputs_of (sample_keys [RegistrationServiceURL, WebHTTPSURL]) (whatsapp_inputs (\<lambda>_. 7)))) =
     \<lparr>was_RegistrationServerBlocking = False, was_WebBlocking = False, was_EndpointsBlocking = True, was_IsAnomaly = True\<rparr>"
proof -
  let ?good = "[RegistrationServiceURL, WebHTTPSURL]" and ?ins = "whatsapp_inputs (\<lambda>_. 7)"
  let ?outs = "outputs_of (sample_keys ?good) ?ins"
  have r: "\<forall>x \<in> set ?ins. ug_Failure (result ?outs (mi_Target x)) =
      (if mi_Target x \<in> set ?good then None else Some FailureConnectionRefused)"
    using result_outputs_of [OF whatsapp_inputs_distinct] by (simp add: sample_keys_def ug_TestKeys_zero_def)
  have "endpoint h p \<notin> set ?good" if "h \<in> set whatsapp_hosts" and "p = ''443'' \<or> p = ''5222''" for h p
    using whatsapp_hosts_endpoints that whatsapp_others(1,2) by (auto simp: list_all_iff)
  then have "\<forall>h \<in> set whatsapp_hosts. ug_Failure (result ?outs (endpoint h ''443'')) \<noteq> None \<and>
      ug_Failure (result ?outs (endpoint h ''5222'')) \<noteq> None"
    "ug_Failure (result ?outs RegistrationServiceURL) = None" "ug_Failure (result ?outs WebHTTPSURL) = None"
    using r [unfolded whatsapp_inputs_ball [of "\<lambda>_. 7" "\<lambda>t. ug_Failure (result ?outs t) =
      (if t \<in> set ?good then None else Some FailureConnectionRefused)"]] by auto
  then show ?thesis
    using whatsapp_verdict [OF sample_collect [of ?good ?ins]] by (simp add: whatsapp_MeasurementSummaryKeys_def)
qed

subsection \<open>Facebook Messenger\<close>

text \<open>Whether the addresses of a service are wrong or unknown, and the status that is published for the service.\<close>

definition dns_lied :: "ug_TestKeys \<Rightarrow> bool" where
  "dns_lied keys \<longleftrightarrow> ug_FailedOperation keys = Some ResolveOperation \<or>
     (\<exists>query \<in> set (ug_Queries keys). \<exists>ans \<in> set (dns_Answers query). ans_ASN ans \<noteq> FacebookASN)"

definition connect_failed :: "ug_TestKeys \<Rightarrow> bool" where
  "connect_failed keys \<longleftrightarrow> \<not> dns_lied keys \<and> ug_FailedOperation keys = Some ConnectOperation"

definition facebook_status :: "facebook_TestKeys \<Rightarrow> string \<Rightarrow> bool option \<times> bool option" where
  "facebook_status tk s =
     (if s = ServiceSTUN then (FacebookSTUNDNSConsistent tk, FacebookSTUNReachable tk)
      else if s = ServiceBAPI then (FacebookBAPIDNSConsistent tk, FacebookBAPIReachable tk)
      else if s = ServiceBGraph then (FacebookBGraphDNSConsistent tk, FacebookBGraphReachable tk)
      else if s = ServiceEdge then (FacebookEdgeDNSConsistent tk, FacebookEdgeReachable tk)
      else if s = ServiceExternalCDN then (FacebookExternalCDNDNSConsistent tk, FacebookExternalCDNReachable tk)
      else if s = ServiceScontentCDN then (FacebookScontentCDNDNSConsistent tk, FacebookScontentCDNReachable tk)
      else (FacebookStarDNSConsistent tk, FacebookStarReachable tk))"

lemma ComputeEndpointStatus_eq:
  "ComputeEndpointStatus v tk =
     (if dns_lied (mo_TestKeys v) then (tk\<lparr>FacebookDNSBlocking := Some True\<rparr>, Some False, None)
      else if connect_failed (mo_TestKeys v) then (tk\<lparr>FacebookTCPBlocking := Some True\<rparr>, Some True, Some False)
      else (tk, Some True, Some True))"
  by (auto simp: ComputeEndpointStatus_def dns_lied_def connect_failed_def Let_def list_ex_iff)

lemma services_distinct: "distinct Services"
  by (simp add: Services_def service_defs)

lemma facebook_Update_blocking:
  "FacebookDNSBlocking (facebook_Update v tk) =
     (if target v \<in> set Services \<and> dns_lied (mo_TestKeys v) then Some True else FacebookDNSBlocking tk)"
  "FacebookTCPBlocking (facebook_Update v tk) =
     (if target v \<in> set Services \<and> connect_failed (mo_TestKeys v) then Some True else FacebookTCPBlocking tk)"
  by (auto simp: facebook_Update_def ComputeEndpointStatus_eq Services_def connect_failed_def Let_def)

lemma facebook_Update_status:
  assumes "s \<in> set Services" and "s \<noteq> ServiceSTUN"
  shows "facebook_status (facebook_Update v tk) s = (if target v = s
    then (Some (\<not> dns_lied (mo_TestKeys v)), if dns_lied (mo_TestKeys v) then None else Some (\<not> connect_failed (mo_TestKeys v)))
    else facebook_status tk s)"
  using assms services_distinct
  by (auto simp: facebook_Update_def facebook_status_def ComputeEndpointStatus_eq Services_def Let_def)

lemma facebook_Update_stun:
  "FacebookSTUNDNSConsistent (facebook_Update v tk) =
     (if target v = ServiceSTUN then Some (\<not> dns_lied (mo_TestKeys v)) else FacebookSTUNDNSConsistent tk)"
  "FacebookSTUNReachable (facebook_Update v tk) = FacebookSTUNReachable tk"
  by (auto simp: facebook_Update_def ComputeEndpointStatus_eq Let_def)

lemma facebook_fold_status:
  assumes "s \<in> set Services" and "\<exists>v \<in> set vs. target v = s" and "\<forall>v \<in> set vs. target v = s \<longrightarrow> mo_TestKeys v = keys"
    and "FacebookSTUNReachable tk = None"
  shows "facebook_status (fold facebook_Update vs tk) s = (Some (\<not> dns_lied keys),
    if s = ServiceSTUN \<or> dns_lied keys then None else Some (\<not> connect_failed keys))"
proof (cases "s = ServiceSTUN")
  case True
  have "FacebookSTUNReachable (fold facebook_Update vs tk) = FacebookSTUNReachable tk"
    by (induction vs arbitrary: tk) (simp_all add: facebook_Update_stun)
  with True assms fold_last [of FacebookSTUNDNSConsistent facebook_Update, OF facebook_Update_stun(1), of vs "Some (\<not> dns_lied keys)" tk]
  show ?thesis by (simp add: facebook_status_def)
next
  case False
  with assms fold_last [of "\<lambda>tk. facebook_status tk s" facebook_Update, OF facebook_Update_status, OF assms(1) False, of vs
      "(Some (\<not> dns_lied keys), if dns_lied keys then None else Some (\<not> connect_failed keys))" tk]
  show ?thesis by simp
qed

lemma facebook_inputs_mset:
  "mset (facebook_inputs rnd) = mset (map (\<lambda>service. \<lparr>mi_Config = ug_Config_zero, mi_Target = service\<rparr>) Services)"
  unfolding facebook_inputs_def by (rule mset_rand_Shuffle) (simp add: Services_def)

lemma facebook_inputs_distinct: "distinct (map mi_Target (facebook_inputs rnd))"
proof -
  have "mset (map mi_Target (facebook_inputs rnd)) = mset Services"
    unfolding mset_map facebook_inputs_mset by (simp add: multiset.map_comp comp_def)
  then show ?thesis using services_distinct by (metis mset_eq_imp_distinct_iff)
qed

lemma facebook_outputs_ball:
  assumes "multi_Collect outcome parallelism (facebook_inputs rnd) outs"
  shows "(\<forall>v \<in> set outs. P (target v) (mo_TestKeys v)) \<longleftrightarrow> (\<forall>s \<in> set Services. P s (result outs s))"
  using ball_outputs [OF assms facebook_inputs_distinct, of "\<lambda>x. P (mi_Target x)"] mset_eq_setD [OF facebook_inputs_mset [of rnd]]
  by simp

text \<open>
  The verdict of the Facebook Messenger experiment, for every order of the services and every interleaving. DNS
  blocking is reported exactly when the lookup of some service failed or gave an address outside the network of
  Facebook, TCP blocking exactly when some service with good addresses refused the connection; both are always
  set. Each service has the status of its own measurement, and the STUN service only a DNS status.
\<close>

theorem facebook_verdict:
  assumes "multi_Collect outcome parallelism (facebook_inputs rnd) outs"
  defines "tk \<equiv> facebook_Run outs"
  shows "FacebookDNSBlocking tk = Some (\<exists>s \<in> set Services. dns_lied (result outs s)) \<and>
    FacebookTCPBlocking tk = Some (\<exists>s \<in> set Services. connect_failed (result outs s)) \<and>
    (\<forall>s \<in> set Services. facebook_status tk s = (Some (\<not> dns_lied (result outs s)),
       if s = ServiceSTUN \<or> dns_lied (result outs s) then None else Some (\<not> connect_failed (result outs s)))) \<and>
    fbs_IsAnomaly (facebook_MeasurementSummaryKeys tk) = (\<exists>s \<in> set Services. dns_lied (result outs s) \<or> connect_failed (result outs s))"
proof -
  let ?start = "facebook_zero\<lparr>fb_TestKeys := ug_TestKeys_zero\<lparr>ug_Agent := ''redirect''\<rparr>\<rparr>"
  let ?tk = "fold facebook_Update outs ?start"
  note all = facebook_outputs_ball [OF assms(1)]
  have zero: "FacebookDNSBlocking ?start = None" "FacebookTCPBlocking ?start = None" "FacebookSTUNReachable ?start = None"
    by (simp_all add: facebook_zero_def)
  have "(\<exists>v \<in> set outs. target v \<in> set Services \<and> P (mo_TestKeys v)) \<longleftrightarrow> (\<exists>s \<in> set Services. P (result outs s))" for P
    using all [of "\<lambda>t keys. \<not> (t \<in> set Services \<and> P keys)"] by auto
  then have blocking: "FacebookDNSBlocking ?tk = (if \<exists>s \<in> set Services. dns_lied (result outs s) then Some True else None)"
      "FacebookTCPBlocking ?tk = (if \<exists>s \<in> set Services. connect_failed (result outs s) then Some True else None)"
    using fold_last [of FacebookDNSBlocking facebook_Update, OF facebook_Update_blocking(1), of outs "Some True" ?start]
      fold_last [of FacebookTCPBlocking facebook_Update, OF facebook_Update_blocking(2), of outs "Some True" ?start] zero by auto
  have hit: "\<exists>v \<in> set outs. target v = s" if "s \<in> set Services" for s
    using all [of "\<lambda>t keys. t \<noteq> s"] that by auto
  have own: "\<forall>v \<in> set outs. target v = s \<longrightarrow> mo_TestKeys v = result outs s" for s
    unfolding all [of "\<lambda>t keys. t = s \<longrightarrow> keys = result outs s"] by simp
  have "\<forall>s \<in> set Services. facebook_status ?tk s = (Some (\<not> dns_lied (result outs s)),
      if s = ServiceSTUN \<or> dns_lied (result outs s) then None else Some (\<not> connect_failed (result outs s)))"
    using facebook_fold_status [OF _ hit own zero(3)] by blast
  moreover have "facebook_status tk s = facebook_status ?tk s" for s
    by (simp add: tk_def facebook_Run_def facebook_status_def Let_def)
  ultimately show ?thesis
    by (auto simp: tk_def facebook_Run_def facebook_MeasurementSummaryKeys_def Let_def blocking)
qed

theorem facebook_verdict_witness:
  "FacebookTCPBlocking (facebook_Run (outputs_of (sample_keys [ServiceSTUN]) (facebook_inputs (\<lambda>_. 3)))) = Some True"
proof -
  let ?ins = "facebook_inputs (\<lambda>_. 3)"
  let ?outs = "outputs_of (sample_keys [ServiceSTUN]) ?ins"
  have "\<lparr>mi_Config = ug_Config_zero, mi_Target = ServiceBAPI\<rparr> \<in> set ?ins"
    using mset_eq_setD [OF facebook_inputs_mset [of "\<lambda>_. 3"]] by (simp add: Services_def)
  from result_outputs_of [OF facebook_inputs_distinct this, of "[ServiceSTUN]"]
  have "result ?outs ServiceBAPI = sample_keys [ServiceSTUN] \<lparr>mi_Config = ug_Config_zero, mi_Target = ServiceBAPI\<rparr>" by simp
  then have "connect_failed (result ?outs ServiceBAPI)"
    by (simp add: sample_keys_def connect_failed_def dns_lied_def ug_TestKeys_zero_def service_defs)
  moreover have "ServiceBAPI \<in> set Services" by (simp add: Services_def)
  ultimately show ?thesis using facebook_verdict [OF sample_collect [of "[ServiceSTUN]" ?ins]] by auto
qed

subsection \<open>Signal\<close>

lemma signal_Update_fields:
  "SignalBackendStatus (signal_Update v tk) =
     (if target v \<noteq> ''dnslookup://uptime.signal.org'' \<and> failed v then ''blocked'' else SignalBackendStatus tk)"
  "SignalBackendFailure (signal_Update v tk) =
     (if target v \<noteq> ''dnslookup://uptime.signal.org'' \<and> failed v then ug_Failure (mo_TestKeys v) else SignalBackendFailure tk)"
  by (auto simp: signal_Update_def Let_def)

lemma signal_fold_failure:
  "SignalBackendFailure (fold signal_Update vs tk) = SignalBackendFailure tk \<or>
     (\<exists>v \<in> set vs. target v \<noteq> ''dnslookup://uptime.signal.org'' \<and> failed v \<and>
        SignalBackendFailure (fold signal_Update vs tk) = ug_Failure (mo_TestKeys v))"
proof (induction vs arbitrary: tk)
  case (Cons v vs)
  then show ?case using Cons [of "signal_Update v tk"] by (auto simp: signal_Update_fields split: if_splits)
qed simp

lemma signal_fold_failure_set:
  "SignalBackendFailure (fold signal_Update vs tk) \<noteq> None \<longleftrightarrow> SignalBackendFailure tk \<noteq> None \<or>
     (\<exists>v \<in> set vs. target v \<noteq> ''dnslookup://uptime.signal.org'' \<and> failed v)"
  by (rule fold_flag) (simp add: signal_Update_fields)

lemma signal_inputs_distinct: "distinct (map mi_Target (signal_inputs certPool))"
  by (simp add: signal_inputs_def signal_services_def)

text \<open>
  The verdict of the Signal experiment, for every interleaving. The backend is reported as blocked exactly when the measurement of
  one of the four services failed; the lookup of the uptime name does not count. The published failure is null for a
  backend that is not blocked and otherwise the failure of one of the services that failed; which one depends on
  the order in which they were measured.
\<close>

theorem signal_verdict:
  assumes "multi_Collect outcome parallelism (signal_inputs certPool) outs"
  defines "tk \<equiv> signal_Run outs" and "failing \<equiv> {t \<in> set signal_services. ug_Failure (result outs t) \<noteq> None}"
  shows "SignalBackendStatus tk = (if failing = {} then ''ok'' else ''blocked'') \<and>
    (if failing = {} then SignalBackendFailure tk = None
     else \<exists>t \<in> failing. SignalBackendFailure tk = ug_Failure (result outs t)) \<and>
    (sgs_IsAnomaly (signal_MeasurementSummaryKeys tk) \<longleftrightarrow> failing \<noteq> {})"
proof -
  let ?start = "signal_NewTestKeys\<lparr>sg_TestKeys := ug_TestKeys_zero\<lparr>ug_Agent := ''redirect''\<rparr>\<rparr>"
  have zero: "SignalBackendStatus ?start = ''ok''" "SignalBackendFailure ?start = None" by (simp_all add: signal_NewTestKeys_def)
  have others: "''dnslookup://uptime.signal.org'' \<notin> set signal_services" by (simp add: signal_services_def)
  note all = ball_outputs [OF assms(1) signal_inputs_distinct]
  have ex: "(\<exists>v \<in> set outs. target v \<noteq> ''dnslookup://uptime.signal.org'' \<and> failed v \<and> P (mo_TestKeys v)) \<longleftrightarrow>
      (\<exists>t \<in> failing. P (result outs t))" for P
    using all [of "\<lambda>x keys. \<not> (mi_Target x \<noteq> ''dnslookup://uptime.signal.org'' \<and> ug_Failure keys \<noteq> None \<and> P keys)"] others
    by (auto simp: failing_def signal_inputs_def)
  have "SignalBackendStatus tk = (if failing = {} then ''ok'' else ''blocked'')"
    using fold_last [of SignalBackendStatus signal_Update, OF signal_Update_fields(1), of outs "''blocked''" ?start] ex [of "\<lambda>_. True"] zero
    by (auto simp: tk_def signal_Run_def)
  moreover have "SignalBackendFailure tk = None \<longleftrightarrow> failing = {}"
    using signal_fold_failure_set [of outs ?start] ex [of "\<lambda>_. True"] zero by (auto simp: tk_def signal_Run_def)
  moreover have "\<exists>t \<in> failing. SignalBackendFailure tk = ug_Failure (result outs t)" if "SignalBackendFailure tk \<noteq> None"
    using signal_fold_failure [of outs ?start] ex [of "\<lambda>keys. SignalBackendFailure tk = ug_Failure keys"] zero that
    by (auto simp: tk_def signal_Run_def)
  ultimately show ?thesis by (auto simp: signal_MeasurementSummaryKeys_def)
qed

theorem signal_verdict_witness:
  "SignalBackendStatus (signal_Run (outputs_of (sample_keys [''dnslookup://uptime.signal.org'']) (signal_inputs []))) = ''blocked''"
proof -
  let ?outs = "outputs_of (sample_keys [''dnslookup://uptime.signal.org'']) (signal_inputs [])"
  have "ug_Failure (result ?outs ''https://chat.signal.org/'') \<noteq> None"
    using result_outputs_of [OF signal_inputs_distinct, of "signal_inputs [] ! 1" "[]" "[''dnslookup://uptime.signal.org'']"]
    by (simp add: signal_inputs_def signal_services_def sample_keys_def)
  then have "{t \<in> set signal_services. ug_Failure (result ?outs t) \<noteq> None} \<noteq> {}" by (auto simp: signal_services_def)
  then show ?thesis using signal_verdict [OF sample_collect [of "[''dnslookup://uptime.signal.org'']" "signal_inputs []"]] by simp
qed

end
