(* ===== verification/WebConn04.thy ===== *)
theory WebConn04
  imports Urlgetter LteAnalysis
begin

text \<open>
  Web Connectivity 0.4, \<open>internal/experiment/webconnectivity\<close>: the DNS lookup, the control, the connects and the HTTP
  measurement (\<open>dnslookup.go\<close>, \<open>control.go\<close>, \<open>endpoints.go\<close>, \<open>connects.go\<close>, \<open>httpget.go\<close>), their analysis (\<open>dnsanalysis.go\<close>,
  \<open>httpanalysis.go\<close>), the summary (\<open>summary.go\<close>) and the run that composes them (\<open>webconnectivity.go\<close>). The measurements are those
  of the theory \<open>Urlgetter\<close>; the calls of the test helper and of the getter are arguments of the run. The test keys
  are modelled without the fields that no code sets and without the run times. A panic is \<open>None\<close>.

  The analysis functions are older versions of those of \<open>internal/minipipeline\<close>. The theorems relate the two, and describe the
  verdict that the summary publishes.
\<close>

unbundle bit_operations_syntax

section \<open>DNS lookup\<close>

record DNSLookupResult =
  dl_Addrs :: "(string, int) gomap"
  dl_Failure :: "string option"
  dl_TestKeys :: ug_TestKeys

definition add_answer :: "ArchivalDNSAnswer \<Rightarrow> (string, int) gomap \<Rightarrow> (string, int) gomap" where
  "add_answer answer addrs =
     (if ans_IPv4 answer \<noteq> '''' then AList.update (ans_IPv4 answer) (ans_ASN answer) addrs
      else if ans_IPv6 answer \<noteq> '''' then AList.update (ans_IPv6 answer) (ans_ASN answer) addrs
      else addrs)"

text \<open>\<open>get\<close> is the getter: the test keys for a configuration and a target.\<close>

definition DNSLookup :: "(ug_Config \<Rightarrow> string \<Rightarrow> ug_TestKeys) \<Rightarrow> url \<Rightarrow> DNSLookupResult" where
  "DNSLookup get u =
     (let keys = get ug_Config_zero (''dnslookup://'' @ url_Hostname u)
      in \<lparr>dl_Addrs = fold (\<lambda>query addrs. fold add_answer (dns_Answers query) addrs) (ug_Queries keys) [],
          dl_Failure = ug_Failure keys, dl_TestKeys = keys\<rparr>)"

definition DNSLookupResult_Addresses :: "DNSLookupResult \<Rightarrow> string list" where
  "DNSLookupResult_Addresses r = sort (gmap_keys (dl_Addrs r))"

section \<open>Endpoints\<close>

record EndpointPort =
  ep_URLGetterScheme :: string
  ep_Port :: string

definition NewEndpointPort :: "url \<Rightarrow> EndpointPort option" where
  "NewEndpointPort u =
     (if url_Scheme u \<noteq> ''http'' \<and> url_Scheme u \<noteq> ''https'' then None
      else let out = (if url_Scheme u = ''http'' then \<lparr>ep_URLGetterScheme = ''tcpconnect'', ep_Port = ''80''\<rparr>
                      else \<lparr>ep_URLGetterScheme = ''tlshandshake'', ep_Port = ''443''\<rparr>)
           in if url_Host u \<noteq> url_Hostname u
              then case SplitHostPort (url_Host u) of Inl _ \<Rightarrow> None | Inr (_, port) \<Rightarrow> Some (out\<lparr>ep_Port := port\<rparr>)
              else Some out)"

record EndpointInfo =
  ei_String :: string
  ei_URLGetterURL :: string

text \<open>The \<open>String\<close> method of a URL with a scheme and a host only; bytes that a host may not have are escaped.\<close>

definition host_chars :: string where
  "host_chars = word_chars @ ''-.~!$&()*+,;=:[]<>'' @ [CHR 0x22, CHR 0x27]"

definition upper_hex :: "nat \<Rightarrow> char" where
  "upper_hex n = ''0123456789ABCDEF'' ! n"

definition escape_host :: "string \<Rightarrow> string" where
  "escape_host s = concat (map (\<lambda>c. if c \<in> set host_chars then [c]
     else [CHR ''%'', upper_hex (of_char c div 16), upper_hex (of_char c mod 16)]) s)"

definition NewEndpoints :: "url \<Rightarrow> string list \<Rightarrow> EndpointInfo list option" where
  "NewEndpoints u addrs =
     do { port \<leftarrow> NewEndpointPort u;
          Some (map (\<lambda>addr. let endpoint = join_host_port addr (ep_Port port)
             in \<lparr>ei_String = endpoint, ei_URLGetterURL = ep_URLGetterScheme port @ ''://'' @ escape_host endpoint\<rparr>) addrs) }"

definition EndpointsList_Endpoints :: "EndpointInfo list \<Rightarrow> string list" where
  "EndpointsList_Endpoints el = map ei_String el"

definition EndpointsList_URLs :: "EndpointInfo list \<Rightarrow> string list" where
  "EndpointsList_URLs el = map ei_URLGetterURL el"

section \<open>Control\<close>

definition fillASNs :: "mmdb \<Rightarrow> THDNSResult \<Rightarrow> THDNSResult" where
  "fillASNs db dns = dns\<lparr>thdns_ASNs := map (\<lambda>ip. wrap64 (int (fst (geoipx_LookupASN db ip)))) (thdns_Addrs dns)\<rparr>"

definition THResponse_zero :: THResponse where
  "THResponse_zero = \<lparr>th_TCPConnect = [], th_TLSHandshake = [], th_QUICHandshake = [],
     th_HTTPRequest = \<lparr>thhttp_BodyLength = 0, thhttp_DiscoveredH3Endpoint = '''', thhttp_Failure = None, thhttp_Title = '''',
       thhttp_Headers = [], thhttp_StatusCode = 0\<rparr>,
     th_HTTP3Request = None, th_DNS = \<lparr>thdns_Failure = None, thdns_Addrs = [], thdns_ASNs = []\<rparr>, th_IPInfo = []\<rparr>"

text \<open>\<open>call\<close> is \<open>CallWebConnectivityTestHelper\<close>: the response and the index of the helper that gave it.\<close>

definition Control ::
    "mmdb \<Rightarrow> (THRequest \<Rightarrow> go_error + THResponse \<times> nat) \<Rightarrow> OOAPIService list \<Rightarrow> THRequest \<Rightarrow>
     (THResponse \<times> OOAPIService option \<times> go_error option) option" where
  "Control db call testhelpers creq =
     (case call creq of
        Inl err \<Rightarrow> map_option (\<lambda>err. (THResponse_zero, None, Some err)) (NewTopLevelGenericErrWrapper (Some err))
      | Inr (out, idx) \<Rightarrow>
          if idx < length testhelpers then Some (out\<lparr>th_DNS := fillASNs db (th_DNS out)\<rparr>, Some (testhelpers ! idx), None)
          else None)"

section \<open>DNS analysis\<close>

definition DNSNameError :: string where
  "DNSNameError = ''dns_name_error''"

definition DNSConsistent :: string where
  "DNSConsistent = ''consistent''"

definition DNSInconsistent :: string where
  "DNSInconsistent = ''inconsistent''"

definition DNSAnalysis :: "url \<Rightarrow> DNSLookupResult \<Rightarrow> THResponse \<Rightarrow> string" where
  "DNSAnalysis u measurement control =
     (if ParseIP (url_Hostname u) \<noteq> None then DNSConsistent
      else case (dl_Failure measurement, thdns_Failure (th_DNS control)) of
        (Some mf, Some cf) \<Rightarrow>
          if cf = DNSNameError \<and> (mf = FailureDNSNXDOMAINError \<or> mf = FailureAndroidDNSCacheNoData) then DNSConsistent
          else DNSInconsistent
      | _ \<Rightarrow>
          let asnmap = mark 1 (gmap_vals (dl_Addrs measurement)) []; asnmap = mark 2 (thdns_ASNs (th_DNS control)) asnmap
          in if list_ex (\<lambda>(key, value). key \<noteq> 0 \<and> seen_in_both value) asnmap then DNSConsistent
             else let ipmap = mark 1 (gmap_keys (dl_Addrs measurement)) []; ipmap = mark 2 (thdns_Addrs (th_DNS control)) ipmap
                  in if list_ex (\<lambda>(key, value). key \<noteq> '''' \<and> seen_in_both value) ipmap then DNSConsistent
                     else DNSInconsistent)"

section \<open>Connects\<close>

record ConnectsResult =
  cr_AllKeys :: "ug_TestKeys list"
  cr_Successes :: int
  cr_Total :: int

definition count_connects :: "multi_output \<Rightarrow> ConnectsResult \<Rightarrow> ConnectsResult" where
  "count_connects multiout out =
     fold (\<lambda>entry out. let out = (if st_Success (tcp_Status entry) then out\<lparr>cr_Successes := wrap64 (cr_Successes out + 1)\<rparr> else out)
                        in out\<lparr>cr_Total := wrap64 (cr_Total out + 1)\<rparr>)
       (ug_TCPConnect (mo_TestKeys multiout)) (out\<lparr>cr_AllKeys := cr_AllKeys out @ [mo_TestKeys multiout]\<rparr>)"

text \<open>\<open>collect\<close> is the parallel runner: the outputs in the order in which they are read.\<close>

definition Connects :: "(multi_input list \<Rightarrow> multi_output list) \<Rightarrow> url \<Rightarrow> string list \<Rightarrow> ConnectsResult" where
  "Connects collect u urls =
     (let inputs = map (\<lambda>url. \<lparr>mi_Config = ug_Config_zero\<lparr>cfg_TLSServerName := url_Hostname u\<rparr>, mi_Target = url\<rparr>) urls
      in fold count_connects (collect inputs) \<lparr>cr_AllKeys = [], cr_Successes = 0, cr_Total = 0\<rparr>)"

definition tcp_blocking :: "(string, THTCPConnectResult) gomap \<Rightarrow> ArchivalTCPConnectResult \<Rightarrow> ArchivalTCPConnectResult" where
  "tcp_blocking control me =
     (case gmap_get control (join_host_port (tcp_IP me) (itoa (tcp_Port me))) of
        Some ce \<Rightarrow> me\<lparr>tcp_Status := (tcp_Status me)
          \<lparr>st_Blocked := Some (thtcp_Failure ce = None \<and> st_Failure (tcp_Status me) \<noteq> None)\<rparr>\<rparr>
      | None \<Rightarrow> me)"

definition ComputeTCPBlocking ::
    "ArchivalTCPConnectResult list \<Rightarrow> (string, THTCPConnectResult) gomap \<Rightarrow> ArchivalTCPConnectResult list" where
  "ComputeTCPBlocking measurement control = map (tcp_blocking control) measurement"

section \<open>HTTP measurement\<close>

definition HTTPGetMakeDNSCache :: "string \<Rightarrow> string \<Rightarrow> string" where
  "HTTPGetMakeDNSCache domain addresses = (if ParseIP domain \<noteq> None then '''' else domain @ '' '' @ addresses)"

text \<open>The test keys and the failure; without addresses nothing is measured and the failure is nil.\<close>

definition HTTPGet :: "(ug_Config \<Rightarrow> string \<Rightarrow> ug_TestKeys) \<Rightarrow> (url \<Rightarrow> string) \<Rightarrow> string list \<Rightarrow> url \<Rightarrow> ug_TestKeys \<times> string option" where
  "HTTPGet get url_String addrs u =
     (let addresses = join_bytes '' '' addrs
      in if addresses = '''' then (ug_TestKeys_zero, None)
         else let keys = get (ug_Config_zero\<lparr>cfg_DNSCache := HTTPGetMakeDNSCache (url_Hostname u) addresses\<rparr>) (url_String u)
              in (keys, ug_Failure keys))"

section \<open>HTTP analysis\<close>

text \<open>Each check looks at the first request of the test keys, which is the last one that was sent.\<close>

definition HTTPBodyLengthChecks :: "ug_TestKeys \<Rightarrow> THResponse \<Rightarrow> bool option \<times> rat" where
  "HTTPBodyLengthChecks tk ctrl =
     (let control = thhttp_BodyLength (th_HTTPRequest ctrl)
      in if control \<le> 0 then (None, 0)
         else case ug_Requests tk of
           [] \<Rightarrow> (None, 0)
         | req # _ \<Rightarrow>
             let response = http_Response req
             in if resp_BodyIsTruncated response then (None, 0)
                else let measurement = int (length (resp_Body response))
                     in if measurement \<le> 0 then (None, 0)
                        else let proportion = (if measurement \<ge> control then f64_quot control measurement
                                               else f64_quot measurement control)
                             in (Some (proportion > f64 (7 / 10)), proportion))"

definition HTTPStatusCodeMatch :: "ug_TestKeys \<Rightarrow> THResponse \<Rightarrow> bool option" where
  "HTTPStatusCodeMatch tk ctrl =
     (let control = thhttp_StatusCode (th_HTTPRequest ctrl)
      in case ug_Requests tk of
           [] \<Rightarrow> None
         | req # _ \<Rightarrow>
             let measurement = resp_Code (http_Response req)
             in if control \<le> 0 then None
                else if measurement \<le> 0 then None
                else if control = measurement then Some True
                else if go_div control 100 = 5 then None
                else Some False)"

definition commonHeaders :: "string list" where
  "commonHeaders = [''date'', ''content-type'', ''server'', ''cache-control'', ''vary'', ''set-cookie'', ''location'', ''expires'',
     ''x-powered-by'', ''content-encoding'', ''last-modified'', ''accept-ranges'', ''pragma'', ''x-frame-options'', ''etag'',
     ''x-content-type-options'', ''age'', ''via'', ''p3p'', ''x-xss-protection'', ''content-language'', ''cf-ray'',
     ''strict-transport-security'', ''link'', ''x-varnish'']"

text \<open>The maps \<open>ours\<close> and \<open>theirs\<close> map keys to true; \<open>reflect.DeepEqual\<close> compares their key sets.\<close>

definition HTTPHeadersMatch :: "(string \<Rightarrow> string) \<Rightarrow> ug_TestKeys \<Rightarrow> THResponse \<Rightarrow> bool option" where
  "HTTPHeadersMatch uni tk ctrl =
     (case ug_Requests tk of
        [] \<Rightarrow> None
      | req # _ \<Rightarrow>
          if resp_Code (http_Response req) \<le> 0 then None
          else if thhttp_StatusCode (th_HTTPRequest ctrl) \<le> 0 then None
          else let ours = map (to_lower uni) (gmap_keys (resp_Headers (http_Response req)));
                   theirs = map (to_lower uni) (gmap_keys (thhttp_Headers (th_HTTPRequest ctrl)));
                   matching = mark 1 (filter (\<lambda>key. key \<notin> set commonHeaders) ours) [];
                   matching = mark 2 (filter (\<lambda>key. key \<notin> set commonHeaders) theirs) matching
               in if set ours = set theirs then Some True
                  else Some (length (filter (\<lambda>(_, value). seen_in_both value) matching) > 0))"

definition HTTPTitleMatch :: "(string \<Rightarrow> string) \<Rightarrow> ug_TestKeys \<Rightarrow> THResponse \<Rightarrow> bool option" where
  "HTTPTitleMatch uni tk ctrl =
     (case ug_Requests tk of
        [] \<Rightarrow> None
      | req # _ \<Rightarrow>
          let response = http_Response req
          in if resp_Code response \<le> 0 then None
             else if resp_BodyIsTruncated response then None
             else if thhttp_StatusCode (th_HTTPRequest ctrl) \<le> 0 then None
             else let control = thhttp_Title (th_HTTPRequest ctrl); measurement = WebGetTitle (resp_Body response)
                  in if measurement = '''' then None
                     else let words = mark 1 (long_words uni measurement) []; words = mark 2 (long_words uni control) words
                          in Some (list_all (\<lambda>(_, score). seen_in_both score) words))"

record HTTPAnalysisResult =
  ha_BodyLengthMatch :: "bool option"
  ha_BodyProportion :: rat
  ha_StatusCodeMatch :: "bool option"
  ha_HeadersMatch :: "bool option"
  ha_TitleMatch :: "bool option"

definition HTTPAnalysis :: "(string \<Rightarrow> string) \<Rightarrow> ug_TestKeys \<Rightarrow> THResponse \<Rightarrow> HTTPAnalysisResult" where
  "HTTPAnalysis uni tk ctrl =
     \<lparr>ha_BodyLengthMatch = fst (HTTPBodyLengthChecks tk ctrl), ha_BodyProportion = snd (HTTPBodyLengthChecks tk ctrl),
      ha_StatusCodeMatch = HTTPStatusCodeMatch tk ctrl, ha_HeadersMatch = HTTPHeadersMatch uni tk ctrl,
      ha_TitleMatch = HTTPTitleMatch uni tk ctrl\<rparr>"

section \<open>Summary\<close>

definition StatusSuccessSecure :: int where "StatusSuccessSecure = push_bit 0 1"
definition StatusSuccessCleartext :: int where "StatusSuccessCleartext = push_bit 1 1"
definition StatusSuccessNXDOMAIN :: int where "StatusSuccessNXDOMAIN = push_bit 2 1"
definition StatusAnomalyControlUnreachable :: int where "StatusAnomalyControlUnreachable = push_bit 3 1"
definition StatusAnomalyControlFailure :: int where "StatusAnomalyControlFailure = push_bit 4 1"
definition StatusAnomalyDNS :: int where "StatusAnomalyDNS = push_bit 5 1"
definition StatusAnomalyHTTPDiff :: int where "StatusAnomalyHTTPDiff = push_bit 6 1"
definition StatusAnomalyConnect :: int where "StatusAnomalyConnect = push_bit 7 1"
definition StatusAnomalyReadWrite :: int where "StatusAnomalyReadWrite = push_bit 8 1"
definition StatusAnomalyUnknown :: int where "StatusAnomalyUnknown = push_bit 9 1"
definition StatusAnomalyTLSHandshake :: int where "StatusAnomalyTLSHandshake = push_bit 10 1"
definition StatusExperimentDNS :: int where "StatusExperimentDNS = push_bit 11 1"
definition StatusExperimentConnect :: int where "StatusExperimentConnect = push_bit 12 1"
definition StatusExperimentHTTP :: int where "StatusExperimentHTTP = push_bit 13 1"
definition StatusBugNoRequests :: int where "StatusBugNoRequests = push_bit 14 1"

record Summary =
  su_Accessible :: "bool option"
  su_BlockingReason :: "string option"
  su_Blocking :: blocking
  su_Status :: int

record wc_TestKeys =
  wk_Agent :: string
  wk_ClientResolver :: string
  wk_NetworkEvents :: "ArchivalNetworkEvent list"
  wk_TLSHandshakes :: "ArchivalTLSOrQUICHandshakeResult list"
  wk_Queries :: "ArchivalDNSLookupResult list"
  wk_DNSExperimentFailure :: "string option"
  wk_DNSConsistency :: "string option"
  wk_ControlFailure :: "string option"
  wk_Control :: THResponse
  wk_TCPConnect :: "ArchivalTCPConnectResult list"
  wk_TCPConnectSuccesses :: int
  wk_TCPConnectAttempts :: int
  wk_Requests :: "ArchivalHTTPRequestResult list"
  wk_HTTPExperimentFailure :: "string option"
  wk_HTTPAnalysisResult :: HTTPAnalysisResult
  wk_Summary :: Summary

text \<open>A nil pointer in the interface value is published as null, so it is \<open>BlockingNil\<close>.\<close>

definition DetermineBlocking :: "Summary \<Rightarrow> blocking" where
  "DetermineBlocking s =
     (if su_Accessible s = Some True then BlockingBool False
      else case su_BlockingReason s of None \<Rightarrow> BlockingNil | Some reason \<Rightarrow> BlockingString reason)"

definition Summary_zero :: Summary where
  "Summary_zero = \<lparr>su_Accessible = None, su_BlockingReason = None, su_Blocking = BlockingNil, su_Status = 0\<rparr>"

definition add_status :: "int \<Rightarrow> Summary \<Rightarrow> Summary" where
  "add_status flag s = s\<lparr>su_Status := su_Status s OR flag\<rparr>"

definition accessible :: "Summary \<Rightarrow> Summary" where
  "accessible s = s\<lparr>su_Accessible := Some True\<rparr>"

definition blocked_by :: "string \<Rightarrow> Summary \<Rightarrow> Summary" where
  "blocked_by reason s = s\<lparr>su_BlockingReason := Some reason, su_Accessible := Some False\<rparr>"

abbreviation inconsistent :: "wc_TestKeys \<Rightarrow> bool" where
  "inconsistent tk \<equiv> wk_DNSConsistency tk = Some DNSInconsistent"

abbreviation nxdomain_like :: "wc_TestKeys \<Rightarrow> bool" where
  "nxdomain_like tk \<equiv> wk_DNSExperimentFailure tk = Some FailureDNSNXDOMAINError \<or>
     wk_DNSExperimentFailure tk = Some FailureAndroidDNSCacheNoData"

text \<open>The cases for the failure of the HTTP measurement.\<close>

definition summarize_failure :: "wc_TestKeys \<Rightarrow> string \<Rightarrow> Summary \<Rightarrow> Summary" where
  "summarize_failure tk failure out =
     (let out = add_status StatusExperimentHTTP out;
          out = (if failure = FailureConnectionRefused then add_status StatusAnomalyConnect (blocked_by ''http-failure'' out)
                 else if failure = FailureConnectionReset then add_status StatusAnomalyReadWrite (blocked_by ''http-failure'' out)
                 else if failure = FailureDNSNXDOMAINError then add_status StatusAnomalyDNS (blocked_by ''dns'' out)
                 else if failure = FailureEOFError then add_status StatusAnomalyReadWrite (blocked_by ''http-failure'' out)
                 else if failure = FailureGenericTimeoutError then add_status StatusAnomalyUnknown (blocked_by ''http-failure'' out)
                 else if failure \<in> {FailureSSLInvalidHostname, FailureSSLInvalidCertificate, FailureSSLUnknownAuthority}
                 then add_status StatusAnomalyTLSHandshake (blocked_by ''http-failure'' out)
                 else out)
      in if su_BlockingReason out \<noteq> None \<and> length (wk_Requests tk) = 1 \<and> inconsistent tk
         then add_status StatusAnomalyDNS (out\<lparr>su_BlockingReason := Some ''dns''\<rparr>)
         else out)"

definition summarize_response :: "wc_TestKeys \<Rightarrow> Summary \<Rightarrow> Summary" where
  "summarize_response tk out =
     (let ha = wk_HTTPAnalysisResult tk
      in if some_true (ha_StatusCodeMatch ha) \<and> some_true (ha_BodyLengthMatch ha) then add_status StatusSuccessCleartext (accessible out)
         else if some_true (ha_StatusCodeMatch ha) \<and> some_true (ha_HeadersMatch ha) then add_status StatusSuccessCleartext (accessible out)
         else if some_true (ha_StatusCodeMatch ha) \<and> some_true (ha_TitleMatch ha) then add_status StatusSuccessCleartext (accessible out)
         else let out = add_status StatusAnomalyHTTPDiff out
              in if inconsistent tk then add_status StatusAnomalyDNS (blocked_by ''dns'' out)
                 else blocked_by ''http-diff'' out)"

definition summarize_connects :: "wc_TestKeys \<Rightarrow> string \<Rightarrow> Summary \<Rightarrow> Summary" where
  "summarize_connects tk consistency out =
     (let out = add_status (StatusAnomalyConnect OR StatusExperimentConnect) out
      in if consistency = DNSConsistent then blocked_by ''tcp_ip'' out
         else if consistency = DNSInconsistent then add_status StatusAnomalyDNS (blocked_by ''dns'' out)
         else add_status StatusAnomalyUnknown out)"

definition Summarize :: "wc_TestKeys \<Rightarrow> Summary" where
  "Summarize tk =
     (let out =
        (if (case wk_Requests tk of req # _ \<Rightarrow> http_Failure req = None \<and> has_prefix (req_URL (http_Request req)) ''https://''
             | [] \<Rightarrow> False)
         then add_status StatusSuccessSecure (accessible Summary_zero)
         else if wk_ControlFailure tk \<noteq> None then add_status StatusAnomalyControlUnreachable Summary_zero
         else if nxdomain_like tk \<and> wk_DNSConsistency tk = Some DNSConsistent
         then add_status (StatusSuccessNXDOMAIN OR StatusExperimentDNS) (accessible Summary_zero)
         else if inconsistent tk \<and> nxdomain_like tk
         then add_status (StatusAnomalyDNS OR StatusExperimentDNS) (blocked_by ''dns'' Summary_zero)
         else if wk_TCPConnectAttempts tk > 0 \<and> wk_TCPConnectSuccesses tk \<le> 0 \<and> wk_DNSConsistency tk \<noteq> None
         then summarize_connects tk (the (wk_DNSConsistency tk)) Summary_zero
         else if thhttp_Failure (th_HTTPRequest (wk_Control tk)) \<noteq> None then add_status StatusAnomalyControlFailure Summary_zero
         else case wk_Requests tk of
           [] \<Rightarrow> add_status StatusBugNoRequests Summary_zero
         | req # _ \<Rightarrow>
             (case http_Failure req of
                Some failure \<Rightarrow> summarize_failure tk failure Summary_zero
              | None \<Rightarrow> summarize_response tk Summary_zero))
      in out\<lparr>su_Blocking := DetermineBlocking out\<rparr>)"

record wc_SummaryKeys =
  wcs_Accessible :: bool
  wcs_Blocking :: string
  wcs_IsAnomaly :: bool

definition wc_MeasurementSummaryKeys :: "wc_TestKeys \<Rightarrow> wc_SummaryKeys" where
  "wc_MeasurementSummaryKeys tk =
     \<lparr>wcs_Accessible = (su_Accessible (wk_Summary tk) = Some True),
      wcs_Blocking = (case su_BlockingReason (wk_Summary tk) of None \<Rightarrow> '''' | Some reason \<Rightarrow> reason),
      wcs_IsAnomaly = (su_BlockingReason (wk_Summary tk) \<noteq> None)\<rparr>"

section \<open>The run\<close>

datatype wc_error = ErrNoInput | ErrInputIsNotAnURL | ErrUnsupportedInput | ErrNoAvailableTestHelpers

text \<open>What the run depends on.\<close>

record wc_env =
  we_ResolverIP :: string
  we_url_Parse :: "string \<Rightarrow> go_error + url"
  we_url_String :: "url \<Rightarrow> string"
  we_testhelpers :: "OOAPIService list"
  we_get :: "ug_Config \<Rightarrow> string \<Rightarrow> ug_TestKeys"
  we_call :: "THRequest \<Rightarrow> go_error + THResponse \<times> nat"
  we_collect :: "multi_input list \<Rightarrow> multi_output list"
  we_db :: mmdb
  we_uni :: "string \<Rightarrow> string"

definition wc_zero :: "string \<Rightarrow> wc_TestKeys" where
  "wc_zero resolver = \<lparr>wk_Agent = ''redirect'', wk_ClientResolver = resolver, wk_NetworkEvents = [], wk_TLSHandshakes = [],
     wk_Queries = [], wk_DNSExperimentFailure = None, wk_DNSConsistency = None, wk_ControlFailure = None,
     wk_Control = THResponse_zero, wk_TCPConnect = [], wk_TCPConnectSuccesses = 0, wk_TCPConnectAttempts = 0,
     wk_Requests = [], wk_HTTPExperimentFailure = None,
     wk_HTTPAnalysisResult = \<lparr>ha_BodyLengthMatch = None, ha_BodyProportion = 0, ha_StatusCodeMatch = None, ha_HeadersMatch = None,
       ha_TitleMatch = None\<rparr>, wk_Summary = Summary_zero\<rparr>"

definition add_connect_keys :: "THResponse \<Rightarrow> ug_TestKeys \<Rightarrow> wc_TestKeys \<Rightarrow> wc_TestKeys" where
  "add_connect_keys control keys tk =
     tk\<lparr>wk_TCPConnect := wk_TCPConnect tk @ ComputeTCPBlocking (ug_TCPConnect keys) (th_TCPConnect control),
        wk_NetworkEvents := wk_NetworkEvents tk @ map (\<lambda>ev. ev\<lparr>net_Tags := [''tcptls_experiment'']\<rparr>) (ug_NetworkEvents keys),
        wk_TLSHandshakes := wk_TLSHandshakes tk @ map (\<lambda>ev. ev\<lparr>tls_Tags := [''tcptls_experiment'']\<rparr>) (ug_TLSHandshakes keys)\<rparr>"

text \<open>The steps 2 to 7, for a URL that is supported; the test keys and the helper that was used.\<close>

definition wc_measure :: "wc_env \<Rightarrow> url \<Rightarrow> (wc_TestKeys \<times> OOAPIService option) option" where
  "wc_measure env u =
     do { let dnsResult = DNSLookup (we_get env) u;
          let tk = (wc_zero (we_ResolverIP env))\<lparr>wk_Queries := ug_Queries (dl_TestKeys dnsResult),
                     wk_DNSExperimentFailure := dl_Failure dnsResult\<rparr>;
          epnts \<leftarrow> NewEndpoints u (DNSLookupResult_Addresses dnsResult);
          (control, usedTH, err) \<leftarrow> Control (we_db env) (we_call env) (we_testhelpers env)
            \<lparr>thr_HTTPRequest = we_url_String env u,
             thr_HTTPRequestHeaders = [(''Accept'', [HTTPHeaderAccept]), (''Accept-Language'', [HTTPHeaderAcceptLanguage]),
               (''User-Agent'', [HTTPHeaderUserAgent])],
             thr_TCPConnect = EndpointsList_Endpoints epnts, thr_XQUICEnabled = False\<rparr>;
          controlFailure \<leftarrow> tracex_NewFailure err;
          let tk = tk\<lparr>wk_Control := control, wk_ControlFailure := controlFailure\<rparr>;
          let tk = (if controlFailure = None then tk\<lparr>wk_DNSConsistency := Some (DNSAnalysis u dnsResult control)\<rparr> else tk);
          let connectsResult = Connects (we_collect env) u (EndpointsList_URLs epnts);
          let tk = fold (add_connect_keys control) (cr_AllKeys connectsResult) tk;
          let tk = tk\<lparr>wk_TCPConnectAttempts := cr_Total connectsResult, wk_TCPConnectSuccesses := cr_Successes connectsResult\<rparr>;
          let (httpKeys, httpFailure) = HTTPGet (we_get env) (we_url_String env) (DNSLookupResult_Addresses dnsResult) u;
          let tk = tk\<lparr>wk_HTTPExperimentFailure := httpFailure, wk_Requests := wk_Requests tk @ ug_Requests httpKeys,
                     wk_HTTPAnalysisResult := HTTPAnalysis (we_uni env) httpKeys control\<rparr>;
          Some (tk\<lparr>wk_Summary := Summarize tk\<rparr>, usedTH) }"

definition wc_Run :: "wc_env \<Rightarrow> string \<Rightarrow> (wc_error + wc_TestKeys \<times> OOAPIService option) option" where
  "wc_Run env input =
     (if input = '''' then Some (Inl ErrNoInput)
      else case we_url_Parse env input of
        Inl _ \<Rightarrow> Some (Inl ErrInputIsNotAnURL)
      | Inr u \<Rightarrow>
          if url_Scheme u \<noteq> ''http'' \<and> url_Scheme u \<noteq> ''https'' then Some (Inl ErrUnsupportedInput)
          else if we_testhelpers env = [] then Some (Inl ErrNoAvailableTestHelpers)
          else map_option Inr (wc_measure env u))"

section \<open>Lemmas\<close>

text \<open>What a summary means: the three states of accessibility, with the flags that justify them.\<close>

definition success_flags :: int where
  "success_flags = StatusSuccessSecure OR StatusSuccessCleartext OR StatusSuccessNXDOMAIN"

definition summary_wf :: "Summary \<Rightarrow> bool" where
  "summary_wf s \<longleftrightarrow>
     (case su_Accessible s of
        None \<Rightarrow> su_BlockingReason s = None \<and> su_Status s AND success_flags = 0
      | Some True \<Rightarrow> su_BlockingReason s = None \<and> su_Status s AND success_flags \<noteq> 0
      | Some False \<Rightarrow> su_BlockingReason s \<in> Some ` {''dns'', ''tcp_ip'', ''http-failure'', ''http-diff''} \<and>
          su_Status s AND success_flags = 0 \<and>
          (su_BlockingReason s = Some ''dns'' \<longrightarrow> su_Status s AND StatusAnomalyDNS \<noteq> 0))"

lemmas status_defs =
  StatusSuccessSecure_def StatusSuccessCleartext_def StatusSuccessNXDOMAIN_def StatusAnomalyControlUnreachable_def
  StatusAnomalyControlFailure_def StatusAnomalyDNS_def StatusAnomalyHTTPDiff_def StatusAnomalyConnect_def
  StatusAnomalyReadWrite_def StatusAnomalyUnknown_def StatusAnomalyTLSHandshake_def StatusExperimentDNS_def
  StatusExperimentConnect_def StatusExperimentHTTP_def StatusBugNoRequests_def success_flags_def

lemmas summary_update_defs = add_status_def accessible_def blocked_by_def Summary_zero_def

lemma summarize_failure_wf: "summary_wf (summarize_failure tk failure Summary_zero)"
  by (simp add: summarize_failure_def Let_def summary_wf_def summary_update_defs status_defs)

lemma summarize_response_wf: "summary_wf (summarize_response tk Summary_zero)"
  by (simp add: summarize_response_def Let_def summary_wf_def summary_update_defs status_defs)

lemma summarize_connects_wf: "summary_wf (summarize_connects tk consistency Summary_zero)"
  by (simp add: summarize_connects_def Let_def summary_wf_def summary_update_defs status_defs)

lemma summary_status_wf [simp]:
  "summary_wf (add_status StatusSuccessSecure (accessible Summary_zero))"
  "summary_wf (add_status StatusAnomalyControlUnreachable Summary_zero)"
  "summary_wf (add_status (StatusSuccessNXDOMAIN OR StatusExperimentDNS) (accessible Summary_zero))"
  "summary_wf (add_status (StatusAnomalyDNS OR StatusExperimentDNS) (blocked_by ''dns'' Summary_zero))"
  "summary_wf (add_status StatusAnomalyControlFailure Summary_zero)"
  "summary_wf (add_status StatusBugNoRequests Summary_zero)"
  by (simp_all add: summary_wf_def summary_update_defs status_defs)

lemma summary_wf_blocking [simp]: "summary_wf (s\<lparr>su_Blocking := b\<rparr>) \<longleftrightarrow> summary_wf s"
  by (simp add: summary_wf_def split: option.split bool.split)

lemma Summarize_wf: "summary_wf (Summarize tk)"
  by (simp add: Summarize_def Let_def summarize_failure_wf summarize_response_wf summarize_connects_wf
      split: list.split option.split)

lemma Summarize_blocking: "su_Blocking (Summarize tk) = DetermineBlocking (Summarize tk)"
  by (simp add: Summarize_def Let_def DetermineBlocking_def)

section \<open>Properties\<close>

text \<open>
  C32: The summary of Web Connectivity 0.4 is always one of three. Either the website is accessible, blocking is false, there
  is no reason, and a success flag is set; or it is not accessible, blocking is a reason among dns, tcp_ip, http-failure and http-diff,
  no success flag is set, and the DNS anomaly flag is set for dns; or both are null and no success flag is set. The anomaly of
  the measurement summary is exactly the second case.
\<close>

theorem summary_values:
  "(case su_Accessible (Summarize tk) of
      None \<Rightarrow> su_Blocking (Summarize tk) = BlockingNil \<and> su_BlockingReason (Summarize tk) = None \<and>
        su_Status (Summarize tk) AND success_flags = 0
    | Some True \<Rightarrow> su_Blocking (Summarize tk) = BlockingBool False \<and> su_BlockingReason (Summarize tk) = None \<and>
        su_Status (Summarize tk) AND success_flags \<noteq> 0
    | Some False \<Rightarrow> su_Status (Summarize tk) AND success_flags = 0 \<and>
        (\<exists>reason. su_Blocking (Summarize tk) = BlockingString reason \<and> su_BlockingReason (Summarize tk) = Some reason \<and>
          (reason \<in> {''tcp_ip'', ''http-failure'', ''http-diff''} \<or>
           reason = ''dns'' \<and> su_Status (Summarize tk) AND StatusAnomalyDNS \<noteq> 0))) \<and>
   (wcs_IsAnomaly (wc_MeasurementSummaryKeys (tk\<lparr>wk_Summary := Summarize tk\<rparr>)) \<longleftrightarrow> su_Accessible (Summarize tk) = Some False)"
proof (cases "su_Accessible (Summarize tk)")
  case None
  then show ?thesis using Summarize_wf [of tk] Summarize_blocking [of tk]
    by (simp add: summary_wf_def DetermineBlocking_def wc_MeasurementSummaryKeys_def)
next
  case (Some a)
  then show ?thesis using Summarize_wf [of tk] Summarize_blocking [of tk]
    by (cases a) (auto simp: summary_wf_def DetermineBlocking_def wc_MeasurementSummaryKeys_def)
qed

text \<open>The header maps with the keys only, as the minipipeline keeps them.\<close>

definition header_keys :: "(string, 'v) gomap \<Rightarrow> (string, bool) gomap" where
  "header_keys headers = map (\<lambda>(key, _). (key, True)) headers"

lemma commonHeaders_eq: "commonHeaders = httpDiffCommonHeaders"
  by (simp add: commonHeaders_def httpDiffCommonHeaders_def)

lemma uncommon_header_keys:
  "uncommon_keys uni (header_keys headers) =
     filter (\<lambda>key. key \<notin> set commonHeaders) (map (to_lower uni \<circ> fst) headers)"
  by (simp add: uncommon_keys_def header_keys_def commonHeaders_eq case_prod_unfold comp_def)

lemma marks_some_both: "(\<exists>v. (k, v) \<in> set (marks xs ys) \<and> seen_in_both v) \<longleftrightarrow> k \<in> set xs \<and> k \<in> set ys"
  by (auto simp: marks_elem)

lemma filter_marks: "filter (\<lambda>(_, v). seen_in_both v) (marks xs ys) = [] \<longleftrightarrow> set xs \<inter> set ys = {}"
  using marks_some_both [of _ xs ys] by (auto simp: filter_empty_conv)

lemma all_marks: "list_all (\<lambda>(_, v). seen_in_both v) (marks xs ys) \<longleftrightarrow> set xs = set ys"
proof -
  have "list_all (\<lambda>(_, v). seen_in_both v) (marks xs ys) \<longleftrightarrow> (\<forall>k. k \<in> set xs \<union> set ys \<longrightarrow> k \<in> set xs \<inter> set ys)"
    by (simp add: list_all_iff marks_elem case_prod_unfold split_paired_all Ball_def) blast
  then show ?thesis by auto
qed

lemma keys_empty: "set (gmap_keys m) = {} \<longleftrightarrow> m = []"
  by simp

lemma symmetric_difference_empty: "(A - B) \<union> (B - A) = {} \<longleftrightarrow> A = B"
  by auto

lemma HTTPHeadersMatch_eq:
  assumes "ug_Requests tk = req # rest" and "resp_Code (http_Response req) > 0" and "thhttp_StatusCode (th_HTTPRequest ctrl) > 0"
  shows "HTTPHeadersMatch uni tk ctrl = Some (
    to_lower uni ` set (gmap_keys (resp_Headers (http_Response req))) =
      to_lower uni ` set (gmap_keys (thhttp_Headers (th_HTTPRequest ctrl))) \<or>
    ComputeHTTPDiffUncommonHeadersIntersection uni (header_keys (resp_Headers (http_Response req)))
      (header_keys (thhttp_Headers (th_HTTPRequest ctrl))) \<noteq> [])"
proof -
  have "set (uncommon_keys uni hm) \<inter> set (uncommon_keys uni hc) = {} \<longleftrightarrow>
      ComputeHTTPDiffUncommonHeadersIntersection uni hm hc = []" for hm hc
    by (metis keys_empty uncommon_intersection_keys)
  then show ?thesis using assms
    by (simp add: HTTPHeadersMatch_def Let_def filter_marks uncommon_header_keys [symmetric] image_image del: set_filter
        flip: marks_def)
qed

lemma HTTPTitleMatch_eq:
  assumes "ug_Requests tk = req # rest" and "resp_Code (http_Response req) > 0" and "thhttp_StatusCode (th_HTTPRequest ctrl) > 0"
    and "\<not> resp_BodyIsTruncated (http_Response req)"
  shows "HTTPTitleMatch uni tk ctrl =
    (if WebGetTitle (resp_Body (http_Response req)) = '''' then None
     else Some (ComputeHTTPDiffTitleDifferentLongWords uni (WebGetTitle (resp_Body (http_Response req)))
       (thhttp_Title (th_HTTPRequest ctrl)) = []))"
proof -
  have "set (long_words uni m) = set (long_words uni c) \<longleftrightarrow> ComputeHTTPDiffTitleDifferentLongWords uni m c = []" for m c
    by (metis keys_empty different_long_words_keys symmetric_difference_empty)
  then show ?thesis using assms
    by (simp add: HTTPTitleMatch_def Let_def all_marks flip: marks_def)
qed

lemma HTTPStatusCodeMatch_eq:
  assumes "ug_Requests tk = req # rest" and "resp_Code (http_Response req) > 0" and "thhttp_StatusCode (th_HTTPRequest ctrl) > 0"
  shows "HTTPStatusCodeMatch tk ctrl =
    (let m = resp_Code (http_Response req); c = thhttp_StatusCode (th_HTTPRequest ctrl)
     in if m \<noteq> c \<and> go_div c 100 \<notin> {2, 5} then Some False else ComputeHTTPDiffStatusCodeMatch m c)"
  using assms by (auto simp: HTTPStatusCodeMatch_def ComputeHTTPDiffStatusCodeMatch_def Let_def)

lemma HTTPBodyLengthChecks_eq:
  assumes "ug_Requests tk = req # rest" and "\<not> resp_BodyIsTruncated (http_Response req)"
    and "resp_Body (http_Response req) \<noteq> ''''" and "thhttp_BodyLength (th_HTTPRequest ctrl) > 0"
  shows "HTTPBodyLengthChecks tk ctrl =
    (let p = ComputeHTTPDiffBodyProportionFactor (int (length (resp_Body (http_Response req)))) (thhttp_BodyLength (th_HTTPRequest ctrl))
     in (Some (p > f64 (7 / 10)), p))"
  using assms by (simp add: HTTPBodyLengthChecks_def ComputeHTTPDiffBodyProportionFactor_def Let_def)

text \<open>The addresses of a lookup carry the AS numbers of the database that the getter used.\<close>

lemma query_entry_answer:
  "q \<in> set (query_entries db t0 ev qtype) \<Longrightarrow> a \<in> set (dns_Answers q) \<Longrightarrow> \<exists>addr. a = makeAnswerEntry db qtype addr"
  by (auto simp: query_entries_def Let_def split: if_splits)

lemma query_entries_asn:
  "q \<in> set (NewDNSQueriesList db t0 events) \<Longrightarrow> a \<in> set (dns_Answers q) \<Longrightarrow>
     \<exists>qtype addr. a = makeAnswerEntry db qtype addr"
  by (induction db t0 events rule: NewDNSQueriesList.induct) (auto, (metis query_entry_answer)+)

definition addrs_asn :: "mmdb \<Rightarrow> (string, int) gomap \<Rightarrow> bool" where
  "addrs_asn db addrs \<longleftrightarrow> (\<forall>(ip, asn) \<in> set addrs. asn = wrap64 (int (fst (geoipx_LookupASN db ip))))"

lemma addrs_asn_update: "addrs_asn db addrs \<Longrightarrow> addrs_asn db (AList.update ip (wrap64 (int (fst (geoipx_LookupASN db ip)))) addrs)"
  unfolding addrs_asn_def by (induction addrs) auto

lemma add_answer_asn: "addrs_asn db addrs \<Longrightarrow> addrs_asn db (add_answer (makeAnswerEntry db qtype addr) addrs)"
  by (cases qtype) (auto simp: add_answer_def makeAnswerEntry_def case_prod_unfold Let_def addrs_asn_update)

lemma lookup_asn:
  assumes "ug_Queries (get ug_Config_zero (''dnslookup://'' @ url_Hostname u)) = NewDNSQueriesList db t0 events"
  shows "addrs_asn db (dl_Addrs (DNSLookup get u))"
proof -
  have inner: "addrs_asn db (fold add_answer as addrs)"
    if "\<And>a. a \<in> set as \<Longrightarrow> \<exists>qtype addr. a = makeAnswerEntry db qtype addr" "addrs_asn db addrs" for as addrs
    using that by (induction as arbitrary: addrs) (force simp: add_answer_asn)+
  have "addrs_asn db (fold (\<lambda>query addrs. fold add_answer (dns_Answers query) addrs) qs addrs)"
    if "set qs \<subseteq> set (NewDNSQueriesList db t0 events)" "addrs_asn db addrs" for qs addrs
    using that by (induction qs arbitrary: addrs) (auto intro: inner query_entries_asn)
  from this [of "NewDNSQueriesList db t0 events" "[]"] have
    "addrs_asn db (fold (\<lambda>query addrs. fold add_answer (dns_Answers query) addrs) (NewDNSQueriesList db t0 events) [])"
    by (simp add: addrs_asn_def)
  then show ?thesis unfolding DNSLookup_def Let_def assms by simp
qed

lemma some_marks:
  "list_ex (\<lambda>(k, v). P k \<and> seen_in_both v) (marks xs ys) \<longleftrightarrow> (\<exists>k. P k \<and> k \<in> set xs \<and> k \<in> set ys)"
  by (auto simp: list_ex_iff marks_elem case_prod_unfold) (metis seen_in_both_values prod.collapse marks_elem fst_conv snd_conv)+

lemma wrap64_0: "wrap64 0 = 0"
  by (simp add: wrap64_def)

lemma asn_set_nonzero:
  "asn_set (\<lambda>ip. Some (geoipx_LookupASN db ip)) ips - {0} = (\<lambda>ip. wrap64 (int (fst (geoipx_LookupASN db ip)))) ` ips - {0}"
proof -
  have pos: "0 < n" if "wrap64 (int n) \<noteq> 0" for n
    using that by (cases n) (simp_all add: wrap64_0)
  show ?thesis
    by (auto simp: asn_set_def utilsGeoipxLookupASN_def case_prod_unfold dest: pos split: if_splits intro!: bexI)
qed

lemma meet_without:
  fixes z :: 'a
  assumes "A - {z} = A' - {z}" and "B - {z} = B' - {z}"
  shows "A \<inter> B - {z} \<noteq> {} \<longleftrightarrow> (\<exists>k. k \<noteq> z \<and> k \<in> A' \<and> k \<in> B')"
proof -
  from assms have "(A - {z}) \<inter> (B - {z}) = (A' - {z}) \<inter> (B' - {z})" by simp
  moreover have "(C - {z}) \<inter> (D - {z}) = C \<inter> D - {z}" for C D :: "'a set" by auto
  ultimately have "A \<inter> B - {z} = A' \<inter> B' - {z}" by simp
  then show ?thesis by auto
qed

lemma DNSAnalysis_one_success:
  assumes "ParseIP (url_Hostname u) = None" and "dl_Failure m = None \<or> thdns_Failure (th_DNS control) = None"
  shows "DNSAnalysis u m control =
    (if list_ex (\<lambda>(k, v). k \<noteq> 0 \<and> seen_in_both v) (marks (gmap_vals (dl_Addrs m)) (thdns_ASNs (th_DNS control))) \<or>
        list_ex (\<lambda>(k, v). k \<noteq> '''' \<and> seen_in_both v) (marks (gmap_keys (dl_Addrs m)) (thdns_Addrs (th_DNS control)))
     then DNSConsistent else DNSInconsistent)"
  using assms by (auto simp: DNSAnalysis_def Let_def marks_def split: option.split)

lemma addrs_asn_vals:
  "addrs_asn db addrs \<Longrightarrow> set (gmap_vals addrs) = (\<lambda>ip. wrap64 (int (fst (geoipx_LookupASN db ip)))) ` set (gmap_keys addrs)"
  by (force simp: addrs_asn_def image_iff)

lemma Control_ok:
  "Control db call testhelpers creq = Some (control, helper, None) \<Longrightarrow>
     thdns_ASNs (th_DNS control) = map (\<lambda>ip. wrap64 (int (fst (geoipx_LookupASN db ip)))) (thdns_Addrs (th_DNS control))"
  by (auto simp: Control_def fillASNs_def split: sum.splits if_splits option.splits)

text \<open>
  C33: What the DNS analysis of Web Connectivity 0.4 decides, for every name and every pair of outcomes. A name that is an IP address is
  consistent. When the lookups of the probe and of the test helper both failed, they are consistent exactly when the test helper has the
  error of a name that does not exist and the probe has NXDOMAIN or no data in the Android cache. In all other cases the analysis agrees
  with the comparisons of the minipipeline: consistent exactly when the addresses that the probe resolved and those that the test helper
  resolved share an AS number or an address. This is for the answers that the getter annotates with the AS numbers of a database and a
  control that succeeded and was filled in from the same database.
\<close>

theorem dns_analysis_agrees:
  assumes "ug_Queries (get ug_Config_zero (''dnslookup://'' @ url_Hostname u)) = NewDNSQueriesList db t0 events"
    and "Control db call testhelpers creq = Some (control, helper, None)"
  shows "DNSAnalysis u (DNSLookup get u) control =
    (if (if ParseIP (url_Hostname u) \<noteq> None then True
         else if dl_Failure (DNSLookup get u) \<noteq> None \<and> thdns_Failure (th_DNS control) \<noteq> None
         then thdns_Failure (th_DNS control) = Some DNSNameError \<and>
           dl_Failure (DNSLookup get u) \<in> {Some FailureDNSNXDOMAINError, Some FailureAndroidDNSCacheNoData}
         else DNSDiffFindCommonASNsIntersection (\<lambda>ip. Some (geoipx_LookupASN db ip))
             (set (DNSLookupResult_Addresses (DNSLookup get u))) (set (thdns_Addrs (th_DNS control))) \<noteq> {} \<or>
           DNSDiffFindCommonIPAddressIntersection
             (set (DNSLookupResult_Addresses (DNSLookup get u))) (set (thdns_Addrs (th_DNS control))) \<noteq> {})
     then DNSConsistent else DNSInconsistent)"
proof (cases "ParseIP (url_Hostname u) = None \<and> (dl_Failure (DNSLookup get u) = None \<or> thdns_Failure (th_DNS control) = None)")
  case False
  then show ?thesis by (auto simp: DNSAnalysis_def)
next
  case True
  let ?asn = "\<lambda>ip. wrap64 (int (fst (geoipx_LookupASN db ip)))"
  let ?ours = "set (gmap_keys (dl_Addrs (DNSLookup get u)))"
  let ?theirs = "set (thdns_Addrs (th_DNS control))"
  have vals: "set (gmap_vals (dl_Addrs (DNSLookup get u))) = ?asn ` ?ours"
    using addrs_asn_vals lookup_asn [of get u db t0 events] assms(1) by blast
  have asns: "set (thdns_ASNs (th_DNS control)) = ?asn ` ?theirs"
    using Control_ok [OF assms(2)] by simp
  have 1: "DNSDiffFindCommonASNsIntersection (\<lambda>ip. Some (geoipx_LookupASN db ip)) ?ours ?theirs \<noteq> {} \<longleftrightarrow>
      (\<exists>k. k \<noteq> 0 \<and> k \<in> ?asn ` ?ours \<and> k \<in> ?asn ` ?theirs)"
    using meet_without [OF asn_set_nonzero [of db ?ours] asn_set_nonzero [of db ?theirs]] by (simp add: common_asns)
  have 2: "DNSDiffFindCommonIPAddressIntersection ?ours ?theirs \<noteq> {} \<longleftrightarrow> (\<exists>k. k \<noteq> '''' \<and> k \<in> ?ours \<and> k \<in> ?theirs)"
    by (simp add: common_addresses) blast
  have 3: "set (DNSLookupResult_Addresses (DNSLookup get u)) = ?ours" by (simp add: DNSLookupResult_Addresses_def)
  have "(ParseIP (url_Hostname u) \<noteq> None) = False"
      "(dl_Failure (DNSLookup get u) \<noteq> None \<and> thdns_Failure (th_DNS control) \<noteq> None) = False" using True by auto
  then show ?thesis
    unfolding DNSAnalysis_one_success [OF conjunct1 [OF True] conjunct2 [OF True]] some_marks vals asns 1 2 3 by (simp only: if_False)
qed

lemma NewEndpointPort_None:
  "url_Scheme u = ''http'' \<or> url_Scheme u = ''https'' \<Longrightarrow>
     NewEndpointPort u = None \<longleftrightarrow> url_Host u \<noteq> url_Hostname u \<and> (\<exists>err. SplitHostPort (url_Host u) = Inl err)"
  by (auto simp: NewEndpointPort_def Let_def split: sum.split prod.split)

lemma Control_failure:
  assumes "\<And>out idx. call creq = Inr (out, idx) \<Longrightarrow> idx < length testhelpers"
  shows "\<exists>control helper err f. Control db call testhelpers creq = Some (control, helper, err) \<and> tracex_NewFailure err = Some f"
proof (cases "call creq")
  case (Inl e)
  have "is_wrapped (wrap_error ClassifyGenericError TopLevelOperation e)" by simp
  from tracex_NewFailure_wrapped [OF this] Inl show ?thesis by (auto simp: Control_def top_level_wrapper)
next
  case (Inr r)
  then show ?thesis using assms
    by (cases r) (auto simp: Control_def tracex_NewFailure_def NewFailureStr_def)
qed

lemma wc_measure_None:
  assumes "\<And>creq out idx. we_call env creq = Inr (out, idx) \<Longrightarrow> idx < length (we_testhelpers env)"
  shows "wc_measure env u = None \<longleftrightarrow> NewEndpointPort u = None"
proof (cases "NewEndpoints u (DNSLookupResult_Addresses (DNSLookup (we_get env) u))")
  case None
  then show ?thesis by (simp add: wc_measure_def Let_def NewEndpoints_def bind_eq_None_conv)
next
  case (Some epnts)
  let ?creq = "\<lparr>thr_HTTPRequest = we_url_String env u,
    thr_HTTPRequestHeaders = [(''Accept'', [HTTPHeaderAccept]), (''Accept-Language'', [HTTPHeaderAcceptLanguage]),
      (''User-Agent'', [HTTPHeaderUserAgent])],
    thr_TCPConnect = EndpointsList_Endpoints epnts, thr_XQUICEnabled = False\<rparr>"
  obtain control helper err f where
    "Control (we_db env) (we_call env) (we_testhelpers env) ?creq = Some (control, helper, err)" "tracex_NewFailure err = Some f"
    using Control_failure assms by metis
  with Some show ?thesis by (auto simp: wc_measure_def Let_def NewEndpoints_def bind_eq_Some_conv case_prod_unfold)
qed

text \<open>
  When both sides got an HTTP response, the HTTP analysis of Web Connectivity 0.4 is expressed by the comparisons of the
  minipipeline. The status code match agrees with the minipipeline's, except that a difference from a control code other than 2xx and
  5xx counts as a mismatch here and as unknown there. The headers match when both sides sent the same names or share an
  uncommon one. For a body that was not truncated, the title matches when no long word differs, and is unknown when the page
  has none; and the body length matches when the proportion factor is greater than 0.7.
\<close>

theorem http_analysis_agrees:
  assumes "ug_Requests tk = req # rest" and "resp_Code (http_Response req) = m" and "m > 0"
    and "thhttp_StatusCode (th_HTTPRequest ctrl) = c" and "c > 0"
  shows "ha_StatusCodeMatch (HTTPAnalysis uni tk ctrl) =
      (if m \<noteq> c \<and> go_div c 100 \<notin> {2, 5} then Some False else ComputeHTTPDiffStatusCodeMatch m c) \<and>
    ha_HeadersMatch (HTTPAnalysis uni tk ctrl) = Some (
      to_lower uni ` set (gmap_keys (resp_Headers (http_Response req))) =
        to_lower uni ` set (gmap_keys (thhttp_Headers (th_HTTPRequest ctrl))) \<or>
      ComputeHTTPDiffUncommonHeadersIntersection uni (header_keys (resp_Headers (http_Response req)))
        (header_keys (thhttp_Headers (th_HTTPRequest ctrl))) \<noteq> []) \<and>
    (\<not> resp_BodyIsTruncated (http_Response req) \<longrightarrow>
      ha_TitleMatch (HTTPAnalysis uni tk ctrl) =
        (if WebGetTitle (resp_Body (http_Response req)) = '''' then None
         else Some (ComputeHTTPDiffTitleDifferentLongWords uni (WebGetTitle (resp_Body (http_Response req)))
           (thhttp_Title (th_HTTPRequest ctrl)) = []))) \<and>
    (\<not> resp_BodyIsTruncated (http_Response req) \<and> resp_Body (http_Response req) \<noteq> '''' \<and>
     thhttp_BodyLength (th_HTTPRequest ctrl) > 0 \<longrightarrow>
      ha_BodyProportion (HTTPAnalysis uni tk ctrl) = ComputeHTTPDiffBodyProportionFactor
        (int (length (resp_Body (http_Response req)))) (thhttp_BodyLength (th_HTTPRequest ctrl)) \<and>
      ha_BodyLengthMatch (HTTPAnalysis uni tk ctrl) = Some (ha_BodyProportion (HTTPAnalysis uni tk ctrl) > f64 (7 / 10)))"
  using assms HTTPStatusCodeMatch_eq [of tk req rest ctrl] HTTPHeadersMatch_eq [of tk req rest ctrl uni]
    HTTPTitleMatch_eq [of tk req rest ctrl uni] HTTPBodyLengthChecks_eq [of tk req rest ctrl]
  by (simp add: HTTPAnalysis_def Let_def)

definition sample_event :: EventValue where
  "sample_event = \<lparr>ev_Addresses = [''93.184.216.34''], ev_Address = '''', ev_DNSQuery = '''', ev_DNSResponse = '''', ev_Data = '''',
     ev_Duration = 0, ev_Err = '''', ev_HTTPMethod = ''GET'', ev_HTTPRequestHeaders = [], ev_HTTPResponseHeaders = [],
     ev_HTTPResponseBody = ''blocked'', ev_HTTPResponseBodyIsTruncated = False, ev_HTTPStatusCode = 404,
     ev_HTTPURL = ''http://example.com/'', ev_Hostname = ''example.com'', ev_NoTLSVerify = False, ev_NumBytes = 0, ev_Proto = ''udp'',
     ev_TLSServerName = '''', ev_TLSCipherSuite = '''', ev_TLSNegotiatedProto = '''', ev_TLSNextProtos = [], ev_TLSPeerCerts = [],
     ev_TLSVersion = '''', ev_Time = 0, ev_Transport = ''''\<rparr>"

definition sample_request :: ArchivalHTTPRequestResult where
  "sample_request = request_entry 0 sample_event"

definition sample_control :: THResponse where
  "sample_control = THResponse_zero\<lparr>th_HTTPRequest := (th_HTTPRequest THResponse_zero)\<lparr>thhttp_StatusCode := 301\<rparr>\<rparr>"

theorem http_analysis_agrees_witness:
  "ha_StatusCodeMatch (HTTPAnalysis id (ug_TestKeys_zero\<lparr>ug_Requests := [sample_request]\<rparr>) sample_control) = Some False"
  using http_analysis_agrees [of "ug_TestKeys_zero\<lparr>ug_Requests := [sample_request]\<rparr>" sample_request "[]" 404 sample_control 301 id]
  by (simp add: sample_request_def sample_event_def sample_control_def request_entry_def THResponse_zero_def go_div_def)

text \<open>
  C34: The run of Web Connectivity 0.4 always returns test keys or one of its errors, with one exception. It panics exactly when the URL is
  supported, there are test helpers, and the host of the URL differs from the host name but has no port that can be split off. This is
  so whatever the network does, as long as the helper that answered is one of those that were passed.
\<close>

theorem wc_run_panics_iff:
  assumes "\<And>creq out idx. we_call env creq = Inr (out, idx) \<Longrightarrow> idx < length (we_testhelpers env)"
  shows "wc_Run env input = None \<longleftrightarrow>
    input \<noteq> '''' \<and> we_testhelpers env \<noteq> [] \<and>
    (\<exists>u err. we_url_Parse env input = Inr u \<and> (url_Scheme u = ''http'' \<or> url_Scheme u = ''https'') \<and>
       url_Host u \<noteq> url_Hostname u \<and> SplitHostPort (url_Host u) = Inl err)"
  using wc_measure_None [OF assms] by (auto simp: wc_Run_def NewEndpointPort_None split: sum.split)

text \<open>An IPv6 address without a port is such a URL: its host has brackets and its host name has none.\<close>

definition ipv6_env :: wc_env where
  "ipv6_env = \<lparr>we_ResolverIP = ''127.0.0.1'',
     we_url_Parse = (\<lambda>_. Inr \<lparr>url_Scheme = ''http'', url_Host = ''[::1]'', url_Hostname = ''::1''\<rparr>),
     we_url_String = (\<lambda>_. ''http://[::1]/''),
     we_testhelpers = [\<lparr>svc_Address = ''https://0.th.ooni.org'', svc_Type = ''https'', svc_Front = ''''\<rparr>],
     we_get = (\<lambda>_ _. ug_TestKeys_zero), we_call = (\<lambda>_. Inl (GoError OtherError ''timeout'' [])), we_collect = (\<lambda>_. []),
     we_db = (\<lambda>_. None), we_uni = id\<rparr>"

theorem wc_run_panics_iff_witness: "wc_Run ipv6_env ''http://[::1]/'' = None"
proof -
  have "\<exists>err. SplitHostPort ''[::1]'' = Inl err" by (simp add: SplitHostPort_def)
  then show ?thesis
    using wc_run_panics_iff [of ipv6_env "''http://[::1]/''"] by (simp add: ipv6_env_def)
qed

definition lookup_keys :: ug_TestKeys where
  "lookup_keys = ug_TestKeys_zero\<lparr>ug_Queries := NewDNSQueriesList (\<lambda>_. None) 0 [EventResolveDone sample_event]\<rparr>"

definition sample_answer :: THResponse where
  "sample_answer = THResponse_zero\<lparr>th_DNS := \<lparr>thdns_Failure = None, thdns_Addrs = [''93.184.216.34''], thdns_ASNs = [0]\<rparr>\<rparr>"

definition sample_helper :: OOAPIService where
  "sample_helper = \<lparr>svc_Address = ''https://0.th.ooni.org'', svc_Type = ''https'', svc_Front = ''''\<rparr>"

definition sample_url :: url where
  "sample_url = \<lparr>url_Scheme = ''http'', url_Host = ''example.com'', url_Hostname = ''example.com''\<rparr>"

lemma sample_addresses: "DNSLookupResult_Addresses (DNSLookup (\<lambda>_ _. lookup_keys) sample_url) = [''93.184.216.34'']"
  by code_simp

theorem dns_analysis_agrees_witness:
  "DNSAnalysis sample_url (DNSLookup (\<lambda>_ _. lookup_keys) sample_url) sample_answer = DNSConsistent"
proof -
  have "Control (\<lambda>_. None) (\<lambda>_. Inr (sample_answer, 0)) [sample_helper] creq = Some (sample_answer, Some sample_helper, None)" for creq
    by (simp add: Control_def sample_answer_def fillASNs_def geoipx_LookupASN_def wrap64_0)
  moreover have "ParseIP (url_Hostname sample_url) = None" by code_simp
  moreover have "thdns_Failure (th_DNS sample_answer) = None" "set (thdns_Addrs (th_DNS sample_answer)) = {''93.184.216.34''}"
    by (simp_all add: sample_answer_def)
  moreover have "ug_Queries lookup_keys = NewDNSQueriesList (\<lambda>_. None) 0 [EventResolveDone sample_event]"
    by (simp add: lookup_keys_def)
  ultimately show ?thesis
    using dns_analysis_agrees [of "\<lambda>_ _. lookup_keys" sample_url "\<lambda>_. None" 0 "[EventResolveDone sample_event]"
        "\<lambda>_. Inr (sample_answer, 0)" "[sample_helper]" undefined sample_answer "Some sample_helper"]
    by (simp add: sample_addresses common_addresses)
qed

end
