(* ===== verification/MeasureX.thy ===== *)
theory MeasureX
  imports Urlgetter
begin

text \<open>
  The tracing library of the experiments, \<open>internal/measurexlite\<close>: a trace collects the events of one task in
  buffered channels (\<open>trace.go\<close>), the callbacks of the dialer, the connections, the TLS handshaker, the QUIC dialer and the
  resolver insert into them (\<open>dialer.go\<close>, \<open>conn.go\<close>, \<open>tls.go\<close>, \<open>quic.go\<close>, \<open>dns.go\<close>), and the constructors turn
  an event into its archival format; \<open>http.go\<close> does so for HTTP transactions. A buffered channel is the list of
  its elements; a send that would block is dropped, as in the \<open>select\<close> statements of the source. Times are in
  nanoseconds, as durations since the zero time of the trace once they are inside of an event.
  The TLS version and cipher suite names are those of \<open>internal/netxlite/tls.go\<close>.
\<close>

section \<open>Names of TLS parameters\<close>

definition tlsVersionString :: "(16 word, string) gomap" where
  "tlsVersionString = [(769, ''TLSv1''), (770, ''TLSv1.1''), (771, ''TLSv1.2''), (772, ''TLSv1.3''), (0, '''')]"

definition tlsCipherSuiteString :: "(16 word, string) gomap" where
  "tlsCipherSuiteString = [
     (0x0005, ''TLS_RSA_WITH_RC4_128_SHA''), (0x000a, ''TLS_RSA_WITH_3DES_EDE_CBC_SHA''),
     (0x002f, ''TLS_RSA_WITH_AES_128_CBC_SHA''), (0x0035, ''TLS_RSA_WITH_AES_256_CBC_SHA''),
     (0x003c, ''TLS_RSA_WITH_AES_128_CBC_SHA256''), (0x009c, ''TLS_RSA_WITH_AES_128_GCM_SHA256''),
     (0x009d, ''TLS_RSA_WITH_AES_256_GCM_SHA384''), (0xc007, ''TLS_ECDHE_ECDSA_WITH_RC4_128_SHA''),
     (0xc009, ''TLS_ECDHE_ECDSA_WITH_AES_128_CBC_SHA''), (0xc00a, ''TLS_ECDHE_ECDSA_WITH_AES_256_CBC_SHA''),
     (0xc011, ''TLS_ECDHE_RSA_WITH_RC4_128_SHA''), (0xc012, ''TLS_ECDHE_RSA_WITH_3DES_EDE_CBC_SHA''),
     (0xc013, ''TLS_ECDHE_RSA_WITH_AES_128_CBC_SHA''), (0xc014, ''TLS_ECDHE_RSA_WITH_AES_256_CBC_SHA''),
     (0xc023, ''TLS_ECDHE_ECDSA_WITH_AES_128_CBC_SHA256''), (0xc027, ''TLS_ECDHE_RSA_WITH_AES_128_CBC_SHA256''),
     (0xc02f, ''TLS_ECDHE_RSA_WITH_AES_128_GCM_SHA256''), (0xc02b, ''TLS_ECDHE_ECDSA_WITH_AES_128_GCM_SHA256''),
     (0xc030, ''TLS_ECDHE_RSA_WITH_AES_256_GCM_SHA384''), (0xc02c, ''TLS_ECDHE_ECDSA_WITH_AES_256_GCM_SHA384''),
     (0xcca8, ''TLS_ECDHE_RSA_WITH_CHACHA20_POLY1305''), (0xcca9, ''TLS_ECDHE_ECDSA_WITH_CHACHA20_POLY1305''),
     (0x1301, ''TLS_AES_128_GCM_SHA256''), (0x1302, ''TLS_AES_256_GCM_SHA384''),
     (0x1303, ''TLS_CHACHA20_POLY1305_SHA256''), (0, '''')]"

definition TLSVersionString :: "16 word \<Rightarrow> string" where
  "TLSVersionString v =
     (case gmap_get tlsVersionString v of Some str \<Rightarrow> str | None \<Rightarrow> ''TLS_VERSION_UNKNOWN_'' @ itoa (uint v))"

definition TLSCipherSuiteString :: "16 word \<Rightarrow> string" where
  "TLSCipherSuiteString v =
     (case gmap_get tlsCipherSuiteString v of Some str \<Rightarrow> str | None \<Rightarrow> ''TLS_CIPHER_SUITE_UNKNOWN_'' @ itoa (uint v))"

section \<open>Traces\<close>

record Trace =
  trace_index :: int
  bytesReceivedMap :: "(string, int) gomap"
  trace_dnsLookup :: "ArchivalDNSLookupResult list"
  trace_delayedDNSResponse :: "ArchivalDNSLookupResult list"
  trace_networkEvent :: "ArchivalNetworkEvent list"
  trace_tcpConnect :: "ArchivalTCPConnectResult list"
  trace_tlsHandshake :: "ArchivalTLSOrQUICHandshakeResult list"
  trace_quicHandshake :: "ArchivalTLSOrQUICHandshakeResult list"
  trace_tags :: "string list"
  trace_zeroTime :: int

definition NetworkEventBufferSize :: nat where "NetworkEventBufferSize = 64"
definition DNSLookupBufferSize :: nat where "DNSLookupBufferSize = 8"
definition DelayedDNSResponseBufferSize :: nat where "DelayedDNSResponseBufferSize = 8"
definition TCPConnectBufferSize :: nat where "TCPConnectBufferSize = 8"
definition TLSHandshakeBufferSize :: nat where "TLSHandshakeBufferSize = 8"
definition QUICHandshakeBufferSize :: nat where "QUICHandshakeBufferSize = 8"

definition NewTrace :: "int \<Rightarrow> int \<Rightarrow> string list \<Rightarrow> Trace" where
  "NewTrace index zeroTime tags =
     \<lparr>trace_index = index, bytesReceivedMap = [], trace_dnsLookup = [], trace_delayedDNSResponse = [],
      trace_networkEvent = [], trace_tcpConnect = [], trace_tlsHandshake = [], trace_quicHandshake = [],
      trace_tags = tags, trace_zeroTime = zeroTime\<rparr>"

text \<open>A send in a \<open>select\<close> with an empty default: it is dropped when the buffer is full.\<close>

definition try_send :: "nat \<Rightarrow> 'a \<Rightarrow> 'a list \<Rightarrow> 'a list" where
  "try_send capacity ev ch = (if length ch < capacity then ch @ [ev] else ch)"

definition copyAndNormalizeTags :: "string list \<Rightarrow> string list" where
  "copyAndNormalizeTags tags = tags"

text \<open>\<open>NewFailure\<close> never panics, so its value is taken.\<close>

definition failure_value :: "go_error option \<Rightarrow> string option" where
  "failure_value err = (case NewFailure err of Some f \<Rightarrow> f | None \<Rightarrow> None)"

section \<open>Network events\<close>

definition NewArchivalNetworkEvent ::
    "int \<Rightarrow> int \<Rightarrow> string \<Rightarrow> string \<Rightarrow> string \<Rightarrow> int \<Rightarrow> go_error option \<Rightarrow> int \<Rightarrow> string list \<Rightarrow> ArchivalNetworkEvent" where
  "NewArchivalNetworkEvent index started operation network address n err finished tags =
     \<lparr>net_Address = address, net_Failure = failure_value err, net_NumBytes = n, net_Operation = operation,
      net_Proto = network, net_T0 = Duration_Seconds started, net_T = Duration_Seconds finished,
      net_TransactionID = index, net_Tags = copyAndNormalizeTags tags\<rparr>"

definition NewAnnotationArchivalNetworkEvent :: "int \<Rightarrow> int \<Rightarrow> string \<Rightarrow> string list \<Rightarrow> ArchivalNetworkEvent" where
  "NewAnnotationArchivalNetworkEvent index t operation tags =
     NewArchivalNetworkEvent index t operation '''' '''' 0 None t tags"

definition emit_event :: "ArchivalNetworkEvent \<Rightarrow> Trace \<Rightarrow> Trace" where
  "emit_event ev tx = tx\<lparr>trace_networkEvent := try_send NetworkEventBufferSize ev (trace_networkEvent tx)\<rparr>"

text \<open>A time read from the clock as the duration since the zero time.\<close>

definition since_zero :: "Trace \<Rightarrow> int \<Rightarrow> int" where
  "since_zero tx t = time_Sub t (trace_zeroTime tx)"

definition updateBytesReceivedMapNetConn :: "string \<Rightarrow> string \<Rightarrow> int \<Rightarrow> Trace \<Rightarrow> Trace" where
  "updateBytesReceivedMapNetConn network address n tx =
     (let network = (if network \<in> {''udp'', ''udp4'', ''udp6''} then ''udp''
                     else if network \<in> {''tcp'', ''tcp4'', ''tcp6''} then ''tcp'' else network);
          key = address @ '' '' @ network;
          v = (case gmap_get (bytesReceivedMap tx) key of None \<Rightarrow> 0 | Some v \<Rightarrow> v)
      in tx\<lparr>bytesReceivedMap := AList.update key (wrap64 (v + n)) (bytesReceivedMap tx)\<rparr>)"

definition CloneBytesReceivedMap :: "Trace \<Rightarrow> (string, int) gomap" where
  "CloneBytesReceivedMap tx = fold (\<lambda>(key, v) out. AList.update key v out) (bytesReceivedMap tx) []"

text \<open>
  Reading and writing on a traced connection, given what the operation returned and the two readings of the clock. The
  address of the peer is the pair of its network and its text.
\<close>

definition conn_Read :: "string \<times> string \<Rightarrow> int \<Rightarrow> int \<times> go_error option \<Rightarrow> int \<Rightarrow> Trace \<Rightarrow> Trace" where
  "conn_Read peer started res finished tx =
     updateBytesReceivedMapNetConn (fst peer) (snd peer) (fst res)
       (emit_event (NewArchivalNetworkEvent (trace_index tx) (since_zero tx started) ReadOperation (fst peer) (snd peer)
          (fst res) (snd res) (since_zero tx finished) (trace_tags tx)) tx)"

definition conn_Write :: "string \<times> string \<Rightarrow> int \<Rightarrow> int \<times> go_error option \<Rightarrow> int \<Rightarrow> Trace \<Rightarrow> Trace" where
  "conn_Write peer started res finished tx =
     emit_event (NewArchivalNetworkEvent (trace_index tx) (since_zero tx started) WriteOperation (fst peer) (snd peer)
       (fst res) (snd res) (since_zero tx finished) (trace_tags tx)) tx"

definition udp_ReadFrom ::
    "int \<Rightarrow> int \<times> (string \<times> string) option \<times> go_error option \<Rightarrow> int \<Rightarrow> Trace \<Rightarrow> Trace" where
  "udp_ReadFrom started res finished tx =
     (let (n, addr, err) = res;
          address = (case addr of Some (_, s) \<Rightarrow> s | None \<Rightarrow> '''');
          tx = emit_event (NewArchivalNetworkEvent (trace_index tx) (since_zero tx started) ReadFromOperation ''udp'' address
                 n err (since_zero tx finished) (trace_tags tx)) tx
      in case addr of Some (network, s) \<Rightarrow> updateBytesReceivedMapNetConn network s n tx | None \<Rightarrow> tx)"

definition udp_WriteTo :: "string \<Rightarrow> int \<Rightarrow> int \<times> go_error option \<Rightarrow> int \<Rightarrow> Trace \<Rightarrow> Trace" where
  "udp_WriteTo address started res finished tx =
     emit_event (NewArchivalNetworkEvent (trace_index tx) (since_zero tx started) WriteToOperation ''udp'' address
       (fst res) (snd res) (since_zero tx finished) (trace_tags tx)) tx"

definition NetworkEvents :: "Trace \<Rightarrow> ArchivalNetworkEvent list \<times> Trace" where
  "NetworkEvents tx = (trace_networkEvent tx, tx\<lparr>trace_networkEvent := []\<rparr>)"

definition first_or_nil :: "'a list \<Rightarrow> 'a option" where
  "first_or_nil ev = (if length ev < 1 then None else Some (ev ! 0))"

definition FirstNetworkEventOrNil :: "Trace \<Rightarrow> ArchivalNetworkEvent option \<times> Trace" where
  "FirstNetworkEventOrNil tx = (let (ev, tx) = NetworkEvents tx in (first_or_nil ev, tx))"

section \<open>TCP connects\<close>

definition archivalSplitHostPort :: "string \<Rightarrow> string \<times> string" where
  "archivalSplitHostPort endpoint = (case SplitHostPort endpoint of Inl _ \<Rightarrow> ('''', '''') | Inr (addr, port) \<Rightarrow> (addr, port))"

definition archivalPortToString :: "string \<Rightarrow> int" where
  "archivalPortToString sport =
     (case parse_int64 sport of None \<Rightarrow> 0 | Some port \<Rightarrow> if port < 0 \<or> port > 65535 then 0 else port)"

definition NewArchivalTCPConnectResult ::
    "int \<Rightarrow> int \<Rightarrow> string \<Rightarrow> go_error option \<Rightarrow> int \<Rightarrow> string list \<Rightarrow> ArchivalTCPConnectResult" where
  "NewArchivalTCPConnectResult index started address err finished tags =
     (let (ip, port) = archivalSplitHostPort address
      in \<lparr>tcp_IP = ip, tcp_Port = archivalPortToString port,
          tcp_Status = \<lparr>st_Blocked = None, st_Failure = failure_value err, st_Success = (err = None)\<rparr>,
          tcp_T0 = Duration_Seconds started, tcp_T = Duration_Seconds finished, tcp_Tags = copyAndNormalizeTags tags,
          tcp_TransactionID = index\<rparr>)"

definition OnConnectDone :: "int \<Rightarrow> string \<Rightarrow> string \<Rightarrow> go_error option \<Rightarrow> int \<Rightarrow> Trace \<Rightarrow> Trace" where
  "OnConnectDone started network remoteAddr err finished tx =
     (if network \<in> {''tcp'', ''tcp4'', ''tcp6''}
      then emit_event (NewArchivalNetworkEvent (trace_index tx) (since_zero tx started) ConnectOperation ''tcp'' remoteAddr 0
             err (since_zero tx finished) (trace_tags tx))
             (tx\<lparr>trace_tcpConnect := try_send TCPConnectBufferSize
               (NewArchivalTCPConnectResult (trace_index tx) (since_zero tx started) remoteAddr err (since_zero tx finished) (trace_tags tx))
               (trace_tcpConnect tx)\<rparr>)
      else tx)"

definition TCPConnects :: "Trace \<Rightarrow> ArchivalTCPConnectResult list \<times> Trace" where
  "TCPConnects tx = (trace_tcpConnect tx, tx\<lparr>trace_tcpConnect := []\<rparr>)"

definition FirstTCPConnectOrNil :: "Trace \<Rightarrow> ArchivalTCPConnectResult option \<times> Trace" where
  "FirstTCPConnectOrNil tx = (let (ev, tx) = TCPConnects tx in (first_or_nil ev, tx))"

section \<open>TLS and QUIC handshakes\<close>

record tls_state =
  cs_Version :: "16 word"
  cs_CipherSuite :: "16 word"
  cs_NegotiatedProtocol :: string
  cs_PeerCertificates :: "string list"

text \<open>\<open>raw\<close> gives the certificate that an X.509 error carries.\<close>

definition TLSPeerCerts :: "(go_error \<Rightarrow> string) \<Rightarrow> tls_state \<Rightarrow> go_error option \<Rightarrow> string list" where
  "TLSPeerCerts raw state err =
     (case err of
        None \<Rightarrow> cs_PeerCertificates state
      | Some e \<Rightarrow>
          if errors_Is HostnameError e then [raw e]
          else if errors_Is UnknownAuthorityError e then [raw e]
          else if errors_Is CertificateInvalidError e then [raw e]
          else cs_PeerCertificates state)"

definition NewArchivalTLSOrQUICHandshakeResult ::
    "(go_error \<Rightarrow> string) \<Rightarrow> int \<Rightarrow> int \<Rightarrow> string \<Rightarrow> string \<Rightarrow> tls_config \<Rightarrow> tls_state \<Rightarrow> go_error option \<Rightarrow> int \<Rightarrow> string list \<Rightarrow>
     ArchivalTLSOrQUICHandshakeResult" where
  "NewArchivalTLSOrQUICHandshakeResult raw index started network address config state err finished tags =
     \<lparr>tls_Network = network, tls_Address = address, tls_CipherSuite = TLSCipherSuiteString (cs_CipherSuite state),
      tls_Failure = failure_value err, tls_SoError = None, tls_NegotiatedProtocol = cs_NegotiatedProtocol state,
      tls_NoTLSVerify = tc_InsecureSkipVerify config, tls_PeerCertificates = TLSPeerCerts raw state err,
      tls_ServerName = tc_ServerName config, tls_OuterServerName = '''', tls_ECHConfig = '''',
      tls_T0 = Duration_Seconds started, tls_T = Duration_Seconds finished, tls_Tags = copyAndNormalizeTags tags,
      tls_TLSVersion = TLSVersionString (cs_Version state), tls_TransactionID = index\<rparr>"

definition OnTLSHandshakeStart :: "int \<Rightarrow> string \<Rightarrow> Trace \<Rightarrow> Trace" where
  "OnTLSHandshakeStart now remoteAddr tx =
     emit_event (NewArchivalNetworkEvent (trace_index tx) (since_zero tx now) ''tls_handshake_start'' ''tcp'' remoteAddr 0 None
       (since_zero tx now) (trace_tags tx)) tx"

definition OnTLSHandshakeDone ::
    "(go_error \<Rightarrow> string) \<Rightarrow> int \<Rightarrow> string \<Rightarrow> tls_config \<Rightarrow> tls_state \<Rightarrow> go_error option \<Rightarrow> int \<Rightarrow> Trace \<Rightarrow> Trace" where
  "OnTLSHandshakeDone raw started remoteAddr config state err finished tx =
     emit_event (NewArchivalNetworkEvent (trace_index tx) (since_zero tx finished) ''tls_handshake_done'' ''tcp'' remoteAddr 0 None
       (since_zero tx finished) (trace_tags tx))
       (tx\<lparr>trace_tlsHandshake := try_send TLSHandshakeBufferSize
          (NewArchivalTLSOrQUICHandshakeResult raw (trace_index tx) (since_zero tx started) ''tcp'' remoteAddr config state err
             (since_zero tx finished) (trace_tags tx)) (trace_tlsHandshake tx)\<rparr>)"

definition TLSHandshakes :: "Trace \<Rightarrow> ArchivalTLSOrQUICHandshakeResult list \<times> Trace" where
  "TLSHandshakes tx = (trace_tlsHandshake tx, tx\<lparr>trace_tlsHandshake := []\<rparr>)"

definition FirstTLSHandshakeOrNil :: "Trace \<Rightarrow> ArchivalTLSOrQUICHandshakeResult option \<times> Trace" where
  "FirstTLSHandshakeOrNil tx = (let (ev, tx) = TLSHandshakes tx in (first_or_nil ev, tx))"

definition OnQUICHandshakeStart :: "int \<Rightarrow> Trace \<Rightarrow> Trace" where
  "OnQUICHandshakeStart now tx =
     emit_event (NewAnnotationArchivalNetworkEvent (trace_index tx) (since_zero tx now) ''quic_handshake_start'' (trace_tags tx)) tx"

text \<open>The state is that of the connection, or the zero state without a connection.\<close>

definition OnQUICHandshakeDone ::
    "(go_error \<Rightarrow> string) \<Rightarrow> int \<Rightarrow> string \<Rightarrow> tls_state option \<Rightarrow> tls_config \<Rightarrow> go_error option \<Rightarrow> int \<Rightarrow> Trace \<Rightarrow> Trace" where
  "OnQUICHandshakeDone raw started remoteAddr qconn config err finished tx =
     (let state = (case qconn of Some state \<Rightarrow> state
        | None \<Rightarrow> \<lparr>cs_Version = 0, cs_CipherSuite = 0, cs_NegotiatedProtocol = '''', cs_PeerCertificates = []\<rparr>)
      in emit_event (NewAnnotationArchivalNetworkEvent (trace_index tx) (since_zero tx finished) ''quic_handshake_done'' (trace_tags tx))
           (tx\<lparr>trace_quicHandshake := try_send QUICHandshakeBufferSize
              (NewArchivalTLSOrQUICHandshakeResult raw (trace_index tx) (since_zero tx started) ''udp'' remoteAddr config state err
                 (since_zero tx finished) (trace_tags tx)) (trace_quicHandshake tx)\<rparr>))"

definition QUICHandshakes :: "Trace \<Rightarrow> ArchivalTLSOrQUICHandshakeResult list \<times> Trace" where
  "QUICHandshakes tx = (trace_quicHandshake tx, tx\<lparr>trace_quicHandshake := []\<rparr>)"

definition FirstQUICHandshakeOrNil :: "Trace \<Rightarrow> ArchivalTLSOrQUICHandshakeResult option \<times> Trace" where
  "FirstQUICHandshakeOrNil tx = (let (ev, tx) = QUICHandshakes tx in (first_or_nil ev, tx))"

section \<open>DNS lookups\<close>

definition maybeResponseRcode :: "dns_response option \<Rightarrow> int" where
  "maybeResponseRcode resp =
     (case resp of Some (DnsResponse _ msg _) \<Rightarrow> msg_Rcode msg | _ \<Rightarrow> 0)"

text \<open>The bytes of a \<open>getaddrinfo\<close> result are nil.\<close>

definition maybeRawResponse :: "dns_response option \<Rightarrow> string" where
  "maybeRawResponse resp =
     (case resp of Some (DnsResponse data _ _) \<Rightarrow> map (\<lambda>b. char_of (unat b)) data | _ \<Rightarrow> '''')"

definition address_answer :: "mmdb \<Rightarrow> string \<Rightarrow> ArchivalDNSAnswer list" where
  "address_answer db addr =
     (case IsIPv6 addr of
        Inl _ \<Rightarrow> []
      | Inr ipv6 \<Rightarrow>
          let (asn, org) = geoipx_LookupASN db addr
          in [\<lparr>ans_ASN = wrap64 (int asn), ans_ASOrgName = org, ans_AnswerType = (if ipv6 then ''AAAA'' else ''A''),
               ans_Hostname = '''', ans_IPv4 = (if ipv6 then '''' else addr), ans_IPv6 = (if ipv6 then addr else ''''),
               ans_TTL = None\<rparr>])"

definition cname_answer :: "dns_response option \<Rightarrow> ArchivalDNSAnswer list" where
  "cname_answer resp =
     (case resp of
        None \<Rightarrow> []
      | Some r \<Rightarrow>
          (case DecodeCNAME r of
             Inl _ \<Rightarrow> []
           | Inr cname \<Rightarrow>
               if cname = '''' then []
               else [\<lparr>ans_ASN = 0, ans_ASOrgName = '''', ans_AnswerType = ''CNAME'', ans_Hostname = cname, ans_IPv4 = '''',
                      ans_IPv6 = '''', ans_TTL = None\<rparr>]))"

definition newArchivalDNSAnswers :: "mmdb \<Rightarrow> string list \<Rightarrow> dns_response option \<Rightarrow> ArchivalDNSAnswer list" where
  "newArchivalDNSAnswers db addrs resp = concat (map (address_answer db) addrs) @ cname_answer resp"

text \<open>
  \<open>reso\<close> is the network and the address of the resolver, \<open>retval\<close> the code that an error of \<open>getaddrinfo\<close> carries and \<open>qtype\<close>
  the table of the DNS library with the names of the query types.
\<close>

record lookup_env =
  le_db :: mmdb
  le_retval :: "go_error option \<Rightarrow> int"
  le_qtype :: "16 word \<Rightarrow> string"

definition NewArchivalDNSLookupResultFromRoundTrip ::
    "lookup_env \<Rightarrow> int \<Rightarrow> int \<Rightarrow> string \<times> string \<Rightarrow> dnsQuery \<Rightarrow> dns_response option \<Rightarrow> string list \<Rightarrow> go_error option \<Rightarrow> int \<Rightarrow>
     string list \<Rightarrow> ArchivalDNSLookupResult" where
  "NewArchivalDNSLookupResultFromRoundTrip env index started reso query response addrs err finished tags =
     \<lparr>dns_Answers = newArchivalDNSAnswers (le_db env) addrs response, dns_Engine = fst reso, dns_Failure = failure_value err,
      dns_GetaddrinfoError = le_retval env err, dns_Hostname = q_domain query, dns_QueryType = le_qtype env (q_kind query),
      dns_RawResponse = maybeRawResponse response, dns_Rcode = maybeResponseRcode response, dns_ResolverHostname = None,
      dns_ResolverPort = None, dns_ResolverAddress = snd reso, dns_T0 = Duration_Seconds started,
      dns_T = Duration_Seconds finished, dns_Tags = copyAndNormalizeTags tags, dns_TransactionID = index\<rparr>"

definition OnDNSRoundTripForLookupHost ::
    "lookup_env \<Rightarrow> int \<Rightarrow> string \<times> string \<Rightarrow> dnsQuery \<Rightarrow> dns_response option \<Rightarrow> string list \<Rightarrow> go_error option \<Rightarrow> int \<Rightarrow>
     Trace \<Rightarrow> Trace" where
  "OnDNSRoundTripForLookupHost env started reso query response addrs err finished tx =
     tx\<lparr>trace_dnsLookup := try_send DNSLookupBufferSize
          (NewArchivalDNSLookupResultFromRoundTrip env (trace_index tx) (since_zero tx started) reso query response addrs err
             (since_zero tx finished) (trace_tags tx)) (trace_dnsLookup tx)\<rparr>"

definition ErrDelayedDNSResponseBufferFull :: go_error where
  "ErrDelayedDNSResponseBufferFull = new_error ''measurexlite: the delayed-DNS-response channel buffer is full''"

definition OnDelayedDNSResponse ::
    "lookup_env \<Rightarrow> int \<Rightarrow> string \<times> string \<Rightarrow> dnsQuery \<Rightarrow> dns_response option \<Rightarrow> string list \<Rightarrow> go_error option \<Rightarrow> int \<Rightarrow>
     Trace \<Rightarrow> go_error option \<times> Trace" where
  "OnDelayedDNSResponse env started txp query response addrs err finished tx =
     (if length (trace_delayedDNSResponse tx) < DelayedDNSResponseBufferSize
      then (None, tx\<lparr>trace_delayedDNSResponse := trace_delayedDNSResponse tx @
              [NewArchivalDNSLookupResultFromRoundTrip env (trace_index tx) (since_zero tx started) txp query response addrs err
                 (since_zero tx finished) (trace_tags tx)]\<rparr>)
      else (Some ErrDelayedDNSResponseBufferFull, tx))"

definition DNSLookupsFromRoundTrip :: "Trace \<Rightarrow> ArchivalDNSLookupResult list \<times> Trace" where
  "DNSLookupsFromRoundTrip tx = (trace_dnsLookup tx, tx\<lparr>trace_dnsLookup := []\<rparr>)"

definition FirstDNSLookup :: "Trace \<Rightarrow> ArchivalDNSLookupResult option \<times> Trace" where
  "FirstDNSLookup tx = (let (ev, tx) = DNSLookupsFromRoundTrip tx in (first_or_nil ev, tx))"

text \<open>The methods of \<open>resolverTrace\<close> put the lookup between two annotations.\<close>

definition emitResolveStart :: "int \<Rightarrow> Trace \<Rightarrow> Trace" where
  "emitResolveStart now tx =
     emit_event (NewAnnotationArchivalNetworkEvent (trace_index tx) (since_zero tx now) ''resolve_start'' (trace_tags tx)) tx"

definition emiteResolveDone :: "int \<Rightarrow> Trace \<Rightarrow> Trace" where
  "emiteResolveDone now tx =
     emit_event (NewAnnotationArchivalNetworkEvent (trace_index tx) (since_zero tx now) ''resolve_done'' (trace_tags tx)) tx"

definition resolverTrace_LookupHost :: "int \<Rightarrow> (Trace \<Rightarrow> 'r \<times> Trace) \<Rightarrow> int \<Rightarrow> Trace \<Rightarrow> 'r \<times> Trace" where
  "resolverTrace_LookupHost started lookup finished tx =
     (let (r, tx) = lookup (emitResolveStart started tx) in (r, emiteResolveDone finished tx))"

section \<open>HTTP transactions\<close>

text \<open>A URL with all the parts that the experiments use; \<open>url_String\<close> is the result of \<open>String\<close>.\<close>

record URL = url +
  url_Port :: string
  url_Path :: string
  url_RawQuery :: string
  url_String :: string

record http_request =
  hreq_Method :: string
  hreq_URL :: "URL option"
  hreq_Host :: string
  hreq_Header :: http_header

record http_response =
  hresp_StatusCode :: int
  hresp_Header :: http_header
  hresp_Location :: "go_error + URL"
  hresp_Request :: "http_request option"

definition httpRequestMethod :: "http_request option \<Rightarrow> string" where
  "httpRequestMethod req = (case req of Some r \<Rightarrow> hreq_Method r | None \<Rightarrow> '''')"

definition newHTTPRequestHeaderList :: "http_request option \<Rightarrow> ArchivalHTTPHeader list" where
  "newHTTPRequestHeaderList req = ArchivalNewHTTPHeadersList (case req of Some r \<Rightarrow> hreq_Header r | None \<Rightarrow> [])"

definition newHTTPRequestHeaderMap :: "http_request option \<Rightarrow> (string, string) gomap" where
  "newHTTPRequestHeaderMap req = ArchivalNewHTTPHeadersMap (case req of Some r \<Rightarrow> hreq_Header r | None \<Rightarrow> [])"

definition httpRequestURL :: "http_request option \<Rightarrow> string" where
  "httpRequestURL req =
     (case req of Some r \<Rightarrow> (case hreq_URL r of Some u \<Rightarrow> url_String u | None \<Rightarrow> '''') | None \<Rightarrow> '''')"

definition httpResponseBodyIsTruncated :: "string \<Rightarrow> int \<Rightarrow> bool" where
  "httpResponseBodyIsTruncated body maxSnapSize \<longleftrightarrow>
     length body > 0 \<and> maxSnapSize > 0 \<and> int (length body) \<ge> maxSnapSize"

definition httpResponseStatusCode :: "http_response option \<Rightarrow> int" where
  "httpResponseStatusCode resp = (case resp of Some r \<Rightarrow> hresp_StatusCode r | None \<Rightarrow> 0)"

definition newHTTPResponseHeaderList :: "http_response option \<Rightarrow> ArchivalHTTPHeader list" where
  "newHTTPResponseHeaderList resp = ArchivalNewHTTPHeadersList (case resp of Some r \<Rightarrow> hresp_Header r | None \<Rightarrow> [])"

definition newHTTPResponseHeaderMap :: "http_response option \<Rightarrow> (string, string) gomap" where
  "newHTTPResponseHeaderMap resp = ArchivalNewHTTPHeadersMap (case resp of Some r \<Rightarrow> hresp_Header r | None \<Rightarrow> [])"

definition httpResponseLocations :: "http_response option \<Rightarrow> string list" where
  "httpResponseLocations resp =
     (case resp of None \<Rightarrow> [] | Some r \<Rightarrow> (case hresp_Location r of Inl _ \<Rightarrow> [] | Inr loc \<Rightarrow> [url_String loc]))"

definition NewArchivalHTTPRequestResult ::
    "int \<Rightarrow> int \<Rightarrow> string \<Rightarrow> string \<Rightarrow> string \<Rightarrow> string \<Rightarrow> http_request option \<Rightarrow> http_response option \<Rightarrow> int \<Rightarrow> string \<Rightarrow>
     go_error option \<Rightarrow> int \<Rightarrow> string list \<Rightarrow> ArchivalHTTPRequestResult" where
  "NewArchivalHTTPRequestResult index started network address alpn transport req resp maxRespBodySize body err finished tags =
     \<lparr>http_Network = network, http_Address = address, http_ALPN = alpn, http_Failure = failure_value err,
      http_Request = \<lparr>req_Body = '''', req_BodyIsTruncated = False, req_HeadersList = newHTTPRequestHeaderList req,
        req_Headers = newHTTPRequestHeaderMap req, req_Method = httpRequestMethod req,
        req_Tor = \<lparr>tor_ExitIP = None, tor_ExitName = None, tor_IsTor = False\<rparr>, req_Transport = transport,
        req_URL = httpRequestURL req\<rparr>,
      http_Response = \<lparr>resp_Body = body, resp_BodyIsTruncated = httpResponseBodyIsTruncated body maxRespBodySize,
        resp_Code = httpResponseStatusCode resp, resp_HeadersList = newHTTPResponseHeaderList resp,
        resp_Headers = newHTTPResponseHeaderMap resp, resp_Locations = httpResponseLocations resp\<rparr>,
      http_T0 = Duration_Seconds started, http_T = Duration_Seconds finished, http_Tags = copyAndNormalizeTags tags,
      http_TransactionID = index\<rparr>"

section \<open>What a trace records\<close>

text \<open>The callbacks of a trace, with the arguments that they are called with.\<close>

datatype trace_call =
    CallConnectDone int string string "go_error option" int
  | CallTLSHandshakeStart int string
  | CallTLSHandshakeDone int string tls_config tls_state "go_error option" int
  | CallQUICHandshakeStart int
  | CallQUICHandshakeDone int string "tls_state option" tls_config "go_error option" int
  | CallRead "string \<times> string" int "int \<times> go_error option" int
  | CallWrite "string \<times> string" int "int \<times> go_error option" int
  | CallReadFrom int "int \<times> (string \<times> string) option \<times> go_error option" int
  | CallWriteTo string int "int \<times> go_error option" int
  | CallDNSRoundTrip int "string \<times> string" dnsQuery "dns_response option" "string list" "go_error option" int
  | CallDelayedDNSResponse int "string \<times> string" dnsQuery "dns_response option" "string list" "go_error option" int
  | CallResolveStart int
  | CallResolveDone int

fun trace_call_apply :: "(go_error \<Rightarrow> string) \<Rightarrow> lookup_env \<Rightarrow> trace_call \<Rightarrow> Trace \<Rightarrow> Trace" where
  "trace_call_apply raw env (CallConnectDone t0 network addr err t) tx = OnConnectDone t0 network addr err t tx"
| "trace_call_apply raw env (CallTLSHandshakeStart t addr) tx = OnTLSHandshakeStart t addr tx"
| "trace_call_apply raw env (CallTLSHandshakeDone t0 addr config state err t) tx = OnTLSHandshakeDone raw t0 addr config state err t tx"
| "trace_call_apply raw env (CallQUICHandshakeStart t) tx = OnQUICHandshakeStart t tx"
| "trace_call_apply raw env (CallQUICHandshakeDone t0 addr qconn config err t) tx = OnQUICHandshakeDone raw t0 addr qconn config err t tx"
| "trace_call_apply raw env (CallRead peer t0 res t) tx = conn_Read peer t0 res t tx"
| "trace_call_apply raw env (CallWrite peer t0 res t) tx = conn_Write peer t0 res t tx"
| "trace_call_apply raw env (CallReadFrom t0 res t) tx = udp_ReadFrom t0 res t tx"
| "trace_call_apply raw env (CallWriteTo addr t0 res t) tx = udp_WriteTo addr t0 res t tx"
| "trace_call_apply raw env (CallDNSRoundTrip t0 reso query response addrs err t) tx =
     OnDNSRoundTripForLookupHost env t0 reso query response addrs err t tx"
| "trace_call_apply raw env (CallDelayedDNSResponse t0 txp query response addrs err t) tx =
     snd (OnDelayedDNSResponse env t0 txp query response addrs err t tx)"
| "trace_call_apply raw env (CallResolveStart t) tx = emitResolveStart t tx"
| "trace_call_apply raw env (CallResolveDone t) tx = emiteResolveDone t tx"

text \<open>
  What each callback has to record in a trace with the index \<open>i\<close>, the zero time \<open>z\<close> and the given tags: the specification of the
  channels, written out field by field. An event lasts from \<open>t0\<close> to \<open>t\<close>.
\<close>

definition event_entry ::
    "int \<Rightarrow> int \<Rightarrow> string list \<Rightarrow> string \<Rightarrow> string \<Rightarrow> string \<Rightarrow> int \<Rightarrow> go_error option \<Rightarrow> int \<Rightarrow> int \<Rightarrow> ArchivalNetworkEvent" where
  "event_entry i z tags operation proto address n err t0 t =
     \<lparr>net_Address = address, net_Failure = failure_value err, net_NumBytes = n, net_Operation = operation, net_Proto = proto,
      net_T0 = Duration_Seconds (time_Sub t0 z), net_T = Duration_Seconds (time_Sub t z), net_TransactionID = i, net_Tags = tags\<rparr>"

fun event_entries :: "int \<Rightarrow> int \<Rightarrow> string list \<Rightarrow> trace_call \<Rightarrow> ArchivalNetworkEvent list" where
  "event_entries i z tags (CallConnectDone t0 network addr err t) =
     (if network \<in> {''tcp'', ''tcp4'', ''tcp6''} then [event_entry i z tags ''connect'' ''tcp'' addr 0 err t0 t] else [])"
| "event_entries i z tags (CallTLSHandshakeStart t addr) = [event_entry i z tags ''tls_handshake_start'' ''tcp'' addr 0 None t t]"
| "event_entries i z tags (CallTLSHandshakeDone t0 addr config state err t) =
     [event_entry i z tags ''tls_handshake_done'' ''tcp'' addr 0 None t t]"
| "event_entries i z tags (CallQUICHandshakeStart t) = [event_entry i z tags ''quic_handshake_start'' '''' '''' 0 None t t]"
| "event_entries i z tags (CallQUICHandshakeDone t0 addr qconn config err t) =
     [event_entry i z tags ''quic_handshake_done'' '''' '''' 0 None t t]"
| "event_entries i z tags (CallRead peer t0 res t) = [event_entry i z tags ''read'' (fst peer) (snd peer) (fst res) (snd res) t0 t]"
| "event_entries i z tags (CallWrite peer t0 res t) = [event_entry i z tags ''write'' (fst peer) (snd peer) (fst res) (snd res) t0 t]"
| "event_entries i z tags (CallReadFrom t0 (n, addr, err) t) =
     [event_entry i z tags ''read_from'' ''udp'' (case addr of Some (_, s) \<Rightarrow> s | None \<Rightarrow> '''') n err t0 t]"
| "event_entries i z tags (CallWriteTo addr t0 res t) = [event_entry i z tags ''write_to'' ''udp'' addr (fst res) (snd res) t0 t]"
| "event_entries i z tags (CallResolveStart t) = [event_entry i z tags ''resolve_start'' '''' '''' 0 None t t]"
| "event_entries i z tags (CallResolveDone t) = [event_entry i z tags ''resolve_done'' '''' '''' 0 None t t]"
| "event_entries i z tags _ = []"

fun tcp_entries :: "int \<Rightarrow> int \<Rightarrow> string list \<Rightarrow> trace_call \<Rightarrow> ArchivalTCPConnectResult list" where
  "tcp_entries i z tags (CallConnectDone t0 network addr err t) =
     (if network \<in> {''tcp'', ''tcp4'', ''tcp6''}
      then [\<lparr>tcp_IP = fst (archivalSplitHostPort addr), tcp_Port = archivalPortToString (snd (archivalSplitHostPort addr)),
             tcp_Status = \<lparr>st_Blocked = None, st_Failure = failure_value err, st_Success = (err = None)\<rparr>,
             tcp_T0 = Duration_Seconds (time_Sub t0 z), tcp_T = Duration_Seconds (time_Sub t z), tcp_Tags = tags, tcp_TransactionID = i\<rparr>]
      else [])"
| "tcp_entries i z tags _ = []"

definition handshake_entry ::
    "(go_error \<Rightarrow> string) \<Rightarrow> int \<Rightarrow> int \<Rightarrow> string list \<Rightarrow> string \<Rightarrow> string \<Rightarrow> tls_config \<Rightarrow> tls_state \<Rightarrow> go_error option \<Rightarrow> int \<Rightarrow> int \<Rightarrow>
     ArchivalTLSOrQUICHandshakeResult" where
  "handshake_entry raw i z tags network addr config state err t0 t =
     \<lparr>tls_Network = network, tls_Address = addr, tls_CipherSuite = TLSCipherSuiteString (cs_CipherSuite state),
      tls_Failure = failure_value err, tls_SoError = None, tls_NegotiatedProtocol = cs_NegotiatedProtocol state,
      tls_NoTLSVerify = tc_InsecureSkipVerify config, tls_PeerCertificates = TLSPeerCerts raw state err,
      tls_ServerName = tc_ServerName config, tls_OuterServerName = '''', tls_ECHConfig = '''',
      tls_T0 = Duration_Seconds (time_Sub t0 z), tls_T = Duration_Seconds (time_Sub t z), tls_Tags = tags,
      tls_TLSVersion = TLSVersionString (cs_Version state), tls_TransactionID = i\<rparr>"

fun tls_entries :: "(go_error \<Rightarrow> string) \<Rightarrow> int \<Rightarrow> int \<Rightarrow> string list \<Rightarrow> trace_call \<Rightarrow> ArchivalTLSOrQUICHandshakeResult list" where
  "tls_entries raw i z tags (CallTLSHandshakeDone t0 addr config state err t) =
     [handshake_entry raw i z tags ''tcp'' addr config state err t0 t]"
| "tls_entries raw i z tags _ = []"

fun quic_entries :: "(go_error \<Rightarrow> string) \<Rightarrow> int \<Rightarrow> int \<Rightarrow> string list \<Rightarrow> trace_call \<Rightarrow> ArchivalTLSOrQUICHandshakeResult list" where
  "quic_entries raw i z tags (CallQUICHandshakeDone t0 addr qconn config err t) =
     [handshake_entry raw i z tags ''udp'' addr config
        (case qconn of Some state \<Rightarrow> state
         | None \<Rightarrow> \<lparr>cs_Version = 0, cs_CipherSuite = 0, cs_NegotiatedProtocol = '''', cs_PeerCertificates = []\<rparr>) err t0 t]"
| "quic_entries raw i z tags _ = []"

definition lookup_entry ::
    "lookup_env \<Rightarrow> int \<Rightarrow> int \<Rightarrow> string list \<Rightarrow> string \<times> string \<Rightarrow> dnsQuery \<Rightarrow> dns_response option \<Rightarrow> string list \<Rightarrow> go_error option \<Rightarrow>
     int \<Rightarrow> int \<Rightarrow> ArchivalDNSLookupResult" where
  "lookup_entry env i z tags reso query response addrs err t0 t =
     \<lparr>dns_Answers = concat (map (address_answer (le_db env)) addrs) @ cname_answer response, dns_Engine = fst reso,
      dns_Failure = failure_value err, dns_GetaddrinfoError = le_retval env err, dns_Hostname = q_domain query,
      dns_QueryType = le_qtype env (q_kind query), dns_RawResponse = maybeRawResponse response, dns_Rcode = maybeResponseRcode response,
      dns_ResolverHostname = None, dns_ResolverPort = None, dns_ResolverAddress = snd reso,
      dns_T0 = Duration_Seconds (time_Sub t0 z), dns_T = Duration_Seconds (time_Sub t z), dns_Tags = tags, dns_TransactionID = i\<rparr>"

fun lookup_entries :: "lookup_env \<Rightarrow> int \<Rightarrow> int \<Rightarrow> string list \<Rightarrow> trace_call \<Rightarrow> ArchivalDNSLookupResult list" where
  "lookup_entries env i z tags (CallDNSRoundTrip t0 reso query response addrs err t) =
     [lookup_entry env i z tags reso query response addrs err t0 t]"
| "lookup_entries env i z tags _ = []"

fun delayed_entries :: "lookup_env \<Rightarrow> int \<Rightarrow> int \<Rightarrow> string list \<Rightarrow> trace_call \<Rightarrow> ArchivalDNSLookupResult list" where
  "delayed_entries env i z tags (CallDelayedDNSResponse t0 txp query response addrs err t) =
     [lookup_entry env i z tags txp query response addrs err t0 t]"
| "delayed_entries env i z tags _ = []"

text \<open>The bytes that a call received, by endpoint and protocol.\<close>

definition normal_network :: "string \<Rightarrow> string" where
  "normal_network network =
     (if network \<in> {''udp'', ''udp4'', ''udp6''} then ''udp'' else if network \<in> {''tcp'', ''tcp4'', ''tcp6''} then ''tcp'' else network)"

fun received :: "trace_call \<Rightarrow> (string \<times> int) option" where
  "received (CallRead peer t0 res t) = Some (snd peer @ '' '' @ normal_network (fst peer), fst res)"
| "received (CallReadFrom t0 res t) =
     (case fst (snd res) of Some (network, s) \<Rightarrow> Some (s @ '' '' @ normal_network network, fst res) | None \<Rightarrow> None)"
| "received _ = None"

lemma trace_simps [simp]:
  "trace_index (emit_event ev tx) = trace_index tx" "trace_tags (emit_event ev tx) = trace_tags tx"
  "trace_zeroTime (emit_event ev tx) = trace_zeroTime tx"
  "trace_tcpConnect (emit_event ev tx) = trace_tcpConnect tx" "trace_dnsLookup (emit_event ev tx) = trace_dnsLookup tx"
  "trace_tlsHandshake (emit_event ev tx) = trace_tlsHandshake tx" "trace_quicHandshake (emit_event ev tx) = trace_quicHandshake tx"
  "bytesReceivedMap (emit_event ev tx) = bytesReceivedMap tx"
  "trace_networkEvent (emit_event ev tx) = try_send NetworkEventBufferSize ev (trace_networkEvent tx)"
  "trace_delayedDNSResponse (emit_event ev tx) = trace_delayedDNSResponse tx"
  by (simp_all add: emit_event_def)

lemma trace_bytes_simps [simp]:
  "trace_index (updateBytesReceivedMapNetConn network address n tx) = trace_index tx"
  "trace_tags (updateBytesReceivedMapNetConn network address n tx) = trace_tags tx"
  "trace_zeroTime (updateBytesReceivedMapNetConn network address n tx) = trace_zeroTime tx"
  "trace_tcpConnect (updateBytesReceivedMapNetConn network address n tx) = trace_tcpConnect tx"
  "trace_dnsLookup (updateBytesReceivedMapNetConn network address n tx) = trace_dnsLookup tx"
  "trace_tlsHandshake (updateBytesReceivedMapNetConn network address n tx) = trace_tlsHandshake tx"
  "trace_quicHandshake (updateBytesReceivedMapNetConn network address n tx) = trace_quicHandshake tx"
  "trace_networkEvent (updateBytesReceivedMapNetConn network address n tx) = trace_networkEvent tx"
  "trace_delayedDNSResponse (updateBytesReceivedMapNetConn network address n tx) = trace_delayedDNSResponse tx"
  by (simp_all add: updateBytesReceivedMapNetConn_def Let_def)

lemmas trace_call_defs = OnConnectDone_def OnTLSHandshakeStart_def OnTLSHandshakeDone_def OnQUICHandshakeStart_def
  OnQUICHandshakeDone_def conn_Read_def conn_Write_def udp_ReadFrom_def udp_WriteTo_def OnDNSRoundTripForLookupHost_def
  OnDelayedDNSResponse_def emitResolveStart_def emiteResolveDone_def

definition same_trace :: "Trace \<Rightarrow> Trace \<Rightarrow> bool" where
  "same_trace tx tx' \<longleftrightarrow>
     trace_index tx' = trace_index tx \<and> trace_tags tx' = trace_tags tx \<and> trace_zeroTime tx' = trace_zeroTime tx"

lemma trace_call_same: "same_trace tx (trace_call_apply raw env c tx)"
  by (cases c) (auto simp: trace_call_defs same_trace_def Let_def split: option.split)

lemma try_send_take: "length ch \<le> capacity \<Longrightarrow> try_send capacity ev ch = take capacity (ch @ [ev])"
  by (auto simp: try_send_def)

definition within_capacity :: "Trace \<Rightarrow> bool" where
  "within_capacity tx \<longleftrightarrow> length (trace_networkEvent tx) \<le> NetworkEventBufferSize \<and>
     length (trace_tcpConnect tx) \<le> TCPConnectBufferSize \<and> length (trace_tlsHandshake tx) \<le> TLSHandshakeBufferSize \<and>
     length (trace_quicHandshake tx) \<le> QUICHandshakeBufferSize \<and> length (trace_dnsLookup tx) \<le> DNSLookupBufferSize \<and>
     length (trace_delayedDNSResponse tx) \<le> DelayedDNSResponseBufferSize"

lemmas buffer_sizes = NetworkEventBufferSize_def TCPConnectBufferSize_def TLSHandshakeBufferSize_def QUICHandshakeBufferSize_def
  DNSLookupBufferSize_def DelayedDNSResponseBufferSize_def

lemmas trace_append_simps = trace_call_defs NewTrace_def since_zero_def try_send_take buffer_sizes

lemmas entry_defs = event_entry_def handshake_entry_def lookup_entry_def NewArchivalNetworkEvent_def NewAnnotationArchivalNetworkEvent_def
  NewArchivalTCPConnectResult_def NewArchivalTLSOrQUICHandshakeResult_def NewArchivalDNSLookupResultFromRoundTrip_def
  newArchivalDNSAnswers_def copyAndNormalizeTags_def case_prod_unfold Let_def

text \<open>One call appends to each channel what the specification says, up to the capacity.\<close>

lemma trace_call_appends:
  assumes "within_capacity tx" and "same_trace (NewTrace i z tags) tx"
  shows
    "trace_networkEvent (trace_call_apply raw env c tx) = take NetworkEventBufferSize (trace_networkEvent tx @ event_entries i z tags c)"
    "trace_tcpConnect (trace_call_apply raw env c tx) = take TCPConnectBufferSize (trace_tcpConnect tx @ tcp_entries i z tags c)"
    "trace_tlsHandshake (trace_call_apply raw env c tx) = take TLSHandshakeBufferSize (trace_tlsHandshake tx @ tls_entries raw i z tags c)"
    "trace_quicHandshake (trace_call_apply raw env c tx) = take QUICHandshakeBufferSize (trace_quicHandshake tx @ quic_entries raw i z tags c)"
    "trace_dnsLookup (trace_call_apply raw env c tx) = take DNSLookupBufferSize (trace_dnsLookup tx @ lookup_entries env i z tags c)"
    "trace_delayedDNSResponse (trace_call_apply raw env c tx) = take DelayedDNSResponseBufferSize (trace_delayedDNSResponse tx @ delayed_entries env i z tags c)"
proof -
  have hdr: "trace_index tx = i" "trace_tags tx = tags" "trace_zeroTime tx = z"
    using assms(2) by (simp_all add: same_trace_def NewTrace_def)
  note cap = assms(1) [unfolded within_capacity_def]
  show "trace_networkEvent (trace_call_apply raw env c tx) = take NetworkEventBufferSize (trace_networkEvent tx @ event_entries i z tags c)"
    using cap by (cases c) (auto simp: hdr trace_append_simps entry_defs split: option.split)
  show "trace_tcpConnect (trace_call_apply raw env c tx) = take TCPConnectBufferSize (trace_tcpConnect tx @ tcp_entries i z tags c)"
    using cap by (cases c) (auto simp: hdr trace_append_simps entry_defs split: option.split)
  show "trace_tlsHandshake (trace_call_apply raw env c tx) = take TLSHandshakeBufferSize (trace_tlsHandshake tx @ tls_entries raw i z tags c)"
    using cap by (cases c) (auto simp: hdr trace_append_simps entry_defs split: option.split)
  show "trace_quicHandshake (trace_call_apply raw env c tx) = take QUICHandshakeBufferSize (trace_quicHandshake tx @ quic_entries raw i z tags c)"
    using cap by (cases c) (auto simp: hdr trace_append_simps entry_defs split: option.split)
  show "trace_dnsLookup (trace_call_apply raw env c tx) = take DNSLookupBufferSize (trace_dnsLookup tx @ lookup_entries env i z tags c)"
    using cap by (cases c) (auto simp: hdr trace_append_simps entry_defs split: option.split)
  show "trace_delayedDNSResponse (trace_call_apply raw env c tx) = take DelayedDNSResponseBufferSize (trace_delayedDNSResponse tx @ delayed_entries env i z tags c)"
    using cap by (cases c) (auto simp: hdr trace_append_simps entry_defs split: option.split)
qed

lemma trace_call_capacity:
  assumes "within_capacity tx" and "same_trace (NewTrace i z tags) tx"
  shows "within_capacity (trace_call_apply raw env c tx)"
  unfolding within_capacity_def trace_call_appends [OF assms] by (simp del: take_append)

lemma same_trace_refl: "same_trace tx tx"
  by (simp add: same_trace_def)

lemma same_trace_trans: "same_trace a b \<Longrightarrow> same_trace b c \<Longrightarrow> same_trace a c"
  by (simp add: same_trace_def)

lemma NewTrace_capacity: "within_capacity (NewTrace i z tags)"
  by (simp add: within_capacity_def NewTrace_def)

lemma trace_calls_invariant:
  "within_capacity (fold (trace_call_apply raw env) calls (NewTrace i z tags)) \<and>
   same_trace (NewTrace i z tags) (fold (trace_call_apply raw env) calls (NewTrace i z tags))"
  by (induction calls rule: rev_induct)
    (auto simp: same_trace_refl NewTrace_capacity intro: trace_call_capacity same_trace_trans trace_call_same)

lemma take_take_append: "take n (take n xs @ ys) = take n (xs @ ys)"
  by (simp add: min_def)

lemma bounded_channel:
  assumes step: "\<And>c calls. ch (f c (run calls)) = take cap (ch (run calls) @ ev c)"
    and run: "\<And>c calls. run (calls @ [c]) = f c (run calls)" and start: "ch (run []) = []"
  shows "ch (run calls) = take cap (concat (map ev calls))"
  by (induction calls rule: rev_induct) (simp_all add: start run step take_take_append del: take_append)

lemma wrap64_add_wrap64: "wrap64 (wrap64 a + b) = wrap64 (a + b)"
proof -
  have "((a + 2 ^ 63) mod 2 ^ 64 - 2 ^ 63 + b + 2 ^ 63) mod 2 ^ 64 = (a + b + 2 ^ 63 :: int) mod 2 ^ 64"
    by (simp add: mod_simps algebra_simps)
  then show ?thesis by (simp add: wrap64_def)
qed

text \<open>The number of bytes that the calls received for a key, if any call did.\<close>

definition received_from :: "string \<Rightarrow> trace_call list \<Rightarrow> int list" where
  "received_from key calls = map snd (filter (\<lambda>(k, _). k = key) (List.map_filter received calls))"

lemma updateBytes_map:
  "bytesReceivedMap (updateBytesReceivedMapNetConn network address n tx) =
     AList.update (address @ '' '' @ normal_network network)
       (wrap64 ((case gmap_get (bytesReceivedMap tx) (address @ '' '' @ normal_network network) of None \<Rightarrow> 0 | Some v \<Rightarrow> v) + n))
       (bytesReceivedMap tx)"
  unfolding updateBytesReceivedMapNetConn_def normal_network_def Let_def by simp

lemma trace_call_bytes:
  "gmap_get (bytesReceivedMap (trace_call_apply raw env c tx)) key =
     (case received c of
        Some (k, n) \<Rightarrow> if k = key
          then Some (wrap64 ((case gmap_get (bytesReceivedMap tx) key of None \<Rightarrow> 0 | Some v \<Rightarrow> v) + n))
          else gmap_get (bytesReceivedMap tx) key
      | None \<Rightarrow> gmap_get (bytesReceivedMap tx) key)"
  by (cases c) (simp_all add: trace_call_defs updateBytes_map Let_def split: option.split prod.split)

lemma trace_bytes_total:
  "gmap_get (bytesReceivedMap (fold (trace_call_apply raw env) calls (NewTrace i z tags))) key =
     (if received_from key calls = [] then None else Some (wrap64 (sum_list (received_from key calls))))"
proof (induction calls rule: rev_induct)
  case Nil
  then show ?case by (simp add: received_from_def NewTrace_def map_filter_simps)
next
  case (snoc c calls)
  have "received_from key (calls @ [c]) =
      received_from key calls @ (case received c of Some (k, n) \<Rightarrow> if k = key then [n] else [] | None \<Rightarrow> [])"
    by (auto simp: received_from_def List.map_filter_def split: option.split)
  then show ?case
    using snoc by (auto simp: trace_call_bytes wrap64_add_wrap64 split: option.split)
qed

section \<open>Properties\<close>

definition trace_run :: "(go_error \<Rightarrow> string) \<Rightarrow> lookup_env \<Rightarrow> int \<Rightarrow> int \<Rightarrow> string list \<Rightarrow> trace_call list \<Rightarrow> Trace" where
  "trace_run raw env i z tags calls = fold (trace_call_apply raw env) calls (NewTrace i z tags)"

lemma trace_run_snoc: "trace_run raw env i z tags (calls @ [c]) = trace_call_apply raw env c (trace_run raw env i z tags calls)"
  by (simp add: trace_run_def)

lemma trace_run_Nil: "trace_run raw env i z tags [] = NewTrace i z tags"
  by (simp add: trace_run_def)

lemmas trace_run_appends =
  trace_call_appends [OF conjunct1 [OF trace_calls_invariant] conjunct2 [OF trace_calls_invariant], folded trace_run_def]

text \<open>
  C39: A trace records the first events of each kind. After any sequence of callbacks, delayed DNS responses included, each of the six
  channels holds, in order, the entries that the specification gives for the callbacks, field by field, cut to the capacity of the
  channel: 64 network events, and 8 of each other kind; later events are dropped. The bytes received from an endpoint are the sum over
  all the reads from it, with the wrap-around of 64-bit integers, so they also count the reads whose events were dropped.
\<close>

theorem trace_records_first_events:
  "trace_networkEvent (trace_run raw env i z tags calls) = take 64 (concat (map (event_entries i z tags) calls)) \<and>
   trace_tcpConnect (trace_run raw env i z tags calls) = take 8 (concat (map (tcp_entries i z tags) calls)) \<and>
   trace_tlsHandshake (trace_run raw env i z tags calls) = take 8 (concat (map (tls_entries raw i z tags) calls)) \<and>
   trace_quicHandshake (trace_run raw env i z tags calls) = take 8 (concat (map (quic_entries raw i z tags) calls)) \<and>
   trace_dnsLookup (trace_run raw env i z tags calls) = take 8 (concat (map (lookup_entries env i z tags) calls)) \<and>
   trace_delayedDNSResponse (trace_run raw env i z tags calls) = take 8 (concat (map (delayed_entries env i z tags) calls)) \<and>
   gmap_get (bytesReceivedMap (trace_run raw env i z tags calls)) key =
     (if received_from key calls = [] then None else Some (wrap64 (sum_list (received_from key calls))))"
proof -
  note channel = bounded_channel [where run = "trace_run raw env i z tags" and f = "trace_call_apply raw env", OF _ trace_run_snoc]
  show ?thesis
    by (intro conjI channel; simp add: trace_run_appends buffer_sizes trace_run_Nil NewTrace_def trace_bytes_total [folded trace_run_def]
        del: take_append)
qed

text \<open>
  The entry of a TCP connect identifies the endpoint: the address that was dialed is the host and the port of the entry, and the
  network event of the same connect has the same address, failure, transaction and tags.
\<close>

lemma connect_entry_roundtrip:
  assumes "plain_chars ip" and "0 \<le> port" and "port \<le> 65535"
  shows "\<exists>entry ev.
    trace_tcpConnect (OnConnectDone t0 ''tcp'' (join_host_port ip (itoa port)) err t (NewTrace i z tags)) = [entry] \<and>
    trace_networkEvent (OnConnectDone t0 ''tcp'' (join_host_port ip (itoa port)) err t (NewTrace i z tags)) = [ev] \<and>
    tcp_IP entry = ip \<and> tcp_Port entry = port \<and>
    join_host_port (tcp_IP entry) (itoa (tcp_Port entry)) = net_Address ev \<and>
    st_Failure (tcp_Status entry) = net_Failure ev \<and> tcp_TransactionID entry = net_TransactionID ev \<and> tcp_Tags entry = net_Tags ev"
proof -
  have "plain_chars (itoa port) \<and> CHR '':'' \<notin> set (itoa port)"
    using nat_digits_digits [of "nat port"] assms(2) by (auto simp: itoa_def plain_chars_def list_all_iff is_digit_def)
  then have "SplitHostPort (join_host_port ip (itoa port)) = Inr (ip, itoa port)"
    using assms(1) by (simp add: SplitHostPort_join)
  moreover have "parse_int64 (itoa port) = Some port"
    using assms by (intro parse_int64_itoa) (simp add: in_int64_def)
  ultimately show ?thesis
    using assms by (simp add: trace_append_simps try_send_def NewArchivalTCPConnectResult_def archivalSplitHostPort_def
        archivalPortToString_def NewArchivalNetworkEvent_def)
qed

text \<open>The answers of a lookup: one per address that parses, in order, with the type of the address, then the canonical name.\<close>

lemma archival_answers:
  "map answer_ip (filter (\<lambda>a. ans_AnswerType a \<noteq> ''CNAME'') (newArchivalDNSAnswers db addrs resp)) =
     filter (\<lambda>addr. ParseIP addr \<noteq> None) addrs"
proof -
  have "filter (\<lambda>a. ans_AnswerType a \<noteq> ''CNAME'') (cname_answer resp) = []"
    by (auto simp: cname_answer_def split: option.split sum.split)
  moreover have "map answer_ip (filter (\<lambda>a. ans_AnswerType a \<noteq> ''CNAME'') (concat (map (address_answer db) addrs))) =
      filter (\<lambda>addr. ParseIP addr \<noteq> None) addrs"
    by (induction addrs) (auto simp: address_answer_def IsIPv6_def answer_ip_def Let_def case_prod_unfold)
  ultimately show ?thesis by (simp add: newArchivalDNSAnswers_def)
qed

end
