(* ===== verification/HttpClientX.thy ===== *)
theory HttpClientX
  imports DnsMessages LteTestKeys
begin

text \<open>
  The client of the HTTP APIs, \<open>internal/httpclientx\<close>: endpoints (\<open>endpoint.go\<close>), one transaction and its decoding
  (\<open>httpclientx.go\<close>, \<open>getraw.go\<close>, \<open>getjson.go\<close>, \<open>getxml.go\<close>, \<open>postjson.go\<close>, \<open>nilsafety.go\<close>), and the overlapped calls of several equivalent
  endpoints (\<open>overlapped.go\<close>), which also serve the call of the Web Connectivity test helpers
  (\<open>internal/webconnectivityalgo/calltesthelpers.go\<close>). The HTTP client, the gzip reader and the codecs are arguments.

  The overlapped calls are a step relation: the timer of the ticker, the receipt of a tick, and the receipt of a result,
  in any order. The theorems show that every schedule ends, gives one result per endpoint, and what the caller sees of it.
\<close>

section \<open>Endpoints\<close>

record Endpoint =
  ep_URL :: string
  ep_Host :: string

definition NewEndpoint :: "string \<Rightarrow> Endpoint" where
  "NewEndpoint url = \<lparr>ep_URL = url, ep_Host = ''''\<rparr>"

definition WithHostOverride :: "Endpoint \<Rightarrow> string \<Rightarrow> Endpoint" where
  "WithHostOverride e host = \<lparr>ep_URL = ep_URL e, ep_Host = host\<rparr>"

definition service_endpoint :: "OOAPIService \<Rightarrow> Endpoint option" where
  "service_endpoint svc =
     (let epnt = NewEndpoint (svc_Address svc)
      in if svc_Type svc = ''cloudfront'' then Some (WithHostOverride epnt (svc_Front svc))
         else if svc_Type svc = ''https'' then Some epnt
         else None)"

definition NewEndpointFromModelOOAPIServices :: "OOAPIService list \<Rightarrow> Endpoint list" where
  "NewEndpointFromModelOOAPIServices svcs = List.map_filter service_endpoint svcs"

section \<open>One transaction\<close>

record hx_Config =
  hx_Authorization :: string
  hx_MaxResponseBodySize :: int
  hx_UserAgent :: string

definition DefaultMaxResponseBodySize :: int where
  "DefaultMaxResponseBodySize = 2 ^ 24"

definition maxResponseBodySize :: "hx_Config \<Rightarrow> int" where
  "maxResponseBodySize c = (if hx_MaxResponseBodySize c \<le> 0 then DefaultMaxResponseBodySize else hx_MaxResponseBodySize c)"

record hx_request =
  hxr_Method :: string
  hxr_URL :: string
  hxr_Host :: string
  hxr_Header :: http_header
  hxr_Body :: bytes

record hx_response =
  hxp_StatusCode :: int
  hxp_Header :: http_header
  hxp_Body :: reader

definition ErrTruncated :: go_error where
  "ErrTruncated = new_error ''httpapi: truncated response body''"

definition ErrRequestFailed :: "int \<Rightarrow> go_error" where
  "ErrRequestFailed code = new_error ''httpx: request failed''"

definition ErrIsNil :: go_error where
  "ErrIsNil = new_error ''nil map, pointer, or slice''"

text \<open>
  What a transaction depends on: the client, the check that \<open>http.NewRequest\<close> makes of a URL, the gzip reader and whether the context
  is done when the body is read.
\<close>

record hx_env =
  hxe_Do :: "hx_request \<Rightarrow> go_error + hx_response"
  hxe_bad_url :: "string \<Rightarrow> go_error option"
  hxe_gzip :: "reader \<Rightarrow> go_error + reader"
  hxe_ctx_done :: "go_error option"

definition hx_do :: "hx_env \<Rightarrow> hx_request \<Rightarrow> Endpoint \<Rightarrow> hx_Config \<Rightarrow> go_error + bytes" where
  "hx_do env req epnt config =
     (let header = hxr_Header req;
          header = (if hx_Authorization config \<noteq> '''' then AList.update ''Authorization'' [hx_Authorization config] header else header);
          header = AList.update ''User-Agent'' [hx_UserAgent config] header;
          header = AList.update ''Accept-Encoding'' [''gzip''] header
      in case hxe_Do env (req\<lparr>hxr_Header := header, hxr_Host := ep_Host epnt\<rparr>) of
           Inl err \<Rightarrow> Inl err
         | Inr resp \<Rightarrow>
             (case (if header_Get (hxp_Header resp) ''Content-Encoding'' = ''gzip'' then hxe_gzip env (hxp_Body resp)
                    else Inr (hxp_Body resp)) of
                Inl err \<Rightarrow> Inl err
              | Inr base \<Rightarrow>
                  (case ReadAllContext (hxe_ctx_done env) (read_all_limited (nat (wrap64 (maxResponseBodySize config + 1))) base) of
                     Inl err \<Rightarrow> Inl err
                   | Inr body \<Rightarrow>
                       if int (length body) > maxResponseBodySize config then Inl ErrTruncated
                       else if hxp_StatusCode resp \<noteq> 200 then Inl (ErrRequestFailed (hxp_StatusCode resp))
                       else Inr body)))"

definition getRaw :: "hx_env \<Rightarrow> Endpoint \<Rightarrow> hx_Config \<Rightarrow> go_error + bytes" where
  "getRaw env epnt config =
     (case hxe_bad_url env (ep_URL epnt) of
        Some err \<Rightarrow> Inl err
      | None \<Rightarrow> hx_do env \<lparr>hxr_Method = ''GET'', hxr_URL = ep_URL epnt, hxr_Host = '''', hxr_Header = [], hxr_Body = []\<rparr> epnt config)"

text \<open>A decoded value that may be a nil map, pointer or slice is optional.\<close>

definition NilSafetyErrorIfNil :: "'o option \<Rightarrow> go_error + 'o" where
  "NilSafetyErrorIfNil v = (case v of None \<Rightarrow> Inl ErrIsNil | Some x \<Rightarrow> Inr x)"

definition postJSON ::
    "hx_env \<Rightarrow> ('i \<Rightarrow> go_error + bytes) \<Rightarrow> (bytes \<Rightarrow> go_error + 'o option) \<Rightarrow> Endpoint \<Rightarrow> 'i option \<Rightarrow> hx_Config \<Rightarrow> go_error + 'o" where
  "postJSON env marshal unmarshal epnt input config =
     (case NilSafetyErrorIfNil input of
        Inl err \<Rightarrow> Inl err
      | Inr input \<Rightarrow>
          (case marshal input of
             Inl err \<Rightarrow> Inl err
           | Inr rawreqbody \<Rightarrow>
               (case hxe_bad_url env (ep_URL epnt) of
                  Some err \<Rightarrow> Inl err
                | None \<Rightarrow>
                    (case hx_do env \<lparr>hxr_Method = ''POST'', hxr_URL = ep_URL epnt, hxr_Host = '''',
                           hxr_Header = [(''Content-Type'', [''application/json''])], hxr_Body = rawreqbody\<rparr> epnt config of
                       Inl err \<Rightarrow> Inl err
                     | Inr rawrespbody \<Rightarrow>
                         (case unmarshal rawrespbody of Inl err \<Rightarrow> Inl err | Inr output \<Rightarrow> NilSafetyErrorIfNil output)))))"

section \<open>Results of overlapped calls\<close>

text \<open>The error and the value are one field, since the value of a failed transaction is the zero value and is not used.\<close>

record 'o OverlappedErrorOr =
  ov_Index :: nat
  ov_Result :: "go_error + 'o"

definition ov_success :: "'o OverlappedErrorOr \<Rightarrow> bool" where
  "ov_success res \<longleftrightarrow> (case ov_Result res of Inl _ \<Rightarrow> False | Inr _ \<Rightarrow> True)"

definition ErrGenericOverlappedFailure :: go_error where
  "ErrGenericOverlappedFailure = new_error ''overlapped: generic failure''"

text \<open>\<open>errors.Join\<close> of a list without nil errors.\<close>

definition errors_Join :: "go_error list \<Rightarrow> go_error" where
  "errors_Join errs = GoError OtherError (join_bytes [CHR 0x0A] (map err_Error errs)) errs"

fun reduce_loop :: "'o OverlappedErrorOr list \<Rightarrow> go_error list \<Rightarrow> go_error + 'o \<times> nat" where
  "reduce_loop [] errorv = Inl (errors_Join (if length errorv \<le> 0 then [ErrGenericOverlappedFailure] else errorv))"
| "reduce_loop (res # results) errorv =
     (case ov_Result res of Inr v \<Rightarrow> Inr (v, ov_Index res) | Inl err \<Rightarrow> reduce_loop results (errorv @ [err]))"

definition OverlappedReduce :: "'o OverlappedErrorOr list \<Rightarrow> go_error + 'o \<times> nat" where
  "OverlappedReduce results = reduce_loop results []"

text \<open>
  A call with one endpoint has one result, that of its transaction.
\<close>

definition transact_result :: "nat \<Rightarrow> go_error + 'o \<Rightarrow> 'o OverlappedErrorOr" where
  "transact_result idx res = \<lparr>ov_Index = idx, ov_Result = res\<rparr>"

definition OverlappedIgnoreIndex :: "go_error + 'o \<times> nat \<Rightarrow> go_error + 'o" where
  "OverlappedIgnoreIndex res = (case res of Inl err \<Rightarrow> Inl err | Inr (v, _) \<Rightarrow> Inr v)"

definition GetRaw :: "hx_env \<Rightarrow> Endpoint \<Rightarrow> hx_Config \<Rightarrow> go_error + bytes" where
  "GetRaw env epnt config = OverlappedIgnoreIndex (OverlappedReduce [transact_result 0 (getRaw env epnt config)])"

text \<open>\<open>unmarshal\<close> is the JSON or the XML decoder; \<open>getJSON\<close> and \<open>getXML\<close> differ in it only.\<close>

definition getJSON :: "hx_env \<Rightarrow> (bytes \<Rightarrow> go_error + 'o option) \<Rightarrow> Endpoint \<Rightarrow> hx_Config \<Rightarrow> go_error + 'o" where
  "getJSON env unmarshal epnt config =
     (case GetRaw env epnt config of
        Inl err \<Rightarrow> Inl err
      | Inr rawrespbody \<Rightarrow> (case unmarshal rawrespbody of Inl err \<Rightarrow> Inl err | Inr output \<Rightarrow> NilSafetyErrorIfNil output))"

definition GetJSON :: "hx_env \<Rightarrow> (bytes \<Rightarrow> go_error + 'o option) \<Rightarrow> Endpoint \<Rightarrow> hx_Config \<Rightarrow> go_error + 'o" where
  "GetJSON env unmarshal epnt config =
     OverlappedIgnoreIndex (OverlappedReduce [transact_result 0 (getJSON env unmarshal epnt config)])"

definition PostJSON ::
    "hx_env \<Rightarrow> ('i \<Rightarrow> go_error + bytes) \<Rightarrow> (bytes \<Rightarrow> go_error + 'o option) \<Rightarrow> Endpoint \<Rightarrow> 'i option \<Rightarrow> hx_Config \<Rightarrow> go_error + 'o" where
  "PostJSON env marshal unmarshal epnt input config =
     OverlappedIgnoreIndex (OverlappedReduce [transact_result 0 (postJSON env marshal unmarshal epnt input config)])"

section \<open>Overlapped calls\<close>

text \<open>
  The state of \<open>Map\<close> when it waits in the \<open>select\<close>: the index of the next endpoint, the transactions in progress, the
  results, whether the ticker runs, whether a tick is in its channel, and whether the context was cancelled after a success.
\<close>

record 'o ov_state =
  ov_idx :: nat
  ov_running :: "nat list"
  ov_results :: "'o OverlappedErrorOr list"
  ov_ticking :: bool
  ov_tick :: bool
  ov_cancelled :: bool

text \<open>The top of the loop, for \<open>n\<close> endpoints.\<close>

definition ov_loop :: "nat \<Rightarrow> 'o ov_state \<Rightarrow> 'o ov_state" where
  "ov_loop n s =
     (if length (ov_results s) < n
      then if ov_idx s < n then s\<lparr>ov_running := ov_running s @ [ov_idx s], ov_idx := Suc (ov_idx s)\<rparr> else s\<lparr>ov_ticking := False\<rparr>
      else s)"

definition ov_init :: "nat \<Rightarrow> 'o ov_state" where
  "ov_init n = ov_loop n \<lparr>ov_idx = 0, ov_running = [], ov_results = [], ov_ticking = True, ov_tick = False, ov_cancelled = False\<rparr>"

definition ov_collect :: "'o OverlappedErrorOr \<Rightarrow> 'o ov_state \<Rightarrow> 'o ov_state" where
  "ov_collect res s =
     (let s = s\<lparr>ov_results := ov_results s @ [res]\<rparr>
      in if ov_success res then s\<lparr>ov_ticking := False, ov_cancelled := True\<rparr> else s)"

text \<open>\<open>outcome\<close> relates an endpoint and whether the context was cancelled to what the transaction may return.\<close>

inductive ov_step :: "(nat \<Rightarrow> bool \<Rightarrow> go_error + 'o \<Rightarrow> bool) \<Rightarrow> nat \<Rightarrow> 'o ov_state \<Rightarrow> 'o ov_state \<Rightarrow> bool"
  for outcome n where
  timer: "length (ov_results s) < n \<Longrightarrow> ov_ticking s \<Longrightarrow> \<not> ov_tick s \<Longrightarrow> ov_step outcome n s (s\<lparr>ov_tick := True\<rparr>)"
| tick: "length (ov_results s) < n \<Longrightarrow> ov_tick s \<Longrightarrow> ov_step outcome n s (ov_loop n (s\<lparr>ov_tick := False\<rparr>))"
| result: "length (ov_results s) < n \<Longrightarrow> ov_running s = xs @ i # ys \<Longrightarrow> outcome i (ov_cancelled s) res \<Longrightarrow>
    ov_step outcome n s (ov_loop n (ov_collect (transact_result i res) (s\<lparr>ov_running := xs @ ys\<rparr>)))"

inductive_cases ov_stepE: "ov_step outcome n s s'"

definition ov_run :: "(nat \<Rightarrow> bool \<Rightarrow> go_error + 'o \<Rightarrow> bool) \<Rightarrow> nat \<Rightarrow> nat \<Rightarrow> 'o ov_state \<Rightarrow> bool" where
  "ov_run outcome n k s \<longleftrightarrow> (ov_step outcome n ^^ k) (ov_init n) s"

definition ov_done :: "nat \<Rightarrow> 'o ov_state \<Rightarrow> bool" where
  "ov_done n s \<longleftrightarrow> n \<le> length (ov_results s)"

section \<open>The test helpers of Web Connectivity\<close>

definition ErrNoAvailableTestHelpers_error :: go_error where
  "ErrNoAvailableTestHelpers_error = new_error ''no available helpers''"

text \<open>
  \<open>overlapped\<close> is \<open>overlapped.Run\<close> on the endpoints. A panic of the assertions is \<open>None\<close>.
\<close>

definition CallWebConnectivityTestHelper ::
    "(Endpoint list \<Rightarrow> go_error + THResponse option \<times> nat) \<Rightarrow> OOAPIService list \<Rightarrow> (go_error + THResponse \<times> nat) option" where
  "CallWebConnectivityTestHelper overlapped testhelpers =
     (if length testhelpers \<le> 0 then Some (Inl ErrNoAvailableTestHelpers_error)
      else case overlapped (NewEndpointFromModelOOAPIServices testhelpers) of
        Inl err \<Rightarrow> Some (Inl err)
      | Inr (cresp, idx) \<Rightarrow>
          if idx < length testhelpers then map_option (\<lambda>cresp. Inr (cresp, idx)) cresp else None)"

section \<open>Lemmas\<close>

text \<open>Every endpoint below the index is in progress or has one result; a call waits only while something is in progress.\<close>

definition ov_core :: "nat \<Rightarrow> 'o ov_state \<Rightarrow> bool" where
  "ov_core n s \<longleftrightarrow> ov_idx s \<le> n \<and> mset (ov_running s) + mset (map ov_Index (ov_results s)) = mset [0..<ov_idx s]"

definition ov_inv :: "nat \<Rightarrow> 'o ov_state \<Rightarrow> bool" where
  "ov_inv n s \<longleftrightarrow> ov_core n s \<and> (length (ov_results s) < n \<longrightarrow> ov_running s \<noteq> [])"

lemma ov_core_length: "ov_core n s \<Longrightarrow> length (ov_running s) + length (ov_results s) = ov_idx s"
  unfolding ov_core_def by (metis diff_zero length_map length_upt size_mset size_union)

lemma ov_core_loop: "ov_core n s \<Longrightarrow> ov_core n (ov_loop n s)"
  by (auto simp: ov_core_def ov_loop_def simp del: mset_upt)

lemma ov_loop_inv:
  assumes "ov_core n s"
  shows "ov_inv n (ov_loop n s)"
  using ov_core_loop [OF assms] ov_core_length [OF assms] assms
  by (auto simp: ov_inv_def ov_loop_def ov_core_def)

lemma ov_init_inv: "ov_inv n (ov_init n)"
  unfolding ov_init_def by (rule ov_loop_inv) (simp add: ov_core_def)

lemma ov_collect_core:
  "ov_core n s \<Longrightarrow> ov_running s = xs @ i # ys \<Longrightarrow> ov_core n (ov_collect (transact_result i res) (s\<lparr>ov_running := xs @ ys\<rparr>))"
  by (auto simp: ov_core_def ov_collect_def transact_result_def Let_def)

lemma ov_step_inv: "ov_step outcome n s s' \<Longrightarrow> ov_inv n s \<Longrightarrow> ov_inv n s'"
proof (induction rule: ov_step.induct)
  case (timer s)
  then show ?case by (simp add: ov_inv_def ov_core_def)
next
  case (tick s)
  then show ?case by (intro ov_loop_inv) (simp add: ov_inv_def ov_core_def)
next
  case (result s xs i ys res)
  then show ?case by (intro ov_loop_inv ov_collect_core) (simp_all add: ov_inv_def)
qed

text \<open>The number of steps that are left at most.\<close>

definition ov_measure :: "nat \<Rightarrow> 'o ov_state \<Rightarrow> nat" where
  "ov_measure n s = 3 * (n - ov_idx s) + (n - length (ov_results s)) +
     (if ov_ticking s then 3 + (if ov_tick s then 0 else 1) else if ov_tick s then 1 else 0)"

lemma ov_loop_measure: "ov_measure n (ov_loop n s) \<le> ov_measure n s"
  by (auto simp: ov_measure_def ov_loop_def)

lemma ov_step_measure: "ov_step outcome n s s' \<Longrightarrow> ov_measure n s' < ov_measure n s"
proof (induction rule: ov_step.induct)
  case (timer s)
  then show ?case by (simp add: ov_measure_def)
next
  case (tick s)
  then show ?case by (auto simp: ov_measure_def ov_loop_def)
next
  case (result s xs i ys res)
  have "ov_measure n (ov_collect (transact_result i res) (s\<lparr>ov_running := xs @ ys\<rparr>)) < ov_measure n s"
    using result by (auto simp: ov_measure_def ov_collect_def Let_def)
  then show ?case using ov_loop_measure le_less_trans by blast
qed

lemma ov_init_measure: "ov_measure n (ov_init n) \<le> 4 * n + 4"
  by (simp add: ov_init_def ov_loop_def ov_measure_def)

lemma ov_run_inv: "ov_run outcome n k s \<Longrightarrow> ov_inv n s \<and> k + ov_measure n s \<le> 4 * n + 4"
proof (induction k arbitrary: s)
  case 0
  then show ?case by (auto simp: ov_run_def ov_init_inv ov_init_measure)
next
  case (Suc k)
  then obtain t where t: "ov_run outcome n k t" "ov_step outcome n t s"
    by (auto simp: ov_run_def)
  then show ?case using Suc.IH [OF t(1)] ov_step_inv [OF t(2)] ov_step_measure [OF t(2)] by simp
qed

text \<open>The results come from the transactions.\<close>

lemma ov_loop_results [simp]: "ov_results (ov_loop n s) = ov_results s"
  by (simp add: ov_loop_def)

lemma ov_collect_results [simp]: "ov_results (ov_collect res s) = ov_results s @ [res]"
  by (simp add: ov_collect_def Let_def)

lemma ov_run_outcomes:
  "ov_run outcome n k s \<Longrightarrow> r \<in> set (ov_results s) \<Longrightarrow> \<exists>c. outcome (ov_Index r) c (ov_Result r)"
proof (induction k arbitrary: s)
  case 0
  then show ?case by (auto simp: ov_run_def ov_init_def)
next
  case (Suc k)
  then obtain t where t: "ov_run outcome n k t" "ov_step outcome n t s"
    by (auto simp: ov_run_def)
  from t(2) Suc.prems(2) Suc.IH [OF t(1)] show ?case
    by (cases rule: ov_step.cases) (auto simp: transact_result_def)
qed

lemma ov_success_cases: "ov_Result r = Inl e \<Longrightarrow> \<not> ov_success r" "ov_Result r = Inr v \<Longrightarrow> ov_success r"
  by (simp_all add: ov_success_def)

lemma reduce_loop_spec:
  "reduce_loop results errorv =
     (case filter ov_success results of
        r # _ \<Rightarrow> Inr (projr (ov_Result r), ov_Index r)
      | [] \<Rightarrow> Inl (errors_Join (if errorv @ map (\<lambda>r. projl (ov_Result r)) results = [] then [ErrGenericOverlappedFailure]
                               else errorv @ map (\<lambda>r. projl (ov_Result r)) results)))"
proof (induction results errorv rule: reduce_loop.induct)
  case (2 res results errorv)
  then show ?case by (cases "ov_Result res") (simp_all add: ov_success_cases split: list.split)
qed simp

lemma overlapped_reduce_spec:
  "OverlappedReduce results =
     (case filter ov_success results of
        r # _ \<Rightarrow> Inr (projr (ov_Result r), ov_Index r)
      | [] \<Rightarrow> Inl (errors_Join (if results = [] then [ErrGenericOverlappedFailure] else map (\<lambda>r. projl (ov_Result r)) results)))"
  by (simp add: OverlappedReduce_def reduce_loop_spec split: list.split)

text \<open>A step is possible until every endpoint has its result.\<close>

lemma ov_progress:
  assumes inv: "ov_inv n s" and "\<not> ov_done n s" and total: "\<And>i c. \<exists>r. outcome i c r"
  shows "\<exists>s'. ov_step outcome n s s'"
proof -
  have "length (ov_results s) < n" "ov_running s \<noteq> []"
    using inv assms(2) by (auto simp: ov_inv_def ov_done_def)
  moreover obtain i ys where "ov_running s = [] @ i # ys"
    using calculation(2) by (cases "ov_running s") auto
  moreover obtain r where "outcome i (ov_cancelled s) r" using total by blast
  ultimately show ?thesis by (blast intro: ov_step.result)
qed

lemma ov_done_indices:
  assumes inv: "ov_inv n s" and "ov_done n s"
  shows "mset (map ov_Index (ov_results s)) = mset [0..<n]"
proof -
  have core: "ov_core n s" using inv by (simp add: ov_inv_def)
  have "ov_idx s = n" "length (ov_running s) = 0"
    using ov_core_length [OF core] core assms(2) unfolding ov_core_def ov_done_def by linarith+
  then show ?thesis using core by (simp add: ov_core_def)
qed

text \<open>Some run completes.\<close>

lemma overlapped_completes:
  assumes total: "\<And>i c. \<exists>r. outcome i c r"
  shows "\<exists>k s. ov_run outcome n k s \<and> ov_done n s"
proof (rule ccontr)
  assume "\<not> ?thesis"
  then have "\<exists>s. ov_run outcome n k s" for k
  proof (induction k)
    case 0
    then show ?case by (auto simp: ov_run_def)
  next
    case (Suc k)
    then obtain s where s: "ov_run outcome n k s" by blast
    then have "ov_inv n s" "\<not> ov_done n s" using ov_run_inv Suc.prems by blast+
    then obtain s' where "ov_step outcome n s s'" using ov_progress [of n s outcome] total by blast
    then show ?case using s by (auto simp: ov_run_def)
  qed
  then obtain s where "ov_run outcome n (4 * n + 5) s" by blast
  then show False using ov_run_inv by fastforce
qed

text \<open>A success that the caller gets comes from the transaction of its endpoint.\<close>

lemma overlapped_success:
  assumes run: "ov_run outcome n k s" and "ov_done n s" and reduce: "OverlappedReduce (ov_results s) = Inr (v, idx)"
  shows "idx < n \<and> (\<exists>c. outcome idx c (Inr v))"
proof -
  obtain r rs where r: "filter ov_success (ov_results s) = r # rs" "v = projr (ov_Result r)" "idx = ov_Index r"
    using reduce by (auto simp: overlapped_reduce_spec split: list.splits)
  then have "r \<in> set (filter ov_success (ov_results s))" by simp
  then have mem: "r \<in> set (ov_results s)" "ov_success r" by simp_all
  have "mset (map ov_Index (ov_results s)) = mset [0..<n]" using ov_run_inv [OF run] assms(2) by (intro ov_done_indices) auto
  then have "idx \<in> set [0..<n]" using mem(1) r(3) by (metis image_eqI list.set_map set_mset_mset)
  moreover obtain c where "outcome (ov_Index r) c (ov_Result r)" using ov_run_outcomes [OF run mem(1)] by blast
  moreover have "ov_Result r = Inr v" using mem(2) r(2) by (auto simp: ov_success_def split: sum.splits)
  ultimately show ?thesis using r(3) by auto
qed

text \<open>Of the services, those the endpoints are made of; their positions among the services.\<close>

definition usable_service :: "OOAPIService \<Rightarrow> bool" where
  "usable_service svc \<longleftrightarrow> svc_Type svc \<in> {''cloudfront'', ''https''}"

lemma service_endpoints_filter:
  "NewEndpointFromModelOOAPIServices svcs = map (\<lambda>svc. the (service_endpoint svc)) (filter usable_service svcs)"
  unfolding NewEndpointFromModelOOAPIServices_def
  by (induction svcs) (auto simp: List.map_filter_simps service_endpoint_def usable_service_def Let_def split: option.split)

section \<open>Properties\<close>

text \<open>
  C37: The overlapped calls of \<open>n\<close> endpoints (\<open>Map\<close> and \<open>OverlappedReduce\<close>) end whatever the order of ticks and results: a run has at most
  \<open>4 * n + 4\<close> steps, and it is never stuck while every transaction returns something. When it ends there is one result for every endpoint,
  no index twice and none out of range, each is what its transaction returned, and what the caller gets is the first success in the order of
  completion, or, without a success, the joined errors in that order.
\<close>

theorem overlapped_runs_end:
  assumes run: "ov_run outcome n k s" and total: "\<And>i c. \<exists>r. outcome i c r"
  shows "k \<le> 4 * n + 4 \<and> (\<not> ov_done n s \<longrightarrow> (\<exists>s'. ov_step outcome n s s')) \<and>
    (ov_done n s \<longrightarrow> mset (map ov_Index (ov_results s)) = mset [0..<n]) \<and>
    (\<forall>r \<in> set (ov_results s). \<exists>c. outcome (ov_Index r) c (ov_Result r)) \<and>
    OverlappedReduce (ov_results s) =
      (case filter ov_success (ov_results s) of
         r # _ \<Rightarrow> Inr (projr (ov_Result r), ov_Index r)
       | [] \<Rightarrow> Inl (errors_Join (if ov_results s = [] then [ErrGenericOverlappedFailure]
                                 else map (\<lambda>r. projl (ov_Result r)) (ov_results s))))"
proof -
  have "k \<le> 4 * n + 4" and inv: "ov_inv n s" using ov_run_inv [OF run] by auto
  then show ?thesis
    using ov_progress [of n s outcome, OF inv _ total] ov_done_indices [OF inv] ov_run_outcomes [OF run] overlapped_reduce_spec by blast
qed

text \<open>Two endpoints: the second is started by a tick and answers first.\<close>

theorem overlapped_runs_end_witness:
  "\<exists>s :: nat ov_state. ov_run (\<lambda>i c r. r = (if c then Inl ErrTruncated else Inr (i * 7))) 2 4 s \<and> (4::nat) \<le> 4 * 2 + 4 \<and>
     ov_done 2 s \<and> mset (map ov_Index (ov_results s)) = mset [0..<2] \<and> OverlappedReduce (ov_results s) = Inr (7, 1)"
proof -
  let ?out = "\<lambda>i c (r :: go_error + nat). r = (if c then Inl ErrTruncated else Inr (i * 7))"
  let ?a = "ov_init 2 :: nat ov_state"
  let ?b = "?a\<lparr>ov_tick := True\<rparr>"
  let ?c = "ov_loop 2 (?b\<lparr>ov_tick := False\<rparr>)"
  let ?d = "ov_loop 2 (ov_collect (transact_result 1 (Inr 7)) (?c\<lparr>ov_running := [0] @ []\<rparr>))"
  let ?e = "ov_loop 2 (ov_collect (transact_result 0 (Inl ErrTruncated)) (?d\<lparr>ov_running := [] @ []\<rparr>))"
  have "ov_step ?out 2 ?a ?b" by (rule ov_step.timer) (simp_all add: ov_init_def ov_loop_def)
  moreover have "ov_step ?out 2 ?b ?c" by (rule ov_step.tick) (simp_all add: ov_init_def ov_loop_def)
  moreover have "ov_step ?out 2 ?c ?d" by (rule ov_step.result) (simp_all add: ov_init_def ov_loop_def)
  moreover have "ov_step ?out 2 ?d ?e"
    by (rule ov_step.result) (simp_all add: ov_init_def ov_loop_def ov_collect_def ov_success_def transact_result_def Let_def)
  ultimately have "(ov_step ?out 2 ^^ Suc (Suc (Suc (Suc 0)))) ?a ?e"
    unfolding relpowp.simps by blast
  then have run: "ov_run ?out 2 4 ?e" by (simp only: ov_run_def eval_nat_numeral BitM.simps)
  have results: "ov_results ?e = [transact_result 1 (Inr 7), transact_result 0 (Inl ErrTruncated)]"
    by (simp add: ov_init_def)
  have "ov_done 2 ?e" by (simp add: ov_done_def results)
  moreover from overlapped_runs_end [OF run] have all: "(4::nat) \<le> 4 * 2 + 4 \<and> (\<not> ov_done 2 ?e \<longrightarrow> (\<exists>s'. ov_step ?out 2 ?e s')) \<and>
    (ov_done 2 ?e \<longrightarrow> mset (map ov_Index (ov_results ?e)) = mset [0..<2]) \<and>
    (\<forall>r \<in> set (ov_results ?e). \<exists>c. ?out (ov_Index r) c (ov_Result r)) \<and>
    OverlappedReduce (ov_results ?e) =
      (case filter ov_success (ov_results ?e) of
         r # _ \<Rightarrow> Inr (projr (ov_Result r), ov_Index r)
       | [] \<Rightarrow> Inl (errors_Join (if ov_results ?e = [] then [ErrGenericOverlappedFailure]
                                 else map (\<lambda>r. projl (ov_Result r)) (ov_results ?e))))" by blast
  moreover have "OverlappedReduce (ov_results ?e) = Inr (7, 1)"
    using all unfolding results by (simp add: transact_result_def ov_success_def)
  ultimately show ?thesis using run by (intro exI [of _ ?e]) simp
qed

text \<open>
  C38: \<open>CallWebConnectivityTestHelper\<close> returns an index into the endpoints made of the usable services (those of type \<open>https\<close> or
  \<open>cloudfront\<close>), while its callers use it as an index into the services. Whatever the overlapped call returns, provided its index is one of its
  endpoints, there is no panic of the bounds assertion, and the service that answered is the one at the index among the usable services. It is
  the service at the index when every service is usable.
\<close>

theorem test_helper_index:
  assumes overlapped: "overlapped (NewEndpointFromModelOOAPIServices testhelpers) = Inr (Some cresp, idx)"
    and range: "idx < length (NewEndpointFromModelOOAPIServices testhelpers)"
  shows "CallWebConnectivityTestHelper overlapped testhelpers = Some (Inr (cresp, idx)) \<and>
    service_endpoint (filter usable_service testhelpers ! idx) = Some (NewEndpointFromModelOOAPIServices testhelpers ! idx) \<and>
    (list_all usable_service testhelpers \<longrightarrow>
       service_endpoint (testhelpers ! idx) = Some (NewEndpointFromModelOOAPIServices testhelpers ! idx))"
proof -
  have idx: "idx < length (filter usable_service testhelpers)" using range by (simp add: service_endpoints_filter)
  then have "idx < length testhelpers" using length_filter_le less_le_trans by blast
  then have "CallWebConnectivityTestHelper overlapped testhelpers = Some (Inr (cresp, idx))"
    using overlapped by (auto simp: CallWebConnectivityTestHelper_def)
  moreover have "usable_service (filter usable_service testhelpers ! idx)" using idx nth_mem by fastforce
  then have "service_endpoint (filter usable_service testhelpers ! idx) = Some (NewEndpointFromModelOOAPIServices testhelpers ! idx)"
    using idx by (auto simp: service_endpoints_filter service_endpoint_def usable_service_def Let_def)
  moreover have "filter usable_service testhelpers = testhelpers" if "list_all usable_service testhelpers"
    using that by (simp add: list_all_iff)
  ultimately show ?thesis by metis
qed

text \<open>
  An unusable service before the one that answers: the response comes from the second service, and the index names the first.
\<close>

theorem test_helper_index_witness:
  "\<forall>cr. \<exists>testhelpers idx. CallWebConnectivityTestHelper (\<lambda>_. Inr (Some cr, 0)) testhelpers = Some (Inr (cr, idx)) \<and>
     NewEndpointFromModelOOAPIServices testhelpers ! idx = NewEndpoint ''https://b/'' \<and> svc_Address (testhelpers ! idx) = ''http://a.onion/''"
proof
  fix cr
  let ?t = "\<lambda>typ addr. \<lparr>svc_Address = addr, svc_Type = typ, svc_Front = ''''\<rparr>"
  let ?ths = "[?t ''onion'' ''http://a.onion/'', ?t ''https'' ''https://b/'']"
  have "NewEndpointFromModelOOAPIServices ?ths = [NewEndpoint ''https://b/'']"
    by (simp add: NewEndpointFromModelOOAPIServices_def List.map_filter_simps service_endpoint_def Let_def)
  then show "\<exists>testhelpers idx. CallWebConnectivityTestHelper (\<lambda>_. Inr (Some cr, 0)) testhelpers = Some (Inr (cr, idx)) \<and>
     NewEndpointFromModelOOAPIServices testhelpers ! idx = NewEndpoint ''https://b/'' \<and> svc_Address (testhelpers ! idx) = ''http://a.onion/''"
    using test_helper_index [of "\<lambda>_. Inr (Some cr, 0)" ?ths cr 0]
    by (intro exI [of _ ?ths] exI [of _ 0]) simp
qed

end
