(* ===== verification/LteParts.thy ===== *)
theory LteParts
  imports MeasureX HttpClientX NetDialer StatsManager
begin

text \<open>
  The parts that the tasks of Web Connectivity share, \<open>internal/experiment/webconnectivitylte\<close>: the DNS cache
  (\<open>dnscache.go\<close>), the transaction identifiers (\<open>idgenerator.go\<close>), the redirects (\<open>redirects.go\<close>, \<open>httpredirect.go\<close>), the filter of
  addresses (\<open>ipfiltering.go\<close>), the tags (\<open>tags.go\<close>), the pure parts of the priority selector (\<open>priority.go\<close>), of the resolvers
  (\<open>dnsresolvers.go\<close>), of the flows (\<open>cleartextflow.go\<close>, \<open>secureflow.go\<close>) and of the control (\<open>control.go\<close>). Of
  \<open>internal/webconnectivityalgo\<close>: the choice of the resolvers (\<open>dnsoverhttps.go\<close>, \<open>dnsoverudp.go\<close>) and the cache of the resolvers'
  addresses (\<open>dnswhoami.go\<close>). Also the sampler of the received bytes (\<open>internal/throttling\<close>) and the parser of the inputs
  (\<open>internal/inputparser\<close>). Mutex-protected methods are functions on the state they protect.
\<close>

section \<open>The DNS cache\<close>

record DNSEntry =
  de_Addr :: string
  de_Flags :: int

definition DNSAddrFlagSystemResolver :: int where "DNSAddrFlagSystemResolver = 1"
definition DNSAddrFlagUDP :: int where "DNSAddrFlagUDP = 2"
definition DNSAddrFlagHTTPS :: int where "DNSAddrFlagHTTPS = 4"

definition NewDNSCache :: "(string, DNSEntry list) gomap" where
  "NewDNSCache = []"

definition DNSCache_Get :: "string \<Rightarrow> (string, DNSEntry list) gomap \<Rightarrow> DNSEntry list option" where
  "DNSCache_Get domain c = gmap_get c domain"

definition DNSCache_Set :: "string \<Rightarrow> DNSEntry list \<Rightarrow> (string, DNSEntry list) gomap \<Rightarrow> (string, DNSEntry list) gomap" where
  "DNSCache_Set domain values c = AList.update domain values c"

section \<open>Transaction identifiers\<close>

definition idGeneratorGetaddrinfoOffset :: int where "idGeneratorGetaddrinfoOffset = 10000"
definition idGeneratorDNSOverUDPOffset :: int where "idGeneratorDNSOverUDPOffset = 20000"
definition idGeneratorDNSOverHTTPSOffset :: int where "idGeneratorDNSOverHTTPSOffset = 30000"
definition idGeneratorEndpointCleartextOffset :: int where "idGeneratorEndpointCleartextOffset = 40000"
definition idGeneratorEndpointSecureOffset :: int where "idGeneratorEndpointSecureOffset = 50000"

record IDGenerator =
  idg_getaddrinfo :: int
  idg_dnsOverUDP :: int
  idg_dnsOverHTTPS :: int
  idg_endpointCleartext :: int
  idg_endpointSecure :: int

definition NewIDGenerator :: IDGenerator where
  "NewIDGenerator = \<lparr>idg_getaddrinfo = 0, idg_dnsOverUDP = 0, idg_dnsOverHTTPS = 0, idg_endpointCleartext = 0, idg_endpointSecure = 0\<rparr>"

definition NewIDForGetaddrinfo :: "IDGenerator \<Rightarrow> int \<times> IDGenerator" where
  "NewIDForGetaddrinfo g = (let n = wrap64 (idg_getaddrinfo g + 1) in (wrap64 (n + idGeneratorGetaddrinfoOffset), g\<lparr>idg_getaddrinfo := n\<rparr>))"

definition NewIDForDNSOverUDP :: "IDGenerator \<Rightarrow> int \<times> IDGenerator" where
  "NewIDForDNSOverUDP g = (let n = wrap64 (idg_dnsOverUDP g + 1) in (wrap64 (n + idGeneratorDNSOverUDPOffset), g\<lparr>idg_dnsOverUDP := n\<rparr>))"

definition NewIDForDNSOverHTTPS :: "IDGenerator \<Rightarrow> int \<times> IDGenerator" where
  "NewIDForDNSOverHTTPS g =
     (let n = wrap64 (idg_dnsOverHTTPS g + 1) in (wrap64 (n + idGeneratorDNSOverHTTPSOffset), g\<lparr>idg_dnsOverHTTPS := n\<rparr>))"

definition NewIDForEndpointCleartext :: "IDGenerator \<Rightarrow> int \<times> IDGenerator" where
  "NewIDForEndpointCleartext g =
     (let n = wrap64 (idg_endpointCleartext g + 1) in (wrap64 (n + idGeneratorEndpointCleartextOffset), g\<lparr>idg_endpointCleartext := n\<rparr>))"

definition NewIDForEndpointSecure :: "IDGenerator \<Rightarrow> int \<times> IDGenerator" where
  "NewIDForEndpointSecure g =
     (let n = wrap64 (idg_endpointSecure g + 1) in (wrap64 (n + idGeneratorEndpointSecureOffset), g\<lparr>idg_endpointSecure := n\<rparr>))"

section \<open>Redirects\<close>

definition CanFollowOneMoreRedirect :: "int \<Rightarrow> bool \<times> int" where
  "CanFollowOneMoreRedirect n = (let n = wrap64 (n - 1) in (n \<ge> 0, n))"

definition httpRedirectIsRedirect :: "http_response \<Rightarrow> bool" where
  "httpRedirectIsRedirect resp \<longleftrightarrow> hresp_StatusCode resp \<in> {301, 302, 307, 308}"

definition errHTTPValidateRedirectMissingRequest :: go_error where
  "errHTTPValidateRedirectMissingRequest = new_error ''httpValidateRedirect: missing request''"

definition httpValidateRedirect :: "http_response \<Rightarrow> go_error option" where
  "httpValidateRedirect resp =
     (case hresp_Request resp of
        None \<Rightarrow> Some errHTTPValidateRedirectMissingRequest
      | Some _ \<Rightarrow>
          (case hresp_Location resp of
             Inl err \<Rightarrow> Some err
           | Inr location \<Rightarrow>
               if url_Host location = ''''
               then Some (GoError (KErrWrapper FailureHTTPInvalidRedirectLocationHost HTTPRoundTripOperation)
                            FailureHTTPInvalidRedirectLocationHost [])
               else None))"

definition ErrTooManyRedirects :: go_error where
  "ErrTooManyRedirects = new_error ''stopped after too many redirects''"

section \<open>Addresses and tags\<close>

definition errNotAllowedToConnect :: go_error where
  "errNotAllowedToConnect = new_error ''webconnectivity: not allowed to connect''"

definition allowedToConnect :: "string \<Rightarrow> go_error option" where
  "allowedToConnect endpoint =
     (case SplitHostPort endpoint of
        Inl err \<Rightarrow> Some (GoError OtherError (err_Error errNotAllowedToConnect @ '': '' @ err_Error (addr_error err endpoint))
                          [errNotAllowedToConnect])
      | Inr (addr, _) \<Rightarrow>
          if IsLoopback addr
          then Some (GoError OtherError (err_Error errNotAllowedToConnect @ '': is loopback'') [errNotAllowedToConnect])
          else None)"

definition generateTagsForEndpoints :: "int \<Rightarrow> bool \<Rightarrow> bool \<Rightarrow> string list" where
  "generateTagsForEndpoints depth has_ps classic =
     (if classic then [''classic''] else []) @ (if depth < 1 then [''tcptls_experiment''] else []) @
     [''depth='' @ itoa depth] @ [''fetch_body='' @ (if has_ps then ''true'' else ''false'')]"

section \<open>Priorities\<close>

text \<open>A request names the goroutine that waits for the answer.\<close>

record priorityRequest =
  pr_task :: nat
  pr_addr :: string

record prioritySelector =
  ps_m :: "(string, int) gomap"
  ps_nhttps :: int
  ps_nsystem :: int
  ps_nudp :: int

definition has_flag :: "int \<Rightarrow> int \<Rightarrow> bool" where
  "has_flag flags flag \<longleftrightarrow> and flags flag \<noteq> 0"

definition ps_add :: "DNSEntry \<Rightarrow> prioritySelector \<Rightarrow> prioritySelector" where
  "ps_add addr ps =
     (let flags = de_Flags addr;
          ps = ps\<lparr>ps_m := AList.update (de_Addr addr) flags (ps_m ps)\<rparr>;
          ps = (if has_flag flags DNSAddrFlagSystemResolver then ps\<lparr>ps_nsystem := ps_nsystem ps + 1\<rparr> else ps);
          ps = (if has_flag flags DNSAddrFlagUDP then ps\<lparr>ps_nudp := ps_nudp ps + 1\<rparr> else ps)
      in if has_flag flags DNSAddrFlagHTTPS then ps\<lparr>ps_nhttps := ps_nhttps ps + 1\<rparr> else ps)"

definition newPrioritySelector :: "DNSEntry list \<Rightarrow> prioritySelector" where
  "newPrioritySelector addrs = fold ps_add addrs \<lparr>ps_m = [], ps_nhttps = 0, ps_nsystem = 0, ps_nudp = 0\<rparr>"

definition isHighestPriority :: "prioritySelector \<Rightarrow> priorityRequest \<Rightarrow> bool" where
  "isHighestPriority ps r =
     (let flags = (case gmap_get (ps_m ps) (pr_addr r) of Some v \<Rightarrow> v | None \<Rightarrow> 0)
      in if ps_nsystem ps > 0 then has_flag flags DNSAddrFlagSystemResolver
         else if ps_nudp ps > 0 then has_flag flags DNSAddrFlagUDP
         else if ps_nhttps ps > 0 then has_flag flags DNSAddrFlagHTTPS
         else True)"

text \<open>The assertion that the list is not empty panics.\<close>

definition findHighestPriority :: "prioritySelector \<Rightarrow> priorityRequest list \<Rightarrow> priorityRequest option" where
  "findHighestPriority ps reqs =
     (if length reqs > 0 then Some (case find (isHighestPriority ps) reqs of Some r \<Rightarrow> r | None \<Rightarrow> reqs ! 0) else None)"

section \<open>Resolved addresses\<close>

definition merge_addr :: "int \<Rightarrow> string \<Rightarrow> (string, DNSEntry) gomap \<Rightarrow> (string, DNSEntry) gomap" where
  "merge_addr flag addr acc =
     (let entry = (case gmap_get acc addr of Some e \<Rightarrow> e | None \<Rightarrow> \<lparr>de_Addr = '''', de_Flags = 0\<rparr>)
      in AList.update addr \<lparr>de_Addr = addr, de_Flags = or (de_Flags entry) flag\<rparr> acc)"

definition merge_addrs :: "string list \<Rightarrow> string list \<Rightarrow> string list \<Rightarrow> (string, DNSEntry) gomap" where
  "merge_addrs systemAddrs udpAddrs httpsAddrs =
     fold (merge_addr DNSAddrFlagHTTPS) httpsAddrs (fold (merge_addr DNSAddrFlagUDP) udpAddrs
       (fold (merge_addr DNSAddrFlagSystemResolver) systemAddrs []))"

definition do53SplitQueries :: "ArchivalDNSLookupResult list \<Rightarrow> ArchivalDNSLookupResult list \<times> ArchivalDNSLookupResult list" where
  "do53SplitQueries input =
     fold (\<lambda>query (do53, other). if dns_Engine query \<in> {''udp'', ''tcp''} then (do53 @ [query], other) else (do53, other @ [query]))
       input ([], [])"

definition dohSplitQueries :: "ArchivalDNSLookupResult list \<Rightarrow> ArchivalDNSLookupResult list \<times> ArchivalDNSLookupResult list" where
  "dohSplitQueries input =
     fold (\<lambda>query (doh, other). if dns_Engine query = ''doh'' then (doh @ [query], other) else (doh, other @ [query])) input ([], [])"

definition dnsOverUDPResolverAddressIPv4 :: "string list" where
  "dnsOverUDPResolverAddressIPv4 =
     [''8.8.8.8'', ''8.8.4.4'', ''9.9.9.9'', ''149.112.112.112'', ''1.1.1.1'', ''1.0.0.1'', ''208.67.222.222'', ''208.67.220.220'']"

definition RandomDNSOverUDPResolverEndpointIPv4 :: "nat \<Rightarrow> string" where
  "RandomDNSOverUDPResolverEndpointIPv4 draw =
     join_host_port (dnsOverUDPResolverAddressIPv4 ! (draw mod length dnsOverUDPResolverAddressIPv4)) ''53''"

definition udpAddress :: "string \<Rightarrow> nat \<Rightarrow> string" where
  "udpAddress configured draw = (if configured \<noteq> '''' then configured else RandomDNSOverUDPResolverEndpointIPv4 draw)"

section \<open>DNS over HTTPS from time to time\<close>

record OpportunisticDNSOverHTTPSURLProvider =
  op_interval :: int
  op_t :: int
  op_urls :: "string list"

definition NewOpportunisticDNSOverHTTPSURLProvider :: "string list \<Rightarrow> OpportunisticDNSOverHTTPSURLProvider" where
  "NewOpportunisticDNSOverHTTPSURLProvider urls = \<lparr>op_interval = 0, op_t = time_zero, op_urls = urls\<rparr>"

definition MaybeNextURL ::
    "int \<Rightarrow> (nat \<Rightarrow> nat) \<Rightarrow> nat \<Rightarrow> OpportunisticDNSOverHTTPSURLProvider \<Rightarrow> string option \<times> OpportunisticDNSOverHTTPSURLProvider" where
  "MaybeNextURL now rnd draw op =
     (if length (op_urls op) > 0 \<and> (op_t op = time_zero \<or> time_Sub now (op_t op) > op_interval op)
      then let urls = rand_Shuffle rnd (length (op_urls op) - 1) (op_urls op)
           in (Some (urls ! 0), op\<lparr>op_urls := urls, op_t := now, op_interval := (20 + int (draw mod 20)) * time_Second\<rparr>)
      else (None, op))"

section \<open>The addresses of the resolvers\<close>

record dnsWhoamiInfoTimedEntry =
  wt_Addr :: string
  wt_T :: int

definition lockAndGet :: "int \<Rightarrow> string \<Rightarrow> (string, dnsWhoamiInfoTimedEntry) gomap \<Rightarrow> DNSWhoamiInfoEntry option" where
  "lockAndGet now serverAddr entries =
     (case gmap_get entries serverAddr of
        None \<Rightarrow> None
      | Some entry \<Rightarrow> if time_Sub now (wt_T entry) > 45 * time_Second then None else Some \<lparr>whoami_Address = wt_Addr entry\<rparr>)"

definition lockAndUpdate ::
    "int \<Rightarrow> string \<Rightarrow> string \<Rightarrow> (string, dnsWhoamiInfoTimedEntry) gomap \<Rightarrow> (string, dnsWhoamiInfoTimedEntry) gomap" where
  "lockAndUpdate now serverAddr whoamiAddr entries = AList.update serverAddr \<lparr>wt_Addr = whoamiAddr, wt_T = now\<rparr> entries"

text \<open>\<open>lookup\<close> given what the resolver answers; the cache does not change between its two accesses in this sequential view.\<close>

definition whoami_lookup ::
    "int \<Rightarrow> string \<Rightarrow> go_error + string list \<Rightarrow> (string, dnsWhoamiInfoTimedEntry) gomap \<Rightarrow>
     DNSWhoamiInfoEntry list \<times> (string, dnsWhoamiInfoTimedEntry) gomap" where
  "whoami_lookup now name answer entries =
     (case lockAndGet now name entries of
        Some e \<Rightarrow> ([e], entries)
      | None \<Rightarrow>
          (case answer of
             Inl _ \<Rightarrow> ([], entries)
           | Inr addrs \<Rightarrow>
               if length addrs < 1 then ([], entries)
               else ([\<lparr>whoami_Address = addrs ! 0\<rparr>], lockAndUpdate now name (addrs ! 0) entries)))"

section \<open>Throttling\<close>

definition BytesReceivedCumulativeOperation :: string where
  "BytesReceivedCumulativeOperation = ''bytes_received_cumulative''"

definition collectSnapshot :: "Trace \<Rightarrow> int \<Rightarrow> ArchivalNetworkEvent list \<Rightarrow> ArchivalNetworkEvent list" where
  "collectSnapshot tx now q =
     (let t = Duration_Seconds (since_zero tx now)
      in q @ concat (map (\<lambda>(key, n).
           case split_byte (CHR '' '') key of
             [address, network] \<Rightarrow>
               [\<lparr>net_Address = address, net_Failure = None, net_NumBytes = n, net_Operation = BytesReceivedCumulativeOperation,
                 net_Proto = network, net_T0 = t, net_T = t, net_TransactionID = trace_index tx, net_Tags = trace_tags tx\<rparr>]
           | _ \<Rightarrow> []) (CloneBytesReceivedMap tx)))"

definition ExtractSamples :: "Trace \<Rightarrow> int \<Rightarrow> ArchivalNetworkEvent list \<Rightarrow> ArchivalNetworkEvent list" where
  "ExtractSamples tx now q = collectSnapshot tx now q"

section \<open>Inputs\<close>

text \<open>
  A URL as \<open>url.Parse\<close> gives it: the fields that the code reads or compares, and the rest, which is empty when every other field has its
  zero value. \<open>url_splitHostPort\<close> is what \<open>Hostname\<close> and \<open>Port\<close> compute of the host.
\<close>

record parsed_url =
  pu_Scheme :: string
  pu_Opaque :: string
  pu_Host :: string
  pu_Path :: string
  pu_RawQuery :: string
  pu_rest :: string

definition validOptionalPort :: "string \<Rightarrow> bool" where
  "validOptionalPort port \<longleftrightarrow> port = '''' \<or> (hd port = CHR '':'' \<and> list_all is_digit (tl port))"

definition url_splitHostPort :: "string \<Rightarrow> string \<times> string" where
  "url_splitHostPort hostPort =
     (let port = rev (takeWhile (\<lambda>c. c \<noteq> CHR '':'') (rev hostPort));
          colon = length hostPort - length port - 1;
          (host, port) = (if CHR '':'' \<in> set hostPort \<and> validOptionalPort (drop colon hostPort) then (take colon hostPort, port)
                          else (hostPort, ''''))
      in (if has_prefix host ''['' \<and> has_suffix host '']'' then take (length host - 2) (drop 1 host) else host, port))"

definition pu_Hostname :: "parsed_url \<Rightarrow> string" where
  "pu_Hostname u = fst (url_splitHostPort (pu_Host u))"

definition pu_Port :: "parsed_url \<Rightarrow> string" where
  "pu_Port u = snd (url_splitHostPort (pu_Host u))"

record inputparser_Config =
  AcceptedSchemes :: "string list"
  AllowEndpoints :: bool
  DefaultScheme :: string

definition ErrEmptyDefaultScheme :: go_error where "ErrEmptyDefaultScheme = new_error ''inputparser: empty default scheme''"
definition ErrEmptyHostname :: go_error where "ErrEmptyHostname = new_error ''inputparser: empty URL.Hostname()''"
definition ErrIDNAToASCII :: go_error where "ErrIDNAToASCII = new_error ''inputparser: cannot convert IDNA to ASCII''"
definition ErrInvalidEndpoint :: go_error where "ErrInvalidEndpoint = new_error ''inputparser: invalid endpoint''"
definition ErrURLParse :: go_error where "ErrURLParse = new_error ''inputparser: cannot parse URL''"
definition ErrUnsupportedScheme :: go_error where "ErrUnsupportedScheme = new_error ''inputparser: unsupported URL.Scheme''"

definition errorf :: "go_error \<Rightarrow> string \<Rightarrow> go_error" where
  "errorf err txt = GoError OtherError (err_Error err @ '': '' @ txt) [err]"

definition maybeEndpointToURL :: "inputparser_Config \<Rightarrow> parsed_url \<Rightarrow> go_error + parsed_url" where
  "maybeEndpointToURL config u =
     (let expect = \<lparr>pu_Scheme = pu_Scheme u, pu_Opaque = pu_Opaque u, pu_Host = '''', pu_Path = '''', pu_RawQuery = '''', pu_rest = ''''\<rparr>
      in if u \<noteq> expect then Inl ErrInvalidEndpoint
         else if DefaultScheme config = '''' then Inl ErrEmptyDefaultScheme
         else Inr \<lparr>pu_Scheme = DefaultScheme config, pu_Opaque = '''', pu_Host = join_host_port (pu_Scheme expect) (pu_Opaque expect),
                   pu_Path = '''', pu_RawQuery = '''', pu_rest = ''''\<rparr>)"

definition maybeConvertHostnameToASCII :: "(string \<Rightarrow> string + string) \<Rightarrow> parsed_url \<Rightarrow> go_error + parsed_url" where
  "maybeConvertHostnameToASCII toASCII u =
     (let hostname = pu_Hostname u
      in case toASCII hostname of
           Inl err \<Rightarrow> Inl (errorf ErrIDNAToASCII err)
         | Inr asciiHostname \<Rightarrow>
             Inr (if asciiHostname \<noteq> hostname
                  then u\<lparr>pu_Host := (if pu_Port u \<noteq> '''' then join_host_port asciiHostname (pu_Port u) else asciiHostname)\<rparr>
                  else u))"

definition isSchemeOK :: "inputparser_Config \<Rightarrow> parsed_url \<Rightarrow> bool" where
  "isSchemeOK config u \<longleftrightarrow>
     pu_Scheme u \<in> set (AcceptedSchemes config) \<or> (AllowEndpoints config \<and> pu_Scheme u = DefaultScheme config)"

text \<open>\<open>None\<close> is the panic of the assertion on an empty input. \<open>url_Parse\<close> and \<open>toASCII\<close> give the text of their errors.\<close>

definition inputparser_Parse ::
    "(string \<Rightarrow> string + parsed_url) \<Rightarrow> (string \<Rightarrow> string + string) \<Rightarrow> inputparser_Config \<Rightarrow> string \<Rightarrow> (go_error + parsed_url) option" where
  "inputparser_Parse url_Parse toASCII config input =
     (if input = '''' then None
      else Some (case url_Parse input of
        Inl err \<Rightarrow> Inl (errorf ErrURLParse err)
      | Inr u \<Rightarrow>
          (case (if pu_Hostname u = '''' then if \<not> AllowEndpoints config then Inl ErrEmptyHostname else maybeEndpointToURL config u
                 else Inr u) of
             Inl err \<Rightarrow> Inl err
           | Inr u \<Rightarrow> if \<not> isSchemeOK config u then Inl ErrUnsupportedScheme else maybeConvertHostnameToASCII toASCII u)))"

section \<open>Flows\<close>

text \<open>
  The parameters of a flow to one endpoint, cleartext or secure. Those that are shared by all the tasks of a measurement (the cache, the
  counters, the test keys, the jar, the address of the UDP resolver) are in the state of the measurement. A selector is named by its number.
\<close>

record flow =
  fl_secure :: bool
  fl_Address :: string
  fl_Classic :: bool
  fl_Depth :: int
  fl_ALPN :: "string list"
  fl_FollowRedirects :: bool
  fl_SNI :: string
  fl_HostHeader :: string
  fl_PrioSelector :: "nat option"
  fl_Referer :: string
  fl_URLPath :: string
  fl_URLRawQuery :: string

text \<open>The part of the resolvers' task that the flows inherit.\<close>

record DNSResolvers =
  rs_Domain :: string
  rs_Depth :: int
  rs_URL :: URL
  rs_Referer :: string
  rs_TestHelpers :: "OOAPIService list"

definition cleartext_flow :: "DNSResolvers \<Rightarrow> nat option \<Rightarrow> string \<Rightarrow> DNSEntry \<Rightarrow> flow" where
  "cleartext_flow t ps port addr =
     \<lparr>fl_secure = False, fl_Address = join_host_port (de_Addr addr) port, fl_Classic = has_flag (de_Flags addr) DNSAddrFlagSystemResolver,
      fl_Depth = rs_Depth t, fl_ALPN = [], fl_FollowRedirects = (url_Scheme (rs_URL t) = ''http''), fl_SNI = '''',
      fl_HostHeader = url_Host (rs_URL t), fl_PrioSelector = ps, fl_Referer = rs_Referer t, fl_URLPath = url_Path (rs_URL t),
      fl_URLRawQuery = url_RawQuery (rs_URL t)\<rparr>"

definition startCleartextFlows :: "DNSResolvers \<Rightarrow> nat option \<Rightarrow> DNSEntry list \<Rightarrow> flow list" where
  "startCleartextFlows t ps addresses =
     (if url_Scheme (rs_URL t) \<noteq> ''http'' then []
      else let port = (if url_Port (rs_URL t) \<noteq> '''' then url_Port (rs_URL t) else ''80'')
           in map (cleartext_flow t ps port) addresses)"

definition secure_flow :: "DNSResolvers \<Rightarrow> nat option \<Rightarrow> string \<Rightarrow> DNSEntry \<Rightarrow> flow" where
  "secure_flow t ps port addr =
     \<lparr>fl_secure = True, fl_Address = join_host_port (de_Addr addr) port, fl_Classic = has_flag (de_Flags addr) DNSAddrFlagSystemResolver,
      fl_Depth = rs_Depth t, fl_ALPN = [''h2'', ''http/1.1''], fl_FollowRedirects = (url_Scheme (rs_URL t) = ''https''),
      fl_SNI = url_Hostname (rs_URL t), fl_HostHeader = url_Host (rs_URL t), fl_PrioSelector = ps, fl_Referer = rs_Referer t,
      fl_URLPath = url_Path (rs_URL t), fl_URLRawQuery = url_RawQuery (rs_URL t)\<rparr>"

definition startSecureFlows :: "DNSResolvers \<Rightarrow> nat option \<Rightarrow> DNSEntry list \<Rightarrow> flow list" where
  "startSecureFlows t ps addresses =
     (let ps = (if url_Scheme (rs_URL t) \<noteq> ''https'' then None else ps)
      in if url_Port (rs_URL t) \<noteq> '''' \<and> url_Scheme (rs_URL t) \<noteq> ''https'' then []
         else let port = (if url_Port (rs_URL t) \<noteq> '''' then url_Port (rs_URL t) else ''443'')
              in map (secure_flow t ps port) addresses)"

definition flow_alpn :: "flow \<Rightarrow> string list" where
  "flow_alpn t = (if length (fl_ALPN t) > 0 then fl_ALPN t else [''h2'', ''http/1.1''])"

definition flow_sni :: "flow \<Rightarrow> go_error + string" where
  "flow_sni t =
     (if fl_SNI t \<noteq> '''' then Inr (fl_SNI t)
      else case SplitHostPort (fl_Address t) of Inl err \<Rightarrow> Inl (addr_error err (fl_Address t)) | Inr (addr, _) \<Rightarrow> Inr addr)"

definition urlHost :: "flow \<Rightarrow> string \<Rightarrow> go_error + string" where
  "urlHost t scheme =
     (case SplitHostPort (fl_Address t) of
        Inl err \<Rightarrow> Inl (addr_error err (fl_Address t))
      | Inr (addr, port) \<Rightarrow>
          let host = (if fl_HostHeader t = '''' then addr else fl_HostHeader t)
          in if port = (if fl_secure t then ''443'' else ''80'') \<and> scheme = (if fl_secure t then ''https'' else ''http'') then Inr host
             else Inr (join_host_port host port))"

text \<open>
  \<open>mkURL\<close> is what \<open>url.URL\<close> and \<open>http.NewRequest\<close> make of the scheme, the host, the path and the query: the URL of the request or the
  error. The cookies that the jar has for it become one header.
\<close>

definition newHTTPRequest ::
    "(string \<Rightarrow> string \<Rightarrow> string \<Rightarrow> string \<Rightarrow> go_error + URL) \<Rightarrow> (URL \<Rightarrow> string list) \<Rightarrow> flow \<Rightarrow> go_error + http_request" where
  "newHTTPRequest mkURL cookies t =
     (let urlScheme = (if fl_secure t then ''https'' else ''http'')
      in case urlHost t urlScheme of
           Inl err \<Rightarrow> Inl err
         | Inr host \<Rightarrow>
             (case mkURL urlScheme host (fl_URLPath t) (fl_URLRawQuery t) of
                Inl err \<Rightarrow> Inl err
              | Inr httpURL \<Rightarrow>
                  let header = [(''Host'', [fl_HostHeader t]), (''Accept'', [HTTPHeaderAccept]), (''Accept-Language'', [HTTPHeaderAcceptLanguage]),
                                (''Referer'', [fl_Referer t]), (''User-Agent'', [HTTPHeaderUserAgent])];
                      header = (if cookies httpURL = [] then header
                                else AList.update ''Cookie'' [join_bytes ''; '' (cookies httpURL)] header)
                  in Inr \<lparr>hreq_Method = ''GET'', hreq_URL = Some httpURL, hreq_Host = fl_HostHeader t, hreq_Header = header\<rparr>))"

section \<open>The control\<close>

definition control_request :: "URL \<Rightarrow> string list \<Rightarrow> THRequest" where
  "control_request u addresses =
     \<lparr>thr_HTTPRequest = url_String u,
      thr_HTTPRequestHeaders = [(''Accept'', [HTTPHeaderAccept]), (''Accept-Language'', [HTTPHeaderAcceptLanguage]),
        (''User-Agent'', [HTTPHeaderUserAgent])],
      thr_TCPConnect = concat (map (\<lambda>address.
        if url_Port u \<noteq> '''' then [join_host_port address (url_Port u)]
        else [join_host_port address ''443'', join_host_port address ''80'']) addresses),
      thr_XQUICEnabled = False\<rparr>"

definition inProbe :: int where "inProbe = 1"
definition inTH :: int where "inTH = 2"

definition mark_addr :: "int \<Rightarrow> string \<Rightarrow> (string, int) gomap \<Rightarrow> (string, int) gomap" where
  "mark_addr flag addr mapping = AList.update addr (or (case gmap_get mapping addr of Some v \<Rightarrow> v | None \<Rightarrow> 0) flag) mapping"

definition addr_mapping :: "string list \<Rightarrow> string list \<Rightarrow> (string, int) gomap" where
  "addr_mapping addresses thAddrs = fold (mark_addr inTH) thAddrs (fold (mark_addr inProbe) addresses [])"

text \<open>The addresses of the test helper only, for the range order of \<open>mapping\<close>.\<close>

definition th_only :: "(string, int) gomap \<Rightarrow> DNSEntry list" where
  "th_only mapping =
     map (\<lambda>(addr, flags). \<lparr>de_Addr = addr, de_Flags = 0\<rparr>) (filter (\<lambda>(addr, flags). \<not> has_flag flags inProbe) mapping)"

section \<open>Lemmas\<close>

lemma merge_addr_get:
  "gmap_get (fold (merge_addr flag) addrs m) a =
     (if a \<in> set addrs then Some \<lparr>de_Addr = a, de_Flags = or (case gmap_get m a of Some e \<Rightarrow> de_Flags e | None \<Rightarrow> 0) flag\<rparr> else gmap_get m a)"
proof (induction addrs arbitrary: m)
  case (Cons b addrs)
  then show ?case by (auto simp: merge_addr_def Let_def or.assoc split: option.split)
qed simp

lemma merge_addr_wf: "gmap_wf m \<Longrightarrow> gmap_wf (fold (merge_addr flag) addrs m)"
  by (induction addrs arbitrary: m) (simp_all add: merge_addr_def Let_def)

text \<open>The merged addresses are exactly those that a resolver returned, each once, and the flags tell which resolvers did.\<close>

definition resolver_flags :: "bool \<Rightarrow> bool \<Rightarrow> bool \<Rightarrow> int" where
  "resolver_flags system udp https = (if system then 1 else 0) + (if udp then 2 else 0) + (if https then 4 else 0)"

lemma merge_addrs_get:
  "gmap_get (merge_addrs sys udp https) a =
     (if a \<in> set sys \<union> set udp \<union> set https
      then Some \<lparr>de_Addr = a, de_Flags = resolver_flags (a \<in> set sys) (a \<in> set udp) (a \<in> set https)\<rparr> else None)"
  by (auto simp: merge_addrs_def merge_addr_get resolver_flags_def DNSAddrFlagSystemResolver_def DNSAddrFlagUDP_def DNSAddrFlagHTTPS_def)

lemma merge_addrs_wf: "gmap_wf (merge_addrs sys udp https)"
  unfolding merge_addrs_def by (intro merge_addr_wf) simp

text \<open>The priority of an address, for entries with distinct addresses.\<close>

lemma ps_fold:
  "fold ps_add addrs ps = \<lparr>ps_m = fold (\<lambda>e m. AList.update (de_Addr e) (de_Flags e) m) addrs (ps_m ps),
     ps_nhttps = ps_nhttps ps + int (length (filter (\<lambda>e. has_flag (de_Flags e) DNSAddrFlagHTTPS) addrs)),
     ps_nsystem = ps_nsystem ps + int (length (filter (\<lambda>e. has_flag (de_Flags e) DNSAddrFlagSystemResolver) addrs)),
     ps_nudp = ps_nudp ps + int (length (filter (\<lambda>e. has_flag (de_Flags e) DNSAddrFlagUDP) addrs))\<rparr>"
  by (induction addrs arbitrary: ps) (auto simp: ps_add_def Let_def)

lemma fold_entries_get:
  "distinct (map de_Addr addrs) \<Longrightarrow> e \<in> set addrs \<Longrightarrow>
     gmap_get (fold (\<lambda>e m. AList.update (de_Addr e) (de_Flags e) m) addrs m) (de_Addr e) = Some (de_Flags e)"
proof (induction addrs arbitrary: m)
  case (Cons x addrs)
  have skip: "a \<notin> de_Addr ` set addrs \<Longrightarrow> gmap_get (fold (\<lambda>e m. AList.update (de_Addr e) (de_Flags e) m) addrs m) a = gmap_get m a" for a m
    by (induction addrs arbitrary: m) auto
  show ?case using Cons skip [of "de_Addr x"] by auto
qed simp

definition from_resolver :: "int \<Rightarrow> DNSEntry list \<Rightarrow> bool" where
  "from_resolver flag addrs \<longleftrightarrow> (\<exists>e \<in> set addrs. has_flag (de_Flags e) flag)"

lemma highest_priority:
  assumes "distinct (map de_Addr addrs)" and "e \<in> set addrs" and "pr_addr r = de_Addr e"
  shows "isHighestPriority (newPrioritySelector addrs) r \<longleftrightarrow>
    (if from_resolver DNSAddrFlagSystemResolver addrs then has_flag (de_Flags e) DNSAddrFlagSystemResolver
     else if from_resolver DNSAddrFlagUDP addrs then has_flag (de_Flags e) DNSAddrFlagUDP
     else if from_resolver DNSAddrFlagHTTPS addrs then has_flag (de_Flags e) DNSAddrFlagHTTPS
     else True)"
  using assms fold_entries_get [OF assms(1,2), of "[]"]
  by (simp add: isHighestPriority_def newPrioritySelector_def ps_fold filter_empty_conv from_resolver_def Let_def)

text \<open>The addresses of the test helper only.\<close>

lemma mark_addr_get:
  "gmap_get (fold (mark_addr flag) addrs m) a =
     (if a \<in> set addrs then Some (or (case gmap_get m a of Some v \<Rightarrow> v | None \<Rightarrow> 0) flag) else gmap_get m a)"
proof (induction addrs arbitrary: m)
  case (Cons b addrs)
  then show ?case by (auto simp: mark_addr_def or.assoc split: option.split)
qed simp

lemma mark_addr_wf: "gmap_wf m \<Longrightarrow> gmap_wf (fold (mark_addr flag) addrs m)"
  by (induction addrs arbitrary: m) (simp_all add: mark_addr_def)

lemma th_only_addresses:
  "de_Addr ` set (th_only (addr_mapping addresses thAddrs)) = set thAddrs - set addresses"
proof -
  have wf: "gmap_wf (addr_mapping addresses thAddrs)" unfolding addr_mapping_def by (intro mark_addr_wf) simp
  have get: "gmap_get (addr_mapping addresses thAddrs) a =
      (if a \<in> set thAddrs then Some (if a \<in> set addresses then 3 else 2) else if a \<in> set addresses then Some 1 else None)" for a
    by (auto simp: addr_mapping_def mark_addr_get inProbe_def inTH_def)
  have mem: "(a, flags) \<in> set (addr_mapping addresses thAddrs) \<longleftrightarrow> gmap_get (addr_mapping addresses thAddrs) a = Some flags" for a flags
    using gmap_get_wf_iff [OF wf] by simp
  have "a \<in> de_Addr ` set (th_only (addr_mapping addresses thAddrs)) \<longleftrightarrow> (\<exists>flags. (a, flags) \<in> set (addr_mapping addresses thAddrs) \<and> \<not> has_flag flags inProbe)" for a
    by (force simp: th_only_def)
  then show ?thesis unfolding mem get has_flag_def inProbe_def by (intro set_eqI) (auto split: if_splits)
qed

text \<open>A URL of the provider is one of those it was made with; no other is given before the interval has passed.\<close>

lemma opportunistic_url:
  assumes "MaybeNextURL now rnd draw op = (Some u, op')"
  shows "u \<in> set (op_urls op) \<and> mset (op_urls op') = mset (op_urls op) \<and> op_t op' = now \<and> 20 * time_Second \<le> op_interval op'"
proof -
  have m: "mset (rand_Shuffle rnd (length (op_urls op) - 1) (op_urls op)) = mset (op_urls op)" if "op_urls op \<noteq> []"
    using that by (intro mset_rand_Shuffle) simp
  have n: "rand_Shuffle rnd (length (op_urls op) - 1) (op_urls op) ! 0 \<in> set (op_urls op)" if "op_urls op \<noteq> []"
    using that m mset_eq_setD [OF m] mset_eq_length [OF m] by (metis length_greater_0_conv nth_mem)
  from assms have ne: "op_urls op \<noteq> []" by (auto simp: MaybeNextURL_def split: if_splits)
  show ?thesis
    using assms m [OF ne] n [OF ne] by (auto simp: MaybeNextURL_def Let_def time_Second_def split: if_splits)
qed

lemma opportunistic_pause:
  assumes "MaybeNextURL now rnd draw op = (Some u, op')" and "now \<noteq> time_zero" and "time_Sub later now \<le> 20 * time_Second"
  shows "MaybeNextURL later rnd' draw' op' = (None, op')"
  using opportunistic_url [OF assms(1)] assms(2,3) by (auto simp: MaybeNextURL_def)

lemma whoami_cached:
  assumes "whoami_lookup now name (Inr (a # addrs)) entries = ([e], entries')" and "lockAndGet now name entries = None"
    and "time_Sub later now \<le> 45 * time_Second"
  shows "whoami_lookup later name answer entries' = ([e], entries')"
  using assms by (auto simp: whoami_lookup_def lockAndUpdate_def lockAndGet_def)

text \<open>An accepted input has an accepted scheme.\<close>

lemma input_accepted:
  assumes "inputparser_Parse url_Parse toASCII config input = Some (Inr u)"
  shows "isSchemeOK config u"
  using assms by (auto simp: inputparser_Parse_def maybeConvertHostnameToASCII_def Let_def isSchemeOK_def split: if_splits sum.splits)

lemma url_split_port:
  assumes "list_all is_digit port"
  shows "url_splitHostPort (h @ CHR '':'' # port) =
    (if has_prefix h ''['' \<and> has_suffix h '']'' then take (length h - 2) (drop 1 h) else h, port)"
proof -
  have "CHR '':'' \<notin> set port" using assms by (auto simp: list_all_iff is_digit_def)
  from last_colon [OF this] have p: "takeWhile (\<lambda>c. c \<noteq> CHR '':'') (rev (h @ CHR '':'' # port)) = rev port"
    by (metis rev_swap)
  show ?thesis
    unfolding url_splitHostPort_def p using assms by (simp add: Let_def validOptionalPort_def)
qed

lemma url_split_bracketed:
  assumes "list_all is_digit port"
  shows "url_splitHostPort (''['' @ host @ '']:'' @ port) = (host, port)"
  using url_split_port [OF assms, of "''['' @ host @ '']''"] by (simp add: has_prefix_def has_suffix_def)

lemma split_join_port:
  assumes "SplitHostPort (join_host_port a port) = Inr (h, p)" and "CHR '':'' \<notin> set port"
  shows "p = port"
proof -
  obtain front where "join_host_port a port = front @ CHR '':'' # port"
    by (cases "CHR '':'' \<in> set a") (auto simp: join_host_port_def)
  with assms(1) last_colon [OF assms(2), of front] show ?thesis
    by (auto simp: SplitHostPort_def Let_def split: if_splits)
qed

text \<open>The host of the request's URL when the URL of the measurement has a port of its own: the port is in it twice.\<close>

lemma url_host_of_flow:
  assumes "SplitHostPort (fl_Address f) = Inr (h, port)" and "port \<noteq> (if fl_secure f then ''443'' else ''80'')"
    and "CHR '':'' \<in> set (fl_HostHeader f)"
  shows "urlHost f s = Inr (''['' @ fl_HostHeader f @ '']:'' @ port)"
  using assms by (auto simp: urlHost_def join_host_port_def)

lemma url_port_custom:
  assumes "snd (url_splitHostPort hostPort) \<noteq> ''''"
  shows "CHR '':'' \<in> set hostPort \<and> CHR '':'' \<notin> set (snd (url_splitHostPort hostPort))"
  using assms by (auto simp: url_splitHostPort_def Let_def dest: set_takeWhileD split: if_splits)

end
