(* ===== verification/LteEngine.thy ===== *)
theory LteEngine
  imports LteParts LteVerdict
begin

text \<open>
  The measurement of Web Connectivity, \<open>internal/experiment/webconnectivitylte\<close>, as a transition system over its goroutines: the
  resolvers (\<open>dnsresolvers.go\<close>), the flows to the endpoints (\<open>cleartextflow.go\<close>, \<open>secureflow.go\<close>), the priority selectors (\<open>priority.go\<close>),
  the control (\<open>control.go\<close>) and the measurer that starts them and waits (\<open>measurer.go\<close>). A state has the shared data and the list of the
  goroutines; an action is one step of one goroutine, with what the network, the clock and the random draws give to it, so that every
  interleaving and every behaviour of the network is a sequence of actions. Consecutive writes of one goroutine to the test keys, each of
  which takes the mutex, are one step. The receipt of the results of a lookup by the resolvers is not a step of its own.
\<close>

section \<open>Goroutines\<close>

text \<open>A lookup has not started, runs with a transaction identifier, or has given its addresses.\<close>

datatype lookup_stage = LIdle | LRun int | LDone "string list"

record resolving =
  rv_udpAddress :: string
  rv_system :: lookup_stage
  rv_udp :: lookup_stage
  rv_https :: lookup_stage
  rv_whoamiSystemV4 :: "DNSWhoamiInfoEntry list option"
  rv_whoamiUDPv4 :: "DNSWhoamiInfoEntry list option"

record Control_task =
  co_Addresses :: "string list"
  co_starter :: DNSResolvers
  co_PrioSelector :: nat

text \<open>
  The stages of a flow: before the check of the address, connecting, in the TLS handshake, asking for the permission, waiting for the
  answer (which may have arrived), permitted, and in the round trip. A connected flow has its trace, the samples of its sampler and the
  negotiated protocol.
\<close>

datatype flow_stage =
    FStart
  | FConnect
  | FHandshake Trace "ArchivalNetworkEvent list"
  | FAsk Trace "ArchivalNetworkEvent list" string
  | FWait Trace "ArchivalNetworkEvent list" string "bool option"
  | FFetch Trace "ArchivalNetworkEvent list" string
  | FRound Trace "ArchivalNetworkEvent list" string http_request int

datatype start = StartFlow flow | StartControl Control_task

text \<open>
  \<open>TLateJoin\<close> is the goroutine of the UDP lookup after it gave its addresses and before it joins the wait group; \<open>TLate\<close> waits for late
  replies. A finished goroutine stays in the list as \<open>TDone\<close>, so that the position in the list names the goroutine.
\<close>

datatype task =
    TResolvers DNSResolvers
  | TLookup DNSResolvers resolving
  | TStart "start list"
  | TFlow flow int flow_stage
  | TControl Control_task bool
  | TLateJoin DNSResolvers int
  | TLate DNSResolvers int
  | TDone

datatype selector_stage = SelAwait | SelCollect "priorityRequest list" | SelDone

record lte_state =
  l_tk :: TestKeys
  l_cache :: "(string, DNSEntry list) gomap"
  l_ids :: IDGenerator
  l_redirects :: int
  l_doh :: OpportunisticDNSOverHTTPSURLProvider
  l_whoami :: "(string, dnsWhoamiInfoTimedEntry) gomap"
  l_jar :: "(URL \<times> string list) list"
  l_selectors :: "(prioritySelector \<times> selector_stage) list"
  l_tasks :: "task list"
  l_cancelled :: bool
  l_panic :: bool

text \<open>
  What is fixed for a measurement: the zero time, the configured UDP resolver, and the functions of other packages (the certificate in an
  X.509 error, the tables of the lookups, the construction of a request's URL, the cookies of the jar after its history of \<open>SetCookies\<close>).
\<close>

record lte_env =
  e_zeroTime :: int
  e_UDPAddress :: string
  e_raw :: "go_error \<Rightarrow> string"
  e_lookup :: lookup_env
  e_mkURL :: "string \<Rightarrow> string \<Rightarrow> string \<Rightarrow> string \<Rightarrow> go_error + URL"
  e_cookies :: "(URL \<times> string list) list \<Rightarrow> URL \<Rightarrow> string list"

section \<open>Updates\<close>

definition set_task :: "nat \<Rightarrow> task \<Rightarrow> lte_state \<Rightarrow> lte_state" where
  "set_task i t s = s\<lparr>l_tasks := (l_tasks s)[i := t]\<rparr>"

definition spawn :: "task \<Rightarrow> lte_state \<Rightarrow> lte_state" where
  "spawn t s = s\<lparr>l_tasks := l_tasks s @ [t]\<rparr>"

definition upd_tk :: "(TestKeys \<Rightarrow> TestKeys) \<Rightarrow> lte_state \<Rightarrow> lte_state" where
  "upd_tk f s = s\<lparr>l_tk := f (l_tk s)\<rparr>"

definition panic :: "lte_state \<Rightarrow> lte_state" where
  "panic s = s\<lparr>l_panic := True\<rparr>"

definition mk_start :: "start list \<Rightarrow> task" where
  "mk_start xs = (if xs = [] then TDone else TStart xs)"

definition ps_log :: "lte_env \<Rightarrow> int \<Rightarrow> string \<Rightarrow> TestKeys \<Rightarrow> TestKeys" where
  "ps_log env now msg = AppendConnPriorityLogEntry \<lparr>cpl_Msg = msg, cpl_T = Duration_Seconds (time_Sub now (e_zeroTime env))\<rparr>"

definition format_entries :: "DNSEntry list \<Rightarrow> string" where
  "format_entries addrs =
     ''['' @ join_bytes '' '' (map (\<lambda>e. ''{Addr:'' @ de_Addr e @ '' Flags:'' @ itoa (de_Flags e) @ ''}'') addrs) @ '']''"

definition format_bool :: "bool \<Rightarrow> string" where
  "format_bool v = (if v then ''true'' else ''false'')"

section \<open>Resolvers\<close>

text \<open>The end of \<open>Run\<close>: a new selector, and the flows and the control that the goroutine starts one after the other.\<close>

definition control_of :: "DNSResolvers \<Rightarrow> nat \<Rightarrow> DNSEntry list \<Rightarrow> Control_task list" where
  "control_of t ps addresses =
     (if length (rs_TestHelpers t) > 0 then [\<lparr>co_Addresses = map de_Addr addresses, co_starter = t, co_PrioSelector = ps\<rparr>] else [])"

definition fan_out :: "lte_env \<Rightarrow> nat \<Rightarrow> int \<Rightarrow> DNSResolvers \<Rightarrow> DNSEntry list \<Rightarrow> lte_state \<Rightarrow> lte_state" where
  "fan_out env i now t addresses s =
     (let ps = length (l_selectors s);
          s = upd_tk (ps_log env now (''create with '' @ format_entries addresses)) s;
          s = s\<lparr>l_selectors := l_selectors s @ [(newPrioritySelector addresses, SelAwait)]\<rparr>
      in set_task i (mk_start (map StartFlow (startCleartextFlows t (Some ps) addresses) @ map StartFlow (startSecureFlows t (Some ps) addresses) @
           map StartControl (control_of t ps addresses))) s)"

definition act_resolve :: "lte_env \<Rightarrow> nat \<Rightarrow> int \<Rightarrow> nat \<Rightarrow> DNSResolvers \<Rightarrow> lte_state \<Rightarrow> lte_state" where
  "act_resolve env i now draw t s =
     (case DNSCache_Get (rs_Domain t) (l_cache s) of
        Some addresses \<Rightarrow> fan_out env i now t addresses s
      | None \<Rightarrow> set_task i (TLookup t \<lparr>rv_udpAddress = udpAddress (e_UDPAddress env) draw, rv_system = LIdle, rv_udp = LIdle, rv_https = LIdle,
                  rv_whoamiSystemV4 = None, rv_whoamiUDPv4 = None\<rparr>) s)"

definition act_system_start :: "nat \<Rightarrow> DNSResolvers \<Rightarrow> resolving \<Rightarrow> lte_state \<Rightarrow> lte_state" where
  "act_system_start i t v s =
     (let (index, ids) = NewIDForGetaddrinfo (l_ids s)
      in set_task i (TLookup t (v\<lparr>rv_system := LRun index\<rparr>)) (s\<lparr>l_ids := ids\<rparr>))"

definition depth_tag :: "DNSResolvers \<Rightarrow> string" where
  "depth_tag t = ''depth='' @ itoa (rs_Depth t)"

text \<open>The trace of a lookup after the callbacks \<open>calls\<close>, and the addresses that it returned.\<close>

definition act_system_done ::
    "lte_env \<Rightarrow> nat \<Rightarrow> DNSResolvers \<Rightarrow> resolving \<Rightarrow> int \<Rightarrow> trace_call list \<Rightarrow> string list \<Rightarrow> lte_state \<Rightarrow> lte_state" where
  "act_system_done env i t v index calls addrs s =
     (let trace = trace_run (e_raw env) (e_lookup env) index (e_zeroTime env) [''classic'', depth_tag t] calls
      in set_task i (TLookup t (v\<lparr>rv_system := LDone addrs\<rparr>)) (upd_tk (AppendQueries (fst (DNSLookupsFromRoundTrip trace))) s))"

definition act_udp_start :: "nat \<Rightarrow> DNSResolvers \<Rightarrow> resolving \<Rightarrow> lte_state \<Rightarrow> lte_state" where
  "act_udp_start i t v s =
     (let (index, ids) = NewIDForDNSOverUDP (l_ids s)
      in set_task i (TLookup t (v\<lparr>rv_udp := LRun index\<rparr>)) (s\<lparr>l_ids := ids\<rparr>))"

definition act_udp_done ::
    "lte_env \<Rightarrow> nat \<Rightarrow> DNSResolvers \<Rightarrow> resolving \<Rightarrow> int \<Rightarrow> trace_call list \<Rightarrow> string list \<Rightarrow> lte_state \<Rightarrow> lte_state" where
  "act_udp_done env i t v index calls addrs s =
     (let trace = trace_run (e_raw env) (e_lookup env) index (e_zeroTime env) [depth_tag t] calls;
          (do53, other) = do53SplitQueries (fst (DNSLookupsFromRoundTrip trace));
          s = upd_tk (AppendQueries do53) s;
          s = upd_tk (WithTestKeysDo53 (\<lambda>tkd. tkd\<lparr>do53_Queries := do53_Queries tkd @ other,
                do53_NetworkEvents := do53_NetworkEvents tkd @ fst (NetworkEvents trace)\<rparr>)) s
      in spawn (TLateJoin t index) (set_task i (TLookup t (v\<lparr>rv_udp := LDone addrs\<rparr>)) s))"

text \<open>A late reply has the arguments of the callback of the trace.\<close>

type_synonym late_reply = "int \<times> (string \<times> string) \<times> dnsQuery \<times> dns_response option \<times> string list \<times> go_error option \<times> int"

definition late_event :: "lte_env \<Rightarrow> DNSResolvers \<Rightarrow> int \<Rightarrow> late_reply \<Rightarrow> ArchivalDNSLookupResult" where
  "late_event env t index reply =
     (case reply of (started, txp, query, response, addrs, err, finished) \<Rightarrow>
        NewArchivalDNSLookupResultFromRoundTrip (e_lookup env) index (time_Sub started (e_zeroTime env)) txp query response addrs err
          (time_Sub finished (e_zeroTime env)) [depth_tag t])"

definition act_late_done :: "lte_env \<Rightarrow> nat \<Rightarrow> DNSResolvers \<Rightarrow> int \<Rightarrow> late_reply list \<Rightarrow> lte_state \<Rightarrow> lte_state" where
  "act_late_done env i t index replies s = set_task i TDone (upd_tk (AppendDNSLateReplies (map (late_event env t index) replies)) s)"

definition act_https_start :: "nat \<Rightarrow> int \<Rightarrow> (nat \<Rightarrow> nat) \<Rightarrow> nat \<Rightarrow> DNSResolvers \<Rightarrow> resolving \<Rightarrow> lte_state \<Rightarrow> lte_state" where
  "act_https_start i now rnd draw t v s =
     (let (url, doh) = MaybeNextURL now rnd draw (l_doh s);
          s = s\<lparr>l_doh := doh\<rparr>
      in case url of
           None \<Rightarrow> set_task i (TLookup t (v\<lparr>rv_https := LDone []\<rparr>)) s
         | Some _ \<Rightarrow>
             let (index, ids) = NewIDForDNSOverHTTPS (l_ids s)
             in set_task i (TLookup t (v\<lparr>rv_https := LRun index\<rparr>)) (s\<lparr>l_ids := ids\<rparr>))"

definition act_https_done ::
    "lte_env \<Rightarrow> nat \<Rightarrow> DNSResolvers \<Rightarrow> resolving \<Rightarrow> int \<Rightarrow> trace_call list \<Rightarrow> string list \<Rightarrow> lte_state \<Rightarrow> lte_state" where
  "act_https_done env i t v index calls addrs s =
     (let trace = trace_run (e_raw env) (e_lookup env) index (e_zeroTime env) [depth_tag t] calls;
          (doh, other) = dohSplitQueries (fst (DNSLookupsFromRoundTrip trace));
          s = upd_tk (AppendQueries doh) s;
          s = upd_tk (WithTestKeysDoH (\<lambda>tkdh. tkdh\<lparr>doh_Queries := doh_Queries tkdh @ other,
                doh_NetworkEvents := doh_NetworkEvents tkdh @ fst (NetworkEvents trace),
                doh_TCPConnect := doh_TCPConnect tkdh @ fst (TCPConnects trace),
                doh_TLSHandshakes := doh_TLSHandshakes tkdh @ fst (TLSHandshakes trace)\<rparr>)) s
      in set_task i (TLookup t (v\<lparr>rv_https := LDone addrs\<rparr>)) s)"

definition act_whoami_system :: "nat \<Rightarrow> int \<Rightarrow> go_error + string list \<Rightarrow> DNSResolvers \<Rightarrow> resolving \<Rightarrow> lte_state \<Rightarrow> lte_state" where
  "act_whoami_system i now answer t v s =
     (let (value, entries) = whoami_lookup now ''system:///'' answer (l_whoami s)
      in set_task i (TLookup t (v\<lparr>rv_whoamiSystemV4 := Some value\<rparr>)) (s\<lparr>l_whoami := entries\<rparr>))"

definition act_whoami_udp :: "nat \<Rightarrow> int \<Rightarrow> go_error + string list \<Rightarrow> DNSResolvers \<Rightarrow> resolving \<Rightarrow> lte_state \<Rightarrow> lte_state" where
  "act_whoami_udp i now answer t v s =
     (let (value, entries) = whoami_lookup now (rv_udpAddress v) answer (l_whoami s)
      in set_task i (TLookup t (v\<lparr>rv_whoamiUDPv4 := Some value\<rparr>)) (s\<lparr>l_whoami := entries\<rparr>))"

text \<open>The merged map in its range order is \<open>ord\<close>, a permutation.\<close>

definition act_join :: "lte_env \<Rightarrow> nat \<Rightarrow> int \<Rightarrow> DNSEntry list \<Rightarrow> DNSResolvers \<Rightarrow> resolving \<Rightarrow> lte_state \<Rightarrow> lte_state option" where
  "act_join env i now ord t v s =
     (case (rv_system v, rv_udp v, rv_https v, rv_whoamiSystemV4 v, rv_whoamiUDPv4 v) of
        (LDone systemAddrs, LDone udpAddrs, LDone httpsAddrs, Some whoamiSystemV4, Some whoamiUDPv4) \<Rightarrow>
          if mset ord = mset (map snd (merge_addrs systemAddrs udpAddrs httpsAddrs))
          then let s = upd_tk (WithDNSWhoami (\<lambda>di. di\<lparr>SystemV4 := whoamiSystemV4,
                         UDPv4 := AList.update (rv_udpAddress v) whoamiUDPv4 (UDPv4 di)\<rparr>)) s;
                   s = s\<lparr>l_cache := DNSCache_Set (rs_Domain t) ord (l_cache s)\<rparr>
               in Some (fan_out env i now t ord s)
          else None
      | _ \<Rightarrow> None)"

text \<open>Starting a flow gives it its transaction identifier.\<close>

definition act_start :: "nat \<Rightarrow> start \<Rightarrow> start list \<Rightarrow> lte_state \<Rightarrow> lte_state" where
  "act_start i x xs s =
     (let s = set_task i (mk_start xs) s
      in case x of
           StartFlow f \<Rightarrow>
             let (index, ids) = (if fl_secure f then NewIDForEndpointSecure (l_ids s) else NewIDForEndpointCleartext (l_ids s))
             in spawn (TFlow f index FStart) (s\<lparr>l_ids := ids\<rparr>)
         | StartControl c \<Rightarrow> spawn (TControl c False) s)"

section \<open>Flows\<close>

text \<open>What happens on a connection in the background of a step: traced reads and writes, and snapshots of the sampler.\<close>

datatype io = IoCall trace_call | IoSample int

fun io_ok :: "io \<Rightarrow> bool" where
  "io_ok (IoCall (CallRead peer t0 res t)) = True"
| "io_ok (IoCall (CallWrite peer t0 res t)) = True"
| "io_ok (IoSample t) = True"
| "io_ok _ = False"

fun io_apply :: "lte_env \<Rightarrow> io \<Rightarrow> Trace \<times> ArchivalNetworkEvent list \<Rightarrow> Trace \<times> ArchivalNetworkEvent list" where
  "io_apply env (IoCall c) (tx, q) = (trace_call_apply (e_raw env) (e_lookup env) c tx, q)"
| "io_apply env (IoSample t) (tx, q) = (tx, collectSnapshot tx t q)"

text \<open>The deferred calls, last first: the events of the trace, then the samples.\<close>

definition flow_exit :: "nat \<Rightarrow> int \<Rightarrow> Trace \<times> ArchivalNetworkEvent list \<Rightarrow> lte_state \<Rightarrow> lte_state" where
  "flow_exit i now txq s =
     (let (events, tx) = NetworkEvents (fst txq)
      in set_task i TDone (upd_tk (AppendNetworkEvents (ExtractSamples tx now (snd txq))) (upd_tk (AppendNetworkEvents events) s)))"

definition flow_tags :: "flow \<Rightarrow> string list" where
  "flow_tags f = generateTagsForEndpoints (fl_Depth f) (fl_PrioSelector f \<noteq> None) (fl_Classic f)"

definition act_allowed :: "nat \<Rightarrow> flow \<Rightarrow> int \<Rightarrow> lte_state \<Rightarrow> lte_state" where
  "act_allowed i f index s =
     (case allowedToConnect (fl_Address f) of
        Some _ \<Rightarrow> set_task i TDone s
      | None \<Rightarrow> set_task i (TFlow f index FConnect) s)"

definition act_connect ::
    "lte_env \<Rightarrow> nat \<Rightarrow> flow \<Rightarrow> int \<Rightarrow> int \<Rightarrow> go_error option \<Rightarrow> int \<Rightarrow> int \<Rightarrow> lte_state \<Rightarrow> lte_state" where
  "act_connect env i f index started err finished now s =
     (let trace = NewTrace index (e_zeroTime env) (flow_tags f);
          (connects, trace) = TCPConnects (OnConnectDone started ''tcp'' (fl_Address f) err finished trace);
          s = upd_tk (AppendTCPConnectResults connects) s
      in if err \<noteq> None then flow_exit i now (trace, []) s
         else if \<not> fl_secure f then set_task i (TFlow f index (FAsk trace [] '''')) s
         else case flow_sni f of
           Inl err \<Rightarrow> flow_exit i now (trace, []) (upd_tk (SetFundamentalFailure (Some (err_Error err))) s)
         | Inr _ \<Rightarrow> set_task i (TFlow f index (FHandshake trace [])) s)"

definition flow_tls_config :: "flow \<Rightarrow> tls_config" where
  "flow_tls_config f =
     \<lparr>tc_NextProtos = flow_alpn f, tc_ServerName = (case flow_sni f of Inr sni \<Rightarrow> sni | Inl _ \<Rightarrow> ''''), tc_MinVersion = 0, tc_MaxVersion = 0,
      tc_InsecureSkipVerify = False, tc_RootCAs = None\<rparr>"

definition act_handshake ::
    "lte_env \<Rightarrow> nat \<Rightarrow> flow \<Rightarrow> int \<Rightarrow> Trace \<times> ArchivalNetworkEvent list \<Rightarrow> string \<Rightarrow> int \<Rightarrow> io list \<Rightarrow> tls_state \<Rightarrow> go_error option \<Rightarrow> int \<Rightarrow>
     int \<Rightarrow> lte_state \<Rightarrow> lte_state" where
  "act_handshake env i f index txq remote started ios state err finished now s =
     (let (tx, q) = fold (io_apply env) ios (OnTLSHandshakeStart started remote (fst txq), snd txq);
          tx = OnTLSHandshakeDone (e_raw env) started remote (flow_tls_config f) state err finished tx;
          (handshakes, tx) = TLSHandshakes tx;
          s = upd_tk (AppendTLSHandshakes handshakes) s
      in if err \<noteq> None then flow_exit i now (tx, q) s
         else set_task i (TFlow f index (FAsk tx q (cs_NegotiatedProtocol state))) s)"

text \<open>
  \<open>permissionToFetch\<close>: a flow without a selector gives up at once; with one it gives up when sending takes too long, or sends its request. The
  selector that receives it answers if it has the highest priority and collects it otherwise.
\<close>

definition act_deny :: "lte_env \<Rightarrow> nat \<Rightarrow> flow \<Rightarrow> string \<Rightarrow> int \<Rightarrow> Trace \<times> ArchivalNetworkEvent list \<Rightarrow> lte_state \<Rightarrow> lte_state" where
  "act_deny env i f reason now txq s =
     flow_exit i now txq (if fl_PrioSelector f = None then s else upd_tk (ps_log env now (''conn '' @ fl_Address f @ reason)) s)"

definition set_selector :: "nat \<Rightarrow> selector_stage \<Rightarrow> lte_state \<Rightarrow> lte_state" where
  "set_selector j st s = s\<lparr>l_selectors := (l_selectors s)[j := (fst (l_selectors s ! j), st)]\<rparr>"

text \<open>The answer reaches the goroutine if it still waits; otherwise it stays in a channel that nobody reads.\<close>

definition reply :: "priorityRequest \<Rightarrow> bool \<Rightarrow> lte_state \<Rightarrow> lte_state" where
  "reply r v s =
     (case l_tasks s ! pr_task r of
        TFlow f index (FWait tx q alpn None) \<Rightarrow> set_task (pr_task r) (TFlow f index (FWait tx q alpn (Some v))) s
      | _ \<Rightarrow> s)"

definition act_send :: "nat \<Rightarrow> nat \<Rightarrow> flow \<Rightarrow> int \<Rightarrow> Trace \<times> ArchivalNetworkEvent list \<Rightarrow> string \<Rightarrow> lte_state \<Rightarrow> lte_state option" where
  "act_send i j f index txq alpn s =
     (case SplitHostPort (fl_Address f) of
        Inl _ \<Rightarrow> Some (panic s)
      | Inr (ipAddr, _) \<Rightarrow>
          if j < length (l_selectors s)
          then let r = \<lparr>pr_task = i, pr_addr = ipAddr\<rparr>;
                   (ps, st) = l_selectors s ! j;
                   s = set_task i (TFlow f index (FWait (fst txq) (snd txq) alpn None)) s
               in case st of
                    SelAwait \<Rightarrow> Some (if isHighestPriority ps r then reply r True (set_selector j SelDone s) else set_selector j (SelCollect [r]) s)
                  | SelCollect rs \<Rightarrow> Some (set_selector j (SelCollect (rs @ [r])) s)
                  | SelDone \<Rightarrow> None
          else None)"

text \<open>The time to collect requests is over.\<close>

definition act_expire :: "nat \<Rightarrow> lte_state \<Rightarrow> lte_state option" where
  "act_expire j s =
     (if j < length (l_selectors s)
      then case l_selectors s ! j of
        (ps, SelCollect rs) \<Rightarrow>
          (case findHighestPriority ps rs of
             None \<Rightarrow> Some (panic s)
           | Some high \<Rightarrow> Some (fold (\<lambda>r. reply r False) (filter (\<lambda>r. r \<noteq> high) rs) (reply high True (set_selector j SelDone s))))
      | _ \<Rightarrow> None
      else None)"

definition act_selector_cancelled :: "nat \<Rightarrow> lte_state \<Rightarrow> lte_state option" where
  "act_selector_cancelled j s =
     (if l_cancelled s \<and> j < length (l_selectors s) \<and> snd (l_selectors s ! j) \<noteq> SelDone then Some (set_selector j SelDone s) else None)"

definition act_permission ::
    "lte_env \<Rightarrow> nat \<Rightarrow> flow \<Rightarrow> int \<Rightarrow> int \<Rightarrow> Trace \<times> ArchivalNetworkEvent list \<Rightarrow> string \<Rightarrow> bool \<Rightarrow> lte_state \<Rightarrow> lte_state" where
  "act_permission env i f index now txq alpn v s =
     (let s = upd_tk (ps_log env now (''conn '' @ fl_Address f @ '': granted permission: '' @ format_bool v)) s
      in if v then set_task i (TFlow f index (FFetch (fst txq) (snd txq) alpn)) s else flow_exit i now txq s)"

text \<open>The request, and the event before the round trip.\<close>

definition transaction_event :: "Trace \<Rightarrow> string \<Rightarrow> string \<Rightarrow> int \<Rightarrow> ArchivalNetworkEvent" where
  "transaction_event tx operation address t =
     NewArchivalNetworkEvent (trace_index tx) t operation ''tcp'' address 0 None t (trace_tags tx)"

definition act_fetch ::
    "lte_env \<Rightarrow> nat \<Rightarrow> flow \<Rightarrow> int \<Rightarrow> int \<Rightarrow> int \<Rightarrow> Trace \<times> ArchivalNetworkEvent list \<Rightarrow> string \<Rightarrow> lte_state \<Rightarrow> lte_state" where
  "act_fetch env i f index now0 now txq alpn s =
     (case newHTTPRequest (e_mkURL env) (e_cookies env (l_jar s)) f of
        Inl err \<Rightarrow>
          flow_exit i now txq (if fl_Referer f = '''' then upd_tk (SetFundamentalFailure (Some (err_Error err))) s else s)
      | Inr req \<Rightarrow>
          let started = since_zero (fst txq) now0
          in set_task i (TFlow f index (FRound (fst txq) (snd txq) alpn req started))
               (upd_tk (AppendNetworkEvents [transaction_event (fst txq) ''http_transaction_start'' (fl_Address f) started]) s))"

text \<open>What the round trip gives: an error, or a response with its cookies, and what was read of its body.\<close>

datatype round_trip = RoundError go_error | RoundResponse http_response "string list" string "go_error option"

definition maxbody :: int where "maxbody = 2 ^ 19"

text \<open>What is read of a body through \<open>io.LimitReader\<close>.\<close>

definition limited :: "string \<Rightarrow> string" where
  "limited body = (if int (length body) \<le> maxbody then body else take (nat maxbody) body)"

definition redirect_check :: "flow \<Rightarrow> http_response \<Rightarrow> int \<Rightarrow> go_error option \<times> int" where
  "redirect_check f resp redirects =
     (if httpRedirectIsRedirect resp
      then case httpValidateRedirect resp of
        Some err \<Rightarrow> (Some err, redirects)
      | None \<Rightarrow>
          if fl_FollowRedirects f
          then let (ok, redirects) = CanFollowOneMoreRedirect redirects in (if ok then None else Some ErrTooManyRedirects, redirects)
          else (None, redirects)
      else (None, redirects))"

definition redirect_resolvers :: "flow \<Rightarrow> http_response \<Rightarrow> DNSResolvers list" where
  "redirect_resolvers f resp =
     (if fl_FollowRedirects f \<and> httpRedirectIsRedirect resp
      then case hresp_Location resp of
        Inl _ \<Rightarrow> []
      | Inr location \<Rightarrow>
          [\<lparr>rs_Domain = url_Hostname location, rs_Depth = fl_Depth f + 1, rs_URL = location,
            rs_Referer = httpRequestURL (hresp_Request resp), rs_TestHelpers = []\<rparr>]
      else [])"

text \<open>The parts of a round trip: the response, its cookies, the body and the error; then the error and the redirects that are left after the check.\<close>

definition round_parts :: "round_trip \<Rightarrow> http_response option \<times> string list \<times> string \<times> go_error option" where
  "round_parts rt =
     (case rt of RoundError err \<Rightarrow> (None, [], '''', Some err) | RoundResponse resp cookies body err \<Rightarrow> (Some resp, cookies, limited body, err))"

definition round_check :: "flow \<Rightarrow> http_response option \<Rightarrow> go_error option \<Rightarrow> int \<Rightarrow> go_error option \<times> int" where
  "round_check f resp err redirects =
     (case (resp, err) of (Some r, None) \<Rightarrow> redirect_check f r redirects | _ \<Rightarrow> (err, redirects))"

definition maybeFollowRedirects :: "flow \<Rightarrow> http_response option \<Rightarrow> go_error option \<Rightarrow> DNSResolvers list" where
  "maybeFollowRedirects f resp err = (case (resp, err) of (Some r, None) \<Rightarrow> redirect_resolvers f r | _ \<Rightarrow> [])"

definition set_cookies :: "http_request \<Rightarrow> string list \<Rightarrow> lte_state \<Rightarrow> lte_state" where
  "set_cookies req cookies s = s\<lparr>l_jar := (if cookies \<noteq> [] then l_jar s @ [(the (hreq_URL req), cookies)] else l_jar s)\<rparr>"

definition act_round ::
    "lte_env \<Rightarrow> nat \<Rightarrow> flow \<Rightarrow> Trace \<times> ArchivalNetworkEvent list \<Rightarrow> string \<Rightarrow> http_request \<Rightarrow> int \<Rightarrow> io list \<Rightarrow> round_trip \<Rightarrow> int \<Rightarrow> int \<Rightarrow>
     lte_state \<Rightarrow> lte_state" where
  "act_round env i f txq alpn req started ios rt finished now s =
     (let txq = fold (io_apply env) ios txq;
          tx = fst txq;
          (resp, cookies, body, err) = round_parts rt;
          (err, redirects) = round_check f resp err (l_redirects s);
          s = (set_cookies req cookies s)\<lparr>l_redirects := redirects\<rparr>;
          t = since_zero tx finished;
          s = upd_tk (AppendNetworkEvents [transaction_event tx ''http_transaction_done'' (fl_Address f) t]) s;
          s = upd_tk (PrependRequests [NewArchivalHTTPRequestResult (trace_index tx) started ''tcp'' (fl_Address f) alpn ''tcp'' (Some req) resp
                maxbody body err t (trace_tags tx)]) s
      in flow_exit i now txq (fold (\<lambda>t. spawn (TResolvers t)) (maybeFollowRedirects f resp err) s))"

section \<open>The control\<close>

definition act_control_request :: "nat \<Rightarrow> Control_task \<Rightarrow> lte_state \<Rightarrow> lte_state" where
  "act_control_request i c s =
     set_task i (TControl c True) (upd_tk (SetControlRequest (Some (control_request (rs_URL (co_starter c)) (co_Addresses c)))) s)"

text \<open>\<open>result\<close> is that of the overlapped calls; \<open>ord\<close> the range order of the map of addresses.\<close>

definition act_control ::
    "nat \<Rightarrow> Control_task \<Rightarrow> go_error + THResponse option \<times> nat \<Rightarrow> (string, int) gomap \<Rightarrow> lte_state \<Rightarrow> lte_state option" where
  "act_control i c result ord s =
     (let t = co_starter c
      in case CallWebConnectivityTestHelper (\<lambda>_. result) (rs_TestHelpers t) of
           None \<Rightarrow> Some (panic s)
         | Some (Inl err) \<Rightarrow>
             (case Option.bind (NewTopLevelGenericErrWrapper (Some err)) (\<lambda>err. SetControlFailure (Some err) (l_tk s)) of
                None \<Rightarrow> Some (panic s)
              | Some tk \<Rightarrow> Some (set_task i TDone (s\<lparr>l_tk := tk\<rparr>)))
         | Some (Inr (cresp, idx)) \<Rightarrow>
             if mset ord = mset (addr_mapping (co_Addresses c) (thdns_Addrs (th_DNS cresp)))
             then let s = upd_tk (setTestHelper (Some (rs_TestHelpers t ! idx))) (upd_tk (SetControl (Some cresp)) s)
                  in Some (set_task i (mk_start (map StartFlow (startCleartextFlows t (Some (co_PrioSelector c)) (th_only ord)) @
                       map StartFlow (startSecureFlows t (Some (co_PrioSelector c)) (th_only ord)))) s)
             else None)"

section \<open>Steps\<close>

text \<open>
  The actions: those of the goroutine of a number, those of a selector of a number, and the cancellation of the context. Their arguments are
  what the environment gives to the step. The sampler of a flow may take snapshots before any step of the flow.
\<close>

datatype lte_action =
    AResolve nat int nat
  | ASystemStart nat
  | ASystemDone nat "trace_call list" "string list"
  | AUDPStart nat
  | AUDPDone nat "trace_call list" "string list"
  | AHTTPSStart nat int "nat \<Rightarrow> nat" nat
  | AHTTPSDone nat "trace_call list" "string list"
  | AWhoamiSystem nat int "go_error + string list"
  | AWhoamiUDP nat int "go_error + string list"
  | AJoin nat int "DNSEntry list"
  | AStart nat
  | ALateJoin nat
  | ALateDone nat "late_reply list"
  | AAllowed nat
  | AConnect nat int "go_error option" int int
  | AHandshake nat string int "io list" tls_state "go_error option" int int
  | ADeny nat "int list" int
  | ASend nat "int list"
  | APermission nat "int list" int
  | AFetch nat "int list" int int
  | ARound nat "io list" round_trip int int
  | AControlRequest nat
  | AControl nat "go_error + THResponse option \<times> nat" "(string, int) gomap"
  | AExpire nat
  | ASelectorCancelled nat
  | ACancel

definition samples :: "lte_env \<Rightarrow> int list \<Rightarrow> Trace \<times> ArchivalNetworkEvent list \<Rightarrow> Trace \<times> ArchivalNetworkEvent list" where
  "samples env ts txq = fold (io_apply env) (map IoSample ts) txq"

fun on_task :: "lte_state \<Rightarrow> nat \<Rightarrow> (task \<Rightarrow> lte_state option) \<Rightarrow> lte_state option" where
  "on_task s i f = (if \<not> l_panic s \<and> i < length (l_tasks s) then f (l_tasks s ! i) else None)"

fun lte_act :: "lte_env \<Rightarrow> lte_action \<Rightarrow> lte_state \<Rightarrow> lte_state option" where
  "lte_act env (AResolve i now draw) s =
     on_task s i (\<lambda>t. case t of TResolvers t \<Rightarrow> Some (act_resolve env i now draw t s) | _ \<Rightarrow> None)"
| "lte_act env (ASystemStart i) s =
     on_task s i (\<lambda>t. case t of TLookup t v \<Rightarrow> (case rv_system v of LIdle \<Rightarrow> Some (act_system_start i t v s) | _ \<Rightarrow> None) | _ \<Rightarrow> None)"
| "lte_act env (ASystemDone i calls addrs) s =
     on_task s i (\<lambda>t. case t of TLookup t v \<Rightarrow>
       (case rv_system v of LRun index \<Rightarrow> Some (act_system_done env i t v index calls addrs s) | _ \<Rightarrow> None) | _ \<Rightarrow> None)"
| "lte_act env (AUDPStart i) s =
     on_task s i (\<lambda>t. case t of TLookup t v \<Rightarrow> (case rv_udp v of LIdle \<Rightarrow> Some (act_udp_start i t v s) | _ \<Rightarrow> None) | _ \<Rightarrow> None)"
| "lte_act env (AUDPDone i calls addrs) s =
     on_task s i (\<lambda>t. case t of TLookup t v \<Rightarrow>
       (case rv_udp v of LRun index \<Rightarrow> Some (act_udp_done env i t v index calls addrs s) | _ \<Rightarrow> None) | _ \<Rightarrow> None)"
| "lte_act env (AHTTPSStart i now rnd draw) s =
     on_task s i (\<lambda>t. case t of TLookup t v \<Rightarrow>
       (case rv_https v of LIdle \<Rightarrow> Some (act_https_start i now rnd draw t v s) | _ \<Rightarrow> None) | _ \<Rightarrow> None)"
| "lte_act env (AHTTPSDone i calls addrs) s =
     on_task s i (\<lambda>t. case t of TLookup t v \<Rightarrow>
       (case rv_https v of LRun index \<Rightarrow> Some (act_https_done env i t v index calls addrs s) | _ \<Rightarrow> None) | _ \<Rightarrow> None)"
| "lte_act env (AWhoamiSystem i now answer) s =
     on_task s i (\<lambda>t. case t of TLookup t v \<Rightarrow>
       (case rv_whoamiSystemV4 v of None \<Rightarrow> Some (act_whoami_system i now answer t v s) | _ \<Rightarrow> None) | _ \<Rightarrow> None)"
| "lte_act env (AWhoamiUDP i now answer) s =
     on_task s i (\<lambda>t. case t of TLookup t v \<Rightarrow>
       (case rv_whoamiUDPv4 v of None \<Rightarrow> Some (act_whoami_udp i now answer t v s) | _ \<Rightarrow> None) | _ \<Rightarrow> None)"
| "lte_act env (AJoin i now ord) s = on_task s i (\<lambda>t. case t of TLookup t v \<Rightarrow> act_join env i now ord t v s | _ \<Rightarrow> None)"
| "lte_act env (AStart i) s = on_task s i (\<lambda>t. case t of TStart (x # xs) \<Rightarrow> Some (act_start i x xs s) | _ \<Rightarrow> None)"
| "lte_act env (ALateJoin i) s = on_task s i (\<lambda>t. case t of TLateJoin t index \<Rightarrow> Some (set_task i (TLate t index) s) | _ \<Rightarrow> None)"
| "lte_act env (ALateDone i replies) s =
     on_task s i (\<lambda>t. case t of TLate t index \<Rightarrow> Some (act_late_done env i t index replies s) | _ \<Rightarrow> None)"
| "lte_act env (AAllowed i) s = on_task s i (\<lambda>t. case t of TFlow f index FStart \<Rightarrow> Some (act_allowed i f index s) | _ \<Rightarrow> None)"
| "lte_act env (AConnect i started err finished now) s =
     on_task s i (\<lambda>t. case t of TFlow f index FConnect \<Rightarrow> Some (act_connect env i f index started err finished now s) | _ \<Rightarrow> None)"
| "lte_act env (AHandshake i remote started ios state err finished now) s =
     on_task s i (\<lambda>t. case t of TFlow f index (FHandshake tx q) \<Rightarrow>
       if list_all io_ok ios then Some (act_handshake env i f index (tx, q) remote started ios state err finished now s) else None | _ \<Rightarrow> None)"
| "lte_act env (ADeny i ts now) s =
     on_task s i (\<lambda>t. case t of
         TFlow f index (FAsk tx q alpn) \<Rightarrow> Some (act_deny env i f '': denied permission: timed out sending'' now (samples env ts (tx, q)) s)
       | TFlow f index (FWait tx q alpn v) \<Rightarrow> Some (act_deny env i f '': denied permission: timed out receiving'' now (samples env ts (tx, q)) s)
       | _ \<Rightarrow> None)"
| "lte_act env (ASend i ts) s =
     on_task s i (\<lambda>t. case t of
         TFlow f index (FAsk tx q alpn) \<Rightarrow>
           (case fl_PrioSelector f of Some j \<Rightarrow> act_send i j f index (samples env ts (tx, q)) alpn s | None \<Rightarrow> None)
       | _ \<Rightarrow> None)"
| "lte_act env (APermission i ts now) s =
     on_task s i (\<lambda>t. case t of
         TFlow f index (FWait tx q alpn (Some v)) \<Rightarrow> Some (act_permission env i f index now (samples env ts (tx, q)) alpn v s)
       | _ \<Rightarrow> None)"
| "lte_act env (AFetch i ts now0 now) s =
     on_task s i (\<lambda>t. case t of
         TFlow f index (FFetch tx q alpn) \<Rightarrow> Some (act_fetch env i f index now0 now (samples env ts (tx, q)) alpn s) | _ \<Rightarrow> None)"
| "lte_act env (ARound i ios rt finished now) s =
     on_task s i (\<lambda>t. case t of
         TFlow f index (FRound tx q alpn req started) \<Rightarrow>
           if list_all io_ok ios then Some (act_round env i f (tx, q) alpn req started ios rt finished now s) else None
       | _ \<Rightarrow> None)"
| "lte_act env (AControlRequest i) s =
     on_task s i (\<lambda>t. case t of TControl c sent \<Rightarrow> if sent then None else Some (act_control_request i c s) | _ \<Rightarrow> None)"
| "lte_act env (AControl i result ord) s =
     on_task s i (\<lambda>t. case t of TControl c sent \<Rightarrow> if sent then act_control i c result ord s else None | _ \<Rightarrow> None)"
| "lte_act env (AExpire j) s = (if l_panic s then None else act_expire j s)"
| "lte_act env (ASelectorCancelled j) s = (if l_panic s then None else act_selector_cancelled j s)"
| "lte_act env ACancel s = (if l_panic s \<or> l_cancelled s then None else Some (s\<lparr>l_cancelled := True\<rparr>))"

text \<open>
  The result of the overlapped calls is one that the client of the HTTP APIs gives for the endpoints of the test helpers, when no
  transaction succeeds without a response (\<open>postJSON\<close> refuses a nil response).
\<close>

definition helper_result :: "OOAPIService list \<Rightarrow> go_error + THResponse option \<times> nat \<Rightarrow> bool" where
  "helper_result testhelpers result \<longleftrightarrow>
     (\<exists>outcome k v. ov_run outcome (length (NewEndpointFromModelOOAPIServices testhelpers)) k v \<and>
        ov_done (length (NewEndpointFromModelOOAPIServices testhelpers)) v \<and> (\<forall>i c. \<not> outcome i c (Inr None)) \<and>
        result = OverlappedReduce (ov_results v))"

fun action_possible :: "lte_state \<Rightarrow> lte_action \<Rightarrow> bool" where
  "action_possible s (AControl i result ord) =
     (case l_tasks s ! i of TControl c sent \<Rightarrow> helper_result (rs_TestHelpers (co_starter c)) result | _ \<Rightarrow> True)"
| "action_possible s _ = True"

definition lte_step :: "lte_env \<Rightarrow> lte_state \<Rightarrow> lte_state \<Rightarrow> bool" where
  "lte_step env s s' \<longleftrightarrow> (\<exists>a. action_possible s a \<and> lte_act env a s = Some s')"

section \<open>The measurer\<close>

definition lte_doh_urls :: "string list" where
  "lte_doh_urls = [''https://mozilla.cloudflare-dns.com/dns-query'', ''https://dns.nextdns.io/dns-query'', ''https://dns.google/dns-query'',
     ''https://dns.quad9.net/dns-query'']"

definition lte_input_config :: inputparser_Config where
  "lte_input_config = \<lparr>AcceptedSchemes = [''http'', ''https''], AllowEndpoints = False, DefaultScheme = ''''\<rparr>"

text \<open>\<open>urlString\<close> is the method \<open>String\<close> of a URL.\<close>

definition to_URL :: "(parsed_url \<Rightarrow> string) \<Rightarrow> parsed_url \<Rightarrow> URL" where
  "to_URL urlString u =
     \<lparr>url_Scheme = pu_Scheme u, url_Host = pu_Host u, url_Hostname = pu_Hostname u, url_Port = pu_Port u, url_Path = pu_Path u,
      url_RawQuery = pu_RawQuery u, url_String = urlString u\<rparr>"

definition lte_error :: "string \<Rightarrow> go_error" where
  "lte_error = new_error"

text \<open>\<open>Run\<close> until the tasks are started. The DoH provider and the cache of the resolvers' addresses outlive the measurement.\<close>

definition lte_start ::
    "(string \<Rightarrow> string + parsed_url) \<Rightarrow> (string \<Rightarrow> string + string) \<Rightarrow> (parsed_url \<Rightarrow> string) \<Rightarrow> string \<Rightarrow> string \<Rightarrow> OOAPIService list \<Rightarrow>
     OpportunisticDNSOverHTTPSURLProvider \<Rightarrow> (string, dnsWhoamiInfoTimedEntry) gomap \<Rightarrow> (go_error + lte_state) option" where
  "lte_start url_Parse toASCII urlString input resolverIP testhelpers doh whoami =
     (if input = '''' then Some (Inl (lte_error ''no input provided''))
      else do { r \<leftarrow> inputparser_Parse url_Parse toASCII lte_input_config input;
        case r of
          Inl err \<Rightarrow> Some (Inl err)
        | Inr u \<Rightarrow>
            let tk = NewTestKeys\<lparr>lte_ClientResolver := resolverIP\<rparr>
            in do { tk \<leftarrow> (if length testhelpers < 1 then SetControlFailure (Some ErrNoAvailableTestHelpers_error) tk else Some tk);
                    Some (Inr \<lparr>l_tk = tk, l_cache = NewDNSCache, l_ids = NewIDGenerator, l_redirects = 10, l_doh = doh, l_whoami = whoami,
                      l_jar = [], l_selectors = [],
                      l_tasks = [TResolvers \<lparr>rs_Domain = url_Hostname (to_URL urlString u), rs_Depth = 0, rs_URL = to_URL urlString u,
                        rs_Referer = '''', rs_TestHelpers = testhelpers\<rparr>],
                      l_cancelled = False, l_panic = False\<rparr>) } })"

text \<open>The wait group is empty when every goroutine that joined it is done.\<close>

fun task_done :: "task \<Rightarrow> bool" where
  "task_done TDone = True"
| "task_done (TLateJoin t index) = True"
| "task_done _ = False"

definition lte_final :: "lte_state \<Rightarrow> bool" where
  "lte_final s \<longleftrightarrow> \<not> l_panic s \<and> list_all task_done (l_tasks s)"

text \<open>\<open>Run\<close> after the wait: the test keys, the test helper and the fundamental failure, or the error of the context.\<close>

definition lte_finish ::
    "GeoIPASNLookupper \<Rightarrow> (string \<Rightarrow> string) \<Rightarrow> (string \<Rightarrow> string + string) \<Rightarrow> go_error \<Rightarrow> lte_state \<Rightarrow>
     (go_error + TestKeys \<times> OOAPIService option \<times> string option) option" where
  "lte_finish lookupper uni urlHostname ctx_err s =
     (if l_cancelled s then Some (Inl ctx_err)
      else map_option (\<lambda>tk. Inr (tk, getTestHelper tk, fundamentalFailure tk)) (Finalize lookupper uni urlHostname (l_tk s)))"

section \<open>Frames\<close>

lemma set_task_simps [simp]:
  "l_tasks (set_task i t s) = (l_tasks s)[i := t]" "l_tk (set_task i t s) = l_tk s" "l_redirects (set_task i t s) = l_redirects s"
  "l_selectors (set_task i t s) = l_selectors s" "l_ids (set_task i t s) = l_ids s" "l_cancelled (set_task i t s) = l_cancelled s"
  "l_panic (set_task i t s) = l_panic s"
  by (simp_all add: set_task_def)

lemma spawn_simps [simp]:
  "l_tasks (spawn t s) = l_tasks s @ [t]" "l_tk (spawn t s) = l_tk s" "l_redirects (spawn t s) = l_redirects s"
  "l_selectors (spawn t s) = l_selectors s" "l_ids (spawn t s) = l_ids s" "l_cancelled (spawn t s) = l_cancelled s" "l_panic (spawn t s) = l_panic s"
  by (simp_all add: spawn_def)

lemma upd_tk_simps [simp]:
  "l_tasks (upd_tk f s) = l_tasks s" "l_tk (upd_tk f s) = f (l_tk s)" "l_redirects (upd_tk f s) = l_redirects s"
  "l_selectors (upd_tk f s) = l_selectors s" "l_ids (upd_tk f s) = l_ids s" "l_cancelled (upd_tk f s) = l_cancelled s"
  "l_panic (upd_tk f s) = l_panic s"
  by (simp_all add: upd_tk_def)

lemma panic_simps [simp]:
  "l_tasks (panic s) = l_tasks s" "l_tk (panic s) = l_tk s" "l_redirects (panic s) = l_redirects s"
  "l_selectors (panic s) = l_selectors s" "l_ids (panic s) = l_ids s" "l_cancelled (panic s) = l_cancelled s" "l_panic (panic s)"
  by (simp_all add: panic_def)

lemma set_selector_simps [simp]:
  "l_tasks (set_selector j st s) = l_tasks s" "l_tk (set_selector j st s) = l_tk s" "l_redirects (set_selector j st s) = l_redirects s"
  "l_selectors (set_selector j st s) = (l_selectors s)[j := (fst (l_selectors s ! j), st)]" "l_ids (set_selector j st s) = l_ids s"
  "l_cancelled (set_selector j st s) = l_cancelled s" "l_panic (set_selector j st s) = l_panic s"
  by (simp_all add: set_selector_def)

lemma reply_simps [simp]:
  "l_tk (reply r v s) = l_tk s" "l_redirects (reply r v s) = l_redirects s" "l_selectors (reply r v s) = l_selectors s"
  "l_ids (reply r v s) = l_ids s" "l_cancelled (reply r v s) = l_cancelled s" "l_panic (reply r v s) = l_panic s"
  "length (l_tasks (reply r v s)) = length (l_tasks s)"
  by (simp_all add: reply_def split: task.split flow_stage.split option.split)

lemma fold_reply_simps [simp]:
  "l_tk (fold (\<lambda>r. reply r v) rs s) = l_tk s" "l_redirects (fold (\<lambda>r. reply r v) rs s) = l_redirects s"
  "l_selectors (fold (\<lambda>r. reply r v) rs s) = l_selectors s" "l_ids (fold (\<lambda>r. reply r v) rs s) = l_ids s"
  "l_cancelled (fold (\<lambda>r. reply r v) rs s) = l_cancelled s" "l_panic (fold (\<lambda>r. reply r v) rs s) = l_panic s"
  "length (l_tasks (fold (\<lambda>r. reply r v) rs s)) = length (l_tasks s)"
  by (induction rs arbitrary: s) simp_all

lemma flow_exit_simps [simp]:
  "l_tasks (flow_exit i now txq s) = (l_tasks s)[i := TDone]" "l_redirects (flow_exit i now txq s) = l_redirects s"
  "l_selectors (flow_exit i now txq s) = l_selectors s" "l_ids (flow_exit i now txq s) = l_ids s"
  "l_cancelled (flow_exit i now txq s) = l_cancelled s" "l_panic (flow_exit i now txq s) = l_panic s"
  by (simp_all add: flow_exit_def NetworkEvents_def)

text \<open>The fields of the test keys that the invariants speak of.\<close>

lemma fold_spawn_simps [simp]:
  "l_tasks (fold (\<lambda>t. spawn (TResolvers t)) ts s) = l_tasks s @ map TResolvers ts" "l_tk (fold (\<lambda>t. spawn (TResolvers t)) ts s) = l_tk s"
  "l_redirects (fold (\<lambda>t. spawn (TResolvers t)) ts s) = l_redirects s" "l_selectors (fold (\<lambda>t. spawn (TResolvers t)) ts s) = l_selectors s"
  "l_ids (fold (\<lambda>t. spawn (TResolvers t)) ts s) = l_ids s" "l_cancelled (fold (\<lambda>t. spawn (TResolvers t)) ts s) = l_cancelled s"
  "l_panic (fold (\<lambda>t. spawn (TResolvers t)) ts s) = l_panic s"
  by (induction ts arbitrary: s) simp_all

lemma set_cookies_simps [simp]:
  "l_tasks (set_cookies req cookies s) = l_tasks s" "l_tk (set_cookies req cookies s) = l_tk s" "l_redirects (set_cookies req cookies s) = l_redirects s"
  "l_selectors (set_cookies req cookies s) = l_selectors s" "l_ids (set_cookies req cookies s) = l_ids s"
  "l_cancelled (set_cookies req cookies s) = l_cancelled s" "l_panic (set_cookies req cookies s) = l_panic s"
  by (simp_all add: set_cookies_def)

lemma tk_frames [simp]:
  "lte_Requests (AppendNetworkEvents v tk) = lte_Requests tk" "lte_TCPConnect (AppendNetworkEvents v tk) = lte_TCPConnect tk"
  "lte_TLSHandshakes (AppendNetworkEvents v tk) = lte_TLSHandshakes tk" "lte_ControlRequest (AppendNetworkEvents v tk) = lte_ControlRequest tk"
  "lte_Requests (AppendDNSLateReplies d tk) = lte_Requests tk" "lte_TCPConnect (AppendDNSLateReplies d tk) = lte_TCPConnect tk"
  "lte_TLSHandshakes (AppendDNSLateReplies d tk) = lte_TLSHandshakes tk" "lte_ControlRequest (AppendDNSLateReplies d tk) = lte_ControlRequest tk"
  "lte_Requests (AppendQueries d tk) = lte_Requests tk" "lte_TCPConnect (AppendQueries d tk) = lte_TCPConnect tk"
  "lte_TLSHandshakes (AppendQueries d tk) = lte_TLSHandshakes tk" "lte_ControlRequest (AppendQueries d tk) = lte_ControlRequest tk"
  "lte_Requests (WithTestKeysDoH g tk) = lte_Requests tk" "lte_TCPConnect (WithTestKeysDoH g tk) = lte_TCPConnect tk"
  "lte_TLSHandshakes (WithTestKeysDoH g tk) = lte_TLSHandshakes tk" "lte_ControlRequest (WithTestKeysDoH g tk) = lte_ControlRequest tk"
  "lte_Requests (WithTestKeysDo53 h tk) = lte_Requests tk" "lte_TCPConnect (WithTestKeysDo53 h tk) = lte_TCPConnect tk"
  "lte_TLSHandshakes (WithTestKeysDo53 h tk) = lte_TLSHandshakes tk" "lte_ControlRequest (WithTestKeysDo53 h tk) = lte_ControlRequest tk"
  "lte_Requests (WithDNSWhoami w tk) = lte_Requests tk" "lte_TCPConnect (WithDNSWhoami w tk) = lte_TCPConnect tk"
  "lte_TLSHandshakes (WithDNSWhoami w tk) = lte_TLSHandshakes tk" "lte_ControlRequest (WithDNSWhoami w tk) = lte_ControlRequest tk"
  "lte_Requests (ps_log env now msg tk) = lte_Requests tk" "lte_TCPConnect (ps_log env now msg tk) = lte_TCPConnect tk"
  "lte_TLSHandshakes (ps_log env now msg tk) = lte_TLSHandshakes tk" "lte_ControlRequest (ps_log env now msg tk) = lte_ControlRequest tk"
  "lte_Requests (SetFundamentalFailure e tk) = lte_Requests tk" "lte_TCPConnect (SetFundamentalFailure e tk) = lte_TCPConnect tk"
  "lte_TLSHandshakes (SetFundamentalFailure e tk) = lte_TLSHandshakes tk" "lte_ControlRequest (SetFundamentalFailure e tk) = lte_ControlRequest tk"
  "lte_Requests (setTestHelper th tk) = lte_Requests tk" "lte_TCPConnect (setTestHelper th tk) = lte_TCPConnect tk"
  "lte_TLSHandshakes (setTestHelper th tk) = lte_TLSHandshakes tk" "lte_ControlRequest (setTestHelper th tk) = lte_ControlRequest tk"
  "lte_Requests (SetControl cr tk) = lte_Requests tk" "lte_TCPConnect (SetControl cr tk) = lte_TCPConnect tk"
  "lte_TLSHandshakes (SetControl cr tk) = lte_TLSHandshakes tk" "lte_ControlRequest (SetControl cr tk) = lte_ControlRequest tk"
  "lte_Requests (SetControlRequest rq tk) = lte_Requests tk" "lte_TCPConnect (SetControlRequest rq tk) = lte_TCPConnect tk"
  "lte_TLSHandshakes (SetControlRequest rq tk) = lte_TLSHandshakes tk" "lte_ControlRequest (SetControlRequest rq tk) = rq"
  "lte_Requests (AppendTCPConnectResults c tk) = lte_Requests tk" "lte_TCPConnect (AppendTCPConnectResults c tk) = lte_TCPConnect tk @ c"
  "lte_TLSHandshakes (AppendTCPConnectResults c tk) = lte_TLSHandshakes tk" "lte_ControlRequest (AppendTCPConnectResults c tk) = lte_ControlRequest tk"
  "lte_Requests (AppendTLSHandshakes t tk) = lte_Requests tk" "lte_TCPConnect (AppendTLSHandshakes t tk) = lte_TCPConnect tk"
  "lte_TLSHandshakes (AppendTLSHandshakes t tk) = lte_TLSHandshakes tk @ t" "lte_ControlRequest (AppendTLSHandshakes t tk) = lte_ControlRequest tk"
  "lte_Requests (PrependRequests r tk) = r @ lte_Requests tk" "lte_TCPConnect (PrependRequests r tk) = lte_TCPConnect tk"
  "lte_TLSHandshakes (PrependRequests r tk) = lte_TLSHandshakes tk" "lte_ControlRequest (PrependRequests r tk) = lte_ControlRequest tk"
  by (simp_all add: AppendNetworkEvents_def AppendDNSLateReplies_def AppendQueries_def WithTestKeysDoH_def WithTestKeysDo53_def WithDNSWhoami_def
      ps_log_def AppendConnPriorityLogEntry_def SetFundamentalFailure_def setTestHelper_def SetControl_def SetControlRequest_def
      AppendTCPConnectResults_def AppendTLSHandshakes_def PrependRequests_def)

lemma flow_exit_tk [simp]:
  "lte_Requests (l_tk (flow_exit i now txq s)) = lte_Requests (l_tk s)" "lte_TCPConnect (l_tk (flow_exit i now txq s)) = lte_TCPConnect (l_tk s)"
  "lte_TLSHandshakes (l_tk (flow_exit i now txq s)) = lte_TLSHandshakes (l_tk s)"
  "lte_ControlRequest (l_tk (flow_exit i now txq s)) = lte_ControlRequest (l_tk s)"
  by (simp_all add: flow_exit_def NetworkEvents_def)

lemma SetControlFailure_frames:
  "SetControlFailure e tk = Some tk' \<Longrightarrow> lte_Requests tk' = lte_Requests tk \<and> lte_TCPConnect tk' = lte_TCPConnect tk \<and>
     lte_TLSHandshakes tk' = lte_TLSHandshakes tk \<and> lte_ControlRequest tk' = lte_ControlRequest tk"
  by (auto simp: SetControlFailure_def split: Option.bind_splits)

section \<open>Counting\<close>

text \<open>The sum of a weight over the goroutines.\<close>

definition task_sum :: "(task \<Rightarrow> 'a::comm_monoid_add) \<Rightarrow> task list \<Rightarrow> 'a" where
  "task_sum w ts = sum_list (map w ts)"

lemma task_sum_simps [simp]: "task_sum w [] = 0" "task_sum w (t # ts) = w t + task_sum w ts" "task_sum w (ts @ us) = task_sum w ts + task_sum w us"
  by (simp_all add: task_sum_def)

lemma task_sum_update: "i < length ts \<Longrightarrow> task_sum w (ts[i := t]) + w (ts ! i) = task_sum w ts + w t"
proof (induction ts arbitrary: i)
  case (Cons a ts)
  show ?case
  proof (cases i)
    case (Suc j)
    then have "task_sum w (ts[j := t]) + w (ts ! j) = task_sum w ts + w t" using Cons by simp
    then show ?thesis using Suc by (simp add: add.assoc)
  qed (simp add: add.commute add.left_commute)
qed simp

lemma task_sum_update_same: "w t = w (ts ! i) \<Longrightarrow> task_sum w (ts[i := t]) = task_sum w ts"
  by (cases "i < length ts") (metis list_update_id map_update task_sum_def, simp add: list_update_beyond)

lemma task_sum_update_nat:
  fixes w :: "task \<Rightarrow> nat"
  shows "i < length ts \<Longrightarrow> task_sum w (ts[i := t]) = task_sum w ts + w t - w (ts ! i)"
  using task_sum_update [of i ts w t] by simp

lemma task_sum_ge:
  fixes w :: "task \<Rightarrow> nat"
  shows "i < length ts \<Longrightarrow> w (ts ! i) \<le> task_sum w ts"
  using member_le_sum_list [of "w (ts ! i)" "map w ts"] by (simp add: task_sum_def)

definition sel_total :: "(selector_stage \<Rightarrow> nat) \<Rightarrow> (prioritySelector \<times> selector_stage) list \<Rightarrow> nat" where
  "sel_total w sels = sum_list (map (w \<circ> snd) sels)"

lemma sel_total_simps [simp]: "sel_total w [] = 0" "sel_total w (sels @ [x]) = sel_total w sels + w (snd x)"
  by (simp_all add: sel_total_def)

lemma sel_total_update:
  assumes "j < length sels"
  shows "sel_total w (sels[j := (p, st)]) + w (snd (sels ! j)) = sel_total w sels + w st"
proof -
  have "sels = take j sels @ sels ! j # drop (Suc j) sels" using assms by (rule id_take_nth_drop)
  then have "sel_total w sels = sum_list (map (w \<circ> snd) (take j sels)) + (w (snd (sels ! j)) + sum_list (map (w \<circ> snd) (drop (Suc j) sels)))"
    unfolding sel_total_def by (metis comp_apply list.simps(9) map_append sum_list.Cons sum_list_append)
  moreover have "sel_total w (sels[j := (p, st)]) = sum_list (map (w \<circ> snd) (take j sels)) + (w st + sum_list (map (w \<circ> snd) (drop (Suc j) sels)))"
    using assms by (simp add: sel_total_def upd_conv_take_nth_drop)
  ultimately show ?thesis by simp
qed

text \<open>A reply changes the weight of at most the goroutine that waits for it.\<close>

definition waiting :: "task \<Rightarrow> bool" where
  "waiting t \<longleftrightarrow> (\<exists>f index tx q alpn. t = TFlow f index (FWait tx q alpn None))"

lemma task_sum_reply:
  assumes "\<And>f index tx q alpn. w (TFlow f index (FWait tx q alpn (Some v))) = w (TFlow f index (FWait tx q alpn None))"
  shows "task_sum w (l_tasks (reply r v s)) = task_sum w (l_tasks s)"
proof (cases "waiting (l_tasks s ! pr_task r)")
  case True
  then obtain f index tx q alpn where old: "l_tasks s ! pr_task r = TFlow f index (FWait tx q alpn None)" by (auto simp: waiting_def)
  then show ?thesis by (simp add: reply_def task_sum_update_same assms)
next
  case False
  then show ?thesis by (auto simp: reply_def waiting_def split: task.split flow_stage.split option.split)
qed

lemma task_sum_fold_reply:
  assumes "\<And>f index tx q alpn. w (TFlow f index (FWait tx q alpn (Some v))) = w (TFlow f index (FWait tx q alpn None))"
  shows "task_sum w (l_tasks (fold (\<lambda>r. reply r v) rs s)) = task_sum w (l_tasks s)"
  by (induction rs arbitrary: s) (simp_all add: task_sum_reply [of w v] assms)

lemma task_sum_reply_le:
  fixes w :: "task \<Rightarrow> nat"
  assumes "\<And>f index tx q alpn. w (TFlow f index (FWait tx q alpn (Some v))) \<le> Suc (w (TFlow f index (FWait tx q alpn None)))"
  shows "task_sum w (l_tasks (reply r v s)) \<le> Suc (task_sum w (l_tasks s))"
proof (cases "waiting (l_tasks s ! pr_task r) \<and> pr_task r < length (l_tasks s)")
  case True
  then obtain f index tx q alpn where old: "l_tasks s ! pr_task r = TFlow f index (FWait tx q alpn None)" by (auto simp: waiting_def)
  have "task_sum w ((l_tasks s)[pr_task r := TFlow f index (FWait tx q alpn (Some v))]) + w (l_tasks s ! pr_task r) =
      task_sum w (l_tasks s) + w (TFlow f index (FWait tx q alpn (Some v)))" using True by (intro task_sum_update) simp
  then show ?thesis using old assms [of f index tx q alpn] by (simp add: reply_def)
next
  case False
  then show ?thesis by (auto simp: reply_def waiting_def list_update_beyond split: task.split flow_stage.split option.split)
qed

text \<open>A step of a goroutine, with the list of the goroutines taken apart at it.\<close>

lemma on_task_SomeE:
  assumes "on_task s i f = Some s'"
  obtains us t vs where "l_tasks s = us @ t # vs" "length us = i" "f t = Some s'" "\<not> l_panic s"
proof -
  have i: "i < length (l_tasks s)" and f: "f (l_tasks s ! i) = Some s'" "\<not> l_panic s" using assms by (auto split: if_splits)
  show thesis by (rule that [of "take i (l_tasks s)" "l_tasks s ! i" "drop (Suc i) (l_tasks s)"]) (use i f id_take_nth_drop [OF i] in auto)
qed

declare on_task.simps [simp del]

end
