(* ===== verification/LteRuns.thy ===== *)
theory LteRuns
  imports LteEngine
begin

text \<open>
  What holds in every run of the measurement of Web Connectivity (theory \<open>LteEngine\<close>): each invariant is a sum of weights over the goroutines
  and the selectors that no action increases, or a property of every goroutine and of the test keys that every action keeps.
\<close>

lemmas act_defs =
  act_resolve_def act_system_start_def act_system_done_def act_udp_start_def act_udp_done_def act_https_start_def act_https_done_def
  act_whoami_system_def act_whoami_udp_def act_join_def act_start_def act_late_done_def act_allowed_def act_connect_def act_handshake_def
  act_deny_def act_send_def act_permission_def act_fetch_def act_round_def act_control_request_def act_control_def act_expire_def
  act_selector_cancelled_def

lemmas act_splits =
  if_splits option.splits sum.splits prod.splits list.splits task.splits flow_stage.splits lookup_stage.splits start.splits
  selector_stage.splits round_trip.splits

section \<open>At most eleven requests\<close>

fun w_req :: "task \<Rightarrow> nat" where
  "w_req (TResolvers t) = 1"
| "w_req (TLookup t v) = 1"
| "w_req (TFlow f index (FWait tx q alpn (Some True))) = 1"
| "w_req (TFlow f index (FFetch tx q alpn)) = 1"
| "w_req (TFlow f index (FRound tx q alpn req started)) = 1"
| "w_req _ = 0"

fun sel_open :: "selector_stage \<Rightarrow> nat" where
  "sel_open SelDone = 0"
| "sel_open _ = 1"

definition req_potential :: "lte_state \<Rightarrow> nat" where
  "req_potential s =
     length (lte_Requests (l_tk s)) + task_sum w_req (l_tasks s) + sel_total sel_open (l_selectors s) + nat (l_redirects s)"

lemma w_req_start [simp]: "w_req (mk_start xs) = 0"
  by (simp add: mk_start_def)


lemma control_failure_frames:
  "Option.bind (NewTopLevelGenericErrWrapper (Some err)) (\<lambda>err. SetControlFailure (Some err) tk) = Some tk' \<Longrightarrow>
     lte_Requests tk' = lte_Requests tk \<and> lte_TCPConnect tk' = lte_TCPConnect tk \<and> lte_TLSHandshakes tk' = lte_TLSHandshakes tk \<and>
     lte_ControlRequest tk' = lte_ControlRequest tk"
  by (auto split: Option.bind_splits dest: SetControlFailure_frames)

fun selector_action :: "lte_action \<Rightarrow> bool" where
  "selector_action (ASend i ts) = True"
| "selector_action (AExpire j) = True"
| "selector_action (ASelectorCancelled j) = True"
| "selector_action (ARound i ios rt finished now) = True"
| "selector_action _ = False"

lemma req_potential_plain:
  assumes "lte_act env a s = Some s'" and "\<not> selector_action a"
  shows "req_potential s' \<le> req_potential s"
  using assms
  by (cases a; auto simp: act_defs req_potential_def fan_out_def Let_def elim!: on_task_SomeE split: act_splits dest!: control_failure_frames)

lemma req_reply:
  "task_sum w_req (l_tasks (reply r True s)) \<le> Suc (task_sum w_req (l_tasks s))"
  "task_sum w_req (l_tasks (fold (\<lambda>r. reply r False) rs s)) = task_sum w_req (l_tasks s)"
  by (rule task_sum_reply_le, simp) (rule task_sum_fold_reply, simp)

lemma req_potential_send:
  assumes "lte_act env (ASend i ts) s = Some s'"
  shows "req_potential s' \<le> req_potential s"
proof -
  obtain us t vs f index tx q alpn j ipAddr port where
    parts: "l_tasks s = us @ TFlow f index (FAsk tx q alpn) # vs" "length us = i" "fl_PrioSelector f = Some j"
      "act_send i j f index (samples env ts (tx, q)) alpn s = Some s'"
    using assms by (auto elim!: on_task_SomeE split: act_splits)
  let ?sels = "l_selectors s"
  show ?thesis
  proof (cases "\<exists>err. SplitHostPort (fl_Address f) = Inl err")
    case True
    then show ?thesis using parts by (auto simp: act_send_def req_potential_def)
  next
    case False
    then have j: "j < length ?sels" using parts by (auto simp: act_send_def split: sum.splits if_splits)
    let ?w = "\<lambda>st. sel_total sel_open (?sels[j := (fst (?sels ! j), st)])"
    have sel: "?w SelDone + sel_open (snd (?sels ! j)) = sel_total sel_open ?sels"
        "?w (SelCollect rs) + sel_open (snd (?sels ! j)) = sel_total sel_open ?sels + 1" for rs
      using sel_total_update [OF j, of sel_open "fst (?sels ! j)"] by simp_all
    let ?r = "\<lparr>pr_task = i, pr_addr = fst (projr (SplitHostPort (fl_Address f)))\<rparr>"
    let ?s = "set_selector j SelDone (set_task i (TFlow f index (FWait (fst (samples env ts (tx, q))) (snd (samples env ts (tx, q))) alpn None)) s)"
    have "task_sum w_req (l_tasks (reply ?r True ?s)) \<le> Suc (task_sum w_req (l_tasks ?s))" by (rule req_reply)
    then show ?thesis using False parts j sel
      by (auto simp: act_send_def req_potential_def Let_def split: sum.splits if_splits prod.splits selector_stage.splits)
  qed
qed

lemma req_potential_expire:
  assumes "act_expire j s = Some s'"
  shows "req_potential s' \<le> req_potential s"
proof -
  let ?sels = "l_selectors s"
  have j: "j < length ?sels" using assms by (auto simp: act_expire_def split: if_splits)
  then obtain ps rs where sel: "?sels ! j = (ps, SelCollect rs)" using assms by (auto simp: act_expire_def split: prod.splits selector_stage.splits)
  have w: "sel_total sel_open (?sels[j := (ps, SelDone)]) + 1 = sel_total sel_open ?sels"
    using sel_total_update [OF j, of sel_open ps SelDone] by (simp add: sel)
  show ?thesis
  proof (cases "findHighestPriority ps rs")
    case None
    then show ?thesis using assms j sel by (auto simp: act_expire_def req_potential_def)
  next
    case (Some high)
    have "task_sum w_req (l_tasks (reply high True (set_selector j SelDone s))) \<le> Suc (task_sum w_req (l_tasks s))"
      using req_reply(1) [of high "set_selector j SelDone s"] by simp
    then show ?thesis using assms j sel Some w by (auto simp: act_expire_def req_potential_def req_reply(2))
  qed
qed

lemma req_potential_cancelled:
  assumes "act_selector_cancelled j s = Some s'"
  shows "req_potential s' \<le> req_potential s"
proof -
  have j: "j < length (l_selectors s)" and s': "s' = set_selector j SelDone s"
    using assms by (auto simp: act_selector_cancelled_def split: if_splits)
  show ?thesis using sel_total_update [OF j, of sel_open "fst (l_selectors s ! j)" SelDone] by (simp add: s' req_potential_def)
qed

text \<open>Redirects: a new task of the resolvers takes one of those that are left.\<close>

lemma wrap64_dec: "-9223372036854775808 < n \<Longrightarrow> n \<le> 10 \<Longrightarrow> wrap64 (n - 1) = n - 1"
  by (rule wrap64_id) (simp add: in_int64_def)

lemma redirect_check_redirects:
  assumes "-9223372036854775808 < n" "n \<le> 10"
  shows "snd (redirect_check f resp n) \<in> {n - 1, n}"
    and "fst (redirect_check f resp n) = None \<Longrightarrow> redirect_resolvers f resp \<noteq> [] \<Longrightarrow> snd (redirect_check f resp n) = n - 1 \<and> 0 < n"
    and "length (redirect_resolvers f resp) \<le> 1"
  using assms
  by (auto simp: redirect_check_def redirect_resolvers_def CanFollowOneMoreRedirect_def wrap64_dec Let_def split: option.splits sum.splits if_splits)

text \<open>What the end of a round trip changes.\<close>

lemma act_round_view:
  assumes "-9223372036854775808 < l_redirects s" "l_redirects s \<le> 10" and "i < length (l_tasks s)"
    and s': "s' = act_round env i f txq alpn req started ios rt finished now s"
  obtains ev ts where "lte_Requests (l_tk s') = ev # lte_Requests (l_tk s)" "http_TransactionID ev = trace_index (fst (fold (io_apply env) ios txq))"
    "l_tasks s' = (l_tasks s)[i := TDone] @ map TResolvers ts" "l_selectors s' = l_selectors s" "l_ids s' = l_ids s" "l_panic s' = l_panic s"
    "l_cancelled s' = l_cancelled s" "lte_TCPConnect (l_tk s') = lte_TCPConnect (l_tk s)" "lte_TLSHandshakes (l_tk s') = lte_TLSHandshakes (l_tk s)"
    "lte_ControlRequest (l_tk s') = lte_ControlRequest (l_tk s)"
    "ts = [] \<and> l_redirects s' \<in> {l_redirects s - 1, l_redirects s} \<or>
     (\<exists>t. ts = [t] \<and> rs_TestHelpers t = [] \<and> l_redirects s' = l_redirects s - 1 \<and> 0 < l_redirects s)"
proof -
  note check = redirect_check_redirects [OF assms(1,2), of f]
  obtain resp cookies body err0 where parts: "round_parts rt = (resp, cookies, body, err0)" by (cases "round_parts rt")
  obtain err redirects where chk: "round_check f resp err0 (l_redirects s) = (err, redirects)" by fastforce
  define ts where "ts = maybeFollowRedirects f resp err"
  have red: "ts = [] \<and> redirects \<in> {l_redirects s - 1, l_redirects s} \<or>
     (\<exists>t. ts = [t] \<and> rs_TestHelpers t = [] \<and> redirects = l_redirects s - 1 \<and> 0 < l_redirects s)"
  proof (cases "\<exists>r. resp = Some r \<and> err0 = None")
    case True
    then obtain r where r: "resp = Some r" "err0 = None" by blast
    then have c: "redirect_check f r (l_redirects s) = (err, redirects)" using chk by (simp add: round_check_def)
    show ?thesis
    proof (cases "err = None \<and> redirect_resolvers f r \<noteq> []")
      case True
      then obtain t where t: "redirect_resolvers f r = [t]" "rs_TestHelpers t = []"
        using check(3) [of r] by (auto simp: redirect_resolvers_def split: if_splits sum.splits)
      then show ?thesis using check(2) [of r] True c r by (simp add: ts_def maybeFollowRedirects_def)
    next
      case False
      then show ?thesis using check(1) [of r] c r by (auto simp: ts_def maybeFollowRedirects_def split: option.split)
    qed
  next
    case False
    then show ?thesis using chk by (auto simp: ts_def maybeFollowRedirects_def round_check_def split: option.splits)
  qed
  define ev where "ev = hd (lte_Requests (l_tk s'))"
  show thesis
    by (rule that [of ev ts]; use red assms(3) in \<open>simp add: ev_def s' act_round_def Let_def parts chk ts_def NewArchivalHTTPRequestResult_def
        list_update_append1\<close>)
qed

fun is_round :: "lte_action \<Rightarrow> bool" where
  "is_round (ARound i ios rt finished now) = True"
| "is_round _ = False"

lemma frames_not_round:
  assumes "lte_act env a s = Some s'" and "\<not> is_round a"
  shows "l_redirects s' = l_redirects s \<and> lte_Requests (l_tk s') = lte_Requests (l_tk s)"
  using assms
  by (cases a; auto simp: act_defs fan_out_def Let_def elim!: on_task_SomeE split: act_splits dest!: control_failure_frames)

definition red_inv :: "lte_state \<Rightarrow> bool" where
  "red_inv s \<longleftrightarrow> req_potential s \<le> 11 \<and> l_redirects s \<le> 10 \<and> 10 \<le> l_redirects s + int (length (lte_Requests (l_tk s)))"

lemma red_inv_bounds:
  assumes "red_inv s"
  shows "-9223372036854775808 < l_redirects s" "l_redirects s \<le> 10" "length (lte_Requests (l_tk s)) \<le> 11"
  using assms by (auto simp: red_inv_def req_potential_def)

lemma round_roundE:
  assumes "lte_act env (ARound i ios rt finished now) s = Some s'"
  obtains us f index tx q alpn req started vs where "l_tasks s = us @ TFlow f index (FRound tx q alpn req started) # vs" "length us = i"
    "list_all io_ok ios" "s' = act_round env i f (tx, q) alpn req started ios rt finished now s"
  using assms by (auto elim!: on_task_SomeE split: act_splits)

lemma red_inv_round:
  assumes act: "lte_act env (ARound i ios rt finished now) s = Some s'" and inv: "red_inv s"
  shows "red_inv s'"
proof -
  from act obtain us f index tx q alpn req started vs where
    tasks: "l_tasks s = us @ TFlow f index (FRound tx q alpn req started) # vs" "length us = i"
    and s': "s' = act_round env i f (tx, q) alpn req started ios rt finished now s" by (rule round_roundE)
  then have i: "i < length (l_tasks s)" by simp
  from act_round_view [OF red_inv_bounds(1,2) [OF inv] i s'] obtain ev ts where
    view: "lte_Requests (l_tk s') = ev # lte_Requests (l_tk s)" "l_tasks s' = (l_tasks s)[i := TDone] @ map TResolvers ts"
      "l_selectors s' = l_selectors s"
      "ts = [] \<and> l_redirects s' \<in> {l_redirects s - 1, l_redirects s} \<or>
       (\<exists>t. ts = [t] \<and> rs_TestHelpers t = [] \<and> l_redirects s' = l_redirects s - 1 \<and> 0 < l_redirects s)" by blast
  show ?thesis using inv tasks view(4)
    by (auto simp: red_inv_def req_potential_def view(1-3))
qed

lemma req_potential_step:
  assumes "lte_act env a s = Some s'" and "\<not> is_round a"
  shows "req_potential s' \<le> req_potential s"
proof (cases "selector_action a")
  case True
  then show ?thesis using assms req_potential_send req_potential_expire req_potential_cancelled by (cases a) (auto split: if_splits)
next
  case False
  then show ?thesis using req_potential_plain assms by blast
qed

lemma red_inv_step: "lte_act env a s = Some s' \<Longrightarrow> red_inv s \<Longrightarrow> red_inv s'"
proof (cases "is_round a")
  case False
  assume "lte_act env a s = Some s'" "red_inv s"
  then show ?thesis using req_potential_step [OF _ False] frames_not_round [OF _ False] by (fastforce simp: red_inv_def)
qed (use red_inv_round in \<open>cases a; simp\<close>)

section \<open>Runs\<close>

definition lte_runs :: "lte_env \<Rightarrow> lte_state \<Rightarrow> lte_state \<Rightarrow> bool" where
  "lte_runs env = (lte_step env)\<^sup>*\<^sup>*"

text \<open>The states in which a measurement of a URL starts.\<close>

definition lte_initial :: "URL \<Rightarrow> OOAPIService list \<Rightarrow> lte_state \<Rightarrow> bool" where
  "lte_initial u testhelpers s \<longleftrightarrow>
     l_tasks s = [TResolvers \<lparr>rs_Domain = url_Hostname u, rs_Depth = 0, rs_URL = u, rs_Referer = '''', rs_TestHelpers = testhelpers\<rparr>] \<and>
     l_selectors s = [] \<and> l_redirects s = 10 \<and> l_ids s = NewIDGenerator \<and> l_cache s = NewDNSCache \<and> \<not> l_panic s \<and> \<not> l_cancelled s \<and>
     lte_Requests (l_tk s) = [] \<and> lte_TCPConnect (l_tk s) = [] \<and> lte_TLSHandshakes (l_tk s) = [] \<and> lte_ControlRequest (l_tk s) = None"

lemma lte_start_initial:
  assumes "lte_start url_Parse toASCII urlString input resolverIP testhelpers doh whoami = Some (Inr s)"
  obtains u where "lte_initial (to_URL urlString u) testhelpers s" "inputparser_Parse url_Parse toASCII lte_input_config input = Some (Inr u)"
  using assms
  by (auto simp: lte_start_def lte_initial_def NewTestKeys_def Let_def split: if_splits Option.bind_splits sum.splits
      dest!: SetControlFailure_frames)

lemma runs_invariant:
  assumes "lte_runs env s0 s" and "P s0" and "\<And>a t t'. lte_act env a t = Some t' \<Longrightarrow> action_possible t a \<Longrightarrow> P t \<Longrightarrow> P t'"
  shows "P s"
  using assms(1) unfolding lte_runs_def
  by (induction rule: rtranclp_induct) (use assms(2,3) lte_step_def in blast)+

lemma initial_red_inv: "lte_initial u ths s \<Longrightarrow> red_inv s"
  by (simp add: lte_initial_def red_inv_def req_potential_def)

lemma runs_red_inv: "lte_initial u ths s0 \<Longrightarrow> lte_runs env s0 s \<Longrightarrow> red_inv s"
  using runs_invariant [of env s0 s red_inv] initial_red_inv red_inv_step by blast

section \<open>Every run ends\<close>

text \<open>
  The measure: the redirects that are left; then what the resolvers still do, which grows with a redirect only; then what the control does;
  then what the flows, the selectors and the late replies do.
\<close>

fun lookup_weight :: "lookup_stage \<Rightarrow> nat" where
  "lookup_weight LIdle = 2"
| "lookup_weight (LRun index) = 1"
| "lookup_weight (LDone addrs) = 0"

fun w_resolvers :: "task \<Rightarrow> nat" where
  "w_resolvers (TResolvers t) = 12"
| "w_resolvers (TLookup t v) = 1 + lookup_weight (rv_system v) + lookup_weight (rv_udp v) + lookup_weight (rv_https v) +
     (if rv_whoamiSystemV4 v = None then 1 else 0) + (if rv_whoamiUDPv4 v = None then 1 else 0)"
| "w_resolvers _ = 0"

fun start_control :: "start \<Rightarrow> nat" where
  "start_control (StartControl c) = 3"
| "start_control (StartFlow f) = 0"

fun w_control :: "task \<Rightarrow> nat" where
  "w_control (TControl c sent) = (if sent then 1 else 2)"
| "w_control (TStart xs) = sum_list (map start_control xs)"
| "w_control _ = 0"

fun stage_weight :: "flow_stage \<Rightarrow> nat" where
  "stage_weight FStart = 7"
| "stage_weight FConnect = 6"
| "stage_weight (FHandshake tx q) = 5"
| "stage_weight (FAsk tx q alpn) = 4"
| "stage_weight (FWait tx q alpn v) = 3"
| "stage_weight (FFetch tx q alpn) = 2"
| "stage_weight (FRound tx q alpn req started) = 1"

fun w_flow :: "task \<Rightarrow> nat" where
  "w_flow (TFlow f index stage) = stage_weight stage"
| "w_flow (TStart xs) = 8 * length xs"
| "w_flow (TLateJoin t index) = 2"
| "w_flow (TLate t index) = 1"
| "w_flow _ = 0"

fun sel_weight :: "selector_stage \<Rightarrow> nat" where
  "sel_weight SelAwait = 2"
| "sel_weight (SelCollect rs) = 1"
| "sel_weight SelDone = 0"

definition lte_measure :: "lte_state \<Rightarrow> nat \<times> nat \<times> nat \<times> nat" where
  "lte_measure s =
     (nat (l_redirects s), task_sum w_resolvers (l_tasks s), task_sum w_control (l_tasks s),
      task_sum w_flow (l_tasks s) + sel_total sel_weight (l_selectors s) + (if l_cancelled s then 0 else 1) + (if l_panic s then 0 else 1))"

definition lte_less :: "((nat \<times> nat \<times> nat \<times> nat) \<times> (nat \<times> nat \<times> nat \<times> nat)) set" where
  "lte_less = less_than <*lex*> less_than <*lex*> less_than <*lex*> less_than"

lemma wf_lte_less: "wf lte_less"
  unfolding lte_less_def by (intro wf_lex_prod wf_less_than)

lemma mk_start_weights [simp]:
  "w_resolvers (mk_start xs) = 0" "w_control (mk_start xs) = sum_list (map start_control xs)" "w_flow (mk_start xs) = 8 * length xs"
  by (simp_all add: mk_start_def)

definition w_last :: "lte_state \<Rightarrow> nat" where
  "w_last s = task_sum w_flow (l_tasks s) + sel_total sel_weight (l_selectors s) + (if l_cancelled s then 0 else 1) + (if l_panic s then 0 else 1)"

lemma lte_measure_eq: "lte_measure s = (nat (l_redirects s), task_sum w_resolvers (l_tasks s), task_sum w_control (l_tasks s), w_last s)"
  by (simp add: lte_measure_def w_last_def)

fun resolver_action :: "lte_action \<Rightarrow> bool" where
  "resolver_action (AResolve i now draw) = True"
| "resolver_action (ASystemStart i) = True"
| "resolver_action (ASystemDone i calls addrs) = True"
| "resolver_action (AUDPStart i) = True"
| "resolver_action (AUDPDone i calls addrs) = True"
| "resolver_action (AHTTPSStart i now rnd draw) = True"
| "resolver_action (AHTTPSDone i calls addrs) = True"
| "resolver_action (AWhoamiSystem i now answer) = True"
| "resolver_action (AWhoamiUDP i now answer) = True"
| "resolver_action (AJoin i now ord) = True"
| "resolver_action _ = False"

fun control_action :: "lte_action \<Rightarrow> bool" where
  "control_action (AControlRequest i) = True"
| "control_action (AControl i result ord) = True"
| "control_action (AStart i) = True"
| "control_action _ = False"

lemma measure_resolvers:
  assumes "lte_act env a s = Some s'" and "resolver_action a"
  shows "task_sum w_resolvers (l_tasks s') < task_sum w_resolvers (l_tasks s)"
  using assms
  by (cases a; auto simp: act_defs fan_out_def Let_def elim!: on_task_SomeE split: option.splits prod.splits task.splits lookup_stage.splits if_splits)

lemma start_controls [simp]: "sum_list (map (start_control \<circ> StartFlow) fs) = 0"
  by (induction fs) simp_all

lemma measure_control:
  assumes "lte_act env a s = Some s'" and "control_action a"
  shows "task_sum w_resolvers (l_tasks s') = task_sum w_resolvers (l_tasks s) \<and>
    (task_sum w_control (l_tasks s') < task_sum w_control (l_tasks s) \<or>
     task_sum w_control (l_tasks s') = task_sum w_control (l_tasks s) \<and> w_last s' < w_last s)"
  using assms
  by (cases a; auto simp: act_defs w_last_def Let_def elim!: on_task_SomeE
      split: option.splits prod.splits task.splits list.splits start.splits sum.splits if_splits)

lemma measure_flow:
  assumes "lte_act env a s = Some s'" and "\<not> resolver_action a" and "\<not> control_action a" and "\<not> selector_action a"
  shows "task_sum w_resolvers (l_tasks s') = task_sum w_resolvers (l_tasks s) \<and> task_sum w_control (l_tasks s') = task_sum w_control (l_tasks s) \<and>
     w_last s' < w_last s"
  using assms
  by (cases a; auto simp: act_defs w_last_def Let_def elim!: on_task_SomeE
      split: option.splits prod.splits task.splits flow_stage.splits sum.splits if_splits)

lemma reply_weights [simp]:
  "task_sum w_resolvers (l_tasks (reply r v s)) = task_sum w_resolvers (l_tasks s)"
  "task_sum w_control (l_tasks (reply r v s)) = task_sum w_control (l_tasks s)"
  "task_sum w_flow (l_tasks (reply r v s)) = task_sum w_flow (l_tasks s)"
  "task_sum w_resolvers (l_tasks (fold (\<lambda>r. reply r v) rs s)) = task_sum w_resolvers (l_tasks s)"
  "task_sum w_control (l_tasks (fold (\<lambda>r. reply r v) rs s)) = task_sum w_control (l_tasks s)"
  "task_sum w_flow (l_tasks (fold (\<lambda>r. reply r v) rs s)) = task_sum w_flow (l_tasks s)"
  by (rule task_sum_reply task_sum_fold_reply; simp)+

lemma measure_send:
  assumes "lte_act env (ASend i ts) s = Some s'"
  shows "task_sum w_resolvers (l_tasks s') = task_sum w_resolvers (l_tasks s) \<and> task_sum w_control (l_tasks s') = task_sum w_control (l_tasks s) \<and>
     w_last s' < w_last s"
proof -
  obtain us vs f index tx q alpn j where
    parts: "l_tasks s = us @ TFlow f index (FAsk tx q alpn) # vs" "length us = i" "act_send i j f index (samples env ts (tx, q)) alpn s = Some s'"
      "\<not> l_panic s"
    using assms by (auto elim!: on_task_SomeE split: act_splits)
  let ?sels = "l_selectors s"
  show ?thesis
  proof (cases "\<exists>err. SplitHostPort (fl_Address f) = Inl err")
    case True
    then show ?thesis using parts by (auto simp: act_send_def w_last_def)
  next
    case False
    then have j: "j < length ?sels" using parts by (auto simp: act_send_def split: sum.splits if_splits)
    have sel: "sel_total sel_weight (?sels[j := (fst (?sels ! j), st)]) + sel_weight (snd (?sels ! j)) = sel_total sel_weight ?sels + sel_weight st"
      for st using sel_total_update [OF j] by simp
    have collect: "sel_total sel_weight (?sels[j := (fst (?sels ! j), SelCollect rs)]) \<le> sel_total sel_weight ?sels"
      if "snd (?sels ! j) \<noteq> SelDone" for rs
      using sel [of "SelCollect rs"] that by (cases "snd (?sels ! j)") simp_all
    show ?thesis using False parts j sel [of SelDone] collect
      by (auto simp: act_send_def w_last_def Let_def le_imp_less_Suc split: sum.splits if_splits prod.splits selector_stage.splits)
  qed
qed

lemma measure_expire:
  assumes "act_expire j s = Some s'" "\<not> l_panic s"
  shows "task_sum w_resolvers (l_tasks s') = task_sum w_resolvers (l_tasks s) \<and> task_sum w_control (l_tasks s') = task_sum w_control (l_tasks s) \<and>
     w_last s' < w_last s"
proof -
  let ?sels = "l_selectors s"
  have j: "j < length ?sels" using assms by (auto simp: act_expire_def split: if_splits)
  then obtain ps rs where sel: "?sels ! j = (ps, SelCollect rs)" using assms by (auto simp: act_expire_def split: prod.splits selector_stage.splits)
  have w: "sel_total sel_weight (?sels[j := (ps, SelDone)]) + 1 = sel_total sel_weight ?sels"
    using sel_total_update [OF j, of sel_weight ps SelDone] by (simp add: sel)
  then show ?thesis using assms j sel by (auto simp: act_expire_def w_last_def split: option.splits)
qed

lemma measure_cancelled:
  assumes "act_selector_cancelled j s = Some s'"
  shows "task_sum w_resolvers (l_tasks s') = task_sum w_resolvers (l_tasks s) \<and> task_sum w_control (l_tasks s') = task_sum w_control (l_tasks s) \<and>
     w_last s' < w_last s"
proof -
  have j: "j < length (l_selectors s)" and s': "s' = set_selector j SelDone s" and st: "snd (l_selectors s ! j) \<noteq> SelDone"
    using assms by (auto simp: act_selector_cancelled_def split: if_splits)
  have "0 < sel_weight (snd (l_selectors s ! j))" using st by (cases "snd (l_selectors s ! j)") auto
  then show ?thesis using sel_total_update [OF j, of sel_weight "fst (l_selectors s ! j)" SelDone] by (simp add: s' w_last_def)
qed

lemma measure_round:
  assumes act: "lte_act env (ARound i ios rt finished now) s = Some s'" and inv: "red_inv s"
  shows "(lte_measure s', lte_measure s) \<in> lte_less"
proof -
  from act obtain us f index tx q alpn req started vs where
    tasks: "l_tasks s = us @ TFlow f index (FRound tx q alpn req started) # vs" "length us = i"
    and s': "s' = act_round env i f (tx, q) alpn req started ios rt finished now s" by (rule round_roundE)
  then have i: "i < length (l_tasks s)" by simp
  from act_round_view [OF red_inv_bounds(1,2) [OF inv] i s'] obtain ts where
    view: "l_tasks s' = (l_tasks s)[i := TDone] @ map TResolvers ts" "l_selectors s' = l_selectors s" "l_cancelled s' = l_cancelled s"
      "l_panic s' = l_panic s"
      "ts = [] \<and> l_redirects s' \<in> {l_redirects s - 1, l_redirects s} \<or>
       (\<exists>t. ts = [t] \<and> rs_TestHelpers t = [] \<and> l_redirects s' = l_redirects s - 1 \<and> 0 < l_redirects s)" by blast
  show ?thesis using tasks view(5) by (auto simp: lte_measure_def lte_less_def view(1-4))
qed

lemma lte_less_step:
  assumes "lte_act env a s = Some s'" and "red_inv s"
  shows "(lte_measure s', lte_measure s) \<in> lte_less"
proof (cases "is_round a")
  case True
  then show ?thesis using assms measure_round by (cases a) simp_all
next
  case False
  have red: "l_redirects s' = l_redirects s" using frames_not_round [OF assms(1) False] by simp
  consider "resolver_action a" | "control_action a" | "selector_action a" | "\<not> resolver_action a" "\<not> control_action a" "\<not> selector_action a" by blast
  then show ?thesis
  proof cases
    case 1
    then show ?thesis using measure_resolvers [OF assms(1)] red by (simp add: lte_measure_eq lte_less_def)
  next
    case 2
    then show ?thesis using measure_control [OF assms(1)] red by (auto simp: lte_measure_eq lte_less_def)
  next
    case 3
    have "task_sum w_resolvers (l_tasks s') = task_sum w_resolvers (l_tasks s) \<and> task_sum w_control (l_tasks s') = task_sum w_control (l_tasks s) \<and>
      w_last s' < w_last s"
      using 3 False assms(1) measure_send measure_expire measure_cancelled by (cases a) (auto split: if_splits)
    then show ?thesis using red by (simp add: lte_measure_eq lte_less_def)
  next
    case 4
    then show ?thesis using measure_flow [OF assms(1)] red by (simp add: lte_measure_eq lte_less_def)
  qed
qed

lemma no_infinite_run:
  assumes "lte_initial u ths (g 0)" and "\<And>k. lte_step env (g k) (g (Suc k))"
  shows False
proof -
  have "red_inv (g k)" for k
    by (induction k) (use assms initial_red_inv red_inv_step lte_step_def in blast)+
  then have "(lte_measure (g (Suc k)), lte_measure (g k)) \<in> lte_less" for k
    using assms(2) lte_less_step unfolding lte_step_def by blast
  then have "\<exists>f. \<forall>i. (f (Suc i), f i) \<in> lte_less" by (intro exI [of _ "\<lambda>k. lte_measure (g k)"]) simp
  then show False using wf_lte_less unfolding wf_iff_no_infinite_down_chain by simp
qed

end
