(* ===== verification/LteSafety.thy ===== *)
theory LteSafety
  imports LteRuns
begin

text \<open>
  What every goroutine of a measurement keeps (theory \<open>LteEngine\<close>): the addresses it connects to, the transaction identifiers it writes, the control
  request; and what follows for a whole measurement, from its input to the analysis of its test keys.
\<close>

section \<open>What every goroutine keeps\<close>

definition allowed :: "flow \<Rightarrow> bool" where
  "allowed f \<longleftrightarrow> allowedToConnect (fl_Address f) = None"

fun flow_ok :: "flow \<Rightarrow> int \<Rightarrow> flow_stage \<Rightarrow> bool" where
  "flow_ok f index FStart = True"
| "flow_ok f index FConnect = allowed f"
| "flow_ok f index (FHandshake tx q) = (allowed f \<and> trace_index tx = index \<and> trace_tlsHandshake tx = [])"
| "flow_ok f index (FAsk tx q alpn) = (allowed f \<and> trace_index tx = index)"
| "flow_ok f index (FWait tx q alpn v) = (allowed f \<and> trace_index tx = index)"
| "flow_ok f index (FFetch tx q alpn) = (allowed f \<and> trace_index tx = index)"
| "flow_ok f index (FRound tx q alpn req started) = (allowed f \<and> trace_index tx = index)"

definition control_ok :: "URL \<Rightarrow> Control_task \<Rightarrow> bool" where
  "control_ok u c \<longleftrightarrow> rs_TestHelpers (co_starter c) \<noteq> [] \<and> rs_URL (co_starter c) = u"

definition resolvers_ok :: "URL \<Rightarrow> DNSResolvers \<Rightarrow> bool" where
  "resolvers_ok u t \<longleftrightarrow> (rs_TestHelpers t \<noteq> [] \<longrightarrow> rs_URL t = u)"

fun start_ok :: "URL \<Rightarrow> start \<Rightarrow> bool" where
  "start_ok u (StartFlow f) = True"
| "start_ok u (StartControl c) = control_ok u c"

fun task_ok :: "URL \<Rightarrow> task \<Rightarrow> bool" where
  "task_ok u (TResolvers t) = resolvers_ok u t"
| "task_ok u (TLookup t v) = resolvers_ok u t"
| "task_ok u (TStart xs) = (xs \<noteq> [] \<and> list_all (start_ok u) xs)"
| "task_ok u (TFlow f index stage) = flow_ok f index stage"
| "task_ok u (TControl c sent) = control_ok u c"
| "task_ok u _ = True"

definition collects :: "prioritySelector \<times> selector_stage \<Rightarrow> bool" where
  "collects x \<longleftrightarrow> snd x \<noteq> SelCollect []"

definition tk_ok :: "URL \<Rightarrow> TestKeys \<Rightarrow> bool" where
  "tk_ok u tk \<longleftrightarrow> list_all (\<lambda>ev. \<not> IsLoopback (tcp_IP ev)) (lte_TCPConnect tk) \<and>
     (\<forall>req. lte_ControlRequest tk = Some req \<longrightarrow> thr_HTTPRequest req = url_String u)"

definition task_inv :: "URL \<Rightarrow> lte_state \<Rightarrow> bool" where
  "task_inv u s \<longleftrightarrow> list_all (task_ok u) (l_tasks s) \<and> list_all collects (l_selectors s) \<and> tk_ok u (l_tk s) \<and> \<not> l_panic s"

lemma mk_start_ok [simp]: "task_ok u (mk_start xs) \<longleftrightarrow> list_all (start_ok u) xs"
  by (simp add: mk_start_def)

lemma start_flows_ok [simp]: "list_all (start_ok u) (map StartFlow fs)"
  by (induction fs) simp_all

lemma control_of_ok: "resolvers_ok u t \<Longrightarrow> list_all (start_ok u) (map StartControl (control_of t ps addresses))"
  by (simp add: control_of_def control_ok_def resolvers_ok_def)

lemma trace_call_index [simp]: "trace_index (trace_call_apply raw env c tx) = trace_index tx"
  using trace_call_same [of tx raw env c] by (simp add: same_trace_def)

lemma io_index [simp]: "trace_index (fst (io_apply env x txq)) = trace_index (fst txq)"
  by (cases x; cases txq) simp_all

lemma fold_io_index [simp]: "trace_index (fst (fold (io_apply env) ios txq)) = trace_index (fst txq)"
  by (induction ios arbitrary: txq) simp_all

lemma samples_index [simp]: "trace_index (fst (samples env ts txq)) = trace_index (fst txq)"
  by (simp add: samples_def)

lemma trace_index_simps [simp]:
  "trace_index (NewTrace index z tags) = index" "trace_index (emit_event ev tx) = trace_index tx"
  "trace_index (OnConnectDone t0 network addr err t tx) = trace_index tx" "trace_index (OnTLSHandshakeStart now addr tx) = trace_index tx"
  "trace_index (OnTLSHandshakeDone raw t0 addr config state err t tx) = trace_index tx"
  by (simp_all add: NewTrace_def emit_event_def OnConnectDone_def OnTLSHandshakeStart_def OnTLSHandshakeDone_def)

lemma io_handshakes: "io_ok x \<Longrightarrow> trace_tlsHandshake (fst (io_apply env x txq)) = trace_tlsHandshake (fst txq)"
  by (cases txq; cases x rule: io_ok.cases) (auto simp: conn_Read_def conn_Write_def)

lemma fold_io_handshakes:
  "list_all io_ok ios \<Longrightarrow> trace_tlsHandshake (fst (fold (io_apply env) ios txq)) = trace_tlsHandshake (fst txq)"
  by (induction ios arbitrary: txq) (simp_all add: io_handshakes)

lemma fold_io_pair:
  "fold (io_apply env) ios txq = (tx, q) \<Longrightarrow>
     trace_index tx = trace_index (fst txq) \<and> (list_all io_ok ios \<longrightarrow> trace_tlsHandshake tx = trace_tlsHandshake (fst txq))"
  using fold_io_index [of env ios txq] fold_io_handshakes [of ios env txq] by auto

lemma connect_entries [simp]:
  "trace_tcpConnect (OnConnectDone t0 ''tcp'' addr err t (NewTrace index z tags)) =
     [NewArchivalTCPConnectResult index (time_Sub t0 z) addr err (time_Sub t z) tags]"
  "trace_tlsHandshake (OnConnectDone t0 ''tcp'' addr err t (NewTrace index z tags)) = []"
  by (simp_all add: OnConnectDone_def try_send_def TCPConnectBufferSize_def NewTrace_def since_zero_def)

lemma handshake_entries:
  "trace_tlsHandshake tx = [] \<Longrightarrow> trace_tlsHandshake (OnTLSHandshakeDone raw t0 addr config state err t tx) =
     [NewArchivalTLSOrQUICHandshakeResult raw (trace_index tx) (since_zero tx t0) ''tcp'' addr config state err (since_zero tx t) (trace_tags tx)]"
  by (simp add: OnTLSHandshakeDone_def try_send_def TLSHandshakeBufferSize_def)

lemma handshake_start_entries [simp]: "trace_tlsHandshake (OnTLSHandshakeStart now addr tx) = trace_tlsHandshake tx"
  by (simp add: OnTLSHandshakeStart_def)

lemma allowed_not_loopback: "allowed f \<Longrightarrow> \<not> IsLoopback (tcp_IP (NewArchivalTCPConnectResult index t0 (fl_Address f) err t tags))"
  by (auto simp: allowed_def allowedToConnect_def NewArchivalTCPConnectResult_def archivalSplitHostPort_def split: sum.splits if_splits)

lemma allowed_splits: "allowed f \<Longrightarrow> \<exists>h p. SplitHostPort (fl_Address f) = Inr (h, p)"
  by (auto simp: allowed_def allowedToConnect_def split: sum.splits)

lemma tk_ok_frames [simp]:
  "tk_ok u (AppendNetworkEvents v tk) = tk_ok u tk" "tk_ok u (AppendDNSLateReplies d tk) = tk_ok u tk" "tk_ok u (AppendQueries d tk) = tk_ok u tk"
  "tk_ok u (WithTestKeysDoH g tk) = tk_ok u tk" "tk_ok u (WithTestKeysDo53 h tk) = tk_ok u tk" "tk_ok u (WithDNSWhoami w tk) = tk_ok u tk"
  "tk_ok u (ps_log env now msg tk) = tk_ok u tk" "tk_ok u (SetFundamentalFailure e tk) = tk_ok u tk" "tk_ok u (setTestHelper th tk) = tk_ok u tk"
  "tk_ok u (SetControl cr tk) = tk_ok u tk" "tk_ok u (AppendTLSHandshakes t tk) = tk_ok u tk" "tk_ok u (PrependRequests r tk) = tk_ok u tk"
  by (simp_all add: tk_ok_def)

lemma tk_ok_connects [simp]:
  "tk_ok u (AppendTCPConnectResults c tk) \<longleftrightarrow> tk_ok u tk \<and> list_all (\<lambda>ev. \<not> IsLoopback (tcp_IP ev)) c"
  by (auto simp: tk_ok_def)

lemma flow_exit_tk_ok [simp]: "tk_ok u (l_tk (flow_exit i now txq s)) = tk_ok u (l_tk s)"
  by (simp add: tk_ok_def)

lemma control_call_total:
  assumes "control_ok u c" and "helper_result (rs_TestHelpers (co_starter c)) result"
  shows "CallWebConnectivityTestHelper (\<lambda>_. result) (rs_TestHelpers (co_starter c)) \<noteq> None"
proof -
  let ?ths = "rs_TestHelpers (co_starter c)" and ?n = "length (NewEndpointFromModelOOAPIServices (rs_TestHelpers (co_starter c)))"
  obtain outcome k v where run: "ov_run outcome ?n k v" "ov_done ?n v" "\<forall>i c. \<not> outcome i c (Inr None)" "result = OverlappedReduce (ov_results v)"
    using assms(2) unfolding helper_result_def by blast
  have n: "?n \<le> length ?ths" by (simp add: service_endpoints_filter)
  show ?thesis
  proof (cases result)
    case (Inr r)
    then obtain cresp idx where r: "result = Inr (cresp, idx)" by (cases r) auto
    then have ok: "idx < ?n" "\<exists>c. outcome idx c (Inr cresp)" using overlapped_success [OF run(1,2)] run(4) by auto
    then have "cresp \<noteq> None" using run(3) by metis
    then show ?thesis using ok(1) n r by (auto simp: CallWebConnectivityTestHelper_def)
  qed (simp add: CallWebConnectivityTestHelper_def)
qed

lemma task_inv_resolvers:
  assumes "lte_act env a s = Some s'" and "resolver_action a" and "task_inv u s"
  shows "task_inv u s'"
  using assms
  by (cases a; auto simp: act_defs task_inv_def fan_out_def Let_def control_of_ok collects_def elim!: on_task_SomeE
      split: option.splits prod.splits task.splits lookup_stage.splits if_splits)

lemma control_failure_total:
  "(Option.bind (NewTopLevelGenericErrWrapper (Some err)) (\<lambda>err. SetControlFailure (Some err) tk) = None) \<longleftrightarrow> False"
proof -
  obtain e where e: "NewTopLevelGenericErrWrapper (Some err) = Some e"
    unfolding NewTopLevelGenericErrWrapper_def by (simp add: wrap_error_eq)
  have "NewFailure (Some e) = tracex_NewFailure (Some e)" using new_failure_total by blast
  moreover have "\<exists>f. NewFailure (Some e) = Some (Some f)" using new_failure_total [of "Some e"] unfolding option.case by blast
  ultimately obtain f where "tracex_NewFailure (Some e) = Some (Some f)" by metis
  then show ?thesis by (simp add: e SetControlFailure_def)
qed

lemma task_inv_control:
  assumes act: "lte_act env a s = Some s'" and "control_action a" and "action_possible s a" and inv: "task_inv u s"
  shows "task_inv u s'"
proof (cases a)
  case (AControl i result ord)
  with act obtain us c vs where tasks: "l_tasks s = us @ TControl c True # vs" "length us = i" "act_control i c result ord s = Some s'"
    by (auto elim!: on_task_SomeE split: task.splits if_splits)
  have c: "control_ok u c" using inv tasks by (simp add: task_inv_def)
  moreover have "helper_result (rs_TestHelpers (co_starter c)) result" using assms(3) AControl tasks(1,2) by auto
  ultimately have call: "CallWebConnectivityTestHelper (\<lambda>_. result) (rs_TestHelpers (co_starter c)) \<noteq> None" by (rule control_call_total)
  show ?thesis using tasks call inv
    by (auto simp: control_failure_total act_control_def task_inv_def tk_ok_def Let_def split: option.splits sum.splits prod.splits if_splits dest!: control_failure_frames)
qed (use assms in \<open>auto simp: act_defs task_inv_def tk_ok_def control_ok_def control_request_def Let_def elim!: on_task_SomeE
      split: option.splits prod.splits task.splits list.splits start.splits sum.splits if_splits\<close>)

lemma task_inv_flow:
  assumes "lte_act env a s = Some s'" and "\<not> resolver_action a" and "\<not> control_action a" and "\<not> selector_action a" and "task_inv u s"
  shows "task_inv u s'"
  using assms
  by (cases a; auto simp: act_defs task_inv_def Let_def allowed_def [symmetric] TCPConnects_def TLSHandshakes_def allowed_not_loopback
      elim!: on_task_SomeE dest!: fold_io_pair
      split: option.splits prod.splits task.splits flow_stage.splits sum.splits if_splits)

lemma list_all_update: "list_all P xs \<Longrightarrow> P x \<Longrightarrow> list_all P (xs[i := x])"
  using set_update_subset_insert [of xs i x] by (auto simp: list_all_iff)

lemma reply_ok: "list_all (task_ok u) (l_tasks s) \<Longrightarrow> list_all (task_ok u) (l_tasks (reply r v s))"
proof (cases "waiting (l_tasks s ! pr_task r) \<and> pr_task r < length (l_tasks s)")
  case True
  assume ok: "list_all (task_ok u) (l_tasks s)"
  from True obtain f index tx q alpn where old: "l_tasks s ! pr_task r = TFlow f index (FWait tx q alpn None)" by (auto simp: waiting_def)
  moreover have "task_ok u (l_tasks s ! pr_task r)" using ok True by (simp add: list_all_length)
  ultimately show ?thesis using ok by (simp add: reply_def list_all_update)
next
  case False
  assume "list_all (task_ok u) (l_tasks s)"
  then show ?thesis using False by (auto simp: reply_def waiting_def list_update_beyond split: task.split flow_stage.split option.split)
qed

lemma fold_reply_ok: "list_all (task_ok u) (l_tasks s) \<Longrightarrow> list_all (task_ok u) (l_tasks (fold (\<lambda>r. reply r v) rs s))"
  by (induction rs arbitrary: s) (simp_all add: reply_ok)

lemma collects_update: "list_all collects sels \<Longrightarrow> st \<noteq> SelCollect [] \<Longrightarrow> list_all collects (sels[j := (p, st)])"
  by (rule list_all_update) (simp_all add: collects_def)

lemma task_inv_send:
  assumes "lte_act env (ASend i ts) s = Some s'" and inv: "task_inv u s"
  shows "task_inv u s'"
proof -
  obtain us vs f index tx q alpn j where
    parts: "l_tasks s = us @ TFlow f index (FAsk tx q alpn) # vs" "length us = i" "act_send i j f index (samples env ts (tx, q)) alpn s = Some s'"
    using assms(1) by (auto elim!: on_task_SomeE split: act_splits)
  have ok: "allowed f" "trace_index tx = index" using inv parts by (simp_all add: task_inv_def)
  then obtain h p where split: "SplitHostPort (fl_Address f) = Inr (h, p)" using allowed_splits by blast
  let ?s = "set_task i (TFlow f index (FWait (fst (samples env ts (tx, q))) (snd (samples env ts (tx, q))) alpn None)) s"
  have "list_all (task_ok u) (l_tasks ?s)" using inv parts(1,2) ok by (auto simp: task_inv_def)
  then show ?thesis using parts(3) split inv ok
    by (auto simp: act_send_def task_inv_def Let_def reply_ok intro!: collects_update split: if_splits prod.splits selector_stage.splits)
qed

lemma task_inv_expire:
  assumes act: "act_expire j s = Some s'" and inv: "task_inv u s"
  shows "task_inv u s'"
proof -
  have j: "j < length (l_selectors s)" using act by (auto simp: act_expire_def split: if_splits)
  then obtain ps rs where sel: "l_selectors s ! j = (ps, SelCollect rs)" using act by (auto simp: act_expire_def split: prod.splits selector_stage.splits)
  then have "rs \<noteq> []" using inv j by (auto simp: task_inv_def list_all_length collects_def)
  then obtain high where "findHighestPriority ps rs = Some high" by (auto simp: findHighestPriority_def)
  then show ?thesis using act inv j sel by (auto simp: act_expire_def task_inv_def reply_ok fold_reply_ok intro!: collects_update)
qed

lemma task_inv_cancelled:
  assumes "act_selector_cancelled j s = Some s'" and "task_inv u s"
  shows "task_inv u s'"
  using assms by (auto simp: act_selector_cancelled_def task_inv_def intro!: collects_update split: if_splits)

lemma task_inv_round:
  assumes act: "lte_act env (ARound i ios rt finished now) s = Some s'" and red: "red_inv s" and inv: "task_inv u s"
  shows "task_inv u s'"
proof -
  from act obtain us f index tx q alpn req started vs where
    tasks: "l_tasks s = us @ TFlow f index (FRound tx q alpn req started) # vs" "length us = i"
    and s': "s' = act_round env i f (tx, q) alpn req started ios rt finished now s" by (rule round_roundE)
  then have i: "i < length (l_tasks s)" by simp
  from act_round_view [OF red_inv_bounds(1,2) [OF red] i s'] obtain ts where
    view: "l_tasks s' = (l_tasks s)[i := TDone] @ map TResolvers ts" "l_selectors s' = l_selectors s" "l_panic s' = l_panic s"
      "lte_TCPConnect (l_tk s') = lte_TCPConnect (l_tk s)" "lte_ControlRequest (l_tk s') = lte_ControlRequest (l_tk s)"
      "ts = [] \<or> (\<exists>t. ts = [t] \<and> rs_TestHelpers t = [])" by blast
  show ?thesis using inv tasks view(6) by (auto simp: task_inv_def tk_ok_def view(1-5) resolvers_ok_def)
qed

lemma task_inv_step:
  assumes act: "lte_act env a s = Some s'" and "action_possible s a" and red: "red_inv s" and inv: "task_inv u s"
  shows "task_inv u s'"
proof -
  consider "resolver_action a" | "control_action a" | "selector_action a" | "\<not> resolver_action a" "\<not> control_action a" "\<not> selector_action a" by blast
  then show ?thesis
  proof cases
    case 3
    then show ?thesis using act red inv task_inv_send task_inv_expire task_inv_cancelled task_inv_round by (cases a) (auto split: if_splits)
  qed (use assms task_inv_resolvers task_inv_control task_inv_flow in blast)+
qed

section \<open>Transaction identifiers\<close>

fun w_ids :: "task \<Rightarrow> int multiset" where
  "w_ids (TFlow f index stage) = {#index#}"
| "w_ids _ = {#}"

definition failed_ids :: "TestKeys \<Rightarrow> int multiset" where
  "failed_ids tk = mset (map tls_TransactionID (filter (\<lambda>ev. tls_Failure ev \<noteq> None) (lte_TLSHandshakes tk)))"

definition request_ids :: "TestKeys \<Rightarrow> int multiset" where
  "request_ids tk = mset (map http_TransactionID (lte_Requests tk))"

text \<open>The identifiers of the flows that run, of the failed handshakes and of the requests.\<close>

definition all_ids :: "lte_state \<Rightarrow> int multiset" where
  "all_ids s = task_sum w_ids (l_tasks s) + (failed_ids (l_tk s) + request_ids (l_tk s))"

lemma w_ids_start [simp]: "w_ids (mk_start xs) = {#}"
  by (simp add: mk_start_def)

lemma ids_frames [simp]:
  "failed_ids (AppendNetworkEvents v tk) = failed_ids tk" "failed_ids (AppendDNSLateReplies d tk) = failed_ids tk"
  "failed_ids (AppendQueries d tk) = failed_ids tk" "failed_ids (WithTestKeysDoH g tk) = failed_ids tk"
  "failed_ids (WithTestKeysDo53 h tk) = failed_ids tk" "failed_ids (WithDNSWhoami w tk) = failed_ids tk"
  "failed_ids (ps_log env now msg tk) = failed_ids tk" "failed_ids (SetFundamentalFailure e tk) = failed_ids tk"
  "failed_ids (setTestHelper th tk) = failed_ids tk" "failed_ids (SetControl cr tk) = failed_ids tk"
  "failed_ids (SetControlRequest rq tk) = failed_ids tk" "failed_ids (AppendTCPConnectResults c tk) = failed_ids tk"
  "failed_ids (AppendTLSHandshakes t tk) = failed_ids tk + mset (map tls_TransactionID (filter (\<lambda>ev. tls_Failure ev \<noteq> None) t))"
  "request_ids (AppendNetworkEvents v tk) = request_ids tk" "request_ids (AppendDNSLateReplies d tk) = request_ids tk"
  "request_ids (AppendQueries d tk) = request_ids tk" "request_ids (WithTestKeysDoH g tk) = request_ids tk"
  "request_ids (WithTestKeysDo53 h tk) = request_ids tk" "request_ids (WithDNSWhoami w tk) = request_ids tk"
  "request_ids (ps_log env now msg tk) = request_ids tk" "request_ids (SetFundamentalFailure e tk) = request_ids tk"
  "request_ids (setTestHelper th tk) = request_ids tk" "request_ids (SetControl cr tk) = request_ids tk"
  "request_ids (SetControlRequest rq tk) = request_ids tk" "request_ids (AppendTCPConnectResults c tk) = request_ids tk"
  "request_ids (AppendTLSHandshakes t tk) = request_ids tk"
  "failed_ids (l_tk (flow_exit i now txq s)) = failed_ids (l_tk s)" "request_ids (l_tk (flow_exit i now txq s)) = request_ids (l_tk s)"
  by (simp_all add: failed_ids_def request_ids_def)

lemma failure_value_None [simp]: "failure_value None = None"
  by (simp add: failure_value_def NewFailure_def)

definition counters :: "lte_state \<Rightarrow> int \<times> int" where
  "counters s = (idg_endpointCleartext (l_ids s), idg_endpointSecure (l_ids s))"

lemma ids_resolvers:
  assumes "lte_act env a s = Some s'" and "resolver_action a"
  shows "all_ids s' = all_ids s \<and> counters s' = counters s \<and> length (l_tasks s) \<le> length (l_tasks s')"
  using assms
  by (cases a; auto simp: act_defs all_ids_def counters_def fan_out_def Let_def NewIDForGetaddrinfo_def NewIDForDNSOverUDP_def
      NewIDForDNSOverHTTPS_def elim!: on_task_SomeE split: option.splits prod.splits task.splits lookup_stage.splits if_splits)

fun is_start :: "lte_action \<Rightarrow> bool" where
  "is_start (AStart i) = True"
| "is_start _ = False"

lemma control_failure_ids:
  "Option.bind (NewTopLevelGenericErrWrapper (Some err)) (\<lambda>err. SetControlFailure (Some err) tk) = Some tk' \<Longrightarrow>
     failed_ids tk' = failed_ids tk \<and> request_ids tk' = request_ids tk"
  by (drule control_failure_frames) (simp add: failed_ids_def request_ids_def)

lemma ids_control:
  assumes "lte_act env a s = Some s'" and "control_action a" and "\<not> is_start a"
  shows "all_ids s' = all_ids s \<and> counters s' = counters s \<and> length (l_tasks s) \<le> length (l_tasks s')"
  using assms
  by (cases a; auto simp: act_defs all_ids_def counters_def Let_def elim!: on_task_SomeE
      split: option.splits prod.splits task.splits sum.splits if_splits dest!: control_failure_ids)

lemma ids_flow:
  assumes "lte_act env a s = Some s'" and "\<not> resolver_action a" and "\<not> control_action a" and "\<not> selector_action a" and "task_inv u s"
  shows "all_ids s' \<subseteq># all_ids s \<and> counters s' = counters s \<and> length (l_tasks s) \<le> length (l_tasks s')"
  using assms
  by (cases a; auto simp: act_defs all_ids_def counters_def task_inv_def Let_def TCPConnects_def TLSHandshakes_def handshake_entries
      NewArchivalTLSOrQUICHandshakeResult_def elim!: on_task_SomeE dest!: fold_io_pair
      split: option.splits prod.splits task.splits flow_stage.splits sum.splits if_splits)

lemma reply_ids [simp]:
  "task_sum w_ids (l_tasks (reply r v s)) = task_sum w_ids (l_tasks s)"
  "task_sum w_ids (l_tasks (fold (\<lambda>r. reply r v) rs s)) = task_sum w_ids (l_tasks s)"
  by (rule task_sum_reply task_sum_fold_reply; simp)+

lemma ids_selector:
  assumes "lte_act env a s = Some s'" and "selector_action a" and "\<not> is_round a"
  shows "all_ids s' = all_ids s \<and> counters s' = counters s \<and> length (l_tasks s) \<le> length (l_tasks s')"
  using assms
  by (cases a; auto simp: act_send_def act_expire_def act_selector_cancelled_def all_ids_def counters_def Let_def elim!: on_task_SomeE
      split: option.splits prod.splits task.splits flow_stage.splits sum.splits selector_stage.splits if_splits)

lemma ids_round:
  assumes act: "lte_act env (ARound i ios rt finished now) s = Some s'" and red: "red_inv s" and inv: "task_inv u s"
  shows "all_ids s' \<subseteq># all_ids s \<and> counters s' = counters s \<and> length (l_tasks s) \<le> length (l_tasks s')"
proof -
  from act obtain us f index tx q alpn req started vs where
    tasks: "l_tasks s = us @ TFlow f index (FRound tx q alpn req started) # vs" "length us = i"
    and s': "s' = act_round env i f (tx, q) alpn req started ios rt finished now s" by (rule round_roundE)
  then have i: "i < length (l_tasks s)" by simp
  have index: "trace_index tx = index" using inv tasks by (simp add: task_inv_def)
  from act_round_view [OF red_inv_bounds(1,2) [OF red] i s'] obtain ev ts where
    view: "l_tasks s' = (l_tasks s)[i := TDone] @ map TResolvers ts" "l_ids s' = l_ids s"
      "lte_Requests (l_tk s') = ev # lte_Requests (l_tk s)" "http_TransactionID ev = trace_index tx"
      "lte_TLSHandshakes (l_tk s') = lte_TLSHandshakes (l_tk s)" by fastforce
  have "task_sum w_ids (map TResolvers ts) = {#}" by (induction ts) simp_all
  then show ?thesis using tasks index by (auto simp: all_ids_def counters_def failed_ids_def request_ids_def view)
qed

lemma ids_start:
  assumes "lte_act env (AStart i) s = Some s'"
  shows "length (l_tasks s') = Suc (length (l_tasks s)) \<and>
    (all_ids s' = all_ids s \<and> counters s' = counters s \<or>
     all_ids s' = add_mset (wrap64 (wrap64 (snd (counters s) + 1) + 50000)) (all_ids s) \<and> counters s' = (fst (counters s), wrap64 (snd (counters s) + 1)) \<or>
     all_ids s' = add_mset (wrap64 (wrap64 (fst (counters s) + 1) + 40000)) (all_ids s) \<and> counters s' = (wrap64 (fst (counters s) + 1), snd (counters s)))"
  using assms
  by (auto simp: act_start_def all_ids_def counters_def Let_def NewIDForEndpointSecure_def NewIDForEndpointCleartext_def
      idGeneratorEndpointCleartextOffset_def idGeneratorEndpointSecureOffset_def elim!: on_task_SomeE
      split: task.splits list.splits start.splits prod.splits if_splits)

definition id_range :: "int \<times> int \<Rightarrow> int set" where
  "id_range ce = {40000<..40000 + fst ce} \<union> {50000<..50000 + snd ce}"

definition id_inv :: "lte_state \<Rightarrow> bool" where
  "id_inv s \<longleftrightarrow> (length (l_tasks s) \<le> 10000 \<longrightarrow>
     0 \<le> fst (counters s) \<and> 0 \<le> snd (counters s) \<and> fst (counters s) + snd (counters s) < int (length (l_tasks s)) \<and>
     set_mset (all_ids s) \<subseteq> id_range (counters s) \<and> (\<forall>x. count (all_ids s) x \<le> 1))"

lemma id_inv_mono:
  assumes "all_ids s' \<subseteq># all_ids s \<and> counters s' = counters s \<and> length (l_tasks s) \<le> length (l_tasks s')" and "id_inv s"
  shows "id_inv s'"
proof -
  have "set_mset (all_ids s') \<subseteq> set_mset (all_ids s)" "count (all_ids s') x \<le> count (all_ids s) x" for x
    using assms(1) by (simp_all add: set_mset_mono mset_subset_eq_count)
  moreover have "counters s' = counters s" "length (l_tasks s) \<le> length (l_tasks s')" using assms(1) by simp_all
  ultimately show ?thesis using assms(2) unfolding id_inv_def by (fastforce intro: le_trans)
qed

lemma id_inv_start:
  assumes act: "lte_act env (AStart i) s = Some s'" and inv: "id_inv s"
  shows "id_inv s'"
proof (cases "length (l_tasks s') \<le> 10000")
  case False
  then show ?thesis by (simp add: id_inv_def)
next
  case True
  obtain c e where ce: "counters s = (c, e)" by fastforce
  have len: "length (l_tasks s') = Suc (length (l_tasks s))" using ids_start [OF act] by auto
  then have old: "0 \<le> c" "0 \<le> e" "c + e < int (length (l_tasks s))" "set_mset (all_ids s) \<subseteq> id_range (c, e)" "\<forall>x. count (all_ids s) x \<le> 1"
    using inv True by (auto simp: id_inv_def ce)
  have wrap: "wrap64 (c + 1) = c + 1" "wrap64 (e + 1) = e + 1" "wrap64 (c + 1 + 40000) = c + 1 + 40000" "wrap64 (e + 1 + 50000) = e + 1 + 50000"
    using old(1-3) True len by (auto intro!: wrap64_id simp: in_int64_def)
  have fresh: "count (all_ids s) (c + 1 + 40000) = 0" "count (all_ids s) (e + 1 + 50000) = 0"
    using old True len by (auto simp: id_range_def not_in_iff [symmetric] dest!: subsetD)
  from ids_start [OF act, unfolded ce fst_conv snd_conv wrap]
  consider "all_ids s' = all_ids s" "counters s' = (c, e)"
    | "all_ids s' = add_mset (e + 1 + 50000) (all_ids s)" "counters s' = (c, e + 1)"
    | "all_ids s' = add_mset (c + 1 + 40000) (all_ids s)" "counters s' = (c + 1, e)" by auto
  then show ?thesis using old fresh len True by cases (auto simp: id_inv_def id_range_def)
qed

lemma id_inv_step:
  assumes act: "lte_act env a s = Some s'" and red: "red_inv s" and inv: "task_inv u s" and ids: "id_inv s"
  shows "id_inv s'"
proof -
  consider "is_round a" | "is_start a" | "resolver_action a" | "control_action a" "\<not> is_start a" | "selector_action a" "\<not> is_round a"
    | "\<not> resolver_action a" "\<not> control_action a" "\<not> selector_action a" by blast
  then show ?thesis
  proof cases
    case 1
    then show ?thesis using act red inv ids ids_round id_inv_mono by (cases a) (simp_all, blast)
  next
    case 2
    then show ?thesis using act ids id_inv_start by (cases a) simp_all
  next
    case 6
    then show ?thesis using act inv ids ids_flow id_inv_mono by blast
  qed (use act ids ids_resolvers ids_control ids_selector id_inv_mono subset_mset.order_refl in metis)+
qed

lemma runs_inv:
  assumes "lte_initial u ths s0" and "lte_runs env s0 s"
  shows "red_inv s" "task_inv u s" "id_inv s"
proof -
  have "red_inv s0 \<and> task_inv u s0 \<and> id_inv s0"
    using assms(1) initial_red_inv
    by (auto simp: lte_initial_def task_inv_def tk_ok_def resolvers_ok_def id_inv_def all_ids_def failed_ids_def request_ids_def counters_def
        NewIDGenerator_def)
  then have "red_inv s \<and> task_inv u s \<and> id_inv s"
    using runs_invariant [of env s0 s "\<lambda>s. red_inv s \<and> task_inv u s \<and> id_inv s", OF assms(2)] red_inv_step task_inv_step id_inv_step by blast
  then show "red_inv s" "task_inv u s" "id_inv s" by auto
qed

section \<open>Progress\<close>

lemma on_task_nth: "i < length (l_tasks s) \<Longrightarrow> \<not> l_panic s \<Longrightarrow> on_task s i f = f (l_tasks s ! i)"
  by (simp add: on_task.simps)

text \<open>All test helpers may fail.\<close>

lemma failing_helpers: "\<exists>err. helper_result ths (Inl err)"
proof -
  let ?n = "length (NewEndpointFromModelOOAPIServices ths)"
  let ?out = "\<lambda>(i::nat) (c::bool) (r :: go_error + THResponse option). r = Inl ErrTruncated"
  obtain k v where run: "ov_run ?out ?n k v" "ov_done ?n v" using overlapped_completes [of ?out ?n] by blast
  have "\<not> ov_success r" if "r \<in> set (ov_results v)" for r
    using ov_run_outcomes [OF run(1) that] by (auto simp: ov_success_def)
  then have "filter ov_success (ov_results v) = []" by (simp add: filter_empty_conv)
  then obtain err where "OverlappedReduce (ov_results v) = Inl err" by (simp add: overlapped_reduce_spec)
  then show ?thesis unfolding helper_result_def using run by (intro exI [of _ err] exI [of _ ?out] exI [of _ k] exI [of _ v]) simp
qed

lemma control_progress:
  assumes i: "i < length (l_tasks s)" "\<not> l_panic s" and task: "l_tasks s ! i = TControl c sent"
  shows "\<exists>s'. lte_step env s s'"
proof (cases sent)
  case False
  then have "lte_act env (AControlRequest i) s = Some (act_control_request i c s)" using i task by (simp add: on_task_nth)
  then show ?thesis unfolding lte_step_def by (intro exI [of _ "act_control_request i c s"] exI [of _ "AControlRequest i"]) simp
next
  case True
  obtain err where err: "helper_result (rs_TestHelpers (co_starter c)) (Inl err)" using failing_helpers by blast
  have "\<exists>s'. lte_act env (AControl i (Inl err) []) s = Some s'" using i task True control_failure_total
    by (auto simp: on_task_nth act_control_def CallWebConnectivityTestHelper_def Let_def split: option.splits)
  then obtain s' where "lte_act env (AControl i (Inl err) []) s = Some s'" by blast
  then show ?thesis unfolding lte_step_def using task err
    by (intro exI [of _ s'] exI [of _ "AControl i (Inl err) []"]) (simp del: lte_act.simps)
qed

lemma lookup_progress:
  assumes i: "i < length (l_tasks s)" "\<not> l_panic s" and task: "l_tasks s ! i = TLookup t v"
  shows "\<exists>a s'. action_possible s a \<and> lte_act env a s = Some s'"
proof -
  note simps = i task on_task_nth
  consider "rv_system v = LIdle" | index where "rv_system v = LRun index" | "rv_udp v = LIdle" | index where "rv_udp v = LRun index"
    | "rv_https v = LIdle" | index where "rv_https v = LRun index" | "rv_whoamiSystemV4 v = None" | "rv_whoamiUDPv4 v = None"
    | sys udp https w1 w2 where "rv_system v = LDone sys" "rv_udp v = LDone udp" "rv_https v = LDone https" "rv_whoamiSystemV4 v = Some w1"
        "rv_whoamiUDPv4 v = Some w2"
    by (metis lookup_stage.exhaust option.exhaust)
  then show ?thesis
  proof cases
    case 1
    then show ?thesis by (intro exI [of _ "ASystemStart i"]) (simp add: simps)
  next
    case 2
    then show ?thesis by (intro exI [of _ "ASystemDone i [] []"]) (simp add: simps)
  next
    case 3
    then show ?thesis by (intro exI [of _ "AUDPStart i"]) (simp add: simps)
  next
    case 4
    then show ?thesis by (intro exI [of _ "AUDPDone i [] []"]) (simp add: simps)
  next
    case 5
    then show ?thesis by (intro exI [of _ "AHTTPSStart i 0 id 0"]) (simp add: simps)
  next
    case 6
    then show ?thesis by (intro exI [of _ "AHTTPSDone i [] []"]) (simp add: simps)
  next
    case 7
    then show ?thesis by (intro exI [of _ "AWhoamiSystem i 0 (Inr [])"]) (simp add: simps)
  next
    case 8
    then show ?thesis by (intro exI [of _ "AWhoamiUDP i 0 (Inr [])"]) (simp add: simps)
  next
    case 9
    then show ?thesis by (intro exI [of _ "AJoin i 0 (map snd (merge_addrs sys udp https))"]) (simp add: simps act_join_def Let_def)
  qed
qed

lemma flow_progress:
  assumes i: "i < length (l_tasks s)" "\<not> l_panic s" and task: "l_tasks s ! i = TFlow f index stage"
  shows "\<exists>a s'. action_possible s a \<and> lte_act env a s = Some s'"
proof -
  note simps = i task on_task_nth
  show ?thesis
  proof (cases stage)
    case FStart
    then show ?thesis by (intro exI [of _ "AAllowed i"]) (simp add: simps)
  next
    case FConnect
    then show ?thesis by (intro exI [of _ "AConnect i 0 None 0 0"]) (simp add: simps)
  next
    case FHandshake
    then show ?thesis by (intro exI [of _ "AHandshake i '''' 0 [] undefined None 0 0"]) (simp add: simps)
  next
    case FAsk
    then show ?thesis by (intro exI [of _ "ADeny i [] 0"]) (simp add: simps)
  next
    case FWait
    then show ?thesis by (intro exI [of _ "ADeny i [] 0"]) (simp add: simps)
  next
    case FFetch
    then show ?thesis by (intro exI [of _ "AFetch i [] 0 0"]) (simp add: simps)
  next
    case FRound
    then show ?thesis by (intro exI [of _ "ARound i [] (RoundError ErrTruncated) 0 0"]) (simp add: simps)
  qed
qed

lemma lte_progress:
  assumes inv: "task_inv u s" and "\<not> lte_final s"
  shows "\<exists>s'. lte_step env s s'"
proof -
  have panic: "\<not> l_panic s" using inv by (simp add: task_inv_def)
  then obtain i where i: "i < length (l_tasks s)" and busy: "\<not> task_done (l_tasks s ! i)"
    using assms(2) by (auto simp: lte_final_def list_all_length)
  have ok: "task_ok u (l_tasks s ! i)" using inv i by (simp add: task_inv_def list_all_length)
  note simps = i panic on_task_nth
  have "(\<exists>s'. lte_step env s s') \<or> (\<exists>a s'. action_possible s a \<and> lte_act env a s = Some s')"
  proof (cases "l_tasks s ! i")
    case (TResolvers t)
    then show ?thesis by (intro disjI2 exI [of _ "AResolve i 0 0"]) (simp add: simps)
  next
    case (TLookup t v)
    then show ?thesis using lookup_progress i panic by blast
  next
    case (TStart xs)
    then obtain y ys where "xs = y # ys" using ok by (cases xs) auto
    then show ?thesis using TStart by (intro disjI2 exI [of _ "AStart i"]) (simp add: simps)
  next
    case (TFlow f index stage)
    then show ?thesis using flow_progress i panic by blast
  next
    case (TControl c sent)
    then show ?thesis using control_progress i panic by blast
  next
    case (TLate t index)
    then show ?thesis by (intro disjI2 exI [of _ "ALateDone i []"]) (simp add: simps)
  qed (use busy in auto)
  then show ?thesis unfolding lte_step_def by blast
qed

section \<open>A sample run\<close>

text \<open>The successive states of a list of actions.\<close>

fun lte_exec :: "lte_env \<Rightarrow> lte_action list \<Rightarrow> lte_state \<Rightarrow> lte_state option" where
  "lte_exec env [] s = Some s"
| "lte_exec env (a # as) s = Option.bind (lte_act env a s) (lte_exec env as)"

fun is_control_result :: "lte_action \<Rightarrow> bool" where
  "is_control_result (AControl i result ord) = True"
| "is_control_result _ = False"

lemma lte_exec_runs: "lte_exec env as s = Some s' \<Longrightarrow> list_all (\<lambda>a. \<not> is_control_result a) as \<Longrightarrow> lte_runs env s s'"
proof (induction as arbitrary: s)
  case (Cons a as)
  then obtain t where t: "lte_act env a s = Some t" "lte_exec env as t = Some s'" by (auto split: Option.bind_splits)
  have "action_possible s a" using Cons.prems(2) by (cases a) simp_all
  then have "lte_step env s t" using t(1) unfolding lte_step_def by blast
  then show ?case using Cons.IH [OF t(2)] Cons.prems(2) unfolding lte_runs_def by (simp add: converse_rtranclp_into_rtranclp)
qed (simp add: lte_runs_def)

definition sample_lte_url :: parsed_url where
  "sample_lte_url = \<lparr>pu_Scheme = ''http'', pu_Opaque = '''', pu_Host = ''a.b:81'', pu_Path = ''/'', pu_RawQuery = '''', pu_rest = ''''\<rparr>"

definition sample_lte_string :: "parsed_url \<Rightarrow> string" where
  "sample_lte_string u = pu_Scheme u @ ''://'' @ pu_Host u @ pu_Path u"

definition sample_lte_env :: lte_env where
  "sample_lte_env = \<lparr>e_zeroTime = 0, e_UDPAddress = ''8.8.8.8:53'', e_raw = (\<lambda>_. ''''),
     e_lookup = \<lparr>le_db = (\<lambda>_. None), le_retval = (\<lambda>_. 0), le_qtype = (\<lambda>_. ''A'')\<rparr>,
     e_mkURL = (\<lambda>scheme host path query. Inr \<lparr>url_Scheme = scheme, url_Host = host, url_Hostname = host, url_Port = '''', url_Path = path,
       url_RawQuery = query, url_String = scheme @ ''://'' @ host @ path\<rparr>),
     e_cookies = (\<lambda>_ _. [])\<rparr>"

definition sample_lte_start :: "OOAPIService list \<Rightarrow> (go_error + lte_state) option" where
  "sample_lte_start ths = lte_start (\<lambda>_. Inr sample_lte_url) Inr sample_lte_string ''http://a.b:81/'' ''192.0.2.53'' ths
     (NewOpportunisticDNSOverHTTPSURLProvider []) []"

definition sample_lookups :: "string list \<Rightarrow> lte_action list" where
  "sample_lookups addrs = [AResolve 0 0 0, ASystemStart 0, ASystemDone 0 [] addrs, AUDPStart 0, AUDPDone 0 [] [], AHTTPSStart 0 0 id 0,
     AWhoamiSystem 0 0 (Inr []), AWhoamiUDP 0 0 (Inr []), AJoin 0 0 (map (\<lambda>a. \<lparr>de_Addr = a, de_Flags = 1\<rparr>) addrs)]"

text \<open>One address, and no secure flow because of the port; the cleartext flow connects and is too late for the permission.\<close>

definition sample_lte_actions :: "lte_action list" where
  "sample_lte_actions = sample_lookups [''192.0.2.1''] @
     [AStart 0, AAllowed 2, AConnect 2 0 None 0 0, ADeny 2 [] 0, ALateJoin 1, ALateDone 1 []]"

definition sample_lte_run :: "lte_action list \<Rightarrow> (lte_state \<times> lte_state) option" where
  "sample_lte_run as = (case sample_lte_start [] of Some (Inr s0) \<Rightarrow> map_option (Pair s0) (lte_exec sample_lte_env as s0) | _ \<Rightarrow> None)"

lemma sample_run_ends:
  "case sample_lte_run sample_lte_actions of
     None \<Rightarrow> False
   | Some (s0, s) \<Rightarrow> lte_final s \<and> \<not> l_cancelled s \<and> length (l_tasks s) = 3 \<and>
       map tcp_IP (lte_TCPConnect (l_tk s)) = [''192.0.2.1'']"
  by code_simp

lemma sample_run_parts:
  obtains s0 s where "sample_lte_start [] = Some (Inr s0)" "lte_runs sample_lte_env s0 s" "lte_final s" "\<not> l_cancelled s" "length (l_tasks s) = 3"
    "map tcp_IP (lte_TCPConnect (l_tk s)) = [''192.0.2.1'']"
proof -
  obtain s0 s where run: "sample_lte_run sample_lte_actions = Some (s0, s)" and s: "lte_final s" "\<not> l_cancelled s" "length (l_tasks s) = 3"
      "map tcp_IP (lte_TCPConnect (l_tk s)) = [''192.0.2.1'']"
    using sample_run_ends by (auto split: option.splits)
  have start: "sample_lte_start [] = Some (Inr s0)" and exec: "lte_exec sample_lte_env sample_lte_actions s0 = Some s"
    using run by (auto simp: sample_lte_run_def split: option.splits sum.splits)
  have "list_all (\<lambda>a. \<not> is_control_result a) sample_lte_actions" by (simp add: sample_lte_actions_def sample_lookups_def)
  with exec have "lte_runs sample_lte_env s0 s" by (rule lte_exec_runs)
  then show thesis by (rule that [OF start _ s])
qed

section \<open>Properties\<close>

text \<open>
  C6: A measurement of Web Connectivity ends. Whatever the network, the clock, the scheduling and the cancellation do, there is no infinite run of
  its goroutines: resolvers, flows, selectors, control and late replies. No goroutine ever panics, and as long as the wait group is not empty
  some goroutine can take a step.
\<close>

theorem lte_engine_ends:
  assumes "lte_start url_Parse toASCII urlString input resolverIP testhelpers doh whoami = Some (Inr s0)"
  shows "(\<nexists>g. g 0 = s0 \<and> (\<forall>k. lte_step env (g k) (g (Suc k)))) \<and>
    (\<forall>s. lte_runs env s0 s \<longrightarrow> \<not> l_panic s \<and> (lte_final s \<or> (\<exists>s'. lte_step env s s')))"
proof -
  obtain u where init: "lte_initial u testhelpers s0" using lte_start_initial [OF assms] by blast
  have "\<nexists>g. g 0 = s0 \<and> (\<forall>k. lte_step env (g k) (g (Suc k)))" using no_infinite_run init by blast
  moreover have "\<not> l_panic s \<and> (lte_final s \<or> (\<exists>s'. lte_step env s s'))" if "lte_runs env s0 s" for s
    using runs_inv(2) [OF init that] lte_progress [of u s env] by (auto simp: task_inv_def)
  ultimately show ?thesis by blast
qed

theorem lte_engine_ends_witness:
  "\<exists>s0 s. sample_lte_start [] = Some (Inr s0) \<and> lte_runs sample_lte_env s0 s \<and> lte_final s \<and> \<not> l_panic s"
proof -
  obtain s0 s where run: "sample_lte_start [] = Some (Inr s0)" "lte_runs sample_lte_env s0 s" "lte_final s" by (rule sample_run_parts)
  have "\<not> l_panic s" using lte_engine_ends [OF run(1) [unfolded sample_lte_start_def]] run(2) by blast
  then show ?thesis using run by blast
qed

text \<open>
  C7: The measurement fetches at most eleven times: in every state of every run the requests of the test keys and the redirects that may still be
  followed are at most eleven together, so that there is at most one request for the input and one for each redirect that was followed.
\<close>

theorem lte_engine_requests:
  assumes "lte_start url_Parse toASCII urlString input resolverIP testhelpers doh whoami = Some (Inr s0)" and "lte_runs env s0 s"
  shows "length (lte_Requests (l_tk s)) + nat (l_redirects s) \<le> 11 \<and> -1 \<le> l_redirects s"
proof -
  obtain u where init: "lte_initial u testhelpers s0" using lte_start_initial [OF assms(1)] by blast
  show ?thesis using runs_inv(1) [OF init assms(2)] by (auto simp: red_inv_def req_potential_def)
qed

theorem lte_engine_requests_witness:
  "\<exists>s0 s. sample_lte_start [] = Some (Inr s0) \<and> lte_runs sample_lte_env s0 s \<and> length (lte_Requests (l_tk s)) + nat (l_redirects s) \<le> 11"
proof -
  obtain s0 s where run: "sample_lte_start [] = Some (Inr s0)" "lte_runs sample_lte_env s0 s" by (rule sample_run_parts)
  then show ?thesis using lte_engine_requests [OF run(1) [unfolded sample_lte_start_def] run(2)] by blast
qed

text \<open>
  C8: The flows to the endpoints of a website never connect to the loopback interface, whatever addresses the resolvers and the test helper return:
  every TCP connect in the list \<open>tcp_connect\<close> of the test keys of every run is to an address that is a valid IP address and not a loopback
  address. The connects of the lookups over HTTPS, which the code does not filter, are in a list of their own.
\<close>

theorem lte_engine_no_loopback:
  assumes "lte_start url_Parse toASCII urlString input resolverIP testhelpers doh whoami = Some (Inr s0)" and "lte_runs env s0 s"
    and "ev \<in> set (lte_TCPConnect (l_tk s))"
  shows "\<exists>ip. ParseIP (tcp_IP ev) = Some ip \<and> \<not> IP_IsLoopback ip"
proof -
  obtain u where init: "lte_initial u testhelpers s0" using lte_start_initial [OF assms(1)] by blast
  have "\<not> IsLoopback (tcp_IP ev)" using runs_inv(2) [OF init assms(2)] assms(3) by (auto simp: task_inv_def tk_ok_def list_all_iff)
  then show ?thesis by (auto simp: IsLoopback_def split: option.splits)
qed

theorem lte_engine_no_loopback_witness:
  "\<exists>s0 s ev ip. sample_lte_start [] = Some (Inr s0) \<and> lte_runs sample_lte_env s0 s \<and> ev \<in> set (lte_TCPConnect (l_tk s)) \<and>
     tcp_IP ev = ''192.0.2.1'' \<and> ParseIP (tcp_IP ev) = Some ip \<and> \<not> IP_IsLoopback ip"
proof -
  obtain s0 s where run: "sample_lte_start [] = Some (Inr s0)" "lte_runs sample_lte_env s0 s"
      "map tcp_IP (lte_TCPConnect (l_tk s)) = [''192.0.2.1'']" by (rule sample_run_parts)
  then obtain ev where ev: "ev \<in> set (lte_TCPConnect (l_tk s))" "tcp_IP ev = ''192.0.2.1''" by auto
  show ?thesis using lte_engine_no_loopback [OF run(1) [unfolded sample_lte_start_def] run(2) ev(1)] run ev by blast
qed

text \<open>
  The analysis of a measurement does not panic when at most ten thousand goroutines started, so that the namespaces of the transaction
  identifiers do not overlap: no flow fetches after its handshake failed and every flow has its own identifier.
\<close>

lemma lte_analysed:
  assumes "lte_start url_Parse toASCII urlString input resolverIP testhelpers doh whoami = Some (Inr s0)" and "lte_runs env s0 s"
    and "lte_final s" and "\<not> l_cancelled s" and "length (l_tasks s) \<le> 10000"
    and "\<And>u. inputparser_Parse url_Parse toASCII lte_input_config input = Some (Inr u) \<Longrightarrow> \<exists>host. urlHostname (urlString u) = Inr host"
  shows "\<exists>tk. lte_finish lookupper uni urlHostname ctx_err s = Some (Inr (tk, getTestHelper tk, fundamentalFailure tk)) \<and>
    Finalize lookupper uni urlHostname (l_tk s) = Some tk"
proof -
  obtain u where init: "lte_initial (to_URL urlString u) testhelpers s0"
      and parse: "inputparser_Parse url_Parse toASCII lte_input_config input = Some (Inr u)" by (rule lte_start_initial [OF assms(1)])
  note inv = runs_inv [OF init assms(2)]
  obtain host where host: "urlHostname (urlString u) = Inr host" using assms(6) parse by blast
  have request: "request_parses urlHostname (l_tk s)"
    using inv(2) host by (auto simp: request_parses_def task_inv_def tk_ok_def to_URL_def)
  have "no_request_after_failed_tls (l_tk s)"
    unfolding no_request_after_failed_tls_def
  proof (intro ballI impI notI)
    fix ev req
    assume ev: "ev \<in> set (lte_TLSHandshakes (l_tk s))" "tls_Failure ev \<noteq> None" and req: "req \<in> set (lte_Requests (l_tk s))"
      and eq: "tls_TransactionID ev = http_TransactionID req"
    have "tls_TransactionID ev \<in># failed_ids (l_tk s)" "http_TransactionID req \<in># request_ids (l_tk s)"
      using ev req by (auto simp: failed_ids_def request_ids_def)
    then have "0 < count (failed_ids (l_tk s)) (http_TransactionID req)" "0 < count (request_ids (l_tk s)) (http_TransactionID req)"
      by (simp_all add: eq)
    moreover have "count (all_ids s) (http_TransactionID req) \<le> 1" using inv(3) assms(5) by (simp add: id_inv_def)
    ultimately show False unfolding all_ids_def count_union by linarith
  qed
  from Finalize_total [OF this request] obtain tk where "Finalize lookupper uni urlHostname (l_tk s) = Some tk" by blast
  then show ?thesis using assms(4) by (simp add: lte_finish_def)
qed

end
