(* ===== verification/LteBounds.thy ===== *)
theory LteBounds
  imports LteSafety
begin

text \<open>
  How many goroutines a measurement of Web Connectivity (theory \<open>LteEngine\<close>) starts. The code bounds the redirects and with them the lookups; it
  does not bound the addresses that a lookup or the test helper returns. When these are at most \<open>n\<close>, there are at most \<open>23 + 24 n\<close>
  goroutines: one for the resolvers of the input and of each of the ten redirects, one for the late replies of each lookup, two flows for each
  address, the control and two flows for each address that only the test helper found.
\<close>

section \<open>Runs with few addresses\<close>

fun small_action :: "nat \<Rightarrow> lte_action \<Rightarrow> bool" where
  "small_action n (AJoin i now ord) = (length ord \<le> n)"
| "small_action n (AControl i result ord) = (length (th_only ord) \<le> n)"
| "small_action n _ = True"

definition small_step :: "nat \<Rightarrow> lte_env \<Rightarrow> lte_state \<Rightarrow> lte_state \<Rightarrow> bool" where
  "small_step n env s s' \<longleftrightarrow> (\<exists>a. action_possible s a \<and> small_action n a \<and> lte_act env a s = Some s')"

definition small_runs :: "nat \<Rightarrow> lte_env \<Rightarrow> lte_state \<Rightarrow> lte_state \<Rightarrow> bool" where
  "small_runs n env = (small_step n env)\<^sup>*\<^sup>*"

lemma small_runs_runs: "small_runs n env s s' \<Longrightarrow> lte_runs env s s'"
  unfolding small_runs_def lte_runs_def by (rule rtranclp_mono [THEN predicate2D]) (auto simp: small_step_def lte_step_def)

section \<open>The goroutines that may still start\<close>

fun w_pending :: "nat \<Rightarrow> start \<Rightarrow> nat" where
  "w_pending n (StartFlow f) = 1"
| "w_pending n (StartControl c) = 1 + 2 * n"

definition w_helpers :: "nat \<Rightarrow> DNSResolvers \<Rightarrow> nat" where
  "w_helpers n t = (if rs_TestHelpers t = [] then 0 else 1 + 2 * n)"

fun w_new :: "nat \<Rightarrow> task \<Rightarrow> nat" where
  "w_new n (TResolvers t) = 1 + 2 * n + w_helpers n t"
| "w_new n (TLookup t v) = (case rv_udp v of LDone addrs \<Rightarrow> 0 | _ \<Rightarrow> 1) + 2 * n + w_helpers n t"
| "w_new n (TStart xs) = sum_list (map (w_pending n) xs)"
| "w_new n (TControl c sent) = 2 * n"
| "w_new n _ = 0"

definition goroutines :: "nat \<Rightarrow> lte_state \<Rightarrow> nat" where
  "goroutines n s = length (l_tasks s) + task_sum (w_new n) (l_tasks s) + nat (l_redirects s) * (2 + 2 * n)"

definition small_cache :: "nat \<Rightarrow> (string, DNSEntry list) gomap \<Rightarrow> bool" where
  "small_cache n cache \<longleftrightarrow> (\<forall>domain addresses. DNSCache_Get domain cache = Some addresses \<longrightarrow> length addresses \<le> n)"

lemma w_new_mk_start [simp]: "w_new n (mk_start xs) = sum_list (map (w_pending n) xs)"
  by (simp add: mk_start_def)

lemma w_flows [simp]: "sum_list (map (w_pending n \<circ> StartFlow) fs) = length fs"
  by (induction fs) simp_all

lemma w_control_of: "sum_list (map (w_pending n \<circ> StartControl) (control_of t ps addresses)) = w_helpers n t"
  by (simp add: control_of_def w_helpers_def)

lemma flows_le:
  "length (startCleartextFlows t ps addresses) \<le> length addresses" "length (startSecureFlows t ps addresses) \<le> length addresses"
  by (simp_all add: startCleartextFlows_def startSecureFlows_def Let_def)

lemma flows_le_bound:
  "length addresses \<le> n \<Longrightarrow> length (startCleartextFlows t ps addresses) + length (startSecureFlows t ps addresses) \<le> 2 * n"
  using flows_le [of t ps addresses] by linarith

lemma cache_set_small: "small_cache n cache \<Longrightarrow> length addresses \<le> n \<Longrightarrow> small_cache n (DNSCache_Set domain addresses cache)"
  by (auto simp: small_cache_def DNSCache_Get_def DNSCache_Set_def)

lemma cache_frames [simp]:
  "l_cache (set_task i t s) = l_cache s" "l_cache (spawn t s) = l_cache s" "l_cache (upd_tk f s) = l_cache s" "l_cache (panic s) = l_cache s"
  "l_cache (set_selector j st s) = l_cache s" "l_cache (flow_exit i now txq s) = l_cache s" "l_cache (set_cookies req cookies s) = l_cache s"
  by (simp_all add: set_task_def spawn_def upd_tk_def panic_def set_selector_def flow_exit_def set_cookies_def NetworkEvents_def)

lemma reply_cache [simp]: "l_cache (reply r v s) = l_cache s"
  by (auto simp: reply_def split: task.split flow_stage.split option.split)

lemma fold_reply_cache [simp]: "l_cache (fold (\<lambda>r. reply r v) rs s) = l_cache s"
  by (induction rs arbitrary: s) simp_all

lemma reply_new [simp]:
  "task_sum (w_new n) (l_tasks (reply r v s)) = task_sum (w_new n) (l_tasks s)"
  "task_sum (w_new n) (l_tasks (fold (\<lambda>r. reply r v) rs s)) = task_sum (w_new n) (l_tasks s)"
  by (rule task_sum_reply task_sum_fold_reply; simp)+

definition fewer :: "nat \<Rightarrow> lte_state \<Rightarrow> lte_state \<Rightarrow> bool" where
  "fewer n s s' \<longleftrightarrow> goroutines n s' \<le> goroutines n s \<and> small_cache n (l_cache s')"

lemma fan_out_fewer:
  assumes "l_tasks s = us @ x # vs" "length us = i" and "length addresses \<le> n" and "2 * n + w_helpers n t \<le> w_new n x"
    and "small_cache n (l_cache s)"
  shows "fewer n s (fan_out env i now t addresses s)"
  using assms flows_le_bound [OF assms(3), of t "Some (length (l_selectors s))"]
  by (auto simp: fewer_def goroutines_def fan_out_def Let_def w_control_of)

lemma fewer_resolve:
  assumes "lte_act env (AResolve i now draw) s = Some s'" and "small_cache n (l_cache s)"
  shows "fewer n s s'"
proof -
  obtain us t vs where tasks: "l_tasks s = us @ TResolvers t # vs" "length us = i" and s': "s' = act_resolve env i now draw t s"
    using assms(1) by (auto elim!: on_task_SomeE split: task.splits)
  show ?thesis
  proof (cases "DNSCache_Get (rs_Domain t) (l_cache s)")
    case (Some addresses)
    then have "length addresses \<le> n" using assms(2) by (auto simp: small_cache_def)
    then show ?thesis using fan_out_fewer [OF tasks] assms(2) Some by (simp add: s' act_resolve_def)
  next
    case None
    then show ?thesis using tasks assms(2) by (auto simp: s' act_resolve_def fewer_def goroutines_def)
  qed
qed

lemma fewer_join:
  assumes "lte_act env (AJoin i now ord) s = Some s'" and "length ord \<le> n" and "small_cache n (l_cache s)"
  shows "fewer n s s'"
proof -
  obtain us t v vs where tasks: "l_tasks s = us @ TLookup t v # vs" "length us = i" and join: "act_join env i now ord t v s = Some s'"
    using assms(1) by (auto elim!: on_task_SomeE split: task.splits)
  then obtain f where s': "s' = fan_out env i now t ord (upd_tk f s\<lparr>l_cache := DNSCache_Set (rs_Domain t) ord (l_cache s)\<rparr>)" and "\<exists>a. rv_udp v = LDone a"
    by (auto simp: act_join_def Let_def split: lookup_stage.splits option.splits if_splits)
  let ?s = "upd_tk f s\<lparr>l_cache := DNSCache_Set (rs_Domain t) ord (l_cache s)\<rparr>"
  have "fewer n ?s s'"
    unfolding s' by (rule fan_out_fewer [of _ us "TLookup t v" vs]) (use tasks assms(2,3) \<open>\<exists>a. rv_udp v = LDone a\<close> cache_set_small in auto)
  then show ?thesis by (simp add: fewer_def goroutines_def)
qed

lemma fewer_resolvers:
  assumes "lte_act env a s = Some s'" and "resolver_action a" and "small_action n a" and "small_cache n (l_cache s)"
  shows "fewer n s s'"
proof (cases "(\<exists>i now draw. a = AResolve i now draw) \<or> (\<exists>i now ord. a = AJoin i now ord)")
  case True
  then show ?thesis using assms fewer_resolve fewer_join by (auto simp del: lte_act.simps)
next
  case False
  then show ?thesis using assms
    by (cases a; auto simp: act_defs fewer_def goroutines_def Let_def elim!: on_task_SomeE
        split: option.splits prod.splits task.splits lookup_stage.splits if_splits)
qed

lemma fewer_control:
  assumes "lte_act env a s = Some s'" and "control_action a" and "small_action n a" and "small_cache n (l_cache s)"
  shows "fewer n s s'"
proof (cases a)
  case (AControl i result ord)
  then show ?thesis using assms flows_le_bound [of "th_only ord" n]
    by (auto simp: act_control_def fewer_def goroutines_def Let_def elim!: on_task_SomeE
        split: option.splits prod.splits task.splits sum.splits if_splits)
qed (use assms in \<open>auto simp: act_defs fewer_def goroutines_def Let_def elim!: on_task_SomeE
      split: option.splits prod.splits task.splits list.splits start.splits sum.splits if_splits\<close>)

lemma fewer_flow:
  assumes "lte_act env a s = Some s'" and "\<not> resolver_action a" and "\<not> control_action a" and "\<not> selector_action a"
    and "small_cache n (l_cache s)"
  shows "fewer n s s'"
  using assms
  by (cases a; auto simp: act_defs fewer_def goroutines_def Let_def elim!: on_task_SomeE
      split: option.splits prod.splits task.splits flow_stage.splits sum.splits if_splits)

lemma fewer_selector:
  assumes "lte_act env a s = Some s'" and "selector_action a" and "\<not> is_round a" and "small_cache n (l_cache s)"
  shows "fewer n s s'"
  using assms
  by (cases a; auto simp: act_send_def act_expire_def act_selector_cancelled_def fewer_def goroutines_def Let_def elim!: on_task_SomeE
      split: option.splits prod.splits task.splits flow_stage.splits sum.splits selector_stage.splits if_splits)

lemma act_round_cache [simp]: "l_cache (act_round env i f txq alpn req started ios rt finished now s) = l_cache s"
proof -
  have "l_cache (fold (\<lambda>t. spawn (TResolvers t)) ts s) = l_cache s" for ts s by (induction ts arbitrary: s) simp_all
  then show ?thesis by (simp add: act_round_def Let_def split: prod.split)
qed

lemma fewer_round:
  assumes act: "lte_act env (ARound i ios rt finished now) s = Some s'" and red: "red_inv s" and "small_cache n (l_cache s)"
  shows "fewer n s s'"
proof -
  from act obtain us f index tx q alpn req started vs where
    tasks: "l_tasks s = us @ TFlow f index (FRound tx q alpn req started) # vs" "length us = i"
    and s': "s' = act_round env i f (tx, q) alpn req started ios rt finished now s" by (rule round_roundE)
  then have i: "i < length (l_tasks s)" by simp
  from act_round_view [OF red_inv_bounds(1,2) [OF red] i s'] obtain ts where
    view: "l_tasks s' = (l_tasks s)[i := TDone] @ map TResolvers ts"
      "ts = [] \<and> l_redirects s' \<in> {l_redirects s - 1, l_redirects s} \<or>
       (\<exists>t. ts = [t] \<and> rs_TestHelpers t = [] \<and> l_redirects s' = l_redirects s - 1 \<and> 0 < l_redirects s)" by blast
  have "goroutines n s' \<le> goroutines n s"
    using view(2)
  proof
    assume ts: "ts = [] \<and> l_redirects s' \<in> {l_redirects s - 1, l_redirects s}"
    then have "nat (l_redirects s') \<le> nat (l_redirects s)" by auto
    then have "nat (l_redirects s') * (2 + 2 * n) \<le> nat (l_redirects s) * (2 + 2 * n)" by (rule mult_le_mono1)
    moreover have "task_sum (w_new n) (l_tasks s') = task_sum (w_new n) (l_tasks s)" "length (l_tasks s') = length (l_tasks s)"
      using tasks ts by (auto simp: view(1))
    ultimately show ?thesis by (simp only: goroutines_def)
  next
    assume "\<exists>t. ts = [t] \<and> rs_TestHelpers t = [] \<and> l_redirects s' = l_redirects s - 1 \<and> 0 < l_redirects s"
    then obtain t where t: "ts = [t]" "rs_TestHelpers t = []" "nat (l_redirects s) = Suc (nat (l_redirects s'))" by auto
    then show ?thesis using tasks by (auto simp: goroutines_def view(1) w_helpers_def)
  qed
  then show ?thesis using assms(3) by (simp add: fewer_def s')
qed

lemma fewer_step:
  assumes act: "lte_act env a s = Some s'" and "small_action n a" and red: "red_inv s" and "small_cache n (l_cache s)"
  shows "fewer n s s'"
proof -
  consider "resolver_action a" | "control_action a" | "selector_action a" "is_round a" | "selector_action a" "\<not> is_round a"
    | "\<not> resolver_action a" "\<not> control_action a" "\<not> selector_action a" by blast
  then show ?thesis
  proof cases
    case 3
    then show ?thesis using assms fewer_round by (cases a) (simp_all del: lte_act.simps)
  qed (use assms fewer_resolvers fewer_control fewer_selector fewer_flow in blast)+
qed

text \<open>The bound.\<close>

lemma small_run_goroutines:
  assumes init: "lte_initial u ths s0" and run: "small_runs n env s0 s"
  shows "length (l_tasks s) \<le> 23 + 24 * n"
proof -
  have "red_inv s \<and> goroutines n s \<le> 23 + 24 * n \<and> small_cache n (l_cache s)"
    using run unfolding small_runs_def
  proof (induction rule: rtranclp_induct)
    case base
    then show ?case using init
      by (auto simp: initial_red_inv lte_initial_def goroutines_def w_helpers_def small_cache_def NewDNSCache_def DNSCache_Get_def)
  next
    case (step s s')
    then show ?case using fewer_step red_inv_step unfolding small_step_def fewer_def by (meson le_trans)
  qed
  then show ?thesis by (simp add: goroutines_def)
qed

section \<open>Properties\<close>

text \<open>
  C9: The analysis of a measurement never panics. Take a run in which no lookup returned more than four hundred addresses and the test helper
  found at most four hundred others. When its goroutines have joined, the context was not cancelled and the text of the measured URL parses,
  the measurer finalizes the test keys and returns them. The assertion of the analysis holds because no flow fetches after its handshake
  failed and every flow has its own identifier: the ten redirects and the number of addresses bound the goroutines by ten thousand, which is
  the size of a namespace of identifiers.
\<close>

theorem lte_engine_analysed:
  assumes "lte_start url_Parse toASCII urlString input resolverIP testhelpers doh whoami = Some (Inr s0)" and "small_runs 400 env s0 s"
    and "lte_final s" and "\<not> l_cancelled s"
    and "\<And>u. inputparser_Parse url_Parse toASCII lte_input_config input = Some (Inr u) \<Longrightarrow> \<exists>host. urlHostname (urlString u) = Inr host"
  shows "\<exists>tk. lte_finish lookupper uni urlHostname ctx_err s = Some (Inr (tk, getTestHelper tk, fundamentalFailure tk)) \<and>
    Finalize lookupper uni urlHostname (l_tk s) = Some tk"
proof -
  obtain u where "lte_initial u testhelpers s0" using lte_start_initial [OF assms(1)] by blast
  from small_run_goroutines [OF this assms(2)] have "length (l_tasks s) \<le> 10000" by simp
  then show ?thesis using lte_analysed [OF assms(1) small_runs_runs [OF assms(2)] assms(3,4)] assms(5) by blast
qed

lemma lte_exec_small_runs:
  "lte_exec env as s = Some s' \<Longrightarrow> list_all (\<lambda>a. \<not> is_control_result a \<and> small_action n a) as \<Longrightarrow> small_runs n env s s'"
proof (induction as arbitrary: s)
  case (Cons a as)
  then obtain t where t: "lte_act env a s = Some t" "lte_exec env as t = Some s'" by (auto split: Option.bind_splits)
  have "action_possible s a" using Cons.prems(2) by (cases a) simp_all
  then have "small_step n env s t" using t(1) Cons.prems(2) unfolding small_step_def by auto
  then show ?case using Cons.IH [OF t(2)] Cons.prems(2) unfolding small_runs_def by (simp add: converse_rtranclp_into_rtranclp)
qed (simp add: small_runs_def)

theorem lte_engine_analysed_witness:
  "\<exists>s0 s tk. sample_lte_start [] = Some (Inr s0) \<and> small_runs 400 sample_lte_env s0 s \<and> lte_final s \<and>
     lte_finish (\<lambda>_. None) id (\<lambda>_. Inr ''a.b'') ErrIsNil s = Some (Inr (tk, getTestHelper tk, fundamentalFailure tk))"
proof -
  obtain s0 s where "sample_lte_run sample_lte_actions = Some (s0, s)" and final: "lte_final s" "\<not> l_cancelled s"
    using sample_run_ends by (auto split: option.splits)
  then have run: "sample_lte_start [] = Some (Inr s0)" "lte_exec sample_lte_env sample_lte_actions s0 = Some s"
    by (auto simp: sample_lte_run_def split: option.splits sum.splits)
  have "list_all (\<lambda>a. \<not> is_control_result a \<and> small_action 400 a) sample_lte_actions"
    by (simp add: sample_lte_actions_def sample_lookups_def)
  with run(2) have runs: "small_runs 400 sample_lte_env s0 s" by (rule lte_exec_small_runs)
  show ?thesis
    using lte_engine_analysed [OF run(1) [unfolded sample_lte_start_def] runs final, of "\<lambda>_. Inr ''a.b''" "\<lambda>_. None" id ErrIsNil] run(1) runs final
    by blast
qed

end
