(* ===== verification/LtePorts.thy ===== *)
theory LtePorts
  imports LteSafety
begin

text \<open>
  What a measurement of Web Connectivity (theory \<open>LteEngine\<close>) does for a URL with a port of its own, such as \<open>http://a.org:8080/\<close>. The flows build
  the URL of the request with \<open>net.JoinHostPort\<close> from the host, which has the port already, and the port (\<open>urlHost\<close> of \<open>cleartextflow.go\<close> and
  \<open>secureflow.go\<close>), so that the host of that URL is \<open>[a.org:8080]:8080\<close>. The URL parser of the Go version that \<open>go.mod\<close> asks for refuses brackets
  around what is not an IP address.
\<close>

section \<open>The flows of a URL with a port\<close>

text \<open>The port is not the one that the scheme has without a port.\<close>

definition custom_port :: "URL \<Rightarrow> bool" where
  "custom_port u \<longleftrightarrow> CHR '':'' \<in> set (url_Host u) \<and> CHR '':'' \<notin> set (url_Port u) \<and> url_Port u \<noteq> '''' \<and>
     (url_Scheme u = ''http'' \<and> url_Port u \<noteq> ''80'' \<or> url_Scheme u = ''https'' \<and> url_Port u \<noteq> ''443'')"

definition port_flow :: "URL \<Rightarrow> flow \<Rightarrow> bool" where
  "port_flow u f \<longleftrightarrow> fl_HostHeader f = url_Host u \<and> fl_Referer f = '''' \<and> url_Port u \<noteq> (if fl_secure f then ''443'' else ''80'') \<and>
     (\<exists>addr. fl_Address f = join_host_port addr (url_Port u))"

definition port_resolvers :: "URL \<Rightarrow> DNSResolvers \<Rightarrow> bool" where
  "port_resolvers u t \<longleftrightarrow> rs_URL t = u \<and> rs_Referer t = ''''"

fun port_start :: "URL \<Rightarrow> start \<Rightarrow> bool" where
  "port_start u (StartFlow f) = port_flow u f"
| "port_start u (StartControl c) = port_resolvers u (co_starter c)"

fun no_round :: "flow_stage \<Rightarrow> bool" where
  "no_round (FRound tx q alpn req started) = False"
| "no_round _ = True"

fun port_task :: "URL \<Rightarrow> task \<Rightarrow> bool" where
  "port_task u (TResolvers t) = port_resolvers u t"
| "port_task u (TLookup t v) = port_resolvers u t"
| "port_task u (TStart xs) = list_all (port_start u) xs"
| "port_task u (TFlow f index stage) = (port_flow u f \<and> no_round stage)"
| "port_task u (TControl c sent) = port_resolvers u (co_starter c)"
| "port_task u _ = True"

definition port_inv :: "URL \<Rightarrow> lte_state \<Rightarrow> bool" where
  "port_inv u s \<longleftrightarrow> list_all (port_task u) (l_tasks s) \<and> lte_Requests (l_tk s) = []"

text \<open>What the URL parser refuses: brackets around a text that is not an IP address.\<close>

definition refuses_brackets :: "lte_env \<Rightarrow> bool" where
  "refuses_brackets env \<longleftrightarrow>
     (\<forall>scheme host port path query. ParseIP host = None \<longrightarrow> (\<exists>err. e_mkURL env scheme (''['' @ host @ '']:'' @ port) path query = Inl err))"

lemma port_flows:
  assumes "custom_port u" and "port_resolvers u t"
  shows "list_all (port_start u) (map StartFlow (startCleartextFlows t ps addresses))"
    and "list_all (port_start u) (map StartFlow (startSecureFlows t ps addresses))"
  using assms
  by (auto simp: startCleartextFlows_def startSecureFlows_def cleartext_flow_def secure_flow_def Let_def custom_port_def port_resolvers_def
      port_flow_def list_all_iff)

lemma port_control: "port_resolvers u t \<Longrightarrow> list_all (port_start u) (map StartControl (control_of t ps addresses))"
  by (simp add: control_of_def)

lemma port_mk_start [simp]: "port_task u (mk_start xs) \<longleftrightarrow> list_all (port_start u) xs"
  by (simp add: mk_start_def)

text \<open>No flow can make its request.\<close>

lemma port_no_request:
  assumes "custom_port u" and "ParseIP (url_Host u) = None" and "refuses_brackets env" and "port_flow u f" and "allowed f"
  shows "\<exists>err. newHTTPRequest (e_mkURL env) cookies f = Inl err"
proof -
  obtain addr where addr: "fl_Address f = join_host_port addr (url_Port u)" using assms(4) by (auto simp: port_flow_def)
  obtain h p where split: "SplitHostPort (fl_Address f) = Inr (h, p)" using allowed_splits [OF assms(5)] by blast
  have "p = url_Port u" using split_join_port split addr assms(1) by (simp add: custom_port_def)
  then have "urlHost f s = Inr (''['' @ url_Host u @ '']:'' @ url_Port u)" for s
    using url_host_of_flow [of f h p s] split assms(1,4) by (simp add: port_flow_def custom_port_def)
  moreover obtain err where "e_mkURL env (if fl_secure f then ''https'' else ''http'') (''['' @ url_Host u @ '']:'' @ url_Port u) (fl_URLPath f)
      (fl_URLRawQuery f) = Inl err"
    using assms(2,3) unfolding refuses_brackets_def by metis
  ultimately show ?thesis unfolding newHTTPRequest_def Let_def by simp
qed

lemma reply_port:
  assumes "list_all (port_task u) (l_tasks s)"
  shows "list_all (port_task u) (l_tasks (reply r v s))"
proof (cases "waiting (l_tasks s ! pr_task r) \<and> pr_task r < length (l_tasks s)")
  case True
  then obtain f index tx q alpn where old: "l_tasks s ! pr_task r = TFlow f index (FWait tx q alpn None)" by (auto simp: waiting_def)
  moreover have "port_task u (l_tasks s ! pr_task r)" using assms True by (simp add: list_all_length)
  ultimately show ?thesis using assms by (simp add: reply_def list_all_update)
next
  case False
  then show ?thesis using assms by (auto simp: reply_def waiting_def list_update_beyond split: task.split flow_stage.split option.split)
qed

lemma fold_reply_port: "list_all (port_task u) (l_tasks s) \<Longrightarrow> list_all (port_task u) (l_tasks (fold (\<lambda>r. reply r v) rs s))"
  by (induction rs arbitrary: s) (simp_all add: reply_port)

lemma port_resolver_step:
  assumes "lte_act env a s = Some s'" and "resolver_action a" and "custom_port u" and "port_inv u s"
  shows "port_inv u s'"
  using assms
  by (cases a; auto simp: act_defs port_inv_def fan_out_def Let_def port_flows port_control elim!: on_task_SomeE
      split: option.splits prod.splits task.splits lookup_stage.splits if_splits)

lemma port_control_step:
  assumes "lte_act env a s = Some s'" and "control_action a" and "custom_port u" and "port_inv u s"
  shows "port_inv u s'"
  using assms
  by (cases a; auto simp: act_defs port_inv_def Let_def port_flows elim!: on_task_SomeE
      split: option.splits prod.splits task.splits list.splits start.splits sum.splits if_splits dest!: control_failure_frames)

lemma port_flow_step:
  assumes "lte_act env a s = Some s'" and "\<not> resolver_action a" and "\<not> control_action a" and "\<not> selector_action a"
    and "custom_port u" and "ParseIP (url_Host u) = None" and "refuses_brackets env" and "task_inv u s" and "port_inv u s"
  shows "port_inv u s'"
  using assms(1-4) assms(8,9) port_no_request [OF assms(5-7)]
  by (cases a; auto simp: act_defs port_inv_def task_inv_def Let_def elim!: on_task_SomeE
      split: option.splits prod.splits task.splits flow_stage.splits sum.splits if_splits) (metis sum.distinct(1))+

lemma port_selector_step:
  assumes act: "lte_act env a s = Some s'" and "selector_action a" and inv: "port_inv u s"
  shows "port_inv u s'"
proof -
  have update: "list_all (port_task u) ((l_tasks s)[i := t])" if "port_task u t" for i t
    using inv that by (simp add: port_inv_def list_all_update)
  have "list_all (port_task u) (l_tasks s') \<and> l_tk s' = l_tk s"
  proof (cases a)
    case (ASend i ts)
    then show ?thesis using act inv update
      by (auto simp: act_send_def port_inv_def Let_def elim!: on_task_SomeE intro!: reply_port
          split: task.splits flow_stage.splits option.splits sum.splits prod.splits if_splits selector_stage.splits)
  next
    case (AExpire j)
    then show ?thesis using act inv
      by (auto simp: act_expire_def port_inv_def intro!: fold_reply_port reply_port split: if_splits prod.splits selector_stage.splits option.splits)
  next
    case (ASelectorCancelled j)
    then show ?thesis using act inv by (auto simp: act_selector_cancelled_def port_inv_def split: if_splits)
  next
    case (ARound i ios rt finished now)
    then show ?thesis using act inv by (auto simp: port_inv_def elim!: on_task_SomeE split: task.splits flow_stage.splits if_splits)
  qed (use assms(2) in auto)
  then show ?thesis using inv by (simp add: port_inv_def)
qed

lemma port_step:
  assumes "lte_act env a s = Some s'" and "custom_port u" and "ParseIP (url_Host u) = None" and "refuses_brackets env" and "task_inv u s"
    and "port_inv u s"
  shows "port_inv u s'"
proof -
  consider "resolver_action a" | "control_action a" | "selector_action a" | "\<not> resolver_action a" "\<not> control_action a" "\<not> selector_action a" by blast
  then show ?thesis using assms port_resolver_step port_control_step port_selector_step port_flow_step by cases blast+
qed

lemma runs_port_inv:
  assumes init: "lte_initial u ths s0" and run: "lte_runs env s0 s"
    and port: "custom_port u" "ParseIP (url_Host u) = None" "refuses_brackets env"
  shows "port_inv u s"
proof -
  have "red_inv s0" "task_inv u s0" "port_inv u s0"
    using runs_inv [OF init, of env s0] init by (auto simp: lte_runs_def lte_initial_def port_inv_def port_resolvers_def)
  then have "red_inv s \<and> task_inv u s \<and> port_inv u s"
    using runs_invariant [of env s0 s "\<lambda>s. red_inv s \<and> task_inv u s \<and> port_inv u s", OF run] red_inv_step task_inv_step port_step [OF _ port]
    by blast
  then show ?thesis by blast
qed

lemma port_fetch_fails:
  assumes "lte_act env (AFetch i ts now0 now) s = Some s'" and "task_inv u s" and "port_inv u s"
    and "custom_port u" "ParseIP (url_Host u) = None" "refuses_brackets env"
  shows "fundamentalFailure (l_tk s') \<noteq> None"
proof -
  obtain us f index tx q alpn vs where tasks: "l_tasks s = us @ TFlow f index (FFetch tx q alpn) # vs" "length us = i"
      and s': "s' = act_fetch env i f index now0 now (samples env ts (tx, q)) alpn s"
    using assms(1) by (auto elim!: on_task_SomeE split: task.splits flow_stage.splits)
  have "port_flow u f" "allowed f" using assms(2,3) tasks by (simp_all add: port_inv_def task_inv_def)
  then obtain err where "newHTTPRequest (e_mkURL env) (e_cookies env (l_jar s)) f = Inl err" using port_no_request assms(4-6) by blast
  with \<open>port_flow u f\<close> show ?thesis
    by (simp add: s' act_fetch_def port_flow_def flow_exit_def NetworkEvents_def SetFundamentalFailure_def AppendNetworkEvents_def)
qed

section \<open>Properties\<close>

text \<open>
  C40: A URL with a port of its own is never fetched. Take an accepted input whose host has a port that is not the one of its scheme, and a URL
  parser that refuses brackets around a text that is not an IP address, as that of Go 1.26 does. In every run of the measurement the test
  keys have no request, and a flow that is permitted to fetch ends in a fundamental failure, so that the measurement returns an error and is
  not submitted.
\<close>

theorem custom_port_never_fetched:
  assumes "lte_start url_Parse toASCII urlString input resolverIP testhelpers doh whoami = Some (Inr s0)"
    and "inputparser_Parse url_Parse toASCII lte_input_config input = Some (Inr u)"
    and "pu_Port u \<notin> {'''', if pu_Scheme u = ''https'' then ''443'' else ''80''}" and "ParseIP (pu_Host u) = None"
    and "refuses_brackets env" and "lte_runs env s0 s"
  shows "lte_Requests (l_tk s) = [] \<and>
    (\<forall>i ts now0 now s'. lte_act env (AFetch i ts now0 now) s = Some s' \<longrightarrow> fundamentalFailure (l_tk s') \<noteq> None)"
proof -
  let ?u = "to_URL urlString u"
  have init: "lte_initial ?u testhelpers s0" using lte_start_initial [OF assms(1)] assms(2) by (metis option.inject sum.inject(2))
  have "pu_Scheme u = ''http'' \<or> pu_Scheme u = ''https''"
    using input_accepted [OF assms(2)] by (auto simp: isSchemeOK_def lte_input_config_def)
  then have port: "custom_port ?u" "ParseIP (url_Host ?u) = None"
    using assms(3,4) url_port_custom [of "pu_Host u"] by (auto simp: custom_port_def to_URL_def pu_Port_def split: if_splits)
  have inv: "task_inv ?u s" "port_inv ?u s"
    using runs_inv(2) [OF init assms(6)] runs_port_inv [OF init assms(6) port assms(5)] by auto
  then show ?thesis using port_fetch_fails port assms(5) by (auto simp: port_inv_def simp del: lte_act.simps)
qed

section \<open>A sample\<close>

definition sample_port_env :: lte_env where
  "sample_port_env = sample_lte_env\<lparr>e_mkURL := (\<lambda>scheme host path query.
     if has_prefix host ''['' then Inl (new_error ''invalid IP-literal'') else e_mkURL sample_lte_env scheme host path query)\<rparr>"

text \<open>The flow to the only address of \<open>http://a.b:81/\<close> connects, asks and is permitted to fetch.\<close>

definition sample_port_actions :: "lte_action list" where
  "sample_port_actions = sample_lookups [''192.0.2.1''] @ [AStart 0, AAllowed 2, AConnect 2 0 None 0 0, ASend 2 [], APermission 2 [] 0]"

lemma sample_port_run:
  "case sample_lte_start [] of
     Some (Inr s0) \<Rightarrow>
       (case lte_exec sample_port_env sample_port_actions s0 of Some s \<Rightarrow> lte_act sample_port_env (AFetch 2 [] 0 0) s \<noteq> None | None \<Rightarrow> False)
   | _ \<Rightarrow> False"
  by code_simp

theorem custom_port_never_fetched_witness:
  "\<exists>s0 s s'. sample_lte_start [] = Some (Inr s0) \<and> lte_runs sample_port_env s0 s \<and> lte_Requests (l_tk s) = [] \<and>
     lte_act sample_port_env (AFetch 2 [] 0 0) s = Some s' \<and> fundamentalFailure (l_tk s') \<noteq> None"
proof -
  obtain s0 s s' where run: "sample_lte_start [] = Some (Inr s0)" "lte_exec sample_port_env sample_port_actions s0 = Some s"
      "lte_act sample_port_env (AFetch 2 [] 0 0) s = Some s'"
    using sample_port_run by (auto simp del: lte_act.simps split: option.splits sum.splits)
  have "list_all (\<lambda>a. \<not> is_control_result a) sample_port_actions" by (simp add: sample_port_actions_def sample_lookups_def)
  with run(2) have runs: "lte_runs sample_port_env s0 s" by (rule lte_exec_runs)
  have parse: "inputparser_Parse (\<lambda>_. Inr sample_lte_url) Inr lte_input_config ''http://a.b:81/'' = Some (Inr sample_lte_url)"
    and port: "pu_Port sample_lte_url \<notin> {'''', if pu_Scheme sample_lte_url = ''https'' then ''443'' else ''80''}"
    and ip: "ParseIP (pu_Host sample_lte_url) = None" by code_simp+
  have "refuses_brackets sample_port_env" by (simp add: refuses_brackets_def sample_port_env_def has_prefix_def)
  from custom_port_never_fetched [OF run(1) [unfolded sample_lte_start_def] parse port ip this runs] run runs show ?thesis by blast
qed

end
