(* ===== verification/Spec2Isabelle.thy ===== *)
theory Spec2Isabelle
  imports
    GoPrelude GoSort GoFloat GoNet
    Archival Optional GoSet WebTitle Bogon WebObservation Observation Linear Classic Diff Analysis NormalizeSort
    KVStore Tactic StatsManager Policies HttpsDialer
    DnsMessages Resolvers NetDialer EngineResolver
    Scrubber NetErrors LteTestKeys LteAnalysis LteVerdict
    TraceX Urlgetter Messaging WebConn04 MeasureX HttpClientX
    LteParts LteEngine LteRuns LteSafety LteBounds LtePorts
begin

text \<open>
  A verification library of the engine of OONI Probe: how the probe reaches its own services in spite of censorship, how it measures websites
  and messaging services, and how it draws a verdict from what it measured. The program is written in Go; the modelled files are under
  \<open>src/internal\<close>, and the paths below are relative to it.

  \<^bold>\<open>The program.\<close> The engine talks to the services of OONI through the network layer \<open>enginenetx\<close>: policies produce dialing tactics (an
  address, a server name to send, a host name to verify), the HTTPS dialer tries them in parallel with happy-eyeballs delays, and a statistics
  manager remembers in the key-value store which tactics worked, which the statistics policy reads back. Names are resolved by the session
  resolver \<open>engineresolver\<close>, which ranks the resolvers of \<open>netxlite\<close>. Experiments use \<open>netxlite\<close> through the traces of \<open>measurexlite\<close> (or those
  of the older \<open>tracex\<close>), classify every error as a failure string, and fill the test keys of a measurement. Web Connectivity also asks
  a test helper for its view of the website (\<open>httpclientx\<close>, \<open>webconnectivityalgo\<close>); the minipipeline turns the events of both into
  observations and compares them, and the analysis publishes whether the website is accessible and how it is blocked. Before a
  measurement leaves the probe, the scrubber removes addresses.

  \<^bold>\<open>Shared theories.\<close> \<open>GoPrelude\<close> has the vocabulary of the whole development (strings as byte lists, 64-bit integers with wrap-around,
  maps as association lists in range order, errors as trees), \<open>GoSort\<close> the standard library's stable sort and shuffle, \<open>GoFloat\<close> the rounding
  of \<open>float64\<close>, \<open>GoNet\<close> addresses and endpoints, \<open>GoSet\<close> and \<open>Optional\<close> the two generic containers, \<open>KVStore\<close> the key-value store, \<open>Archival\<close>
  the archival data format.

  \<^bold>\<open>Theories and sources.\<close>
  \<^item> \<open>Tactic\<close>, \<open>StatsManager\<close>, \<open>Policies\<close>, \<open>HttpsDialer\<close>: \<open>enginenetx\<close>. The dialer is a transition system (\<open>dial_act\<close>) over its workers, the
    network, the clock and the cancellation; the statistics are a record that the handlers update atomically; the policies are functions
    from an endpoint to the tactics that their channel emits. Shown: every dial ends (a measure of \<open>7 n + 17\<close> for \<open>n\<close> tactics), closes what it
    opened, reports each attempt once and returns a verified connection; the statistics survive any disk content, refine a map and
    survive a restart; the policies emit only tactics for the requested endpoint.
  \<^item> \<open>DnsMessages\<close>, \<open>Resolvers\<close>, \<open>NetDialer\<close>, \<open>NetErrors\<close>, \<open>Bogon\<close>: \<open>netxlite\<close>. Messages, transports, resolvers and the dialer with their
    wrappers; the classifiers of errors. Shown: responses answer the query, framing round-trips, connections are closed, addresses are
    tried in order, a failure is classified once.
  \<^item> \<open>EngineResolver\<close>: \<open>engineresolver\<close>. Shown: the invariant of the stored scores, the result of every lookup, no bogons.
  \<^item> \<open>WebObservation\<close>, \<open>Observation\<close>, \<open>Linear\<close>, \<open>Classic\<close>, \<open>Diff\<close>, \<open>Analysis\<close>, \<open>NormalizeSort\<close>, \<open>WebTitle\<close>: \<open>minipipeline\<close>. Shown: the outcome of
    ingesting a measurement in every case, when the analysis panics, how failures are classified and sorted.
  \<^item> \<open>LteTestKeys\<close>, \<open>LteAnalysis\<close>, \<open>LteVerdict\<close>: the test keys and the analysis of \<open>experiment/webconnectivitylte\<close>. Shown: the published verdict is
    that of the decisive observation, its values are the documented ones, the flags have exactly their reasons.
  \<^item> \<open>LteParts\<close>, \<open>LteEngine\<close>, \<open>LteRuns\<close>, \<open>LteSafety\<close>, \<open>LteBounds\<close>, \<open>LtePorts\<close>: the measurement itself, \<open>experiment/webconnectivitylte\<close> with
    \<open>webconnectivityalgo\<close>, \<open>inputparser\<close> and \<open>throttling\<close>, as a transition system (\<open>lte_act\<close>) over its goroutines: resolvers, flows, priority
    selectors, control, late replies. Shown: every run ends without a panic (a lexicographic measure of redirects, resolvers, control and
    flows), makes at most eleven requests, never connects to the loopback interface, and its test keys can be analysed; URLs with a port of
    their own are never fetched.
  \<^item> \<open>MeasureX\<close> and \<open>TraceX\<close>: \<open>measurexlite\<close> and \<open>legacy/tracex\<close>. Shown: what each bounded buffer holds after any callbacks.
  \<^item> \<open>Urlgetter\<close>, \<open>Messaging\<close>, \<open>WebConn04\<close>: the experiments \<open>urlgetter\<close>, \<open>telegram\<close>, \<open>whatsapp\<close>, \<open>fbmessenger\<close> and \<open>webconnectivity\<close> 0.4 with the
    parallel runner as a transition system. Shown: the runner collects one result per input, the verdicts, the panics.
  \<^item> \<open>HttpClientX\<close>: \<open>httpclientx\<close> and the call of the test helpers. Shown: the overlapped calls of \<open>n\<close> endpoints end after at most \<open>4 n + 4\<close> steps
    with one result per endpoint.
  \<^item> \<open>Scrubber\<close>: \<open>scrubber\<close>, with the regular expressions as a total matcher on bytes.

  \<^bold>\<open>Interfaces.\<close> The contracts between components are locales, interpreted on the definitions that provide them: \<open>set_adt\<close> (sets), \<open>keyed_less\<close>
  (comparators that sort by a key), \<open>kv_store\<close> and \<open>kv_store_atomic\<close> (the store), \<open>endpoint_policy\<close>, \<open>child_policy\<close> and \<open>policy_pair\<close> (policies),
  \<open>classified_lookup\<close> (resolvers), \<open>collector\<close> (the parallel runner).

  \<^bold>\<open>Conventions.\<close> A panic is \<open>None\<close> or the flag \<open>l_panic\<close>; an error is the left of a sum; a pointer that may be nil is an option. A goroutine is
  an entry of a state, a step relation has every interleaving, a method that holds a mutex is one step, and a channel that is read to its
  end is a list. What is outside the repository is an argument: the network's outcomes, the clock, random draws, URL parsing,
  internationalised names, JSON, the DNS library, X.509, the GeoIP database, the HTTP transport. No definition needs fuel: loops are
  structural or have a termination proof, and for the transition systems termination is a theorem about all runs.

  \<^bold>\<open>Not modelled.\<close> Logging and metrics. The command line and mobile interfaces, the session and the probe services, the database and the
  registry of experiments, which orchestrate I/O. The wrappers of sockets, TLS, QUIC and HTTP libraries in \<open>netxlite\<close> beyond the functions
  above, whose behaviour is that of those libraries. The other experiments and the test helper, whose measurement loops are of the kind
  modelled here. The file-system store. The legacy \<open>measurex\<close> and the tutorials. Certificates and other generated data.

  This theory holds the property of the whole path from a policy to a verified connection.
\<close>

section \<open>Dialing a domain\<close>

text \<open>
  C1: The connection that the engine uses was verified. Take the policy that the engine selects, with or without a proxy and a user
  policy, statistics whose records are stored under the endpoint of their tactic, as the handlers leave them, and dial a domain that is a
  plain host name. If the dialer returns a connection, then the peer's leaf certificate verified for the host name of the tactic that made
  it, whatever SNI the tactic sent. When the user policy has tactics for the endpoint and there is no proxy, the tactic is one of those;
  otherwise it has the requested domain and port, so that the certificate verified for the requested domain.
\<close>

theorem engine_connection_verified:
  assumes "stats_wf c" and "stats_endpoints c" and "time_zero < now"
    and "plain_chars domain" and "CHR '':'' \<notin> set domain" and "plain_chars port" and "CHR '':'' \<notin> set port"
    and "DialTLSContext_start (newHTTPSDialerPolicy ctx_err rnd rnd' kvGet unmarshal proxyURL resolver c) (join_host_port domain port) now
      cancelled c = Some (Inr s0)"
    and "dial_run verify s0 k s" and "dial_final s"
    and "snd (httpsDialerReduceResult (d_connv s) (d_errorv s)) = DialConn conn"
  shows "(\<exists>leaf intermediates. tc_certs conn = leaf # intermediates \<and> verify leaf (VerifyHostname (tc_tactic conn)) intermediates = None) \<and>
    (if proxyURL = None \<and> user_tactics kvGet unmarshal domain port \<noteq> []
     then \<exists>t. Some t \<in> set (user_tactics kvGet unmarshal domain port) \<and> tc_tactic conn = t\<lparr>InitialDelay := InitialDelay (tc_tactic conn)\<rparr>
     else VerifyHostname (tc_tactic conn) = domain \<and> Port (tc_tactic conn) = port)"
proof -
  let ?policy = "newHTTPSDialerPolicy ctx_err rnd rnd' kvGet unmarshal proxyURL resolver c"
  obtain txs where txs: "?policy domain port = Some txs" "s0 = dial_init (httpsDialerFilterTactics txs) now cancelled c"
    using assms(8) by (auto simp: DialTLSContext_start_def SplitHostPort_join assms(4,6,7) split: Option.bind_splits)
  from dialer_outcome [OF assms(1,3) assms(9) [unfolded txs(2)] assms(10,11)]
  have conn: "tc_tactic conn \<in> set (httpsDialerFilterTactics txs)"
      "\<exists>leaf intermediates. tc_certs conn = leaf # intermediates \<and>
         verify leaf (VerifyHostname (tc_tactic conn)) intermediates = None" by auto
  show ?thesis
  proof (cases "proxyURL = None \<and> user_tactics kvGet unmarshal domain port \<noteq> []")
    case True
    then have "txs = user_tactics kvGet unmarshal domain port" using txs(1) by (simp add: engine_policy_priority)
    then show ?thesis using conn filtered_tactic [OF conn(1)] True by simp
  next
    case False
    then have "?policy domain port = (if proxyURL = None then composed_policy ctx_err rnd rnd' resolver c else dnsPolicy ctx_err resolver) domain port"
      by (auto simp: engine_policy_priority)
    then have keys: "\<forall>t \<in> set (httpsDialerFilterTactics txs). domainEndpointKey t = join_host_port domain port"
      using txs(1) endpoint_policy.filtered [OF composed_policy_contract [OF assms(1,2), of ctx_err rnd rnd' resolver], of domain port]
        dns.filtered [of ctx_err resolver domain port]
      by (auto split: if_splits)
    then have "join_host_port (VerifyHostname (tc_tactic conn)) (Port (tc_tactic conn)) = join_host_port domain port"
      using conn(1) by (simp add: domainEndpointKey_def)
    moreover have "domain = '''' \<or> hd domain \<noteq> CHR ''[''" using assms(4) by (cases domain) (auto simp: plain_chars_def)
    ultimately have "VerifyHostname (tc_tactic conn) = domain \<and> Port (tc_tactic conn) = port"
      using join_host_port_unique assms(5) by blast
    then show ?thesis using conn(2) False by (simp only: if_False)
  qed
qed

definition example_tactic :: httpsDialerTactic where
  "example_tactic = \<lparr>Address = ''192.0.2.1'', InitialDelay = 0, Port = ''443'', SNI = ''example.org'', VerifyHostname = ''example.org''\<rparr>"

definition example_resolver :: "string \<Rightarrow> string + string list" where
  "example_resolver hostname = Inr [''192.0.2.1'']"

lemma example_policy:
  "composed_policy False (\<lambda>_ _. 0) (\<lambda>_ _. 0) example_resolver newStatsContainer ''example.org'' ''443'' = Some [Some example_tactic]"
proof -
  have "dnsPolicy False example_resolver ''example.org'' ''443'' = Some [Some example_tactic]" by code_simp
  moreover have "statsPolicyV2 newStatsContainer ''example.org'' ''443'' = Some []"
    by (simp add: statsPolicyV2_def stats_LookupTactics_def newStatsContainer_def statsPolicyFilterStatsTactics_def streamTacticsFromSlice_def)
  moreover have "bridgesTacticsForDomain (\<lambda>_ _. 0) ''example.org'' ''443'' = Some []"
    by (simp add: bridgesTacticsForDomain_def)
  ultimately show ?thesis
    by (simp add: composed_policy_def mixPolicyInterleave_def testHelpersPolicy_def testHelpersDomains_def example_tactic_def
        interleave_loop_chunked channel_def chunked.simps factor_nat_def)
qed

lemma example_user_tactics: "user_tactics (\<lambda>_. Inl ''no such key'') (\<lambda>_. Inl '''') ''example.org'' ''443'' = []"
  by (simp add: user_tactics_def)

lemma example_start:
  "DialTLSContext_start (newHTTPSDialerPolicy False (\<lambda>_ _. 0) (\<lambda>_ _. 0) (\<lambda>_. Inl ''no such key'') (\<lambda>_. Inl '''') None example_resolver
     newStatsContainer) (join_host_port ''example.org'' ''443'') 0 False newStatsContainer =
   Some (Inr (dial_init [example_tactic] 0 False newStatsContainer))"
  by (simp add: DialTLSContext_start_def SplitHostPort_join plain_chars_def engine_policy_priority example_user_tactics example_policy
      httpsDialerFilterTactics_def filterAssignInitialDelays_def filterOnlyKeepUniqueTactics_def happyEyeballsDelay_def example_tactic_def)

theorem engine_connection_verified_witness:
  "\<exists>k s conn leaf intermediates.
     dial_run (\<lambda>_ _ _. None) (dial_init [example_tactic] 0 False newStatsContainer :: nat dial_state) k s \<and> dial_final s \<and>
     snd (httpsDialerReduceResult (d_connv s) (d_errorv s)) = DialConn conn \<and>
     VerifyHostname (tc_tactic conn) = ''example.org'' \<and> Port (tc_tactic conn) = ''443'' \<and> tc_certs conn = leaf # intermediates"
proof -
  have chain: "httpsDialerVerifyCertificateChain (\<lambda>_ _ _. None) (VerifyHostname example_tactic) [0 :: nat] = None"
    by (simp add: httpsDialerVerifyCertificateChain_def example_tactic_def)
  from dial_can_succeed [OF stats_wf_new time_zero_neg chain, of "[]" False] obtain k and s :: "nat dial_state" and c where
    run: "dial_run (\<lambda>_ _ _. None) (dial_init [example_tactic] 0 False newStatsContainer) k s" "dial_final s" "c \<in> set (d_connv s)"
    by blast
  then obtain conn where conn: "snd (httpsDialerReduceResult (d_connv s) (d_errorv s)) = DialConn conn"
    by (cases "d_connv s") (auto simp: httpsDialerReduceResult_def)
  have "stats_endpoints newStatsContainer"
    by (simp add: stats_endpoints_def stats_abs_def newStatsContainer_def nil_map_def)
  from engine_connection_verified [OF stats_wf_new this time_zero_neg _ _ _ _ example_start run(1,2) conn]
  have "VerifyHostname (tc_tactic conn) = ''example.org'' \<and> Port (tc_tactic conn) = ''443'' \<and>
      (\<exists>leaf intermediates. tc_certs conn = leaf # intermediates)"
    by (auto simp: plain_chars_def example_user_tactics)
  with run(1,2) conn show ?thesis by blast
qed

end
